(* ===== verification/Prelude.thy ===== *)
theory Prelude
  imports Main "HOL-Library.AList" "HOL-Library.Char_ord" "HOL-Library.List_Lexorder"
    "HOL-Library.Product_Lexorder" "HOL-Library.Monad_Syntax"
begin

text \<open>
  Shared vocabulary of the development: JavaScript values as the repository's validators see
  them, JSON trees, the character classes of its regular expressions, association lists for
  its insertion-ordered maps, state-passing programs whose state survives an exception, and a
  locale for machines whose operations all keep one invariant.

  A JavaScript string is a list of code units. The model uses \<^typ>\<open>string\<close>, that is code
  units below 256; every grammar of the program accepts printable ASCII only, so larger code
  units are rejected in the same way as the ones the model has.
\<close>

section \<open>JavaScript values\<close>

text \<open>
  Numbers: an integer-valued double, negative zero, and everything else (fractions, infinities,
  NaN). A property is an enumerable data property or anything else (accessor, not enumerable).
  An object is described by its prototype, whether it has a symbol key, and its string-keyed
  properties in order; an array by whether it is ordinary (prototype \<open>Array.prototype\<close>, no
  holes, no extra keys). Functions, symbols and big integers are \<open>VOpaque\<close>.

  Values are trees. An object that is referred to from several places is written out at each of
  them; where \<open>===\<close> can tell, an ordinary array also says which object it is: occurrences with
  the same number are one array, and an array without a number occurs nowhere else.
\<close>

datatype jsnum = NumInt int | NumNegZero | NumOther

datatype 'a property = DataProp 'a | HiddenProp

datatype proto = ObjectProto | NullProto | ForeignProto

datatype array_form = OrdinaryArray "nat option" | ForeignArray

fun is_ordinary :: "array_form \<Rightarrow> bool" where
  "is_ordinary (OrdinaryArray i) \<longleftrightarrow> True"
| "is_ordinary ForeignArray \<longleftrightarrow> False"

datatype jsval =
    VUndefined
  | VNull
  | VBool bool
  | VNum jsnum
  | VStr string
  | VOpaque
  | VArray array_form "jsval property list"
  | VObject proto bool "(string \<times> jsval property) list"

datatype json =
    JNull
  | JBool bool
  | JNum int
  | JStr string
  | JArr "json list"
  | JObj "(string \<times> json) list"

type_synonym fields = "(string \<times> jsval) list"

definition max_safe :: int where
  "max_safe = 9007199254740991"

text \<open>\<open>Number.isSafeInteger\<close>; negative zero is a safe integer and compares equal to zero.\<close>

definition safe_range :: "int \<Rightarrow> bool" where
  "safe_range n \<longleftrightarrow> - max_safe \<le> n \<and> n \<le> max_safe"

fun safe_integer :: "jsval \<Rightarrow> int option" where
  "safe_integer (VNum (NumInt n)) = (if safe_range n then Some n else None)"
| "safe_integer (VNum NumNegZero) = Some 0"
| "safe_integer _ = None"

definition num :: "int \<Rightarrow> jsval" where
  "num n = VNum (NumInt n)"

definition obj :: "fields \<Rightarrow> jsval" where
  "obj kvs = VObject ObjectProto False (map (\<lambda>(k, v). (k, DataProp v)) kvs)"

definition arr :: "jsval list \<Rightarrow> jsval" where
  "arr vs = VArray (OrdinaryArray None) (map DataProp vs)"

text \<open>The ordinary value a JSON text or a detached snapshot denotes.\<close>

fun js_of :: "json \<Rightarrow> jsval" where
  "js_of JNull = VNull"
| "js_of (JBool b) = VBool b"
| "js_of (JNum n) = VNum (NumInt n)"
| "js_of (JStr s) = VStr s"
| "js_of (JArr vs) = arr (map js_of vs)"
| "js_of (JObj kvs) = obj (map (\<lambda>(k, v). (k, js_of v)) kvs)"

fun data_value :: "jsval property \<Rightarrow> jsval option" where
  "data_value (DataProp v) = Some v"
| "data_value HiddenProp = None"

fun all_some :: "'a option list \<Rightarrow> 'a list option" where
  "all_some [] = Some []"
| "all_some (None # xs) = None"
| "all_some (Some x # xs) = map_option (Cons x) (all_some xs)"

text \<open>Reading a property that is absent gives \<open>undefined\<close>.\<close>

definition field :: "string \<Rightarrow> fields \<Rightarrow> jsval" where
  "field k o' = (case map_of o' k of None \<Rightarrow> VUndefined | Some v \<Rightarrow> v)"

definition has_own :: "string \<Rightarrow> fields \<Rightarrow> bool" where
  "has_own k o' \<longleftrightarrow> map_of o' k \<noteq> None"

definition guard :: "bool \<Rightarrow> unit option" where
  "guard b = (if b then Some () else None)"

fun string_value :: "jsval \<Rightarrow> string option" where
  "string_value (VStr s) = Some s"
| "string_value _ = None"

definition satisfying :: "('a \<Rightarrow> bool) \<Rightarrow> 'a option \<Rightarrow> 'a option" where
  "satisfying P x = (case x of None \<Rightarrow> None | Some v \<Rightarrow> if P v then Some v else None)"

text \<open>Checks that fail with an error: \<open>need\<close> a value, \<open>ensure\<close> a condition, in sequence.\<close>

definition need :: "'e \<Rightarrow> 'a option \<Rightarrow> 'e + 'a" where
  "need e x = (case x of None \<Rightarrow> Inl e | Some v \<Rightarrow> Inr v)"

definition ensure :: "'e \<Rightarrow> bool \<Rightarrow> 'e + unit" where
  "ensure e b = (if b then Inr () else Inl e)"

fun also_then :: "'e + 'a \<Rightarrow> ('a \<Rightarrow> 'e + 'b) \<Rightarrow> 'e + 'b" where
  "also_then (Inl e) f = Inl e"
| "also_then (Inr v) f = f v"

fun outcome_value :: "'e + 'a \<Rightarrow> 'a option" where
  "outcome_value (Inl e) = None"
| "outcome_value (Inr v) = Some v"

lemma need_simps [simp]: "need e None = Inl e" "need e (Some v) = Inr v"
  by (simp_all add: need_def)

lemma ensure_simps [simp]: "ensure e True = Inr ()" "ensure e False = Inl e"
  by (simp_all add: ensure_def)

lemma need_Inr [simp]: "need e x = Inr v \<longleftrightarrow> x = Some v"
  by (cases x) simp_all

lemma ensure_Inr [simp]: "ensure e b = Inr u \<longleftrightarrow> b"
  by (cases b) simp_all

lemma also_then_Inr: "also_then r f = Inr w \<longleftrightarrow> (\<exists>v. r = Inr v \<and> f v = Inr w)"
  by (cases r) simp_all

lemma outcome_value_Some [simp]: "outcome_value r = Some v \<longleftrightarrow> r = Inr v"
  by (cases r) simp_all

lemma all_some_map_Some [simp]: "all_some (map (\<lambda>x. Some (f x)) xs) = Some (map f xs)"
  by (induction xs) simp_all

lemma all_some_eq_Some: "all_some xs = Some ys \<longleftrightarrow> xs = map Some ys"
proof (induction xs arbitrary: ys)
  case (Cons x xs)
  then show ?case by (cases x; cases ys) auto
qed auto

lemma guard_simps [simp]: "guard True = Some ()" "guard False = None"
  by (simp_all add: guard_def)

lemma guard_eq_Some [simp]: "guard b = Some u \<longleftrightarrow> b"
  by (simp add: guard_def)

lemma satisfying_eq_Some: "satisfying P x = Some v \<longleftrightarrow> x = Some v \<and> P v"
  by (auto simp: satisfying_def split: option.splits if_splits)

lemma satisfying_Some [simp]: "satisfying P (Some v) = (if P v then Some v else None)"
  by (simp add: satisfying_def)

lemma satisfying_None [simp]: "satisfying P None = None"
  by (simp add: satisfying_def)

lemma safe_integer_range: "safe_integer v = Some n \<Longrightarrow> safe_range n"
  by (induction v rule: safe_integer.induct) (auto simp: safe_range_def max_safe_def split: if_splits)

lemma safe_integer_num [simp]: "safe_integer (num n) = (if safe_range n then Some n else None)"
  by (simp add: num_def)

lemma string_value_eq_Some [simp]: "string_value v = Some s \<longleftrightarrow> v = VStr s"
  by (cases v) auto

lemma num_inject [simp]: "num m = num n \<longleftrightarrow> m = n"
  by (simp add: num_def)

lemma num_js_of [simp]: "VNum (NumInt n) = num n"
  by (simp add: num_def)

text \<open>The properties of the object a JSON object denotes.\<close>

definition js_members :: "(string \<times> json) list \<Rightarrow> fields" where
  "js_members kvs = map (\<lambda>(k, v). (k, js_of v)) kvs"

lemma js_members_simps [simp]:
  "js_members [] = []"
  "js_members ((k, v) # kvs) = (k, js_of v) # js_members kvs"
  "js_members (xs @ ys) = js_members xs @ js_members ys"
  by (simp_all add: js_members_def)

lemma js_of_JObj [simp]: "js_of (JObj kvs) = obj (js_members kvs)"
  by (simp add: js_members_def)

declare js_of.simps(6) [simp del]

text \<open>Running a reader: evaluate its first step before looking at the rest.\<close>

lemma bind_weak_cong: "x = y \<Longrightarrow> Option.bind x f = Option.bind y f"
  by simp

lemma field_simps' [simp]:
  "field k [] = VUndefined"
  "field k ((k', v) # o') = (if k = k' then v else field k o')"
  by (simp_all add: field_def)

lemma has_own_simps [simp]:
  "\<not> has_own k []"
  "has_own k ((k', v) # o') \<longleftrightarrow> k = k' \<or> has_own k o'"
  by (auto simp: has_own_def)

section \<open>Character classes and the grammars built from them\<close>

definition code :: "char \<Rightarrow> nat" where
  "code c = of_char c"

text \<open>\<open>Buffer.byteLength\<close> in UTF-8 of code units below 256.\<close>

definition utf8_bytes :: "string \<Rightarrow> nat" where
  "utf8_bytes s = sum_list (map (\<lambda>c. if code c < 128 then 1 else 2) s)"

definition is_digit :: "char \<Rightarrow> bool" where
  "is_digit c \<longleftrightarrow> 48 \<le> code c \<and> code c \<le> 57"

definition is_upper :: "char \<Rightarrow> bool" where
  "is_upper c \<longleftrightarrow> 65 \<le> code c \<and> code c \<le> 90"

definition is_lower :: "char \<Rightarrow> bool" where
  "is_lower c \<longleftrightarrow> 97 \<le> code c \<and> code c \<le> 122"

definition is_alnum :: "char \<Rightarrow> bool" where
  "is_alnum c \<longleftrightarrow> is_digit c \<or> is_upper c \<or> is_lower c"

definition is_hex :: "char \<Rightarrow> bool" where
  "is_hex c \<longleftrightarrow> is_digit c \<or> 97 \<le> code c \<and> code c \<le> 102"

text \<open>Lowercase hexadecimal digests, \<open>/^[0-9a-f]{64}$/\<close>.\<close>

definition is_hex64 :: "string \<Rightarrow> bool" where
  "is_hex64 s \<longleftrightarrow> length s = 64 \<and> list_all is_hex s"

fun starts_with :: "'a list \<Rightarrow> 'a list \<Rightarrow> bool" where
  "starts_with [] s = True"
| "starts_with (p # ps) [] = False"
| "starts_with (p # ps) (c # s) = (p = c \<and> starts_with ps s)"

fun has_substring :: "'a list \<Rightarrow> 'a list \<Rightarrow> bool" where
  "has_substring p [] = starts_with p []"
| "has_substring p (c # s) = (starts_with p (c # s) \<or> has_substring p s)"

definition after_prefix :: "string \<Rightarrow> string \<Rightarrow> string option" where
  "after_prefix p s = (if starts_with p s then Some (drop (length p) s) else None)"

definition prefixed_hex64 :: "string \<Rightarrow> string \<Rightarrow> bool" where
  "prefixed_hex64 p s \<longleftrightarrow> (case after_prefix p s of None \<Rightarrow> False | Some r \<Rightarrow> is_hex64 r)"

lemma starts_with_append [simp]: "starts_with p (p @ s)"
  by (induction p) auto

lemma starts_with_iff: "starts_with p s \<longleftrightarrow> (\<exists>r. s = p @ r)"
  by (induction p s rule: starts_with.induct) auto

lemma prefixed_hex64_iff: "prefixed_hex64 p s \<longleftrightarrow> (\<exists>r. s = p @ r \<and> is_hex64 r)"
  by (auto simp: prefixed_hex64_def after_prefix_def starts_with_iff)

lemma prefixed_hex64_append [simp]: "prefixed_hex64 p (p @ r) \<longleftrightarrow> is_hex64 r"
  by (simp add: prefixed_hex64_iff)

lemma is_hex64_replicate: "is_hex c \<Longrightarrow> is_hex64 (replicate 64 c)"
  by (simp add: is_hex64_def list_all_iff)

text \<open>Canonical decimals \<open>/^[1-9][0-9]*$/\<close> and the number they denote.\<close>

definition digit_value :: "char \<Rightarrow> nat" where
  "digit_value c = code c - 48"

definition decimal_value :: "string \<Rightarrow> nat" where
  "decimal_value s = foldl (\<lambda>n c. 10 * n + digit_value c) 0 s"

definition positive_decimal :: "string \<Rightarrow> bool" where
  "positive_decimal s \<longleftrightarrow> s \<noteq> [] \<and> hd s \<noteq> CHR ''0'' \<and> list_all is_digit s"

text \<open>
  \<open>/^[A-Za-z0-9][A-Za-z0-9._:-]{0,127}$/\<close> without \<open>://\<close>; the identifiers of every
  component. Readers of a field give \<^const>\<open>None\<close> where the source throws.
\<close>

definition identifier_char :: "char \<Rightarrow> bool" where
  "identifier_char c \<longleftrightarrow> is_alnum c \<or> code c = 46 \<or> code c = 95 \<or> code c = 58 \<or> code c = 45"

definition identifier_text :: "string \<Rightarrow> bool" where
  "identifier_text s \<longleftrightarrow> s \<noteq> [] \<and> length s \<le> 128 \<and> is_alnum (hd s) \<and> list_all identifier_char (tl s)
     \<and> \<not> has_substring ''://'' s"

definition commitment_text :: "string \<Rightarrow> bool" where
  "commitment_text s \<longleftrightarrow> prefixed_hex64 ''sha256:'' s"

definition as_identifier :: "jsval \<Rightarrow> string option" where
  "as_identifier v = satisfying identifier_text (string_value v)"

definition as_commitment :: "jsval \<Rightarrow> string option" where
  "as_commitment v = satisfying commitment_text (string_value v)"

definition as_positive :: "jsval \<Rightarrow> int option" where
  "as_positive v = satisfying (\<lambda>n. 0 < n) (safe_integer v)"

definition as_count :: "jsval \<Rightarrow> int option" where
  "as_count v = satisfying (\<lambda>n. 0 \<le> n) (safe_integer v)"

definition positive_safe :: "int \<Rightarrow> bool" where
  "positive_safe n \<longleftrightarrow> 0 < n \<and> n \<le> max_safe"

definition count_safe :: "int \<Rightarrow> bool" where
  "count_safe n \<longleftrightarrow> 0 \<le> n \<and> n \<le> max_safe"

lemma as_identifier_VStr [simp]: "as_identifier (VStr s) = (if identifier_text s then Some s else None)"
  by (simp add: as_identifier_def satisfying_def)

lemma as_commitment_VStr [simp]: "as_commitment (VStr s) = (if commitment_text s then Some s else None)"
  by (simp add: as_commitment_def satisfying_def)

lemma as_positive_num [simp]: "as_positive (num n) = (if positive_safe n then Some n else None)"
  by (auto simp: as_positive_def satisfying_def safe_range_def positive_safe_def max_safe_def)

lemma as_count_num [simp]: "as_count (num n) = (if count_safe n then Some n else None)"
  by (auto simp: as_count_def satisfying_def safe_range_def count_safe_def max_safe_def)

lemma as_identifier_Some: "as_identifier v = Some s \<Longrightarrow> v = VStr s \<and> identifier_text s"
  by (simp add: as_identifier_def satisfying_eq_Some)

lemma as_commitment_Some: "as_commitment v = Some s \<Longrightarrow> v = VStr s \<and> commitment_text s"
  by (simp add: as_commitment_def satisfying_eq_Some)

lemma as_positive_Some: "as_positive v = Some n \<Longrightarrow> positive_safe n"
  by (auto simp: as_positive_def satisfying_eq_Some positive_safe_def safe_range_def dest!: safe_integer_range)

lemma as_count_Some: "as_count v = Some n \<Longrightarrow> count_safe n"
  by (auto simp: as_count_def satisfying_eq_Some count_safe_def safe_range_def dest!: safe_integer_range)

lemma positive_count: "positive_safe n \<Longrightarrow> count_safe n"
  by (simp add: positive_safe_def count_safe_def)

lemma commitment_prefix: "commitment_text s \<Longrightarrow> \<exists>h. s = ''sha256:'' @ h \<and> is_hex64 h"
  by (simp add: commitment_text_def prefixed_hex64_iff)

lemma is_hex_not_separator: "is_hex c \<Longrightarrow> c \<noteq> CHR ''/'' \<and> is_alnum c \<and> identifier_char c"
  by (auto simp: is_hex_def is_digit_def is_alnum_def identifier_char_def is_lower_def code_def)

lemma no_separator: "list_all (\<lambda>c. c \<noteq> CHR ''/'') s \<Longrightarrow> \<not> has_substring ''://'' s"
proof (induction s)
  case (Cons c s)
  then show ?case by (cases s) auto
qed simp

section \<open>Insertion-ordered maps\<close>

text \<open>
  A JavaScript \<open>Map\<close> is an association list in insertion order; \<open>get\<close> is \<^const>\<open>map_of\<close>,
  \<open>set\<close> is \<^const>\<open>AList.update\<close> (in place for a key that is present, at the end otherwise).
\<close>

lemma map_of_update [simp]: "map_of (AList.update k v al) k' = (if k' = k then Some v else map_of al k')"
  by (simp add: update_conv')

lemma update_new: "map_of al k = None \<Longrightarrow> AList.update k v al = al @ [(k, v)]"
  by (induction al) auto

lemma set_update_distinct:
  "distinct (map fst al) \<Longrightarrow>
    set (AList.update k v al) = {(k', v') \<in> set al. k' \<noteq> k} \<union> {(k, v)}"
proof (induction al)
  case (Cons a al)
  then show ?case by (cases a) (force simp: image_iff)
qed simp

lemma sum_list_update:
  fixes f :: "'k \<times> 'v \<Rightarrow> 'a::ab_group_add"
  assumes "distinct (map fst al)" and "map_of al k = Some w"
  shows "sum_list (map f (AList.update k v al)) = sum_list (map f al) - f (k, w) + f (k, v)"
  using assms by (induction al) (auto split: if_splits simp: algebra_simps)

lemma map_update_same:
  "map_of al k = Some w \<Longrightarrow> f (k, v) = f (k, w) \<Longrightarrow> map f (AList.update k v al) = map f al"
  by (induction al) (auto split: if_splits)

lemma update_same: "map_of al k = Some v \<Longrightarrow> AList.update k v al = al"
  by (induction al) (auto split: if_splits)

lemma map_of_eq_iff:
  "distinct (map fst al) \<Longrightarrow> map_of al k = Some v \<longleftrightarrow> (k, v) \<in> set al"
  by (metis map_of_SomeD map_of_is_SomeI)

lemma length_update_present: "map_of al k = Some w \<Longrightarrow> length (AList.update k v al) = length al"
  by (induction al) (auto split: if_splits)

lemma keys_update_present: "map_of al k = Some w \<Longrightarrow> map fst (AList.update k v al) = map fst al"
  by (induction al) (auto split: if_splits)

end
