(* ===== verification/Programs.thy ===== *)
theory Programs
  imports Prelude
begin

text \<open>
  State-passing programs. A program takes a state and gives the state it leaves together with
  an error or a result: as in the source, what was assigned before a \<open>throw\<close> stays assigned.
  Weakest preconditions are computed by rewriting (the collection \<open>wp\<close>). The locales
  \<open>guarded_machine\<close> and \<open>ordered_machine\<close> state what a component promises about all
  sequences of its operations and are interpreted by every stateful component.
\<close>

named_theorems wp "weakest preconditions of the program combinators"

type_synonym ('s, 'e, 'a) prog = "'s \<Rightarrow> 's \<times> ('e + 'a)"

definition yield :: "'a \<Rightarrow> ('s, 'e, 'a) prog" where
  "yield v s = (s, Inr v)"

definition raise :: "'e \<Rightarrow> ('s, 'e, 'a) prog" where
  "raise e s = (s, Inl e)"

definition andthen :: "('s, 'e, 'a) prog \<Rightarrow> ('a \<Rightarrow> ('s, 'e, 'b) prog) \<Rightarrow> ('s, 'e, 'b) prog" where
  "andthen p f s = (case p s of (t, Inl e) \<Rightarrow> (t, Inl e) | (t, Inr v) \<Rightarrow> f v t)"

definition gets :: "('s \<Rightarrow> 'a) \<Rightarrow> ('s, 'e, 'a) prog" where
  "gets f s = (s, Inr (f s))"

definition assign :: "('s \<Rightarrow> 's) \<Rightarrow> ('s, 'e, unit) prog" where
  "assign f s = (f s, Inr ())"

definition assure :: "bool \<Rightarrow> 'e \<Rightarrow> ('s, 'e, unit) prog" where
  "assure b e s = (s, if b then Inr () else Inl e)"

definition demand :: "'a option \<Rightarrow> 'e \<Rightarrow> ('s, 'e, 'a) prog" where
  "demand x e s = (s, case x of None \<Rightarrow> Inl e | Some v \<Rightarrow> Inr v)"

definition lift_sum :: "'e + 'a \<Rightarrow> ('s, 'e, 'a) prog" where
  "lift_sum r s = (s, r)"

definition wpre :: "('s, 'e, 'a) prog \<Rightarrow> ('a \<Rightarrow> 's \<Rightarrow> bool) \<Rightarrow> ('e \<Rightarrow> 's \<Rightarrow> bool) \<Rightarrow> 's \<Rightarrow> bool" where
  "wpre p Q E s = (case p s of (t, Inl e) \<Rightarrow> E e t | (t, Inr v) \<Rightarrow> Q v t)"

lemma wp_yield [wp]: "wpre (yield v) Q E s = Q v s"
  by (simp add: wpre_def yield_def)

lemma wp_raise [wp]: "wpre (raise e) Q E s = E e s"
  by (simp add: wpre_def raise_def)

lemma wp_andthen [wp]: "wpre (andthen p f) Q E s = wpre p (\<lambda>v. wpre (f v) Q E) E s"
  by (simp add: wpre_def andthen_def split: prod.splits sum.splits)

lemma wp_gets [wp]: "wpre (gets f) Q E s = Q (f s) s"
  by (simp add: wpre_def gets_def)

lemma wp_assign [wp]: "wpre (assign f) Q E s = Q () (f s)"
  by (simp add: wpre_def assign_def)

lemma wp_assure [wp]: "wpre (assure b e) Q E s = (if b then Q () s else E e s)"
  by (simp add: wpre_def assure_def)

lemma wp_demand [wp]:
  "wpre (demand x e) Q E s = (case x of None \<Rightarrow> E e s | Some v \<Rightarrow> Q v s)"
  by (simp add: wpre_def demand_def split: option.splits)

lemma wp_lift_sum [wp]:
  "wpre (lift_sum r) Q E s = (case r of Inl e \<Rightarrow> E e s | Inr v \<Rightarrow> Q v s)"
  by (simp add: wpre_def lift_sum_def)

lemma wp_if [wp]:
  "wpre (if b then p else q) Q E s = (if b then wpre p Q E s else wpre q Q E s)"
  by simp

lemma wpreI: "(\<And>t e. p s = (t, Inl e) \<Longrightarrow> E e t) \<Longrightarrow> (\<And>t v. p s = (t, Inr v) \<Longrightarrow> Q v t) \<Longrightarrow> wpre p Q E s"
  by (auto simp: wpre_def split: prod.splits sum.splits)

lemma wpre_result: "wpre p Q E s \<Longrightarrow> p s = (t, Inr v) \<Longrightarrow> Q v t"
  by (simp add: wpre_def)

lemma wpre_error: "wpre p Q E s \<Longrightarrow> p s = (t, Inl e) \<Longrightarrow> E e t"
  by (simp add: wpre_def)

lemma wpre_state: "wpre p (\<lambda>_. I) (\<lambda>_. I) s \<Longrightarrow> I (fst (p s))"
  by (auto simp: wpre_def split: prod.splits sum.splits)

lemma wpre_mono:
  "wpre p Q E s \<Longrightarrow> (\<And>v t. Q v t \<Longrightarrow> Q' v t) \<Longrightarrow> (\<And>e t. E e t \<Longrightarrow> E' e t) \<Longrightarrow> wpre p Q' E' s"
  by (auto simp: wpre_def split: prod.splits sum.splits)

lemma wpre_conj:
  "wpre p Q E s \<Longrightarrow> wpre p Q' E' s \<Longrightarrow> wpre p (\<lambda>v t. Q v t \<and> Q' v t) (\<lambda>e t. E e t \<and> E' e t) s"
  by (auto simp: wpre_def split: prod.splits sum.splits)

text \<open>The equations that run a program on a concrete state.\<close>

lemmas run_defs = andthen_def yield_def raise_def gets_def assign_def assure_def demand_def lift_sum_def

section \<open>Machines: sequences of operations\<close>

definition run :: "('op \<Rightarrow> 's \<Rightarrow> 's) \<Rightarrow> 'op list \<Rightarrow> 's \<Rightarrow> 's" where
  "run step ops s = fold step ops s"

lemma run_simps [simp]:
  "run step [] s = s"
  "run step (x # xs) s = run step xs (step x s)"
  "run step (xs @ ys) s = run step ys (run step xs s)"
  by (simp_all add: run_def)

text \<open>Every operation keeps the invariant, whatever its arguments and whether or not it fails.\<close>

locale guarded_machine =
  fixes step :: "'op \<Rightarrow> 's \<Rightarrow> 's"
    and inv :: "'s \<Rightarrow> bool"
  assumes step_inv: "inv s \<Longrightarrow> inv (step x s)"
begin

lemma run_inv: "inv s \<Longrightarrow> inv (run step xs s)"
  by (induction xs arbitrary: s) (auto intro: step_inv)

lemma run_prefix_inv: "inv s \<Longrightarrow> inv (run step (take n xs) s)"
  by (rule run_inv)

end

text \<open>Moreover every operation only moves forward in a preorder on states.\<close>

locale ordered_machine = guarded_machine step inv
  for step :: "'op \<Rightarrow> 's \<Rightarrow> 's" and inv :: "'s \<Rightarrow> bool" +
  fixes leq :: "'s \<Rightarrow> 's \<Rightarrow> bool"
  assumes leq_refl: "leq s s"
    and leq_trans: "leq s t \<Longrightarrow> leq t u \<Longrightarrow> leq s u"
    and step_leq: "inv s \<Longrightarrow> leq s (step x s)"
begin

lemma run_leq: "inv s \<Longrightarrow> leq s (run step xs s)"
proof (induction xs arbitrary: s)
  case Nil
  then show ?case by (simp add: leq_refl)
next
  case (Cons x xs)
  from Cons.prems have "leq s (step x s)" by (rule step_leq)
  moreover from Cons.prems have "leq (step x s) (run step xs (step x s))"
    by (intro Cons.IH step_inv)
  ultimately show ?case by (simp add: leq_trans)
qed

lemma run_leq_between:
  "inv s \<Longrightarrow> leq (run step xs s) (run step (xs @ ys) s)"
  by (simp add: run_leq run_inv)

end

end
