(* ===== verification/Canonical_JSON.thy ===== *)
theory Canonical_JSON
  imports Prelude
begin

text \<open>
  Canonical JSON (\<open>src/src/canonical.js\<close>, and the copies of the same function in
  \<open>service-credit-model.js\<close> and \<open>service-credit-zenon-funding-observer-state.js\<close>): the JSON
  text of a value with the keys of every object sorted. \<open>stringify\<close> is \<open>JSON.stringify\<close> on
  safe integers, strings of code units below 256, arrays and plain objects (\<open>exchangeable\<close>). The text determines
  the value up to the order of keys, so comparing texts (\<open>sameJson\<close>) compares values, and a
  SHA-256 commitment is taken over exactly one value.

  \<open>node:crypto\<close> is a parameter: \<open>sha\<close> maps a text to the lowercase hexadecimal digest of its
  UTF-8 bytes.
\<close>

section \<open>JSON.stringify\<close>

definition bs :: char where "bs = CHR 0x5C"

definition dq :: char where "dq = CHR 0x22"

definition hex_digit :: "nat \<Rightarrow> char" where
  "hex_digit n = (if n < 10 then char_of (48 + n) else char_of (87 + n))"

definition escape_char :: "char \<Rightarrow> string" where
  "escape_char c = (let n = code c in
     if n = 34 then [bs, dq]
     else if n = 92 then [bs, bs]
     else if n = 8 then [bs, CHR ''b'']
     else if n = 9 then [bs, CHR ''t'']
     else if n = 10 then [bs, CHR ''n'']
     else if n = 12 then [bs, CHR ''f'']
     else if n = 13 then [bs, CHR ''r'']
     else if n < 32 then bs # ''u00'' @ [hex_digit (n div 16), hex_digit (n mod 16)]
     else [c])"

definition string_text :: "string \<Rightarrow> string" where
  "string_text s = dq # concat (map escape_char s) @ [dq]"

fun nat_text :: "nat \<Rightarrow> string" where
  "nat_text n = (if n < 10 then [char_of (48 + n)]
     else nat_text (n div 10) @ [char_of (48 + n mod 10)])"

declare nat_text.simps [simp del]

definition int_text :: "int \<Rightarrow> string" where
  "int_text n = (if n < 0 then CHR ''-'' # nat_text (nat (- n)) else nat_text (nat n))"

fun join_text :: "string list \<Rightarrow> string" where
  "join_text [] = []"
| "join_text [x] = x"
| "join_text (x # y # xs) = x @ CHR '','' # join_text (y # xs)"

fun stringify :: "json \<Rightarrow> string" where
  "stringify JNull = ''null''"
| "stringify (JBool b) = (if b then ''true'' else ''false'')"
| "stringify (JNum n) = int_text n"
| "stringify (JStr s) = string_text s"
| "stringify (JArr vs) = CHR ''['' # join_text (map stringify vs) @ '']''"
| "stringify (JObj kvs) =
     CHR ''{'' # join_text (map (\<lambda>(k, v). string_text k @ CHR '':'' # stringify v) kvs) @ ''}''"

text \<open>
  The values on which \<open>stringify\<close> is \<open>JSON.stringify\<close>, and on whose texts \<open>JSON.parse\<close> gives the value
  back. Beyond the safe integers a number is rounded and may be written with an exponent, so every
  number is a safe integer; the component validators see to it wherever a record is written. An
  object has each key once, and its array indexes (canonical decimals below \<open>2\<^sup>3\<^sup>2 - 1\<close>) come before
  its other keys, in ascending order, because that is the order in which JavaScript lists them.
\<close>

definition array_index :: "string \<Rightarrow> bool" where
  "array_index k \<longleftrightarrow> (k = ''0'' \<or> positive_decimal k) \<and> decimal_value k < 2 ^ 32 - 1"

definition own_key_order :: "string list \<Rightarrow> bool" where
  "own_key_order ks \<longleftrightarrow> sorted_wrt (\<lambda>k l. array_index l \<longrightarrow> array_index k \<and> decimal_value k < decimal_value l) ks"

fun exchangeable :: "json \<Rightarrow> bool" where
  "exchangeable (JNum n) \<longleftrightarrow> safe_range n"
| "exchangeable (JArr vs) \<longleftrightarrow> (\<forall>v \<in> set vs. exchangeable v)"
| "exchangeable (JObj kvs) \<longleftrightarrow> distinct (map fst kvs) \<and> own_key_order (map fst kvs)
     \<and> (\<forall>(k, v) \<in> set kvs. exchangeable v)"
| "exchangeable _ \<longleftrightarrow> True"

fun sort_keys :: "json \<Rightarrow> json" where
  "sort_keys (JArr vs) = JArr (map sort_keys vs)"
| "sort_keys (JObj kvs) = JObj (sort_key fst (map (\<lambda>(k, v). (k, sort_keys v)) kvs))"
| "sort_keys v = v"

definition canonical_json :: "json \<Rightarrow> string" where
  "canonical_json v = stringify (sort_keys v)"

definition same_json :: "json \<Rightarrow> json \<Rightarrow> bool" where
  "same_json v w \<longleftrightarrow> canonical_json v = canonical_json w"

definition sha256_commitment :: "(string \<Rightarrow> string) \<Rightarrow> json \<Rightarrow> string" where
  "sha256_commitment sha v = ''sha256:'' @ sha (canonical_json v)"

text \<open>\<open>paymentIntentDigest\<close> of \<open>canonical.js\<close>.\<close>

definition payment_intent_digest :: "(string \<Rightarrow> string) \<Rightarrow> json \<Rightarrow> json \<Rightarrow> json \<Rightarrow> string" where
  "payment_intent_digest sha x402_version resource accepted =
     sha (canonical_json (JObj [(''x402Version'', x402_version), (''resource'', resource),
       (''accepted'', accepted)]))"

text \<open>What \<open>createHash('sha256')\<dots>digest('hex')\<close> is documented to return.\<close>

definition hex_digest :: "(string \<Rightarrow> string) \<Rightarrow> bool" where
  "hex_digest sha \<longleftrightarrow> (\<forall>s. is_hex64 (sha s))"

section \<open>The text determines the value\<close>

text \<open>Escapes are self-delimiting: a decoder reads one character and returns the rest.\<close>

definition hex_value :: "char \<Rightarrow> nat" where
  "hex_value c = (if code c < 58 then code c - 48 else code c - 87)"

fun unescape :: "string \<Rightarrow> char \<times> string" where
  "unescape (c # d # s) =
     (if c \<noteq> bs then (c, d # s)
      else if d = CHR ''b'' then (char_of (8::nat), s)
      else if d = CHR ''t'' then (char_of (9::nat), s)
      else if d = CHR ''n'' then (char_of (10::nat), s)
      else if d = CHR ''f'' then (char_of (12::nat), s)
      else if d = CHR ''r'' then (char_of (13::nat), s)
      else if d = CHR ''u'' then
        (char_of (16 * hex_value (s ! 2) + hex_value (s ! 3)), drop 4 s)
      else (d, s))"
| "unescape (c # []) = (c, [])"
| "unescape [] = (bs, [])"

lemma code_less [simp]: "code c < 256"
  by (simp add: code_def)

lemma char_of_code [simp]: "char_of (code c) = c"
  by (simp add: code_def)

lemma code_inj: "code c = code d \<longleftrightarrow> c = d"
  by (metis char_of_code)

lemma code_char_of [simp]: "n < 256 \<Longrightarrow> code (char_of n) = n"
  by (simp add: code_def)

lemma hex_value_digit [simp]: "n < 16 \<Longrightarrow> hex_value (hex_digit n) = n"
  by (auto simp: hex_value_def hex_digit_def)

lemma code_consts [simp]: "code bs = 92" "code dq = 34"
  by (simp_all add: code_def bs_def dq_def)

lemma code_quote_iff: "code c = 34 \<longleftrightarrow> c = dq" "code c = 92 \<longleftrightarrow> c = bs"
  by (auto simp flip: code_inj)

lemma dq_not_bs [simp]: "dq \<noteq> bs" "bs \<noteq> dq"
  by (simp_all add: bs_def dq_def)

lemma unescape_escape [simp]: "d \<noteq> [] \<Longrightarrow> unescape (escape_char c @ d) = (c, d)"
proof -
  assume "d \<noteq> []"
  then obtain x xs where d: "d = x # xs" by (cases d) auto
  have u: "char_of (16 * (code c div 16) + code c mod 16) = c"
    by (simp only: mult_div_mod_eq char_of_code)
  have s: "char_of n = c" if "code c = n" for n
    using that by (metis char_of_code)
  have lits: "bs \<noteq> CHR ''b''" "bs \<noteq> CHR ''t''" "bs \<noteq> CHR ''n''" "bs \<noteq> CHR ''f''" "bs \<noteq> CHR ''r''"
      "bs \<noteq> CHR ''u''" "dq \<noteq> CHR ''b''" "dq \<noteq> CHR ''t''" "dq \<noteq> CHR ''n''" "dq \<noteq> CHR ''f''"
      "dq \<noteq> CHR ''r''" "dq \<noteq> CHR ''u''"
    by (simp_all add: bs_def dq_def)
  have "16 * (code c div 16) + code c mod 16 = code c" by simp
  then show ?thesis
    using lits u by (auto simp: escape_char_def Let_def d code_quote_iff intro: s)
qed

lemma escape_nonempty [simp]: "escape_char c \<noteq> []"
  by (simp add: escape_char_def Let_def)

lemma hd_escape: "hd (escape_char c) \<noteq> dq"
  by (auto simp: escape_char_def Let_def)

lemma escape_head [simp]: "escape_char c @ x \<noteq> dq # y" "dq # y \<noteq> escape_char c @ x"
  using hd_escape [of c] escape_nonempty [of c] by (cases "escape_char c"; force)+

lemma escapes_unique:
  "concat (map escape_char s) @ dq # r = concat (map escape_char t) @ dq # u \<Longrightarrow> s = t \<and> r = u"
proof (induction s arbitrary: t)
  case Nil
  then show ?case by (cases t) auto
next
  case (Cons c s)
  show ?case
  proof (cases t)
    case Nil
    with Cons.prems show ?thesis by simp
  next
    case (Cons d t')
    let ?l = "concat (map escape_char s) @ dq # r" and ?r = "concat (map escape_char t') @ dq # u"
    have "unescape (escape_char c @ ?l) = unescape (escape_char d @ ?r)"
      using Cons.prems Cons by simp
    then have "(c, ?l) = (d, ?r)" by (simp del: append_assoc)
    with Cons.IH [of t'] Cons show ?thesis by simp
  qed
qed

lemma string_text_unique: "string_text s @ r = string_text t @ u \<Longrightarrow> s = t \<and> r = u"
  by (rule escapes_unique) (simp add: string_text_def)

text \<open>Decimal digits read back to the number.\<close>

lemma decimal_value_snoc [simp]: "decimal_value (s @ [c]) = 10 * decimal_value s + digit_value c"
  by (simp add: decimal_value_def)

lemma decimal_value_single [simp]: "decimal_value [c] = digit_value c"
  by (simp add: decimal_value_def)

lemma digit_value_char_of [simp]: "n < (10::nat) \<Longrightarrow> digit_value (char_of (48 + n)) = n"
  by (simp add: digit_value_def)

lemma is_digit_char_of [simp]: "n < (10::nat) \<Longrightarrow> is_digit (char_of (48 + n))"
  by (simp add: is_digit_def)

lemma decimal_value_nat_text [simp]: "decimal_value (nat_text n) = n"
proof (induction n rule: nat_text.induct)
  case (1 n)
  then show ?case by (subst nat_text.simps) simp
qed

lemma nat_text_digits: "list_all is_digit (nat_text n)"
proof (induction n rule: nat_text.induct)
  case (1 n)
  then show ?case by (subst nat_text.simps) simp
qed

lemma nat_text_nonempty [simp]: "nat_text n \<noteq> []"
  by (subst nat_text.simps) simp

lemma nat_text_inj: "nat_text m = nat_text n \<longleftrightarrow> m = n"
  by (metis decimal_value_nat_text)

definition delimited :: "string \<Rightarrow> bool" where
  "delimited r \<longleftrightarrow> r = [] \<or> \<not> is_digit (hd r)"

lemma digits_unique:
  assumes "list_all is_digit s" "list_all is_digit t" "delimited r" "delimited u" "s @ r = t @ u"
  shows "s = t \<and> r = u"
  using assms
proof (induction s arbitrary: t)
  case Nil
  then show ?case by (cases t) (auto simp: delimited_def)
next
  case (Cons c s)
  then show ?case by (cases t) (auto simp: delimited_def)
qed

lemma minus_not_digit [simp]: "\<not> is_digit (CHR ''-'')"
  by (simp add: is_digit_def code_def)

lemma int_text_unique:
  assumes "int_text m @ r = int_text n @ u" "delimited r" "delimited u"
  shows "m = n \<and> r = u"
proof -
  have hd_digit: "is_digit (hd (nat_text k))" for k
    using nat_text_digits [of k] by (cases "nat_text k") auto
  have mixed: False if "nat_text a @ x = CHR ''-'' # y" for a x y
    using that hd_digit [of a] by (cases "nat_text a") auto
  have digits: "a = b \<and> r = u" if "nat_text a @ r = nat_text b @ u" for a b
    using digits_unique [OF nat_text_digits nat_text_digits assms(2,3) that] by (simp add: nat_text_inj)
  show ?thesis
    using assms(1) by (auto simp: int_text_def split: if_splits dest: mixed mixed [OF sym] digits)
qed

text \<open>
  Lists of items that are each uniquely readable, separated by commas and closed by a bracket.
\<close>

definition readable :: "('a \<Rightarrow> string) \<Rightarrow> 'a \<Rightarrow> bool" where
  "readable f x \<longleftrightarrow> (\<forall>y r u. delimited r \<longrightarrow> delimited u \<longrightarrow> f x @ r = f y @ u \<longrightarrow> x = y \<and> r = u)"

lemma readableD: "readable f x \<Longrightarrow> f x @ r = f y @ u \<Longrightarrow> delimited r \<Longrightarrow> delimited u \<Longrightarrow> x = y \<and> r = u"
  by (simp add: readable_def)

lemma delimited_Cons [simp]: "delimited (c # r) \<longleftrightarrow> \<not> is_digit c"
  by (simp add: delimited_def)

lemma join_unique:
  assumes "\<And>x. x \<in> set xs \<Longrightarrow> readable f x"
    and nonempty: "\<And>y. f y \<noteq> []" "\<And>y. hd (f y) \<noteq> c"
    and delims: "\<not> is_digit c" "c \<noteq> CHR '',''"
    and eq: "join_text (map f xs) @ c # r = join_text (map f ys) @ c # u"
  shows "xs = ys \<and> r = u"
proof -
  have comma: "\<not> is_digit (CHR '','')" by (simp add: is_digit_def code_def)
  have head: "f y @ v \<noteq> c # w" for y v w
    using nonempty [of y] by (cases "f y") auto
  show ?thesis using assms(1) eq
  proof (induction "map f xs" arbitrary: xs ys rule: join_text.induct)
    case 1
    then show ?case using head nonempty
      by (cases ys; cases "tl ys") (auto simp: neq_Nil_conv dest!: sym [of "c # r"])
  next
    case (2 x)
    then obtain a where xs: "xs = [a]" by auto
    from 2 show ?case
    proof (cases ys)
      case Nil
      with 2 xs show ?thesis using head by auto
    next
      case (Cons b bs')
      with 2 xs show ?thesis using delims comma
        by (cases bs') (auto dest: readableD)
    qed
  next
    case (3 x y zs)
    then obtain a b cs where xs: "xs = a # b # cs" by auto
    from 3 show ?case
    proof (cases ys)
      case Nil
      with 3 xs show ?thesis using head by auto
    next
      case (Cons a' bs')
      note IH = 3(1)[of "b # cs"]
      show ?thesis
      proof (cases bs')
        case Nil
        with 3 xs Cons have "f a @ CHR '','' # join_text (map f (b # cs)) @ c # r = f a' @ c # u"
          and "readable f a" by auto
        then have "CHR '','' # join_text (map f (b # cs)) @ c # r = c # u"
          using delims comma by (auto dest!: readableD)
        then show ?thesis using delims by simp
      next
        case (Cons b' cs')
        with 3(2-) xs \<open>ys = a' # bs'\<close>
        have "readable f a" and "f a @ CHR '','' # join_text (map f (b # cs)) @ c # r =
            f a' @ CHR '','' # join_text (map f (b' # cs')) @ c # u"
          by auto
        then have "a = a' \<and> join_text (map f (b # cs)) @ c # r = join_text (map f (b' # cs')) @ c # u"
          using comma by (auto dest!: readableD)
        then show ?thesis using IH [of "b' # cs'"] 3(2-) xs Cons \<open>ys = a' # bs'\<close> by auto
      qed
    qed
  qed
qed

lemma stringify_head: "stringify v \<noteq> []" "hd (stringify v) \<noteq> CHR '']''" "hd (stringify v) \<noteq> CHR ''}''"
proof -
  have digit: "is_digit (hd (nat_text n))" for n
    using nat_text_digits [of n] by (cases "nat_text n") auto
  have "\<not> is_digit (CHR '']'')" "\<not> is_digit (CHR ''}'')"
    by (simp_all add: is_digit_def code_def)
  with digit have "hd (nat_text n) \<noteq> CHR '']''" "hd (nat_text n) \<noteq> CHR ''}''" for n
    by metis+
  then show "stringify v \<noteq> []" "hd (stringify v) \<noteq> CHR '']''" "hd (stringify v) \<noteq> CHR ''}''"
    by (cases v; simp add: int_text_def string_text_def dq_def)+
qed

text \<open>The opening character tells which constructor produced a text.\<close>

fun opens :: "json \<Rightarrow> char \<Rightarrow> bool" where
  "opens JNull c = (c = CHR ''n'')"
| "opens (JBool b) c = (c = (if b then CHR ''t'' else CHR ''f''))"
| "opens (JNum n) c = (is_digit c \<or> c = CHR ''-'')"
| "opens (JStr s) c = (c = dq)"
| "opens (JArr vs) c = (c = CHR ''['')"
| "opens (JObj kvs) c = (c = CHR ''{'')"

lemma stringify_opening: "\<exists>c t. stringify v = c # t \<and> opens v c"
proof (cases v)
  case (JNum n)
  have "\<exists>c t. nat_text k = c # t \<and> is_digit c" for k
    using nat_text_digits [of k] by (cases "nat_text k") auto
  then obtain c t where "nat_text (nat n) = c # t" "is_digit c" by blast
  with JNum show ?thesis by (auto simp: int_text_def)
qed (auto simp: string_text_def)

lemma member_head: "string_text k @ CHR '':'' # v \<noteq> []" "hd (string_text k @ CHR '':'' # v) \<noteq> CHR ''}''"
  by (simp_all add: string_text_def dq_def)

theorem stringify_readable: "readable stringify v"
proof (induction v)
  case (JArr vs)
  have close: "\<not> is_digit (CHR '']'')" by (simp add: is_digit_def code_def)
  show ?case unfolding readable_def
  proof (intro allI impI)
    fix y r u assume "delimited r" "delimited u" and eq: "stringify (JArr vs) @ r = stringify y @ u"
    then obtain ws where y: "y = JArr ws"
      using stringify_opening [of y] by (cases y) (auto simp: is_digit_def code_def dq_def split: if_splits)
    have "vs = ws \<and> r = u"
      by (rule join_unique [of vs stringify "CHR '']''"])
        (use JArr.IH eq y close stringify_head in auto)
    with y show "JArr vs = y \<and> r = u" by simp
  qed
next
  case (JObj kvs)
  let ?f = "\<lambda>(k, v). string_text k @ CHR '':'' # stringify v"
  have close: "\<not> is_digit (CHR ''}'')" by (simp add: is_digit_def code_def)
  have member: "readable ?f (k, v)" if "(k, v) \<in> set kvs" for k v
    unfolding readable_def
  proof (intro allI impI)
    fix y r u assume d: "delimited r" "delimited u" and eq: "?f (k, v) @ r = ?f y @ u"
    obtain l w where y: "y = (l, w)" by (cases y)
    with eq have "k = l \<and> CHR '':'' # stringify v @ r = CHR '':'' # stringify w @ u"
      by (intro string_text_unique) simp
    moreover have "readable stringify v" using JObj.IH that by (auto simp: snds.simps)
    ultimately show "(k, v) = y \<and> r = u" using d y by (auto dest: readableD)
  qed
  show ?case unfolding readable_def
  proof (intro allI impI)
    fix y r u assume "delimited r" "delimited u" and eq: "stringify (JObj kvs) @ r = stringify y @ u"
    then obtain ws where y: "y = JObj ws"
      using stringify_opening [of y] by (cases y) (auto simp: is_digit_def code_def dq_def split: if_splits)
    have "kvs = ws \<and> r = u"
      by (rule join_unique [of kvs ?f "CHR ''}''"])
        (use member eq y close member_head in auto)
    with y show "JObj kvs = y \<and> r = u" by simp
  qed
next
  case (JNum n)
  show ?case unfolding readable_def
  proof (intro allI impI)
    fix y r u assume d: "delimited r" "delimited u" and eq: "stringify (JNum n) @ r = stringify y @ u"
    then obtain m where "y = JNum m"
      using stringify_opening [of y] stringify_opening [of "JNum n"]
      by (cases y) (auto simp: is_digit_def code_def dq_def split: if_splits)
    with d eq show "JNum n = y \<and> r = u" by (auto dest: int_text_unique)
  qed
next
  case (JStr s)
  show ?case unfolding readable_def
  proof (intro allI impI)
    fix y r u assume d: "delimited r" "delimited u" and eq: "stringify (JStr s) @ r = stringify y @ u"
    then obtain t where "y = JStr t"
      using stringify_opening [of y] stringify_opening [of "JStr s"]
      by (cases y) (auto simp: is_digit_def code_def dq_def split: if_splits)
    with d eq show "JStr s = y \<and> r = u" by (auto dest: string_text_unique)
  qed
next
  case JNull
  show ?case unfolding readable_def
  proof (intro allI impI)
    fix y r u assume eq: "stringify JNull @ r = stringify y @ u"
    then have "y = JNull"
      using stringify_opening [of y] by (cases y) (auto simp: is_digit_def code_def dq_def split: if_splits)
    with eq show "JNull = y \<and> r = u" by simp
  qed
next
  case (JBool b)
  show ?case unfolding readable_def
  proof (intro allI impI)
    fix y r u assume eq: "stringify (JBool b) @ r = stringify y @ u"
    then obtain b' where "y = JBool b'"
      using stringify_opening [of y] by (cases y) (auto simp: is_digit_def code_def dq_def split: if_splits)
    with eq show "JBool b = y \<and> r = u" by (auto split: if_splits)
  qed
qed

text \<open>\<open>JSON.stringify\<close> is injective, and canonical texts agree exactly when the key-sorted values do.\<close>

lemma stringify_inject [simp]: "stringify v = stringify w \<longleftrightarrow> v = w"
  using stringify_readable [of v] by (auto simp: readable_def delimited_def)

lemma canonical_json_inject [simp]: "canonical_json v = canonical_json w \<longleftrightarrow> sort_keys v = sort_keys w"
  by (simp add: canonical_json_def)

lemma same_json_iff: "same_json v w \<longleftrightarrow> sort_keys v = sort_keys w"
  by (simp add: same_json_def)

lemma same_json_refl [simp]: "same_json v v"
  by (simp add: same_json_iff)

lemma sha256_commitment_prefixed [simp]:
  "hex_digest sha \<Longrightarrow> prefixed_hex64 ''sha256:'' (sha256_commitment sha v)"
proof -
  assume "hex_digest sha"
  then have "prefixed_hex64 ''sha256:'' (''sha256:'' @ sha (canonical_json v))"
    by (simp only: prefixed_hex64_append hex_digest_def)
  then show ?thesis by (simp only: sha256_commitment_def)
qed

end
