(* ===== verification/Captured_Records.thy ===== *)
theory Captured_Records
  imports Prelude
begin

text \<open>
  Capturing a value member by member: an ordinary object with exactly the named enumerable data
  properties, and a dense ordinary array. Most components take their inputs this way, each with a
  copy of the same function (\<open>fields\<close> of \<open>original-funding-spending-reservations.js\<close>, \<open>record\<close> of
  \<open>zenon/dynamic-plasma-price-policy.js\<close>, \<open>exactRecord\<close> of \<open>zenon/payer-worker-admission.js\<close>).
  The lemmas relate the captured members to the JSON object they are read from.
\<close>

text \<open>\<open>fields\<close>: an ordinary object with exactly the named enumerable data properties.\<close>

fun exact_fields :: "string list \<Rightarrow> jsval \<Rightarrow> fields option" where
  "exact_fields names (VObject p symbolic props) =
     (if p \<noteq> ObjectProto \<or> symbolic \<or> length props \<noteq> length names then None
      else all_some (map (\<lambda>k. map_option (Pair k) (Option.bind (map_of props k) data_value)) names))"
| "exact_fields names _ = None"

text \<open>\<open>list\<close>: a dense ordinary array of 1 to \<open>maximum\<close> data properties.\<close>

fun exact_list :: "nat \<Rightarrow> jsval \<Rightarrow> jsval list option" where
  "exact_list maximum (VArray form props) =
     (if is_ordinary form \<and> 1 \<le> length props \<and> length props \<le> maximum then all_some (map data_value props) else None)"
| "exact_list maximum _ = None"

fun object_keys :: "json \<Rightarrow> string list" where
  "object_keys (JObj kvs) = map fst kvs"
| "object_keys _ = []"

definition in_order :: "string list \<Rightarrow> (string \<times> json) list \<Rightarrow> json" where
  "in_order ks kvs = JObj (map (\<lambda>k. (k, the (map_of kvs k))) ks)"

section \<open>Objects with exactly the named members\<close>

lemma exact_fields_num [simp]: "exact_fields names (num n) = None"
  by (simp only: num_def exact_fields.simps)

lemma exact_fields_js:
  assumes "exact_fields names (js_of v) = Some r" and "distinct names"
  shows "\<exists>kvs. v = JObj kvs \<and> distinct (map fst kvs) \<and> set (map fst kvs) = set names
    \<and> r = map (\<lambda>k. (k, js_of (the (map_of kvs k)))) names"
proof -
  obtain kvs where v: "v = JObj kvs"
    using assms(1) by (cases v) (auto simp: arr_def)
  have props: "js_of v = VObject ObjectProto False (map (\<lambda>(k, w). (k, DataProp (js_of w))) kvs)"
    unfolding v js_of_JObj obj_def js_members_def by (induction kvs) auto
  have lookup: "map_of (map (\<lambda>(k, w). (k, DataProp (js_of w))) kvs) k = map_option (\<lambda>w. DataProp (js_of w)) (map_of kvs k)" for k
    by (induction kvs) auto
  define found where "found = map (\<lambda>k. map_option (Pair k)
    (Option.bind (map_option (\<lambda>w. DataProp (js_of w)) (map_of kvs k)) data_value)) names"
  have "length kvs = length names \<and> all_some found = Some r"
    using assms(1) unfolding props exact_fields.simps lookup found_def by (simp split: if_splits)
  then have len: "length kvs = length names" and all: "found = map Some r"
    by (simp_all only: all_some_eq_Some)
  have present: "\<exists>w. map_of kvs k = Some w" if "k \<in> set names" for k
  proof (rule ccontr)
    assume "\<not> ?thesis"
    then have "None \<in> set (map Some r)"
      unfolding all [symmetric] found_def using that by (force simp: image_iff)
    then show False by auto
  qed
  then have sub: "set names \<subseteq> set (map fst kvs)" by (force dest: map_of_SomeD)
  have "card (set names) = length names" using assms(2) by (simp add: distinct_card)
  moreover have "card (set (map fst kvs)) \<le> length names"
    using len card_length [of "map fst kvs"] by simp
  ultimately have eq: "set (map fst kvs) = set names"
    using sub by (metis List.finite_set card_seteq)
  then have dist: "distinct (map fst kvs)"
    using assms(2) len by (metis card_distinct distinct_card length_map)
  have "map Some r = map (\<lambda>k. Some (k, js_of (the (map_of kvs k)))) names"
    unfolding all [symmetric] found_def
  proof (intro map_cong refl)
    fix k assume "k \<in> set names"
    then obtain w where "map_of kvs k = Some w" using present by blast
    then show "map_option (Pair k) (Option.bind (map_option (\<lambda>w. DataProp (js_of w)) (map_of kvs k)) data_value)
        = Some (k, js_of (the (map_of kvs k)))" by simp
  qed
  then have "r = map (\<lambda>k. (k, js_of (the (map_of kvs k)))) names"
    using all_some_eq_Some [of "map Some r" r] by simp
  with v dist eq show ?thesis by blast
qed

lemma field_map_Pair: "k \<in> set names \<Longrightarrow> field k (map (\<lambda>k. (k, f k)) names) = f k"
  by (induction names) auto

lemma in_order_ident:
  assumes "distinct (map fst kvs)" and "\<And>k. k \<in> set (map fst kvs) \<Longrightarrow> the (map_of kvs k) = the (map_of members k)"
  shows "JObj kvs = in_order (map fst kvs) members"
proof -
  have "map (\<lambda>k. (k, the (map_of members k))) (map fst kvs) = map (\<lambda>k. (k, the (map_of kvs k))) (map fst kvs)"
    using assms(2) by (intro map_cong) auto
  also have "\<dots> = kvs"
    using assms(1) by (simp add: comp_def) (rule map_idI, auto)
  finally show ?thesis by (simp add: in_order_def)
qed

lemma exact_fields_in_order:
  assumes "distinct ks" and "set ks = set names" and "length ks = length names"
  shows "exact_fields names (js_of (in_order ks members)) = Some (map (\<lambda>k. (k, js_of (the (map_of members k)))) names)"
proof -
  define g where "g k = js_of (the (map_of members k))" for k
  have lookup: "map_of (map (\<lambda>k. (k, DataProp (g k))) ks) k
      = (if k \<in> set ks then Some (DataProp (g k)) else None)" for k
    by (induction ks) auto
  have props: "js_of (in_order ks members)
      = VObject ObjectProto False (map (\<lambda>k. (k, DataProp (g k))) ks)"
    by (simp add: in_order_def obj_def js_members_def comp_def g_def)
  have "map (\<lambda>k. map_option (Pair k) (Option.bind (if k \<in> set ks then Some (DataProp (g k)) else None)
      data_value)) names = map (\<lambda>k. Some (k, g k)) names"
    using assms(2) by (intro map_cong) auto
  then have "all_some (map (\<lambda>k. map_option (Pair k) (Option.bind (if k \<in> set ks then Some (DataProp (g k)) else None)
      data_value)) names) = Some (map (\<lambda>k. (k, g k)) names)"
    by (simp only: all_some_map_Some)
  then show ?thesis
    unfolding props exact_fields.simps lookup using assms(3) by (simp add: g_def)
qed

lemma object_keys_in_order [simp]: "object_keys (in_order ks members) = ks"
  by (simp add: in_order_def comp_def)

lemma safe_integer_js: "safe_integer (js_of v) = Some n \<longleftrightarrow> v = JNum n \<and> safe_range n"
  by (cases v) (auto simp: arr_def obj_def)

lemma js_of_VStr [simp]: "js_of v = VStr s \<longleftrightarrow> v = JStr s"
  by (cases v) (auto simp: arr_def obj_def num_def simp del: num_js_of)

lemma js_of_num [simp]: "js_of v = num n \<longleftrightarrow> v = JNum n"
  by (cases v) (auto simp: arr_def obj_def num_def simp del: num_js_of)

lemma js_of_VNull [simp]: "js_of v = VNull \<longleftrightarrow> v = JNull"
  by (cases v) (auto simp: arr_def obj_def num_def simp del: num_js_of)

lemma js_strings [simp]:
  "map js_of vs = map VStr ss \<longleftrightarrow> vs = map JStr ss" "map VStr ss = map js_of vs \<longleftrightarrow> vs = map JStr ss"
proof -
  show first: "map js_of vs = map VStr ss \<longleftrightarrow> vs = map JStr ss"
    by (induction vs arbitrary: ss) (auto simp: Cons_eq_map_conv)
  show "map VStr ss = map js_of vs \<longleftrightarrow> vs = map JStr ss"
    unfolding first [symmetric] by (rule eq_commute)
qed

lemma exact_list_js:
  "exact_list n (js_of v) = Some xs \<longleftrightarrow> (\<exists>vs. v = JArr vs \<and> xs = map js_of vs \<and> 1 \<le> length vs \<and> length vs \<le> n)"
proof (cases v)
  case (JArr vs)
  have "map data_value (map DataProp (map js_of vs)) = map Some (map js_of vs)" by simp
  then have "all_some (map data_value (map DataProp (map js_of vs))) = Some (map js_of vs)"
    by (simp only: all_some_eq_Some)
  then show ?thesis using JArr by (auto simp: arr_def)
qed (auto simp: obj_def num_def simp del: num_js_of)

text \<open>A sequence of the given keys in any order.\<close>

definition keys_of :: "string list \<Rightarrow> string list \<Rightarrow> bool" where
  "keys_of names ks \<longleftrightarrow> distinct ks \<and> set ks = set names"

lemma keys_of_length: "distinct names \<Longrightarrow> keys_of names ks \<Longrightarrow> length ks = length names"
  by (metis keys_of_def distinct_card)

lemma keys_of_self [simp]: "distinct names \<Longrightarrow> keys_of names names"
  by (simp add: keys_of_def)

lemma exact_list_length: "exact_list n v = Some xs \<Longrightarrow> Suc 0 \<le> length xs \<and> length xs \<le> n"
proof (cases "(n, v)" rule: exact_list.cases)
  case (1 maximum ordinary props)
  assume "exact_list n v = Some xs"
  with 1 have "map data_value props = map Some xs" and "1 \<le> length props" and "length props \<le> n"
    by (simp_all add: all_some_eq_Some split: if_splits)
  then show ?thesis by (metis One_nat_def length_map)
qed auto

text \<open>An object with the named members in their order is captured as it is.\<close>

lemma capture_object:
  assumes "distinct (map fst kvs)"
  shows "exact_fields (map fst kvs) (js_of (JObj kvs)) = Some (js_members kvs)"
proof -
  have same: "the (map_of kvs k) = v" if "(k, v) \<in> set kvs" for k v
    using that assms by simp
  have "js_of (JObj kvs) = js_of (in_order (map fst kvs) kvs)"
    using in_order_ident [OF assms, of kvs] by simp
  also have "exact_fields (map fst kvs) \<dots> = Some (map (\<lambda>k. (k, js_of (the (map_of kvs k)))) (map fst kvs))"
    using assms by (intro exact_fields_in_order) simp_all
  also have "map (\<lambda>k. (k, js_of (the (map_of kvs k)))) (map fst kvs) = js_members kvs"
    unfolding js_members_def list.map_comp using same by (intro map_cong) auto
  finally show ?thesis .
qed

lemma capture_named:
  "distinct names \<Longrightarrow> map fst kvs = names \<Longrightarrow> exact_fields names (js_of (JObj kvs)) = Some (js_members kvs)"
  using capture_object by blast

lemma exact_fields_obj:
  assumes "distinct names" and "map fst fs = names"
  shows "exact_fields names (obj fs) = Some fs"
proof -
  have lookup: "map_of (map (\<lambda>(k, v). (k, DataProp v)) fs) k = map_option DataProp (map_of fs k)" for k
    by (induction fs) auto
  have "map (\<lambda>k. map_option (Pair k) (Option.bind (map_option DataProp (map_of fs k)) data_value)) (map fst fs)
      = map Some fs"
    unfolding map_map using assms by (intro map_cong) (auto simp: map_of_eq_iff)
  then have "all_some (map (\<lambda>k. map_option (Pair k) (Option.bind (map_option DataProp (map_of fs k)) data_value)) (map fst fs))
      = Some fs"
    by (simp only: all_some_eq_Some)
  then show ?thesis using assms(2) by (auto simp: obj_def lookup)
qed

end
