(* ===== verification/JSON_Lemmas.thy ===== *)
theory JSON_Lemmas
  imports Canonical_JSON Captured_Records "HOL-Library.Multiset"
begin

text \<open>
  Facts about JSON texts that the components share: how long a text is (the bounds the program
  puts on stored and transmitted texts), and which members two values with the same canonical text
  have in common.
\<close>

section \<open>The length of a text\<close>

definition plain_text :: "string \<Rightarrow> bool" where
  "plain_text s \<longleftrightarrow> list_all (\<lambda>c. escape_char c = [c]) s"

lemma plain_length: "plain_text s \<Longrightarrow> length (string_text s) = length s + 2"
proof -
  assume "plain_text s"
  then have "concat (map escape_char s) = s" by (induction s) (auto simp: plain_text_def)
  then show ?thesis by (simp add: string_text_def)
qed

lemma plain_char: "identifier_char c \<Longrightarrow> escape_char c = [c]"
  by (auto simp: escape_char_def Let_def identifier_char_def is_alnum_def is_digit_def is_upper_def is_lower_def)

lemma alnum_identifier: "is_alnum c \<Longrightarrow> identifier_char c"
  by (simp add: identifier_char_def)

lemma plain_identifier: "list_all identifier_char s \<Longrightarrow> plain_text s"
  by (auto simp: plain_text_def list_all_iff plain_char)

lemma commitment_size: "commitment_text s \<Longrightarrow> length (string_text s) = 73"
proof -
  assume "commitment_text s"
  then obtain h where s: "s = ''sha256:'' @ h" and h: "is_hex64 h" by (auto dest: commitment_prefix)
  have "list_all identifier_char ''sha256:''"
    by (simp add: identifier_char_def is_alnum_def is_digit_def is_lower_def is_upper_def code_def)
  moreover have "list_all identifier_char h"
    using h by (auto simp: is_hex64_def list_all_iff is_hex_not_separator)
  ultimately have "list_all identifier_char s" by (simp add: s)
  then show ?thesis using h by (simp add: plain_length plain_identifier s is_hex64_def)
qed

lemma nat_text_size: "n < 10 ^ k \<Longrightarrow> 1 \<le> k \<Longrightarrow> length (nat_text n) \<le> k"
proof (induction n arbitrary: k rule: nat_text.induct)
  case (1 n)
  show ?case
  proof (cases "n < 10")
    case True
    then show ?thesis using 1(3) by (subst nat_text.simps) simp
  next
    case False
    then obtain j where k: "k = Suc j" "1 \<le> j" using 1(2,3) by (cases k; cases "k - 1") auto
    then have "n div 10 < 10 ^ j" using 1(2) by (simp add: less_mult_imp_div_less mult.commute)
    then have "length (nat_text (n div 10)) \<le> j" using 1(1) False k by simp
    then show ?thesis using False k by (subst nat_text.simps) simp
  qed
qed

lemma int_text_size: "0 \<le> n \<Longrightarrow> nat n < 10 ^ k \<Longrightarrow> 1 \<le> k \<Longrightarrow> length (int_text n) \<le> k"
  by (simp add: int_text_def nat_text_size)

lemma join_size: "length (join_text xs) \<le> sum_list (map (\<lambda>x. Suc (length x)) xs)"
  by (induction xs rule: join_text.induct) auto

text \<open>The most a member adds to the text of an object, and an element to that of an array.\<close>

definition member_size :: "string \<times> json \<Rightarrow> nat" where
  "member_size = (\<lambda>(k, v). length (string_text k) + 2 + length (stringify v))"

lemma object_size: "length (stringify (JObj kvs)) \<le> 2 + sum_list (map member_size kvs)"
proof -
  have "sum_list (map (\<lambda>x. Suc (length x)) (map (\<lambda>(k, v). string_text k @ CHR '':'' # stringify v) kvs))
      = sum_list (map member_size kvs)"
    by (induction kvs) (auto simp: member_size_def)
  then show ?thesis
    using join_size [of "map (\<lambda>(k, v). string_text k @ CHR '':'' # stringify v) kvs"] by simp
qed

lemma array_size:
  assumes "\<And>v. v \<in> set vs \<Longrightarrow> length (stringify v) \<le> n"
  shows "length (stringify (JArr vs)) \<le> 2 + length vs * (n + 1)"
proof -
  have "sum_list (map (\<lambda>x. Suc (length x)) (map stringify vs)) \<le> length vs * (n + 1)"
    using assms
  proof (induction vs)
    case (Cons v vs)
    have "length (stringify v) \<le> n" by (rule Cons.prems) simp
    moreover have "sum_list (map (\<lambda>x. Suc (length x)) (map stringify vs)) \<le> length vs * (n + 1)"
      by (rule Cons.IH) (simp add: Cons.prems)
    ultimately show ?case by simp
  qed simp
  then show ?thesis using join_size [of "map stringify vs"] by simp
qed

lemma in_order_size:
  assumes "keys_of names ks" and "distinct names"
  shows "length (stringify (in_order ks members))
    \<le> 2 + sum_list (map (\<lambda>k. member_size (k, the (map_of members k))) names)"
proof -
  have "sum_list (map (\<lambda>k. member_size (k, the (map_of members k))) ks)
      = sum_list (map (\<lambda>k. member_size (k, the (map_of members k))) names)"
    using assms by (simp add: keys_of_def sum_list_distinct_conv_sum_set)
  then show ?thesis
    using object_size [of "map (\<lambda>k. (k, the (map_of members k))) ks"] by (simp add: in_order_def comp_def)
qed

text \<open>A bound on the text of a value that does not depend on the order of its members.\<close>

fun text_size :: "json \<Rightarrow> nat" where
  "text_size (JArr vs) = 2 + sum_list (map (\<lambda>v. 1 + text_size v) vs)"
| "text_size (JObj kvs) = 2 + sum_list (map (\<lambda>(k, v). length (string_text k) + 2 + text_size v) kvs)"
| "text_size v = length (stringify v)"

lemma sum_list_sorted:
  fixes f :: "'a \<Rightarrow> nat"
  shows "sum_list (map f (sort_key g xs)) = sum_list (map f xs)"
proof -
  have "sum_list (map f ys) = sum_mset (image_mset f (mset ys))" for ys
    by (metis mset_map sum_mset_sum_list)
  then show ?thesis by simp
qed

lemma canonical_size: "length (canonical_json v) \<le> text_size v"
  unfolding canonical_json_def
proof (induction v)
  case (JArr vs)
  have "length (stringify (sort_keys (JArr vs)))
      \<le> 2 + sum_list (map (\<lambda>x. Suc (length x)) (map stringify (map sort_keys vs)))"
    using join_size [of "map stringify (map sort_keys vs)"] by simp
  also have "\<dots> \<le> 2 + sum_list (map (\<lambda>v. 1 + text_size v) vs)"
    unfolding map_map by (intro add_left_mono sum_list_mono) (simp add: JArr)
  finally show ?case by simp
next
  case (JObj kvs)
  have "length (stringify (sort_keys (JObj kvs))) \<le> 2 + sum_list (map member_size (map (\<lambda>(k, v). (k, sort_keys v)) kvs))"
    using object_size [of "sort_key fst (map (\<lambda>(k, v). (k, sort_keys v)) kvs)"] by (simp only: sort_keys.simps sum_list_sorted)
  also have "\<dots> \<le> 2 + sum_list (map (\<lambda>(k, v). length (string_text k) + 2 + text_size v) kvs)"
    unfolding map_map
    by (intro add_left_mono sum_list_mono) (use JObj in \<open>auto simp: member_size_def snds.simps\<close>)
  finally show ?case by simp
qed simp_all

section \<open>Members of values with the same canonical text\<close>

lemma map_of_sorted: "distinct (map fst xs) \<Longrightarrow> map_of (sort_key fst xs) = map_of xs"
  by (subst map_of_inject_set) (simp_all add: distinct_map)

definition canonical_member :: "string \<Rightarrow> (string \<times> json) list \<Rightarrow> json option" where
  "canonical_member k kvs = map_option sort_keys (map_of kvs k)"

lemma canonical_member_simps [simp]:
  "canonical_member k [] = None"
  "canonical_member k ((k', v) # kvs) = (if k = k' then Some (sort_keys v) else canonical_member k kvs)"
  by (simp_all add: canonical_member_def)

lemma same_members:
  assumes "sort_keys (JObj xs) = sort_keys (JObj ys)" "distinct (map fst xs)" "distinct (map fst ys)"
  shows "canonical_member k xs = canonical_member k ys"
proof -
  have "map_of (sort_key fst (map (\<lambda>(k, v). (k, sort_keys v)) zs)) k = canonical_member k zs"
    if "distinct (map fst zs)" for zs
    using that by (subst map_of_sorted) (simp_all add: map_of_map canonical_member_def comp_def split_beta)
  from this [OF assms(2)] this [OF assms(3)] assms(1) show ?thesis by simp
qed

end
