(* ===== verification/Service_Credit_Data.thy ===== *)
theory Service_Credit_Data
  imports Programs JSON_Lemmas
begin

text \<open>
  The data model of \<open>src/src/service-credit-model.js\<close>: offers, activation records, grants and
  requests, the validators that build them from untrusted values (\<open>normalizeOffer\<close>,
  \<open>normalizeActivation\<close>, \<open>normalizeRequest\<close>, \<open>normalizeCachedResult\<close>, \<dots>), their JSON images, and
  the identifiers derived from them. A validator returns \<^const>\<open>None\<close> where the source throws
  \<open>INVALID_INPUT\<close>. Round trips show that a validator accepts the image of every well-formed
  record and gives it back.
\<close>

section \<open>Shapes\<close>

text \<open>
  \<open>captureObjectShape\<close>: an object with the ordinary or the null prototype, string keys only, all
  of them allowed, the required ones present, every one an enumerable data property.
\<close>

fun capture_shape :: "string list \<Rightarrow> string list \<Rightarrow> jsval \<Rightarrow> fields option" where
  "capture_shape required opt (VObject p symbolic props) =
     (if p = ForeignProto \<or> symbolic then None
      else if \<not> list_all (\<lambda>(k, _). k \<in> set required \<or> k \<in> set opt) props then None
      else if \<not> list_all (\<lambda>k. k \<in> fst ` set props) required then None
      else all_some (map (\<lambda>(k, d). map_option (Pair k) (data_value d)) props))"
| "capture_shape required opt _ = None"

lemma capture_shape_obj:
  "capture_shape required opt (obj kvs) =
     (if list_all (\<lambda>k. k \<in> set required \<or> k \<in> set opt) (map fst kvs)
       \<and> list_all (\<lambda>k. k \<in> set (map fst kvs)) required
      then Some kvs else None)"
proof -
  have "all_some (map (\<lambda>(k, d). map_option (Pair k) (data_value d)) (map (\<lambda>(k, v). (k, DataProp v)) kvs)) = Some kvs"
    by (induction kvs) auto
  then show ?thesis by (auto simp: obj_def list_all_iff image_iff split_beta)
qed

text \<open>\<open>captureStateArray\<close>: an ordinary dense array of data properties, of bounded length.\<close>

fun capture_array :: "nat \<Rightarrow> jsval \<Rightarrow> jsval list option" where
  "capture_array maximum (VArray form props) =
     (if is_ordinary form \<and> length props \<le> maximum then all_some (map data_value props) else None)"
| "capture_array maximum _ = None"

lemma capture_array_arr [simp]:
  "capture_array maximum (arr vs) = (if length vs \<le> maximum then Some vs else None)"
  by (simp add: arr_def comp_def)

section \<open>Grammars\<close>

text \<open>\<open>/^[A-Z][A-Z0-9_-]{0,15}$/\<close>\<close>

definition method_char :: "char \<Rightarrow> bool" where
  "method_char c \<longleftrightarrow> is_upper c \<or> is_digit c \<or> code c = 95 \<or> code c = 45"

definition method_text :: "string \<Rightarrow> bool" where
  "method_text s \<longleftrightarrow> s \<noteq> [] \<and> length s \<le> 16 \<and> is_upper (hd s) \<and> list_all method_char (tl s)"

text \<open>\<open>/^[a-z0-9][a-z0-9!#$&^_.+-]{0,63}\/[a-z0-9][a-z0-9!#$&^_.+-]{0,63}$/\<close>\<close>

definition media_start :: "char \<Rightarrow> bool" where
  "media_start c \<longleftrightarrow> is_lower c \<or> is_digit c"

definition media_char :: "char \<Rightarrow> bool" where
  "media_char c \<longleftrightarrow> media_start c \<or> code c \<in> {33, 35, 36, 38, 94, 95, 46, 43, 45}"

definition media_token :: "string \<Rightarrow> bool" where
  "media_token s \<longleftrightarrow> s \<noteq> [] \<and> length s \<le> 64 \<and> media_start (hd s) \<and> list_all media_char (tl s)"

definition content_type :: "string \<Rightarrow> bool" where
  "content_type s \<longleftrightarrow>
     media_token (takeWhile (\<lambda>c. c \<noteq> CHR ''/'') s)
     \<and> (case dropWhile (\<lambda>c. c \<noteq> CHR ''/'') s of [] \<Rightarrow> False | _ # r \<Rightarrow> media_token r)"

definition max_safe_text :: string where
  "max_safe_text = ''9007199254740991''"

definition zero_hash :: string where
  "zero_hash = replicate 64 (CHR ''0'')"

text \<open>\<open>isSdkSafeChainIdentifier\<close>: a canonical decimal compared as text with the largest safe one.\<close>

definition sdk_safe_chain_identifier :: "string \<Rightarrow> bool" where
  "sdk_safe_chain_identifier s \<longleftrightarrow> positive_decimal s
     \<and> (length s < length max_safe_text \<or> length s = length max_safe_text \<and> s \<le> max_safe_text)"

definition as_text :: "(string \<Rightarrow> bool) \<Rightarrow> jsval \<Rightarrow> string option" where
  "as_text P v = satisfying P (string_value v)"

lemma as_text_VStr [simp]: "as_text P (VStr s) = (if P s then Some s else None)"
  by (simp add: as_text_def)

lemma as_text_Some: "as_text P v = Some s \<Longrightarrow> v = VStr s \<and> P s"
  by (simp add: as_text_def satisfying_eq_Some)

text \<open>
  Two members, \<open>transactionId\<close> and the test network's \<open>genesisMomentumHash\<close>, are tested by a
  regular expression without a \<open>typeof\<close>, so the expression sees the text that the value is
  converted to. A string is its own text, and an ordinary array of one element has the text of the
  element; an array of two or more has a comma in its text, and an empty one has the empty text, which
  no expression used here accepts. A \<open>text_ref\<close> is what can pass: a string in any number of arrays.
\<close>

datatype text_ref = is_Plain: Plain string | Boxed text_ref

fun ref_text :: "text_ref \<Rightarrow> string" where
  "ref_text (Plain s) = s"
| "ref_text (Boxed r) = ref_text r"

fun ref_json :: "text_ref \<Rightarrow> json" where
  "ref_json (Plain s) = JStr s"
| "ref_json (Boxed r) = JArr [ref_json r]"

fun text_ref_of :: "jsval \<Rightarrow> text_ref option" where
  "text_ref_of (VStr s) = Some (Plain s)"
| "text_ref_of (VArray (OrdinaryArray i) [DataProp v]) = map_option Boxed (text_ref_of v)"
| "text_ref_of _ = None"

definition as_reference :: "(string \<Rightarrow> bool) \<Rightarrow> jsval \<Rightarrow> text_ref option" where
  "as_reference P v = satisfying (\<lambda>r. P (ref_text r)) (text_ref_of v)"

text \<open>Which array a value is, where other values refer to the same one.\<close>

fun array_identity :: "jsval \<Rightarrow> nat option" where
  "array_identity (VArray (OrdinaryArray i) props) = i"
| "array_identity _ = None"

lemma text_ref_of_json [simp]: "text_ref_of (js_of (ref_json r)) = Some r"
  by (induction r) (simp_all add: arr_def)

lemma ref_json_inject [simp]: "ref_json r = ref_json r' \<longleftrightarrow> r = r'"
proof (induction r arbitrary: r')
  case (Plain s)
  show ?case by (cases r') simp_all
next
  case (Boxed r)
  then show ?case by (cases r') simp_all
qed

lemma sort_keys_ref_json [simp]: "sort_keys (ref_json r) = ref_json r"
  by (induction r) simp_all

lemma array_identity_json [simp]: "array_identity (js_of j) = None"
  by (cases j) (simp_all add: arr_def obj_def num_def del: num_js_of)

lemma ref_json_text [simp]:
  "js_of (ref_json r) = VStr s \<longleftrightarrow> r = Plain s" "ref_json r = JStr s \<longleftrightarrow> r = Plain s"
  by (cases r; simp add: arr_def)+

lemma as_reference_json [simp]:
  "as_reference P (js_of (ref_json r)) = (if P (ref_text r) then Some r else None)"
  by (simp add: as_reference_def satisfying_def)

lemma text_ref_of_Plain: "text_ref_of v = Some (Plain s) \<longleftrightarrow> v = VStr s"
  by (cases v rule: text_ref_of.cases) auto

lemma as_reference_Some: "as_reference P v = Some r \<Longrightarrow> text_ref_of v = Some r \<and> P (ref_text r)"
  by (simp add: as_reference_def satisfying_eq_Some)

lemma as_reference_given:
  "text_ref_of v = Some r \<Longrightarrow> as_reference P v = (if P (ref_text r) then Some r else None)"
  "text_ref_of v = Some r \<Longrightarrow> v = VStr s \<longleftrightarrow> r = Plain s"
  "text_ref_of v = Some r \<Longrightarrow> is_Plain r \<Longrightarrow> array_identity v = None"
  by (simp_all add: as_reference_def satisfying_def flip: text_ref_of_Plain)
    (auto simp: is_Plain_def text_ref_of_Plain)

section \<open>Records\<close>

datatype grant_lifecycle = ACTIVE | EXPIRED | REVOKED

datatype request_state = RESERVED | EXECUTING | SUCCEEDED | FAILED_RELEASED | OUTCOME_UNKNOWN

record offer =
  off_providerId :: string
  off_serviceId :: string
  off_resourceId :: string
  off_resourceBinding :: string
  off_offerId :: string
  off_offerVersion :: int
  off_costPolicyId :: string
  off_fundingPolicyId :: string
  off_fundingPolicyVersion :: int

record chain_profile =
  cp_chainIdentifier :: string
  cp_genesisMomentumHash :: string

text \<open>The chain of an activation record, whose genesis hash is only tested by a regular expression.\<close>

record activation_chain =
  ac_chainIdentifier :: string
  ac_genesisMomentumHash :: text_ref

record confirmation_policy =
  cf_policyId :: string
  cf_policyVersion :: int
  cf_minimumConfirmations :: int

text \<open>
  An activation record. \<open>act_evidence\<close> holds \<open>evidenceVersion\<close> and
  \<open>inclusionAuthorizationDigest\<close>, present on authenticated Zenon activations only.
  \<open>act_transactionArray\<close> says which array the transaction id is, when it is one and other values
  refer to it as well: the map of transactions compares arrays by identity.
\<close>

record activation =
  act_activationVersion :: int
  act_authorityProfileId :: string
  act_authorityProfileVersion :: int
  act_verifierVersion :: int
  act_authorityRecordDigest :: string
  act_fundingPolicyId :: string
  act_fundingPolicyVersion :: int
  act_sourceSettlementId :: string
  act_transactionId :: text_ref
  act_transactionArray :: "nat option"
  act_providerId :: string
  act_serviceId :: string
  act_resourceId :: string
  act_resourceBinding :: string
  act_offerId :: string
  act_offerVersion :: int
  act_holderId :: string
  act_capabilityCommitment :: string
  act_totalUnits :: int
  act_expiresAt :: int
  act_network :: string
  act_chainProfile :: activation_chain
  act_asset :: string
  act_amount :: string
  act_payee :: string
  act_payer :: string
  act_paymentResourceDigest :: string
  act_paymentRequirementDigest :: string
  act_paymentIntentDigest :: string
  act_grantFundingCommitment :: string
  act_evidence :: "(int \<times> string) option"
  act_confirmationPolicy :: confirmation_policy

record cached_result =
  res_statusCode :: int
  res_contentType :: string
  res_resultCode :: string

text \<open>A grant: its immutable description and activation, and the mutable part.\<close>

record grant =
  gr_grantId :: string
  gr_activationId :: string
  gr_activation :: activation
  gr_lifecycle :: grant_lifecycle
  gr_availableUnits :: int
  gr_heldUnits :: int
  gr_consumedUnits :: int

text \<open>The holder's part of a request (\<open>normalizeRequest\<close>) and the stored request.\<close>

record request_input =
  rin_grantId :: string
  rin_requestId :: string
  rin_method :: string
  rin_routeId :: string
  rin_canonicalBodyDigest :: string
  rin_selectedContentType :: string
  rin_maxCostUnits :: int

record request =
  req_input :: request_input
  req_requestDigest :: string
  req_offerId :: string
  req_offerVersion :: int
  req_costUnits :: int
  req_state :: request_state
  req_cachedResult :: "cached_result option"

abbreviation gr_totalUnits :: "grant \<Rightarrow> int" where
  "gr_totalUnits g \<equiv> act_totalUnits (gr_activation g)"

abbreviation gr_expiresAt :: "grant \<Rightarrow> int" where
  "gr_expiresAt g \<equiv> act_expiresAt (gr_activation g)"

abbreviation req_requestId :: "request \<Rightarrow> string" where
  "req_requestId r \<equiv> rin_requestId (req_input r)"

abbreviation req_grantId :: "request \<Rightarrow> string" where
  "req_grantId r \<equiv> rin_grantId (req_input r)"

section \<open>Validators\<close>

definition offer_keys :: "string list" where
  "offer_keys = [
    ''modelVersion'', ''providerId'', ''serviceId'', ''resourceId'', ''resourceBinding'',
    ''offerId'', ''offerVersion'', ''costPolicyId'', ''fundingPolicyId'',
    ''fundingPolicyVersion'']"

definition normalize_offer :: "jsval \<Rightarrow> offer option" where
  "normalize_offer input = do {
     v \<leftarrow> capture_shape offer_keys [] input;
     guard (field ''modelVersion'' v = num 1);
     providerId \<leftarrow> as_identifier (field ''providerId'' v);
     serviceId \<leftarrow> as_identifier (field ''serviceId'' v);
     resourceId \<leftarrow> as_identifier (field ''resourceId'' v);
     resourceBinding \<leftarrow> as_commitment (field ''resourceBinding'' v);
     offerId \<leftarrow> as_identifier (field ''offerId'' v);
     offerVersion \<leftarrow> as_positive (field ''offerVersion'' v);
     costPolicyId \<leftarrow> as_identifier (field ''costPolicyId'' v);
     fundingPolicyId \<leftarrow> as_identifier (field ''fundingPolicyId'' v);
     fundingPolicyVersion \<leftarrow> as_positive (field ''fundingPolicyVersion'' v);
     Some \<lparr>off_providerId = providerId, off_serviceId = serviceId, off_resourceId = resourceId,
       off_resourceBinding = resourceBinding, off_offerId = offerId, off_offerVersion = offerVersion,
       off_costPolicyId = costPolicyId, off_fundingPolicyId = fundingPolicyId,
       off_fundingPolicyVersion = fundingPolicyVersion\<rparr>
   }"

definition activation_keys :: "string list" where
  "activation_keys = [
    ''activationVersion'', ''authorityProfileId'', ''authorityProfileVersion'',
    ''verifierVersion'', ''authorityRecordDigest'', ''fundingPolicyId'',
    ''fundingPolicyVersion'', ''sourceSettlementId'', ''transactionId'', ''providerId'',
    ''serviceId'', ''resourceId'', ''resourceBinding'', ''offerId'', ''offerVersion'',
    ''holderId'', ''capabilityCommitment'', ''totalUnits'', ''expiresAt'', ''scheme'',
    ''paymentFlow'', ''network'', ''chainProfile'', ''asset'', ''amount'', ''payee'',
    ''payer'', ''paymentResourceDigest'', ''paymentRequirementDigest'',
    ''paymentIntentDigest'', ''grantFundingCommitment'', ''evidenceState'',
    ''confirmationPolicy'']"

definition evidence_keys :: "string list" where
  "evidence_keys = [''evidenceVersion'', ''inclusionAuthorizationDigest'']"

definition chain_profile_keys :: "string list" where
  "chain_profile_keys = [''version'', ''chainIdentifier'', ''genesisMomentumHash'']"

definition confirmation_policy_keys :: "string list" where
  "confirmation_policy_keys = [''policyId'', ''policyVersion'', ''minimumConfirmations'']"

text \<open>
  The two activation generations: version 1 on the mock network with the fixed mock chain and
  policy and no evidence keys, version 2 on the test network with an SDK-safe chain, the fixed
  authenticated policy, 2 to 30 confirmations and both evidence keys.
\<close>

definition mock_chain :: "fields \<Rightarrow> bool" where
  "mock_chain c \<longleftrightarrow> field ''chainIdentifier'' c = VStr max_safe_text
     \<and> field ''genesisMomentumHash'' c = VStr zero_hash"

definition zenon_chain :: "fields \<Rightarrow> bool" where
  "zenon_chain c \<longleftrightarrow> as_text sdk_safe_chain_identifier (field ''chainIdentifier'' c) \<noteq> None
     \<and> as_reference is_hex64 (field ''genesisMomentumHash'' c) \<noteq> None
     \<and> field ''genesisMomentumHash'' c \<noteq> VStr zero_hash"

definition mock_policy :: "fields \<Rightarrow> fields \<Rightarrow> bool" where
  "mock_policy v p \<longleftrightarrow> field ''policyId'' p = VStr ''mock.momentum-included''
     \<and> field ''policyVersion'' p = num 1 \<and> field ''minimumConfirmations'' p = num 1
     \<and> \<not> has_own ''evidenceVersion'' v \<and> \<not> has_own ''inclusionAuthorizationDigest'' v"

definition zenon_policy :: "fields \<Rightarrow> fields \<Rightarrow> bool" where
  "zenon_policy v p \<longleftrightarrow> field ''evidenceVersion'' v = num 1
     \<and> field ''policyId'' p = VStr ''zenon.authenticated-momentum-inclusion''
     \<and> field ''policyVersion'' p = num 1
     \<and> (case safe_integer (field ''minimumConfirmations'' p) of
          None \<Rightarrow> False | Some n \<Rightarrow> 2 \<le> n \<and> n \<le> 30)
     \<and> field ''inclusionAuthorizationDigest'' v \<noteq> VUndefined"

text \<open>
  \<open>normalizeActivation\<close>. The regular expressions on \<open>transactionId\<close> and on the test network's
  \<open>genesisMomentumHash\<close> let an array with the right text pass; the record then holds the array.
\<close>

definition normalize_activation_fields :: "fields \<Rightarrow> activation option" where
  "normalize_activation_fields v = do {
     authorityProfileId \<leftarrow> as_identifier (field ''authorityProfileId'' v);
     fundingPolicyId \<leftarrow> as_identifier (field ''fundingPolicyId'' v);
     sourceSettlementId \<leftarrow> as_identifier (field ''sourceSettlementId'' v);
     providerId \<leftarrow> as_identifier (field ''providerId'' v);
     serviceId \<leftarrow> as_identifier (field ''serviceId'' v);
     resourceId \<leftarrow> as_identifier (field ''resourceId'' v);
     offerId \<leftarrow> as_identifier (field ''offerId'' v);
     holderId \<leftarrow> as_identifier (field ''holderId'' v);
     asset \<leftarrow> as_identifier (field ''asset'' v);
     payee \<leftarrow> as_identifier (field ''payee'' v);
     payer \<leftarrow> as_identifier (field ''payer'' v);
     guard (holderId = payer);
     authorityProfileVersion \<leftarrow> as_positive (field ''authorityProfileVersion'' v);
     verifierVersion \<leftarrow> as_positive (field ''verifierVersion'' v);
     authorityRecordDigest \<leftarrow> as_commitment (field ''authorityRecordDigest'' v);
     fundingPolicyVersion \<leftarrow> as_positive (field ''fundingPolicyVersion'' v);
     resourceBinding \<leftarrow> as_commitment (field ''resourceBinding'' v);
     offerVersion \<leftarrow> as_positive (field ''offerVersion'' v);
     capabilityCommitment \<leftarrow> as_commitment (field ''capabilityCommitment'' v);
     totalUnits \<leftarrow> as_positive (field ''totalUnits'' v);
     expiresAt \<leftarrow> as_positive (field ''expiresAt'' v);
     guard (field ''scheme'' v = VStr ''exact'' \<and> field ''paymentFlow'' v = VStr ''upfront'');
     amount \<leftarrow> as_text (\<lambda>s. positive_decimal s \<and> length s \<le> 77) (field ''amount'' v);
     c \<leftarrow> capture_shape chain_profile_keys [] (field ''chainProfile'' v);
     guard (field ''version'' c = num 1);
     let mock = (field ''activationVersion'' v = num 1 \<and> field ''network'' v = VStr ''zenon:mock'');
     let zenon = (field ''activationVersion'' v = num 2 \<and> field ''network'' v = VStr ''zenon:testnet'');
     guard (mock \<or> zenon);
     transactionId \<leftarrow> as_reference (prefixed_hex64 (if mock then ''mocktx:'' else ''zenontx:''))
       (field ''transactionId'' v);
     guard (if mock then mock_chain c else zenon_chain c);
     chainIdentifier \<leftarrow> string_value (field ''chainIdentifier'' c);
     genesisMomentumHash \<leftarrow> text_ref_of (field ''genesisMomentumHash'' c);
     paymentResourceDigest \<leftarrow> as_commitment (field ''paymentResourceDigest'' v);
     paymentRequirementDigest \<leftarrow> as_commitment (field ''paymentRequirementDigest'' v);
     paymentIntentDigest \<leftarrow> as_commitment (field ''paymentIntentDigest'' v);
     grantFundingCommitment \<leftarrow> as_commitment (field ''grantFundingCommitment'' v);
     guard (field ''evidenceState'' v = VStr ''MOMENTUM_INCLUDED'');
     p \<leftarrow> capture_shape confirmation_policy_keys [] (field ''confirmationPolicy'' v);
     guard (if mock then mock_policy v p else zenon_policy v p);
     policyId \<leftarrow> string_value (field ''policyId'' p);
     minimumConfirmations \<leftarrow> safe_integer (field ''minimumConfirmations'' p);
     evidence \<leftarrow> (if mock then Some None
       else map_option (\<lambda>d. Some (1, d)) (as_commitment (field ''inclusionAuthorizationDigest'' v)));
     Some \<lparr>act_activationVersion = (if mock then 1 else 2),
       act_authorityProfileId = authorityProfileId,
       act_authorityProfileVersion = authorityProfileVersion,
       act_verifierVersion = verifierVersion,
       act_authorityRecordDigest = authorityRecordDigest,
       act_fundingPolicyId = fundingPolicyId,
       act_fundingPolicyVersion = fundingPolicyVersion,
       act_sourceSettlementId = sourceSettlementId,
       act_transactionId = transactionId,
       act_transactionArray = array_identity (field ''transactionId'' v),
       act_providerId = providerId,
       act_serviceId = serviceId,
       act_resourceId = resourceId,
       act_resourceBinding = resourceBinding,
       act_offerId = offerId,
       act_offerVersion = offerVersion,
       act_holderId = holderId,
       act_capabilityCommitment = capabilityCommitment,
       act_totalUnits = totalUnits,
       act_expiresAt = expiresAt,
       act_network = (if mock then ''zenon:mock'' else ''zenon:testnet''),
       act_chainProfile = \<lparr>ac_chainIdentifier = chainIdentifier,
         ac_genesisMomentumHash = genesisMomentumHash\<rparr>,
       act_asset = asset,
       act_amount = amount,
       act_payee = payee,
       act_payer = payer,
       act_paymentResourceDigest = paymentResourceDigest,
       act_paymentRequirementDigest = paymentRequirementDigest,
       act_paymentIntentDigest = paymentIntentDigest,
       act_grantFundingCommitment = grantFundingCommitment,
       act_evidence = evidence,
       act_confirmationPolicy = \<lparr>cf_policyId = policyId, cf_policyVersion = 1,
         cf_minimumConfirmations = minimumConfirmations\<rparr>\<rparr>
   }"

definition normalize_activation :: "jsval \<Rightarrow> activation option" where
  "normalize_activation input =
     Option.bind (capture_shape activation_keys evidence_keys input) normalize_activation_fields"

definition request_keys :: "string list" where
  "request_keys = [
    ''modelVersion'', ''grantId'', ''requestId'', ''method'', ''routeId'',
    ''canonicalBodyDigest'', ''selectedContentType'', ''maxCostUnits'']"

definition normalize_request_fields :: "fields \<Rightarrow> request_input option" where
  "normalize_request_fields v = do {
     guard (field ''modelVersion'' v = num 1);
     grantId \<leftarrow> as_identifier (field ''grantId'' v);
     requestId \<leftarrow> as_identifier (field ''requestId'' v);
     method \<leftarrow> as_text method_text (field ''method'' v);
     routeId \<leftarrow> as_identifier (field ''routeId'' v);
     canonicalBodyDigest \<leftarrow> as_commitment (field ''canonicalBodyDigest'' v);
     selectedContentType \<leftarrow> as_text content_type (field ''selectedContentType'' v);
     maxCostUnits \<leftarrow> as_positive (field ''maxCostUnits'' v);
     Some \<lparr>rin_grantId = grantId, rin_requestId = requestId, rin_method = method,
       rin_routeId = routeId, rin_canonicalBodyDigest = canonicalBodyDigest,
       rin_selectedContentType = selectedContentType, rin_maxCostUnits = maxCostUnits\<rparr>
   }"

definition normalize_request :: "jsval \<Rightarrow> request_input option" where
  "normalize_request input = Option.bind (capture_shape request_keys [] input) normalize_request_fields"

definition normalize_reference :: "jsval \<Rightarrow> (string \<times> string) option" where
  "normalize_reference input = do {
     v \<leftarrow> capture_shape [''grantId'', ''requestId''] [] input;
     grantId \<leftarrow> as_identifier (field ''grantId'' v);
     requestId \<leftarrow> as_identifier (field ''requestId'' v);
     Some (grantId, requestId)
   }"

definition normalize_cached_result :: "jsval \<Rightarrow> cached_result option" where
  "normalize_cached_result input = do {
     v \<leftarrow> capture_shape [''statusCode'', ''contentType'', ''resultCode''] [] input;
     statusCode \<leftarrow> satisfying (\<lambda>n. 100 \<le> n \<and> n \<le> 599) (safe_integer (field ''statusCode'' v));
     contentType \<leftarrow> as_text content_type (field ''contentType'' v);
     resultCode \<leftarrow> as_identifier (field ''resultCode'' v);
     Some \<lparr>res_statusCode = statusCode, res_contentType = contentType, res_resultCode = resultCode\<rparr>
   }"

section \<open>JSON images\<close>

definition offer_json :: "offer \<Rightarrow> json" where
  "offer_json x = JObj [(''modelVersion'', JNum 1), (''providerId'', JStr (off_providerId x)),
     (''serviceId'', JStr (off_serviceId x)), (''resourceId'', JStr (off_resourceId x)),
     (''resourceBinding'', JStr (off_resourceBinding x)), (''offerId'', JStr (off_offerId x)),
     (''offerVersion'', JNum (off_offerVersion x)), (''costPolicyId'', JStr (off_costPolicyId x)),
     (''fundingPolicyId'', JStr (off_fundingPolicyId x)),
     (''fundingPolicyVersion'', JNum (off_fundingPolicyVersion x))]"

definition chain_profile_json :: "chain_profile \<Rightarrow> json" where
  "chain_profile_json c = JObj [(''version'', JNum 1),
     (''chainIdentifier'', JStr (cp_chainIdentifier c)),
     (''genesisMomentumHash'', JStr (cp_genesisMomentumHash c))]"

definition activation_chain_json :: "activation_chain \<Rightarrow> json" where
  "activation_chain_json c = JObj [(''version'', JNum 1),
     (''chainIdentifier'', JStr (ac_chainIdentifier c)),
     (''genesisMomentumHash'', ref_json (ac_genesisMomentumHash c))]"

definition confirmation_policy_json :: "confirmation_policy \<Rightarrow> json" where
  "confirmation_policy_json p = JObj [(''policyId'', JStr (cf_policyId p)),
     (''policyVersion'', JNum (cf_policyVersion p)),
     (''minimumConfirmations'', JNum (cf_minimumConfirmations p))]"

definition evidence_members :: "(int \<times> string) option \<Rightarrow> (string \<times> json) list" where
  "evidence_members e = (case e of None \<Rightarrow> []
     | Some (n, d) \<Rightarrow> [(''evidenceVersion'', JNum n), (''inclusionAuthorizationDigest'', JStr d)])"

definition activation_members :: "activation \<Rightarrow> (string \<times> json) list" where
  "activation_members a =
     [(''activationVersion'', JNum (act_activationVersion a)),
      (''authorityProfileId'', JStr (act_authorityProfileId a)),
      (''authorityProfileVersion'', JNum (act_authorityProfileVersion a)),
      (''verifierVersion'', JNum (act_verifierVersion a)),
      (''authorityRecordDigest'', JStr (act_authorityRecordDigest a)),
      (''fundingPolicyId'', JStr (act_fundingPolicyId a)),
      (''fundingPolicyVersion'', JNum (act_fundingPolicyVersion a)),
      (''sourceSettlementId'', JStr (act_sourceSettlementId a)),
      (''transactionId'', ref_json (act_transactionId a)),
      (''providerId'', JStr (act_providerId a)),
      (''serviceId'', JStr (act_serviceId a)),
      (''resourceId'', JStr (act_resourceId a)),
      (''resourceBinding'', JStr (act_resourceBinding a)),
      (''offerId'', JStr (act_offerId a)),
      (''offerVersion'', JNum (act_offerVersion a)),
      (''holderId'', JStr (act_holderId a)),
      (''capabilityCommitment'', JStr (act_capabilityCommitment a)),
      (''totalUnits'', JNum (act_totalUnits a)),
      (''expiresAt'', JNum (act_expiresAt a)),
      (''scheme'', JStr ''exact''),
      (''paymentFlow'', JStr ''upfront''),
      (''network'', JStr (act_network a)),
      (''chainProfile'', activation_chain_json (act_chainProfile a)),
      (''asset'', JStr (act_asset a)),
      (''amount'', JStr (act_amount a)),
      (''payee'', JStr (act_payee a)),
      (''payer'', JStr (act_payer a)),
      (''paymentResourceDigest'', JStr (act_paymentResourceDigest a)),
      (''paymentRequirementDigest'', JStr (act_paymentRequirementDigest a)),
      (''paymentIntentDigest'', JStr (act_paymentIntentDigest a)),
      (''grantFundingCommitment'', JStr (act_grantFundingCommitment a))] @ evidence_members (act_evidence a) @
     [(''evidenceState'', JStr ''MOMENTUM_INCLUDED''),
      (''confirmationPolicy'', confirmation_policy_json (act_confirmationPolicy a))]"

definition cached_result_json :: "cached_result \<Rightarrow> json" where
  "cached_result_json r = JObj [(''statusCode'', JNum (res_statusCode r)),
     (''contentType'', JStr (res_contentType r)), (''resultCode'', JStr (res_resultCode r))]"

section \<open>Derived identifiers\<close>

definition activation_id_for :: "(string \<Rightarrow> string) \<Rightarrow> activation \<Rightarrow> string" where
  "activation_id_for sha a = ''activation_'' @ drop (length ''sha256:'') (sha256_commitment sha
     (JObj [(''domain'', JStr ''zenon-x402-service-credit-activation-v1''),
       (''record'', JObj (activation_members a))]))"

definition grant_description_for :: "string \<Rightarrow> activation \<Rightarrow> json" where
  "grant_description_for activationId a = JObj [(''modelVersion'', JNum 1),
     (''activationId'', JStr activationId), (''providerId'', JStr (act_providerId a)),
     (''serviceId'', JStr (act_serviceId a)), (''resourceId'', JStr (act_resourceId a)),
     (''offerId'', JStr (act_offerId a)), (''offerVersion'', JNum (act_offerVersion a)),
     (''holderId'', JStr (act_holderId a)),
     (''capabilityCommitment'', JStr (act_capabilityCommitment a)),
     (''totalUnits'', JNum (act_totalUnits a)), (''expiresAt'', JNum (act_expiresAt a))]"

definition grant_id_for :: "(string \<Rightarrow> string) \<Rightarrow> json \<Rightarrow> string" where
  "grant_id_for sha description = ''grant_'' @ drop (length ''sha256:'') (sha256_commitment sha
     (JObj [(''domain'', JStr ''zenon-x402-service-credit-grant-v1''), (''grant'', description)]))"

definition request_digest_for ::
  "(string \<Rightarrow> string) \<Rightarrow> string \<Rightarrow> int \<Rightarrow> request_input \<Rightarrow> int \<Rightarrow> string" where
  "request_digest_for sha offerId offerVersion r costUnits = sha256_commitment sha
     (JObj [(''modelVersion'', JNum 1), (''grantId'', JStr (rin_grantId r)),
       (''offerId'', JStr offerId), (''offerVersion'', JNum offerVersion),
       (''method'', JStr (rin_method r)), (''routeId'', JStr (rin_routeId r)),
       (''canonicalBodyDigest'', JStr (rin_canonicalBodyDigest r)),
       (''selectedContentType'', JStr (rin_selectedContentType r)),
       (''maxCostUnits'', JNum (rin_maxCostUnits r)), (''costUnits'', JNum costUnits)])"

section \<open>Well-formed records and round trips\<close>

definition offer_ok :: "offer \<Rightarrow> bool" where
  "offer_ok x \<longleftrightarrow> identifier_text (off_providerId x) \<and> identifier_text (off_serviceId x)
     \<and> identifier_text (off_resourceId x) \<and> commitment_text (off_resourceBinding x)
     \<and> identifier_text (off_offerId x) \<and> positive_safe (off_offerVersion x)
     \<and> identifier_text (off_costPolicyId x) \<and> identifier_text (off_fundingPolicyId x)
     \<and> positive_safe (off_fundingPolicyVersion x)"

text \<open>What distinguishes the two activation generations.\<close>

definition mock_activation :: "activation \<Rightarrow> bool" where
  "mock_activation a \<longleftrightarrow> act_activationVersion a = 1 \<and> act_network a = ''zenon:mock''
     \<and> prefixed_hex64 ''mocktx:'' (ref_text (act_transactionId a))
     \<and> act_chainProfile a = \<lparr>ac_chainIdentifier = max_safe_text, ac_genesisMomentumHash = Plain zero_hash\<rparr>
     \<and> act_evidence a = None
     \<and> act_confirmationPolicy a = \<lparr>cf_policyId = ''mock.momentum-included'', cf_policyVersion = 1,
         cf_minimumConfirmations = 1\<rparr>"

definition zenon_activation :: "activation \<Rightarrow> bool" where
  "zenon_activation a \<longleftrightarrow> act_activationVersion a = 2 \<and> act_network a = ''zenon:testnet''
     \<and> prefixed_hex64 ''zenontx:'' (ref_text (act_transactionId a))
     \<and> sdk_safe_chain_identifier (ac_chainIdentifier (act_chainProfile a))
     \<and> is_hex64 (ref_text (ac_genesisMomentumHash (act_chainProfile a)))
     \<and> ac_genesisMomentumHash (act_chainProfile a) \<noteq> Plain zero_hash
     \<and> (\<exists>d. act_evidence a = Some (1, d) \<and> commitment_text d)
     \<and> (\<exists>n. act_confirmationPolicy a = \<lparr>cf_policyId = ''zenon.authenticated-momentum-inclusion'',
         cf_policyVersion = 1, cf_minimumConfirmations = n\<rparr> \<and> 2 \<le> n \<and> n \<le> 30)"

definition activation_ok :: "activation \<Rightarrow> bool" where
  "activation_ok a \<longleftrightarrow> (mock_activation a \<or> zenon_activation a)
     \<and> (is_Plain (act_transactionId a) \<longrightarrow> act_transactionArray a = None)
     \<and> identifier_text (act_authorityProfileId a) \<and> identifier_text (act_fundingPolicyId a)
     \<and> identifier_text (act_sourceSettlementId a) \<and> identifier_text (act_providerId a)
     \<and> identifier_text (act_serviceId a) \<and> identifier_text (act_resourceId a)
     \<and> identifier_text (act_offerId a) \<and> identifier_text (act_holderId a)
     \<and> identifier_text (act_asset a) \<and> identifier_text (act_payee a) \<and> act_payer a = act_holderId a
     \<and> positive_safe (act_authorityProfileVersion a) \<and> positive_safe (act_verifierVersion a)
     \<and> commitment_text (act_authorityRecordDigest a) \<and> positive_safe (act_fundingPolicyVersion a)
     \<and> commitment_text (act_resourceBinding a) \<and> positive_safe (act_offerVersion a)
     \<and> commitment_text (act_capabilityCommitment a) \<and> positive_safe (act_totalUnits a)
     \<and> positive_safe (act_expiresAt a) \<and> positive_decimal (act_amount a) \<and> length (act_amount a) \<le> 77
     \<and> commitment_text (act_paymentResourceDigest a) \<and> commitment_text (act_paymentRequirementDigest a)
     \<and> commitment_text (act_paymentIntentDigest a) \<and> commitment_text (act_grantFundingCommitment a)"

definition request_input_ok :: "request_input \<Rightarrow> bool" where
  "request_input_ok r \<longleftrightarrow> identifier_text (rin_grantId r) \<and> identifier_text (rin_requestId r)
     \<and> method_text (rin_method r) \<and> identifier_text (rin_routeId r)
     \<and> commitment_text (rin_canonicalBodyDigest r) \<and> content_type (rin_selectedContentType r)
     \<and> positive_safe (rin_maxCostUnits r)"

definition cached_result_ok :: "cached_result \<Rightarrow> bool" where
  "cached_result_ok r \<longleftrightarrow> 100 \<le> res_statusCode r \<and> res_statusCode r \<le> 599
     \<and> content_type (res_contentType r) \<and> identifier_text (res_resultCode r)"

lemmas reader_Some = as_identifier_Some as_commitment_Some as_positive_Some as_count_Some as_text_Some
  as_reference_Some

lemma normalize_offer_ok: "normalize_offer v = Some x \<Longrightarrow> offer_ok x"
  by (auto simp: normalize_offer_def bind_eq_Some_conv offer_ok_def dest!: reader_Some)

lemma normalize_offer_image: "offer_ok x \<Longrightarrow> normalize_offer (js_of (offer_json x)) = Some x"
  by (cases x) (simp add: normalize_offer_def offer_json_def capture_shape_obj offer_keys_def offer_ok_def)

lemma normalize_request_ok: "normalize_request v = Some r \<Longrightarrow> request_input_ok r"
  by (auto simp: normalize_request_def normalize_request_fields_def bind_eq_Some_conv request_input_ok_def
      dest!: reader_Some)

lemma normalize_cached_result_ok: "normalize_cached_result v = Some r \<Longrightarrow> cached_result_ok r"
  by (auto simp: normalize_cached_result_def bind_eq_Some_conv cached_result_ok_def satisfying_eq_Some
      dest!: reader_Some)

lemma normalize_cached_result_image:
  "cached_result_ok r \<Longrightarrow> normalize_cached_result (js_of (cached_result_json r)) = Some r"
  by (cases r) (simp add: normalize_cached_result_def cached_result_json_def capture_shape_obj
      cached_result_ok_def safe_range_def max_safe_def)

lemma normalize_activation_fields_ok:
  assumes "normalize_activation_fields v = Some a"
  shows "activation_ok a"
proof (cases "field ''activationVersion'' v = num 1 \<and> field ''network'' v = VStr ''zenon:mock''")
  case True
  from assms show ?thesis
    unfolding normalize_activation_fields_def
    apply (simp only: bind_eq_Some_conv Let_def True simp_thms if_True)
    apply (elim exE conjE)
    apply (simp only: option.inject guard_eq_Some)
    apply (drule as_identifier_Some as_commitment_Some as_positive_Some as_text_Some as_reference_Some)+
    apply (simp only: activation_ok_def mock_activation_def)
    apply hypsubst
    apply (simp add: mock_chain_def mock_policy_def safe_range_def max_safe_def as_reference_given)
    done
next
  case False
  from assms show ?thesis
    unfolding normalize_activation_fields_def
    apply (simp only: bind_eq_Some_conv Let_def False simp_thms if_False)
    apply (elim exE conjE)
    apply (simp only: option.inject guard_eq_Some map_option_eq_Some)
    apply (elim exE conjE)
    apply (drule as_identifier_Some as_commitment_Some as_positive_Some as_text_Some as_reference_Some)+
    apply (simp only: activation_ok_def zenon_activation_def)
    apply hypsubst
    apply (simp add: zenon_chain_def zenon_policy_def as_reference_given split: option.splits if_splits)
    done
qed

lemma normalize_activation_ok: "normalize_activation v = Some a \<Longrightarrow> activation_ok a"
  by (auto simp: normalize_activation_def bind_eq_Some_conv dest: normalize_activation_fields_ok)

lemma max_safe_text_sdk: "sdk_safe_chain_identifier max_safe_text"
  by (simp add: sdk_safe_chain_identifier_def positive_decimal_def max_safe_text_def is_digit_def code_def)

lemma activation_member_keys:
  "map fst (js_members (activation_members a)) =
     take 31 activation_keys @ (if act_evidence a = None then [] else evidence_keys) @ drop 31 activation_keys"
  by (cases "act_evidence a")
    (simp_all add: activation_members_def evidence_members_def activation_keys_def evidence_keys_def split: prod.splits)

lemma activation_shape:
  "capture_shape activation_keys evidence_keys (obj (js_members (activation_members a))) =
     Some (js_members (activation_members a))"
proof -
  have "set activation_keys = set (take 31 activation_keys) \<union> set (drop 31 activation_keys)"
    by (metis append_take_drop_id set_append)
  then show ?thesis
    by (auto simp: capture_shape_obj list_all_iff activation_member_keys simp del: set_map
        dest: in_set_takeD in_set_dropD)
qed

lemma activation_field:
  "field ''activationVersion'' (js_members (activation_members a)) = num (act_activationVersion a)"
  "field ''authorityProfileId'' (js_members (activation_members a)) = VStr (act_authorityProfileId a)"
  "field ''authorityProfileVersion'' (js_members (activation_members a)) = num (act_authorityProfileVersion a)"
  "field ''verifierVersion'' (js_members (activation_members a)) = num (act_verifierVersion a)"
  "field ''authorityRecordDigest'' (js_members (activation_members a)) = VStr (act_authorityRecordDigest a)"
  "field ''fundingPolicyId'' (js_members (activation_members a)) = VStr (act_fundingPolicyId a)"
  "field ''fundingPolicyVersion'' (js_members (activation_members a)) = num (act_fundingPolicyVersion a)"
  "field ''sourceSettlementId'' (js_members (activation_members a)) = VStr (act_sourceSettlementId a)"
  "field ''transactionId'' (js_members (activation_members a)) = js_of (ref_json (act_transactionId a))"
  "field ''providerId'' (js_members (activation_members a)) = VStr (act_providerId a)"
  "field ''serviceId'' (js_members (activation_members a)) = VStr (act_serviceId a)"
  "field ''resourceId'' (js_members (activation_members a)) = VStr (act_resourceId a)"
  "field ''resourceBinding'' (js_members (activation_members a)) = VStr (act_resourceBinding a)"
  "field ''offerId'' (js_members (activation_members a)) = VStr (act_offerId a)"
  "field ''offerVersion'' (js_members (activation_members a)) = num (act_offerVersion a)"
  "field ''holderId'' (js_members (activation_members a)) = VStr (act_holderId a)"
  "field ''capabilityCommitment'' (js_members (activation_members a)) = VStr (act_capabilityCommitment a)"
  "field ''totalUnits'' (js_members (activation_members a)) = num (act_totalUnits a)"
  "field ''expiresAt'' (js_members (activation_members a)) = num (act_expiresAt a)"
  "field ''scheme'' (js_members (activation_members a)) = VStr ''exact''"
  "field ''paymentFlow'' (js_members (activation_members a)) = VStr ''upfront''"
  "field ''network'' (js_members (activation_members a)) = VStr (act_network a)"
  "field ''chainProfile'' (js_members (activation_members a)) = js_of (activation_chain_json (act_chainProfile a))"
  "field ''asset'' (js_members (activation_members a)) = VStr (act_asset a)"
  "field ''amount'' (js_members (activation_members a)) = VStr (act_amount a)"
  "field ''payee'' (js_members (activation_members a)) = VStr (act_payee a)"
  "field ''payer'' (js_members (activation_members a)) = VStr (act_payer a)"
  "field ''paymentResourceDigest'' (js_members (activation_members a)) = VStr (act_paymentResourceDigest a)"
  "field ''paymentRequirementDigest'' (js_members (activation_members a)) = VStr (act_paymentRequirementDigest a)"
  "field ''paymentIntentDigest'' (js_members (activation_members a)) = VStr (act_paymentIntentDigest a)"
  "field ''grantFundingCommitment'' (js_members (activation_members a)) = VStr (act_grantFundingCommitment a)"
  "field ''evidenceState'' (js_members (activation_members a)) = VStr ''MOMENTUM_INCLUDED''"
  "field ''confirmationPolicy'' (js_members (activation_members a)) = js_of (confirmation_policy_json (act_confirmationPolicy a))"
  by (simp_all add: activation_members_def evidence_members_def split: option.splits)

lemma activation_evidence_field:
  "act_evidence a = None \<Longrightarrow> \<not> has_own ''evidenceVersion'' (js_members (activation_members a))
     \<and> \<not> has_own ''inclusionAuthorizationDigest'' (js_members (activation_members a))"
  "act_evidence a = Some (n, d) \<Longrightarrow> field ''evidenceVersion'' (js_members (activation_members a)) = num n
     \<and> field ''inclusionAuthorizationDigest'' (js_members (activation_members a)) = VStr d"
  by (simp_all add: activation_members_def evidence_members_def)

lemma activation_chain_shape: "capture_shape chain_profile_keys [] (js_of (activation_chain_json c)) =
    Some [(''version'', num 1), (''chainIdentifier'', VStr (ac_chainIdentifier c)),
      (''genesisMomentumHash'', js_of (ref_json (ac_genesisMomentumHash c)))]"
  by (simp add: activation_chain_json_def capture_shape_obj chain_profile_keys_def)

lemma confirmation_policy_shape: "capture_shape confirmation_policy_keys [] (js_of (confirmation_policy_json p)) =
    Some [(''policyId'', VStr (cf_policyId p)), (''policyVersion'', num (cf_policyVersion p)),
      (''minimumConfirmations'', num (cf_minimumConfirmations p))]"
  by (simp add: confirmation_policy_json_def capture_shape_obj confirmation_policy_keys_def)

text \<open>
  The image of a record has arrays of its own, so the record comes back when its transaction id is
  not an array that others refer to.
\<close>

lemma normalize_activation_image:
  assumes "activation_ok a" and "act_transactionArray a = None"
  shows "normalize_activation (obj (js_members (activation_members a))) = Some a"
proof -
  let ?v = "js_members (activation_members a)"
  have sr: "safe_range n" if "1 \<le> n" "n \<le> 30" for n using that by (simp add: safe_range_def max_safe_def)
  have "mock_activation a \<or> zenon_activation a" using assms by (simp add: activation_ok_def)
  then have "normalize_activation_fields ?v = Some a"
  proof
    assume m: "mock_activation a"
    have c: "mock_chain [(''version'', num 1), (''chainIdentifier'', VStr (ac_chainIdentifier (act_chainProfile a))),
      (''genesisMomentumHash'', js_of (ref_json (ac_genesisMomentumHash (act_chainProfile a))))]"
      using m by (simp add: mock_chain_def mock_activation_def)
    have p: "mock_policy ?v [(''policyId'', VStr (cf_policyId (act_confirmationPolicy a))), 
      (''policyVersion'', num (cf_policyVersion (act_confirmationPolicy a))),
      (''minimumConfirmations'', num (cf_minimumConfirmations (act_confirmationPolicy a)))]"
      using m activation_evidence_field(1)[of a] by (simp add: mock_policy_def mock_activation_def)
    show ?thesis using assms m c p
      by (simp add: normalize_activation_fields_def activation_field activation_chain_shape confirmation_policy_shape
       activation_ok_def mock_activation_def sr Let_def cong: bind_weak_cong)
  next
    assume z: "zenon_activation a"
    then obtain d n where e: "act_evidence a = Some (1, d)" "commitment_text d"
      and n: "act_confirmationPolicy a = \<lparr>cf_policyId = ''zenon.authenticated-momentum-inclusion'',
        cf_policyVersion = 1, cf_minimumConfirmations = n\<rparr>" "2 \<le> n" "n \<le> 30"
      by (auto simp: zenon_activation_def)
    have c: "zenon_chain [(''version'', num 1), (''chainIdentifier'', VStr (ac_chainIdentifier (act_chainProfile a))),
      (''genesisMomentumHash'', js_of (ref_json (ac_genesisMomentumHash (act_chainProfile a))))]"
      using z by (simp add: zenon_chain_def zenon_activation_def)
    have p: "zenon_policy ?v [(''policyId'', VStr (cf_policyId (act_confirmationPolicy a))), 
      (''policyVersion'', num (cf_policyVersion (act_confirmationPolicy a))),
      (''minimumConfirmations'', num (cf_minimumConfirmations (act_confirmationPolicy a)))]"
      using z activation_evidence_field(2)[OF e(1)] n sr[of n] by (auto simp: zenon_policy_def zenon_activation_def)
    show ?thesis using assms z c p e n activation_evidence_field(2)[OF e(1)]
      by (simp add: normalize_activation_fields_def activation_field activation_chain_shape confirmation_policy_shape
       activation_ok_def zenon_activation_def sr Let_def cong: bind_weak_cong)
  qed
  then show ?thesis by (simp add: normalize_activation_def activation_shape)
qed

section \<open>Images determine their records\<close>

lemma chain_profile_canonical_inject [simp]:
  "sort_keys (chain_profile_json c) = sort_keys (chain_profile_json c') \<longleftrightarrow> c = c'"
proof
  assume eq: "sort_keys (chain_profile_json c) = sort_keys (chain_profile_json c')"
  note m = same_members [OF eq [unfolded chain_profile_json_def]]
  show "c = c'" using m [of "''chainIdentifier''"] m [of "''genesisMomentumHash''"] by simp
qed simp

lemma activation_chain_canonical_inject [simp]:
  "sort_keys (activation_chain_json c) = sort_keys (activation_chain_json c') \<longleftrightarrow> c = c'"
proof
  assume eq: "sort_keys (activation_chain_json c) = sort_keys (activation_chain_json c')"
  note m = same_members [OF eq [unfolded activation_chain_json_def]]
  show "c = c'" using m [of "''chainIdentifier''"] m [of "''genesisMomentumHash''"] by simp
qed simp

lemma confirmation_policy_canonical_inject [simp]:
  "sort_keys (confirmation_policy_json p) = sort_keys (confirmation_policy_json p') \<longleftrightarrow> p = p'"
proof
  assume eq: "sort_keys (confirmation_policy_json p) = sort_keys (confirmation_policy_json p')"
  note m = same_members [OF eq [unfolded confirmation_policy_json_def]]
  show "p = p'" using m [of "''policyId''"] m [of "''policyVersion''"] m [of "''minimumConfirmations''"] by simp
qed simp

end
