(* ===== verification/Service_Credit_Model.thy ===== *)
theory Service_Credit_Model
  imports Service_Credit_Data
begin

text \<open>
  The operations of \<open>InMemoryServiceCreditModel\<close> (\<open>src/src/service-credit-model.js\<close>), each the
  whole method: its guards in the order of the source, every assignment, every error code. The
  state is a record of the class's private fields; an operation is a program on it, so what a
  method assigned before it threw stays assigned.

  The clock and the pricing function are the caller's code. They are parameters: what the n-th
  callback invocation does, given the pricing context. A callback may try public operations
  (\<open>cb_attempts\<close> of them) before it throws or returns a value.
\<close>

section \<open>State and environment\<close>

text \<open>
  A key of the map of transactions: a text, or the array a record holds. An array that others refer
  to is known by its number, an array of the record's own by the activation that holds it.
\<close>

datatype tx_key = TextKey string | ArrayKey nat | OwnKey string

record credit =
  m_offers :: "(string \<times> offer) list"
  m_activations :: "(string \<times> activation) list"
  m_grants :: "(string \<times> grant) list"
  m_activationByAuthoritySettlement :: "(string \<times> string) list"
  m_activationByTransaction :: "(tx_key \<times> string) list"
  m_grantByCapability :: "(string \<times> string) list"
  m_requests :: "(string \<times> (string \<times> request) list) list"
  m_operationActive :: bool
  m_callbackActive :: bool
  m_callbackReentryAttempted :: bool
  m_calls :: nat

datatype credit_error =
    INVALID_INPUT | INVALID_STATE | INVARIANT_VIOLATION | REENTRANT_OPERATION
  | INVALID_CLOCK | INVALID_COST
  | OFFER_VERSION_CONFLICT | OFFER_NOT_FOUND | OFFER_SCOPE_MISMATCH
  | GRANT_IDENTITY_CONFLICT | GRANT_NOT_FOUND | GRANT_NOT_ACTIVE | INVALID_GRANT_TRANSITION
  | REQUEST_NOT_FOUND | REQUEST_ID_CONFLICT | REQUEST_CAPACITY_EXCEEDED
  | UNRESOLVED_EXECUTION | COST_NOT_AUTHORIZED | INSUFFICIENT_UNITS
  | INVALID_REQUEST_TRANSITION | RESULT_CONFLICT | RECONCILIATION_CONFLICT
  | SERVICE_CREDIT_ORIGINAL_FUNDING_GRANT

type_synonym 'a credit_prog = "(credit, credit_error, 'a) prog"

datatype reply = Threw | Returned jsval

record callback =
  cb_attempts :: nat
  cb_reply :: reply

record env =
  env_sha :: "string \<Rightarrow> string"
  env_now :: "nat \<Rightarrow> callback"
  env_deriveCost :: "nat \<Rightarrow> json \<Rightarrow> callback"

definition empty_credit :: credit where
  "empty_credit = \<lparr>m_offers = [], m_activations = [], m_grants = [],
     m_activationByAuthoritySettlement = [], m_activationByTransaction = [],
     m_grantByCapability = [], m_requests = [], m_operationActive = False,
     m_callbackActive = False, m_callbackReentryAttempted = False, m_calls = 0\<rparr>"

definition max_hydrated_offers :: nat where "max_hydrated_offers = 10000"
definition max_hydrated_grants :: nat where "max_hydrated_grants = 10000"
definition max_hydrated_requests :: nat where "max_hydrated_requests = 100000"

section \<open>The operation guard and the callbacks\<close>

definition run_public_operation :: "'a credit_prog \<Rightarrow> 'a credit_prog" where
  "run_public_operation body s =
     (if m_operationActive s
      then (if m_callbackActive s then s\<lparr>m_callbackReentryAttempted := True\<rparr> else s,
        Inl REENTRANT_OPERATION)
      else case body (s\<lparr>m_operationActive := True\<rparr>) of
        (t, r) \<Rightarrow> (t\<lparr>m_operationActive := False\<rparr>, r))"

text \<open>The public operations a callback tries; which ones does not matter, none gets to its body.\<close>

fun attempt_operations :: "nat \<Rightarrow> credit \<Rightarrow> credit" where
  "attempt_operations 0 s = s"
| "attempt_operations (Suc n) s = attempt_operations n (fst (run_public_operation (yield ()) s))"

definition invoke_callback :: "(nat \<Rightarrow> callback) \<Rightarrow> credit_error \<Rightarrow> jsval credit_prog" where
  "invoke_callback callback invalid_code s =
     (if m_callbackActive s then (s, Inl INVARIANT_VIOLATION)
      else
        let c = callback (m_calls s);
            s1 = s\<lparr>m_callbackActive := True, m_callbackReentryAttempted := False,
                   m_calls := Suc (m_calls s)\<rparr>;
            s2 = attempt_operations (cb_attempts c) s1;
            s3 = s2\<lparr>m_callbackActive := False, m_callbackReentryAttempted := False\<rparr>
        in (s3, case cb_reply c of
             Threw \<Rightarrow> Inl invalid_code
           | Returned v \<Rightarrow> if m_callbackReentryAttempted s2 then Inl invalid_code else Inr v))"

definition read_now :: "env \<Rightarrow> int credit_prog" where
  "read_now env = andthen (invoke_callback (env_now env) INVALID_CLOCK)
     (\<lambda>v. demand (as_count v) INVALID_CLOCK)"

definition cost_context :: "offer \<Rightarrow> grant \<Rightarrow> request_input \<Rightarrow> json" where
  "cost_context offer g r = JObj [
     (''modelVersion'', JNum 1),
     (''offer'', JObj [(''providerId'', JStr (off_providerId offer)),
        (''serviceId'', JStr (off_serviceId offer)), (''offerId'', JStr (off_offerId offer)),
        (''offerVersion'', JNum (off_offerVersion offer)),
        (''costPolicyId'', JStr (off_costPolicyId offer))]),
     (''grant'', JObj [(''grantId'', JStr (gr_grantId g)),
        (''offerId'', JStr (act_offerId (gr_activation g))),
        (''offerVersion'', JNum (act_offerVersion (gr_activation g)))]),
     (''request'', JObj [(''modelVersion'', JNum 1), (''grantId'', JStr (rin_grantId r)),
        (''requestId'', JStr (rin_requestId r)), (''method'', JStr (rin_method r)),
        (''routeId'', JStr (rin_routeId r)),
        (''canonicalBodyDigest'', JStr (rin_canonicalBodyDigest r)),
        (''selectedContentType'', JStr (rin_selectedContentType r))])]"

definition server_cost :: "env \<Rightarrow> offer \<Rightarrow> grant \<Rightarrow> request_input \<Rightarrow> int credit_prog" where
  "server_cost env offer g r =
     andthen (invoke_callback (\<lambda>n. env_deriveCost env n (cost_context offer g r)) INVALID_COST)
       (\<lambda>v. demand (as_positive v) INVALID_COST)"

section \<open>Shared steps\<close>

definition offer_key :: "string \<Rightarrow> int \<Rightarrow> string" where
  "offer_key offerId offerVersion = canonical_json (JArr [JStr offerId, JNum offerVersion])"

definition authority_settlement_key :: "activation \<Rightarrow> string" where
  "authority_settlement_key a = canonical_json (JArr [JStr (act_authorityProfileId a),
     JNum (act_authorityProfileVersion a), JStr (act_sourceSettlementId a)])"

text \<open>
  The map of transactions has the record's member as it is for a key, and a \<open>Map\<close> finds a text by its
  content and an array by its identity. An array of the caller's own is in no map yet.
\<close>

definition transaction_key :: "string \<Rightarrow> activation \<Rightarrow> tx_key" where
  "transaction_key activationId a = (case act_transactionId a of
     Plain s \<Rightarrow> TextKey s
   | Boxed r \<Rightarrow> (case act_transactionArray a of Some n \<Rightarrow> ArrayKey n | None \<Rightarrow> OwnKey activationId))"

abbreviation gr_transaction :: "grant \<Rightarrow> tx_key" where
  "gr_transaction g \<equiv> transaction_key (gr_activationId g) (gr_activation g)"

definition findable_transaction :: "activation \<Rightarrow> bool" where
  "findable_transaction a \<longleftrightarrow> (case act_transactionId a of
     Plain s \<Rightarrow> True | Boxed r \<Rightarrow> act_transactionArray a \<noteq> None)"

definition activation_by_transaction :: "grant \<Rightarrow> credit \<Rightarrow> string option" where
  "activation_by_transaction g s = (if findable_transaction (gr_activation g)
     then map_of (m_activationByTransaction s) (gr_transaction g) else None)"

definition set_grant :: "grant \<Rightarrow> credit \<Rightarrow> credit" where
  "set_grant g s = s\<lparr>m_grants := AList.update (gr_grantId g) g (m_grants s)\<rparr>"

definition requests_of :: "credit \<Rightarrow> string \<Rightarrow> (string \<times> request) list" where
  "requests_of s gid = (case map_of (m_requests s) gid of None \<Rightarrow> [] | Some rs \<Rightarrow> rs)"

definition find_request :: "credit \<Rightarrow> string \<Rightarrow> string \<Rightarrow> request option" where
  "find_request s gid rid = map_of (requests_of s gid) rid"

definition set_request :: "request \<Rightarrow> credit \<Rightarrow> credit" where
  "set_request r s = s\<lparr>m_requests := AList.update (req_grantId r)
     (AList.update (req_requestId r) r (requests_of s (req_grantId r))) (m_requests s)\<rparr>"

definition all_requests :: "credit \<Rightarrow> request list" where
  "all_requests s = concat (map (\<lambda>(_, rs). map snd rs) (m_requests s))"

definition unresolved :: "request \<Rightarrow> bool" where
  "unresolved r \<longleftrightarrow> req_state r = EXECUTING \<or> req_state r = OUTCOME_UNKNOWN"

definition require_grant :: "string \<Rightarrow> grant credit_prog" where
  "require_grant gid = andthen (gets (\<lambda>s. map_of (m_grants s) gid)) (\<lambda>g. demand g GRANT_NOT_FOUND)"

definition require_request :: "string \<Rightarrow> string \<Rightarrow> (grant \<times> request) credit_prog" where
  "require_request gid rid =
     andthen (require_grant gid) (\<lambda>g.
     andthen (gets (\<lambda>s. find_request s gid rid)) (\<lambda>r.
     andthen (demand r REQUEST_NOT_FOUND) (\<lambda>r.
     yield (g, r))))"

definition refresh_grant :: "env \<Rightarrow> string \<Rightarrow> unit credit_prog" where
  "refresh_grant env gid =
     andthen (require_grant gid) (\<lambda>g.
     if gr_lifecycle g = ACTIVE then
       andthen (read_now env) (\<lambda>now.
       if gr_expiresAt g \<le> now then assign (set_grant (g\<lparr>gr_lifecycle := EXPIRED\<rparr>)) else yield ())
     else yield ())"

definition request_admission_state :: "(nat \<times> bool) credit_prog" where
  "request_admission_state =
     andthen (gets all_requests) (\<lambda>rs.
     andthen (assure (length rs \<le> max_hydrated_requests) INVARIANT_VIOLATION) (\<lambda>_.
     yield (length rs, list_ex unresolved rs)))"

definition counters_ok :: "grant \<Rightarrow> bool" where
  "counters_ok g \<longleftrightarrow>
     list_all count_safe [gr_totalUnits g, gr_availableUnits g, gr_heldUnits g, gr_consumedUnits g]
     \<and> gr_totalUnits g = gr_availableUnits g + gr_heldUnits g + gr_consumedUnits g"

definition assert_counters :: "grant \<Rightarrow> unit credit_prog" where
  "assert_counters g = assure (counters_ok g) INVARIANT_VIOLATION"

text \<open>What the methods return: the stored records, with \<open>exhausted\<close> on a grant.\<close>

record grant_view = grant +
  gv_exhausted :: bool

definition grant_snapshot :: "grant \<Rightarrow> grant_view" where
  "grant_snapshot g = grant.extend g \<lparr>gv_exhausted = (gr_availableUnits g = 0)\<rparr>"

record reservation =
  rs_replayed :: bool
  rs_executionAuthorized :: bool
  rs_request :: request

record authorization =
  au_executionAuthorized :: bool
  au_request :: request

record transition =
  tr_transitioned :: bool
  tr_request :: request

section \<open>Offers and grants\<close>

definition register_offer :: "jsval \<Rightarrow> offer credit_prog" where
  "register_offer input = run_public_operation (
     andthen (demand (normalize_offer input) INVALID_INPUT) (\<lambda>normalized.
     let key = offer_key (off_offerId normalized) (off_offerVersion normalized) in
     andthen (gets (\<lambda>s. map_of (m_offers s) key)) (\<lambda>existing.
     case existing of
       Some x \<Rightarrow> andthen (assure (same_json (offer_json x) (offer_json normalized)) OFFER_VERSION_CONFLICT)
         (\<lambda>_. yield x)
     | None \<Rightarrow> andthen (assign (\<lambda>s. s\<lparr>m_offers := AList.update key normalized (m_offers s)\<rparr>))
         (\<lambda>_. yield normalized))))"

definition get_offer :: "jsval \<Rightarrow> offer option credit_prog" where
  "get_offer input = run_public_operation (
     andthen (demand (capture_shape [''offerId'', ''offerVersion''] [] input) INVALID_INPUT) (\<lambda>v.
     andthen (demand (as_identifier (field ''offerId'' v)) INVALID_INPUT) (\<lambda>offerId.
     andthen (demand (as_positive (field ''offerVersion'' v)) INVALID_INPUT) (\<lambda>offerVersion.
     gets (\<lambda>s. map_of (m_offers s) (offer_key offerId offerVersion))))))"

definition activation_record_json :: "string \<Rightarrow> activation \<Rightarrow> json" where
  "activation_record_json activationId a = JObj ((''activationId'', JStr activationId) # activation_members a)"

definition offer_covers :: "offer \<Rightarrow> activation \<Rightarrow> bool" where
  "offer_covers offer a \<longleftrightarrow> off_providerId offer = act_providerId a
     \<and> off_serviceId offer = act_serviceId a \<and> off_resourceId offer = act_resourceId a
     \<and> off_resourceBinding offer = act_resourceBinding a
     \<and> off_fundingPolicyId offer = act_fundingPolicyId a
     \<and> off_fundingPolicyVersion offer = act_fundingPolicyVersion a"

definition new_grant :: "(string \<Rightarrow> string) \<Rightarrow> activation \<Rightarrow> grant" where
  "new_grant sha a = (let activationId = activation_id_for sha a in
     \<lparr>gr_grantId = grant_id_for sha (grant_description_for activationId a),
      gr_activationId = activationId, gr_activation = a, gr_lifecycle = ACTIVE,
      gr_availableUnits = act_totalUnits a, gr_heldUnits = 0, gr_consumedUnits = 0\<rparr>)"

definition insert_grant :: "grant \<Rightarrow> credit \<Rightarrow> credit" where
  "insert_grant g s = (let a = gr_activation g in
     s\<lparr>m_activations := AList.update (gr_activationId g) a (m_activations s),
       m_grants := AList.update (gr_grantId g) g (m_grants s),
       m_activationByAuthoritySettlement := AList.update (authority_settlement_key a)
         (gr_activationId g) (m_activationByAuthoritySettlement s),
       m_activationByTransaction := AList.update (gr_transaction g) (gr_activationId g)
         (m_activationByTransaction s),
       m_grantByCapability := AList.update (act_capabilityCommitment a) (gr_grantId g)
         (m_grantByCapability s),
       m_requests := AList.update (gr_grantId g) [] (m_requests s)\<rparr>)"

text \<open>Some identity of the activation is already bound; it is bound to this very grant.\<close>

definition identity_taken :: "grant \<Rightarrow> credit \<Rightarrow> bool" where
  "identity_taken g s \<longleftrightarrow> (let a = gr_activation g in
     map_of (m_activations s) (gr_activationId g) \<noteq> None
     \<or> map_of (m_activationByAuthoritySettlement s) (authority_settlement_key a) \<noteq> None
     \<or> activation_by_transaction g s \<noteq> None
     \<or> map_of (m_grantByCapability s) (act_capabilityCommitment a) \<noteq> None
     \<or> map_of (m_grants s) (gr_grantId g) \<noteq> None)"

definition replayed_grant :: "grant \<Rightarrow> credit \<Rightarrow> grant option" where
  "replayed_grant g s = (let a = gr_activation g; activationId = gr_activationId g in
     case (map_of (m_activations s) activationId, map_of (m_grants s) (gr_grantId g)) of
       (Some stored, Some existing) \<Rightarrow>
         if same_json (activation_record_json activationId stored) (activation_record_json activationId a)
           \<and> map_of (m_activationByAuthoritySettlement s) (authority_settlement_key a) = Some activationId
           \<and> activation_by_transaction g s = Some activationId
           \<and> map_of (m_grantByCapability s) (act_capabilityCommitment a) = Some (gr_grantId g)
           \<and> canonical_json (grant_description_for (gr_activationId existing) (gr_activation existing))
             = canonical_json (grant_description_for activationId a)
           \<and> gr_activationId existing = activationId
         then Some existing else None
     | _ \<Rightarrow> None)"

definition activate_grant_from_trusted_record :: "env \<Rightarrow> jsval \<Rightarrow> grant_view credit_prog" where
  "activate_grant_from_trusted_record env input = run_public_operation (
     andthen (demand (normalize_activation input) INVALID_INPUT) (\<lambda>a.
     let g = new_grant (env_sha env) a in
     andthen (gets (\<lambda>s. (identity_taken g s, replayed_grant g s,
       map_of (m_offers s) (offer_key (act_offerId a) (act_offerVersion a))))) (\<lambda>(taken, replayed, offer).
     if taken then
       andthen (demand replayed GRANT_IDENTITY_CONFLICT) (\<lambda>existing. yield (grant_snapshot existing))
     else
       andthen (demand offer OFFER_NOT_FOUND) (\<lambda>offer.
       andthen (assure (offer_covers offer a) OFFER_SCOPE_MISMATCH) (\<lambda>_.
       andthen (read_now env) (\<lambda>now.
       andthen (assure (now < act_expiresAt a) INVALID_INPUT) (\<lambda>_.
       andthen (assert_counters g) (\<lambda>_.
       andthen (assign (insert_grant g)) (\<lambda>_.
       yield (grant_snapshot g))))))))))"

definition get_activation :: "jsval \<Rightarrow> activation option credit_prog" where
  "get_activation input = run_public_operation (
     andthen (demand (as_identifier input) INVALID_INPUT) (\<lambda>activationId.
     gets (\<lambda>s. map_of (m_activations s) activationId)))"

definition get_grant :: "env \<Rightarrow> jsval \<Rightarrow> grant_view option credit_prog" where
  "get_grant env input = run_public_operation (
     andthen (demand (as_identifier input) INVALID_INPUT) (\<lambda>gid.
     andthen (gets (\<lambda>s. map_of (m_grants s) gid)) (\<lambda>found.
     if found = None then yield None
     else andthen (refresh_grant env gid) (\<lambda>_.
       andthen (require_grant gid) (\<lambda>g. yield (Some (grant_snapshot g)))))))"

definition revoke_grant :: "env \<Rightarrow> jsval \<Rightarrow> grant_view credit_prog" where
  "revoke_grant env input = run_public_operation (
     andthen (demand (capture_shape [''grantId''] [] input) INVALID_INPUT) (\<lambda>v.
     andthen (demand (as_identifier (field ''grantId'' v)) INVALID_INPUT) (\<lambda>gid.
     andthen (require_grant gid) (\<lambda>_.
     andthen (refresh_grant env gid) (\<lambda>_.
     andthen (require_grant gid) (\<lambda>g.
     if gr_lifecycle g = REVOKED then yield (grant_snapshot g)
     else andthen (assure (gr_lifecycle g = ACTIVE) INVALID_GRANT_TRANSITION) (\<lambda>_.
       let revoked = g\<lparr>gr_lifecycle := REVOKED\<rparr> in
       andthen (assign (set_grant revoked)) (\<lambda>_. yield (grant_snapshot revoked)))))))))"

section \<open>Requests\<close>

text \<open>The holding half of a reservation: units move from available to held and the request is stored.\<close>

definition new_request :: "(string \<Rightarrow> string) \<Rightarrow> grant \<Rightarrow> request_input \<Rightarrow> int \<Rightarrow> request" where
  "new_request sha g r costUnits =
     (let offerId = act_offerId (gr_activation g); offerVersion = act_offerVersion (gr_activation g) in
     \<lparr>req_input = r, req_requestDigest = request_digest_for sha offerId offerVersion r costUnits,
      req_offerId = offerId, req_offerVersion = offerVersion, req_costUnits = costUnits,
      req_state = RESERVED, req_cachedResult = None\<rparr>)"

definition require_active :: "grant \<Rightarrow> unit credit_prog" where
  "require_active g = assure (gr_lifecycle g = ACTIVE) GRANT_NOT_ACTIVE"

definition reserve_request :: "env \<Rightarrow> jsval \<Rightarrow> reservation credit_prog" where
  "reserve_request env input = run_public_operation (
     andthen (demand (normalize_request input) INVALID_INPUT) (\<lambda>normalized.
     let gid = rin_grantId normalized; rid = rin_requestId normalized in
     andthen (require_grant gid) (\<lambda>_.
     andthen (gets (\<lambda>s. find_request s gid rid)) (\<lambda>found.
     case found of
       Some existing \<Rightarrow>
         andthen (assure (req_input existing = normalized) REQUEST_ID_CONFLICT) (\<lambda>_.
         yield \<lparr>rs_replayed = True, rs_executionAuthorized = False, rs_request = existing\<rparr>)
     | None \<Rightarrow>
         andthen request_admission_state (\<lambda>(request_count, has_unresolved_execution).
         andthen (assure (\<not> has_unresolved_execution) UNRESOLVED_EXECUTION) (\<lambda>_.
         andthen (assure (request_count < max_hydrated_requests) REQUEST_CAPACITY_EXCEEDED) (\<lambda>_.
         andthen (refresh_grant env gid) (\<lambda>_.
         andthen (require_grant gid) (\<lambda>g.
         andthen (require_active g) (\<lambda>_.
         andthen (gets (\<lambda>s. map_of (m_offers s) (offer_key (act_offerId (gr_activation g))
           (act_offerVersion (gr_activation g))))) (\<lambda>offer.
         andthen (demand offer INVARIANT_VIOLATION) (\<lambda>offer.
         andthen (server_cost env offer g normalized) (\<lambda>costUnits.
         andthen (assure (costUnits \<le> rin_maxCostUnits normalized) COST_NOT_AUTHORIZED) (\<lambda>_.
         andthen (assure (costUnits \<le> gr_availableUnits g) INSUFFICIENT_UNITS) (\<lambda>_.
         let record = new_request (env_sha env) g normalized costUnits in
         andthen (refresh_grant env gid) (\<lambda>_.
         andthen (require_grant gid) (\<lambda>g.
         andthen (require_active g) (\<lambda>_.
         let held = g\<lparr>gr_availableUnits := gr_availableUnits g - costUnits,
                       gr_heldUnits := gr_heldUnits g + costUnits\<rparr> in
         andthen (assign (set_grant held)) (\<lambda>_.
         andthen (assert_counters held) (\<lambda>_.
         andthen (assign (set_request record)) (\<lambda>_.
         yield \<lparr>rs_replayed = False, rs_executionAuthorized = False, rs_request = record\<rparr>
         )))))))))))))))))))))"

definition get_request :: "jsval \<Rightarrow> request option credit_prog" where
  "get_request input = run_public_operation (
     andthen (demand (normalize_reference input) INVALID_INPUT) (\<lambda>(gid, rid).
     gets (\<lambda>s. if map_of (m_grants s) gid = None then None else find_request s gid rid)))"

definition begin_execution :: "env \<Rightarrow> jsval \<Rightarrow> authorization credit_prog" where
  "begin_execution env input = run_public_operation (
     andthen (demand (normalize_reference input) INVALID_INPUT) (\<lambda>(gid, rid).
     andthen (require_request gid rid) (\<lambda>(_, request).
     if req_state request \<noteq> RESERVED
     then yield \<lparr>au_executionAuthorized = False, au_request = request\<rparr>
     else
       andthen request_admission_state (\<lambda>(_, has_unresolved_execution).
       andthen (assure (\<not> has_unresolved_execution) UNRESOLVED_EXECUTION) (\<lambda>_.
       andthen (refresh_grant env gid) (\<lambda>_.
       andthen (require_grant gid) (\<lambda>g.
       andthen (require_active g) (\<lambda>_.
       let executing = request\<lparr>req_state := EXECUTING\<rparr> in
       andthen (assign (set_request executing)) (\<lambda>_.
       yield \<lparr>au_executionAuthorized = True, au_request = executing\<rparr>)))))))))"

text \<open>Settle a held request: the grant's counters and the request's state change together.\<close>

definition settle :: "grant \<Rightarrow> request \<Rightarrow> transition credit_prog" where
  "settle g r =
     andthen (assign (set_grant g)) (\<lambda>_.
     andthen (assign (set_request r)) (\<lambda>_.
     andthen (assert_counters g) (\<lambda>_.
     yield \<lparr>tr_transitioned = True, tr_request = r\<rparr>)))"

definition release_units :: "grant \<Rightarrow> int \<Rightarrow> grant" where
  "release_units g cost = g\<lparr>gr_heldUnits := gr_heldUnits g - cost,
     gr_availableUnits := gr_availableUnits g + cost\<rparr>"

definition consume_units :: "grant \<Rightarrow> int \<Rightarrow> grant" where
  "consume_units g cost = g\<lparr>gr_heldUnits := gr_heldUnits g - cost,
     gr_consumedUnits := gr_consumedUnits g + cost\<rparr>"

definition release_before_execution :: "jsval \<Rightarrow> transition credit_prog" where
  "release_before_execution input = run_public_operation (
     andthen (demand (normalize_reference input) INVALID_INPUT) (\<lambda>(gid, rid).
     andthen (require_request gid rid) (\<lambda>(g, request).
     if req_state request = FAILED_RELEASED
     then yield \<lparr>tr_transitioned = False, tr_request = request\<rparr>
     else andthen (assure (req_state request = RESERVED) INVALID_REQUEST_TRANSITION) (\<lambda>_.
       settle (release_units g (req_costUnits request))
         (request\<lparr>req_state := FAILED_RELEASED\<rparr>)))))"

definition same_result :: "cached_result option \<Rightarrow> cached_result \<Rightarrow> bool" where
  "same_result stored result =
     (case stored of None \<Rightarrow> False | Some x \<Rightarrow> same_json (cached_result_json x) (cached_result_json result))"

definition complete_execution :: "jsval \<Rightarrow> transition credit_prog" where
  "complete_execution input = run_public_operation (
     andthen (demand (capture_shape [''grantId'', ''requestId'', ''cachedResult''] [] input) INVALID_INPUT) (\<lambda>v.
     andthen (demand (as_identifier (field ''grantId'' v)) INVALID_INPUT) (\<lambda>gid.
     andthen (demand (as_identifier (field ''requestId'' v)) INVALID_INPUT) (\<lambda>rid.
     andthen (demand (normalize_cached_result (field ''cachedResult'' v)) INVALID_INPUT) (\<lambda>result.
     andthen (require_request gid rid) (\<lambda>(g, request).
     andthen (assure (res_contentType result = rin_selectedContentType (req_input request)) INVALID_INPUT) (\<lambda>_.
     if req_state request = SUCCEEDED then
       andthen (assure (same_result (req_cachedResult request) result) RESULT_CONFLICT) (\<lambda>_.
       yield \<lparr>tr_transitioned = False, tr_request = request\<rparr>)
     else andthen (assure (req_state request = EXECUTING) INVALID_REQUEST_TRANSITION) (\<lambda>_.
       settle (consume_units g (req_costUnits request))
         (request\<lparr>req_state := SUCCEEDED, req_cachedResult := Some result\<rparr>)))))))))"

definition mark_outcome_unknown :: "jsval \<Rightarrow> transition credit_prog" where
  "mark_outcome_unknown input = run_public_operation (
     andthen (demand (normalize_reference input) INVALID_INPUT) (\<lambda>(gid, rid).
     andthen (require_request gid rid) (\<lambda>(_, request).
     if req_state request = OUTCOME_UNKNOWN
     then yield \<lparr>tr_transitioned = False, tr_request = request\<rparr>
     else andthen (assure (req_state request = EXECUTING) INVALID_REQUEST_TRANSITION) (\<lambda>_.
       let unknown = request\<lparr>req_state := OUTCOME_UNKNOWN\<rparr> in
       andthen (assign (set_request unknown)) (\<lambda>_.
       yield \<lparr>tr_transitioned = True, tr_request = unknown\<rparr>)))))"

text \<open>The outcome a reconciliation names, with the result it must or must not carry.\<close>

definition reconcile_outcome :: "fields \<Rightarrow> (request_state \<times> cached_result option) option" where
  "reconcile_outcome v =
     (if field ''outcome'' v = VStr ''SUCCEEDED'' then
        (if has_own ''cachedResult'' v
         then map_option (\<lambda>r. (SUCCEEDED, Some r)) (normalize_cached_result (field ''cachedResult'' v))
         else None)
      else if field ''outcome'' v = VStr ''FAILED_RELEASED'' then
        (if has_own ''cachedResult'' v then None else Some (FAILED_RELEASED, None))
      else None)"

definition reconcile_request :: "jsval \<Rightarrow> transition credit_prog" where
  "reconcile_request input = run_public_operation (
     andthen (demand (capture_shape [''grantId'', ''requestId'', ''outcome''] [''cachedResult''] input)
       INVALID_INPUT) (\<lambda>v.
     andthen (demand (as_identifier (field ''grantId'' v)) INVALID_INPUT) (\<lambda>gid.
     andthen (demand (as_identifier (field ''requestId'' v)) INVALID_INPUT) (\<lambda>rid.
     andthen (demand (reconcile_outcome v) INVALID_INPUT) (\<lambda>(outcome, cached).
     andthen (require_request gid rid) (\<lambda>(g, request).
     andthen (assure (case cached of None \<Rightarrow> True
       | Some r \<Rightarrow> res_contentType r = rin_selectedContentType (req_input request)) INVALID_INPUT) (\<lambda>_.
     if req_state request = outcome then
       andthen (assure (case cached of None \<Rightarrow> True
         | Some r \<Rightarrow> same_result (req_cachedResult request) r) RECONCILIATION_CONFLICT) (\<lambda>_.
       yield \<lparr>tr_transitioned = False, tr_request = request\<rparr>)
     else andthen (assure (req_state request = OUTCOME_UNKNOWN) RECONCILIATION_CONFLICT) (\<lambda>_.
       case cached of
         Some r \<Rightarrow> settle (consume_units g (req_costUnits request))
           (request\<lparr>req_state := SUCCEEDED, req_cachedResult := Some r\<rparr>)
       | None \<Rightarrow> settle (release_units g (req_costUnits request))
           (request\<lparr>req_state := FAILED_RELEASED\<rparr>)))))))))"

end
