(* ===== verification/Service_Credit_Funding.thy ===== *)
theory Service_Credit_Funding
  imports Service_Credit_Model Captured_Records
begin

text \<open>
  \<open>readOriginalFundingGrant\<close> of \<open>src/src/service-credit-model.js\<close> with the records of
  \<open>src/src/service-credit-original-funding-grant.js\<close>: the identity of an original payment, the
  comparison of a stored grant with it, and the result, which repeats the grant as it is stored and
  grants nothing. The operation reads the two indexes and changes no grant, not even an expired one.
\<close>

section \<open>The identity of an original payment\<close>

text \<open>\<open>/^[A-Za-z0-9][A-Za-z0-9._:-]{0,127}$/\<close> and \<open>/^zenon:[A-Za-z0-9._:-]{1,110}$/\<close>\<close>

definition funding_id :: "string \<Rightarrow> bool" where
  "funding_id s \<longleftrightarrow> s \<noteq> [] \<and> length s \<le> 128 \<and> is_alnum (hd s) \<and> list_all identifier_char (tl s)"

definition funding_network :: "string \<Rightarrow> bool" where
  "funding_network s \<longleftrightarrow> (case after_prefix ''zenon:'' s of None \<Rightarrow> False
     | Some r \<Rightarrow> 1 \<le> length r \<and> length r \<le> 110 \<and> list_all identifier_char r)"

record funding_identity =
  fi_transactionId :: string
  fi_network :: string
  fi_chainProfile :: chain_profile
  fi_asset :: string
  fi_amount :: string
  fi_payee :: string
  fi_offerId :: string
  fi_offerVersion :: int
  fi_holderId :: string
  fi_capabilityCommitment :: string
  fi_paymentResourceDigest :: string
  fi_paymentRequirementDigest :: string
  fi_paymentIntentDigest :: string
  fi_grantFundingCommitment :: string

definition funding_identity_keys :: "string list" where
  "funding_identity_keys = [''transactionId'', ''network'', ''chainProfile'', ''asset'', ''amount'', ''payee'',
    ''offerId'', ''offerVersion'', ''holderId'', ''capabilityCommitment'', ''paymentResourceDigest'',
    ''paymentRequirementDigest'', ''paymentIntentDigest'', ''grantFundingCommitment'']"

definition capture_funding_identity :: "jsval \<Rightarrow> funding_identity option" where
  "capture_funding_identity input = do {
     c \<leftarrow> exact_fields funding_identity_keys input;
     transactionId \<leftarrow> as_text (prefixed_hex64 ''zenontx:'') (field ''transactionId'' c);
     network \<leftarrow> as_text funding_network (field ''network'' c);
     asset \<leftarrow> as_text funding_id (field ''asset'' c);
     payee \<leftarrow> as_text funding_id (field ''payee'' c);
     offerId \<leftarrow> as_text funding_id (field ''offerId'' c);
     holderId \<leftarrow> as_text funding_id (field ''holderId'' c);
     capabilityCommitment \<leftarrow> as_commitment (field ''capabilityCommitment'' c);
     paymentResourceDigest \<leftarrow> as_commitment (field ''paymentResourceDigest'' c);
     paymentRequirementDigest \<leftarrow> as_commitment (field ''paymentRequirementDigest'' c);
     paymentIntentDigest \<leftarrow> as_commitment (field ''paymentIntentDigest'' c);
     grantFundingCommitment \<leftarrow> as_commitment (field ''grantFundingCommitment'' c);
     amount \<leftarrow> as_text (\<lambda>s. positive_decimal s \<and> length s \<le> 77) (field ''amount'' c);
     offerVersion \<leftarrow> as_positive (field ''offerVersion'' c);
     chain \<leftarrow> exact_fields chain_profile_keys (field ''chainProfile'' c);
     guard (field ''version'' chain = num 1);
     genesisMomentumHash \<leftarrow> as_text is_hex64 (field ''genesisMomentumHash'' chain);
     chainIdentifier \<leftarrow> as_text sdk_safe_chain_identifier (field ''chainIdentifier'' chain);
     Some \<lparr>fi_transactionId = transactionId, fi_network = network,
       fi_chainProfile = \<lparr>cp_chainIdentifier = chainIdentifier, cp_genesisMomentumHash = genesisMomentumHash\<rparr>,
       fi_asset = asset, fi_amount = amount, fi_payee = payee, fi_offerId = offerId,
       fi_offerVersion = offerVersion, fi_holderId = holderId,
       fi_capabilityCommitment = capabilityCommitment,
       fi_paymentResourceDigest = paymentResourceDigest,
       fi_paymentRequirementDigest = paymentRequirementDigest,
       fi_paymentIntentDigest = paymentIntentDigest,
       fi_grantFundingCommitment = grantFundingCommitment\<rparr>
   }"

definition funding_identity_json :: "funding_identity \<Rightarrow> json" where
  "funding_identity_json q = JObj [(''transactionId'', JStr (fi_transactionId q)),
     (''network'', JStr (fi_network q)), (''chainProfile'', chain_profile_json (fi_chainProfile q)),
     (''asset'', JStr (fi_asset q)), (''amount'', JStr (fi_amount q)), (''payee'', JStr (fi_payee q)),
     (''offerId'', JStr (fi_offerId q)), (''offerVersion'', JNum (fi_offerVersion q)),
     (''holderId'', JStr (fi_holderId q)),
     (''capabilityCommitment'', JStr (fi_capabilityCommitment q)),
     (''paymentResourceDigest'', JStr (fi_paymentResourceDigest q)),
     (''paymentRequirementDigest'', JStr (fi_paymentRequirementDigest q)),
     (''paymentIntentDigest'', JStr (fi_paymentIntentDigest q)),
     (''grantFundingCommitment'', JStr (fi_grantFundingCommitment q))]"

section \<open>The stored grant and the result\<close>

text \<open>
  \<open>matchesServiceCreditOriginalFundingGrant\<close> on the snapshot of a stored grant. Its second loop
  compares the grant's own copies of five members, which the model's grants do not repeat.
\<close>

definition matches_original_funding :: "funding_identity \<Rightarrow> grant \<Rightarrow> bool" where
  "matches_original_funding q g \<longleftrightarrow> (let a = gr_activation g in
     act_transactionId a = Plain (fi_transactionId q) \<and> act_network a = fi_network q
     \<and> same_json (activation_chain_json (act_chainProfile a)) (chain_profile_json (fi_chainProfile q))
     \<and> act_asset a = fi_asset q \<and> act_amount a = fi_amount q \<and> act_payee a = fi_payee q
     \<and> act_offerId a = fi_offerId q \<and> act_offerVersion a = fi_offerVersion q
     \<and> act_holderId a = fi_holderId q
     \<and> act_capabilityCommitment a = fi_capabilityCommitment q
     \<and> act_paymentResourceDigest a = fi_paymentResourceDigest q
     \<and> act_paymentRequirementDigest a = fi_paymentRequirementDigest q
     \<and> act_paymentIntentDigest a = fi_paymentIntentDigest q
     \<and> act_grantFundingCommitment a = fi_grantFundingCommitment q)"

text \<open>\<open>record\<close>: the grant with its lifecycle under another name; identifiers and counters are checked.\<close>

definition retained_grant_ok :: "grant \<Rightarrow> bool" where
  "retained_grant_ok g \<longleftrightarrow> prefixed_hex64 ''grant_'' (gr_grantId g)
     \<and> prefixed_hex64 ''activation_'' (gr_activationId g)
     \<and> positive_safe (gr_totalUnits g) \<and> positive_safe (gr_expiresAt g)
     \<and> list_all count_safe [gr_availableUnits g, gr_heldUnits g, gr_consumedUnits g]
     \<and> safe_range (gr_availableUnits g + gr_heldUnits g + gr_consumedUnits g)
     \<and> gr_availableUnits g + gr_heldUnits g + gr_consumedUnits g = gr_totalUnits g"

fun lifecycle_text :: "grant_lifecycle \<Rightarrow> string" where
  "lifecycle_text ACTIVE = ''ACTIVE''"
| "lifecycle_text EXPIRED = ''EXPIRED''"
| "lifecycle_text REVOKED = ''REVOKED''"

definition retained_grant_json :: "grant \<Rightarrow> json" where
  "retained_grant_json g = (let a = gr_activation g in JObj [
     (''grantId'', JStr (gr_grantId g)), (''activationId'', JStr (gr_activationId g)),
     (''transactionId'', ref_json (act_transactionId a)), (''offerId'', JStr (act_offerId a)),
     (''offerVersion'', JNum (act_offerVersion a)), (''holderId'', JStr (act_holderId a)),
     (''capabilityCommitment'', JStr (act_capabilityCommitment a)),
     (''totalUnits'', JNum (act_totalUnits a)), (''expiresAt'', JNum (act_expiresAt a)),
     (''storedLifecycle'', JStr (lifecycle_text (gr_lifecycle g))),
     (''availableUnits'', JNum (gr_availableUnits g)), (''heldUnits'', JNum (gr_heldUnits g)),
     (''consumedUnits'', JNum (gr_consumedUnits g))])"

definition retained_grant :: "funding_identity \<Rightarrow> grant option \<Rightarrow> json option" where
  "retained_grant q found = (case found of None \<Rightarrow> Some JNull
     | Some g \<Rightarrow> if matches_original_funding q g \<and> retained_grant_ok g
         then Some (retained_grant_json g) else None)"

definition original_funding_result :: "funding_identity \<Rightarrow> grant option \<Rightarrow> json option" where
  "original_funding_result q found = map_option (\<lambda>retained. JObj [
     (''originalFundingGrantVersion'', JNum 1),
     (''status'', JStr (if retained = JNull then ''NOT_RECORDED'' else ''RECORDED'')),
     (''originalFunding'', funding_identity_json q), (''record'', retained),
     (''historicalObservation'', JBool True), (''reconciliationRequired'', JBool True),
     (''mayStartPayment'', JBool False), (''maySignPayment'', JBool False),
     (''mayDispatchService'', JBool False), (''mayActivateGrant'', JBool False),
     (''grantAuthority'', JStr ''NOT_REVALIDATED''), (''deliveryLiability'', JStr ''NOT_QUERIED''),
     (''spendingReservation'', JStr ''UNCHANGED''), (''authority'', JStr ''NONE'')]) (retained_grant q found)"

definition read_original_funding_grant :: "jsval \<Rightarrow> json credit_prog" where
  "read_original_funding_grant input = run_public_operation (
     andthen (demand (capture_funding_identity input) INVALID_INPUT) (\<lambda>query.
     let answer = (\<lambda>found. demand (original_funding_result query found) SERVICE_CREDIT_ORIGINAL_FUNDING_GRANT) in
     andthen (gets (\<lambda>s. (map_of (m_activationByTransaction s) (TextKey (fi_transactionId query)),
       map_of (m_grantByCapability s) (fi_capabilityCommitment query)))) (\<lambda>found.
     case found of
       (Some activationId, Some grantId) \<Rightarrow>
         andthen (gets (\<lambda>s. map_of (m_grants s) grantId)) (\<lambda>stored.
         andthen (demand stored INVALID_STATE) (\<lambda>g.
         if gr_activationId g \<noteq> activationId \<or> \<not> matches_original_funding query g
         then answer None else answer (Some g)))
     | _ \<Rightarrow> answer None)))"

end
