(* ===== verification/Service_Credit_Export.thy ===== *)
theory Service_Credit_Export
  imports Service_Credit_Funding
begin

text \<open>
  \<open>exportState\<close> of \<open>src/src/service-credit-model.js\<close>: a snapshot lists the offers, grants and requests
  in a fixed order. It is cloned, so every array in it occurs once.
\<close>

fun state_text :: "request_state \<Rightarrow> string" where
  "state_text RESERVED = ''RESERVED''"
| "state_text EXECUTING = ''EXECUTING''"
| "state_text SUCCEEDED = ''SUCCEEDED''"
| "state_text FAILED_RELEASED = ''FAILED_RELEASED''"
| "state_text OUTCOME_UNKNOWN = ''OUTCOME_UNKNOWN''"

definition exported_grant :: "grant \<Rightarrow> json" where
  "exported_grant g = (let a = gr_activation g in JObj [
     (''grantId'', JStr (gr_grantId g)), (''modelVersion'', JNum 1),
     (''activationId'', JStr (gr_activationId g)),
     (''activation'', activation_record_json (gr_activationId g) a),
     (''sourceSettlementId'', JStr (act_sourceSettlementId a)),
     (''transactionId'', ref_json (act_transactionId a)), (''providerId'', JStr (act_providerId a)),
     (''serviceId'', JStr (act_serviceId a)), (''resourceId'', JStr (act_resourceId a)),
     (''offerId'', JStr (act_offerId a)), (''offerVersion'', JNum (act_offerVersion a)),
     (''holderId'', JStr (act_holderId a)),
     (''capabilityCommitment'', JStr (act_capabilityCommitment a)),
     (''totalUnits'', JNum (act_totalUnits a)), (''expiresAt'', JNum (act_expiresAt a)),
     (''paymentIntent'', JObj [(''intentId'', JStr (act_paymentIntentDigest a)),
       (''requirementId'', JStr (act_paymentRequirementDigest a))]),
     (''lifecycle'', JStr (lifecycle_text (gr_lifecycle g))),
     (''availableUnits'', JNum (gr_availableUnits g)), (''heldUnits'', JNum (gr_heldUnits g)),
     (''consumedUnits'', JNum (gr_consumedUnits g))])"

definition exported_request :: "request \<Rightarrow> json" where
  "exported_request r = (let i = req_input r in JObj [
     (''modelVersion'', JNum 1), (''grantId'', JStr (rin_grantId i)),
     (''requestId'', JStr (rin_requestId i)), (''requestDigest'', JStr (req_requestDigest r)),
     (''offerId'', JStr (req_offerId r)), (''offerVersion'', JNum (req_offerVersion r)),
     (''method'', JStr (rin_method i)), (''routeId'', JStr (rin_routeId i)),
     (''canonicalBodyDigest'', JStr (rin_canonicalBodyDigest i)),
     (''selectedContentType'', JStr (rin_selectedContentType i)),
     (''maxCostUnits'', JNum (rin_maxCostUnits i)), (''costUnits'', JNum (req_costUnits r)),
     (''state'', JStr (state_text (req_state r))),
     (''cachedResult'', case req_cachedResult r of None \<Rightarrow> JNull | Some x \<Rightarrow> cached_result_json x)])"

definition sorted_offers :: "credit \<Rightarrow> offer list" where
  "sorted_offers s = sort_key (\<lambda>x. (off_offerId x, off_offerVersion x)) (map snd (m_offers s))"

definition sorted_grants :: "credit \<Rightarrow> grant list" where
  "sorted_grants s = sort_key gr_grantId (map snd (m_grants s))"

definition request_order :: "request \<Rightarrow> string \<times> string" where
  "request_order r = (req_grantId r, req_requestId r)"

definition sorted_requests :: "credit \<Rightarrow> request list" where
  "sorted_requests s = sort_key request_order (all_requests s)"

definition snapshot_json :: "credit \<Rightarrow> json" where
  "snapshot_json s = JObj [(''schemaVersion'', JNum 2), (''modelVersion'', JNum 1),
     (''offers'', JArr (map offer_json (sorted_offers s))),
     (''grants'', JArr (map exported_grant (sorted_grants s))),
     (''requests'', JArr (map exported_request (sorted_requests s)))]"

definition export_state :: "json credit_prog" where
  "export_state = run_public_operation (gets snapshot_json)"

end
