(* ===== verification/Service_Credit_Step.thy ===== *)
theory Service_Credit_Step
  imports Service_Credit_Export
begin

text \<open>
  The public methods of \<open>InMemoryServiceCreditModel\<close> (\<open>src/src/service-credit-model.js\<close>) as one step
  function, for the statements about all sequences of calls.
\<close>

section \<open>The public interface as one step function\<close>

datatype credit_op =
    RegisterOffer jsval | GetOffer jsval
  | ActivateGrant jsval | GetActivation jsval | GetGrant jsval | RevokeGrant jsval
  | ReserveRequest jsval | GetRequest jsval
  | BeginExecution jsval | ReleaseBeforeExecution jsval | CompleteExecution jsval
  | MarkOutcomeUnknown jsval | ReconcileRequest jsval
  | ReadOriginalFundingGrant jsval | ExportState

fun credit_step :: "env \<Rightarrow> credit_op \<Rightarrow> credit \<Rightarrow> credit" where
  "credit_step env (RegisterOffer v) s = fst (register_offer v s)"
| "credit_step env (GetOffer v) s = fst (get_offer v s)"
| "credit_step env (ActivateGrant v) s = fst (activate_grant_from_trusted_record env v s)"
| "credit_step env (GetActivation v) s = fst (get_activation v s)"
| "credit_step env (GetGrant v) s = fst (get_grant env v s)"
| "credit_step env (RevokeGrant v) s = fst (revoke_grant env v s)"
| "credit_step env (ReserveRequest v) s = fst (reserve_request env v s)"
| "credit_step env (GetRequest v) s = fst (get_request v s)"
| "credit_step env (BeginExecution v) s = fst (begin_execution env v s)"
| "credit_step env (ReleaseBeforeExecution v) s = fst (release_before_execution v s)"
| "credit_step env (CompleteExecution v) s = fst (complete_execution v s)"
| "credit_step env (MarkOutcomeUnknown v) s = fst (mark_outcome_unknown v s)"
| "credit_step env (ReconcileRequest v) s = fst (reconcile_request v s)"
| "credit_step env (ReadOriginalFundingGrant v) s = fst (read_original_funding_grant v s)"
| "credit_step env ExportState s = fst (export_state s)"

end
