(* ===== verification/Service_Credit_Invariant.thy ===== *)
theory Service_Credit_Invariant
  imports Service_Credit_Step
begin

text \<open>
  The invariant of the service-credit state machine and its preservation by every public
  operation, whatever the operation's arguments, the clock and the pricing function do. The
  invariant says: units are conserved (\<open>total = available + held + consumed\<close>, \<open>held\<close> is the sum
  of the costs of the open requests and \<open>consumed\<close> that of the succeeded ones), the four identity
  indexes are exactly the projections of the grants and bind every identity once, every grant
  belongs to a registered offer that covers it, and every stored request is well formed, priced
  within its ceiling and bound by its digest.
\<close>

section \<open>Flags and callbacks\<close>

definition idle :: "credit \<Rightarrow> bool" where
  "idle s \<longleftrightarrow> \<not> m_operationActive s \<and> \<not> m_callbackActive s \<and> \<not> m_callbackReentryAttempted s"

definition busy :: "credit \<Rightarrow> bool" where
  "busy s \<longleftrightarrow> m_operationActive s \<and> \<not> m_callbackActive s \<and> \<not> m_callbackReentryAttempted s"

definition tick :: "credit \<Rightarrow> credit" where
  "tick s = s\<lparr>m_calls := Suc (m_calls s)\<rparr>"

text \<open>The value a callback invocation delivers to its operation, if any.\<close>

definition callback_value :: "callback \<Rightarrow> jsval option" where
  "callback_value c = (case cb_reply c of Threw \<Rightarrow> None
     | Returned v \<Rightarrow> if cb_attempts c = 0 then Some v else None)"

definition clock_value :: "env \<Rightarrow> nat \<Rightarrow> int option" where
  "clock_value env n = Option.bind (callback_value (env_now env n)) as_count"

definition cost_value :: "env \<Rightarrow> nat \<Rightarrow> json \<Rightarrow> int option" where
  "cost_value env n context = Option.bind (callback_value (env_deriveCost env n context)) as_positive"

lemma attempt_operations_active:
  "m_operationActive s \<Longrightarrow> m_callbackActive s \<Longrightarrow>
    attempt_operations n s = (if n = 0 then s else s\<lparr>m_callbackReentryAttempted := True\<rparr>)"
  by (induction n arbitrary: s) (auto simp: run_public_operation_def)

lemma busy_simps [simp]:
  "busy (tick s) = busy s"
  "busy (set_grant g s) = busy s"
  "busy (set_request r s) = busy s"
  "busy (insert_grant g s) = busy s"
  "busy (s\<lparr>m_offers := xs\<rparr>) = busy s"
  by (simp_all add: busy_def tick_def set_grant_def set_request_def insert_grant_def Let_def)

lemma field_tick [simp]:
  "m_offers (tick s) = m_offers s" "m_activations (tick s) = m_activations s"
  "m_grants (tick s) = m_grants s" "m_requests (tick s) = m_requests s"
  "m_activationByAuthoritySettlement (tick s) = m_activationByAuthoritySettlement s"
  "m_activationByTransaction (tick s) = m_activationByTransaction s"
  "m_grantByCapability (tick s) = m_grantByCapability s"
  "find_request (tick s) = find_request s" "requests_of (tick s) = requests_of s"
  "all_requests (tick s) = all_requests s"
  by (simp_all add: tick_def find_request_def requests_of_def all_requests_def fun_eq_iff)

lemma invoke_callback_busy:
  assumes "busy s"
  shows "invoke_callback cb e s =
    (tick s, case callback_value (cb (m_calls s)) of None \<Rightarrow> Inl e | Some v \<Rightarrow> Inr v)"
  using assms
  by (auto simp: invoke_callback_def busy_def Let_def attempt_operations_active tick_def
      callback_value_def split: reply.splits)

lemma wp_invoke_callback [wp]:
  "busy s \<Longrightarrow> wpre (invoke_callback cb e) Q E s =
    (case callback_value (cb (m_calls s)) of None \<Rightarrow> E e (tick s) | Some v \<Rightarrow> Q v (tick s))"
  by (simp add: wpre_def invoke_callback_busy split: option.splits)

lemma wp_read_now [wp]:
  "busy s \<Longrightarrow> wpre (read_now env) Q E s =
    (case clock_value env (m_calls s) of None \<Rightarrow> E INVALID_CLOCK (tick s) | Some n \<Rightarrow> Q n (tick s))"
  by (simp add: read_now_def wp clock_value_def split: option.splits)

lemma wp_server_cost [wp]:
  "busy s \<Longrightarrow> wpre (server_cost env offer g r) Q E s =
    (case cost_value env (m_calls s) (cost_context offer g r) of
       None \<Rightarrow> E INVALID_COST (tick s) | Some c \<Rightarrow> Q c (tick s))"
  by (simp add: server_cost_def wp cost_value_def split: option.splits)

lemma wp_public [wp]:
  "idle s \<Longrightarrow> wpre (run_public_operation body) Q E s =
    wpre body (\<lambda>v t. Q v (t\<lparr>m_operationActive := False\<rparr>)) (\<lambda>e t. E e (t\<lparr>m_operationActive := False\<rparr>))
      (s\<lparr>m_operationActive := True\<rparr>)"
  by (simp add: wpre_def run_public_operation_def idle_def split: prod.splits sum.splits)

lemma wp_require_grant [wp]:
  "wpre (require_grant gid) Q E s =
    (case map_of (m_grants s) gid of None \<Rightarrow> E GRANT_NOT_FOUND s | Some g \<Rightarrow> Q g s)"
  by (simp add: require_grant_def wp)

lemma wp_require_request [wp]:
  "wpre (require_request gid rid) Q E s =
    (case map_of (m_grants s) gid of None \<Rightarrow> E GRANT_NOT_FOUND s
     | Some g \<Rightarrow> (case find_request s gid rid of None \<Rightarrow> E REQUEST_NOT_FOUND s | Some r \<Rightarrow> Q (g, r) s))"
  by (simp add: require_request_def wp split: option.splits)

definition refreshed :: "env \<Rightarrow> grant \<Rightarrow> credit \<Rightarrow> grant option \<times> credit" where
  "refreshed env g s =
     (if gr_lifecycle g = ACTIVE then
        (case clock_value env (m_calls s) of
           None \<Rightarrow> (None, tick s)
         | Some now \<Rightarrow>
             if gr_expiresAt g \<le> now
             then (Some (g\<lparr>gr_lifecycle := EXPIRED\<rparr>), set_grant (g\<lparr>gr_lifecycle := EXPIRED\<rparr>) (tick s))
             else (Some g, tick s))
      else (Some g, s))"

lemma wp_refresh_grant [wp]:
  "busy s \<Longrightarrow> wpre (refresh_grant env gid) Q E s =
    (case map_of (m_grants s) gid of None \<Rightarrow> E GRANT_NOT_FOUND s
     | Some g \<Rightarrow> (case refreshed env g s of (None, t) \<Rightarrow> E INVALID_CLOCK t | (Some _, t) \<Rightarrow> Q () t))"
  by (auto simp: refresh_grant_def wp refreshed_def split: option.splits)

lemma wp_request_admission_state [wp]:
  "wpre request_admission_state Q E s =
    (if length (all_requests s) \<le> max_hydrated_requests
     then Q (length (all_requests s), list_ex unresolved (all_requests s)) s
     else E INVARIANT_VIOLATION s)"
  by (simp add: request_admission_state_def wp)

lemma wp_require_active [wp]:
  "wpre (require_active g) Q E s = (if gr_lifecycle g = ACTIVE then Q () s else E GRANT_NOT_ACTIVE s)"
  by (simp add: require_active_def wp)

lemma wp_settle [wp]:
  "wpre (settle g r) Q E s =
    (if counters_ok g then Q \<lparr>tr_transitioned = True, tr_request = r\<rparr> (set_request r (set_grant g s))
     else E INVARIANT_VIOLATION (set_request r (set_grant g s)))"
  by (simp add: settle_def assert_counters_def wp)

section \<open>The invariant\<close>

definition held_state :: "request \<Rightarrow> bool" where
  "held_state r \<longleftrightarrow> req_state r = RESERVED \<or> req_state r = EXECUTING \<or> req_state r = OUTCOME_UNKNOWN"

definition units_where :: "(request \<Rightarrow> bool) \<Rightarrow> (string \<times> request) list \<Rightarrow> int" where
  "units_where P rs = sum_list (map (\<lambda>(_, r). if P r then req_costUnits r else 0) rs)"

definition succeeded :: "request \<Rightarrow> bool" where
  "succeeded r \<longleftrightarrow> req_state r = SUCCEEDED"

definition grant_ok :: "(string \<Rightarrow> string) \<Rightarrow> grant \<Rightarrow> bool" where
  "grant_ok sha g \<longleftrightarrow> activation_ok (gr_activation g)
     \<and> gr_activationId g = activation_id_for sha (gr_activation g)
     \<and> gr_grantId g = grant_id_for sha (grant_description_for (gr_activationId g) (gr_activation g))
     \<and> counters_ok g"

definition request_ok :: "(string \<Rightarrow> string) \<Rightarrow> grant \<Rightarrow> request \<Rightarrow> bool" where
  "request_ok sha g r \<longleftrightarrow> request_input_ok (req_input r) \<and> req_grantId r = gr_grantId g
     \<and> req_offerId r = act_offerId (gr_activation g) \<and> req_offerVersion r = act_offerVersion (gr_activation g)
     \<and> positive_safe (req_costUnits r) \<and> req_costUnits r \<le> rin_maxCostUnits (req_input r)
     \<and> req_costUnits r \<le> gr_totalUnits g
     \<and> req_requestDigest r = request_digest_for sha (req_offerId r) (req_offerVersion r) (req_input r)
         (req_costUnits r)
     \<and> (req_state r = SUCCEEDED \<longleftrightarrow> req_cachedResult r \<noteq> None)
     \<and> (\<forall>x. req_cachedResult r = Some x \<longrightarrow> cached_result_ok x
         \<and> res_contentType x = rin_selectedContentType (req_input r))"

text \<open>One grant with its requests.\<close>

definition account_ok :: "(string \<Rightarrow> string) \<Rightarrow> (string \<times> offer) list \<Rightarrow> grant \<Rightarrow> (string \<times> request) list \<Rightarrow> bool" where
  "account_ok sha offers g rs \<longleftrightarrow> grant_ok sha g
     \<and> (\<exists>x. map_of offers (offer_key (act_offerId (gr_activation g)) (act_offerVersion (gr_activation g))) = Some x
          \<and> offer_covers x (gr_activation g))
     \<and> distinct (map fst rs)
     \<and> (\<forall>(rid, r) \<in> set rs. rid = req_requestId r \<and> request_ok sha g r)
     \<and> gr_heldUnits g = units_where held_state rs
     \<and> gr_consumedUnits g = units_where succeeded rs"

definition offers_ok :: "(string \<times> offer) list \<Rightarrow> bool" where
  "offers_ok offers \<longleftrightarrow> distinct (map fst offers)
     \<and> (\<forall>(k, x) \<in> set offers. k = offer_key (off_offerId x) (off_offerVersion x) \<and> offer_ok x)"

text \<open>The identity indexes a list of grants determines.\<close>

definition indexes_ok :: "credit \<Rightarrow> bool" where
  "indexes_ok s \<longleftrightarrow>
     m_activations s = map (\<lambda>(_, g). (gr_activationId g, gr_activation g)) (m_grants s)
     \<and> m_activationByAuthoritySettlement s =
         map (\<lambda>(_, g). (authority_settlement_key (gr_activation g), gr_activationId g)) (m_grants s)
     \<and> m_activationByTransaction s =
         map (\<lambda>(_, g). (gr_transaction g, gr_activationId g)) (m_grants s)
     \<and> m_grantByCapability s =
         map (\<lambda>(_, g). (act_capabilityCommitment (gr_activation g), gr_grantId g)) (m_grants s)
     \<and> map fst (m_requests s) = map fst (m_grants s)
     \<and> distinct (map fst (m_activations s)) \<and> distinct (map fst (m_activationByAuthoritySettlement s))
     \<and> distinct (map fst (m_activationByTransaction s)) \<and> distinct (map fst (m_grantByCapability s))
     \<and> distinct (map fst (m_grants s))"

definition credit_data :: "(string \<Rightarrow> string) \<Rightarrow> credit \<Rightarrow> bool" where
  "credit_data sha s \<longleftrightarrow> offers_ok (m_offers s) \<and> indexes_ok s
     \<and> (\<forall>(k, g) \<in> set (m_grants s). k = gr_grantId g \<and> account_ok sha (m_offers s) g (requests_of s k))
     \<and> length (all_requests s) \<le> max_hydrated_requests"

definition credit_ok :: "(string \<Rightarrow> string) \<Rightarrow> credit \<Rightarrow> bool" where
  "credit_ok sha s \<longleftrightarrow> idle s \<and> credit_data sha s"

section \<open>Updating one account\<close>

definition put_account :: "grant \<Rightarrow> (string \<times> request) list \<Rightarrow> credit \<Rightarrow> credit" where
  "put_account g rs s = s\<lparr>m_grants := AList.update (gr_grantId g) g (m_grants s),
     m_requests := AList.update (gr_grantId g) rs (m_requests s)\<rparr>"

definition flagless :: "credit \<Rightarrow> credit \<Rightarrow> bool" where
  "flagless s t \<longleftrightarrow> m_offers s = m_offers t \<and> m_activations s = m_activations t \<and> m_grants s = m_grants t
     \<and> m_activationByAuthoritySettlement s = m_activationByAuthoritySettlement t
     \<and> m_activationByTransaction s = m_activationByTransaction t
     \<and> m_grantByCapability s = m_grantByCapability t \<and> m_requests s = m_requests t"

lemma requests_of_cong: "m_requests s = m_requests t \<Longrightarrow> requests_of s = requests_of t"
  by (simp add: requests_of_def fun_eq_iff)

lemma all_requests_cong: "m_requests s = m_requests t \<Longrightarrow> all_requests s = all_requests t"
  by (simp add: all_requests_def)

lemma credit_data_flagless: "flagless s t \<Longrightarrow> credit_data sha s = credit_data sha t"
  by (simp add: flagless_def credit_data_def indexes_ok_def requests_of_cong [of s t] all_requests_cong [of s t])

lemma credit_data_simps [simp]:
  "credit_data sha (tick s) = credit_data sha s"
  "credit_data sha (s\<lparr>m_operationActive := b\<rparr>) = credit_data sha s"
  by (rule credit_data_flagless; simp add: flagless_def tick_def)+

lemma credit_data_grant:
  assumes "credit_data sha s" and "map_of (m_grants s) gid = Some g"
  shows "gr_grantId g = gid" and "account_ok sha (m_offers s) g (requests_of s gid)"
    and "\<exists>rs. map_of (m_requests s) gid = Some rs"
proof -
  from assms(2) have "(gid, g) \<in> set (m_grants s)" by (rule map_of_SomeD)
  with assms(1) show "gr_grantId g = gid" "account_ok sha (m_offers s) g (requests_of s gid)"
    by (auto simp: credit_data_def)
  from assms(1) have "map fst (m_requests s) = map fst (m_grants s)"
    by (simp add: credit_data_def indexes_ok_def)
  then have "gid \<in> set (map fst (m_requests s))"
    using \<open>(gid, g) \<in> set (m_grants s)\<close> by (metis fst_conv imageI set_map)
  then show "\<exists>rs. map_of (m_requests s) gid = Some rs"
    by (metis map_of_eq_None_iff not_None_eq set_map)
qed

lemma length_requests:
  "int (length (concat (map (\<lambda>(_, rs). map snd rs) al))) = sum_list (map (\<lambda>(_, rs). int (length rs)) al)"
  by (induction al) auto

lemma requests_of_put [simp]:
  "requests_of (put_account g rs s) k = (if k = gr_grantId g then rs else requests_of s k)"
  by (simp add: requests_of_def put_account_def)

lemma fields_put [simp]:
  "m_grants (put_account g rs s) = AList.update (gr_grantId g) g (m_grants s)"
  "m_offers (put_account g rs s) = m_offers s"
  "m_requests (put_account g rs s) = AList.update (gr_grantId g) rs (m_requests s)"
  by (simp_all add: put_account_def)

lemma put_account_length:
  assumes "credit_data sha s" and "map_of (m_grants s) (gr_grantId g') = Some g"
  shows "length (all_requests (put_account g' rs s)) + length (requests_of s (gr_grantId g'))
    = length (all_requests s) + length rs"
proof -
  let ?k = "gr_grantId g'"
  obtain old where old: "map_of (m_requests s) ?k = Some old"
    using credit_data_grant(3) [OF assms] by auto
  have "distinct (map fst (m_requests s))"
    using assms(1) by (simp add: credit_data_def indexes_ok_def)
  from sum_list_update [OF this old, of "\<lambda>(_, rs). int (length rs)" rs]
  have "int (length (all_requests (put_account g' rs s))) =
      int (length (all_requests s)) - int (length old) + int (length rs)"
    by (simp add: all_requests_def length_requests)
  then show ?thesis using old by (simp add: requests_of_def)
qed

lemma put_account_indexes:
  assumes "indexes_ok s" and "map_of (m_grants s) (gr_grantId g') = Some g"
    and "gr_activation g' = gr_activation g" "gr_activationId g' = gr_activationId g"
      "gr_grantId g' = gr_grantId g" "map_of (m_requests s) (gr_grantId g') \<noteq> None"
  shows "indexes_ok (put_account g' rs s)"
proof -
  obtain old where old: "map_of (m_requests s) (gr_grantId g') = Some old" using assms(6) by auto
  note same = map_update_same [OF assms(2), of _ g']
  show ?thesis
    using assms(1,3-5) keys_update_present [OF old, of rs] keys_update_present [OF assms(2), of g']
      same [of "\<lambda>(_, g). (gr_activationId g, gr_activation g)"]
      same [of "\<lambda>(_, g). (authority_settlement_key (gr_activation g), gr_activationId g)"]
      same [of "\<lambda>(_, g). (gr_transaction g, gr_activationId g)"]
      same [of "\<lambda>(_, g). (act_capabilityCommitment (gr_activation g), gr_grantId g)"]
    by (auto simp: indexes_ok_def put_account_def simp del: map_map)
qed

lemma put_account_data:
  assumes data: "credit_data sha s" and g: "map_of (m_grants s) (gr_grantId g') = Some g"
    and same: "gr_activation g' = gr_activation g" "gr_activationId g' = gr_activationId g"
    and ok: "account_ok sha (m_offers s) g' rs"
    and len: "length (all_requests s) + length rs \<le>
      max_hydrated_requests + length (requests_of s (gr_grantId g'))"
  shows "credit_data sha (put_account g' rs s)"
proof -
  let ?k = "gr_grantId g'"
  have id: "gr_grantId g' = gr_grantId g" using credit_data_grant(1) [OF data g] by simp
  have "indexes_ok (put_account g' rs s)"
    using data credit_data_grant(3) [OF data g] by (auto simp: credit_data_def intro: put_account_indexes [OF _ g same id])
  moreover have "\<forall>(k, h) \<in> set (AList.update ?k g' (m_grants s)). k = gr_grantId h
      \<and> account_ok sha (m_offers s) h (if k = ?k then rs else requests_of s k)"
    using data ok by (subst set_update_distinct) (auto simp: credit_data_def indexes_ok_def)
  ultimately show ?thesis
    using data len put_account_length [OF data g, of rs] by (simp add: credit_data_def)
qed

lemma set_grant_put:
  assumes "credit_data sha s" and "map_of (m_grants s) (gr_grantId g') = Some g"
  shows "set_grant g' s = put_account g' (requests_of s (gr_grantId g')) s"
  using credit_data_grant(3) [OF assms]
  by (auto simp: set_grant_def put_account_def requests_of_def update_same)

lemma set_request_put:
  assumes "map_of (m_grants s) (req_grantId r) = Some g" "gr_grantId g = req_grantId r"
  shows "set_request r s = put_account g (AList.update (req_requestId r) r (requests_of s (req_grantId r))) s"
  using assms by (simp add: set_request_def put_account_def update_same)

lemma requests_of_set_grant [simp]: "requests_of (set_grant g s) = requests_of s"
  by (rule requests_of_cong) (simp add: set_grant_def)

lemma set_both_put:
  assumes "req_grantId r = gr_grantId g"
  shows "set_request r (set_grant g s) =
    put_account g (AList.update (req_requestId r) r (requests_of s (gr_grantId g))) s"
  using assms by (simp add: set_request_def set_grant_def put_account_def requests_of_def)

section \<open>Updating one request\<close>

lemma units_where_update:
  assumes "distinct (map fst rs)" "map_of rs rid = Some r"
  shows "units_where P (AList.update rid r' rs) =
    units_where P rs - (if P r then req_costUnits r else 0) + (if P r' then req_costUnits r' else 0)"
  unfolding units_where_def by (subst sum_list_update [OF assms]) auto

lemma units_where_append [simp]:
  "units_where P (rs @ [(rid, r)]) = units_where P rs + (if P r then req_costUnits r else 0)"
  by (simp add: units_where_def)

lemma units_where_nonneg: "(\<forall>(_, r) \<in> set rs. 0 \<le> req_costUnits r) \<Longrightarrow> 0 \<le> units_where P rs"
  unfolding units_where_def by (rule sum_list_nonneg) auto

lemma units_where_member:
  assumes "\<forall>(_, r) \<in> set rs. 0 \<le> req_costUnits r" "(k, r) \<in> set rs" "P r"
  shows "req_costUnits r \<le> units_where P rs"
proof -
  have "(if P r then req_costUnits r else 0) \<le> units_where P rs"
    unfolding units_where_def using assms
    by (intro member_le_sum_list) (force simp: image_iff)+
  with assms(3) show ?thesis by simp
qed

lemma account_request:
  assumes "account_ok sha offers g rs" "map_of rs rid = Some r"
  shows "rid = req_requestId r" "request_ok sha g r" "0 < req_costUnits r"
    "held_state r \<Longrightarrow> req_costUnits r \<le> gr_heldUnits g"
proof -
  have m: "(rid, r) \<in> set rs" using assms(2) by (rule map_of_SomeD)
  with assms(1) show "rid = req_requestId r" and r: "request_ok sha g r"
    by (auto simp: account_ok_def)
  from r show "0 < req_costUnits r" by (simp add: request_ok_def positive_safe_def)
  have "\<forall>(_, r) \<in> set rs. 0 \<le> req_costUnits r"
    using assms(1) by (fastforce simp: account_ok_def request_ok_def positive_safe_def)
  from units_where_member [OF this m] show "held_state r \<Longrightarrow> req_costUnits r \<le> gr_heldUnits g"
    using assms(1) by (simp add: account_ok_def)
qed

text \<open>Replacing a stored request by one with the same price and moving the matching units.\<close>

lemma account_ok_update:
  assumes ok: "account_ok sha offers g rs" and r: "map_of rs rid = Some r"
    and same: "req_input r' = req_input r" "req_requestDigest r' = req_requestDigest r"
      "req_offerId r' = req_offerId r" "req_offerVersion r' = req_offerVersion r"
      "req_costUnits r' = req_costUnits r"
    and cached: "req_state r' = SUCCEEDED \<longleftrightarrow> req_cachedResult r' \<noteq> None"
      "\<And>x. req_cachedResult r' = Some x \<Longrightarrow> cached_result_ok x
        \<and> res_contentType x = rin_selectedContentType (req_input r)"
    and g': "gr_activation g' = gr_activation g" "gr_activationId g' = gr_activationId g"
      "gr_grantId g' = gr_grantId g" "counters_ok g'"
      "gr_heldUnits g' = gr_heldUnits g - (if held_state r then req_costUnits r else 0)
         + (if held_state r' then req_costUnits r else 0)"
      "gr_consumedUnits g' = gr_consumedUnits g - (if succeeded r then req_costUnits r else 0)
         + (if succeeded r' then req_costUnits r else 0)"
  shows "account_ok sha offers g' (AList.update rid r' rs)"
proof -
  have d: "distinct (map fst rs)" using ok by (simp add: account_ok_def)
  have ids: "rid = req_requestId r" "request_ok sha g r" using account_request [OF ok r] by auto
  have r': "request_ok sha g' r'"
    using ids(2) same cached g'(1,3) by (auto simp: request_ok_def)
  have "\<forall>(k, x) \<in> set rs. k = req_requestId x \<and> request_ok sha g' x"
    using ok g'(1,3) by (auto simp: account_ok_def request_ok_def)
  with d r' ids(1) same(1) have
    "\<forall>(k, x) \<in> set (AList.update rid r' rs). k = req_requestId x \<and> request_ok sha g' x"
    by (subst set_update_distinct) auto
  moreover have "distinct (map fst (AList.update rid r' rs))"
    using d by (simp add: distinct_update)
  ultimately show ?thesis
    using ok g' same(5) units_where_update [OF d r, of held_state r'] units_where_update [OF d r, of succeeded r']
    by (simp add: account_ok_def grant_ok_def)
qed

lemma account_ok_append:
  assumes ok: "account_ok sha offers g rs" and fresh: "map_of rs (req_requestId r) = None"
    and r: "request_ok sha g r" "req_state r = RESERVED"
    and g': "gr_activation g' = gr_activation g" "gr_activationId g' = gr_activationId g"
      "gr_grantId g' = gr_grantId g" "counters_ok g'"
      "gr_heldUnits g' = gr_heldUnits g + req_costUnits r" "gr_consumedUnits g' = gr_consumedUnits g"
  shows "account_ok sha offers g' (AList.update (req_requestId r) r rs)"
proof -
  have "req_requestId r \<notin> fst ` set rs" using fresh by (simp add: map_of_eq_None_iff)
  moreover have "held_state r" "\<not> succeeded r" using r(2) by (simp_all add: held_state_def succeeded_def)
  moreover have "\<forall>(k, x) \<in> set rs. k = req_requestId x \<and> request_ok sha g' x" "request_ok sha g' r"
    using ok r(1) g'(1,3) by (auto simp: account_ok_def request_ok_def)
  ultimately show ?thesis
    using ok g' fresh by (auto simp: account_ok_def grant_ok_def update_new)
qed

lemma account_ok_lifecycle [simp]:
  "account_ok sha offers (g\<lparr>gr_lifecycle := l\<rparr>) rs = account_ok sha offers g rs"
  by (simp add: account_ok_def grant_ok_def counters_ok_def request_ok_def)

end
