(* ===== verification/Service_Credit_Events.thy ===== *)
theory Service_Credit_Events
  imports Service_Credit_Invariant
begin

text \<open>
  What the service-credit model promises, as a relation of ten events on its data: an offer is
  registered, a grant is activated, expires or is revoked, a request is reserved, begins, is
  released, succeeds or becomes unknown. Every event keeps the invariant of
  \<open>Service_Credit_Invariant\<close> and moves forward in the order of grant lifecycles and request
  states. The refinement theorem of \<open>Service_Credit_Refinement\<close> shows that every public
  operation is a sequence of these events.
\<close>

section \<open>Events\<close>

definition hold_units :: "grant \<Rightarrow> int \<Rightarrow> grant" where
  "hold_units g cost = g\<lparr>gr_availableUnits := gr_availableUnits g - cost, gr_heldUnits := gr_heldUnits g + cost\<rparr>"

inductive credit_event :: "(string \<Rightarrow> string) \<Rightarrow> credit \<Rightarrow> credit \<Rightarrow> bool" for sha where
  register: "offer_ok x \<Longrightarrow> k = offer_key (off_offerId x) (off_offerVersion x) \<Longrightarrow>
    map_of (m_offers s) k = None \<Longrightarrow>
    credit_event sha s (s\<lparr>m_offers := AList.update k x (m_offers s)\<rparr>)"
| activate: "activation_ok a \<Longrightarrow> \<not> identity_taken (new_grant sha a) s \<Longrightarrow>
    map_of (m_offers s) (offer_key (act_offerId a) (act_offerVersion a)) = Some x \<Longrightarrow>
    offer_covers x a \<Longrightarrow> credit_event sha s (insert_grant (new_grant sha a) s)"
| deactivate: "map_of (m_grants s) gid = Some g \<Longrightarrow> gr_lifecycle g = ACTIVE \<Longrightarrow>
    l = EXPIRED \<or> l = REVOKED \<Longrightarrow> credit_event sha s (set_grant (g\<lparr>gr_lifecycle := l\<rparr>) s)"
| reserve: "map_of (m_grants s) (rin_grantId i) = Some g \<Longrightarrow> gr_lifecycle g = ACTIVE \<Longrightarrow>
    find_request s (rin_grantId i) (rin_requestId i) = None \<Longrightarrow> request_input_ok i \<Longrightarrow>
    positive_safe cost \<Longrightarrow> cost \<le> rin_maxCostUnits i \<Longrightarrow> cost \<le> gr_availableUnits g \<Longrightarrow>
    \<not> list_ex unresolved (all_requests s) \<Longrightarrow> length (all_requests s) < max_hydrated_requests \<Longrightarrow>
    credit_event sha s (set_request (new_request sha g i cost) (set_grant (hold_units g cost) s))"
| begins: "map_of (m_grants s) gid = Some g \<Longrightarrow> find_request s gid rid = Some r \<Longrightarrow>
    req_state r = RESERVED \<Longrightarrow> gr_lifecycle g = ACTIVE \<Longrightarrow> \<not> list_ex unresolved (all_requests s) \<Longrightarrow>
    credit_event sha s (set_request (r\<lparr>req_state := EXECUTING\<rparr>) s)"
| unknown: "map_of (m_grants s) gid = Some g \<Longrightarrow> find_request s gid rid = Some r \<Longrightarrow>
    req_state r = EXECUTING \<Longrightarrow> credit_event sha s (set_request (r\<lparr>req_state := OUTCOME_UNKNOWN\<rparr>) s)"
| release: "map_of (m_grants s) gid = Some g \<Longrightarrow> find_request s gid rid = Some r \<Longrightarrow>
    req_state r = RESERVED \<or> req_state r = OUTCOME_UNKNOWN \<Longrightarrow>
    credit_event sha s (set_request (r\<lparr>req_state := FAILED_RELEASED\<rparr>)
      (set_grant (release_units g (req_costUnits r)) s))"
| consume: "map_of (m_grants s) gid = Some g \<Longrightarrow> find_request s gid rid = Some r \<Longrightarrow>
    unresolved r \<Longrightarrow> cached_result_ok x \<Longrightarrow> res_contentType x = rin_selectedContentType (req_input r) \<Longrightarrow>
    credit_event sha s (set_request (r\<lparr>req_state := SUCCEEDED, req_cachedResult := Some x\<rparr>)
      (set_grant (consume_units g (req_costUnits r)) s))"

section \<open>Events keep the invariant\<close>

lemma hold_units_simps [simp]:
  "gr_activation (hold_units g c) = gr_activation g" "gr_activationId (hold_units g c) = gr_activationId g"
  "gr_grantId (hold_units g c) = gr_grantId g" "gr_lifecycle (hold_units g c) = gr_lifecycle g"
  "gr_heldUnits (hold_units g c) = gr_heldUnits g + c" "gr_consumedUnits (hold_units g c) = gr_consumedUnits g"
  "gr_availableUnits (hold_units g c) = gr_availableUnits g - c"
  by (simp_all add: hold_units_def)

lemma settle_units_simps [simp]:
  "gr_activation (release_units g c) = gr_activation g" "gr_activationId (release_units g c) = gr_activationId g"
  "gr_grantId (release_units g c) = gr_grantId g" "gr_lifecycle (release_units g c) = gr_lifecycle g"
  "gr_heldUnits (release_units g c) = gr_heldUnits g - c" "gr_consumedUnits (release_units g c) = gr_consumedUnits g"
  "gr_availableUnits (release_units g c) = gr_availableUnits g + c"
  "gr_activation (consume_units g c) = gr_activation g" "gr_activationId (consume_units g c) = gr_activationId g"
  "gr_grantId (consume_units g c) = gr_grantId g" "gr_lifecycle (consume_units g c) = gr_lifecycle g"
  "gr_heldUnits (consume_units g c) = gr_heldUnits g - c"
  "gr_consumedUnits (consume_units g c) = gr_consumedUnits g + c"
  "gr_availableUnits (consume_units g c) = gr_availableUnits g"
  by (simp_all add: release_units_def consume_units_def)

text \<open>The counters survive a move of units that are there.\<close>

lemma counters_move:
  "counters_ok g \<Longrightarrow> 0 \<le> c \<Longrightarrow> c \<le> gr_availableUnits g \<Longrightarrow> counters_ok (hold_units g c)"
  "counters_ok g \<Longrightarrow> 0 \<le> c \<Longrightarrow> c \<le> gr_heldUnits g \<Longrightarrow> counters_ok (release_units g c)"
  "counters_ok g \<Longrightarrow> 0 \<le> c \<Longrightarrow> c \<le> gr_heldUnits g \<Longrightarrow> counters_ok (consume_units g c)"
  by (auto simp: counters_ok_def count_safe_def)

lemma account_counters: "account_ok sha offers g rs \<Longrightarrow> counters_ok g"
  by (simp add: account_ok_def grant_ok_def)

lemma find_request_of: "find_request s gid rid = map_of (requests_of s gid) rid"
  by (simp add: find_request_def)

text \<open>A stored request and its grant.\<close>

lemma stored_request:
  assumes "credit_data sha s" "map_of (m_grants s) gid = Some g" "find_request s gid rid = Some r"
  shows "gr_grantId g = gid" "account_ok sha (m_offers s) g (requests_of s gid)"
    "map_of (requests_of s gid) rid = Some r" "req_requestId r = rid" "req_grantId r = gid"
    "0 < req_costUnits r" "request_ok sha g r" "counters_ok g"
    "held_state r \<Longrightarrow> req_costUnits r \<le> gr_heldUnits g"
proof -
  show id: "gr_grantId g = gid" and ok: "account_ok sha (m_offers s) g (requests_of s gid)"
    using credit_data_grant [OF assms(1,2)] by auto
  show r: "map_of (requests_of s gid) rid = Some r" using assms(3) by (simp add: find_request_def)
  show "req_requestId r = rid" "0 < req_costUnits r" "request_ok sha g r"
    "held_state r \<Longrightarrow> req_costUnits r \<le> gr_heldUnits g"
    using account_request [OF ok r] by auto
  then show "req_grantId r = gid" using id by (simp add: request_ok_def)
  show "counters_ok g" using ok by (rule account_counters)
qed

lemma put_request_data:
  assumes data: "credit_data sha s" and g: "map_of (m_grants s) gid = Some g"
    and r: "find_request s gid rid = Some r"
    and g': "gr_activation g' = gr_activation g" "gr_activationId g' = gr_activationId g" "gr_grantId g' = gr_grantId g"
    and ok: "account_ok sha (m_offers s) g' (AList.update rid r' (requests_of s gid))"
  shows "credit_data sha (put_account g' (AList.update rid r' (requests_of s gid)) s)"
proof (rule put_account_data [OF data])
  note st = stored_request [OF data g r]
  show "map_of (m_grants s) (gr_grantId g') = Some g" using g g'(3) st(1) by simp
  show "length (all_requests s) + length (AList.update rid r' (requests_of s gid))
      \<le> max_hydrated_requests + length (requests_of s (gr_grantId g'))"
    using data g'(3) st(1,3) by (simp add: credit_data_def length_update_present)
qed (use g' ok in auto)

lemma request_state_data:
  assumes data: "credit_data sha s" and g: "map_of (m_grants s) gid = Some g"
    and r: "find_request s gid rid = Some r" and "held_state r" and "held_state (r\<lparr>req_state := st\<rparr>)"
  shows "credit_data sha (set_request (r\<lparr>req_state := st\<rparr>) s)"
proof -
  note stored = stored_request [OF data g r]
  have "account_ok sha (m_offers s) g (AList.update rid (r\<lparr>req_state := st\<rparr>) (requests_of s gid))"
    using stored assms(4,5)
    by (intro account_ok_update [OF stored(2,3)])
      (auto simp: request_ok_def held_state_def succeeded_def)
  from put_request_data [OF data g r _ _ _ this] show ?thesis
    using stored g by (subst set_request_put [where g = g]) auto
qed

lemma settle_data:
  assumes data: "credit_data sha s" and g: "map_of (m_grants s) gid = Some g"
    and r: "find_request s gid rid = Some r"
    and same: "req_input r' = req_input r" "req_requestDigest r' = req_requestDigest r"
      "req_offerId r' = req_offerId r" "req_offerVersion r' = req_offerVersion r"
      "req_costUnits r' = req_costUnits r"
    and ok: "account_ok sha (m_offers s) g' (AList.update rid r' (requests_of s gid))"
    and g': "gr_activation g' = gr_activation g" "gr_activationId g' = gr_activationId g" "gr_grantId g' = gr_grantId g"
  shows "credit_data sha (set_request r' (set_grant g' s))"
proof -
  note stored = stored_request [OF data g r]
  from put_request_data [OF data g r g' ok] show ?thesis
    using stored same g'(3) by (subst set_both_put) auto
qed

lemma release_data:
  assumes data: "credit_data sha s" and g: "map_of (m_grants s) gid = Some g"
    and r: "find_request s gid rid = Some r" and st: "req_state r = RESERVED \<or> req_state r = OUTCOME_UNKNOWN"
  shows "credit_data sha (set_request (r\<lparr>req_state := FAILED_RELEASED\<rparr>)
    (set_grant (release_units g (req_costUnits r)) s))"
proof -
  note stored = stored_request [OF data g r]
  have h: "held_state r" using st by (auto simp: held_state_def)
  have "account_ok sha (m_offers s) (release_units g (req_costUnits r))
      (AList.update rid (r\<lparr>req_state := FAILED_RELEASED\<rparr>) (requests_of s gid))"
    using stored st h counters_move(2) [OF stored(8), of "req_costUnits r"]
    by (intro account_ok_update [OF stored(2,3)])
      (auto simp: request_ok_def held_state_def succeeded_def)
  from settle_data [OF data g r _ _ _ _ _ this] show ?thesis by simp
qed

lemma consume_data:
  assumes data: "credit_data sha s" and g: "map_of (m_grants s) gid = Some g"
    and r: "find_request s gid rid = Some r" and st: "unresolved r"
    and x: "cached_result_ok x" "res_contentType x = rin_selectedContentType (req_input r)"
  shows "credit_data sha (set_request (r\<lparr>req_state := SUCCEEDED, req_cachedResult := Some x\<rparr>)
    (set_grant (consume_units g (req_costUnits r)) s))"
proof -
  note stored = stored_request [OF data g r]
  have h: "held_state r" "\<not> succeeded r" using st by (auto simp: held_state_def unresolved_def succeeded_def)
  have "account_ok sha (m_offers s) (consume_units g (req_costUnits r))
      (AList.update rid (r\<lparr>req_state := SUCCEEDED, req_cachedResult := Some x\<rparr>) (requests_of s gid))"
    using stored h x counters_move(3) [OF stored(8), of "req_costUnits r"]
    by (intro account_ok_update [OF stored(2,3)])
      (auto simp: held_state_def succeeded_def)
  from settle_data [OF data g r _ _ _ _ _ this] show ?thesis by simp
qed

lemma new_request_ok:
  assumes "request_input_ok i" "rin_grantId i = gr_grantId g" "positive_safe cost" "cost \<le> rin_maxCostUnits i"
    "cost \<le> gr_totalUnits g"
  shows "request_ok sha g (new_request sha g i cost)"
  using assms by (simp add: request_ok_def new_request_def Let_def)

lemma new_request_simps [simp]:
  "req_input (new_request sha g i cost) = i" "req_costUnits (new_request sha g i cost) = cost"
  "req_state (new_request sha g i cost) = RESERVED"
  by (simp_all add: new_request_def Let_def)

lemma reserve_data:
  assumes data: "credit_data sha s" and g: "map_of (m_grants s) (rin_grantId i) = Some g"
    and fresh: "find_request s (rin_grantId i) (rin_requestId i) = None" and i: "request_input_ok i"
    and cost: "positive_safe cost" "cost \<le> rin_maxCostUnits i" "cost \<le> gr_availableUnits g"
    and room: "length (all_requests s) < max_hydrated_requests"
  shows "credit_data sha (set_request (new_request sha g i cost) (set_grant (hold_units g cost) s))"
proof -
  note acc = credit_data_grant(1,2) [OF data g]
  have c: "counters_ok g" using acc(2) by (rule account_counters)
  then have total: "cost \<le> gr_totalUnits g" using cost(3) by (auto simp: counters_ok_def count_safe_def)
  let ?r = "new_request sha g i cost"
  let ?rs = "AList.update (rin_requestId i) ?r (requests_of s (rin_grantId i))"
  have new: "map_of (requests_of s (rin_grantId i)) (rin_requestId i) = None"
    using fresh by (simp add: find_request_def)
  have "account_ok sha (m_offers s) (hold_units g cost) ?rs"
    using account_ok_append [OF acc(2), of ?r "hold_units g cost"] new
      new_request_ok [OF i acc(1)[symmetric] cost(1,2) total] counters_move(1) [OF c, of cost] cost
    by (simp add: positive_safe_def)
  then have "credit_data sha (put_account (hold_units g cost) ?rs s)"
    using data g acc(1) new room
    by (intro put_account_data [of sha s _ g]) (simp_all add: credit_data_def update_new)
  then show ?thesis
    using acc(1) by (subst set_both_put) simp_all
qed

lemma deactivate_data:
  assumes data: "credit_data sha s" and g: "map_of (m_grants s) gid = Some g"
  shows "credit_data sha (set_grant (g\<lparr>gr_lifecycle := l\<rparr>) s)"
proof -
  note acc = credit_data_grant(1,2) [OF data g]
  have "credit_data sha (put_account (g\<lparr>gr_lifecycle := l\<rparr>) (requests_of s gid) s)"
    using data g acc by (intro put_account_data [of sha s _ g]) (simp_all add: credit_data_def)
  then show ?thesis
    using acc(1) g by (subst set_grant_put [OF data, where g = g]) simp_all
qed

lemma indexes_ok_offers [simp]: "indexes_ok (s\<lparr>m_offers := x\<rparr>) = indexes_ok s"
  by (simp add: indexes_ok_def)

lemma register_data:
  assumes data: "credit_data sha s" and "offer_ok x" "k = offer_key (off_offerId x) (off_offerVersion x)"
    and new: "map_of (m_offers s) k = None"
  shows "credit_data sha (s\<lparr>m_offers := AList.update k x (m_offers s)\<rparr>)"
proof -
  let ?s = "s\<lparr>m_offers := AList.update k x (m_offers s)\<rparr>"
  have same: "requests_of ?s = requests_of s" "all_requests ?s = all_requests s"
    by (auto intro: requests_of_cong all_requests_cong)
  have "account_ok sha (m_offers ?s) g rs" if "account_ok sha (m_offers s) g rs" for g rs
    using that new by (auto simp: account_ok_def)
  then have "\<forall>(k, g) \<in> set (m_grants s). k = gr_grantId g \<and> account_ok sha (m_offers ?s) g (requests_of s k)"
    using data by (fastforce simp: credit_data_def)
  moreover have "offers_ok (m_offers ?s)"
    using data assms(2,3) new by (auto simp: credit_data_def offers_ok_def update_new map_of_eq_None_iff)
  ultimately show ?thesis
    using data same by (simp add: credit_data_def)
qed

lemma new_grant_simps [simp]:
  "gr_activation (new_grant sha a) = a" "gr_activationId (new_grant sha a) = activation_id_for sha a"
  "gr_lifecycle (new_grant sha a) = ACTIVE" "gr_heldUnits (new_grant sha a) = 0"
  "gr_availableUnits (new_grant sha a) = act_totalUnits a"
  "gr_consumedUnits (new_grant sha a) = 0"
  by (simp_all add: new_grant_def Let_def)

lemma new_grant_counters: "activation_ok a \<Longrightarrow> counters_ok (new_grant sha a)"
  by (simp add: counters_ok_def activation_ok_def positive_safe_def count_safe_def)

lemma new_grant_ok: "activation_ok a \<Longrightarrow> grant_ok sha (new_grant sha a)"
  using new_grant_counters [of a sha] by (simp add: grant_ok_def) (simp add: new_grant_def Let_def)

lemma transaction_own:
  assumes "indexes_ok s" and "OwnKey k \<in> fst ` set (m_activationByTransaction s)"
  shows "k \<in> fst ` set (m_activations s)"
proof -
  from assms obtain gid g where "(gid, g) \<in> set (m_grants s)" "OwnKey k = gr_transaction g"
    by (auto simp: indexes_ok_def)
  moreover from this have "k = gr_activationId g"
    by (simp add: transaction_key_def split: text_ref.splits option.splits)
  ultimately show ?thesis using assms(1) by (force simp: indexes_ok_def)
qed

lemma transaction_free:
  assumes "indexes_ok s" and "activation_by_transaction g s = None" "map_of (m_activations s) (gr_activationId g) = None"
  shows "gr_transaction g \<notin> fst ` set (m_activationByTransaction s)"
proof (cases "findable_transaction (gr_activation g)")
  case True
  then show ?thesis using assms(2) by (simp add: activation_by_transaction_def map_of_eq_None_iff)
next
  case False
  then have "gr_transaction g = OwnKey (gr_activationId g)"
    by (simp add: findable_transaction_def transaction_key_def split: text_ref.splits)
  then show ?thesis using transaction_own [OF assms(1)] assms(3) by (auto simp: map_of_eq_None_iff)
qed

lemma identity_free:
  assumes "indexes_ok s" "\<not> identity_taken g s"
  shows "insert_grant g s = s\<lparr>m_activations := m_activations s @ [(gr_activationId g, gr_activation g)],
      m_grants := m_grants s @ [(gr_grantId g, g)],
      m_activationByAuthoritySettlement := m_activationByAuthoritySettlement s
        @ [(authority_settlement_key (gr_activation g), gr_activationId g)],
      m_activationByTransaction := m_activationByTransaction s
        @ [(gr_transaction g, gr_activationId g)],
      m_grantByCapability := m_grantByCapability s
        @ [(act_capabilityCommitment (gr_activation g), gr_grantId g)],
      m_requests := m_requests s @ [(gr_grantId g, [])]\<rparr>" (is ?eq)
    "gr_activationId g \<notin> fst ` set (m_activations s)"
    "authority_settlement_key (gr_activation g) \<notin> fst ` set (m_activationByAuthoritySettlement s)"
    "gr_transaction g \<notin> fst ` set (m_activationByTransaction s)"
    "act_capabilityCommitment (gr_activation g) \<notin> fst ` set (m_grantByCapability s)"
    "gr_grantId g \<notin> fst ` set (m_grants s)" "gr_grantId g \<notin> fst ` set (m_requests s)"
proof -
  show k: "gr_activationId g \<notin> fst ` set (m_activations s)"
    "authority_settlement_key (gr_activation g) \<notin> fst ` set (m_activationByAuthoritySettlement s)"
    "gr_transaction g \<notin> fst ` set (m_activationByTransaction s)"
    "act_capabilityCommitment (gr_activation g) \<notin> fst ` set (m_grantByCapability s)"
    "gr_grantId g \<notin> fst ` set (m_grants s)"
    using assms(2) transaction_free [OF assms(1), of g]
    by (auto simp: identity_taken_def Let_def map_of_eq_None_iff)
  have "map fst (m_requests s) = map fst (m_grants s)" using assms(1) by (simp add: indexes_ok_def)
  then have "fst ` set (m_requests s) = fst ` set (m_grants s)" by (metis set_map)
  with k(5) show "gr_grantId g \<notin> fst ` set (m_requests s)" by simp
  with k show ?eq by (simp add: insert_grant_def Let_def update_new map_of_eq_None_iff)
qed

lemma activate_data:
  assumes data: "credit_data sha s" and a: "activation_ok a" and free: "\<not> identity_taken (new_grant sha a) s"
    and x: "map_of (m_offers s) (offer_key (act_offerId a) (act_offerVersion a)) = Some x" "offer_covers x a"
  shows "credit_data sha (insert_grant (new_grant sha a) s)"
proof -
  let ?g = "new_grant sha a" and ?s = "insert_grant (new_grant sha a) s"
  have idx: "indexes_ok s" using data by (simp add: credit_data_def)
  note free = identity_free [OF idx free]
  have "indexes_ok ?s"
    using idx free(2-7) unfolding free(1) by (auto simp: indexes_ok_def simp del: map_map) 
  moreover have "account_ok sha (m_offers s) ?g []"
    using new_grant_ok [OF a, of sha] x by (simp add: account_ok_def units_where_def)
  moreover have reqs: "requests_of ?s k = (if k = gr_grantId ?g then [] else requests_of s k)" for k
    by (simp add: requests_of_def insert_grant_def Let_def)
  moreover have "all_requests ?s = all_requests s"
    unfolding free(1) by (simp add: all_requests_def)
  moreover have same: "m_offers ?s = m_offers s" "m_grants ?s = m_grants s @ [(gr_grantId ?g, ?g)]"
    unfolding free(1) by simp_all
  moreover have "k = gr_grantId g \<and> account_ok sha (m_offers s) g (requests_of ?s k)"
    if "(k, g) \<in> set (m_grants s)" for k g
  proof -
    have "k \<noteq> gr_grantId ?g" using that free(6) by (metis fst_conv imageI)
    then show ?thesis using that data reqs by (auto simp: credit_data_def)
  qed
  moreover have "offers_ok (m_offers s)" "length (all_requests s) \<le> max_hydrated_requests"
    using data by (simp_all add: credit_data_def)
  ultimately show ?thesis
    unfolding credit_data_def same(2) by (simp add: ball_Un split_beta)
qed

theorem credit_event_data: "credit_event sha s t \<Longrightarrow> credit_data sha s \<Longrightarrow> credit_data sha t"
proof (induction rule: credit_event.induct)
  case (begins s gid g rid r)
  then show ?case by (intro request_state_data) (auto simp: held_state_def)
next
  case (unknown s gid g rid r)
  then show ?case by (intro request_state_data) (auto simp: held_state_def)
qed (auto intro: register_data activate_data deactivate_data reserve_data release_data consume_data)

section \<open>Reading requests after an update\<close>

lemma find_request_set_request [simp]:
  "find_request (set_request r s) gid rid =
    (if gid = req_grantId r \<and> rid = req_requestId r then Some r else find_request s gid rid)"
  by (auto simp: find_request_def set_request_def requests_of_def)

lemma find_request_set_grant [simp]: "find_request (set_grant g s) = find_request s"
  by (simp add: find_request_def fun_eq_iff)

lemma find_request_offers [simp]: "find_request (s\<lparr>m_offers := x\<rparr>) = find_request s"
  by (simp add: find_request_def requests_of_def fun_eq_iff)

lemma find_request_insert_grant [simp]:
  "find_request (insert_grant g s) gid rid = (if gid = gr_grantId g then None else find_request s gid rid)"
  by (simp add: find_request_def requests_of_def insert_grant_def Let_def)

lemma grants_simps [simp]:
  "m_grants (set_grant g s) = AList.update (gr_grantId g) g (m_grants s)"
  "m_grants (set_request r s) = m_grants s"
  "m_grants (insert_grant g s) = AList.update (gr_grantId g) g (m_grants s)"
  "m_offers (set_grant g s) = m_offers s" "m_offers (set_request r s) = m_offers s"
  "m_offers (insert_grant g s) = m_offers s"
  by (simp_all add: set_grant_def set_request_def insert_grant_def Let_def)

lemma identities_simps [simp]:
  "m_activations (set_grant g s) = m_activations s" "m_activations (set_request r s) = m_activations s"
  "m_activationByAuthoritySettlement (set_grant g s) = m_activationByAuthoritySettlement s"
  "m_activationByAuthoritySettlement (set_request r s) = m_activationByAuthoritySettlement s"
  "m_activationByTransaction (set_grant g s) = m_activationByTransaction s"
  "m_activationByTransaction (set_request r s) = m_activationByTransaction s"
  "m_grantByCapability (set_grant g s) = m_grantByCapability s"
  "m_grantByCapability (set_request r s) = m_grantByCapability s"
  by (simp_all add: set_grant_def set_request_def)

lemma all_requests_member:
  assumes "credit_data sha s"
  shows "r \<in> set (all_requests s) \<longleftrightarrow> (\<exists>gid rid. find_request s gid rid = Some r)"
proof
  have d: "distinct (map fst (m_requests s))" and keys: "fst ` set (m_requests s) = fst ` set (m_grants s)"
    using assms by (simp_all add: credit_data_def indexes_ok_def flip: set_map)
  show "\<exists>gid rid. find_request s gid rid = Some r" if "r \<in> set (all_requests s)"
  proof -
    from that obtain gid rs rid where m: "(gid, rs) \<in> set (m_requests s)" "(rid, r) \<in> set rs"
      by (auto simp: all_requests_def)
    then have rq: "requests_of s gid = rs" using d by (simp add: requests_of_def)
    from m(1) have "gid \<in> fst ` set (m_grants s)" unfolding keys [symmetric] by force
    then obtain g where "(gid, g) \<in> set (m_grants s)" by auto
    then have "distinct (map fst rs)" using assms rq by (fastforce simp: credit_data_def account_ok_def)
    then show ?thesis using m(2) rq by (metis find_request_of map_of_is_SomeI)
  qed
  show "r \<in> set (all_requests s)" if "\<exists>gid rid. find_request s gid rid = Some r"
  proof -
    from that obtain gid rid where "map_of (requests_of s gid) rid = Some r" by (auto simp: find_request_def)
    moreover from this obtain rs where rs: "map_of (m_requests s) gid = Some rs" "requests_of s gid = rs"
      by (cases "map_of (m_requests s) gid") (auto simp: requests_of_def)
    ultimately have "(rid, r) \<in> set rs" "(gid, rs) \<in> set (m_requests s)" by (auto dest: map_of_SomeD)
    then show ?thesis by (force simp: all_requests_def)
  qed
qed

lemma no_unresolved:
  assumes "credit_data sha s" "\<not> list_ex unresolved (all_requests s)" "find_request s gid rid = Some r"
  shows "\<not> unresolved r"
  using assms all_requests_member [OF assms(1), of r] by (auto simp: list_ex_iff)

section \<open>At most one unresolved execution\<close>

definition single_unresolved :: "credit \<Rightarrow> bool" where
  "single_unresolved s \<longleftrightarrow> (\<forall>gid rid r gid' rid' r'.
     find_request s gid rid = Some r \<and> unresolved r \<and> find_request s gid' rid' = Some r' \<and> unresolved r'
     \<longrightarrow> gid = gid' \<and> rid = rid')"

lemma credit_event_single:
  assumes "credit_event sha s t" "credit_data sha s" "single_unresolved s"
  shows "single_unresolved t"
  using assms
proof (induction rule: credit_event.induct)
  case (begins s gid g rid r)
  then show ?case by (auto simp: single_unresolved_def dest: no_unresolved split: if_splits)
next
  case (unknown s gid g rid r)
  then have "unresolved r" "req_grantId r = gid" "req_requestId r = rid"
    using stored_request(4,5) [OF unknown(4,1,2)] by (auto simp: unresolved_def)
  with unknown show ?case unfolding single_unresolved_def
    by (simp add: unresolved_def split: if_splits) metis
next
  case (release s gid g rid r)
  then show ?case unfolding single_unresolved_def by (auto simp: unresolved_def split: if_splits)
next
  case (consume s gid g rid r x)
  then show ?case unfolding single_unresolved_def by (auto simp: unresolved_def split: if_splits)
next
  case (reserve s i g cost)
  then have "\<not> unresolved (new_request sha g i cost)" by (simp add: unresolved_def)
  with reserve show ?case unfolding single_unresolved_def by (auto split: if_splits)
next
  case (activate a s x)
  then show ?case unfolding single_unresolved_def by (auto split: if_splits)
qed (simp_all add: single_unresolved_def)

section \<open>The order of states\<close>

fun state_leq :: "request_state \<Rightarrow> request_state \<Rightarrow> bool" where
  "state_leq RESERVED _ = True"
| "state_leq EXECUTING st = (st \<noteq> RESERVED)"
| "state_leq OUTCOME_UNKNOWN st = (st \<noteq> RESERVED \<and> st \<noteq> EXECUTING)"
| "state_leq SUCCEEDED st = (st = SUCCEEDED)"
| "state_leq FAILED_RELEASED st = (st = FAILED_RELEASED)"

lemma state_leq_refl [simp]: "state_leq st st"
  by (cases st) simp_all

lemma state_leq_trans: "state_leq a b \<Longrightarrow> state_leq b c \<Longrightarrow> state_leq a c"
  by (cases a; cases b; cases c) simp_all

definition request_leq :: "request \<Rightarrow> request \<Rightarrow> bool" where
  "request_leq r r' \<longleftrightarrow> req_input r' = req_input r \<and> req_requestDigest r' = req_requestDigest r
     \<and> req_offerId r' = req_offerId r \<and> req_offerVersion r' = req_offerVersion r
     \<and> req_costUnits r' = req_costUnits r \<and> state_leq (req_state r) (req_state r')
     \<and> (req_state r = SUCCEEDED \<longrightarrow> req_cachedResult r' = req_cachedResult r)"

definition grant_leq :: "grant \<Rightarrow> grant \<Rightarrow> bool" where
  "grant_leq g g' \<longleftrightarrow> gr_grantId g' = gr_grantId g \<and> gr_activationId g' = gr_activationId g
     \<and> gr_activation g' = gr_activation g \<and> gr_consumedUnits g \<le> gr_consumedUnits g'
     \<and> (gr_lifecycle g = ACTIVE \<or> gr_lifecycle g' = gr_lifecycle g)"

definition submap :: "('k \<times> 'v) list \<Rightarrow> ('k \<times> 'v) list \<Rightarrow> bool" where
  "submap xs ys \<longleftrightarrow> (\<forall>k v. map_of xs k = Some v \<longrightarrow> map_of ys k = Some v)"

definition credit_leq :: "credit \<Rightarrow> credit \<Rightarrow> bool" where
  "credit_leq s t \<longleftrightarrow> submap (m_offers s) (m_offers t) \<and> submap (m_activations s) (m_activations t)
     \<and> submap (m_activationByAuthoritySettlement s) (m_activationByAuthoritySettlement t)
     \<and> submap (m_activationByTransaction s) (m_activationByTransaction t)
     \<and> submap (m_grantByCapability s) (m_grantByCapability t)
     \<and> (\<forall>gid g. map_of (m_grants s) gid = Some g \<longrightarrow>
          (\<exists>g'. map_of (m_grants t) gid = Some g' \<and> grant_leq g g'))
     \<and> (\<forall>gid rid r. find_request s gid rid = Some r \<longrightarrow>
          (\<exists>r'. find_request t gid rid = Some r' \<and> request_leq r r'))"

lemma request_leq_refl [simp]: "request_leq r r" by (simp add: request_leq_def)
lemma grant_leq_refl [simp]: "grant_leq g g" by (simp add: grant_leq_def)
lemma submap_refl [simp]: "submap xs xs" by (simp add: submap_def)

lemma submap_update [simp]: "map_of xs k = None \<Longrightarrow> submap xs (AList.update k v xs)"
  by (auto simp: submap_def)

lemma request_leq_trans: "request_leq a b \<Longrightarrow> request_leq b c \<Longrightarrow> request_leq a c"
  unfolding request_leq_def by (auto intro: state_leq_trans)

lemma grant_leq_trans: "grant_leq a b \<Longrightarrow> grant_leq b c \<Longrightarrow> grant_leq a c"
  by (auto simp: grant_leq_def)

lemma credit_leq_refl: "credit_leq s s"
  by (simp add: credit_leq_def)

lemma submap_trans: "submap xs ys \<Longrightarrow> submap ys zs \<Longrightarrow> submap xs zs"
  by (simp add: submap_def)

lemma credit_leq_grant:
  "credit_leq s t \<Longrightarrow> map_of (m_grants s) gid = Some g \<Longrightarrow>
    \<exists>g'. map_of (m_grants t) gid = Some g' \<and> grant_leq g g'"
  by (simp add: credit_leq_def)

lemma credit_leq_request:
  "credit_leq s t \<Longrightarrow> find_request s gid rid = Some r \<Longrightarrow>
    \<exists>r'. find_request t gid rid = Some r' \<and> request_leq r r'"
  by (simp add: credit_leq_def)

lemma credit_leq_trans:
  assumes "credit_leq s t" "credit_leq t u"
  shows "credit_leq s u"
proof -
  have "\<exists>g'. map_of (m_grants u) gid = Some g' \<and> grant_leq g g'" if "map_of (m_grants s) gid = Some g" for gid g
    using credit_leq_grant [OF assms(1) that] credit_leq_grant [OF assms(2)] grant_leq_trans by blast
  moreover have "\<exists>r'. find_request u gid rid = Some r' \<and> request_leq r r'"
    if "find_request s gid rid = Some r" for gid rid r
    using credit_leq_request [OF assms(1) that] credit_leq_request [OF assms(2)] request_leq_trans by blast
  ultimately show ?thesis
    using assms by (auto simp: credit_leq_def intro: submap_trans)
qed

lemma credit_event_leq:
  assumes "credit_event sha s t" "credit_data sha s"
  shows "credit_leq s t"
  using assms
proof (induction rule: credit_event.induct)
  case (register x k s)
  then show ?case by (simp add: credit_leq_def)
next
  case (activate a s x)
  let ?g = "new_grant sha a"
  have new: "map_of (m_grants s) (gr_grantId ?g) = None" using activate.hyps(2) by (simp add: identity_taken_def Let_def)
  have "map_of (m_requests s) (gr_grantId ?g) = None"
    using identity_free(7) [OF _ activate.hyps(2)] activate.prems
    by (simp add: credit_data_def map_of_eq_None_iff)
  then have "find_request s (gr_grantId ?g) rid = None" for rid
    by (simp add: find_request_def requests_of_def)
  moreover have "map_of (m_activationByTransaction s) (gr_transaction ?g) = None"
    using identity_free(4) [OF _ activate.hyps(2)] activate.prems
    by (simp add: credit_data_def map_of_eq_None_iff)
  ultimately show ?case using new activate.hyps(2)
    by (auto simp: credit_leq_def identity_taken_def Let_def insert_grant_def find_request_def requests_of_def)
next
  case (deactivate s gid g l)
  note stored = credit_data_grant(1) [OF deactivate.prems deactivate.hyps(1)]
  with deactivate show ?case by (auto simp: credit_leq_def grant_leq_def)
next
  case (reserve s i g cost)
  note stored = credit_data_grant(1) [OF reserve.prems reserve.hyps(1)]
  with reserve show ?case by (auto simp: credit_leq_def grant_leq_def)
next
  case (begins s gid g rid r)
  note stored = stored_request [OF begins.prems begins.hyps(1,2)]
  with begins show ?case by (auto simp: credit_leq_def request_leq_def)
next
  case (unknown s gid g rid r)
  note stored = stored_request [OF unknown.prems unknown.hyps(1,2)]
  with unknown show ?case by (auto simp: credit_leq_def request_leq_def)
next
  case (release s gid g rid r)
  note stored = stored_request [OF release.prems release.hyps(1,2)]
  with release show ?case by (auto simp: credit_leq_def request_leq_def grant_leq_def)
next
  case (consume s gid g rid r x)
  note stored = stored_request [OF consume.prems consume.hyps(1,2)]
  with consume show ?case by (auto simp: credit_leq_def request_leq_def grant_leq_def unresolved_def)
qed

end
