(* ===== verification/Service_Credit_Refinement.thy ===== *)
theory Service_Credit_Refinement
  imports Service_Credit_Events
begin

text \<open>
  Every public operation of the service-credit model, called on a state that satisfies the
  invariant, is a sequence of the events of \<open>Service_Credit_Events\<close>: whatever its argument, the
  clock and the pricing function do, and whether it returns or throws. It never throws
  \<open>INVARIANT_VIOLATION\<close>. The machine locales are interpreted on the operations.
\<close>

section \<open>The data of a state\<close>

definition strip :: "credit \<Rightarrow> credit" where
  "strip s = s\<lparr>m_operationActive := False, m_callbackActive := False,
     m_callbackReentryAttempted := False, m_calls := 0\<rparr>"

definition goes :: "(string \<Rightarrow> string) \<Rightarrow> credit \<Rightarrow> credit \<Rightarrow> bool" where
  "goes sha s t \<longleftrightarrow> (credit_event sha)\<^sup>*\<^sup>* (strip s) (strip t)"

lemma strip_simps [simp]:
  "strip (tick s) = strip s" "strip (s\<lparr>m_operationActive := b\<rparr>) = strip s" "strip (strip s) = strip s"
  "strip (set_grant g s) = set_grant g (strip s)" "strip (set_request r s) = set_request r (strip s)"
  "strip (insert_grant g s) = insert_grant g (strip s)"
  "strip (s\<lparr>m_offers := x\<rparr>) = (strip s)\<lparr>m_offers := x\<rparr>"
  by (simp_all add: strip_def tick_def set_grant_def set_request_def insert_grant_def requests_of_def Let_def)

lemma strip_fields [simp]:
  "m_offers (strip s) = m_offers s" "m_activations (strip s) = m_activations s"
  "m_grants (strip s) = m_grants s" "m_requests (strip s) = m_requests s"
  "m_activationByAuthoritySettlement (strip s) = m_activationByAuthoritySettlement s"
  "m_activationByTransaction (strip s) = m_activationByTransaction s"
  "m_grantByCapability (strip s) = m_grantByCapability s"
  "find_request (strip s) = find_request s" "all_requests (strip s) = all_requests s"
  "identity_taken g (strip s) = identity_taken g s"
  by (simp_all add: strip_def find_request_def requests_of_def all_requests_def identity_taken_def
      activation_by_transaction_def fun_eq_iff Let_def)

lemma identity_taken_tick [simp]: "identity_taken g (tick s) = identity_taken g s"
  by (simp add: identity_taken_def activation_by_transaction_def)

lemma credit_data_strip [simp]: "credit_data sha (strip s) = credit_data sha s"
  by (rule credit_data_flagless) (simp add: flagless_def)

lemma strip_relations [simp]:
  "credit_leq (strip s) t = credit_leq s t" "credit_leq s (strip t) = credit_leq s t"
  "single_unresolved (strip s) = single_unresolved s"
  by (simp_all add: credit_leq_def single_unresolved_def)

lemma goes_refl [simp]: "strip s = strip t \<Longrightarrow> goes sha s t"
  by (simp add: goes_def)

lemma goes_event: "goes sha s t \<Longrightarrow> credit_event sha (strip t) (strip u) \<Longrightarrow> goes sha s u"
  by (simp add: goes_def)

lemma goes_event': "strip s = strip s' \<Longrightarrow> credit_event sha (strip s') (strip t) \<Longrightarrow> goes sha s t"
  by (simp add: goes_def)

lemma goes_trans: "goes sha s t \<Longrightarrow> goes sha t u \<Longrightarrow> goes sha s u"
  by (simp add: goes_def)

lemma goes_cong: "strip s = strip s' \<Longrightarrow> strip t = strip t' \<Longrightarrow> goes sha s t = goes sha s' t'"
  by (simp add: goes_def)

lemma goes_strip [simp]:
  "goes sha (tick s) t = goes sha s t" "goes sha s (tick t) = goes sha s t"
  "goes sha (s\<lparr>m_operationActive := b\<rparr>) t = goes sha s t"
  "goes sha s (t\<lparr>m_operationActive := b\<rparr>) = goes sha s t"
  by (simp_all add: goes_def)

text \<open>What the events preserve, a whole sequence of them preserves.\<close>

lemma goes_properties:
  assumes "goes sha s t" "credit_data sha s"
  shows "credit_data sha t" "credit_leq s t" "single_unresolved s \<Longrightarrow> single_unresolved t"
proof -
  have "(credit_event sha)\<^sup>*\<^sup>* x y \<Longrightarrow> credit_data sha x \<Longrightarrow>
      credit_data sha y \<and> credit_leq x y \<and> (single_unresolved x \<longrightarrow> single_unresolved y)" for x y
    by (induction rule: rtranclp_induct)
      (auto intro: credit_leq_refl credit_leq_trans credit_event_leq credit_event_data credit_event_single)
  from this [of "strip s" "strip t"] assms
  show "credit_data sha t" "credit_leq s t" "single_unresolved s \<Longrightarrow> single_unresolved t"
    by (simp_all add: goes_def)
qed

section \<open>Operations are sequences of events\<close>

definition internal_error :: "credit_error \<Rightarrow> bool" where
  "internal_error e \<longleftrightarrow> e = INVARIANT_VIOLATION \<or> e = REENTRANT_OPERATION \<or> e = INVALID_STATE"

definition sound :: "(string \<Rightarrow> string) \<Rightarrow> 'a credit_prog \<Rightarrow> bool" where
  "sound sha p \<longleftrightarrow> (\<forall>s. credit_ok sha s \<longrightarrow>
     wpre p (\<lambda>_ t. idle t \<and> goes sha s t) (\<lambda>e t. \<not> internal_error e \<and> idle t \<and> goes sha s t) s)"

definition sound_body :: "(string \<Rightarrow> string) \<Rightarrow> 'a credit_prog \<Rightarrow> credit \<Rightarrow> bool" where
  "sound_body sha p s \<longleftrightarrow>
     wpre p (\<lambda>_ t. busy t \<and> goes sha s t) (\<lambda>e t. \<not> internal_error e \<and> busy t \<and> goes sha s t) s"

lemma sound_public:
  assumes "\<And>s. busy s \<Longrightarrow> credit_data sha s \<Longrightarrow> sound_body sha body s"
  shows "sound sha (run_public_operation body)"
  unfolding sound_def
proof (intro allI impI)
  fix s assume ok: "credit_ok sha s"
  then have i: "idle s" by (simp add: credit_ok_def)
  let ?s = "s\<lparr>m_operationActive := True\<rparr>"
  have flags: "idle (t\<lparr>m_operationActive := False\<rparr>)" if "busy t" for t
    using that by (simp add: idle_def busy_def)
  have "sound_body sha body ?s"
    using i ok by (intro assms) (simp_all add: busy_def idle_def credit_ok_def)
  then show "wpre (run_public_operation body) (\<lambda>_ t. idle t \<and> goes sha s t)
      (\<lambda>e t. \<not> internal_error e \<and> idle t \<and> goes sha s t) s"
    unfolding sound_body_def wp_public [OF i] by (rule wpre_mono) (use flags in auto)
qed

lemma not_internal [simp]:
  "\<not> internal_error INVALID_INPUT" "\<not> internal_error SERVICE_CREDIT_ORIGINAL_FUNDING_GRANT" "\<not> internal_error INVALID_CLOCK"
  "\<not> internal_error INVALID_COST" "\<not> internal_error OFFER_VERSION_CONFLICT" "\<not> internal_error OFFER_NOT_FOUND"
  "\<not> internal_error OFFER_SCOPE_MISMATCH" "\<not> internal_error GRANT_IDENTITY_CONFLICT"
  "\<not> internal_error GRANT_NOT_FOUND" "\<not> internal_error GRANT_NOT_ACTIVE"
  "\<not> internal_error INVALID_GRANT_TRANSITION" "\<not> internal_error REQUEST_NOT_FOUND"
  "\<not> internal_error REQUEST_ID_CONFLICT" "\<not> internal_error REQUEST_CAPACITY_EXCEEDED"
  "\<not> internal_error UNRESOLVED_EXECUTION" "\<not> internal_error COST_NOT_AUTHORIZED"
  "\<not> internal_error INSUFFICIENT_UNITS" "\<not> internal_error INVALID_REQUEST_TRANSITION"
  "\<not> internal_error RESULT_CONFLICT" "\<not> internal_error RECONCILIATION_CONFLICT"
  by (simp_all add: internal_error_def)

text \<open>Refreshing a grant: nothing happens, or an active grant expires.\<close>

lemma refreshed_spec:
  assumes "busy s" "credit_data sha s" "map_of (m_grants s) gid = Some g" "refreshed env g s = (x, t)"
  shows "busy t" "goes sha s t" "credit_data sha t" "find_request t = find_request s"
    "all_requests t = all_requests s" "m_offers t = m_offers s"
    "x = Some g' \<Longrightarrow> map_of (m_grants t) gid = Some g'"
    "x = Some g' \<Longrightarrow> gr_lifecycle g' = ACTIVE \<Longrightarrow> t = tick s \<and> g' = g \<and> gr_lifecycle g = ACTIVE"
proof -
  let ?e = "g\<lparr>gr_lifecycle := EXPIRED\<rparr>"
  have id: "gr_grantId g = gid" using credit_data_grant(1) [OF assms(2,3)] .
  have cases: "gr_lifecycle g \<noteq> ACTIVE \<and> x = Some g \<and> t = s \<or> gr_lifecycle g = ACTIVE \<and> x = None \<and> t = tick s
      \<or> gr_lifecycle g = ACTIVE \<and> x = Some ?e \<and> t = set_grant ?e (tick s)
      \<or> gr_lifecycle g = ACTIVE \<and> x = Some g \<and> t = tick s"
    using assms(4) by (auto simp: refreshed_def split: if_splits option.splits)
  have ev: "credit_event sha (strip s) (strip (set_grant ?e (tick s)))" if "gr_lifecycle g = ACTIVE"
    using that assms(3) credit_event.deactivate [of "strip s" gid g EXPIRED sha] by simp
  show go: "goes sha s t" using cases ev goes_event' [of s s sha t] by auto
  show "busy t" "find_request t = find_request s" "m_offers t = m_offers s" using cases assms(1) by auto
  show data: "credit_data sha t" using goes_properties(1) [OF go assms(2)] .
  have "all_requests (set_grant ?e (tick s)) = all_requests s" by (simp add: all_requests_def set_grant_def)
  then show "all_requests t = all_requests s" using cases by auto
  show "x = Some g' \<Longrightarrow> map_of (m_grants t) gid = Some g'" using cases assms(3) id by auto
  show "x = Some g' \<Longrightarrow> gr_lifecycle g' = ACTIVE \<Longrightarrow> t = tick s \<and> g' = g \<and> gr_lifecycle g = ACTIVE"
    using cases by auto
qed

lemma wp_assert_counters [wp]:
  "wpre (assert_counters g) Q E s = (if counters_ok g then Q () s else E INVARIANT_VIOLATION s)"
  by (simp add: assert_counters_def wp)

lemma goes_register:
  assumes "normalize_offer v = Some x"
    "map_of (m_offers s) (offer_key (off_offerId x) (off_offerVersion x)) = None"
  shows "goes sha s (s\<lparr>m_offers := AList.update (offer_key (off_offerId x) (off_offerVersion x)) x (m_offers s)\<rparr>)"
  using credit_event.register [OF normalize_offer_ok [OF assms(1)] refl, of "strip s" sha] assms(2)
  by (intro goes_event' [of s s]) simp_all

lemma goes_activate:
  assumes "goes sha s t" "activation_ok a" "\<not> identity_taken (new_grant sha a) t"
    "map_of (m_offers t) (offer_key (act_offerId a) (act_offerVersion a)) = Some x" "offer_covers x a"
  shows "goes sha s (insert_grant (new_grant sha a) t)"
  using credit_event.activate [OF assms(2), of sha "strip t" x] assms(3-5)
  by (intro goes_event [OF assms(1)]) simp_all

lemma goes_revoke:
  assumes "goes sha s t" "map_of (m_grants t) gid = Some g" "gr_lifecycle g = ACTIVE"
  shows "goes sha s (set_grant (g\<lparr>gr_lifecycle := REVOKED\<rparr>) t)"
  using credit_event.deactivate [of "strip t" gid g REVOKED sha] assms(2,3)
  by (intro goes_event [OF assms(1)]) simp_all

text \<open>A refreshed grant, with the state it leaves.\<close>

lemmas refreshed_state = refreshed_spec(1,2,3)

subsection \<open>Offers and grants\<close>

lemma sound_register_offer: "sound sha (register_offer v)"
  unfolding register_offer_def
  by (rule sound_public) (auto simp: sound_body_def wp Let_def goes_register split: option.splits)

lemma sound_reads:
  "sound sha (get_offer v)" "sound sha (get_activation v)" "sound sha (get_request v)"
  unfolding get_offer_def get_activation_def get_request_def
  by (rule sound_public; auto simp: sound_body_def wp split: option.splits)+

lemma capability_grant:
  assumes "credit_data sha s" and "map_of (m_grantByCapability s) c = Some gid"
  shows "\<exists>g. map_of (m_grants s) gid = Some g"
proof -
  have idx: "m_grantByCapability s = map (\<lambda>(_, g). (act_capabilityCommitment (gr_activation g), gr_grantId g)) (m_grants s)"
    using assms(1) by (simp add: credit_data_def indexes_ok_def)
  obtain k g where "(k, g) \<in> set (m_grants s)" "gid = gr_grantId g"
    using map_of_SomeD [OF assms(2)] unfolding idx by auto
  moreover have "k = gr_grantId g" if "(k, g) \<in> set (m_grants s)" for k g
    using that assms(1) by (auto simp: credit_data_def)
  ultimately have "gid \<in> fst ` set (m_grants s)" by force
  then show ?thesis by (metis map_of_eq_None_iff option.exhaust)
qed

lemma sound_read_original: "sound sha (read_original_funding_grant v)"
  unfolding read_original_funding_grant_def
  by (rule sound_public) (auto simp: sound_body_def wp Let_def dest: capability_grant split: option.splits)

lemma sound_export: "sound sha export_state"
  unfolding export_state_def by (rule sound_public) (simp add: sound_body_def wp)

lemma sound_activate: "sound (env_sha env) (activate_grant_from_trusted_record env v)"
  unfolding activate_grant_from_trusted_record_def
  by (rule sound_public)
    (auto simp: sound_body_def wp Let_def new_grant_counters dest!: normalize_activation_ok
      intro!: goes_activate split: option.splits)

lemma sound_get_grant: "sound sha (get_grant env v)"
  unfolding get_grant_def
  by (rule sound_public)
    (auto simp: sound_body_def wp Let_def split: option.splits dest: refreshed_state)

lemma sound_revoke_grant: "sound sha (revoke_grant env v)"
  unfolding revoke_grant_def
  by (rule sound_public)
    (auto simp: sound_body_def wp Let_def split: option.splits dest: refreshed_state intro!: goes_revoke)

subsection \<open>Requests\<close>

lemma goes_expire:
  assumes "goes sha s t" "map_of (m_grants t) gid = Some g" "gr_lifecycle g = ACTIVE"
  shows "goes sha s (set_grant (g\<lparr>gr_lifecycle := EXPIRED\<rparr>) t)"
  using credit_event.deactivate [of "strip t" gid g EXPIRED sha] assms(2,3)
  by (intro goes_event [OF assms(1)]) simp_all

lemma goes_reserve:
  assumes "goes sha s t" "map_of (m_grants t) (rin_grantId i) = Some g" "gr_lifecycle g = ACTIVE"
    "find_request t (rin_grantId i) (rin_requestId i) = None" "request_input_ok i"
    "positive_safe cost" "cost \<le> rin_maxCostUnits i" "cost \<le> gr_availableUnits g"
    "\<not> list_ex unresolved (all_requests t)" "length (all_requests t) < max_hydrated_requests"
  shows "goes sha s (set_request (new_request sha g i cost) (set_grant (hold_units g cost) t))"
  using credit_event.reserve [of "strip t" i g cost sha] assms(2-)
  by (intro goes_event [OF assms(1)]) simp_all

lemma goes_begins:
  assumes "goes sha s t" "map_of (m_grants t) gid = Some g" "find_request t gid rid = Some r"
    "req_state r = RESERVED" "gr_lifecycle g = ACTIVE" "\<not> list_ex unresolved (all_requests t)"
  shows "goes sha s (set_request (r\<lparr>req_state := EXECUTING\<rparr>) t)"
  using credit_event.begins [of "strip t" gid g rid r sha] assms(2-)
  by (intro goes_event [OF assms(1)]) simp_all

lemma goes_unknown:
  assumes "map_of (m_grants s) gid = Some g" "find_request s gid rid = Some r" "req_state r = EXECUTING"
  shows "goes sha s (set_request (r\<lparr>req_state := OUTCOME_UNKNOWN\<rparr>) s)"
  using credit_event.unknown [of "strip s" gid g rid r sha] assms
  by (intro goes_event' [of s s]) simp_all

lemma goes_release:
  assumes "map_of (m_grants s) gid = Some g" "find_request s gid rid = Some r"
    "req_state r = RESERVED \<or> req_state r = OUTCOME_UNKNOWN"
  shows "goes sha s (set_request (r\<lparr>req_state := FAILED_RELEASED\<rparr>)
    (set_grant (release_units g (req_costUnits r)) s))"
  using credit_event.release [of "strip s" gid g rid r sha] assms
  by (intro goes_event' [of s s]) simp_all

lemma goes_consume:
  assumes "map_of (m_grants s) gid = Some g" "find_request s gid rid = Some r" "unresolved r"
    "cached_result_ok x" "res_contentType x = rin_selectedContentType (req_input r)"
  shows "goes sha s (set_request (r\<lparr>req_state := SUCCEEDED, req_cachedResult := Some x\<rparr>)
    (set_grant (consume_units g (req_costUnits r)) s))"
  using credit_event.consume [of "strip s" gid g rid r x sha] assms
  by (intro goes_event' [of s s]) simp_all

lemma settled_counters:
  assumes "credit_data sha s" "map_of (m_grants s) gid = Some g" "find_request s gid rid = Some r" "held_state r"
  shows "counters_ok (release_units g (req_costUnits r))" "counters_ok (consume_units g (req_costUnits r))"
  using stored_request(6,8,9) [OF assms(1-3)] assms(4) by (auto intro: counters_move)

lemma data_length: "credit_data sha s \<Longrightarrow> length (all_requests s) \<le> max_hydrated_requests"
  by (simp add: credit_data_def)

lemma sound_begin_execution: "sound sha (begin_execution env v)"
  unfolding begin_execution_def
  by (rule sound_public)
    (auto simp: sound_body_def wp refreshed_def Let_def data_length credit_data_grant(1)
      intro!: goes_begins goes_expire split: option.splits)

lemma sound_release: "sound sha (release_before_execution v)"
  unfolding release_before_execution_def
  by (rule sound_public)
    (auto simp: sound_body_def wp settled_counters held_state_def goes_release split: option.splits)

lemma sound_complete: "sound sha (complete_execution v)"
  unfolding complete_execution_def
  by (rule sound_public)
    (auto simp: sound_body_def wp settled_counters held_state_def goes_consume unresolved_def
      normalize_cached_result_ok split: option.splits)

lemma sound_mark_unknown: "sound sha (mark_outcome_unknown v)"
  unfolding mark_outcome_unknown_def
  by (rule sound_public)
    (auto simp: sound_body_def wp goes_unknown Let_def split: option.splits)

lemma reconcile_outcome_ok:
  "reconcile_outcome v = Some (st, c) \<Longrightarrow>
    c = None \<and> st = FAILED_RELEASED \<or> (\<exists>x. c = Some x \<and> cached_result_ok x) \<and> st = SUCCEEDED"
  by (auto simp: reconcile_outcome_def normalize_cached_result_ok split: if_splits)

lemma sound_reconcile: "sound sha (reconcile_request v)"
  unfolding reconcile_request_def
  by (rule sound_public)
    (auto simp: sound_body_def wp settled_counters held_state_def goes_consume goes_release unresolved_def
      dest!: reconcile_outcome_ok split: option.splits)


text \<open>What a stored grant gives a reservation: its offer, and room for the counters to move.\<close>

lemma grant_offer:
  assumes "credit_data sha s" "map_of (m_grants s) gid = Some g"
  shows "\<exists>x. map_of (m_offers s) (offer_key (act_offerId (gr_activation g)) (act_offerVersion (gr_activation g))) = Some x
    \<and> offer_covers x (gr_activation g)"
  using credit_data_grant(2) [OF assms] by (simp add: account_ok_def)

lemma cost_value_positive: "cost_value env n context = Some c \<Longrightarrow> positive_safe c"
  by (auto simp: cost_value_def bind_eq_Some_conv dest: as_positive_Some)

lemma hold_counters:
  assumes "credit_data sha s" "map_of (m_grants s) gid = Some g" "cost_value env n context = Some c"
    "c \<le> gr_availableUnits g"
  shows "counters_ok (hold_units g c)"
  using account_counters [OF credit_data_grant(2) [OF assms(1,2)]] cost_value_positive [OF assms(3)] assms(4)
  by (intro counters_move) (auto simp: positive_safe_def)

lemma sound_reserve: "sound (env_sha env) (reserve_request env v)"
  unfolding reserve_request_def
  by (rule sound_public)
    (auto simp: sound_body_def wp refreshed_def Let_def data_length credit_data_grant(1)
      hold_units_def [symmetric] hold_counters
      dest: grant_offer normalize_request_ok cost_value_positive
      intro!: goes_expire goes_reserve split: option.splits)

section \<open>The machine\<close>

lemma sound_step:
  assumes "sound sha p" "credit_ok sha s"
  shows "idle (fst (p s))" "goes sha s (fst (p s))"
proof -
  have "wpre p (\<lambda>_ t. idle t \<and> goes sha s t) (\<lambda>_ t. idle t \<and> goes sha s t) s"
    using assms by (auto simp: sound_def elim: wpre_mono)
  from wpre_state [OF this] show "idle (fst (p s))" "goes sha s (fst (p s))" by auto
qed

lemmas sound_operations = sound_register_offer sound_reads sound_activate sound_get_grant sound_revoke_grant
  sound_reserve sound_begin_execution sound_release sound_complete sound_mark_unknown sound_reconcile
  sound_read_original sound_export

lemma credit_step_goes:
  assumes "credit_ok (env_sha env) s"
  shows "idle (credit_step env x s)" "goes (env_sha env) s (credit_step env x s)"
  using sound_step [OF sound_operations(1) assms] sound_step [OF sound_operations(2) assms]
    sound_step [OF sound_operations(3) assms] sound_step [OF sound_operations(4) assms]
    sound_step [OF sound_operations(5) assms] sound_step [OF sound_operations(6) assms]
    sound_step [OF sound_operations(7) assms] sound_step [OF sound_operations(8) assms]
    sound_step [OF sound_operations(9) assms] sound_step [OF sound_operations(10) assms]
    sound_step [OF sound_operations(11) assms] sound_step [OF sound_operations(12) assms]
    sound_step [OF sound_operations(13) assms] sound_step [OF sound_operations(14) assms]
    sound_step [OF sound_operations(15) assms]
  by (cases x; simp)+

definition credit_inv :: "(string \<Rightarrow> string) \<Rightarrow> credit \<Rightarrow> bool" where
  "credit_inv sha s \<longleftrightarrow> credit_ok sha s \<and> single_unresolved s"

lemma credit_step_inv: "credit_inv (env_sha env) s \<Longrightarrow> credit_inv (env_sha env) (credit_step env x s)"
  using credit_step_goes [of env s x] goes_properties [of "env_sha env" s "credit_step env x s"]
  by (simp add: credit_inv_def credit_ok_def)

interpretation credit: ordered_machine "credit_step env" "credit_inv (env_sha env)" credit_leq
  for env
proof
  show "credit_inv (env_sha env) s \<Longrightarrow> credit_inv (env_sha env) (credit_step env x s)" for s x
    by (rule credit_step_inv)
  show "credit_leq s s" for s by (rule credit_leq_refl)
  show "credit_leq s t \<Longrightarrow> credit_leq t u \<Longrightarrow> credit_leq s u" for s t u by (rule credit_leq_trans)
  show "credit_inv (env_sha env) s \<Longrightarrow> credit_leq s (credit_step env x s)" for s x
    using credit_step_goes [of env s x] goes_properties [of "env_sha env" s "credit_step env x s"]
    by (simp add: credit_inv_def credit_ok_def)
qed

end
