(* ===== verification/Service_Credit_Behaviour.thy ===== *)
theory Service_Credit_Behaviour
  imports Service_Credit_Refinement
begin

text \<open>
  Consequences of the refinement that the properties share: what a whole run keeps and orders,
  what an operation that throws leaves behind, what \<open>beginExecution\<close> and \<open>reserveRequest\<close>
  guarantee when they return.
\<close>

section \<open>Consequences of the refinement\<close>

lemma credit_run_leq:
  "credit_inv (env_sha env) s \<Longrightarrow> credit_leq s (run (credit_step env) ops s)"
  by (rule credit.run_leq)

lemma credit_run_inv:
  "credit_inv (env_sha env) s \<Longrightarrow> credit_inv (env_sha env) (run (credit_step env) ops s)"
  by (rule credit.run_inv)

lemma credit_inv_empty: "credit_inv sha empty_credit"
  by (simp add: credit_inv_def credit_ok_def idle_def empty_credit_def credit_data_def offers_ok_def
      indexes_ok_def all_requests_def single_unresolved_def find_request_def requests_of_def)

text \<open>An error leaves the units and the requests as they were; a grant may have expired.\<close>

definition quiet :: "credit \<Rightarrow> credit \<Rightarrow> bool" where
  "quiet s t \<longleftrightarrow> m_offers t = m_offers s \<and> m_activations t = m_activations s \<and> m_requests t = m_requests s
     \<and> (\<forall>gid. (case (map_of (m_grants s) gid, map_of (m_grants t) gid) of
          (None, None) \<Rightarrow> True
        | (Some g, Some h) \<Rightarrow> h = g \<or> gr_lifecycle g = ACTIVE \<and> h = g\<lparr>gr_lifecycle := EXPIRED\<rparr>
        | _ \<Rightarrow> False))"

fun outcome :: "env \<Rightarrow> credit_op \<Rightarrow> credit \<Rightarrow> credit_error option" where
  "outcome env (RegisterOffer v) s = (case snd (register_offer v s) of Inl e \<Rightarrow> Some e | Inr _ \<Rightarrow> None)"
| "outcome env (GetOffer v) s = (case snd (get_offer v s) of Inl e \<Rightarrow> Some e | Inr _ \<Rightarrow> None)"
| "outcome env (ActivateGrant v) s =
    (case snd (activate_grant_from_trusted_record env v s) of Inl e \<Rightarrow> Some e | Inr _ \<Rightarrow> None)"
| "outcome env (GetActivation v) s = (case snd (get_activation v s) of Inl e \<Rightarrow> Some e | Inr _ \<Rightarrow> None)"
| "outcome env (GetGrant v) s = (case snd (get_grant env v s) of Inl e \<Rightarrow> Some e | Inr _ \<Rightarrow> None)"
| "outcome env (RevokeGrant v) s = (case snd (revoke_grant env v s) of Inl e \<Rightarrow> Some e | Inr _ \<Rightarrow> None)"
| "outcome env (ReserveRequest v) s = (case snd (reserve_request env v s) of Inl e \<Rightarrow> Some e | Inr _ \<Rightarrow> None)"
| "outcome env (GetRequest v) s = (case snd (get_request v s) of Inl e \<Rightarrow> Some e | Inr _ \<Rightarrow> None)"
| "outcome env (BeginExecution v) s = (case snd (begin_execution env v s) of Inl e \<Rightarrow> Some e | Inr _ \<Rightarrow> None)"
| "outcome env (ReleaseBeforeExecution v) s =
    (case snd (release_before_execution v s) of Inl e \<Rightarrow> Some e | Inr _ \<Rightarrow> None)"
| "outcome env (CompleteExecution v) s = (case snd (complete_execution v s) of Inl e \<Rightarrow> Some e | Inr _ \<Rightarrow> None)"
| "outcome env (MarkOutcomeUnknown v) s = (case snd (mark_outcome_unknown v s) of Inl e \<Rightarrow> Some e | Inr _ \<Rightarrow> None)"
| "outcome env (ReconcileRequest v) s = (case snd (reconcile_request v s) of Inl e \<Rightarrow> Some e | Inr _ \<Rightarrow> None)"
| "outcome env (ReadOriginalFundingGrant v) s =
    (case snd (read_original_funding_grant v s) of Inl e \<Rightarrow> Some e | Inr _ \<Rightarrow> None)"
| "outcome env ExportState s = (case snd (export_state s) of Inl e \<Rightarrow> Some e | Inr _ \<Rightarrow> None)"

lemma quiet_simps [simp]:
  "quiet s s" "quiet s (tick t) = quiet s t" "quiet s (t\<lparr>m_operationActive := b\<rparr>) = quiet s t"
  "quiet (s\<lparr>m_operationActive := b\<rparr>) t = quiet s t"
  by (auto simp: quiet_def split: option.splits)

lemma quiet_expire:
  "map_of (m_grants s) gid = Some g \<Longrightarrow> gr_grantId g = gid \<Longrightarrow> gr_lifecycle g = ACTIVE \<Longrightarrow>
    m_grants t = m_grants s \<Longrightarrow> quiet s t \<Longrightarrow> quiet s (set_grant (g\<lparr>gr_lifecycle := EXPIRED\<rparr>) t)"
  by (auto simp: quiet_def set_grant_def split: option.splits)

definition quiet_errors :: "(string \<Rightarrow> string) \<Rightarrow> 'a credit_prog \<Rightarrow> bool" where
  "quiet_errors sha p \<longleftrightarrow> (\<forall>s. credit_ok sha s \<longrightarrow> wpre p (\<lambda>_ _. True) (\<lambda>e t. \<not> internal_error e \<and> quiet s t) s)"

lemma quiet_public:
  assumes "\<And>s. busy s \<Longrightarrow> credit_data sha s \<Longrightarrow> wpre body (\<lambda>_ _. True) (\<lambda>e t. \<not> internal_error e \<and> quiet s t) s"
  shows "quiet_errors sha (run_public_operation body)"
  unfolding quiet_errors_def
proof (intro allI impI)
  fix s assume ok: "credit_ok sha s"
  then have i: "idle s" by (simp add: credit_ok_def)
  have "wpre body (\<lambda>_ _. True) (\<lambda>e t. \<not> internal_error e \<and> quiet (s\<lparr>m_operationActive := True\<rparr>) t)
      (s\<lparr>m_operationActive := True\<rparr>)"
    using i ok by (intro assms) (simp_all add: busy_def idle_def credit_ok_def)
  then show "wpre (run_public_operation body) (\<lambda>_ _. True) (\<lambda>e t. \<not> internal_error e \<and> quiet s t) s"
    unfolding wp_public [OF i] by (rule wpre_mono) auto
qed

lemma quiet_operations:
  "quiet_errors sha (register_offer v)" "quiet_errors sha (get_offer v)"
  "quiet_errors sha (activate_grant_from_trusted_record env v)" "quiet_errors sha (get_activation v)"
  "quiet_errors sha (get_grant env v)" "quiet_errors sha (revoke_grant env v)"
  "quiet_errors sha (reserve_request env v)" "quiet_errors sha (get_request v)"
  "quiet_errors sha (begin_execution env v)" "quiet_errors sha (release_before_execution v)"
  "quiet_errors sha (complete_execution v)" "quiet_errors sha (mark_outcome_unknown v)"
  "quiet_errors sha (reconcile_request v)" "quiet_errors sha (read_original_funding_grant v)"
  "quiet_errors sha export_state"
  unfolding register_offer_def get_offer_def activate_grant_from_trusted_record_def get_activation_def
    get_grant_def revoke_grant_def reserve_request_def get_request_def begin_execution_def
    release_before_execution_def complete_execution_def mark_outcome_unknown_def reconcile_request_def
    read_original_funding_grant_def export_state_def
  by (rule quiet_public; auto simp: wp refreshed_def Let_def data_length credit_data_grant(1)
      hold_units_def [symmetric] hold_counters settled_counters held_state_def new_grant_counters
      dest: grant_offer capability_grant normalize_activation_ok dest!: reconcile_outcome_ok
      intro!: quiet_expire split: option.splits)+

lemma outcome_quiet:
  assumes "credit_ok (env_sha env) s" "outcome env x s = Some e"
  shows "\<not> internal_error e" "quiet s (credit_step env x s)"
proof -
  have q: "\<not> internal_error e \<and> quiet s (fst (p s))" if "quiet_errors (env_sha env) p"
    "(case snd (p s) of Inl e \<Rightarrow> Some e | Inr _ \<Rightarrow> None) = Some e" for p :: "'a credit_prog"
    using that assms(1) by (cases "p s"; cases "snd (p s)") (auto simp: quiet_errors_def wpre_def split: sum.splits)
  show "\<not> internal_error e" "quiet s (credit_step env x s)"
    using assms(2) by (cases x; auto dest!: q [OF quiet_operations(1)] q [OF quiet_operations(2)]
      q [OF quiet_operations(3)] q [OF quiet_operations(4)] q [OF quiet_operations(5)]
      q [OF quiet_operations(6)] q [OF quiet_operations(7)] q [OF quiet_operations(8)]
      q [OF quiet_operations(9)] q [OF quiet_operations(10)] q [OF quiet_operations(11)]
      q [OF quiet_operations(12)] q [OF quiet_operations(13)]
      q [OF quiet_operations(14)] q [OF quiet_operations(15)])+
qed

lemma flag_simps [simp]:
  "find_request (s\<lparr>m_operationActive := b\<rparr>) = find_request s"
  "find_request (s\<lparr>m_calls := n\<rparr>) = find_request s"
  "all_requests (s\<lparr>m_operationActive := b\<rparr>) = all_requests s"
  "identity_taken g (s\<lparr>m_operationActive := b\<rparr>) = identity_taken g s"
  "replayed_grant g (s\<lparr>m_operationActive := b\<rparr>) = replayed_grant g s"
  by (simp_all add: find_request_def requests_of_def all_requests_def identity_taken_def replayed_grant_def
      activation_by_transaction_def fun_eq_iff Let_def split: option.splits)

lemma busy_of_idle [simp]: "idle s \<Longrightarrow> busy (s\<lparr>m_operationActive := True\<rparr>)"
  by (simp add: idle_def busy_def)

section \<open>What the operations guarantee when they return\<close>

lemma begin_spec:
  assumes "credit_ok sha s" "begin_execution env v s = (t, Inr a)" "au_executionAuthorized a"
  shows "\<exists>r. find_request s (req_grantId (au_request a)) (req_requestId (au_request a)) = Some r
      \<and> req_state r = RESERVED"
    "find_request t (req_grantId (au_request a)) (req_requestId (au_request a)) = Some (au_request a)"
    "req_state (au_request a) = EXECUTING" "\<not> list_ex unresolved (all_requests s)"
proof -
  have i: "idle s" and d: "credit_data sha s" using assms(1) by (simp_all add: credit_ok_def)
  have "wpre (begin_execution env v) (\<lambda>a t. au_executionAuthorized a \<longrightarrow>
      (\<exists>r. find_request s (req_grantId (au_request a)) (req_requestId (au_request a)) = Some r
        \<and> req_state r = RESERVED)
      \<and> find_request t (req_grantId (au_request a)) (req_requestId (au_request a)) = Some (au_request a)
      \<and> req_state (au_request a) = EXECUTING \<and> \<not> list_ex unresolved (all_requests s)) (\<lambda>_ _. True) s"
    unfolding begin_execution_def
    using i d by (auto simp: wp refreshed_def Let_def credit_data_grant(1) stored_request(4,5) split: option.splits)
  from wpre_result [OF this assms(2)] assms(3)
  show "\<exists>r. find_request s (req_grantId (au_request a)) (req_requestId (au_request a)) = Some r
      \<and> req_state r = RESERVED"
    "find_request t (req_grantId (au_request a)) (req_requestId (au_request a)) = Some (au_request a)"
    "req_state (au_request a) = EXECUTING" "\<not> list_ex unresolved (all_requests s)" by auto
qed


text \<open>A request that a reservation returns is stored and carries the normalised input.\<close>

lemma reserve_spec:
  assumes "credit_ok sha s" "reserve_request env v s = (t, Inr \<rho>)"
  shows "normalize_request v = Some (req_input (rs_request \<rho>))"
    "find_request t (req_grantId (rs_request \<rho>)) (req_requestId (rs_request \<rho>)) = Some (rs_request \<rho>)"
    "\<exists>g. map_of (m_grants t) (req_grantId (rs_request \<rho>)) = Some g"
    "\<not> rs_replayed \<rho> \<Longrightarrow> \<not> list_ex unresolved (all_requests s)"
proof -
  have i: "idle s" and d: "credit_data sha s" using assms(1) by (simp_all add: credit_ok_def)
  have "wpre (reserve_request env v) (\<lambda>\<rho> t. normalize_request v = Some (req_input (rs_request \<rho>))
      \<and> find_request t (req_grantId (rs_request \<rho>)) (req_requestId (rs_request \<rho>)) = Some (rs_request \<rho>)
      \<and> (\<exists>g. map_of (m_grants t) (req_grantId (rs_request \<rho>)) = Some g)
      \<and> (\<not> rs_replayed \<rho> \<longrightarrow> \<not> list_ex unresolved (all_requests s))) (\<lambda>_ _. True) s"
    unfolding reserve_request_def
    using i d by (auto simp: wp refreshed_def Let_def credit_data_grant(1) split: option.splits)
  from wpre_result [OF this assms(2)]
  show "normalize_request v = Some (req_input (rs_request \<rho>))"
    "find_request t (req_grantId (rs_request \<rho>)) (req_requestId (rs_request \<rho>)) = Some (rs_request \<rho>)"
    "\<exists>g. map_of (m_grants t) (req_grantId (rs_request \<rho>)) = Some g"
    "\<not> rs_replayed \<rho> \<Longrightarrow> \<not> list_ex unresolved (all_requests s)" by auto
qed

text \<open>Asking again for a stored request changes nothing and gives what is stored.\<close>

lemma reserve_replay:
  assumes "idle s" "normalize_request v = Some i" "map_of (m_grants s) (rin_grantId i) = Some g"
    "find_request s (rin_grantId i) (rin_requestId i) = Some r"
  shows "reserve_request env v s = (s, if req_input r = i
    then Inr \<lparr>rs_replayed = True, rs_executionAuthorized = False, rs_request = r\<rparr> else Inl REQUEST_ID_CONFLICT)"
proof -
  have flag: "s\<lparr>m_operationActive := False\<rparr> = s" using assms(1) by (simp add: idle_def)
  then have "wpre (reserve_request env v)
      (\<lambda>v t. t = s \<and> req_input r = i \<and> v = \<lparr>rs_replayed = True, rs_executionAuthorized = False, rs_request = r\<rparr>)
      (\<lambda>e t. t = s \<and> req_input r \<noteq> i \<and> e = REQUEST_ID_CONFLICT) s"
    unfolding reserve_request_def using assms by (auto simp: wp Let_def)
  then show ?thesis by (auto simp: wpre_def split: prod.splits sum.splits)
qed

lemma credit_inv_parts:
  "credit_inv sha s \<Longrightarrow> credit_ok sha s" "credit_inv sha s \<Longrightarrow> idle s" "credit_inv sha s \<Longrightarrow> credit_data sha s"
  by (simp_all add: credit_inv_def credit_ok_def)

lemma stored_unresolved:
  "credit_data sha s \<Longrightarrow> find_request s gid rid = Some r \<Longrightarrow> unresolved r \<Longrightarrow> list_ex unresolved (all_requests s)"
  using no_unresolved by blast

text \<open>The state an operation leaves is a step of the machine.\<close>

lemma step_inv_of:
  assumes "credit_inv (env_sha env) s"
  shows "begin_execution env v s = (t, z1) \<Longrightarrow> credit_inv (env_sha env) t"
    "reserve_request env v s = (t, z2) \<Longrightarrow> credit_inv (env_sha env) t"
    "activate_grant_from_trusted_record env v s = (t, z3) \<Longrightarrow> credit_inv (env_sha env) t"
  using credit_step_inv [OF assms, of "BeginExecution v"] credit_step_inv [OF assms, of "ReserveRequest v"]
    credit_step_inv [OF assms, of "ActivateGrant v"] by simp_all

end
