(* ===== verification/Service_Credit_Scenario.thy ===== *)
theory Service_Credit_Scenario
  imports Service_Credit_Behaviour
begin

text \<open>
  One concrete run of the service-credit model, which the witnesses of the properties use: an
  offer, a grant of ten units that expires at time 5000, a clock that says 1000 and a price of
  three units; the reservation and the execution of one request.
\<close>

section \<open>A scenario\<close>

definition demo_env :: env where
  "demo_env = \<lparr>env_sha = (\<lambda>_. zero_hash),
     env_now = (\<lambda>_. \<lparr>cb_attempts = 0, cb_reply = Returned (num 1000)\<rparr>),
     env_deriveCost = (\<lambda>_ _. \<lparr>cb_attempts = 0, cb_reply = Returned (num 3)\<rparr>)\<rparr>"

definition demo_commitment :: string where
  "demo_commitment = ''sha256:'' @ zero_hash"

definition demo_offer :: offer where
  "demo_offer = \<lparr>off_providerId = ''p'', off_serviceId = ''s'', off_resourceId = ''r'',
     off_resourceBinding = demo_commitment, off_offerId = ''o'', off_offerVersion = 1,
     off_costPolicyId = ''c'', off_fundingPolicyId = ''f'', off_fundingPolicyVersion = 1\<rparr>"

definition demo_activation :: activation where
  "demo_activation = \<lparr>act_activationVersion = 1, act_authorityProfileId = ''a'',
     act_authorityProfileVersion = 1, act_verifierVersion = 1, act_authorityRecordDigest = demo_commitment,
     act_fundingPolicyId = ''f'', act_fundingPolicyVersion = 1, act_sourceSettlementId = ''t'',
     act_transactionId = Plain (''mocktx:'' @ zero_hash), act_transactionArray = None, act_providerId = ''p'',
     act_serviceId = ''s'', act_resourceId = ''r'', act_resourceBinding = demo_commitment,
     act_offerId = ''o'', act_offerVersion = 1, act_holderId = ''h'',
     act_capabilityCommitment = demo_commitment, act_totalUnits = 10, act_expiresAt = 5000,
     act_network = ''zenon:mock'',
     act_chainProfile = \<lparr>ac_chainIdentifier = max_safe_text, ac_genesisMomentumHash = Plain zero_hash\<rparr>,
     act_asset = ''x'', act_amount = ''7'', act_payee = ''y'', act_payer = ''h'',
     act_paymentResourceDigest = demo_commitment, act_paymentRequirementDigest = demo_commitment,
     act_paymentIntentDigest = demo_commitment, act_grantFundingCommitment = demo_commitment,
     act_evidence = None,
     act_confirmationPolicy = \<lparr>cf_policyId = ''mock.momentum-included'', cf_policyVersion = 1,
       cf_minimumConfirmations = 1\<rparr>\<rparr>"

definition demo_grant :: grant where
  "demo_grant = new_grant (env_sha demo_env) demo_activation"

definition demo_request :: request_input where
  "demo_request = \<lparr>rin_grantId = gr_grantId demo_grant, rin_requestId = ''q'', rin_method = ''GET'',
     rin_routeId = ''u'', rin_canonicalBodyDigest = demo_commitment,
     rin_selectedContentType = ''a/b'', rin_maxCostUnits = 4\<rparr>"

definition request_input_json :: "request_input \<Rightarrow> json" where
  "request_input_json r = JObj [(''modelVersion'', JNum 1), (''grantId'', JStr (rin_grantId r)),
     (''requestId'', JStr (rin_requestId r)), (''method'', JStr (rin_method r)),
     (''routeId'', JStr (rin_routeId r)), (''canonicalBodyDigest'', JStr (rin_canonicalBodyDigest r)),
     (''selectedContentType'', JStr (rin_selectedContentType r)), (''maxCostUnits'', JNum (rin_maxCostUnits r))]"

definition reference_json :: "request_input \<Rightarrow> json" where
  "reference_json r = JObj [(''grantId'', JStr (rin_grantId r)), (''requestId'', JStr (rin_requestId r))]"

definition demo_result :: cached_result where
  "demo_result = \<lparr>res_statusCode = 200, res_contentType = ''a/b'', res_resultCode = ''k''\<rparr>"

definition demo_setup :: "credit_op list" where
  "demo_setup = [RegisterOffer (js_of (offer_json demo_offer)),
     ActivateGrant (obj (js_members (activation_members demo_activation)))]"

definition demo_stored :: request where
  "demo_stored = new_request (env_sha demo_env) demo_grant demo_request 3"

definition demo_ready :: credit where
  "demo_ready = (insert_grant demo_grant (empty_credit\<lparr>m_offers := [(offer_key ''o'' 1, demo_offer)]\<rparr>))\<lparr>m_calls := 1\<rparr>"

definition demo_reserved :: credit where
  "demo_reserved = (set_request demo_stored (set_grant (hold_units demo_grant 3) demo_ready))\<lparr>m_calls := 4\<rparr>"

lemma normalize_request_image: "request_input_ok r \<Longrightarrow> normalize_request (js_of (request_input_json r)) = Some r"
  by (cases r) (simp add: normalize_request_def normalize_request_fields_def request_input_json_def
      capture_shape_obj request_keys_def request_input_ok_def)

lemma normalize_reference_image:
  "request_input_ok r \<Longrightarrow> normalize_reference (js_of (reference_json r)) = Some (rin_grantId r, rin_requestId r)"
  by (simp add: normalize_reference_def reference_json_def capture_shape_obj request_input_ok_def)

lemma zero_hash_hex [simp]: "is_hex64 zero_hash"
  by (simp add: zero_hash_def is_hex64_replicate is_hex_def is_digit_def code_def)

lemma demo_commitment_ok [simp]: "commitment_text demo_commitment"
  by (simp add: commitment_text_def demo_commitment_def prefixed_hex64_def after_prefix_def)

lemma demo_chars [simp]:
  "identifier_text ''p''" "identifier_text ''s''" "identifier_text ''r''" "identifier_text ''o''"
  "identifier_text ''c''" "identifier_text ''f''" "identifier_text ''a''" "identifier_text ''t''"
  "identifier_text ''h''" "identifier_text ''x''" "identifier_text ''y''" "identifier_text ''q''"
  "identifier_text ''u''" "identifier_text ''k''" "method_text ''GET''" "content_type ''a/b''"
  by (simp_all add: is_digit_def is_alnum_def is_upper_def is_lower_def code_def
      identifier_text_def method_text_def method_char_def content_type_def media_token_def media_start_def)

lemma demo_transaction_text [simp]: "act_transactionId demo_activation = Plain (''mocktx:'' @ zero_hash)"
  "act_transactionArray demo_activation = None"
  by (simp_all add: demo_activation_def)

lemma demo_records_ok [simp]: "offer_ok demo_offer" "activation_ok demo_activation" "cached_result_ok demo_result"
  by (simp_all add: offer_ok_def demo_offer_def positive_safe_def max_safe_def activation_ok_def
      demo_activation_def mock_activation_def positive_decimal_def is_digit_def code_def
      cached_result_ok_def demo_result_def prefixed_hex64_def after_prefix_def)

lemma demo_ids [simp]: "gr_grantId demo_grant = ''grant_'' @ zero_hash"
  "gr_activationId demo_grant = ''activation_'' @ zero_hash" "gr_activation demo_grant = demo_activation"
  by (simp_all add: demo_grant_def new_grant_def Let_def grant_id_for_def activation_id_for_def
      sha256_commitment_def demo_env_def)

lemma identifier_hash:
  assumes "is_hex64 h"
  shows "identifier_text (''grant_'' @ h)"
proof -
  have "list_all (\<lambda>c. c \<noteq> CHR ''/'') h" "list_all identifier_char h" "length h = 64"
    using assms is_hex_not_separator by (auto simp: is_hex64_def list_all_iff)
  moreover from this(1) have "\<not> has_substring ''://'' (''grant_'' @ h)"
    by (intro no_separator) simp
  ultimately show ?thesis
    by (simp add: identifier_text_def is_alnum_def is_lower_def is_digit_def is_upper_def
        code_def identifier_char_def)
qed

lemma demo_request_ok [simp]: "request_input_ok demo_request"
  using identifier_hash [OF zero_hash_hex]
  by (simp add: request_input_ok_def demo_request_def positive_safe_def max_safe_def)

lemma demo_clock [simp]: "clock_value demo_env n = Some 1000" "cost_value demo_env n x = Some 3"
  by (simp_all add: clock_value_def cost_value_def demo_env_def callback_value_def count_safe_def
      positive_safe_def max_safe_def)

lemma wpre_exact: "wpre p (\<lambda>v t. v = r \<and> t = u) (\<lambda>_ _. False) s \<Longrightarrow> p s = (u, Inr r)"
  by (auto simp: wpre_def split: prod.splits sum.splits)

lemma demo_idle [simp]: "idle empty_credit" "idle (empty_credit\<lparr>m_offers := x\<rparr>)" "idle demo_ready" "idle demo_reserved"
  by (simp_all add: idle_def empty_credit_def demo_ready_def demo_reserved_def insert_grant_def Let_def
      set_request_def set_grant_def)

lemma demo_register: "register_offer (js_of (offer_json demo_offer)) empty_credit =
    (empty_credit\<lparr>m_offers := [(offer_key ''o'' 1, demo_offer)]\<rparr>, Inr demo_offer)"
proof (rule wpre_exact)
  have "off_offerId demo_offer = ''o''" "off_offerVersion demo_offer = 1" by (simp_all add: demo_offer_def)
  then show "wpre (register_offer (js_of (offer_json demo_offer)))
     (\<lambda>v t. v = demo_offer \<and> t = empty_credit\<lparr>m_offers := [(offer_key ''o'' 1, demo_offer)]\<rparr>)
     (\<lambda>_ _. False) empty_credit"
    by (simp add: register_offer_def wp normalize_offer_image Let_def) (simp add: empty_credit_def wp)
qed

lemma demo_activate:
  "activate_grant_from_trusted_record demo_env (obj (js_members (activation_members demo_activation)))
     (empty_credit\<lparr>m_offers := [(offer_key ''o'' 1, demo_offer)]\<rparr>) = (demo_ready, Inr (grant_snapshot demo_grant))"
proof (rule wpre_exact)
  let ?s = "empty_credit\<lparr>m_offers := [(offer_key ''o'' 1, demo_offer)]\<rparr>"
  have g: "new_grant (env_sha demo_env) demo_activation = demo_grant" by (simp add: demo_grant_def)
  have free: "\<not> identity_taken demo_grant (?s\<lparr>m_operationActive := True\<rparr>)"
    by (simp add: identity_taken_def activation_by_transaction_def empty_credit_def Let_def)
  have a: "act_offerId demo_activation = ''o''" "act_offerVersion demo_activation = 1"
    "act_expiresAt demo_activation = 5000" "offer_covers demo_offer demo_activation"
    by (simp_all add: demo_activation_def offer_covers_def demo_offer_def)
  have c: "counters_ok demo_grant" using new_grant_counters [of demo_activation] by (simp add: demo_grant_def)
  show "wpre (activate_grant_from_trusted_record demo_env (obj (js_members (activation_members demo_activation))))
     (\<lambda>v t. v = grant_snapshot demo_grant \<and> t = demo_ready) (\<lambda>_ _. False) ?s"
    using a c free
    by (simp add: activate_grant_from_trusted_record_def wp normalize_activation_image Let_def g)
      (simp add: demo_ready_def insert_grant_def Let_def empty_credit_def tick_def)
qed

lemma demo_run_setup: "run (credit_step demo_env) demo_setup empty_credit = demo_ready"
  by (simp add: demo_setup_def demo_register demo_activate)

lemma demo_ready_fields [simp]:
  "map_of (m_grants demo_ready) gid = (if gid = ''grant_'' @ zero_hash then Some demo_grant else None)"
  "m_offers demo_ready = [(offer_key ''o'' 1, demo_offer)]"
  "find_request demo_ready gid rid = None" "all_requests demo_ready = []"
  by (simp_all add: demo_ready_def empty_credit_def insert_grant_def Let_def find_request_def requests_of_def
      all_requests_def)

lemma demo_grant_fields: "gr_lifecycle demo_grant = ACTIVE" "gr_availableUnits demo_grant = 10"
  "gr_heldUnits demo_grant = 0" "gr_consumedUnits demo_grant = 0"
  by (simp_all add: demo_grant_def) (simp add: demo_activation_def)

lemma demo_request_fields: "rin_grantId demo_request = ''grant_'' @ zero_hash" "rin_requestId demo_request = ''q''"
  "rin_maxCostUnits demo_request = 4" "rin_selectedContentType demo_request = ''a/b''"
  by (simp_all add: demo_request_def)

lemma demo_reserve: "reserve_request demo_env (js_of (request_input_json demo_request)) demo_ready =
  (demo_reserved, Inr \<lparr>rs_replayed = False, rs_executionAuthorized = False, rs_request = demo_stored\<rparr>)"
proof (rule wpre_exact)
  have a: "act_offerId demo_activation = ''o''" "act_offerVersion demo_activation = 1"
    "act_expiresAt demo_activation = 5000" "act_totalUnits demo_activation = 10"
    by (simp_all add: demo_activation_def)
  have held: "demo_grant\<lparr>gr_availableUnits := 7, gr_heldUnits := 3\<rparr> = hold_units demo_grant 3"
    by (simp add: hold_units_def demo_grant_fields)
  have counters: "counters_ok (hold_units demo_grant 3)"
    using a by (simp add: counters_ok_def count_safe_def max_safe_def demo_grant_fields)
  show "wpre (reserve_request demo_env (js_of (request_input_json demo_request)))
     (\<lambda>v t. v = \<lparr>rs_replayed = False, rs_executionAuthorized = False, rs_request = demo_stored\<rparr> \<and> t = demo_reserved)
     (\<lambda>_ _. False) demo_ready"
    using a counters
    by (simp add: reserve_request_def wp normalize_request_image Let_def refreshed_def demo_request_fields
        demo_grant_fields held max_hydrated_requests_def)
      (simp add: demo_reserved_def demo_ready_def demo_stored_def tick_def set_grant_def set_request_def
        requests_of_def insert_grant_def empty_credit_def Let_def)
qed

text \<open>The states the scenario reaches satisfy the invariant.\<close>

lemma demo_inv [simp]: "credit_inv (env_sha demo_env) demo_ready" "credit_inv (env_sha demo_env) demo_reserved"
proof -
  show ready: "credit_inv (env_sha demo_env) demo_ready"
    using credit_run_inv [OF credit_inv_empty, of demo_env demo_setup] by (simp add: demo_run_setup)
  from credit_step_inv [OF this, of "ReserveRequest (js_of (request_input_json demo_request))"]
  show "credit_inv (env_sha demo_env) demo_reserved" by (simp add: demo_reserve)
qed

definition demo_executing :: request where
  "demo_executing = demo_stored\<lparr>req_state := EXECUTING\<rparr>"

definition demo_begun :: credit where
  "demo_begun = (set_request demo_executing demo_reserved)\<lparr>m_calls := 5\<rparr>"

lemma demo_reserved_fields [simp]:
  "map_of (m_grants demo_reserved) gid = (if gid = ''grant_'' @ zero_hash then Some (hold_units demo_grant 3) else None)"
  "find_request demo_reserved gid rid =
    (if gid = ''grant_'' @ zero_hash \<and> rid = ''q'' then Some demo_stored else None)"
  "all_requests demo_reserved = [demo_stored]"
  by (simp_all add: demo_reserved_def demo_ready_def empty_credit_def insert_grant_def Let_def find_request_def
      requests_of_def all_requests_def set_request_def set_grant_def demo_stored_def demo_request_fields)

lemma demo_stored_fields [simp]: "req_input demo_stored = demo_request" "req_state demo_stored = RESERVED"
  "req_costUnits demo_stored = 3"
  by (simp_all add: demo_stored_def)

lemma demo_begin: "begin_execution demo_env (js_of (reference_json demo_request)) demo_reserved =
  (demo_begun, Inr \<lparr>au_executionAuthorized = True, au_request = demo_executing\<rparr>)"
proof (rule wpre_exact)
  have a: "act_expiresAt demo_activation = 5000" by (simp add: demo_activation_def)
  show "wpre (begin_execution demo_env (js_of (reference_json demo_request)))
     (\<lambda>v t. v = \<lparr>au_executionAuthorized = True, au_request = demo_executing\<rparr> \<and> t = demo_begun)
     (\<lambda>_ _. False) demo_reserved"
    using a
    by (simp add: begin_execution_def wp normalize_reference_image Let_def refreshed_def demo_request_fields
        demo_grant_fields max_hydrated_requests_def unresolved_def demo_executing_def [symmetric])
      (simp add: demo_begun_def demo_reserved_def demo_ready_def empty_credit_def insert_grant_def set_grant_def
        tick_def set_request_def requests_of_def demo_executing_def Let_def)
qed

lemma demo_begun_inv [simp]: "credit_inv (env_sha demo_env) demo_begun" "idle demo_begun"
  using credit_step_inv [OF demo_inv(2), of "BeginExecution (js_of (reference_json demo_request))"]
  by (simp_all add: demo_begin credit_inv_def credit_ok_def)

lemma demo_begun_fields [simp]:
  "map_of (m_grants demo_begun) gid = (if gid = ''grant_'' @ zero_hash then Some (hold_units demo_grant 3) else None)"
  "find_request demo_begun gid rid =
    (if gid = ''grant_'' @ zero_hash \<and> rid = ''q'' then Some demo_executing else None)"
  "req_state demo_executing = EXECUTING" "req_input demo_executing = demo_request" "req_costUnits demo_executing = 3"
  by (simp_all add: demo_begun_def demo_executing_def demo_request_fields)

text \<open>The scenario with the request released instead, and with the grant revoked.\<close>

definition demo_released :: credit where
  "demo_released = credit_step demo_env (ReleaseBeforeExecution (js_of (reference_json demo_request))) demo_reserved"

definition demo_revoked :: credit where
  "demo_revoked = credit_step demo_env (RevokeGrant (obj [(''grantId'', VStr (''grant_'' @ zero_hash))])) demo_ready"

lemma demo_released_inv: "credit_inv (env_sha demo_env) demo_released"
  unfolding demo_released_def by (rule credit_step_inv) simp

lemma demo_revoked_inv: "credit_inv (env_sha demo_env) demo_revoked"
  unfolding demo_revoked_def by (rule credit_step_inv) simp

lemma demo_released_find:
  "find_request demo_released (''grant_'' @ zero_hash) ''q'' = Some (demo_stored\<lparr>req_state := FAILED_RELEASED\<rparr>)"
proof -
  have "counters_ok (release_units (hold_units demo_grant 3) 3)"
    using settled_counters(1) [of "env_sha demo_env" demo_reserved "''grant_'' @ zero_hash" "hold_units demo_grant 3" "''q''" demo_stored]
      demo_inv(2) by (simp add: credit_inv_def credit_ok_def held_state_def)
  then have "wpre (release_before_execution (js_of (reference_json demo_request)))
     (\<lambda>_ t. find_request t (''grant_'' @ zero_hash) ''q'' = Some (demo_stored\<lparr>req_state := FAILED_RELEASED\<rparr>))
     (\<lambda>_ _. False) demo_reserved"
    by (simp add: release_before_execution_def wp normalize_reference_image demo_request_fields)
  then show ?thesis by (auto simp: demo_released_def wpre_def split: prod.splits sum.splits)
qed

lemma demo_revoked_grant:
  "map_of (m_grants demo_revoked) (''grant_'' @ zero_hash) = Some (demo_grant\<lparr>gr_lifecycle := REVOKED\<rparr>)"
proof -
  have "gr_expiresAt demo_grant = 5000" by (simp add: demo_activation_def)
  then have "wpre (revoke_grant demo_env (obj [(''grantId'', VStr (''grant_'' @ zero_hash))]))
     (\<lambda>_ t. map_of (m_grants t) (''grant_'' @ zero_hash) = Some (demo_grant\<lparr>gr_lifecycle := REVOKED\<rparr>))
     (\<lambda>_ _. False) demo_ready"
    using identifier_hash [OF zero_hash_hex]
    by (simp add: revoke_grant_def wp capture_shape_obj refreshed_def demo_grant_fields Let_def)
  then show ?thesis by (auto simp: demo_revoked_def wpre_def split: prod.splits sum.splits)
qed

end
