(* ===== verification/Service_Credit_Identity.thy ===== *)
theory Service_Credit_Identity
  imports Service_Credit_Model
begin

text \<open>
  Canonical JSON images determine the records they come from, so the comparisons of
  \<open>activateGrantFromTrustedRecord\<close> (\<open>sameJson\<close>) identify exactly the equal records. Only which array
  a transaction id is leaves no trace in the text.
\<close>

section \<open>Canonical images determine their records\<close>

lemma activation_canonical_member:
  "canonical_member ''activationVersion'' (activation_members a) = Some (JNum (act_activationVersion a))"
  "canonical_member ''authorityProfileId'' (activation_members a) = Some (JStr (act_authorityProfileId a))"
  "canonical_member ''authorityProfileVersion'' (activation_members a) = Some (JNum (act_authorityProfileVersion a))"
  "canonical_member ''verifierVersion'' (activation_members a) = Some (JNum (act_verifierVersion a))"
  "canonical_member ''authorityRecordDigest'' (activation_members a) = Some (JStr (act_authorityRecordDigest a))"
  "canonical_member ''fundingPolicyId'' (activation_members a) = Some (JStr (act_fundingPolicyId a))"
  "canonical_member ''fundingPolicyVersion'' (activation_members a) = Some (JNum (act_fundingPolicyVersion a))"
  "canonical_member ''sourceSettlementId'' (activation_members a) = Some (JStr (act_sourceSettlementId a))"
  "canonical_member ''transactionId'' (activation_members a) = Some (ref_json (act_transactionId a))"
  "canonical_member ''providerId'' (activation_members a) = Some (JStr (act_providerId a))"
  "canonical_member ''serviceId'' (activation_members a) = Some (JStr (act_serviceId a))"
  "canonical_member ''resourceId'' (activation_members a) = Some (JStr (act_resourceId a))"
  "canonical_member ''resourceBinding'' (activation_members a) = Some (JStr (act_resourceBinding a))"
  "canonical_member ''offerId'' (activation_members a) = Some (JStr (act_offerId a))"
  "canonical_member ''offerVersion'' (activation_members a) = Some (JNum (act_offerVersion a))"
  "canonical_member ''holderId'' (activation_members a) = Some (JStr (act_holderId a))"
  "canonical_member ''capabilityCommitment'' (activation_members a) = Some (JStr (act_capabilityCommitment a))"
  "canonical_member ''totalUnits'' (activation_members a) = Some (JNum (act_totalUnits a))"
  "canonical_member ''expiresAt'' (activation_members a) = Some (JNum (act_expiresAt a))"
  "canonical_member ''network'' (activation_members a) = Some (JStr (act_network a))"
  "canonical_member ''chainProfile'' (activation_members a) = Some (sort_keys (activation_chain_json (act_chainProfile a)))"
  "canonical_member ''asset'' (activation_members a) = Some (JStr (act_asset a))"
  "canonical_member ''amount'' (activation_members a) = Some (JStr (act_amount a))"
  "canonical_member ''payee'' (activation_members a) = Some (JStr (act_payee a))"
  "canonical_member ''payer'' (activation_members a) = Some (JStr (act_payer a))"
  "canonical_member ''paymentResourceDigest'' (activation_members a) = Some (JStr (act_paymentResourceDigest a))"
  "canonical_member ''paymentRequirementDigest'' (activation_members a) = Some (JStr (act_paymentRequirementDigest a))"
  "canonical_member ''paymentIntentDigest'' (activation_members a) = Some (JStr (act_paymentIntentDigest a))"
  "canonical_member ''grantFundingCommitment'' (activation_members a) = Some (JStr (act_grantFundingCommitment a))"
  "canonical_member ''confirmationPolicy'' (activation_members a) = Some (sort_keys (confirmation_policy_json (act_confirmationPolicy a)))"
  by (simp_all add: activation_members_def evidence_members_def split: option.splits)

lemma activation_canonical_evidence:
  "canonical_member ''evidenceVersion'' (activation_members a) = map_option (\<lambda>(n, d). JNum n) (act_evidence a)"
  "canonical_member ''inclusionAuthorizationDigest'' (activation_members a) = map_option (\<lambda>(n, d). JStr d) (act_evidence a)"
  by (simp_all add: activation_members_def evidence_members_def split: option.splits)

lemma evidence_eq:
  "map_option (\<lambda>(n, d). JNum n) e = map_option (\<lambda>(n, d). JNum n) e' \<Longrightarrow>
   map_option (\<lambda>(n, d). JStr d) e = map_option (\<lambda>(n, d). JStr d) e' \<Longrightarrow> e = e'"
  by (cases e; cases e') auto

lemma activation_members_distinct: "distinct (map fst (activation_members a))"
  by (cases "act_evidence a") (simp_all add: activation_members_def evidence_members_def split_beta)

lemma activation_record_members:
  assumes "same_json (activation_record_json i a) (activation_record_json i' b)" and "k \<noteq> ''activationId''"
  shows "canonical_member k (activation_members a) = canonical_member k (activation_members b)"
proof -
  have eq: "sort_keys (JObj ((''activationId'', JStr i) # activation_members a)) =
      sort_keys (JObj ((''activationId'', JStr i') # activation_members b))"
    using assms(1) by (simp only: same_json_iff activation_record_json_def)
  have fresh: "''activationId'' \<notin> fst ` set (activation_members x)" for x
    by (auto simp: activation_members_def evidence_members_def split: option.splits)
  show ?thesis
    using same_members [OF eq, of k] assms(2) fresh activation_members_distinct by simp
qed

lemma activation_record_transaction:
  assumes "same_json (activation_record_json i a) (activation_record_json i' b)"
  shows "act_transactionId a = act_transactionId b"
  using activation_record_members [OF assms, of "''transactionId''"] by (simp add: activation_canonical_member)

lemma activation_record_inject:
  assumes "same_json (activation_record_json i a) (activation_record_json i' b)"
    and "act_transactionArray a = act_transactionArray b"
  shows "a = b"
proof -
  note m = activation_record_members [OF assms(1)]
  show ?thesis
    using m [of "''activationVersion''"]
      m [of "''authorityProfileId''"]
      m [of "''authorityProfileVersion''"]
      m [of "''verifierVersion''"]
      m [of "''authorityRecordDigest''"]
      m [of "''fundingPolicyId''"]
      m [of "''fundingPolicyVersion''"]
      m [of "''sourceSettlementId''"]
      m [of "''transactionId''"]
      m [of "''providerId''"]
      m [of "''serviceId''"]
      m [of "''resourceId''"]
      m [of "''resourceBinding''"]
      m [of "''offerId''"]
      m [of "''offerVersion''"]
      m [of "''holderId''"]
      m [of "''capabilityCommitment''"]
      m [of "''totalUnits''"]
      m [of "''expiresAt''"]
      m [of "''network''"]
      m [of "''chainProfile''"]
      m [of "''asset''"]
      m [of "''amount''"]
      m [of "''payee''"]
      m [of "''payer''"]
      m [of "''paymentResourceDigest''"]
      m [of "''paymentRequirementDigest''"]
      m [of "''paymentIntentDigest''"]
      m [of "''grantFundingCommitment''"]
      m [of "''confirmationPolicy''"]
      evidence_eq [of "act_evidence a" "act_evidence b"] m [of "''evidenceVersion''"]
      m [of "''inclusionAuthorizationDigest''"] assms(2)
    by (intro activation.equality, simp_all only: activation_canonical_member activation_canonical_evidence list.inject char.inject
        list.distinct simp_thms option.inject json.inject ref_json_inject activation_chain_canonical_inject
        confirmation_policy_canonical_inject unit_eq, simp)
qed

end
