(* ===== verification/Service_Credit_Properties.thy ===== *)
theory Service_Credit_Properties
  imports Service_Credit_Scenario Service_Credit_Identity
begin

text \<open>
  The properties of the service-credit model, over all sequences of its public operations, with
  their witnesses in the scenario of \<open>Service_Credit_Scenario\<close>.
\<close>

section \<open>The admission decision\<close>

definition unexpired_at :: "env \<Rightarrow> nat \<Rightarrow> grant \<Rightarrow> bool" where
  "unexpired_at env n g = (case clock_value env n of None \<Rightarrow> False | Some now \<Rightarrow> now < gr_expiresAt g)"

definition admitted :: "env \<Rightarrow> credit \<Rightarrow> request_input \<Rightarrow> (grant \<times> int) option" where
  "admitted env s i = (case map_of (m_grants s) (rin_grantId i) of None \<Rightarrow> None
   | Some g \<Rightarrow>
     if gr_lifecycle g = ACTIVE \<and> \<not> list_ex unresolved (all_requests s)
       \<and> length (all_requests s) < max_hydrated_requests \<and> unexpired_at env (m_calls s) g
     then case map_of (m_offers s) (offer_key (act_offerId (gr_activation g)) (act_offerVersion (gr_activation g))) of
         None \<Rightarrow> None
       | Some x \<Rightarrow> (case cost_value env (Suc (m_calls s)) (cost_context x g i) of None \<Rightarrow> None
         | Some c \<Rightarrow> if c \<le> rin_maxCostUnits i \<and> c \<le> gr_availableUnits g
             \<and> unexpired_at env (Suc (Suc (m_calls s))) g then Some (g, c) else None)
     else None)"

lemma calls_tick [simp]: "m_calls (tick s) = Suc (m_calls s)" "m_calls (s\<lparr>m_operationActive := b\<rparr>) = m_calls s"
  by (simp_all add: tick_def)

lemma reserve_admission:
  assumes "credit_inv (env_sha env) s" "normalize_request v = Some i"
    "find_request s (rin_grantId i) (rin_requestId i) = None"
  shows "wpre (reserve_request env v)
    (\<lambda>\<rho> t. case admitted env s i of None \<Rightarrow> False | Some (g, c) \<Rightarrow>
       \<rho> = \<lparr>rs_replayed = False, rs_executionAuthorized = False, rs_request = new_request (env_sha env) g i c\<rparr>
       \<and> strip t = set_request (new_request (env_sha env) g i c) (set_grant (hold_units g c) (strip s)))
    (\<lambda>_ _. admitted env s i = None) s"
proof -
  note ok = credit_inv_parts [OF assms(1)]
  show ?thesis
    unfolding reserve_request_def
    using ok(2,3) assms(2,3)
    by (auto simp: wp refreshed_def Let_def credit_data_grant(1) admitted_def unexpired_at_def data_length
        hold_units_def [symmetric] hold_counters split: option.splits)
qed

section \<open>Activations\<close>

text \<open>A grant the activation call returns has all its identities bound.\<close>

definition activation_bound :: "activation \<Rightarrow> grant \<Rightarrow> credit \<Rightarrow> bool" where
  "activation_bound a g s \<longleftrightarrow>
     map_of (m_activations s) (gr_activationId g) = Some a
     \<and> map_of (m_activationByAuthoritySettlement s) (authority_settlement_key a) = Some (gr_activationId g)
     \<and> map_of (m_activationByTransaction s) (transaction_key (gr_activationId g) a) = Some (gr_activationId g)
     \<and> map_of (m_grantByCapability s) (act_capabilityCommitment a) = Some (gr_grantId g)
     \<and> (\<exists>h. map_of (m_grants s) (gr_grantId g) = Some h \<and> gr_activation h = a
          \<and> gr_activationId h = gr_activationId g \<and> gr_grantId h = gr_grantId g)"

lemma activation_bound_mono: "credit_leq s t \<Longrightarrow> activation_bound a g s \<Longrightarrow> activation_bound a g t"
  unfolding activation_bound_def
  by (auto simp: credit_leq_def submap_def grant_leq_def) metis

lemma activation_of_id:
  assumes "credit_data sha s" "(k, g) \<in> set (m_grants s)" "(k', h) \<in> set (m_grants s)"
    "gr_activationId g = gr_activationId h"
  shows "gr_activation g = gr_activation h"
proof -
  have idx: "m_activations s = map (\<lambda>(_, g). (gr_activationId g, gr_activation g)) (m_grants s)"
    using assms(1) by (simp add: credit_data_def indexes_ok_def)
  have dist: "distinct (map fst (m_activations s))"
    using assms(1) unfolding credit_data_def indexes_ok_def by (elim conjE)
  have "(gr_activationId g, gr_activation g) \<in> set (m_activations s)"
    "(gr_activationId g, gr_activation h) \<in> set (m_activations s)"
    unfolding idx using assms(2-4) by force+
  with dist show ?thesis by (metis map_of_eq_iff option.inject)
qed

text \<open>The array under which a replayed record is found is the one the stored record holds.\<close>

lemma replayed_array:
  assumes d: "credit_data sha s" and h: "map_of (m_grants s) k = Some h" and a: "activation_ok a"
    and same: "act_transactionId (gr_activation h) = act_transactionId a" "gr_activationId h = gr_activationId g"
    and g: "gr_activation g = a" "activation_by_transaction g s = Some (gr_activationId g)"
  shows "act_transactionArray (gr_activation h) = act_transactionArray a"
proof (cases "act_transactionId a")
  case (Plain t)
  have "activation_ok (gr_activation h)" using credit_data_grant(2) [OF d h] by (simp add: account_ok_def grant_ok_def)
  with Plain a same(1) show ?thesis by (simp add: activation_ok_def)
next
  case (Boxed r)
  then obtain n where n: "act_transactionArray a = Some n"
    and key: "map_of (m_activationByTransaction s) (ArrayKey n) = Some (gr_activationId g)"
    using g by (auto simp: activation_by_transaction_def findable_transaction_def transaction_key_def split: if_splits)
  have idx: "m_activationByTransaction s = map (\<lambda>(_, g). (gr_transaction g, gr_activationId g)) (m_grants s)"
    using d by (simp add: credit_data_def indexes_ok_def)
  from map_of_SomeD [OF key] obtain k' x where x: "(k', x) \<in> set (m_grants s)"
    "ArrayKey n = gr_transaction x" "gr_activationId x = gr_activationId g"
    unfolding idx by auto
  from activation_of_id [OF d x(1) map_of_SomeD [OF h]] x(3) same(2) have "gr_activation x = gr_activation h" by simp
  with x(2) n show ?thesis by (simp add: transaction_key_def split: text_ref.splits option.splits)
qed

lemma replayed_grant_bound:
  assumes "credit_inv sha s" "replayed_grant (new_grant sha a) s = Some h" "activation_ok a"
  shows "activation_bound a (new_grant sha a) s"
proof -
  let ?g = "new_grant sha a"
  from assms(2) obtain x where x: "map_of (m_activations s) (gr_activationId ?g) = Some x"
      "map_of (m_grants s) (gr_grantId ?g) = Some h" "gr_activationId h = gr_activationId ?g"
    and same: "same_json (activation_record_json (gr_activationId ?g) x) (activation_record_json (gr_activationId ?g) a)"
    and maps: "map_of (m_activationByAuthoritySettlement s) (authority_settlement_key a) = Some (gr_activationId ?g)"
      "activation_by_transaction ?g s = Some (gr_activationId ?g)"
      "map_of (m_grantByCapability s) (act_capabilityCommitment a) = Some (gr_grantId ?g)"
    by (auto simp: replayed_grant_def Let_def split: option.splits if_splits)
  note d = credit_inv_parts(3) [OF assms(1)]
  have id: "gr_grantId h = gr_grantId ?g" using credit_data_grant(1) [OF d x(2)] .
  have idx: "m_activations s = map (\<lambda>(_, g). (gr_activationId g, gr_activation g)) (m_grants s)"
    using d by (simp add: credit_data_def indexes_ok_def)
  have dist: "distinct (map fst (m_activations s))" using d unfolding credit_data_def indexes_ok_def by (elim conjE)
  have "(gr_activationId h, gr_activation h) \<in> set (m_activations s)"
    unfolding idx using map_of_SomeD [OF x(2)] by force
  then have h: "gr_activation h = x" using x(1,3) dist by (metis map_of_eq_iff option.inject)
  have "act_transactionArray x = act_transactionArray a"
    using replayed_array [OF d x(2) assms(3), of ?g] activation_record_transaction [OF same] x(3) maps(2) h by simp
  then have xa: "x = a" using activation_record_inject [OF same] by simp
  moreover have "map_of (m_activationByTransaction s) (gr_transaction ?g) = Some (gr_activationId ?g)"
    using maps(2) by (simp add: activation_by_transaction_def split: if_splits)
  ultimately show ?thesis using x maps h id by (auto simp: activation_bound_def)
qed

lemma insert_grant_bound: "activation_bound a (new_grant sha a) (insert_grant (new_grant sha a) s)"
  by (simp add: activation_bound_def insert_grant_def Let_def)

lemma activation_bound_strip [simp]:
  "activation_bound a g (tick s) = activation_bound a g s"
  "activation_bound a g (s\<lparr>m_operationActive := b\<rparr>) = activation_bound a g s"
  by (simp_all add: activation_bound_def)

lemma activate_bound:
  assumes "credit_inv (env_sha env) s" "activate_grant_from_trusted_record env v s = (t, Inr w)"
    "normalize_activation v = Some a"
  shows "activation_bound a (new_grant (env_sha env) a) t"
proof -
  note ok = credit_inv_parts [OF assms(1)]
  have "wpre (activate_grant_from_trusted_record env v)
      (\<lambda>_ t. activation_bound a (new_grant (env_sha env) a) t) (\<lambda>_ _. True) s"
    unfolding activate_grant_from_trusted_record_def using ok(2) assms(3)
    by (auto simp: wp Let_def replayed_grant_bound [OF assms(1) _ normalize_activation_ok] insert_grant_bound
        split: option.splits)
  from wpre_result [OF this assms(2)] show ?thesis .
qed

text \<open>
  Two records name one transaction for the map of transactions: by the same text, or by the very
  same array.
\<close>

definition same_transaction :: "activation \<Rightarrow> activation \<Rightarrow> bool" where
  "same_transaction a b \<longleftrightarrow> (case (act_transactionId a, act_transactionId b) of
     (Plain s, Plain s') \<Rightarrow> s = s'
   | (Boxed r, Boxed r') \<Rightarrow> act_transactionArray a \<noteq> None \<and> act_transactionArray a = act_transactionArray b
   | _ \<Rightarrow> False)"

lemma same_transaction_key:
  "same_transaction a b \<Longrightarrow> findable_transaction b \<and> transaction_key i a = transaction_key j b"
  by (cases "act_transactionArray b")
    (auto simp: same_transaction_def findable_transaction_def transaction_key_def split: text_ref.splits)

text \<open>
  An array of the caller's own is compared with nothing: whatever transaction its text names, only
  the other identities decide whether the record is new.
\<close>

lemma array_transaction_unchecked:
  assumes "act_transactionId (gr_activation g) = Boxed r" "act_transactionArray (gr_activation g) = None"
  shows "identity_taken g s \<longleftrightarrow> map_of (m_activations s) (gr_activationId g) \<noteq> None
    \<or> map_of (m_activationByAuthoritySettlement s) (authority_settlement_key (gr_activation g)) \<noteq> None
    \<or> map_of (m_grantByCapability s) (act_capabilityCommitment (gr_activation g)) \<noteq> None
    \<or> map_of (m_grants s) (gr_grantId g) \<noteq> None"
  using assms by (simp add: identity_taken_def activation_by_transaction_def findable_transaction_def Let_def)

text \<open>Some identity of an activation is one that \<open>a\<close> has bound.\<close>

definition shares_identity :: "activation \<Rightarrow> activation \<Rightarrow> bool" where
  "shares_identity a b \<longleftrightarrow> same_transaction a b
     \<or> authority_settlement_key a = authority_settlement_key b
     \<or> act_capabilityCommitment a = act_capabilityCommitment b"

lemma activate_again:
  assumes "credit_inv (env_sha env) s" "activation_bound a (new_grant (env_sha env) a) s"
    "normalize_activation v = Some b" "shares_identity a b"
  shows "activate_grant_from_trusted_record env v s = (s, if b = a \<and> findable_transaction a
    then Inr (grant_snapshot (the (map_of (m_grants s) (gr_grantId (new_grant (env_sha env) a)))))
    else Inl GRANT_IDENTITY_CONFLICT)"
proof -
  let ?g = "new_grant (env_sha env)"
  note ok = credit_inv_parts [OF assms(1)]
  have taken: "identity_taken (?g b) s"
    using assms(2,4) same_transaction_key [of a b]
    by (auto simp: identity_taken_def activation_by_transaction_def activation_bound_def shares_identity_def Let_def)
      (metis option.distinct(1))
  have flag: "s\<lparr>m_operationActive := False\<rparr> = s" using ok(2) by (simp add: idle_def)
  have "replayed_grant (?g b) s = (if b = a \<and> findable_transaction a then map_of (m_grants s) (gr_grantId (?g a)) else None)"
  proof (cases "b = a")
    case True
    then show ?thesis using assms(2)
      by (auto simp: replayed_grant_def activation_by_transaction_def activation_bound_def Let_def)
  next
    case False
    have "False" if "replayed_grant (?g b) s = Some h" for h
    proof -
      have b: "activation_bound b (?g b) s" by (rule replayed_grant_bound [OF assms(1) that normalize_activation_ok [OF assms(3)]])
      consider "gr_activationId (?g a) = gr_activationId (?g b)" | "gr_grantId (?g a) = gr_grantId (?g b)"
        using b assms(2,4) same_transaction_key [of a b "gr_activationId (?g a)" "gr_activationId (?g b)"]
        unfolding activation_bound_def shares_identity_def by (metis option.inject)
      then show False using b assms(2) False unfolding activation_bound_def by cases (metis option.inject)+
    qed
    then have "replayed_grant (?g b) s = None" by (cases "replayed_grant (?g b) s") auto
    with False show ?thesis by simp
  qed
  moreover obtain h where "map_of (m_grants s) (gr_grantId (?g a)) = Some h"
    using assms(2) by (auto simp: activation_bound_def)
  ultimately have "wpre (activate_grant_from_trusted_record env v)
    (\<lambda>w t. t = s \<and> (b = a \<and> findable_transaction a) \<and> w = grant_snapshot h)
    (\<lambda>e t. t = s \<and> \<not> (b = a \<and> findable_transaction a) \<and> e = GRANT_IDENTITY_CONFLICT) s"
    unfolding activate_grant_from_trusted_record_def
    using taken flag ok(2) assms(3) by (cases "b = a \<and> findable_transaction a") (simp_all add: wp Let_def)
  then show ?thesis
    using \<open>map_of (m_grants s) (gr_grantId (?g a)) = Some h\<close>
    by (auto simp: wpre_def split: prod.splits sum.splits)
qed

section \<open>The lookup of an original payment\<close>

text \<open>
  \<open>readOriginalFundingGrant\<close> leaves the state alone and answers with the one grant whose activation
  carries the whole identity asked for; the two indexes lead to it whenever there is one.
\<close>

lemma matching_grant_indexed:
  assumes "credit_data sha s" "map_of (m_grants s) k = Some g" "matches_original_funding q g"
  shows "map_of (m_activationByTransaction s) (TextKey (fi_transactionId q)) = Some (gr_activationId g)"
    "map_of (m_grantByCapability s) (fi_capabilityCommitment q) = Some k"
proof -
  have m: "(k, g) \<in> set (m_grants s)" using assms(2) by (rule map_of_SomeD)
  have id: "gr_grantId g = k" using credit_data_grant(1) [OF assms(1,2)] .
  have q: "gr_transaction g = TextKey (fi_transactionId q)"
    "act_capabilityCommitment (gr_activation g) = fi_capabilityCommitment q"
    using assms(3) by (simp_all add: matches_original_funding_def transaction_key_def Let_def)
  have idx: "m_activationByTransaction s = map (\<lambda>(_, g). (gr_transaction g, gr_activationId g)) (m_grants s)"
    "m_grantByCapability s = map (\<lambda>(_, g). (act_capabilityCommitment (gr_activation g), gr_grantId g)) (m_grants s)"
    using assms(1) by (simp_all add: credit_data_def indexes_ok_def)
  have d: "distinct (map fst (m_activationByTransaction s))" "distinct (map fst (m_grantByCapability s))"
    using assms(1) unfolding credit_data_def indexes_ok_def by blast+
  have "(TextKey (fi_transactionId q), gr_activationId g) \<in> set (m_activationByTransaction s)"
    unfolding idx(1) using m q(1) by force
  then show "map_of (m_activationByTransaction s) (TextKey (fi_transactionId q)) = Some (gr_activationId g)"
    using d(1) by simp
  have "(fi_capabilityCommitment q, k) \<in> set (m_grantByCapability s)"
    unfolding idx(2) using m q(2) id by force
  then show "map_of (m_grantByCapability s) (fi_capabilityCommitment q) = Some k" using d(2) by simp
qed

lemma read_original_recorded:
  assumes "credit_inv sha s" "capture_funding_identity v = Some q" "map_of (m_grants s) k = Some g"
    "matches_original_funding q g" "retained_grant_ok g"
  shows "\<exists>answer. original_funding_result q (Some g) = Some answer \<and> read_original_funding_grant v s = (s, Inr answer)"
proof -
  note ok = credit_inv_parts [OF assms(1)]
  obtain answer where answer: "original_funding_result q (Some g) = Some answer"
    using assms(4,5) by (simp add: original_funding_result_def retained_grant_def)
  have flag: "s\<lparr>m_operationActive := False\<rparr> = s" using ok(2) by (simp add: idle_def)
  have "wpre (read_original_funding_grant v) (\<lambda>r t. r = answer \<and> t = s) (\<lambda>_ _. False) s"
    unfolding read_original_funding_grant_def using ok(2) assms matching_grant_indexed [OF ok(3) assms(3,4)] answer flag
    by (simp add: wp Let_def)
  then show ?thesis using answer by (auto simp: wpre_def split: prod.splits sum.splits)
qed

lemma read_original_not_recorded:
  assumes "credit_inv sha s" "capture_funding_identity v = Some q"
    "\<And>k g. map_of (m_grants s) k = Some g \<Longrightarrow> \<not> matches_original_funding q g"
  shows "\<exists>answer. original_funding_result q None = Some answer \<and> read_original_funding_grant v s = (s, Inr answer)"
proof -
  note ok = credit_inv_parts [OF assms(1)]
  obtain answer where answer: "original_funding_result q None = Some answer"
    by (simp add: original_funding_result_def retained_grant_def)
  have flag: "s\<lparr>m_operationActive := False\<rparr> = s" using ok(2) by (simp add: idle_def)
  have stored: "map_of (m_grantByCapability s) c = Some gid \<Longrightarrow> map_of (m_grants s) gid \<noteq> None" for c gid
    using capability_grant [OF ok(3)] by fastforce
  have "wpre (read_original_funding_grant v) (\<lambda>r t. r = answer \<and> t = s) (\<lambda>_ _. False) s"
    unfolding read_original_funding_grant_def using ok(2) assms(2,3) answer flag
    by (auto simp: wp Let_def dest: stored split: option.splits)
  then show ?thesis using answer by (auto simp: wpre_def split: prod.splits sum.splits)
qed

section \<open>Properties\<close>

text \<open>C1: Whatever public operations run, in whatever order, with whatever arguments, clock and
  pricing function, failing or not: the invariant of the service-credit state holds (units are
  conserved, held and consumed units are the costs of the open and the succeeded requests, the
  identity indexes agree with the grants, at most one execution is unresolved).\<close>

theorem credit_run_invariant: "credit_inv (env_sha env) (run (credit_step env) ops empty_credit)"
  by (rule credit_run_inv) (rule credit_inv_empty)

text \<open>C2: Refinement: every public operation, from every state with the invariant, is a sequence
  of the ten abstract events on the data of the state.\<close>

theorem credit_step_refines:
  assumes "credit_inv (env_sha env) s"
  shows "(credit_event (env_sha env))\<^sup>*\<^sup>* (strip s) (strip (credit_step env x s))"
  using credit_step_goes [of env s x] assms by (simp add: credit_inv_def goes_def)

theorem credit_step_refines_witness:
  "(credit_event (env_sha demo_env))\<^sup>*\<^sup>* (strip demo_ready) (strip demo_reserved)"
  using credit_step_refines [of demo_env demo_ready "ReserveRequest (js_of (request_input_json demo_request))"]
  by (simp add: demo_reserve)

text \<open>C5: Units are never created, lost or negative: in every reachable state every grant has
  \<open>total = available + held + consumed\<close> with all counters safe and non-negative, \<open>held\<close> is the sum
  of the costs of its reserved, executing and outcome-unknown requests and \<open>consumed\<close> the sum of
  the costs of its succeeded ones.\<close>

theorem credit_units_conserved:
  assumes "map_of (m_grants (run (credit_step env) ops empty_credit)) gid = Some g"
  shows "gr_totalUnits g = gr_availableUnits g + gr_heldUnits g + gr_consumedUnits g
    \<and> 0 \<le> gr_availableUnits g \<and> 0 \<le> gr_heldUnits g \<and> 0 \<le> gr_consumedUnits g
    \<and> gr_heldUnits g = units_where held_state (requests_of (run (credit_step env) ops empty_credit) gid)
    \<and> gr_consumedUnits g = units_where succeeded (requests_of (run (credit_step env) ops empty_credit) gid)"
  using credit_data_grant(2) [OF _ assms] credit_run_inv [OF credit_inv_empty, of env ops]
  by (auto simp: credit_inv_def credit_ok_def account_ok_def grant_ok_def counters_ok_def count_safe_def)

theorem credit_units_conserved_witness: "gr_availableUnits demo_grant = 10 \<and> gr_heldUnits demo_grant = 0"
  using credit_units_conserved [of demo_env demo_setup "''grant_'' @ zero_hash" demo_grant]
  by (simp add: demo_run_setup demo_grant_fields)

text \<open>C3: An execution is authorised at most once: after \<open>beginExecution\<close> authorised a request, no
  later call for the same request authorises it again, whatever ran in between.\<close>

theorem execution_authorized_once:
  assumes "credit_inv (env_sha env) s" "begin_execution env v s = (t, Inr a)" "au_executionAuthorized a"
    and "begin_execution env v' (run (credit_step env) ops t) = (u, Inr b)"
    and "req_grantId (au_request b) = req_grantId (au_request a)"
    and "req_requestId (au_request b) = req_requestId (au_request a)"
  shows "\<not> au_executionAuthorized b"
proof
  assume again: "au_executionAuthorized b"
  let ?u = "run (credit_step env) ops t"
  note first = begin_spec [OF credit_inv_parts(1) [OF assms(1)] assms(2,3)]
  have t: "credit_inv (env_sha env) t" by (rule step_inv_of(1) [OF assms(1,2)])
  have "credit_ok (env_sha env) ?u" using credit_run_inv [OF t] by (rule credit_inv_parts)
  from begin_spec(1) [OF this assms(4) again] assms(5,6) obtain r where
    r: "find_request ?u (req_grantId (au_request a)) (req_requestId (au_request a)) = Some r" "req_state r = RESERVED"
    by auto
  from credit_leq_request [OF credit_run_leq [OF t, of ops] first(2)] r
  have "request_leq (au_request a) r" by auto
  with r(2) first(3) show False by (simp add: request_leq_def)
qed

theorem execution_authorized_once_witness:
  "begin_execution demo_env (js_of (reference_json demo_request)) demo_begun
     = (fst (begin_execution demo_env (js_of (reference_json demo_request)) demo_begun),
        Inr \<lparr>au_executionAuthorized = False, au_request = demo_executing\<rparr>)
   \<and> \<not> au_executionAuthorized \<lparr>au_executionAuthorized = False, au_request = demo_executing\<rparr>"
proof -
  have "wpre (begin_execution demo_env (js_of (reference_json demo_request)))
      (\<lambda>v t. v = \<lparr>au_executionAuthorized = False, au_request = demo_executing\<rparr> \<and> t = demo_begun) (\<lambda>_ _. False) demo_begun"
    using demo_begun_inv(2) unfolding begin_execution_def
    by (simp add: wp normalize_reference_image demo_request_fields idle_def)
  from wpre_exact [OF this] show ?thesis
    using execution_authorized_once [OF demo_inv(2) demo_begin, of "js_of (reference_json demo_request)" "[]"]
    by simp
qed

text \<open>C8: Executions are exclusive: while the outcome of an execution is open (executing or
  unknown) no execution is authorised and no new request is reserved, on any grant.\<close>

theorem unresolved_execution_blocks:
  assumes "credit_inv (env_sha env) s" "find_request s gid rid = Some r"
    "req_state r = EXECUTING \<or> req_state r = OUTCOME_UNKNOWN"
  shows "(\<forall>t a. begin_execution env v s = (t, Inr a) \<longrightarrow> \<not> au_executionAuthorized a)
    \<and> (\<forall>t \<rho>. reserve_request env v s = (t, Inr \<rho>) \<longrightarrow> rs_replayed \<rho>)"
proof -
  note ok = credit_inv_parts [OF assms(1)]
  have "list_ex unresolved (all_requests s)"
    using stored_unresolved [OF ok(3) assms(2)] assms(3) by (simp add: unresolved_def)
  then show ?thesis using begin_spec(4) [OF ok(1)] reserve_spec(4) [OF ok(1)] by blast
qed

theorem unresolved_execution_blocks_witness:
  "\<not> (\<exists>t a. begin_execution demo_env (js_of (reference_json demo_request)) demo_begun = (t, Inr a)
      \<and> au_executionAuthorized a)"
  using unresolved_execution_blocks [OF demo_begun_inv(1), of "''grant_'' @ zero_hash" "''q''" demo_executing
      "js_of (reference_json demo_request)"] by auto

text \<open>C7: A reservation is pinned: once \<open>reserveRequest\<close> returned a request, repeating the call at
  any later time returns the same request with the same price and digest, changes nothing and
  never authorises an execution.\<close>

theorem reservation_pinned:
  assumes "credit_inv (env_sha env) s" "reserve_request env v s = (t, Inr \<rho>)"
  shows "\<exists>r. reserve_request env v (run (credit_step env) ops t) = (run (credit_step env) ops t,
      Inr \<lparr>rs_replayed = True, rs_executionAuthorized = False, rs_request = r\<rparr>)
    \<and> req_input r = req_input (rs_request \<rho>) \<and> req_costUnits r = req_costUnits (rs_request \<rho>)
    \<and> req_requestDigest r = req_requestDigest (rs_request \<rho>)"
proof -
  let ?u = "run (credit_step env) ops t" and ?r = "rs_request \<rho>"
  note first = reserve_spec [OF credit_inv_parts(1) [OF assms(1)] assms(2)]
  have t: "credit_inv (env_sha env) t" by (rule step_inv_of(2) [OF assms])
  have leq: "credit_leq t ?u" by (rule credit_run_leq [OF t])
  obtain r where r: "find_request ?u (req_grantId ?r) (req_requestId ?r) = Some r" "request_leq ?r r"
    using credit_leq_request [OF leq first(2)] by auto
  obtain g where "map_of (m_grants ?u) (req_grantId ?r) = Some g"
    using first(3) credit_leq_grant [OF leq] by blast
  from reserve_replay [OF credit_inv_parts(2) [OF credit_run_inv [OF t]] first(1) this r(1)] r(2)
  show ?thesis by (auto simp: request_leq_def)
qed

theorem reservation_pinned_witness:
  "\<exists>r. reserve_request demo_env (js_of (request_input_json demo_request)) demo_begun
     = (demo_begun, Inr \<lparr>rs_replayed = True, rs_executionAuthorized = False, rs_request = r\<rparr>)
     \<and> req_costUnits r = 3"
  using reservation_pinned [OF demo_inv(1) demo_reserve, of "[BeginExecution (js_of (reference_json demo_request))]"]
  by (auto simp: demo_begin)

text \<open>C4: When a new reservation succeeds, exactly (\<open>admitted\<close>): the grant exists, is active and
  unexpired at both clock readings, no execution is unresolved, there is room for a request, its
  offer prices the request, and the price is within the holder's ceiling and the available
  units. Then the price moves from available to held and the request is stored; else the call
  throws.\<close>

theorem reserve_succeeds_iff:
  assumes "credit_inv (env_sha env) s" "normalize_request v = Some i"
    "find_request s (rin_grantId i) (rin_requestId i) = None"
  shows "case admitted env s i of
      None \<Rightarrow> \<exists>t e. reserve_request env v s = (t, Inl e)
    | Some (g, c) \<Rightarrow> \<exists>t. reserve_request env v s = (t, Inr \<lparr>rs_replayed = False,
          rs_executionAuthorized = False, rs_request = new_request (env_sha env) g i c\<rparr>)
        \<and> strip t = set_request (new_request (env_sha env) g i c) (set_grant (hold_units g c) (strip s))"
  using reserve_admission [OF assms]
  by (auto simp: wpre_def split: option.splits prod.splits sum.splits)

theorem reserve_succeeds_iff_witness:
  "admitted demo_env demo_ready demo_request = Some (demo_grant, 3)
   \<and> (\<exists>t. reserve_request demo_env (js_of (request_input_json demo_request)) demo_ready = (t, Inr \<lparr>rs_replayed = False,
          rs_executionAuthorized = False, rs_request = demo_stored\<rparr>))"
proof -
  have "admitted demo_env demo_ready demo_request = Some (demo_grant, 3)"
    by (simp add: admitted_def unexpired_at_def demo_request_fields demo_grant_fields max_hydrated_requests_def)
      (simp add: demo_activation_def)
  with reserve_succeeds_iff [OF demo_inv(1) normalize_request_image [OF demo_request_ok]]
  show ?thesis by (auto simp: demo_stored_def)
qed

text \<open>C9: An operation that throws leaves the units, the requests, the offers and the identities
  as they were (the most it does is to record that an active grant has expired), and it never
  throws the internal error \<open>INVARIANT_VIOLATION\<close>.\<close>

theorem failed_operation_is_quiet:
  assumes "credit_inv (env_sha env) s" "outcome env x s = Some e"
  shows "e \<noteq> INVARIANT_VIOLATION \<and> quiet s (credit_step env x s)"
  using outcome_quiet [OF credit_inv_parts(1) [OF assms(1)] assms(2)] by (auto simp: internal_error_def)

theorem failed_operation_is_quiet_witness:
  "outcome demo_env (GetOffer VNull) demo_begun = Some INVALID_INPUT \<and> quiet demo_begun (credit_step demo_env (GetOffer VNull) demo_begun)"
proof -
  have "outcome demo_env (GetOffer VNull) demo_begun = Some INVALID_INPUT"
    using demo_begun_inv(2) by (simp add: get_offer_def run_public_operation_def run_defs idle_def)
  with failed_operation_is_quiet [OF demo_begun_inv(1) this] show ?thesis by simp
qed

text \<open>Reentrancy: while an operation is running no public operation gets to its body (it
  throws \<open>REENTRANT_OPERATION\<close> and changes no data), and an operation whose clock callback tried
  one fails with \<open>INVALID_CLOCK\<close> even if the callback swallowed that error.\<close>

theorem reentrant_callback_fails:
  assumes "credit_inv (env_sha env) s" "map_of (m_grants s) gid = Some g" "gr_lifecycle g = ACTIVE"
    "cb_attempts (env_now env (m_calls s)) > 0" "identifier_text gid"
  shows "snd (get_grant env (VStr gid) s) = Inl INVALID_CLOCK
    \<and> strip (fst (get_grant env (VStr gid) s)) = strip s
    \<and> (\<forall>u body. m_operationActive u \<longrightarrow> snd (run_public_operation body u :: credit \<times> (credit_error + unit))
        = Inl REENTRANT_OPERATION \<and> strip (fst (run_public_operation body u)) = strip u)"
proof -
  note ok = credit_inv_parts [OF assms(1)]
  have "clock_value env (m_calls s) = None"
    using assms(4) by (simp add: clock_value_def callback_value_def split: reply.splits)
  then have "wpre (get_grant env (VStr gid)) (\<lambda>_ _. False) (\<lambda>e t. e = INVALID_CLOCK \<and> strip t = strip s) s"
    using assms ok by (simp add: get_grant_def wp refreshed_def)
  then show ?thesis
    by (auto simp: wpre_def run_public_operation_def strip_def split: prod.splits sum.splits)
qed

definition reentrant_env :: env where
  "reentrant_env = demo_env\<lparr>env_now := (\<lambda>_. \<lparr>cb_attempts = 1, cb_reply = Returned (num 1000)\<rparr>)\<rparr>"

theorem reentrant_callback_fails_witness:
  "snd (get_grant reentrant_env (VStr (''grant_'' @ zero_hash)) demo_ready) = Inl INVALID_CLOCK"
proof -
  have sha: "env_sha reentrant_env = env_sha demo_env" by (simp add: reentrant_env_def)
  have inv: "credit_inv (env_sha reentrant_env) demo_ready" unfolding sha by (rule demo_inv)
  have att: "cb_attempts (env_now reentrant_env (m_calls demo_ready)) > 0" by (simp add: reentrant_env_def)
  have g: "map_of (m_grants demo_ready) (''grant_'' @ zero_hash) = Some demo_grant" by simp
  from reentrant_callback_fails [OF inv g demo_grant_fields(1) att identifier_hash [OF zero_hash_hex]]
  show ?thesis by (rule conjunct1)
qed

text \<open>C10: A settled request is final: once succeeded (with its cached result) or released, it is
  stored unchanged for ever.\<close>

theorem settled_request_final:
  assumes "credit_inv (env_sha env) s" "find_request s gid rid = Some r"
    "req_state r = SUCCEEDED \<or> req_state r = FAILED_RELEASED"
  shows "find_request (run (credit_step env) ops s) gid rid = Some r"
proof -
  let ?u = "run (credit_step env) ops s"
  note u = credit_run_inv [OF assms(1), of ops]
  obtain r' where r': "find_request ?u gid rid = Some r'" "request_leq r r'"
    using credit_leq_request [OF credit_run_leq [OF assms(1)] assms(2)] by auto
  have cached: "req_state q = SUCCEEDED \<longleftrightarrow> req_cachedResult q \<noteq> None"
    if inv: "credit_inv (env_sha env) w" and q: "find_request w gid rid = Some q" for w q
  proof -
    have "map_of (requests_of w gid) rid = Some q" using q by (simp add: find_request_def)
    then obtain rs where "map_of (m_requests w) gid = Some rs"
      by (cases "map_of (m_requests w) gid") (auto simp: requests_of_def)
    then have "gid \<in> fst ` set (m_requests w)" by (force dest: map_of_SomeD)
    moreover have "map fst (m_requests w) = map fst (m_grants w)"
      using credit_inv_parts(3) [OF inv] by (simp add: credit_data_def indexes_ok_def)
    ultimately obtain g where "map_of (m_grants w) gid = Some g"
      by (metis map_of_eq_None_iff not_None_eq set_map)
    from stored_request(7) [OF credit_inv_parts(3) [OF inv] this q] show ?thesis by (simp add: request_ok_def)
  qed
  have "r' = r"
    using r'(2) assms(3) cached [OF assms(1,2)] cached [OF u r'(1)]
    by (cases r; cases r') (auto simp: request_leq_def)
  with r'(1) show ?thesis by simp
qed

theorem settled_request_final_witness:
  "find_request (credit_step demo_env (RevokeGrant VNull) demo_released) (''grant_'' @ zero_hash) ''q'' =
     Some (demo_stored\<lparr>req_state := FAILED_RELEASED\<rparr>)"
  using settled_request_final [OF demo_released_inv, of "''grant_'' @ zero_hash" "''q''"
      "demo_stored\<lparr>req_state := FAILED_RELEASED\<rparr>" "[RevokeGrant VNull]"] demo_released_find by simp

text \<open>A grant that has expired or was revoked never becomes active again, its terms never
  change, the units it has consumed never come back, and no new request is reserved on it.\<close>

theorem inactive_grant_final:
  assumes "credit_inv (env_sha env) s" "map_of (m_grants s) gid = Some g" "gr_lifecycle g \<noteq> ACTIVE"
  shows "\<exists>g'. map_of (m_grants (run (credit_step env) ops s)) gid = Some g' \<and> gr_lifecycle g' = gr_lifecycle g
    \<and> gr_activation g' = gr_activation g \<and> gr_consumedUnits g \<le> gr_consumedUnits g'
    \<and> (\<forall>v t \<rho>. reserve_request env v (run (credit_step env) ops s) = (t, Inr \<rho>)
        \<longrightarrow> req_grantId (rs_request \<rho>) = gid \<longrightarrow> rs_replayed \<rho>)"
proof -
  let ?u = "run (credit_step env) ops s"
  have u: "credit_inv (env_sha env) ?u" by (rule credit_run_inv [OF assms(1)])
  obtain g' where g': "map_of (m_grants ?u) gid = Some g'" "grant_leq g g'"
    using credit_leq_grant [OF credit_run_leq [OF assms(1)] assms(2)] by auto
  have idle: "gr_lifecycle g' \<noteq> ACTIVE" using g'(2) assms(3) by (simp add: grant_leq_def)
  have "rs_replayed \<rho>"
    if r: "reserve_request env v ?u = (t, Inr \<rho>)" "req_grantId (rs_request \<rho>) = gid" for v t \<rho>
  proof -
    have n: "normalize_request v = Some (req_input (rs_request \<rho>))"
      by (rule reserve_spec(1) [OF credit_inv_parts(1) [OF u] r(1)])
    show ?thesis
    proof (cases "find_request ?u gid (req_requestId (rs_request \<rho>))")
      case None
      have "admitted env ?u (req_input (rs_request \<rho>)) = None" using g'(1) idle r(2) by (simp add: admitted_def)
      with reserve_admission [OF u n] None r show ?thesis by (simp add: wpre_def)
    next
      case (Some q)
      from reserve_replay [OF credit_inv_parts(2) [OF u] n, of g' q env] g'(1) Some r
      have "(?u, if req_input q = req_input (rs_request \<rho>)
          then Inr \<lparr>rs_replayed = True, rs_executionAuthorized = False, rs_request = q\<rparr>
          else Inl REQUEST_ID_CONFLICT) = (t, Inr \<rho>)" by simp
      then show ?thesis by (auto split: if_splits)
    qed
  qed
  moreover have "gr_lifecycle g' = gr_lifecycle g" "gr_activation g' = gr_activation g"
    "gr_consumedUnits g \<le> gr_consumedUnits g'"
    using g'(2) assms(3) by (auto simp: grant_leq_def)
  ultimately show ?thesis using g'(1) by blast
qed

text \<open>C6: An identity is bound once: after an activation was accepted, in every later state the
  same record replays to the grant it created, changing nothing, and every different record that
  shares its transaction, its authority settlement or its capability is refused with
  \<open>GRANT_IDENTITY_CONFLICT\<close>, changing nothing. The transaction of a record is what the map of
  transactions compares: the text of \<open>transactionId\<close>, or, where that is an array, the array itself and
  not its content. So a transaction named by a text is bound once among the records that name it by
  a text; a record that wraps the same text in an array names another transaction here, and even the
  same record replays only with the very same array.\<close>

theorem activation_identity_bound_once:
  assumes "credit_inv (env_sha env) s" "activate_grant_from_trusted_record env v s = (t, Inr w)"
    "normalize_activation v = Some a" "normalize_activation v' = Some b" "shares_identity a b"
  shows "\<exists>g. map_of (m_grants (run (credit_step env) ops t)) (grant_id_for (env_sha env)
        (grant_description_for (activation_id_for (env_sha env) a) a)) = Some g \<and> gr_activation g = a
    \<and> activate_grant_from_trusted_record env v' (run (credit_step env) ops t)
      = (run (credit_step env) ops t, if b = a \<and> findable_transaction a then Inr (grant_snapshot g)
          else Inl GRANT_IDENTITY_CONFLICT)"
proof -
  let ?u = "run (credit_step env) ops t" and ?g = "new_grant (env_sha env) a"
  have t: "credit_inv (env_sha env) t" by (rule step_inv_of(3) [OF assms(1,2)])
  have bound: "activation_bound a ?g ?u"
    using activation_bound_mono [OF credit_run_leq [OF t] activate_bound [OF assms(1-3)]] .
  then obtain g where g: "map_of (m_grants ?u) (gr_grantId ?g) = Some g" "gr_activation g = a"
    by (auto simp: activation_bound_def)
  have id: "gr_grantId ?g = grant_id_for (env_sha env) (grant_description_for (activation_id_for (env_sha env) a) a)"
    by (simp add: new_grant_def Let_def)
  from activate_again [OF credit_run_inv [OF t] bound assms(4,5)] g
  show ?thesis unfolding id by auto
qed

theorem inactive_grant_final_witness:
  "gr_lifecycle (demo_grant\<lparr>gr_lifecycle := REVOKED\<rparr>) \<noteq> ACTIVE
   \<and> (\<exists>g'. map_of (m_grants (credit_step demo_env (ReserveRequest VNull) demo_revoked)) (''grant_'' @ zero_hash) = Some g'
        \<and> gr_lifecycle g' = REVOKED)"
  using inactive_grant_final [OF demo_revoked_inv demo_revoked_grant, of "[ReserveRequest VNull]"] by auto

theorem activation_identity_bound_once_witness:
  "\<exists>g. activate_grant_from_trusted_record demo_env (obj (js_members (activation_members demo_activation))) demo_ready
     = (demo_ready, Inr (grant_snapshot g))"
proof -
  let ?s = "empty_credit\<lparr>m_offers := [(offer_key ''o'' 1, demo_offer)]\<rparr>"
  have inv: "credit_inv (env_sha demo_env) ?s"
    using credit_step_inv [OF credit_inv_empty, of demo_env "RegisterOffer (js_of (offer_json demo_offer))"]
    by (simp add: demo_register)
  have n: "normalize_activation (obj (js_members (activation_members demo_activation))) = Some demo_activation"
    by (simp add: normalize_activation_image)
  have "shares_identity demo_activation demo_activation" by (simp add: shares_identity_def)
  moreover have "findable_transaction demo_activation" by (simp add: findable_transaction_def demo_activation_def)
  ultimately show ?thesis using activation_identity_bound_once [OF inv demo_activate n n, of "[]"] by auto
qed

text \<open>Held units are never stuck: a reserved request can be released and an executing one can
  be completed with any acceptable result, whatever the clock, the grant's lifecycle and the
  pricing function; its price returns to the available units or moves to the consumed ones.\<close>

theorem held_units_settle:
  assumes "credit_inv sha s" "map_of (m_grants s) gid = Some g" "find_request s gid rid = Some r"
    "normalize_reference v = Some (gid, rid)"
    "capture_shape [''grantId'', ''requestId'', ''cachedResult''] [] w =
       Some [(''grantId'', VStr gid), (''requestId'', VStr rid), (''cachedResult'', given)]"
    "normalize_cached_result given = Some x" "res_contentType x = rin_selectedContentType (req_input r)"
    "identifier_text gid" "identifier_text rid"
  shows "(req_state r = RESERVED \<longrightarrow> (\<exists>t. release_before_execution v s =
        (t, Inr \<lparr>tr_transitioned = True, tr_request = r\<lparr>req_state := FAILED_RELEASED\<rparr>\<rparr>)
      \<and> map_of (m_grants t) gid = Some (release_units g (req_costUnits r))))
    \<and> (req_state r = EXECUTING \<longrightarrow> (\<exists>t. complete_execution w s =
        (t, Inr \<lparr>tr_transitioned = True, tr_request = r\<lparr>req_state := SUCCEEDED, req_cachedResult := Some x\<rparr>\<rparr>)
      \<and> map_of (m_grants t) gid = Some (consume_units g (req_costUnits r))))"
proof -
  note ok = credit_inv_parts [OF assms(1)]
  note st = stored_request [OF ok(3) assms(2,3)] and c = settled_counters [OF ok(3) assms(2,3)]
  have "wpre (release_before_execution v) (\<lambda>y t. y = \<lparr>tr_transitioned = True, tr_request = r\<lparr>req_state := FAILED_RELEASED\<rparr>\<rparr>
      \<and> map_of (m_grants t) gid = Some (release_units g (req_costUnits r))) (\<lambda>_ _. False) s"
    if "req_state r = RESERVED"
    unfolding release_before_execution_def using that assms ok(2) st(1) c(1) by (simp add: wp held_state_def)
  moreover have "wpre (complete_execution w) (\<lambda>y t. y = \<lparr>tr_transitioned = True,
      tr_request = r\<lparr>req_state := SUCCEEDED, req_cachedResult := Some x\<rparr>\<rparr>
      \<and> map_of (m_grants t) gid = Some (consume_units g (req_costUnits r))) (\<lambda>_ _. False) s"
    if "req_state r = EXECUTING"
    unfolding complete_execution_def using that assms ok(2) st(1) c(2) by (simp add: wp held_state_def)
  ultimately show ?thesis by (auto simp: wpre_def split: prod.splits sum.splits)
qed

theorem held_units_settle_witness:
  "\<exists>t. release_before_execution (js_of (reference_json demo_request)) demo_reserved =
     (t, Inr \<lparr>tr_transitioned = True, tr_request = demo_stored\<lparr>req_state := FAILED_RELEASED\<rparr>\<rparr>)
   \<and> map_of (m_grants t) (''grant_'' @ zero_hash) = Some (release_units (hold_units demo_grant 3) 3)"
proof -
  let ?w = "js_of (JObj [(''grantId'', JStr (''grant_'' @ zero_hash)), (''requestId'', JStr ''q''),
    (''cachedResult'', cached_result_json demo_result)])"
  have w: "capture_shape [''grantId'', ''requestId'', ''cachedResult''] [] ?w =
      Some [(''grantId'', VStr (''grant_'' @ zero_hash)), (''requestId'', VStr ''q''),
        (''cachedResult'', js_of (cached_result_json demo_result))]"
    by (simp add: capture_shape_obj)
  have r: "normalize_reference (js_of (reference_json demo_request)) = Some (''grant_'' @ zero_hash, ''q'')"
    by (simp add: normalize_reference_image demo_request_fields)
  have x: "normalize_cached_result (js_of (cached_result_json demo_result)) = Some demo_result"
    by (simp add: normalize_cached_result_image)
  have f: "map_of (m_grants demo_reserved) (''grant_'' @ zero_hash) = Some (hold_units demo_grant 3)"
    "find_request demo_reserved (''grant_'' @ zero_hash) ''q'' = Some demo_stored"
    "res_contentType demo_result = rin_selectedContentType (req_input demo_stored)"
    by (simp_all add: demo_result_def demo_request_fields)
  from held_units_settle [OF demo_inv(2) f(1,2) r w x f(3) identifier_hash [OF zero_hash_hex] demo_chars(12)]
  show ?thesis by simp
qed

end
