(* ===== verification/Service_Credit_State.thy ===== *)
theory Service_Credit_State
  imports Service_Credit_Behaviour
begin

text \<open>
  Hydration of the service-credit model: \<open>fromState\<close> of \<open>src/src/service-credit-model.js\<close>, which
  accepts only an exact, self-consistent snapshot of the form \<open>exportState\<close> writes.
\<close>

section \<open>Hydration\<close>

definition as_lifecycle :: "jsval \<Rightarrow> grant_lifecycle option" where
  "as_lifecycle v = find (\<lambda>l. v = VStr (lifecycle_text l)) [ACTIVE, EXPIRED, REVOKED]"

definition as_state :: "jsval \<Rightarrow> request_state option" where
  "as_state v = find (\<lambda>st. v = VStr (state_text st))
     [RESERVED, EXECUTING, SUCCEEDED, FAILED_RELEASED, OUTCOME_UNKNOWN]"

definition grant_keys :: "string list" where
  "grant_keys = [''grantId'', ''modelVersion'', ''activationId'', ''activation'', ''sourceSettlementId'',
    ''transactionId'', ''providerId'', ''serviceId'', ''resourceId'', ''offerId'', ''offerVersion'',
    ''holderId'', ''capabilityCommitment'', ''totalUnits'', ''expiresAt'', ''paymentIntent'',
    ''lifecycle'', ''availableUnits'', ''heldUnits'', ''consumedUnits'']"

text \<open>
  \<open>sameJson(value.paymentIntent, \<dots>)\<close>: exactly the two digests, in any order. The model decides
  it for data properties; a property that is not one never matches.
\<close>

fun payment_intent_matches :: "activation \<Rightarrow> jsval \<Rightarrow> bool" where
  "payment_intent_matches a (VObject _ _ props) \<longleftrightarrow> length props = 2
     \<and> map_of props ''intentId'' = Some (DataProp (VStr (act_paymentIntentDigest a)))
     \<and> map_of props ''requirementId'' = Some (DataProp (VStr (act_paymentRequirementDigest a)))"
| "payment_intent_matches a _ \<longleftrightarrow> False"

text \<open>
  The members of an exported grant that repeat its activation. The transaction id is compared with
  \<open>!==\<close>, so where it is an array both members must refer to the same one.
\<close>

definition is_transaction :: "activation \<Rightarrow> jsval \<Rightarrow> bool" where
  "is_transaction a v \<longleftrightarrow> (case act_transactionId a of
     Plain s \<Rightarrow> v = VStr s
   | Boxed r \<Rightarrow> array_identity v \<noteq> None \<and> array_identity v = act_transactionArray a)"

definition repeats_activation :: "activation \<Rightarrow> fields \<Rightarrow> bool" where
  "repeats_activation a v \<longleftrightarrow>
     field ''sourceSettlementId'' v = VStr (act_sourceSettlementId a)
     \<and> is_transaction a (field ''transactionId'' v)
     \<and> field ''providerId'' v = VStr (act_providerId a)
     \<and> field ''serviceId'' v = VStr (act_serviceId a)
     \<and> field ''resourceId'' v = VStr (act_resourceId a)
     \<and> field ''offerId'' v = VStr (act_offerId a)
     \<and> field ''offerVersion'' v = num (act_offerVersion a)
     \<and> field ''holderId'' v = VStr (act_holderId a)
     \<and> field ''capabilityCommitment'' v = VStr (act_capabilityCommitment a)
     \<and> field ''totalUnits'' v = num (act_totalUnits a)
     \<and> field ''expiresAt'' v = num (act_expiresAt a)
     \<and> payment_intent_matches a (field ''paymentIntent'' v)"

definition exported_activation :: "jsval \<Rightarrow> (string \<times> activation) option" where
  "exported_activation v = do {
     members \<leftarrow> capture_shape [''activationId''] (activation_keys @ evidence_keys) v;
     activation \<leftarrow> normalize_activation (obj (filter (\<lambda>(k, _). k \<noteq> ''activationId'') members));
     activationId \<leftarrow> string_value (field ''activationId'' members);
     Some (activationId, activation)
   }"

definition normalize_exported_grant :: "(string \<Rightarrow> string) \<Rightarrow> jsval \<Rightarrow> grant option" where
  "normalize_exported_grant sha input = do {
     v \<leftarrow> capture_shape grant_keys [] input;
     grantId \<leftarrow> as_identifier (field ''grantId'' v);
     activationId \<leftarrow> as_identifier (field ''activationId'' v);
     guard (field ''modelVersion'' v = num 1);
     (recordedId, a) \<leftarrow> exported_activation (field ''activation'' v);
     guard (recordedId = activation_id_for sha a \<and> activationId = activation_id_for sha a);
     guard (grantId = grant_id_for sha (grant_description_for activationId a));
     guard (repeats_activation a v);
     lifecycle \<leftarrow> as_lifecycle (field ''lifecycle'' v);
     available \<leftarrow> as_count (field ''availableUnits'' v);
     held \<leftarrow> as_count (field ''heldUnits'' v);
     consumed \<leftarrow> as_count (field ''consumedUnits'' v);
     guard (act_totalUnits a = available + held + consumed);
     Some \<lparr>gr_grantId = grantId, gr_activationId = activationId, gr_activation = a,
       gr_lifecycle = lifecycle, gr_availableUnits = available, gr_heldUnits = held,
       gr_consumedUnits = consumed\<rparr>
   }"

definition exported_request_keys :: "string list" where
  "exported_request_keys = [''modelVersion'', ''grantId'', ''requestId'', ''requestDigest'', ''offerId'',
    ''offerVersion'', ''method'', ''routeId'', ''canonicalBodyDigest'', ''selectedContentType'',
    ''maxCostUnits'', ''costUnits'', ''state'', ''cachedResult'']"

definition exported_result :: "request_input \<Rightarrow> request_state \<Rightarrow> jsval \<Rightarrow> cached_result option option" where
  "exported_result i st v =
     (if st = SUCCEEDED then
        (if v = VNull then None
         else do {
           x \<leftarrow> normalize_cached_result v;
           guard (res_contentType x = rin_selectedContentType i);
           Some (Some x)
         })
      else if v \<noteq> VNull then None else Some None)"

definition normalize_exported_request :: "jsval \<Rightarrow> request option" where
  "normalize_exported_request input = do {
     v \<leftarrow> capture_shape exported_request_keys [] input;
     i \<leftarrow> normalize_request (obj (map (\<lambda>k. (k, field k v)) request_keys));
     offerId \<leftarrow> as_identifier (field ''offerId'' v);
     offerVersion \<leftarrow> as_positive (field ''offerVersion'' v);
     requestDigest \<leftarrow> as_commitment (field ''requestDigest'' v);
     costUnits \<leftarrow> as_positive (field ''costUnits'' v);
     st \<leftarrow> as_state (field ''state'' v);
     cached \<leftarrow> exported_result i st (field ''cachedResult'' v);
     Some \<lparr>req_input = i, req_requestDigest = requestDigest, req_offerId = offerId,
       req_offerVersion = offerVersion, req_costUnits = costUnits, req_state = st,
       req_cachedResult = cached\<rparr>
   }"

text \<open>The three loops of \<open>fromState\<close>, each with the element it saw before.\<close>

fun offer_follows :: "offer option \<Rightarrow> offer \<Rightarrow> bool" where
  "offer_follows None y \<longleftrightarrow> True"
| "offer_follows (Some x) y \<longleftrightarrow> \<not> (off_offerId y < off_offerId x
     \<or> off_offerId x = off_offerId y \<and> off_offerVersion y \<le> off_offerVersion x)"

fun load_offers :: "offer option \<Rightarrow> jsval list \<Rightarrow> credit \<Rightarrow> credit option" where
  "load_offers prior [] m = Some m"
| "load_offers prior (v # vs) m = do {
     x \<leftarrow> normalize_offer v;
     guard (offer_follows prior x);
     guard (map_of (m_offers m) (offer_key (off_offerId x) (off_offerVersion x)) = None);
     load_offers (Some x) vs (m\<lparr>m_offers := AList.update (offer_key (off_offerId x) (off_offerVersion x)) x (m_offers m)\<rparr>)
   }"

fun load_grants :: "(string \<Rightarrow> string) \<Rightarrow> string option \<Rightarrow> jsval list \<Rightarrow> credit \<Rightarrow> credit option" where
  "load_grants sha prior [] m = Some m"
| "load_grants sha prior (v # vs) m = do {
     g \<leftarrow> normalize_exported_grant sha v;
     guard (case prior of None \<Rightarrow> True | Some k \<Rightarrow> k < gr_grantId g);
     x \<leftarrow> map_of (m_offers m) (offer_key (act_offerId (gr_activation g)) (act_offerVersion (gr_activation g)));
     guard (offer_covers x (gr_activation g));
     guard (\<not> identity_taken g m);
     load_grants sha (Some (gr_grantId g)) vs (insert_grant g m)
   }"

fun request_follows :: "request option \<Rightarrow> request \<Rightarrow> bool" where
  "request_follows None r \<longleftrightarrow> True"
| "request_follows (Some p) r \<longleftrightarrow> \<not> (req_grantId r < req_grantId p
     \<or> req_grantId p = req_grantId r \<and> req_requestId r \<le> req_requestId p)"

definition tally_of :: "(string \<times> int) list \<Rightarrow> string \<Rightarrow> int" where
  "tally_of t k = (case map_of t k of None \<Rightarrow> 0 | Some n \<Rightarrow> n)"

definition tally_add :: "request \<Rightarrow> (string \<times> int) list \<Rightarrow> (string \<times> int) list option" where
  "tally_add r t = (let n = tally_of t (req_grantId r) + req_costUnits r in
     if safe_range n then Some (AList.update (req_grantId r) n t) else None)"

definition tally :: "request \<Rightarrow> (string \<times> int) list \<times> (string \<times> int) list
    \<Rightarrow> ((string \<times> int) list \<times> (string \<times> int) list) option" where
  "tally r = (\<lambda>(held, consumed).
     if held_state r then map_option (\<lambda>h. (h, consumed)) (tally_add r held)
     else if req_state r = SUCCEEDED then map_option (Pair held) (tally_add r consumed)
     else Some (held, consumed))"

definition request_fits :: "(string \<Rightarrow> string) \<Rightarrow> grant \<Rightarrow> request \<Rightarrow> bool" where
  "request_fits sha g r \<longleftrightarrow> req_offerId r = act_offerId (gr_activation g)
     \<and> req_offerVersion r = act_offerVersion (gr_activation g)
     \<and> req_costUnits r \<le> rin_maxCostUnits (req_input r) \<and> req_costUnits r \<le> gr_totalUnits g
     \<and> req_requestDigest r = request_digest_for sha (act_offerId (gr_activation g))
         (act_offerVersion (gr_activation g)) (req_input r) (req_costUnits r)"

fun load_requests :: "(string \<Rightarrow> string) \<Rightarrow> request option \<Rightarrow> jsval list
    \<Rightarrow> (string \<times> int) list \<times> (string \<times> int) list \<Rightarrow> credit
    \<Rightarrow> (((string \<times> int) list \<times> (string \<times> int) list) \<times> credit) option" where
  "load_requests sha prior [] totals m = Some (totals, m)"
| "load_requests sha prior (v # vs) totals m = do {
     r \<leftarrow> normalize_exported_request v;
     guard (request_follows prior r);
     g \<leftarrow> map_of (m_grants m) (req_grantId r);
     guard (request_fits sha g r);
     guard (find_request m (req_grantId r) (req_requestId r) = None);
     totals' \<leftarrow> tally r totals;
     load_requests sha (Some r) vs totals' (set_request r m)
   }"

definition counters_agree :: "(string \<times> int) list \<times> (string \<times> int) list \<Rightarrow> grant \<Rightarrow> bool" where
  "counters_agree totals g \<longleftrightarrow> (let held = tally_of (fst totals) (gr_grantId g);
       consumed = tally_of (snd totals) (gr_grantId g); available = gr_totalUnits g - held - consumed in
     safe_range available \<and> 0 \<le> available \<and> gr_heldUnits g = held \<and> gr_consumedUnits g = consumed
     \<and> gr_availableUnits g = available)"

definition state_keys :: "string list" where
  "state_keys = [''schemaVersion'', ''modelVersion'', ''offers'', ''grants'', ''requests'']"

definition from_state :: "(string \<Rightarrow> string) \<Rightarrow> jsval \<Rightarrow> credit option" where
  "from_state sha state = do {
     root \<leftarrow> capture_shape state_keys [] state;
     guard (field ''schemaVersion'' root = num 2 \<and> field ''modelVersion'' root = num 1);
     offers \<leftarrow> capture_array max_hydrated_offers (field ''offers'' root);
     grants \<leftarrow> capture_array max_hydrated_grants (field ''grants'' root);
     requests \<leftarrow> capture_array max_hydrated_requests (field ''requests'' root);
     m1 \<leftarrow> load_offers None offers empty_credit;
     m2 \<leftarrow> load_grants sha None grants m1;
     (totals, m3) \<leftarrow> load_requests sha None requests ([], []) m2;
     guard (list_all (\<lambda>(_, g). counters_agree totals g) (m_grants m3));
     Some m3
   }"

end
