(* ===== verification/Service_Credit_Hydration.thy ===== *)
theory Service_Credit_Hydration
  imports Service_Credit_State
begin

text \<open>
  Soundness of hydration: whatever value \<open>fromState\<close> accepts, the state it builds satisfies the
  data invariant of the service-credit model. Each loop keeps a partial invariant in which the
  counters of a grant need not match its requests yet; the final check closes it.
\<close>

section \<open>What the validators establish\<close>

lemma normalize_exported_grant_ok:
  assumes "normalize_exported_grant sha v = Some g"
  shows "grant_ok sha g"
proof -
  from assms obtain a i where
    act: "gr_activation g = a" "gr_activationId g = activation_id_for sha a"
      "gr_grantId g = grant_id_for sha (grant_description_for (gr_activationId g) a)"
    and ok: "exported_activation i = Some (activation_id_for sha a, a)"
    and n: "count_safe (gr_availableUnits g)" "count_safe (gr_heldUnits g)" "count_safe (gr_consumedUnits g)"
      "act_totalUnits a = gr_availableUnits g + gr_heldUnits g + gr_consumedUnits g"
    by (auto simp: normalize_exported_grant_def bind_eq_Some_conv split: prod.splits dest!: as_count_Some)
  from ok have "activation_ok a"
    by (auto simp: exported_activation_def bind_eq_Some_conv dest: normalize_activation_ok)
  with act n show ?thesis
    by (simp add: grant_ok_def counters_ok_def activation_ok_def positive_count)
qed

lemma normalize_exported_request_ok:
  assumes "normalize_exported_request v = Some r"
  shows "request_input_ok (req_input r)" "positive_safe (req_costUnits r)"
    "req_state r = SUCCEEDED \<longleftrightarrow> req_cachedResult r \<noteq> None"
    "req_cachedResult r = Some x \<Longrightarrow> cached_result_ok x \<and> res_contentType x = rin_selectedContentType (req_input r)"
  using assms
  by (auto simp: normalize_exported_request_def bind_eq_Some_conv exported_result_def split: if_splits
      dest: normalize_request_ok as_positive_Some normalize_cached_result_ok)

section \<open>The partial invariant\<close>

definition requests_fit :: "(string \<Rightarrow> string) \<Rightarrow> grant \<Rightarrow> (string \<times> request) list \<Rightarrow> bool" where
  "requests_fit sha g rs \<longleftrightarrow> distinct (map fst rs)
     \<and> (\<forall>(rid, r) \<in> set rs. rid = req_requestId r \<and> request_ok sha g r)"

definition grant_fits :: "(string \<Rightarrow> string) \<Rightarrow> (string \<times> offer) list \<Rightarrow> grant \<Rightarrow> bool" where
  "grant_fits sha offers g \<longleftrightarrow> grant_ok sha g
     \<and> (\<exists>x. map_of offers (offer_key (act_offerId (gr_activation g)) (act_offerVersion (gr_activation g))) = Some x
          \<and> offer_covers x (gr_activation g))"

lemma account_ok_split:
  "account_ok sha offers g rs \<longleftrightarrow> grant_fits sha offers g \<and> requests_fit sha g rs
     \<and> gr_heldUnits g = units_where held_state rs \<and> gr_consumedUnits g = units_where succeeded rs"
  by (auto simp: account_ok_def grant_fits_def requests_fit_def)

definition partial :: "(string \<Rightarrow> string) \<Rightarrow> (string \<times> int) list \<times> (string \<times> int) list \<Rightarrow> credit \<Rightarrow> bool" where
  "partial sha totals m \<longleftrightarrow> idle m \<and> offers_ok (m_offers m) \<and> indexes_ok m
     \<and> (\<forall>(k, g) \<in> set (m_grants m). k = gr_grantId g \<and> grant_fits sha (m_offers m) g
          \<and> requests_fit sha g (requests_of m k)
          \<and> tally_of (fst totals) k = units_where held_state (requests_of m k)
          \<and> tally_of (snd totals) k = units_where succeeded (requests_of m k))"

lemma indexes_ok_requests:
  "map fst rs = map fst (m_requests m) \<Longrightarrow> indexes_ok (m\<lparr>m_requests := rs\<rparr>) = indexes_ok m"
  by (simp add: indexes_ok_def)

lemma partial_grant:
  assumes "partial sha totals m" "map_of (m_grants m) k = Some g"
  shows "k = gr_grantId g" "grant_fits sha (m_offers m) g" "requests_fit sha g (requests_of m k)"
    "tally_of (fst totals) k = units_where held_state (requests_of m k)"
    "tally_of (snd totals) k = units_where succeeded (requests_of m k)"
  using assms(1) map_of_SomeD [OF assms(2)] by (auto simp: partial_def)

lemma set_update_subset: "set (AList.update k v al) \<subseteq> set al \<union> {(k, v)}"
  by (induction al) auto

lemma all_bindings:
  "distinct (map fst al) \<Longrightarrow> (\<forall>(k, v) \<in> set al. P k v) \<longleftrightarrow> (\<forall>k v. map_of al k = Some v \<longrightarrow> P k v)"
  by (auto simp: map_of_eq_iff)

lemma partial_iff:
  "partial sha totals m \<longleftrightarrow> idle m \<and> offers_ok (m_offers m) \<and> indexes_ok m
     \<and> (\<forall>k g. map_of (m_grants m) k = Some g \<longrightarrow> k = gr_grantId g \<and> grant_fits sha (m_offers m) g
          \<and> requests_fit sha g (requests_of m k)
          \<and> tally_of (fst totals) k = units_where held_state (requests_of m k)
          \<and> tally_of (snd totals) k = units_where succeeded (requests_of m k))"
proof (cases "indexes_ok m")
  case True
  then have "distinct (map fst (m_grants m))" unfolding indexes_ok_def by (elim conjE)
  then show ?thesis unfolding partial_def by (simp only: all_bindings)
next
  case False
  then show ?thesis by (simp add: partial_def)
qed

lemma insert_grant_indexes:
  assumes "indexes_ok s" "\<not> identity_taken g s"
  shows "indexes_ok (insert_grant g s)"
  using assms(1) identity_free(2-7) [OF assms] unfolding identity_free(1) [OF assms]
  by (auto simp: indexes_ok_def simp del: map_map)

lemma load_offers_ok:
  "load_offers prior vs m = Some m' \<Longrightarrow> offers_ok (m_offers m) \<Longrightarrow>
    offers_ok (m_offers m') \<and> m' = m\<lparr>m_offers := m_offers m'\<rparr>"
proof (induction vs arbitrary: prior m)
  case (Cons v vs)
  from Cons.prems(1) obtain x where x: "normalize_offer v = Some x"
    "map_of (m_offers m) (offer_key (off_offerId x) (off_offerVersion x)) = None"
    "load_offers (Some x) vs (m\<lparr>m_offers := AList.update (offer_key (off_offerId x) (off_offerVersion x)) x (m_offers m)\<rparr>) = Some m'"
    by (auto simp: bind_eq_Some_conv)
  have "offers_ok (AList.update (offer_key (off_offerId x) (off_offerVersion x)) x (m_offers m))"
    using Cons.prems(2) normalize_offer_ok [OF x(1)] x(2)
    by (auto simp: offers_ok_def update_new map_of_eq_None_iff)
  from Cons.IH [OF x(3)] this show ?case by (cases m; cases m') simp
qed simp

lemma insert_grant_partial:
  assumes m: "partial sha ([], []) m" and g: "grant_ok sha g"
    and x: "map_of (m_offers m) (offer_key (act_offerId (gr_activation g)) (act_offerVersion (gr_activation g))) = Some x"
      "offer_covers x (gr_activation g)"
    and free: "\<not> identity_taken g m"
  shows "partial sha ([], []) (insert_grant g m)"
proof -
  have idx: "indexes_ok m" using m by (simp add: partial_def)
  have fits: "grant_fits sha (m_offers m) g" using g x by (auto simp: grant_fits_def)
  have reqs: "requests_of (insert_grant g m) k = (if k = gr_grantId g then [] else requests_of m k)" for k
    by (simp add: requests_of_def insert_grant_def Let_def)
  have "idle (insert_grant g m)" using m by (simp add: partial_def idle_def insert_grant_def Let_def)
  then show ?thesis
    using m fits insert_grant_indexes [OF idx free] unfolding partial_iff reqs
    by (simp add: requests_fit_def units_where_def tally_of_def)
qed

lemma load_grants_ok:
  "load_grants sha prior vs m = Some m' \<Longrightarrow> partial sha ([], []) m \<Longrightarrow> partial sha ([], []) m'"
proof (induction vs arbitrary: prior m)
  case (Cons v vs)
  from Cons.prems(1) obtain g x where "normalize_exported_grant sha v = Some g"
    "map_of (m_offers m) (offer_key (act_offerId (gr_activation g)) (act_offerVersion (gr_activation g))) = Some x"
    "offer_covers x (gr_activation g)" "\<not> identity_taken g m"
    and step: "load_grants sha (Some (gr_grantId g)) vs (insert_grant g m) = Some m'"
    by (auto simp: bind_eq_Some_conv)
  with Cons.prems(2) have "partial sha ([], []) (insert_grant g m)"
    by (intro insert_grant_partial normalize_exported_grant_ok)
  with Cons.IH [OF step] show ?case .
qed simp

lemma load_grants_requests:
  "load_grants sha prior vs m = Some m' \<Longrightarrow> all_requests m = [] \<Longrightarrow> all_requests m' = []"
proof (induction vs arbitrary: prior m)
  case (Cons v vs)
  from Cons.prems(1) obtain g where free: "\<not> identity_taken g m"
    and step: "load_grants sha (Some (gr_grantId g)) vs (insert_grant g m) = Some m'"
    by (auto simp: bind_eq_Some_conv)
  have "set (m_requests (insert_grant g m)) \<subseteq> set (m_requests m) \<union> {(gr_grantId g, [])}"
    using set_update_subset [of "gr_grantId g" "[]" "m_requests m"] by (auto simp: insert_grant_def Let_def)
  then have "all_requests (insert_grant g m) = []" using Cons.prems(2) by (fastforce simp: all_requests_def)
  with Cons.IH [OF step] show ?case .
qed simp

lemma indexes_ok_distinct: "indexes_ok m \<Longrightarrow> distinct (map fst (m_grants m))"
  unfolding indexes_ok_def by (elim conjE)

lemma tally_units:
  assumes "tally r (h, c) = Some (h', c')"
  shows "tally_of h' k = tally_of h k + (if k = req_grantId r \<and> held_state r then req_costUnits r else 0)"
    "tally_of c' k = tally_of c k + (if k = req_grantId r \<and> succeeded r then req_costUnits r else 0)"
  using assms
  by (auto simp: tally_def tally_add_def tally_of_def succeeded_def held_state_def Let_def split: if_splits)

lemma request_step_partial:
  assumes m: "partial sha (h, c) m" and r: "normalize_exported_request v = Some r"
    and g: "map_of (m_grants m) (req_grantId r) = Some g" and fits: "request_fits sha g r"
    and fresh: "find_request m (req_grantId r) (req_requestId r) = None"
    and t: "tally r (h, c) = Some (h', c')"
  shows "partial sha (h', c') (set_request r m)"
proof -
  note pg = partial_grant [OF m g]
  have new: "map_of (requests_of m (req_grantId r)) (req_requestId r) = None"
    using fresh by (simp add: find_request_def)
  have rs: "requests_of (set_request r m) k = (if k = req_grantId r
      then requests_of m k @ [(req_requestId r, r)] else requests_of m k)" for k
    using new by (auto simp: set_request_def requests_of_def update_new)
  have "request_ok sha g r"
    using normalize_exported_request_ok [OF r] fits pg(1)
    by (auto simp: request_ok_def request_fits_def)
  then have "requests_fit sha g (requests_of m (req_grantId r) @ [(req_requestId r, r)])"
    using pg(3) new by (auto simp: requests_fit_def map_of_eq_None_iff)
  moreover have "indexes_ok (set_request r m)"
  proof -
    have "map fst (m_requests m) = map fst (m_grants m)" using m by (simp add: partial_def indexes_ok_def)
    then have "map_of (m_requests m) (req_grantId r) \<noteq> None"
      using g by (metis map_of_eq_None_iff option.distinct(1) set_map)
    then obtain old where old: "map_of (m_requests m) (req_grantId r) = Some old" by auto
    show ?thesis
      using m keys_update_present [OF old] unfolding set_request_def
      by (subst indexes_ok_requests) (simp_all add: partial_def)
  qed
  moreover have "idle (set_request r m)" using m by (simp add: partial_def idle_def set_request_def)
  moreover have "k = gr_grantId q \<and> grant_fits sha (m_offers m) q
      \<and> requests_fit sha q (requests_of (set_request r m) k)
      \<and> tally_of h' k = units_where held_state (requests_of (set_request r m) k)
      \<and> tally_of c' k = units_where succeeded (requests_of (set_request r m) k)"
    if q: "map_of (m_grants m) k = Some q" for k q
  proof (cases "k = req_grantId r")
    case True
    with q g have "q = g" by simp
    with True pg calculation(1) show ?thesis unfolding rs by (simp add: tally_units [OF t])
  next
    case False
    with partial_grant [OF m q] show ?thesis unfolding rs by (simp add: tally_units [OF t])
  qed
  ultimately show ?thesis
    using m unfolding partial_iff by simp
qed

lemma set_request_length:
  assumes "distinct (map fst (m_requests m))" "map_of (m_requests m) (req_grantId r) \<noteq> None"
    "find_request m (req_grantId r) (req_requestId r) = None"
  shows "length (all_requests (set_request r m)) = Suc (length (all_requests m))"
proof -
  obtain rs where rs: "map_of (m_requests m) (req_grantId r) = Some rs" using assms(2) by auto
  let ?new = "AList.update (req_requestId r) r rs"
  have new: "length ?new = Suc (length rs)"
    using assms(3) rs by (simp add: find_request_def requests_of_def update_new)
  have "int (length (all_requests (set_request r m))) = int (length (all_requests m)) - int (length rs) + int (length ?new)"
    using sum_list_update [OF assms(1) rs, of "\<lambda>(_, rs). int (length rs)" ?new] rs
    by (simp add: all_requests_def length_requests set_request_def requests_of_def)
  with new show ?thesis by simp
qed

lemma partial_keys:
  assumes "partial sha totals m"
  shows "distinct (map fst (m_requests m))" "map_of (m_grants m) k \<noteq> None \<Longrightarrow> map_of (m_requests m) k \<noteq> None"
proof -
  have same: "map fst (m_requests m) = map fst (m_grants m)" and "distinct (map fst (m_grants m))"
    using assms unfolding partial_def indexes_ok_def by simp_all
  then show "distinct (map fst (m_requests m))" by simp
  show "map_of (m_grants m) k \<noteq> None \<Longrightarrow> map_of (m_requests m) k \<noteq> None"
    using same by (metis map_of_eq_None_iff set_map)
qed

lemma load_requests_ok:
  "load_requests sha prior vs totals m = Some (totals', m') \<Longrightarrow> partial sha totals m \<Longrightarrow>
    partial sha totals' m' \<and> length (all_requests m') = length (all_requests m) + length vs"
proof (induction vs arbitrary: prior totals m)
  case (Cons v vs)
  from Cons.prems(1) obtain r g t where r: "normalize_exported_request v = Some r"
    "map_of (m_grants m) (req_grantId r) = Some g" "request_fits sha g r"
    "find_request m (req_grantId r) (req_requestId r) = None"
    and t: "tally r totals = Some t"
    and step: "load_requests sha (Some r) vs t (set_request r m) = Some (totals', m')"
    by (auto simp: bind_eq_Some_conv)
  obtain h c h' c' where hc: "totals = (h, c)" "t = (h', c')" by (cases totals; cases t) auto
  have "partial sha t (set_request r m)"
    using request_step_partial [OF Cons.prems(2) [unfolded hc] r t [unfolded hc]] hc by simp
  moreover have "length (all_requests (set_request r m)) = Suc (length (all_requests m))"
    using partial_keys [OF Cons.prems(2)] r(2,4) by (intro set_request_length) auto
  ultimately show ?case using Cons.IH [OF step] by simp
qed simp

section \<open>Soundness\<close>

lemma capture_array_length: "capture_array n v = Some vs \<Longrightarrow> length vs \<le> n"
proof (cases v)
  case (VArray ordinary props)
  moreover assume "capture_array n v = Some vs"
  ultimately show ?thesis by (auto simp: all_some_eq_Some split: if_splits) (metis length_map)
qed simp_all

text \<open>C12: Hydration is sound: every snapshot \<open>fromState\<close> accepts, whatever its shape and origin,
  gives a state that satisfies the data invariant (unit conservation, request bookkeeping,
  identity indexes, well-formed and covered grants, request capacity). The snapshot may hold arrays
  where \<open>normalizeActivation\<close> tests a text only by a regular expression: as a genesis hash, and as a
  transaction id that the grant and its activation share.\<close>

theorem hydration_sound:
  assumes "from_state sha v = Some m"
  shows "credit_ok sha m"
proof -
  from assms obtain offers grants requests m1 m2 totals where
    len: "length requests \<le> max_hydrated_requests"
    and m1: "load_offers None offers empty_credit = Some m1"
    and m2: "load_grants sha None grants m1 = Some m2"
    and m3: "load_requests sha None requests ([], []) m2 = Some (totals, m)"
    and final: "list_all (\<lambda>(_, g). counters_agree totals g) (m_grants m)"
    by (auto simp: from_state_def bind_eq_Some_conv dest!: capture_array_length)
  obtain os where os: "m1 = empty_credit\<lparr>m_offers := os\<rparr>" "offers_ok os"
    using load_offers_ok [OF m1] by (auto simp: empty_credit_def offers_ok_def)
  then have "partial sha ([], []) m1" by (simp add: partial_def idle_def indexes_ok_def empty_credit_def)
  from load_grants_ok [OF m2 this] have p2: "partial sha ([], []) m2" .
  have p3: "partial sha totals m" and n: "length (all_requests m) = length (all_requests m2) + length requests"
    using load_requests_ok [OF m3 p2] by auto
  have "all_requests m2 = []"
    using load_grants_requests [OF m2] os by (simp add: all_requests_def empty_credit_def)
  moreover have "account_ok sha (m_offers m) g (requests_of m k)" "k = gr_grantId g"
    if g: "map_of (m_grants m) k = Some g" for k g
    using partial_grant [OF p3 g] final map_of_SomeD [OF g]
    by (auto simp: account_ok_split list_all_iff counters_agree_def Let_def)
  ultimately show ?thesis
    using p3 n len unfolding credit_ok_def credit_data_def
    by (auto simp: partial_def all_bindings indexes_ok_distinct)
qed

end
