(* ===== verification/Service_Credit_Roundtrip.thy ===== *)
theory Service_Credit_Roundtrip
  imports Service_Credit_Hydration Service_Credit_Scenario "HOL-Library.Multiset"
begin

text \<open>
  The round trip of the service-credit state: \<open>fromState\<close> accepts the export of every state that
  satisfies the invariant and fits the hydration limits, and gives back all its lookups.
\<close>

section \<open>Records\<close>

lemma identifier_of_digest:
  assumes "hex_digest sha" "p = ''grant_'' \<or> p = ''activation_''"
  shows "identifier_text (p @ drop (length ''sha256:'') (sha256_commitment sha v))"
proof -
  have h: "is_hex64 (sha (canonical_json v))" using assms(1) by (simp add: hex_digest_def)
  then have all: "list_all (\<lambda>c. c \<noteq> CHR ''/'' \<and> identifier_char c) (sha (canonical_json v))"
    "length (sha (canonical_json v)) = 64"
    using is_hex_not_separator by (auto simp: is_hex64_def list_all_iff)
  have "list_all (\<lambda>c. c \<noteq> CHR ''/'' \<and> identifier_char c) p" "p \<noteq> []" "length p \<le> 11" "is_alnum (hd p)"
    using assms(2) by (auto simp: identifier_char_def is_alnum_def is_lower_def is_digit_def is_upper_def code_def)
  with all have "list_all (\<lambda>c. c \<noteq> CHR ''/'' \<and> identifier_char c) (p @ sha (canonical_json v))"
    "length (p @ sha (canonical_json v)) \<le> 128" "is_alnum (hd (p @ sha (canonical_json v)))"
    "p @ sha (canonical_json v) \<noteq> []" by simp_all
  moreover have "list_all identifier_char (tl (p @ sha (canonical_json v)))"
    using calculation(1) by (cases "p @ sha (canonical_json v)") (auto simp: list_all_iff)
  moreover have "\<not> has_substring ''://'' (p @ sha (canonical_json v))"
    using calculation(1) by (intro no_separator) (simp add: list_all_iff)
  ultimately show ?thesis by (simp add: identifier_text_def sha256_commitment_def)
qed

lemma derived_ids:
  assumes "hex_digest sha"
  shows "identifier_text (activation_id_for sha a)" "identifier_text (grant_id_for sha d)"
    "commitment_text (request_digest_for sha i n r c)"
  using identifier_of_digest [OF assms, of "''activation_''"] identifier_of_digest [OF assms, of "''grant_''"] assms
  by (simp_all add: activation_id_for_def grant_id_for_def request_digest_for_def commitment_text_def)

lemma as_lifecycle_text [simp]: "as_lifecycle (VStr (lifecycle_text l)) = Some l"
  by (cases l) (simp_all add: as_lifecycle_def)

lemma as_state_text [simp]: "as_state (VStr (state_text st)) = Some st"
  by (cases st) (simp_all add: as_state_def)

lemma member_activationId: "filter (\<lambda>(k, _). k \<noteq> ''activationId'') (js_members (activation_members a)) = js_members (activation_members a)"
  by (cases "act_evidence a") (simp_all add: activation_members_def evidence_members_def split_beta)

lemma exported_activation_image:
  assumes "activation_ok a" "is_Plain (act_transactionId a)"
  shows "exported_activation (js_of (activation_record_json i a)) = Some (i, a)"
proof -
  have shape: "capture_shape [''activationId''] (activation_keys @ evidence_keys)
      (obj ((''activationId'', VStr i) # js_members (activation_members a)))
    = Some ((''activationId'', VStr i) # js_members (activation_members a))"
    using activation_shape [of a]
    by (auto simp: capture_shape_obj list_all_iff simp del: set_map split: if_splits)
  show ?thesis
    using normalize_activation_image [OF assms(1)] assms member_activationId [of a]
    by (simp add: exported_activation_def activation_record_json_def shape activation_ok_def)
qed

lemma exported_grant_shape:
  "capture_shape grant_keys [] (js_of (exported_grant g)) = Some (js_members (case exported_grant g of JObj kvs \<Rightarrow> kvs | _ \<Rightarrow> []))"
  by (simp add: exported_grant_def Let_def capture_shape_obj grant_keys_def activation_record_json_def)

lemma normalize_exported_grant_image:
  assumes "grant_ok sha g" "hex_digest sha" "is_Plain (act_transactionId (gr_activation g))"
  shows "normalize_exported_grant sha (js_of (exported_grant g)) = Some g"
proof -
  have ids: "identifier_text (gr_grantId g)" "identifier_text (gr_activationId g)"
    using assms derived_ids [OF assms(2)] by (simp_all add: grant_ok_def)
  have a: "activation_ok (gr_activation g)" using assms(1) by (simp add: grant_ok_def)
  have c: "count_safe (gr_availableUnits g)" "count_safe (gr_heldUnits g)" "count_safe (gr_consumedUnits g)"
     "act_totalUnits (gr_activation g) = gr_availableUnits g + gr_heldUnits g + gr_consumedUnits g"
    using assms(1) by (simp_all add: grant_ok_def counters_ok_def)
  note eqs = assms(1) [unfolded grant_ok_def]
  show ?thesis
    unfolding normalize_exported_grant_def exported_grant_shape
    using ids c eqs exported_activation_image [OF a assms(3)] assms(3)
    by (auto simp: exported_grant_def Let_def repeats_activation_def is_transaction_def is_Plain_def obj_def
        cong: bind_weak_cong)
qed

text \<open>A clone of the array a grant holds is another array, so its export is refused.\<close>

lemma normalize_exported_grant_array:
  assumes "normalize_exported_grant sha (js_of (exported_grant g)) = Some h"
  shows "is_Plain (act_transactionId (gr_activation g))"
proof -
  from assms obtain a where "repeats_activation a (js_members (case exported_grant g of JObj kvs \<Rightarrow> kvs | _ \<Rightarrow> []))"
    unfolding normalize_exported_grant_def exported_grant_shape by (auto simp: bind_eq_Some_conv)
  then have "is_transaction a (js_of (ref_json (act_transactionId (gr_activation g))))"
    by (simp add: repeats_activation_def exported_grant_def Let_def)
  then show ?thesis by (auto simp: is_transaction_def split: text_ref.splits)
qed

lemma result_not_null: "cached_result_json x \<noteq> JNull"
  by (simp add: cached_result_json_def)

lemma exported_request_shape:
  "capture_shape exported_request_keys [] (js_of (exported_request r)) =
    Some (js_members (case exported_request r of JObj kvs \<Rightarrow> kvs | _ \<Rightarrow> []))"
  by (simp add: exported_request_def Let_def capture_shape_obj exported_request_keys_def)

lemma normalize_exported_request_image:
  assumes "request_ok sha g r" "hex_digest sha" "activation_ok (gr_activation g)"
  shows "normalize_exported_request (js_of (exported_request r)) = Some r"
proof -
  have i: "request_input_ok (req_input r)" and c: "positive_safe (req_costUnits r)"
    and o: "identifier_text (req_offerId r)" "positive_safe (req_offerVersion r)"
    and d: "commitment_text (req_requestDigest r)"
    using assms derived_ids(3) [OF assms(2)] by (simp_all add: request_ok_def activation_ok_def)
  let ?v = "js_members (case exported_request r of JObj kvs \<Rightarrow> kvs | _ \<Rightarrow> [])"
  have n: "normalize_request (obj (map (\<lambda>k. (k, field k ?v)) request_keys)) = Some (req_input r)"
    using i by (cases "req_input r")
      (simp add: exported_request_def Let_def request_keys_def normalize_request_def capture_shape_obj
        normalize_request_fields_def request_input_ok_def)
  have x: "exported_result (req_input r) (req_state r) (field ''cachedResult'' ?v) = Some (req_cachedResult r)"
    using assms(1)
    by (auto simp: exported_request_def Let_def exported_result_def request_ok_def result_not_null
        normalize_cached_result_image split: option.splits)
  have f: "field ''offerId'' ?v = VStr (req_offerId r)" "field ''offerVersion'' ?v = num (req_offerVersion r)"
    "field ''requestDigest'' ?v = VStr (req_requestDigest r)" "field ''costUnits'' ?v = num (req_costUnits r)"
    "field ''state'' ?v = VStr (state_text (req_state r))"
    by (simp_all add: exported_request_def Let_def)
  show ?thesis
    unfolding normalize_exported_request_def exported_request_shape
    using n x o c d by (simp add: f cong: bind_weak_cong)
qed

section \<open>The loops\<close>

definition offer_entry :: "offer \<Rightarrow> string \<times> offer" where
  "offer_entry x = (offer_key (off_offerId x) (off_offerVersion x), x)"

lemma offer_key_inject [simp]: "offer_key i n = offer_key i' n' \<longleftrightarrow> i = i' \<and> n = n'"
  by (simp add: offer_key_def)

abbreviation offer_rank :: "offer \<Rightarrow> string \<times> int" where
  "offer_rank x \<equiv> (off_offerId x, off_offerVersion x)"

lemma load_offers_image:
  "list_all offer_ok xs \<Longrightarrow> sorted_wrt (<) (map offer_rank xs) \<Longrightarrow>
   (case prior of None \<Rightarrow> True | Some p \<Rightarrow> list_all (\<lambda>x. offer_rank p < offer_rank x) xs) \<Longrightarrow>
   (\<forall>x \<in> set xs. map_of (m_offers m) (fst (offer_entry x)) = None) \<Longrightarrow>
   load_offers prior (map (\<lambda>x. js_of (offer_json x)) xs) m = Some (m\<lparr>m_offers := m_offers m @ map offer_entry xs\<rparr>)"
proof (induction xs arbitrary: prior m)
  case (Cons x xs)
  have follows: "offer_follows prior x" using Cons.prems(3) by (cases prior) (auto simp: less_prod_def)
  have new: "map_of (m_offers m) (offer_key (off_offerId x) (off_offerVersion x)) = None"
    using Cons.prems(4) by (simp add: offer_entry_def)
  let ?m = "m\<lparr>m_offers := m_offers m @ [offer_entry x]\<rparr>"
  have ranks: "list_all (\<lambda>y. offer_rank x < offer_rank y) xs" using Cons.prems(2) by (simp add: list_all_iff)
  have "load_offers (Some x) (map (\<lambda>x. js_of (offer_json x)) xs) ?m
      = Some (?m\<lparr>m_offers := m_offers ?m @ map offer_entry xs\<rparr>)"
  proof (rule Cons.IH)
    show "\<forall>y \<in> set xs. map_of (m_offers ?m) (fst (offer_entry y)) = None"
      using Cons.prems(4) ranks by (auto simp: offer_entry_def list_all_iff)
  qed (use Cons.prems ranks in auto)
  moreover have "normalize_offer (js_of (offer_json x)) = Some x"
    using Cons.prems(1) by (simp add: normalize_offer_image)
  ultimately show ?case using follows new by (simp add: update_new offer_entry_def)
qed simp

lemma load_grants_image:
  assumes hex: "hex_digest sha"
  shows "list_all (grant_fits sha (m_offers m)) gs \<Longrightarrow>
   list_all (\<lambda>g. is_Plain (act_transactionId (gr_activation g))) gs \<Longrightarrow> sorted_wrt (<) (map gr_grantId gs) \<Longrightarrow>
   (case prior of None \<Rightarrow> True | Some p \<Rightarrow> list_all (\<lambda>g. p < gr_grantId g) gs) \<Longrightarrow>
   indexes_ok m \<Longrightarrow> list_all (\<lambda>g. \<not> identity_taken g m) gs \<Longrightarrow>
   distinct (map gr_activationId gs) \<Longrightarrow> distinct (map (authority_settlement_key \<circ> gr_activation) gs) \<Longrightarrow>
   distinct (map gr_transaction gs) \<Longrightarrow>
   distinct (map (act_capabilityCommitment \<circ> gr_activation) gs) \<Longrightarrow>
   load_grants sha prior (map (\<lambda>g. js_of (exported_grant g)) gs) m = Some (fold insert_grant gs m)
   \<and> indexes_ok (fold insert_grant gs m)"
proof (induction gs arbitrary: prior m)
  case (Cons g gs)
  have fits: "grant_fits sha (m_offers m) g" and free: "\<not> identity_taken g m" using Cons.prems(1,6) by simp_all
  have after: "case prior of None \<Rightarrow> True | Some k \<Rightarrow> k < gr_grantId g"
    using Cons.prems(4) by (cases prior) simp_all
  have n: "normalize_exported_grant sha (js_of (exported_grant g)) = Some g"
    using fits hex Cons.prems(2) by (simp add: grant_fits_def normalize_exported_grant_image)
  obtain x where x: "map_of (m_offers m) (offer_key (act_offerId (gr_activation g)) (act_offerVersion (gr_activation g))) = Some x"
    "offer_covers x (gr_activation g)" using fits by (auto simp: grant_fits_def)
  have "\<not> identity_taken h (insert_grant g m)" if "h \<in> set gs" for h
  proof -
    have "gr_grantId g < gr_grantId h" using Cons.prems(3) that by simp
    moreover have "\<not> identity_taken h m" using Cons.prems(6) that by (simp add: list_all_iff)
    moreover have "gr_activationId h \<noteq> gr_activationId g"
      "authority_settlement_key (gr_activation h) \<noteq> authority_settlement_key (gr_activation g)"
      "gr_transaction h \<noteq> gr_transaction g"
      "act_capabilityCommitment (gr_activation h) \<noteq> act_capabilityCommitment (gr_activation g)"
      using Cons.prems(7-10) that by (force simp: image_iff)+
    ultimately show ?thesis
      by (auto simp: identity_taken_def activation_by_transaction_def insert_grant_def Let_def split: if_splits)
  qed
  then have "load_grants sha (Some (gr_grantId g)) (map (\<lambda>g. js_of (exported_grant g)) gs) (insert_grant g m)
      = Some (fold insert_grant gs (insert_grant g m)) \<and> indexes_ok (fold insert_grant gs (insert_grant g m))"
    using Cons.prems insert_grant_indexes [OF Cons.prems(5) free]
    by (intro Cons.IH) (simp_all add: list_all_iff)
  then show ?case using n after x free by (simp cong: bind_weak_cong)
qed simp

text \<open>The requests, with the totals they give.\<close>

definition totals_fit :: "(string \<times> int) list \<times> (string \<times> int) list \<Rightarrow> credit \<Rightarrow> bool" where
  "totals_fit totals m \<longleftrightarrow> (\<forall>k. tally_of (fst totals) k = units_where held_state (requests_of m k)
     \<and> tally_of (snd totals) k = units_where succeeded (requests_of m k))"

lemma request_follows_less:
  "request_order p < request_order r \<Longrightarrow> request_follows (Some p) r"
  by (auto simp: request_order_def less_prod_def)

lemma requests_of_set_request:
  "find_request m (req_grantId r) (req_requestId r) = None \<Longrightarrow>
    requests_of (set_request r m) k = (if k = req_grantId r
      then requests_of m k @ [(req_requestId r, r)] else requests_of m k)"
  by (auto simp: set_request_def requests_of_def find_request_def update_new)

definition loadable :: "(string \<Rightarrow> string) \<Rightarrow> credit \<Rightarrow> request list \<Rightarrow> bool" where
  "loadable sha m rs \<longleftrightarrow> sorted_wrt (<) (map request_order rs)
     \<and> (\<forall>r \<in> set rs. find_request m (req_grantId r) (req_requestId r) = None
         \<and> (\<exists>g. map_of (m_grants m) (req_grantId r) = Some g \<and> request_ok sha g r \<and> activation_ok (gr_activation g)))"

lemma loadable_step:
  assumes "loadable sha m (r # rs)"
  shows "loadable sha (set_request r m) rs"
  using assms by (auto simp: loadable_def request_order_def)

lemma loadable_cost: "loadable sha m rs \<Longrightarrow> r \<in> set rs \<Longrightarrow> 0 < req_costUnits r"
  by (auto simp: loadable_def request_ok_def positive_safe_def)

lemma fold_units:
  assumes "loadable sha m rs"
  shows "units_where P (requests_of m k) \<le> units_where P (requests_of (fold set_request rs m) k)"
  using assms
proof (induction rs arbitrary: m)
  case (Cons r rs)
  have "find_request m (req_grantId r) (req_requestId r) = None" using Cons.prems by (simp add: loadable_def)
  then have "units_where P (requests_of m k) \<le> units_where P (requests_of (set_request r m) k)"
    using loadable_cost [OF Cons.prems, of r] by (simp add: requests_of_set_request)
  with Cons.IH [OF loadable_step [OF Cons.prems]] show ?case by simp
qed simp

definition units_bounded :: "credit \<Rightarrow> bool" where
  "units_bounded m \<longleftrightarrow> (\<forall>k. units_where held_state (requests_of m k) \<le> max_safe
     \<and> units_where succeeded (requests_of m k) \<le> max_safe)"

lemma tally_add_safe:
  "0 \<le> tally_of x (req_grantId r) \<Longrightarrow> 0 < req_costUnits r \<Longrightarrow>
    tally_of x (req_grantId r) + req_costUnits r \<le> max_safe \<Longrightarrow> tally_add r x \<noteq> None"
  by (simp add: tally_add_def Let_def safe_range_def max_safe_def)

lemma tally_total:
  assumes fit: "totals_fit totals m" and r: "find_request m (req_grantId r) (req_requestId r) = None" "0 < req_costUnits r"
    and nonneg: "\<And>P k. 0 \<le> units_where P (requests_of m k)" and bound: "units_bounded (set_request r m)"
  shows "\<exists>t. tally r totals = Some t \<and> totals_fit t (set_request r m)"
proof -
  obtain h c where hc: "totals = (h, c)" by (cases totals)
  have "tally_of h (req_grantId r) + req_costUnits r \<le> max_safe" if "held_state r"
    using bound that fit unfolding units_bounded_def totals_fit_def hc requests_of_set_request [OF r(1)]
    by (auto dest!: spec [of _ "req_grantId r"])
  moreover have "tally_of c (req_grantId r) + req_costUnits r \<le> max_safe" if "succeeded r"
    using bound that fit unfolding units_bounded_def totals_fit_def hc requests_of_set_request [OF r(1)]
    by (auto dest!: spec [of _ "req_grantId r"])
  moreover have "0 \<le> tally_of h k" "0 \<le> tally_of c k" for k
    using fit nonneg unfolding totals_fit_def hc by simp_all
  ultimately have "tally r (h, c) \<noteq> None"
    using tally_add_safe [OF _ r(2), of h] tally_add_safe [OF _ r(2), of c] by (auto simp: tally_def succeeded_def)
  then obtain t where t: "tally r (h, c) = Some t" by auto
  obtain h' c' where t': "t = (h', c')" by (cases t)
  have "totals_fit t (set_request r m)"
    using fit tally_units [OF t [unfolded t']]
    by (auto simp: totals_fit_def hc t' requests_of_set_request [OF r(1)])
  then show ?thesis using t hc by auto
qed

lemma load_requests_image:
  assumes hex: "hex_digest sha"
  shows "loadable sha m rs \<Longrightarrow>
   (case prior of None \<Rightarrow> True | Some p \<Rightarrow> list_all (\<lambda>r. request_order p < request_order r) rs) \<Longrightarrow>
   totals_fit totals m \<Longrightarrow> (\<And>P k. 0 \<le> units_where P (requests_of m k)) \<Longrightarrow>
   units_bounded (fold set_request rs m) \<Longrightarrow>
   \<exists>t. load_requests sha prior (map (\<lambda>r. js_of (exported_request r)) rs) totals m
     = Some (t, fold set_request rs m) \<and> totals_fit t (fold set_request rs m)"
proof (induction rs arbitrary: prior totals m)
  case (Cons r rs)
  from Cons.prems(1) obtain g where g: "map_of (m_grants m) (req_grantId r) = Some g" "request_ok sha g r"
      "activation_ok (gr_activation g)"
    and new: "find_request m (req_grantId r) (req_requestId r) = None" by (auto simp: loadable_def)
  have n: "normalize_exported_request (js_of (exported_request r)) = Some r"
    by (rule normalize_exported_request_image [OF g(2) hex g(3)])
  have after: "request_follows prior r" using Cons.prems(2)
    by (cases prior) (simp_all only: request_follows.simps(1) list.pred_inject option.case request_follows_less)
  have fits: "request_fits sha g r" using g(2) by (auto simp: request_fits_def request_ok_def)
  have cost: "0 < req_costUnits r" using loadable_cost [OF Cons.prems(1)] by simp
  note rest = loadable_step [OF Cons.prems(1)]
  have "units_bounded (set_request r m)"
    using Cons.prems(5) fold_units [OF rest] unfolding units_bounded_def by (fastforce intro: order_trans)
  from tally_total [OF Cons.prems(3) new cost Cons.prems(4) this]
  obtain t where t: "tally r totals = Some t" "totals_fit t (set_request r m)" by auto
  have "\<exists>t'. load_requests sha (Some r) (map (\<lambda>r. js_of (exported_request r)) rs) t (set_request r m)
     = Some (t', fold set_request rs (set_request r m)) \<and> totals_fit t' (fold set_request rs (set_request r m))"
  proof (rule Cons.IH [OF rest _ t(2)])
    show "case Some r of None \<Rightarrow> True | Some p \<Rightarrow> list_all (\<lambda>r. request_order p < request_order r) rs"
      using Cons.prems(1) by (simp add: loadable_def list_all_iff)
    show "0 \<le> units_where P (requests_of (set_request r m) k)" for P k
      using Cons.prems(4) cost by (simp add: requests_of_set_request [OF new])
    show "units_bounded (fold set_request rs (set_request r m))" using Cons.prems(5) by simp
  qed
  then show ?case using n after g(1) fits new t(1) by (simp cong: bind_weak_cong)
qed auto

section \<open>The lists an export holds\<close>

lemma sort_key_strict:
  fixes f :: "'a \<Rightarrow> 'b::linorder"
  assumes "distinct (map f xs)"
  shows "sorted_wrt (<) (map f (sort_key f xs))"
proof -
  have "distinct (map f (sort_key f xs))" using assms by (simp add: distinct_map)
  moreover have "sorted (map f (sort_key f xs))" by simp
  ultimately show ?thesis by (simp add: strict_sorted_iff)
qed

lemma sort_key_distinct: "distinct (map f xs) \<Longrightarrow> distinct (map f (sort_key f xs))"
  by (simp add: distinct_map)

lemma entry_map: "(\<forall>x \<in> set al. x = f (snd x)) \<Longrightarrow> al = map f (map snd al)"
  by (induction al) auto

lemma sort_key_unique:
  fixes f :: "'a \<Rightarrow> 'b::linorder"
  assumes "distinct (map f xs)" "distinct (map f ys)" "set xs = set ys"
  shows "sort_key f xs = sort_key f ys"
proof (rule sort_key_inj_key_eq)
  have "mset xs = mset ys" using assms by (simp add: distinct_map set_eq_iff_mset_eq_distinct)
  then show "mset xs = mset (sort_key f ys)" by simp
  show "inj_on f (set xs)" using assms(1) by (simp add: distinct_map)
  show "sorted (map f (sort_key f ys))" by simp
qed

text \<open>The keys of the stored lists are distinct.\<close>

lemma offers_distinct: "offers_ok al \<Longrightarrow> distinct (map offer_rank (map snd al))"
proof -
  assume ok: "offers_ok al"
  then have "map fst al = map (\<lambda>(i, n). offer_key i n) (map offer_rank (map snd al))"
    by (auto simp: offers_ok_def)
  moreover have "distinct (map fst al)" using ok by (simp add: offers_ok_def)
  ultimately show ?thesis by (metis distinct_map)
qed

lemma grants_distinct:
  assumes "credit_data sha s"
  shows "map gr_grantId (map snd (m_grants s)) = map fst (m_grants s)" "distinct (map gr_grantId (map snd (m_grants s)))"
proof -
  show eq: "map gr_grantId (map snd (m_grants s)) = map fst (m_grants s)"
    using assms by (auto simp: credit_data_def)
  have "distinct (map fst (m_grants s))" using assms by (intro indexes_ok_distinct) (simp add: credit_data_def)
  then show "distinct (map gr_grantId (map snd (m_grants s)))" unfolding eq .
qed

lemma disjoint_images:
  assumes "\<forall>r \<in> X. fst (f r) = k" "\<forall>r \<in> Y. fst (f r) \<noteq> k"
  shows "f ` X \<inter> f ` Y = {}"
proof (rule equals0I)
  fix x assume "x \<in> f ` X \<inter> f ` Y"
  then obtain p q where "p \<in> X" "x = f p" "q \<in> Y" "x = f q" by auto
  with assms show False by metis
qed

lemma requests_distinct_list:
  "distinct (map fst al) \<Longrightarrow>
   (\<forall>(k, rs) \<in> set al. distinct (map fst rs) \<and> (\<forall>(rid, r) \<in> set rs. request_order r = (k, rid))) \<Longrightarrow>
   distinct (map request_order (concat (map (\<lambda>(_, rs). map snd rs) al)))"
proof (induction al)
  case (Cons a al)
  obtain k rs where a: "a = (k, rs)" by (cases a)
  have head: "map request_order (map snd rs) = map (\<lambda>(rid, _). (k, rid)) rs"
    using Cons.prems(2) by (auto simp: a)
  have "map (\<lambda>(rid, _). (k, rid)) rs = map (Pair k) (map fst rs)" by auto
  then have d1: "distinct (map request_order (map snd rs))"
    using Cons.prems(2) head by (simp add: a distinct_map inj_on_def)
  have "\<forall>r \<in> set (map snd rs). fst (request_order r) = k"
    using Cons.prems(2) by (fastforce simp: a)
  moreover have "\<forall>r \<in> set (concat (map (\<lambda>(_, rs). map snd rs) al)). fst (request_order r) \<noteq> k"
  proof
    fix r assume "r \<in> set (concat (map (\<lambda>(_, rs). map snd rs) al))"
    then obtain k' rs' rid where m: "(k', rs') \<in> set al" "(rid, r) \<in> set rs'" by auto
    have all: "\<forall>(k, rs) \<in> set al. \<forall>(rid, r) \<in> set rs. request_order r = (k, rid)"
      using Cons.prems(2) by auto
    from bspec [OF all m(1)] m(2) have "request_order r = (k', rid)" by auto
    moreover have "k' \<noteq> k" using Cons.prems(1) m(1) by (auto simp: a image_iff)
    ultimately show "fst (request_order r) \<noteq> k" by simp
  qed
  ultimately have "request_order ` set (map snd rs)
      \<inter> request_order ` set (concat (map (\<lambda>(_, rs). map snd rs) al)) = {}" by (rule disjoint_images)
  moreover have "distinct (map request_order (concat (map (\<lambda>(_, rs). map snd rs) al)))"
    using Cons.prems by (intro Cons.IH) simp_all
  ultimately show ?case using d1 by (simp only: a list.map concat.simps map_append distinct_append set_map
        prod.case simp_thms)
qed simp

lemma requests_distinct:
  assumes "credit_data sha s"
  shows "distinct (map request_order (all_requests s))"
  unfolding all_requests_def
proof (rule requests_distinct_list)
  show d: "distinct (map fst (m_requests s))" using assms by (simp add: credit_data_def indexes_ok_def)
  show "\<forall>(k, rs) \<in> set (m_requests s). distinct (map fst rs) \<and> (\<forall>(rid, r) \<in> set rs. request_order r = (k, rid))"
  proof clarify
    fix k rs assume m: "(k, rs) \<in> set (m_requests s)"
    have "map fst (m_requests s) = map fst (m_grants s)" using assms by (simp add: credit_data_def indexes_ok_def)
    then have "k \<in> fst ` set (m_grants s)" using m by (metis fst_conv imageI set_map)
    then obtain g where g: "(k, g) \<in> set (m_grants s)" by auto
    have "requests_of s k = rs" using d m by (simp add: requests_of_def)
    with assms g have "k = gr_grantId g" "account_ok sha (m_offers s) g rs" by (auto simp: credit_data_def)
    then show "distinct (map fst rs) \<and> (\<forall>(rid, r) \<in> set rs. request_order r = (k, rid))"
      by (auto simp: account_ok_def request_ok_def request_order_def)
  qed
qed

section \<open>The state the loops rebuild\<close>

definition same_lookups :: "credit \<Rightarrow> credit \<Rightarrow> bool" where
  "same_lookups s m \<longleftrightarrow> map_of (m_offers m) = map_of (m_offers s) \<and> map_of (m_grants m) = map_of (m_grants s)
     \<and> map_of (m_activations m) = map_of (m_activations s)
     \<and> map_of (m_activationByAuthoritySettlement m) = map_of (m_activationByAuthoritySettlement s)
     \<and> map_of (m_activationByTransaction m) = map_of (m_activationByTransaction s)
     \<and> map_of (m_grantByCapability m) = map_of (m_grantByCapability s) \<and> find_request m = find_request s"

lemma same_projection:
  assumes "xs = map f as" "ys = map f cs" "set as = set cs" "distinct (map fst xs)" "distinct (map fst ys)"
  shows "map_of xs = map_of ys"
  using assms by (subst map_of_inject_set) simp_all

lemma same_indexes:
  assumes s: "indexes_ok s" and m: "indexes_ok m" and g: "set (m_grants m) = set (m_grants s)"
  shows "map_of (m_grants m) = map_of (m_grants s)" "map_of (m_activations m) = map_of (m_activations s)"
    "map_of (m_activationByAuthoritySettlement m) = map_of (m_activationByAuthoritySettlement s)"
    "map_of (m_activationByTransaction m) = map_of (m_activationByTransaction s)"
    "map_of (m_grantByCapability m) = map_of (m_grantByCapability s)"
proof -
  show "map_of (m_grants m) = map_of (m_grants s)"
    using g indexes_ok_distinct [OF s] indexes_ok_distinct [OF m] by (simp add: map_of_inject_set)
  show "map_of (m_activations m) = map_of (m_activations s)"
    using s m unfolding indexes_ok_def by (elim conjE) (rule same_projection [OF _ _ g]; assumption)
  show "map_of (m_activationByAuthoritySettlement m) = map_of (m_activationByAuthoritySettlement s)"
    using s m unfolding indexes_ok_def by (elim conjE) (rule same_projection [OF _ _ g]; assumption)
  show "map_of (m_activationByTransaction m) = map_of (m_activationByTransaction s)"
    using s m unfolding indexes_ok_def by (elim conjE) (rule same_projection [OF _ _ g]; assumption)
  show "map_of (m_grantByCapability m) = map_of (m_grantByCapability s)"
    using s m unfolding indexes_ok_def by (elim conjE) (rule same_projection [OF _ _ g]; assumption)
qed

lemma fold_insert_grant:
  "m_offers (fold insert_grant gs m) = m_offers m"
  "idle (fold insert_grant gs m) = idle m"
  "(\<And>k. requests_of m k = []) \<Longrightarrow> requests_of (fold insert_grant gs m) k = []"
  by (induction gs arbitrary: m) (simp_all add: insert_grant_def Let_def requests_of_def idle_def)

lemma fold_insert_grants:
  "distinct (map gr_grantId gs) \<Longrightarrow> (\<forall>g \<in> set gs. map_of (m_grants m) (gr_grantId g) = None) \<Longrightarrow>
    m_grants (fold insert_grant gs m) = m_grants m @ map (\<lambda>g. (gr_grantId g, g)) gs"
proof (induction gs arbitrary: m)
  case (Cons g gs)
  have "\<forall>h \<in> set gs. map_of (m_grants (insert_grant g m)) (gr_grantId h) = None"
    using Cons.prems by (auto simp: image_iff)
  then have "m_grants (fold insert_grant gs (insert_grant g m)) =
      m_grants (insert_grant g m) @ map (\<lambda>g. (gr_grantId g, g)) gs"
    using Cons.prems(1) by (intro Cons.IH) simp_all
  then show ?case using Cons.prems(2) by (simp add: update_new)
qed simp

lemma fold_set_request:
  "m_offers (fold set_request rs m) = m_offers m" "m_grants (fold set_request rs m) = m_grants m"
  "m_activations (fold set_request rs m) = m_activations m"
  "m_activationByAuthoritySettlement (fold set_request rs m) = m_activationByAuthoritySettlement m"
  "m_activationByTransaction (fold set_request rs m) = m_activationByTransaction m"
  "m_grantByCapability (fold set_request rs m) = m_grantByCapability m"
  by (induction rs arbitrary: m) simp_all

lemma fold_find_request:
  "distinct (map request_order rs) \<Longrightarrow>
    find_request (fold set_request rs m) gid rid = Some r \<longleftrightarrow>
      (r \<in> set rs \<and> request_order r = (gid, rid))
      \<or> (\<forall>q \<in> set rs. request_order q \<noteq> (gid, rid)) \<and> find_request m gid rid = Some r"
proof (induction rs arbitrary: m)
  case (Cons q rs)
  then have new: "request_order q \<notin> request_order ` set rs" by simp
  show ?case
    using Cons.IH [of "set_request q m"] Cons.prems new
    by (auto simp: request_order_def image_iff)
qed simp

lemma fold_requests_distinct:
  "(\<And>k. distinct (map fst (requests_of m k))) \<Longrightarrow> distinct (map fst (requests_of (fold set_request rs m) k))"
proof (induction rs arbitrary: m)
  case (Cons r rs)
  have "distinct (map fst (requests_of (set_request r m) k))" for k
    using Cons.prems by (auto simp: set_request_def requests_of_def distinct_update)
  from Cons.IH [OF this] show ?case by simp
qed simp

lemma units_where_lookup:
  assumes "distinct (map fst xs)" "distinct (map fst ys)" "map_of xs = map_of ys"
  shows "units_where P xs = units_where P ys"
proof -
  have "set xs = set ys" using assms by (simp add: map_of_inject_set)
  moreover have "distinct xs" "distinct ys" using assms(1,2) by (simp_all add: distinct_map)
  ultimately have "mset xs = mset ys" by (simp add: set_eq_iff_mset_eq_distinct)
  then have "sum_mset (image_mset (\<lambda>(_, r). if P r then req_costUnits r else 0) (mset xs)) =
      sum_mset (image_mset (\<lambda>(_, r). if P r then req_costUnits r else 0) (mset ys))" by simp
  then show ?thesis by (simp only: units_where_def sum_mset_sum_list [symmetric] mset_map)
qed

text \<open>The state an export rebuilds.\<close>

definition rebuilt_grants :: "credit \<Rightarrow> credit" where
  "rebuilt_grants s = fold insert_grant (sorted_grants s)
     (empty_credit\<lparr>m_offers := map offer_entry (sorted_offers s)\<rparr>)"

definition rebuilt :: "credit \<Rightarrow> credit" where
  "rebuilt s = fold set_request (sorted_requests s) (rebuilt_grants s)"

lemma empty_requests: "requests_of (empty_credit\<lparr>m_offers := x\<rparr>) k = []"
  by (simp add: requests_of_def empty_credit_def)

lemma offers_lookup:
  assumes "offers_ok (m_offers s)"
  shows "map_of (map offer_entry (sorted_offers s)) = map_of (m_offers s)"
proof -
  have eq: "m_offers s = map offer_entry (map snd (m_offers s))"
    using assms by (intro entry_map) (auto simp: offers_ok_def offer_entry_def)
  have "distinct (map fst (map offer_entry (sorted_offers s)))"
  proof -
    have "map fst (map offer_entry (sorted_offers s)) = map (\<lambda>(i, n). offer_key i n) (map offer_rank (sorted_offers s))"
      by (simp add: offer_entry_def)
    moreover have "distinct (map offer_rank (sorted_offers s))"
      unfolding sorted_offers_def by (rule sort_key_distinct [OF offers_distinct [OF assms]])
    moreover have "inj (\<lambda>(i, n). offer_key i n)" by (auto simp: inj_def)
    ultimately show ?thesis by (metis distinct_map inj_on_subset subset_UNIV)
  qed
  moreover have "distinct (map fst (m_offers s))" using assms by (simp add: offers_ok_def)
  moreover have "set (map offer_entry (sorted_offers s)) = set (m_offers s)"
    by (subst eq) (simp add: sorted_offers_def image_image)
  ultimately show ?thesis by (simp add: map_of_inject_set)
qed

lemma loads_offers:
  assumes "offers_ok (m_offers s)"
  shows "load_offers None (map (\<lambda>x. js_of (offer_json x)) (sorted_offers s)) empty_credit =
    Some (empty_credit\<lparr>m_offers := map offer_entry (sorted_offers s)\<rparr>)"
proof -
  have "list_all offer_ok (sorted_offers s)"
    using assms by (auto simp: list_all_iff sorted_offers_def offers_ok_def)
  moreover have "sorted_wrt (<) (map offer_rank (sorted_offers s))"
    unfolding sorted_offers_def by (rule sort_key_strict [OF offers_distinct [OF assms]])
  ultimately show ?thesis
    using load_offers_image [of "sorted_offers s" None empty_credit] by (simp add: empty_credit_def)
qed

lemma rebuilt_grants_list:
  assumes "credit_data sha s"
  shows "m_grants (rebuilt_grants s) = map (\<lambda>g. (gr_grantId g, g)) (sorted_grants s)"
    "set (m_grants (rebuilt_grants s)) = set (m_grants s)"
proof -
  have "distinct (map gr_grantId (sorted_grants s))"
    unfolding sorted_grants_def by (rule sort_key_distinct [OF grants_distinct(2) [OF assms]])
  then show eq: "m_grants (rebuilt_grants s) = map (\<lambda>g. (gr_grantId g, g)) (sorted_grants s)"
    by (simp add: rebuilt_grants_def fold_insert_grants) (simp add: empty_credit_def fold_insert_grants)
  have "m_grants s = map (\<lambda>g. (gr_grantId g, g)) (map snd (m_grants s))"
    using assms by (intro entry_map) (auto simp: credit_data_def)
  then have "set (m_grants s) = (\<lambda>g. (gr_grantId g, g)) ` set (map snd (m_grants s))" by (metis set_map)
  then show "set (m_grants (rebuilt_grants s)) = set (m_grants s)" by (simp add: eq sorted_grants_def)
qed

text \<open>The states whose transaction ids are all texts, none of them an array.\<close>

definition text_transactions :: "credit \<Rightarrow> bool" where
  "text_transactions s \<longleftrightarrow> list_all (\<lambda>(_, g). is_Plain (act_transactionId (gr_activation g))) (m_grants s)"

lemma loads_grants:
  assumes data: "credit_data sha s" and hex: "hex_digest sha" and texts: "text_transactions s"
  shows "load_grants sha None (map (\<lambda>g. js_of (exported_grant g)) (sorted_grants s))
      (empty_credit\<lparr>m_offers := map offer_entry (sorted_offers s)\<rparr>) = Some (rebuilt_grants s)"
    "indexes_ok (rebuilt_grants s)"
proof -
  let ?m = "empty_credit\<lparr>m_offers := map offer_entry (sorted_offers s)\<rparr>" and ?gs = "sorted_grants s"
  have offers: "offers_ok (m_offers s)" and idx: "indexes_ok s" using data by (simp_all add: credit_data_def)
  have set: "set ?gs = snd ` set (m_grants s)" by (simp add: sorted_grants_def)
  have "\<forall>(k, g) \<in> set (m_grants s). grant_fits sha (m_offers s) g"
    using data by (auto simp: credit_data_def account_ok_split)
  then have fits: "list_all (grant_fits sha (m_offers ?m)) ?gs"
    using offers_lookup [OF offers] by (auto simp: list_all_iff set grant_fits_def)
  have perm: "distinct (map f ?gs)" if "distinct (map (f \<circ> snd) (m_grants s))" for f :: "grant \<Rightarrow> 'b"
  proof -
    have "mset (map f ?gs) = mset (map (f \<circ> snd) (m_grants s))"
      by (simp add: sorted_grants_def multiset.map_comp)
    with that show ?thesis by (metis mset_eq_imp_distinct_iff)
  qed
  have "distinct (map gr_activationId ?gs)" "distinct (map (authority_settlement_key \<circ> gr_activation) ?gs)"
    "distinct (map gr_transaction ?gs)"
    "distinct (map (act_capabilityCommitment \<circ> gr_activation) ?gs)"
    using idx by (auto intro!: perm simp: indexes_ok_def comp_def split_beta)
  moreover have "sorted_wrt (<) (map gr_grantId ?gs)"
    unfolding sorted_grants_def by (rule sort_key_strict [OF grants_distinct(2) [OF data]])
  moreover have "list_all (\<lambda>g. is_Plain (act_transactionId (gr_activation g))) ?gs"
    using texts by (auto simp: text_transactions_def list_all_iff set)
  moreover have "indexes_ok ?m" "list_all (\<lambda>g. \<not> identity_taken g ?m) ?gs"
    by (simp_all add: indexes_ok_def empty_credit_def identity_taken_def activation_by_transaction_def list_all_iff)
  ultimately show "load_grants sha None (map (\<lambda>g. js_of (exported_grant g)) ?gs) ?m = Some (rebuilt_grants s)"
    "indexes_ok (rebuilt_grants s)"
    using load_grants_image [OF hex fits, of None] by (simp_all add: rebuilt_grants_def)
qed

lemma find_request_ids:
  assumes data: "credit_data sha s" and f: "find_request s gid rid = Some r"
  shows "req_grantId r = gid" "req_requestId r = rid"
    "\<exists>g. map_of (m_grants s) gid = Some g \<and> request_ok sha g r \<and> activation_ok (gr_activation g)"
proof -
  have "map_of (m_requests s) gid \<noteq> None"
    using f by (auto simp: find_request_def requests_of_def split: option.splits)
  moreover have "map fst (m_requests s) = map fst (m_grants s)" using data by (simp add: credit_data_def indexes_ok_def)
  ultimately obtain g where g: "map_of (m_grants s) gid = Some g" by (metis map_of_eq_None_iff not_None_eq set_map)
  note st = stored_request [OF data g f]
  have "activation_ok (gr_activation g)" using st(2) by (simp add: account_ok_def grant_ok_def)
  with g st(5,7) show "\<exists>g. map_of (m_grants s) gid = Some g \<and> request_ok sha g r \<and> activation_ok (gr_activation g)" by auto
  show "req_grantId r = gid" "req_requestId r = rid" using st(4,5) by simp_all
qed

lemma stored_grant_of_request:
  assumes data: "credit_data sha s" and r: "r \<in> set (all_requests s)"
  shows "\<exists>g. map_of (m_grants s) (req_grantId r) = Some g \<and> request_ok sha g r
      \<and> activation_ok (gr_activation g)"
    "find_request s (req_grantId r) (req_requestId r) = Some r"
proof -
  obtain gid rid where f: "find_request s gid rid = Some r" using r all_requests_member [OF data] by auto
  note ids = find_request_ids [OF data f]
  show "\<exists>g. map_of (m_grants s) (req_grantId r) = Some g \<and> request_ok sha g r
      \<and> activation_ok (gr_activation g)" using ids by simp
  show "find_request s (req_grantId r) (req_requestId r) = Some r" using f ids(1,2) by simp
qed

lemma rebuilt_requests:
  assumes data: "credit_data sha s"
  shows "find_request (rebuilt s) = find_request s"
    "units_where P (requests_of (rebuilt s) k) = units_where P (requests_of s k)"
proof -
  have d: "distinct (map request_order (sorted_requests s))"
    unfolding sorted_requests_def by (rule sort_key_distinct [OF requests_distinct [OF data]])
  have none: "find_request (rebuilt_grants s) gid rid = None" "requests_of (rebuilt_grants s) k = []" for gid rid k
    by (simp_all add: find_request_def rebuilt_grants_def fold_insert_grant(3) [OF empty_requests])
  have "find_request (rebuilt s) gid rid = Some r \<longleftrightarrow> find_request s gid rid = Some r" for gid rid r
  proof -
    have "find_request (rebuilt s) gid rid = Some r \<longleftrightarrow> r \<in> set (all_requests s) \<and> request_order r = (gid, rid)"
      using fold_find_request [OF d, of "rebuilt_grants s" gid rid r] none
      by (simp add: rebuilt_def sorted_requests_def)
    also have "\<dots> \<longleftrightarrow> find_request s gid rid = Some r"
      using stored_grant_of_request(2) [OF data, of r] all_requests_member [OF data, of r]
        find_request_ids [OF data, of gid rid r] by (auto simp: request_order_def)
    finally show ?thesis .
  qed
  then show find: "find_request (rebuilt s) = find_request s"
    by (intro ext) (metis not_None_eq option.exhaust)
  have "distinct (map fst (requests_of s k))"
  proof (cases "map_of (m_grants s) k")
    case (Some g)
    from credit_data_grant(2) [OF data this] show ?thesis by (simp add: account_ok_def)
  next
    case None
    have "map fst (m_requests s) = map fst (m_grants s)" using data by (simp add: credit_data_def indexes_ok_def)
    then have "map_of (m_requests s) k = None" using None by (metis map_of_eq_None_iff set_map)
    then show ?thesis by (simp add: requests_of_def)
  qed
  moreover have "distinct (map fst (requests_of (rebuilt s) k))"
    unfolding rebuilt_def by (rule fold_requests_distinct) (simp add: none)
  moreover have "map_of (requests_of (rebuilt s) k) = map_of (requests_of s k)"
    using find by (auto simp: find_request_def fun_eq_iff)
  ultimately show "units_where P (requests_of (rebuilt s) k) = units_where P (requests_of s k)"
    by (intro units_where_lookup)
qed

lemma units_bound:
  assumes data: "credit_data sha s"
  shows "units_where held_state (requests_of s k) \<le> max_safe \<and> units_where succeeded (requests_of s k) \<le> max_safe"
proof (cases "map_of (m_grants s) k")
  case (Some g)
  from credit_data_grant(2) [OF data this] show ?thesis
    by (auto simp: account_ok_def grant_ok_def counters_ok_def count_safe_def)
next
  case None
  have "map fst (m_requests s) = map fst (m_grants s)" using data by (simp add: credit_data_def indexes_ok_def)
  then have "map_of (m_requests s) k = None" using None by (metis map_of_eq_None_iff set_map)
  then show ?thesis by (simp add: requests_of_def units_where_def max_safe_def)
qed

lemma loads_requests:
  assumes data: "credit_data sha s" and hex: "hex_digest sha" and texts: "text_transactions s"
  shows "\<exists>t. load_requests sha None (map (\<lambda>r. js_of (exported_request r)) (sorted_requests s)) ([], []) (rebuilt_grants s)
      = Some (t, rebuilt s) \<and> totals_fit t (rebuilt s)"
  unfolding rebuilt_def
proof (rule load_requests_image [OF hex])
  have none: "find_request (rebuilt_grants s) gid rid = None" "requests_of (rebuilt_grants s) k = []" for gid rid k
    by (simp_all add: find_request_def rebuilt_grants_def fold_insert_grant(3) [OF empty_requests])
  have grants: "map_of (m_grants (rebuilt_grants s)) = map_of (m_grants s)"
    using same_indexes(1) [OF _ loads_grants(2) [OF data hex texts] rebuilt_grants_list(2) [OF data]] data
    by (simp add: credit_data_def)
  show "loadable sha (rebuilt_grants s) (sorted_requests s)"
    using sort_key_strict [OF requests_distinct [OF data]] stored_grant_of_request(1) [OF data]
    by (auto simp: loadable_def none grants sorted_requests_def)
  show "totals_fit ([], []) (rebuilt_grants s)" by (simp add: totals_fit_def none units_where_def tally_of_def)
  show "0 \<le> units_where P (requests_of (rebuilt_grants s) k)" for P k by (simp add: none units_where_def)
  show "units_bounded (fold set_request (sorted_requests s) (rebuilt_grants s))"
    using units_bound [OF data] rebuilt_requests(2) [OF data] by (simp add: units_bounded_def rebuilt_def)
qed simp

lemma export_rebuilds:
  assumes ok: "credit_ok sha s" and hex: "hex_digest sha"
    and small: "length (m_offers s) \<le> max_hydrated_offers" "length (m_grants s) \<le> max_hydrated_grants"
    and texts: "text_transactions s"
  shows "from_state sha (js_of (snapshot_json s)) = Some (rebuilt s)" "same_lookups s (rebuilt s)"
proof -
  have data: "credit_data sha s" using ok by (simp add: credit_ok_def)
  have offers: "offers_ok (m_offers s)" using data by (simp add: credit_data_def)
  obtain t where t: "load_requests sha None (map (\<lambda>r. js_of (exported_request r)) (sorted_requests s)) ([], []) (rebuilt_grants s)
      = Some (t, rebuilt s)" "totals_fit t (rebuilt s)"
    using loads_requests [OF data hex texts] by auto
  have m: "m_grants (rebuilt s) = m_grants (rebuilt_grants s)" by (simp add: rebuilt_def fold_set_request)
  have agree: "counters_agree t g" if kg: "(k, g) \<in> set (m_grants (rebuilt s))" for k g
  proof -
    have "(k, g) \<in> set (m_grants s)" using kg rebuilt_grants_list(2) [OF data] m by simp
    then have g: "k = gr_grantId g" "account_ok sha (m_offers s) g (requests_of s k)"
      using data by (auto simp: credit_data_def)
    then have "tally_of (fst t) k = gr_heldUnits g" "tally_of (snd t) k = gr_consumedUnits g"
      using t(2) rebuilt_requests(2) [OF data] by (simp_all add: totals_fit_def account_ok_def)
    with g show ?thesis
      by (auto simp: counters_agree_def Let_def account_ok_def grant_ok_def counters_ok_def count_safe_def
          safe_range_def max_safe_def)
  qed
  then have agree: "list_all (\<lambda>(_, g). counters_agree t g) (m_grants (rebuilt s))" by (auto simp: list_all_iff)
  have len: "length (sorted_offers s) \<le> max_hydrated_offers" "length (sorted_grants s) \<le> max_hydrated_grants"
    "length (sorted_requests s) \<le> max_hydrated_requests"
    using small data by (simp_all add: sorted_offers_def sorted_grants_def sorted_requests_def credit_data_def)
  have shape: "capture_shape state_keys [] (js_of (snapshot_json s)) = Some (js_members (case snapshot_json s of JObj kvs \<Rightarrow> kvs | _ \<Rightarrow> []))"
    by (simp add: snapshot_json_def capture_shape_obj state_keys_def)
  show "from_state sha (js_of (snapshot_json s)) = Some (rebuilt s)"
    unfolding from_state_def shape
    using len loads_offers [OF offers] loads_grants(1) [OF data hex texts] t(1) agree
    by (simp add: snapshot_json_def comp_def cong: bind_weak_cong)
  show "same_lookups s (rebuilt s)"
    using same_indexes [OF _ loads_grants(2) [OF data hex texts] rebuilt_grants_list(2) [OF data]] data
      offers_lookup [OF offers] rebuilt_requests(1) [OF data]
    by (simp add: same_lookups_def rebuilt_def fold_set_request credit_data_def)
      (simp add: rebuilt_grants_def fold_insert_grant)
qed

lemma load_grants_accepts:
  "load_grants sha prior vs m = Some m' \<Longrightarrow> v \<in> set vs \<Longrightarrow> \<exists>g. normalize_exported_grant sha v = Some g"
  by (induction vs arbitrary: prior m) (auto simp: bind_eq_Some_conv)

lemma export_refused:
  assumes "\<not> text_transactions s"
  shows "from_state sha (js_of (snapshot_json s)) = None"
proof (rule ccontr)
  have shape: "capture_shape state_keys [] (js_of (snapshot_json s)) = Some (js_members (case snapshot_json s of JObj kvs \<Rightarrow> kvs | _ \<Rightarrow> []))"
    by (simp add: snapshot_json_def capture_shape_obj state_keys_def)
  assume "from_state sha (js_of (snapshot_json s)) \<noteq> None"
  then obtain m1 m2 where "load_grants sha None (map (\<lambda>g. js_of (exported_grant g)) (sorted_grants s)) m1 = Some m2"
    unfolding from_state_def shape by (auto simp: snapshot_json_def bind_eq_Some_conv comp_def split: if_splits)
  from load_grants_accepts [OF this] have "is_Plain (act_transactionId (gr_activation g))" if "g \<in> set (sorted_grants s)" for g
    using that normalize_exported_grant_array by fastforce
  with assms show False by (force simp: text_transactions_def list_all_iff sorted_grants_def)
qed

text \<open>C11: The persistence round trip: hydrating the export of any state with the invariant that
  fits the hydration limits (10,000 offers and grants) succeeds and gives back every lookup of
  the state: offers, grants with their counters, activations, identity indexes and requests. The
  one exception is a state with a transaction id that is an array (\<open>normalizeActivation\<close> lets it
  pass): its export is always refused, because a snapshot clones the array for each member that
  holds it and \<open>!==\<close> tells the clones apart. The digest function only has to give 64 lowercase
  hexadecimal digits.\<close>

theorem export_hydrates:
  assumes "credit_ok sha s" "hex_digest sha"
    "length (m_offers s) \<le> max_hydrated_offers" "length (m_grants s) \<le> max_hydrated_grants"
  shows "if text_transactions s
    then \<exists>m. from_state sha (js_of (snapshot_json s)) = Some m \<and> same_lookups s m
    else from_state sha (js_of (snapshot_json s)) = None"
  using export_rebuilds [OF assms] export_refused [of s sha] by auto

lemma demo_exportable:
  "credit_ok (env_sha demo_env) demo_begun" "hex_digest (env_sha demo_env)"
  "length (m_offers demo_begun) \<le> max_hydrated_offers" "length (m_grants demo_begun) \<le> max_hydrated_grants"
  "text_transactions demo_begun"
  using demo_begun_inv(1)
  by (simp_all add: credit_inv_def text_transactions_def hex_digest_def demo_env_def max_hydrated_offers_def max_hydrated_grants_def
      demo_begun_def demo_reserved_def demo_ready_def empty_credit_def update_new)

theorem export_hydrates_witness:
  "\<exists>m. from_state (env_sha demo_env) (js_of (snapshot_json demo_begun)) = Some m
     \<and> find_request m (''grant_'' @ zero_hash) ''q'' = Some demo_executing"
  using export_hydrates [OF demo_exportable(1-4)] demo_exportable(5) by (auto simp: same_lookups_def)

theorem hydration_sound_witness:
  "\<exists>m. from_state (env_sha demo_env) (js_of (snapshot_json demo_begun)) = Some m \<and> credit_ok (env_sha demo_env) m"
  using export_rebuilds(1) [OF demo_exportable] hydration_sound by blast

end
