(* ===== verification/Spending_Reservations.thy ===== *)
theory Spending_Reservations
  imports Programs JSON_Lemmas
begin

text \<open>
  The spending reservations of an original funding (\<open>src/src/original-funding-spending-reservations.js\<close>):
  the policy, the journal of reservations with its validation (\<open>decode\<close>), the owner that changes
  it by compare-and-swap against a backend it does not trust, and the transition check the
  backend applies itself.

  A stored text is modelled by the JSON value it denotes: the source accepts a text only if it
  is the text of its own value (\<open>JSON.stringify(s) === raw\<close>), and the text of a value is
  injective (\<open>stringify_inject\<close>), so equal texts are equal values. The key order of the stored
  policy and rows is kept (\<open>ss_policyKeys\<close>, \<open>row_keys\<close>), since the source keeps the parsed objects.
\<close>

section \<open>Policy\<close>

record spend_policy =
  sp_policyId :: string
  sp_accountId :: string
  sp_network :: string
  sp_asset :: string
  sp_recipients :: "string list"
  sp_maxPayment :: string
  sp_maxTotal :: string
  sp_maxDaily :: string
  sp_maxRecords :: int

definition policy_keys :: "string list" where
  "policy_keys = [''version'', ''policyId'', ''accountId'', ''network'', ''asset'', ''recipients'',
     ''maxPayment'', ''maxTotal'', ''maxDaily'', ''maxRecords'']"

definition state_member_keys :: "string list" where
  "state_member_keys = [''version'', ''policy'', ''revision'', ''lastDay'', ''reservations'']"

definition row_member_keys :: "string list" where
  "row_member_keys = [''paymentId'', ''originalDigest'', ''network'', ''asset'', ''recipient'', ''amount'',
     ''reservedDay'', ''status'', ''spentDay'']"

definition token_text :: "string \<Rightarrow> bool" where
  "token_text s \<longleftrightarrow> s \<noteq> [] \<and> length s \<le> 128 \<and> is_alnum (hd s) \<and> list_all identifier_char (tl s)"

definition as_token :: "jsval \<Rightarrow> string option" where
  "as_token v = satisfying token_text (string_value v)"

definition max_amount :: nat where
  "max_amount = 2 ^ 255 - 1"

definition amount_text :: "string \<Rightarrow> bool" where
  "amount_text s \<longleftrightarrow> positive_decimal s \<and> length s \<le> 77 \<and> decimal_value s \<le> max_amount"

definition as_amount :: "jsval \<Rightarrow> string option" where
  "as_amount v = satisfying amount_text (string_value v)"

definition day_number :: "int \<Rightarrow> bool" where
  "day_number n \<longleftrightarrow> 0 \<le> n \<and> n \<le> 2147483647"

definition as_day :: "jsval \<Rightarrow> int option" where
  "as_day v = (if v = VNum NumNegZero then None else satisfying day_number (safe_integer v))"

definition capture_policy :: "jsval \<Rightarrow> spend_policy option" where
  "capture_policy input = do {
     p \<leftarrow> exact_fields policy_keys input;
     guard (field ''version'' p = num 1);
     policyId \<leftarrow> as_token (field ''policyId'' p);
     accountId \<leftarrow> as_token (field ''accountId'' p);
     network \<leftarrow> as_token (field ''network'' p);
     asset \<leftarrow> as_token (field ''asset'' p);
     items \<leftarrow> exact_list 16 (field ''recipients'' p);
     recipients \<leftarrow> all_some (map as_token items);
     guard (distinct recipients);
     maxPayment \<leftarrow> as_amount (field ''maxPayment'' p);
     maxTotal \<leftarrow> as_amount (field ''maxTotal'' p);
     maxDaily \<leftarrow> as_amount (field ''maxDaily'' p);
     guard (decimal_value maxPayment \<le> decimal_value maxTotal \<and> decimal_value maxPayment \<le> decimal_value maxDaily);
     maxRecords \<leftarrow> safe_integer (field ''maxRecords'' p);
     guard (1 \<le> maxRecords \<and> maxRecords \<le> 1024);
     Some \<lparr>sp_policyId = policyId, sp_accountId = accountId, sp_network = network, sp_asset = asset,
       sp_recipients = recipients, sp_maxPayment = maxPayment, sp_maxTotal = maxTotal,
       sp_maxDaily = maxDaily, sp_maxRecords = maxRecords\<rparr>
   }"

section \<open>Rows and exposure\<close>

datatype spend_status = Reserved | Unknown | Spent

record spend_row =
  row_paymentId :: string
  row_originalDigest :: string
  row_network :: string
  row_asset :: string
  row_recipient :: string
  row_amount :: string
  row_reservedDay :: int
  row_status :: spend_status
  row_spentDay :: "int option"
  row_keys :: "string list"

definition row_value :: "spend_row \<Rightarrow> nat" where
  "row_value r = decimal_value (row_amount r)"

definition original_keys :: "string list" where
  "original_keys = take 6 row_member_keys"

datatype spend_error =
    INPUT | DAY | AMOUNT | ALLOWLIST | PER_PAYMENT_LIMIT | CORRUPT | READ_UNKNOWN
  | CLOSED | HELD | BUSY | REVISION_EXHAUSTED | COMMIT_UNKNOWN | CONFLICT | CLOCK_ROLLBACK
  | UNRESOLVED_ORIGINAL | ORIGINAL_ALREADY_RESERVED | RECORD_LIMIT | TOTAL_LIMIT | DAILY_LIMIT
  | STATUS | ORIGINAL_MISMATCH | DOWNGRADE

text \<open>\<open>reservation\<close>: the six members of an original, against the policy, on a day.\<close>

definition original_texts :: "fields \<Rightarrow> (string \<times> string \<times> string \<times> string \<times> string) option" where
  "original_texts r = do {
     paymentId \<leftarrow> as_token (field ''paymentId'' r);
     originalDigest \<leftarrow> as_commitment (field ''originalDigest'' r);
     network \<leftarrow> as_token (field ''network'' r);
     asset \<leftarrow> as_token (field ''asset'' r);
     recipient \<leftarrow> as_token (field ''recipient'' r);
     Some (paymentId, originalDigest, network, asset, recipient)
   }"

definition reservation_fields :: "spend_policy \<Rightarrow> fields \<Rightarrow> int \<Rightarrow> spend_error + spend_row" where
  "reservation_fields p r d =
     also_then (need INPUT (original_texts r)) (\<lambda>(paymentId, originalDigest, network, asset, recipient).
     also_then (need AMOUNT (as_amount (field ''amount'' r))) (\<lambda>amount.
     also_then (ensure ALLOWLIST
       (network = sp_network p \<and> asset = sp_asset p \<and> recipient \<in> set (sp_recipients p))) (\<lambda>_.
     also_then (ensure PER_PAYMENT_LIMIT (decimal_value amount \<le> decimal_value (sp_maxPayment p))) (\<lambda>_.
     Inr \<lparr>row_paymentId = paymentId, row_originalDigest = originalDigest, row_network = network,
       row_asset = asset, row_recipient = recipient, row_amount = amount, row_reservedDay = d,
       row_status = Reserved, row_spentDay = None, row_keys = row_member_keys\<rparr>))))"

definition new_reservation :: "spend_policy \<Rightarrow> jsval \<Rightarrow> int \<Rightarrow> spend_error + spend_row" where
  "new_reservation p input d =
     also_then (need INPUT (exact_fields original_keys input)) (\<lambda>r. reservation_fields p r d)"

definition is_open :: "spend_row \<Rightarrow> bool" where
  "is_open r \<longleftrightarrow> row_status r \<noteq> Spent"

text \<open>\<open>totals\<close>.\<close>

definition total_exposure :: "spend_row list \<Rightarrow> nat" where
  "total_exposure rows = sum_list (map row_value rows)"

definition daily_exposure :: "int \<Rightarrow> spend_row list \<Rightarrow> nat" where
  "daily_exposure d rows =
     sum_list (map row_value (filter (\<lambda>r. row_status r \<noteq> Spent \<or> row_spentDay r = Some d) rows))"

definition unresolved_count :: "spend_row list \<Rightarrow> nat" where
  "unresolved_count rows = length (filter is_open rows)"

text \<open>The check of every past day: starts are admitted before the day's peak is compared, ends after.\<close>

definition starts_on :: "int \<Rightarrow> spend_row list \<Rightarrow> nat" where
  "starts_on d rows = sum_list (map row_value (filter (\<lambda>r. row_reservedDay r = d) rows))"

definition ends_on :: "int \<Rightarrow> spend_row list \<Rightarrow> nat" where
  "ends_on d rows = sum_list (map row_value (filter (\<lambda>r. row_spentDay r = Some d) rows))"

definition event_days :: "spend_row list \<Rightarrow> int list" where
  "event_days rows = sort (remdups (concat (map (\<lambda>r. row_reservedDay r #
     (case row_spentDay r of None \<Rightarrow> [] | Some d \<Rightarrow> [d])) rows)))"

fun history_within :: "nat \<Rightarrow> spend_row list \<Rightarrow> nat \<Rightarrow> int list \<Rightarrow> bool" where
  "history_within limit rows historical [] \<longleftrightarrow> True"
| "history_within limit rows historical (d # ds) \<longleftrightarrow>
     historical + starts_on d rows \<le> limit
     \<and> history_within limit rows (historical + starts_on d rows - ends_on d rows) ds"

section \<open>The stored state\<close>

record spend_state =
  ss_policyKeys :: "string list"
  ss_revision :: int
  ss_lastDay :: int
  ss_rows :: "spend_row list"

definition initial_state :: spend_state where
  "initial_state = \<lparr>ss_policyKeys = policy_keys, ss_revision = 0, ss_lastDay = 0, ss_rows = []\<rparr>"

fun status_text :: "spend_status \<Rightarrow> string" where
  "status_text Reserved = ''RESERVED''"
| "status_text Unknown = ''UNKNOWN''"
| "status_text Spent = ''SPENT''"

definition row_members :: "spend_row \<Rightarrow> (string \<times> json) list" where
  "row_members r = [(''paymentId'', JStr (row_paymentId r)), (''originalDigest'', JStr (row_originalDigest r)),
     (''network'', JStr (row_network r)), (''asset'', JStr (row_asset r)),
     (''recipient'', JStr (row_recipient r)), (''amount'', JStr (row_amount r)),
     (''reservedDay'', JNum (row_reservedDay r)), (''status'', JStr (status_text (row_status r))),
     (''spentDay'', case row_spentDay r of None \<Rightarrow> JNull | Some d \<Rightarrow> JNum d)]"

definition row_json :: "spend_row \<Rightarrow> json" where
  "row_json r = in_order (row_keys r) (row_members r)"

definition policy_members :: "spend_policy \<Rightarrow> (string \<times> json) list" where
  "policy_members p = [(''version'', JNum 1), (''policyId'', JStr (sp_policyId p)),
     (''accountId'', JStr (sp_accountId p)), (''network'', JStr (sp_network p)), (''asset'', JStr (sp_asset p)),
     (''recipients'', JArr (map JStr (sp_recipients p))), (''maxPayment'', JStr (sp_maxPayment p)),
     (''maxTotal'', JStr (sp_maxTotal p)), (''maxDaily'', JStr (sp_maxDaily p)),
     (''maxRecords'', JNum (sp_maxRecords p))]"

definition state_json :: "spend_policy \<Rightarrow> spend_state \<Rightarrow> json" where
  "state_json p s = JObj [(''version'', JNum 1), (''policy'', in_order (ss_policyKeys s) (policy_members p)),
     (''revision'', JNum (ss_revision s)), (''lastDay'', JNum (ss_lastDay s)),
     (''reservations'', JArr (map row_json (ss_rows s)))]"

definition as_status :: "jsval \<Rightarrow> spend_status option" where
  "as_status v = find (\<lambda>st. v = VStr (status_text st)) [Reserved, Unknown, Spent]"

definition decode_row :: "spend_policy \<Rightarrow> int \<Rightarrow> json \<Rightarrow> spend_row option" where
  "decode_row p lastDay item = do {
     r \<leftarrow> exact_fields row_member_keys (js_of item);
     reservedDay \<leftarrow> as_day (field ''reservedDay'' r);
     row \<leftarrow> outcome_value (reservation_fields p r reservedDay);
     guard (reservedDay \<le> lastDay);
     st \<leftarrow> as_status (field ''status'' r);
     spentDay \<leftarrow> (if st = Spent then map_option Some (as_day (field ''spentDay'' r))
       else if field ''spentDay'' r = VNull then Some None else None);
     guard (case spentDay of None \<Rightarrow> True | Some d \<Rightarrow> reservedDay \<le> d \<and> d \<le> lastDay);
     Some (row\<lparr>row_status := st, row_spentDay := spentDay, row_keys := object_keys item\<rparr>)
   }"

fun array_items :: "json \<Rightarrow> json list option" where
  "array_items (JArr vs) = Some vs"
| "array_items _ = None"

definition rows_within :: "spend_policy \<Rightarrow> int \<Rightarrow> spend_row list \<Rightarrow> bool" where
  "rows_within p lastDay rows \<longleftrightarrow> total_exposure rows \<le> decimal_value (sp_maxTotal p)
     \<and> daily_exposure lastDay rows \<le> decimal_value (sp_maxDaily p)
     \<and> history_within (decimal_value (sp_maxDaily p)) rows 0 (event_days rows)"

definition max_state_bytes :: nat where
  "max_state_bytes = 1048576"

fun decode_members :: "spend_policy \<Rightarrow> (string \<times> json) list \<Rightarrow> spend_state option" where
  "decode_members p [(k1, version), (k2, pol), (k3, rv), (k4, ld), (k5, rs)] = do {
     guard ([k1, k2, k3, k4, k5] = state_member_keys);
     guard (version = JNum 1);
     guard (capture_policy (js_of pol) = Some p);
     revision \<leftarrow> safe_integer (js_of rv);
     guard (1 \<le> revision \<and> revision \<noteq> max_safe);
     lastDay \<leftarrow> as_day (js_of ld);
     items \<leftarrow> array_items rs;
     guard (1 \<le> length items \<and> int (length items) \<le> sp_maxRecords p);
     rows \<leftarrow> all_some (map (decode_row p lastDay) items);
     guard (distinct (map row_paymentId rows) \<and> distinct (map row_originalDigest rows));
     guard (rows_within p lastDay rows);
     Some \<lparr>ss_policyKeys = object_keys pol, ss_revision = revision, ss_lastDay = lastDay, ss_rows = rows\<rparr>
   }"
| "decode_members p _ = None"

fun decode :: "spend_policy \<Rightarrow> json option \<Rightarrow> spend_state option" where
  "decode p None = Some initial_state"
| "decode p (Some (JObj kvs)) =
     (if max_state_bytes < length (stringify (JObj kvs)) then None else decode_members p kvs)"
| "decode p (Some _) = None"

section \<open>The owner\<close>

text \<open>
  The owner's closure variables. Its backend is a state \<open>'b\<close> and a compare-and-swap that takes the
  expected and the proposed text and gives the new backend state, what the call gave back, and
  whether the backend called the owner's own \<open>close\<close> meanwhile (any other operation it calls then
  fails with BUSY and changes nothing). Nothing is assumed of it here.
\<close>

record spend_owner =
  ow_current :: "json option"
  ow_state :: spend_state
  ow_busy :: bool
  ow_closed :: bool
  ow_held :: bool

datatype cas_reply = CasThrew | CasNull | CasText json | CasOther

type_synonym 'b cas = "json option \<Rightarrow> json \<Rightarrow> 'b \<Rightarrow> 'b \<times> cas_reply \<times> bool"

type_synonym ('b, 'a) spend_prog = "(spend_owner \<times> 'b, spend_error, 'a) prog"

datatype load_reply = LoadThrew | LoadNull | LoadText json | LoadOther

fun loaded :: "load_reply \<Rightarrow> json option option" where
  "loaded LoadNull = Some None"
| "loaded (LoadText v) = Some (Some v)"
| "loaded _ = None"

definition open_owner :: "spend_policy \<Rightarrow> load_reply \<Rightarrow> spend_error + spend_owner" where
  "open_owner p reply = need READ_UNKNOWN (do {
     current \<leftarrow> loaded reply;
     s \<leftarrow> decode p current;
     Some \<lparr>ow_current = current, ow_state = s, ow_busy = False, ow_closed = False, ow_held = False\<rparr>
   })"

definition usable :: "('b, unit) spend_prog" where
  "usable = andthen (gets fst) (\<lambda>w.
     assure (\<not> (ow_busy w \<or> ow_closed w \<or> ow_held w))
       (if ow_closed w then CLOSED else if ow_held w then HELD else BUSY))"

definition hold :: "('b, unit) spend_prog" where
  "hold = assign (apfst (\<lambda>w. w\<lparr>ow_held := True\<rparr>))"

definition refuse_held :: "spend_error \<Rightarrow> ('b, 'a) spend_prog" where
  "refuse_held e = andthen hold (\<lambda>_. raise e)"

definition call_cas :: "'b cas \<Rightarrow> json \<Rightarrow> ('b, cas_reply) spend_prog" where
  "call_cas cas raw = (\<lambda>(w, b). case cas (ow_current w) raw b of (b', reply, closes) \<Rightarrow>
     let w' = w\<lparr>ow_closed := ow_closed w \<or> closes\<rparr> in
     if reply = CasThrew \<or> ow_closed w'
     then refuse_held (if ow_closed w' then CLOSED else COMMIT_UNKNOWN) (w', b')
     else yield reply (w', b'))"

definition commit :: "'b cas \<Rightarrow> spend_policy \<Rightarrow> spend_state \<Rightarrow> ('b, unit) spend_prog" where
  "commit cas p next =
     andthen (gets (\<lambda>(w, b). ss_revision (ow_state w))) (\<lambda>revision.
     andthen (assure (revision < max_safe - 1) REVISION_EXHAUSTED) (\<lambda>_.
     let proposed = next\<lparr>ss_revision := revision + 1\<rparr>; raw = state_json p proposed in
     andthen (demand (decode p (Some raw)) CORRUPT) (\<lambda>_.
     andthen (call_cas cas raw) (\<lambda>observed.
     if observed \<noteq> CasText raw then refuse_held (if observed = CasNull then CONFLICT else COMMIT_UNKNOWN)
     else assign (apfst (\<lambda>w. w\<lparr>ow_current := Some raw, ow_state := proposed\<rparr>))))))"

definition set_busy :: "bool \<Rightarrow> spend_owner \<times> 'b \<Rightarrow> spend_owner \<times> 'b" where
  "set_busy x = apfst (\<lambda>w. w\<lparr>ow_busy := x\<rparr>)"

text \<open>\<open>change(work)\<close>: the work gives the next state, or \<open>None\<close> for the state it was given.\<close>

definition change :: "'b cas \<Rightarrow> spend_policy \<Rightarrow> ('b, spend_state option \<times> 'a) spend_prog \<Rightarrow> ('b, 'a) spend_prog" where
  "change cas p work = andthen usable (\<lambda>_ x. apfst (set_busy False)
     (andthen (assign (set_busy True)) (\<lambda>_.
      andthen work (\<lambda>(proposed, result).
      case proposed of None \<Rightarrow> yield result
      | Some next \<Rightarrow> andthen (commit cas p next) (\<lambda>_. yield result))) x))"

definition selected_day :: "jsval \<Rightarrow> ('b, int) spend_prog" where
  "selected_day v = andthen (demand (as_day v) DAY) (\<lambda>d.
     andthen (gets (\<lambda>(w, b). ss_lastDay (ow_state w))) (\<lambda>last_day.
     andthen (assure (last_day \<le> d) CLOCK_ROLLBACK) (\<lambda>_. yield d)))"

definition reserve_work :: "spend_policy \<Rightarrow> bool \<Rightarrow> jsval \<Rightarrow> jsval
    \<Rightarrow> ('b, spend_state option \<times> spend_row) spend_prog" where
  "reserve_work p singleOriginal input nowDay =
     andthen (selected_day nowDay) (\<lambda>d.
     andthen (lift_sum (new_reservation p input d)) (\<lambda>selected.
     andthen (gets (\<lambda>(w, b). ow_state w)) (\<lambda>s.
     if singleOriginal \<and> (\<exists>r \<in> set (ss_rows s). row_status r \<noteq> Spent) then refuse_held UNRESOLVED_ORIGINAL
     else andthen (assure (\<forall>r \<in> set (ss_rows s). row_paymentId r \<noteq> row_paymentId selected
         \<and> row_originalDigest r \<noteq> row_originalDigest selected) ORIGINAL_ALREADY_RESERVED) (\<lambda>_.
     andthen (assure (int (length (ss_rows s)) < sp_maxRecords p) RECORD_LIMIT) (\<lambda>_.
     let rows = ss_rows s @ [selected] in
     andthen (assure (total_exposure rows \<le> decimal_value (sp_maxTotal p)) TOTAL_LIMIT) (\<lambda>_.
     andthen (assure (daily_exposure d rows \<le> decimal_value (sp_maxDaily p)) DAILY_LIMIT) (\<lambda>_.
     yield (Some (s\<lparr>ss_lastDay := d, ss_rows := rows\<rparr>), selected))))))))"

text \<open>\<open>reserve\<close> and \<open>reserveSingleOriginal\<close> give the payment and the digest of the reserved original.\<close>

definition reserve_original :: "'b cas \<Rightarrow> spend_policy \<Rightarrow> bool \<Rightarrow> jsval \<Rightarrow> jsval
    \<Rightarrow> ('b, string \<times> string) spend_prog" where
  "reserve_original cas p singleOriginal input nowDay =
     andthen (change cas p (reserve_work p singleOriginal input nowDay)) (\<lambda>selected.
     yield (row_paymentId selected, row_originalDigest selected))"

fun first_index :: "('a \<Rightarrow> bool) \<Rightarrow> 'a list \<Rightarrow> nat option" where
  "first_index P [] = None"
| "first_index P (x # xs) = (if P x then Some 0 else map_option Suc (first_index P xs))"

definition observe_work :: "string \<Rightarrow> string \<Rightarrow> spend_status \<Rightarrow> jsval
    \<Rightarrow> ('b, spend_state option \<times> unit) spend_prog" where
  "observe_work paymentId originalDigest st nowDay =
     andthen (selected_day nowDay) (\<lambda>d.
     andthen (gets (\<lambda>(w, b). ow_state w)) (\<lambda>s.
     andthen (demand (first_index (\<lambda>r. row_paymentId r = paymentId) (ss_rows s)) ORIGINAL_MISMATCH) (\<lambda>i.
     let old = ss_rows s ! i in
     andthen (assure (row_originalDigest old = originalDigest) ORIGINAL_MISMATCH) (\<lambda>_.
     if row_status old = Spent then andthen (assure (st = Spent) DOWNGRADE) (\<lambda>_. yield (None, ()))
     else yield (Some (s\<lparr>ss_lastDay := d, ss_rows := (ss_rows s)[i := old\<lparr>row_status := st,
       row_spentDay := if st = Spent then Some d else None\<rparr>]\<rparr>), ())))))"

definition observe :: "'b cas \<Rightarrow> spend_policy \<Rightarrow> jsval \<Rightarrow> jsval \<Rightarrow> jsval \<Rightarrow> jsval \<Rightarrow> ('b, unit) spend_prog" where
  "observe cas p paymentId originalDigest st nowDay =
     andthen (demand (as_token paymentId) INPUT) (\<lambda>pid.
     andthen (demand (as_commitment originalDigest) INPUT) (\<lambda>digest.
     andthen (demand (satisfying (\<lambda>x. x \<noteq> Reserved) (as_status st)) STATUS) (\<lambda>status.
     change cas p (observe_work pid digest status nowDay))))"

record spend_inspection =
  si_revision :: int
  si_totalExposure :: string
  si_dailyExposure :: string
  si_unresolved :: nat
  si_records :: nat
  si_lastDay :: int
  si_held :: bool
  si_closed :: bool

definition inspect_owner :: "jsval \<Rightarrow> ('b, spend_inspection) spend_prog" where
  "inspect_owner nowDay = andthen usable (\<lambda>_. andthen (selected_day nowDay) (\<lambda>d.
     gets (\<lambda>(w, b). let s = ow_state w in \<lparr>si_revision = ss_revision s,
       si_totalExposure = nat_text (total_exposure (ss_rows s)),
       si_dailyExposure = nat_text (daily_exposure d (ss_rows s)),
       si_unresolved = unresolved_count (ss_rows s), si_records = length (ss_rows s),
       si_lastDay = ss_lastDay s, si_held = ow_held w, si_closed = ow_closed w\<rparr>)))"

definition close_owner :: "('b, unit) spend_prog" where
  "close_owner = assign (apfst (\<lambda>w. w\<lparr>ow_closed := True\<rparr>))"

definition snapshot_owner :: "('b, bool \<times> bool \<times> bool) spend_prog" where
  "snapshot_owner = gets (\<lambda>(w, b). (ow_busy w, ow_closed w, ow_held w))"

section \<open>The transition check\<close>

datatype transition_error =
    InvalidState | TransitionVersion | InitialReservation | HistoryReplacement | HistoryRemoval
  | OriginalReplacement | TransitionDowngrade | SpentDay | BatchTransition

text \<open>One pair of rows of two histories of equal length; the pairs are visited in order.\<close>

definition row_transition :: "int \<Rightarrow> spend_row \<times> spend_row \<Rightarrow> transition_error option" where
  "row_transition lastDay = (\<lambda>(old, item).
     if old = item then None
     else if \<not> (row_paymentId old = row_paymentId item \<and> row_originalDigest old = row_originalDigest item
         \<and> row_network old = row_network item \<and> row_asset old = row_asset item
         \<and> row_recipient old = row_recipient item \<and> row_amount old = row_amount item
         \<and> row_reservedDay old = row_reservedDay item) then Some OriginalReplacement
     else if row_status old = Spent \<or> row_status item = Reserved then Some TransitionDowngrade
     else if row_status item = Spent \<and> row_spentDay item \<noteq> Some lastDay then Some SpentDay
     else None)"

fun first_error :: "'e option list \<Rightarrow> 'e option" where
  "first_error [] = None"
| "first_error (None # xs) = first_error xs"
| "first_error (Some e # xs) = Some e"

definition rows_transition :: "spend_state \<Rightarrow> spend_state \<Rightarrow> transition_error option" where
  "rows_transition a b = (let pairs = zip (ss_rows a) (ss_rows b) in
     if length (ss_rows a) \<noteq> length (ss_rows b) then Some HistoryRemoval
     else case first_error (map (row_transition (ss_lastDay b)) pairs) of Some e \<Rightarrow> Some e
       | None \<Rightarrow> if 1 < length (filter (\<lambda>(x, y). x \<noteq> y) pairs) then Some BatchTransition else None)"

definition transition_refusal :: "bool \<Rightarrow> spend_state \<Rightarrow> spend_state \<Rightarrow> transition_error option" where
  "transition_refusal initial a b =
     (if ss_revision b \<noteq> ss_revision a + 1 \<or> ss_lastDay b < ss_lastDay a then Some TransitionVersion
      else if initial then
        (if ss_revision b = 1 \<and> length (ss_rows b) = 1 \<and> row_status (hd (ss_rows b)) = Reserved
            \<and> row_reservedDay (hd (ss_rows b)) = ss_lastDay b then None else Some InitialReservation)
      else if length (ss_rows b) = length (ss_rows a) + 1 then
        (if take (length (ss_rows a)) (ss_rows b) \<noteq> ss_rows a then Some HistoryReplacement
         else let added = last (ss_rows b) in
           if row_status added = Reserved \<and> row_spentDay added = None \<and> row_reservedDay added = ss_lastDay b
           then None else Some InitialReservation)
      else rows_transition a b)"

text \<open>
  \<open>requireOriginalFundingSpendingStateTransition\<close>; the rows are compared as texts, that is as
  records with their key order.
\<close>

definition require_transition :: "spend_policy \<Rightarrow> json option \<Rightarrow> json \<Rightarrow> transition_error + spend_state" where
  "require_transition p expected proposed =
     also_then (need InvalidState (decode p expected)) (\<lambda>a.
     also_then (need InvalidState (decode p (Some proposed))) (\<lambda>b.
     if expected = Some proposed then Inr b
     else case transition_refusal (expected = None) a b of Some e \<Rightarrow> Inl e | None \<Rightarrow> Inr b))"

end
