(* ===== verification/Spending_Validity.thy ===== *)
theory Spending_Validity
  imports Spending_Reservations
begin

text \<open>
  What the validation of the spending journal accepts: \<open>decode\<close> gives a state exactly when the
  text is the text of that state and the state is valid (\<open>state_ok\<close>). A valid state keeps every
  limit of its policy on every day, not only on its last one, and its text always fits the size
  bound.
\<close>

section \<open>Policies\<close>

definition policy_ok :: "spend_policy \<Rightarrow> bool" where
  "policy_ok p \<longleftrightarrow> token_text (sp_policyId p) \<and> token_text (sp_accountId p) \<and> token_text (sp_network p)
     \<and> token_text (sp_asset p) \<and> list_all token_text (sp_recipients p) \<and> distinct (sp_recipients p)
     \<and> 1 \<le> length (sp_recipients p) \<and> length (sp_recipients p) \<le> 16
     \<and> amount_text (sp_maxPayment p) \<and> amount_text (sp_maxTotal p) \<and> amount_text (sp_maxDaily p)
     \<and> decimal_value (sp_maxPayment p) \<le> decimal_value (sp_maxTotal p)
     \<and> decimal_value (sp_maxPayment p) \<le> decimal_value (sp_maxDaily p)
     \<and> 1 \<le> sp_maxRecords p \<and> sp_maxRecords p \<le> 1024"

lemma as_token_VStr [simp]: "as_token (VStr s) = (if token_text s then Some s else None)"
  by (simp add: as_token_def)

lemma as_amount_VStr [simp]: "as_amount (VStr s) = (if amount_text s then Some s else None)"
  by (simp add: as_amount_def)

lemma as_token_eq: "as_token v = Some s \<longleftrightarrow> v = VStr s \<and> token_text s"
  by (auto simp: as_token_def satisfying_eq_Some)

lemma as_amount_eq: "as_amount v = Some s \<longleftrightarrow> v = VStr s \<and> amount_text s"
  by (auto simp: as_amount_def satisfying_eq_Some)

lemma as_commitment_eq: "as_commitment v = Some s \<longleftrightarrow> v = VStr s \<and> commitment_text s"
  by (auto simp: as_commitment_def satisfying_eq_Some)

lemma as_tokens_eq: "all_some (map as_token vs) = Some ss \<longleftrightarrow> vs = map VStr ss \<and> list_all token_text ss"
proof (induction vs arbitrary: ss)
  case (Cons v vs)
  show ?case
  proof (cases "as_token v")
    case None
    then have "\<not> (\<exists>s. v = VStr s \<and> token_text s)" by (metis as_token_eq option.distinct(1))
    with None show ?thesis by (auto simp: Cons_eq_map_conv)
  next
    case (Some s)
    then have v: "v = VStr s" "token_text s" by (simp_all add: as_token_eq)
    show ?thesis using v by (cases ss) (auto simp: Cons.IH)
  qed
qed auto

lemma as_day_js: "as_day (js_of v) = Some n \<longleftrightarrow> v = JNum n \<and> day_number n"
proof -
  have "js_of v \<noteq> VNum NumNegZero" by (cases v) (auto simp: arr_def obj_def simp del: num_js_of)
  then show ?thesis
    by (auto simp: as_day_def satisfying_eq_Some safe_integer_js day_number_def safe_range_def max_safe_def)
qed

lemma policy_keys_distinct [simp]: "distinct policy_keys" "length policy_keys = 10"
  by (simp_all add: policy_keys_def)

lemma row_keys_distinct [simp]: "distinct row_member_keys" "length row_member_keys = 9"
  by (simp_all add: row_member_keys_def)

lemma capture_policy_ok: "capture_policy v = Some p \<Longrightarrow> policy_ok p"
  by (auto simp: capture_policy_def policy_ok_def bind_eq_Some_conv as_token_eq as_amount_eq as_tokens_eq
      dest!: exact_list_length)

lemmas token_readers = as_token_eq as_amount_eq as_tokens_eq as_commitment_eq exact_list_js as_day_js
  safe_integer_js bind_eq_Some_conv

lemma capture_policy_js:
  "capture_policy (js_of v) = Some p \<longleftrightarrow>
    policy_ok p \<and> (\<exists>ks. keys_of policy_keys ks \<and> v = in_order ks (policy_members p))"
  (is "?l \<longleftrightarrow> ?r")
proof
  assume l: ?l
  then obtain r where "exact_fields policy_keys (js_of v) = Some r"
    by (auto simp: capture_policy_def bind_eq_Some_conv)
  then obtain kvs where v: "v = JObj kvs" and dist: "distinct (map fst kvs)"
    and keys: "set (map fst kvs) = set policy_keys"
    and r: "exact_fields policy_keys (js_of v) = Some (map (\<lambda>k. (k, js_of (the (map_of kvs k)))) policy_keys)"
    using exact_fields_js [OF _ policy_keys_distinct(1)] by metis
  define g where "g k = the (map_of kvs k)" for k
  have "exact_fields policy_keys (js_of v) = Some (map (\<lambda>k. (k, js_of (g k))) policy_keys)"
    using r by (simp add: g_def)
  with l have "\<forall>k \<in> set policy_keys. g k = the (map_of (policy_members p) k)"
    by (auto simp: capture_policy_def policy_keys_def policy_members_def token_readers)
  then have "v = in_order (map fst kvs) (policy_members p)"
    unfolding v using dist keys by (intro in_order_ident) (simp_all add: g_def)
  with l dist keys show ?r using capture_policy_ok by (auto simp: keys_of_def)
next
  assume ?r
  then obtain ks where ok: "policy_ok p" and ks: "keys_of policy_keys ks" and v: "v = in_order ks (policy_members p)"
    by blast
  have tokens: "all_some (map as_token (map js_of (map JStr (sp_recipients p)))) = Some (sp_recipients p)"
    using ok by (simp only: as_tokens_eq) (simp add: policy_ok_def)
  have recipients: "exact_list 16 (js_of (JArr (map JStr (sp_recipients p)))) = Some (map js_of (map JStr (sp_recipients p)))"
    using ok by (simp only: exact_list_js) (simp add: policy_ok_def)
  have "exact_fields policy_keys (js_of v) = Some (map (\<lambda>k. (k, js_of (the (map_of (policy_members p) k)))) policy_keys)"
    unfolding v using ks keys_of_length [OF policy_keys_distinct(1) ks]
    by (intro exact_fields_in_order) (simp_all add: keys_of_def)
  then have f: "exact_fields policy_keys (js_of v) = Some [(''version'', num 1), (''policyId'', VStr (sp_policyId p)),
     (''accountId'', VStr (sp_accountId p)), (''network'', VStr (sp_network p)), (''asset'', VStr (sp_asset p)),
     (''recipients'', js_of (JArr (map JStr (sp_recipients p)))), (''maxPayment'', VStr (sp_maxPayment p)),
     (''maxTotal'', VStr (sp_maxTotal p)), (''maxDaily'', VStr (sp_maxDaily p)),
     (''maxRecords'', num (sp_maxRecords p))]"
    by (simp add: policy_keys_def policy_members_def)
  show ?l
    using ok tokens recipients
    by (simp add: capture_policy_def f policy_ok_def as_token_def as_amount_def safe_range_def max_safe_def
        del: js_of.simps map_map)
qed

section \<open>Rows\<close>

definition row_ok :: "spend_policy \<Rightarrow> int \<Rightarrow> spend_row \<Rightarrow> bool" where
  "row_ok p lastDay r \<longleftrightarrow> token_text (row_paymentId r) \<and> commitment_text (row_originalDigest r)
     \<and> row_network r = sp_network p \<and> row_asset r = sp_asset p \<and> row_recipient r \<in> set (sp_recipients p)
     \<and> amount_text (row_amount r) \<and> row_value r \<le> decimal_value (sp_maxPayment p)
     \<and> day_number (row_reservedDay r) \<and> row_reservedDay r \<le> lastDay
     \<and> (row_status r = Spent \<longleftrightarrow> row_spentDay r \<noteq> None)
     \<and> (\<forall>d. row_spentDay r = Some d \<longrightarrow> day_number d \<and> row_reservedDay r \<le> d \<and> d \<le> lastDay)
     \<and> keys_of row_member_keys (row_keys r)"

lemma row_okD:
  assumes "row_ok p lastDay r"
  shows "row_value r \<le> decimal_value (sp_maxPayment p)" "row_reservedDay r \<le> lastDay"
    "row_status r = Spent \<longleftrightarrow> row_spentDay r \<noteq> None"
    "row_spentDay r = Some d \<Longrightarrow> row_reservedDay r \<le> d \<and> d \<le> lastDay"
    "row_spentDay r = Some d \<Longrightarrow> day_number d"
  using assms by (simp_all add: row_ok_def)

lemma status_text_inject [simp]: "status_text a = status_text b \<longleftrightarrow> a = b"
  by (cases a; cases b) simp_all

lemma as_status_eq: "as_status v = Some st \<longleftrightarrow> v = VStr (status_text st)"
  by (cases st) (auto simp: as_status_def)

lemma reservation_fields_eq:
  assumes "policy_ok p"
  shows "reservation_fields p r d = Inr row \<longleftrightarrow> field ''paymentId'' r = VStr (row_paymentId row)
    \<and> token_text (row_paymentId row) \<and> field ''originalDigest'' r = VStr (row_originalDigest row)
    \<and> commitment_text (row_originalDigest row) \<and> field ''network'' r = VStr (sp_network p)
    \<and> field ''asset'' r = VStr (sp_asset p) \<and> field ''recipient'' r = VStr (row_recipient row)
    \<and> row_recipient row \<in> set (sp_recipients p) \<and> field ''amount'' r = VStr (row_amount row)
    \<and> amount_text (row_amount row) \<and> row_value row \<le> decimal_value (sp_maxPayment p)
    \<and> row_network row = sp_network p \<and> row_asset row = sp_asset p \<and> row_reservedDay row = d
    \<and> row_status row = Reserved \<and> row_spentDay row = None \<and> row_keys row = row_member_keys"
proof -
  have tokens: "token_text (sp_network p)" "token_text (sp_asset p)" "x \<in> set (sp_recipients p) \<Longrightarrow> token_text x" for x
    using assms by (auto simp: policy_ok_def list_all_iff)
  show ?thesis
    by (cases row) (auto simp: reservation_fields_def also_then_Inr original_texts_def token_readers row_value_def tokens)
qed

lemma decode_row_eq:
  assumes p: "policy_ok p"
  shows "decode_row p lastDay item = Some row \<longleftrightarrow> row_ok p lastDay row \<and> item = row_json row"
  (is "?l \<longleftrightarrow> ?r")
proof
  assume l: ?l
  then obtain r where r: "exact_fields row_member_keys (js_of item) = Some r"
    by (auto simp: decode_row_def bind_eq_Some_conv)
  then obtain kvs where v: "item = JObj kvs" and dist: "distinct (map fst kvs)"
    and keys: "set (map fst kvs) = set row_member_keys"
    and r': "r = map (\<lambda>k. (k, js_of (the (map_of kvs k)))) row_member_keys"
    using exact_fields_js [OF _ row_keys_distinct(1)] by metis
  define g where "g k = the (map_of kvs k)" for k
  have f: "field k r = js_of (g k)" if "k \<in> set row_member_keys" for k
    unfolding r' g_def using that by (rule field_map_Pair)
  have fs: "field ''paymentId'' r = js_of (g ''paymentId'')" "field ''originalDigest'' r = js_of (g ''originalDigest'')"
    "field ''network'' r = js_of (g ''network'')" "field ''asset'' r = js_of (g ''asset'')"
    "field ''recipient'' r = js_of (g ''recipient'')" "field ''amount'' r = js_of (g ''amount'')"
    "field ''reservedDay'' r = js_of (g ''reservedDay'')" "field ''status'' r = js_of (g ''status'')"
    "field ''spentDay'' r = js_of (g ''spentDay'')"
    by (intro f, simp add: row_member_keys_def)+
  have kk: "object_keys item = map fst kvs" by (simp add: v)
  from l obtain rd row0 st sd where day: "as_day (js_of (g ''reservedDay'')) = Some rd"
    and row0: "reservation_fields p r rd = Inr row0" and "rd \<le> lastDay"
    and st: "as_status (js_of (g ''status'')) = Some st"
    and sd: "(if st = Spent then map_option Some (as_day (field ''spentDay'' r))
       else if field ''spentDay'' r = VNull then Some None else None) = Some sd"
    and within: "case sd of None \<Rightarrow> True | Some d \<Rightarrow> rd \<le> d \<and> d \<le> lastDay"
    and row: "row = row0\<lparr>row_status := st, row_spentDay := sd, row_keys := map fst kvs\<rparr>"
    by (auto simp: decode_row_def r fs bind_eq_Some_conv kk)
  note row0' = row0 [unfolded reservation_fields_eq [OF p] fs js_of_VStr]
  have rd: "g ''reservedDay'' = JNum rd" "day_number rd" using day by (simp_all add: as_day_js)
  have st': "g ''status'' = JStr (status_text st)" using st by (simp add: as_status_eq)
  have sd': "g ''spentDay'' = (case sd of None \<Rightarrow> JNull | Some d \<Rightarrow> JNum d) \<and> (st = Spent \<longleftrightarrow> sd \<noteq> None)
      \<and> (\<forall>d. sd = Some d \<longrightarrow> day_number d)"
    using sd [unfolded fs] by (auto simp: as_day_js split: if_splits)
  have ks: "row_keys row = map fst kvs" by (simp add: row)
  have ok: "row_ok p lastDay row"
    using row0' rd sd' within \<open>rd \<le> lastDay\<close> dist keys
    by (simp add: row_ok_def row row_value_def keys_of_def split: option.splits)
  have "\<forall>k \<in> set row_member_keys. g k = the (map_of (row_members row) k)"
    using row0' rd st' sd' by (simp add: row row_members_def row_member_keys_def)
  with ok have body: "row_ok p lastDay row \<and> (\<forall>k \<in> set row_member_keys. g k = the (map_of (row_members row) k))"
    by simp
  then have "item = in_order (map fst kvs) (row_members row)"
    unfolding v using dist keys by (intro in_order_ident) (simp_all add: g_def)
  with body ks show ?r by (simp add: row_json_def)
next
  assume ?r
  then have ok: "row_ok p lastDay row" and v: "item = row_json row" by auto
  have ks: "keys_of row_member_keys (row_keys row)" using ok by (simp add: row_ok_def)
  have "exact_fields row_member_keys (js_of item) = Some (map (\<lambda>k. (k, js_of (the (map_of (row_members row) k)))) row_member_keys)"
    unfolding v row_json_def using ks keys_of_length [OF row_keys_distinct(1) ks]
    by (intro exact_fields_in_order) (simp_all add: keys_of_def)
  then obtain r where r: "exact_fields row_member_keys (js_of item) = Some r"
    and fs: "field ''paymentId'' r = VStr (row_paymentId row)" "field ''originalDigest'' r = VStr (row_originalDigest row)"
    "field ''network'' r = VStr (row_network row)" "field ''asset'' r = VStr (row_asset row)"
    "field ''recipient'' r = VStr (row_recipient row)" "field ''amount'' r = VStr (row_amount row)"
    "field ''reservedDay'' r = js_of (JNum (row_reservedDay row))" "field ''status'' r = VStr (status_text (row_status row))"
    "field ''spentDay'' r = js_of (case row_spentDay row of None \<Rightarrow> JNull | Some d \<Rightarrow> JNum d)"
    by (simp add: row_members_def row_member_keys_def)
  define row0 where "row0 = row\<lparr>row_status := Reserved, row_spentDay := None, row_keys := row_member_keys\<rparr>"
  have res: "reservation_fields p r (row_reservedDay row) = Inr row0"
    using ok unfolding reservation_fields_eq [OF p] by (simp add: row0_def row_ok_def fs row_value_def)
  have day: "as_day (field ''reservedDay'' r) = Some (row_reservedDay row)"
    using ok unfolding fs as_day_js by (simp add: row_ok_def)
  have spent: "(if row_status row = Spent then map_option Some (as_day (field ''spentDay'' r))
      else if field ''spentDay'' r = VNull then Some None else None) = Some (row_spentDay row)"
  proof (cases "row_spentDay row")
    case None
    then show ?thesis using ok by (simp add: row_ok_def fs)
  next
    case (Some d)
    then have "as_day (field ''spentDay'' r) = Some d"
      unfolding fs Some option.case as_day_js by (simp add: row_okD(5) [OF ok Some])
    with Some ok show ?thesis by (simp add: row_ok_def)
  qed
  have st: "as_status (field ''status'' r) = Some (row_status row)"
    by (simp add: fs as_status_eq)
  have keys: "object_keys item = row_keys row" by (simp add: v row_json_def)
  have within: "case row_spentDay row of None \<Rightarrow> True | Some d \<Rightarrow> row_reservedDay row \<le> d \<and> d \<le> lastDay"
    using row_okD(4) [OF ok] by (simp split: option.splits)
  show ?l
    by (simp only: decode_row_def r day res st keys spent bind.bind_lunit outcome_value.simps guard_simps
        row_okD(2) [OF ok] within) (simp add: row0_def)
qed

section \<open>States\<close>

definition state_ok :: "spend_policy \<Rightarrow> spend_state \<Rightarrow> bool" where
  "state_ok p s \<longleftrightarrow> keys_of policy_keys (ss_policyKeys s) \<and> 1 \<le> ss_revision s \<and> ss_revision s < max_safe
     \<and> day_number (ss_lastDay s) \<and> 1 \<le> length (ss_rows s) \<and> int (length (ss_rows s)) \<le> sp_maxRecords p
     \<and> (\<forall>r \<in> set (ss_rows s). row_ok p (ss_lastDay s) r)
     \<and> distinct (map row_paymentId (ss_rows s)) \<and> distinct (map row_originalDigest (ss_rows s))
     \<and> rows_within p (ss_lastDay s) (ss_rows s)"

lemma decode_rows_eq:
  assumes "policy_ok p"
  shows "all_some (map (decode_row p d) items) = Some rows
    \<longleftrightarrow> items = map row_json rows \<and> (\<forall>r \<in> set rows. row_ok p d r)"
proof (induction items arbitrary: rows)
  case (Cons v items)
  show ?case
  proof (cases "decode_row p d v")
    case None
    then have "\<not> (\<exists>r. v = row_json r \<and> row_ok p d r)" by (metis decode_row_eq [OF assms] option.distinct(1))
    with None show ?thesis by (auto simp: Cons_eq_map_conv)
  next
    case (Some r)
    then have v: "v = row_json r" "row_ok p d r" by (simp_all add: decode_row_eq [OF assms])
    have unique: "r' = r" if "row_json r = row_json r'" "row_ok p d r'" for r'
      using that Some v by (metis decode_row_eq [OF assms] option.inject)
    show ?thesis using v Some by (cases rows) (auto simp: Cons.IH dest: unique unique [OF sym])
  qed
qed auto

lemma decode_members_eq:
  assumes p: "policy_ok p"
  shows "decode_members p kvs = Some s \<longleftrightarrow> JObj kvs = state_json p s \<and> state_ok p s"
proof -
  have shape: "\<exists>v1 v2 v3 v4 v5. kvs = [(''version'', v1), (''policy'', v2), (''revision'', v3), (''lastDay'', v4),
      (''reservations'', v5)]" if "decode_members p kvs \<noteq> None \<or> JObj kvs = state_json p s"
    using that by (cases "(p, kvs)" rule: decode_members.cases)
      (auto simp: state_json_def state_member_keys_def bind_eq_Some_conv)
  show ?thesis
  proof (cases "decode_members p kvs \<noteq> None \<or> JObj kvs = state_json p s")
    case False
    then show ?thesis by auto
  next
    case True
    then obtain v1 v2 v3 v4 v5 where kvs: "kvs = [(''version'', v1), (''policy'', v2), (''revision'', v3),
        (''lastDay'', v4), (''reservations'', v5)]"
      using shape by blast
    have items: "array_items v5 = Some items \<longleftrightarrow> v5 = JArr items" for items
      by (cases v5) auto
    have revision: "safe_range n \<Longrightarrow> n \<noteq> max_safe \<Longrightarrow> n < max_safe"
      "1 \<le> n \<Longrightarrow> n < max_safe \<Longrightarrow> safe_range n" for n
      by (auto simp: safe_range_def max_safe_def)
    have s_eta: "\<lparr>ss_policyKeys = ss_policyKeys s, ss_revision = ss_revision s, ss_lastDay = ss_lastDay s,
        ss_rows = ss_rows s\<rparr> = s"
      by simp
    have "decode_members p kvs = Some s \<longleftrightarrow> v1 = JNum 1 \<and> capture_policy (js_of v2) = Some p
      \<and> object_keys v2 = ss_policyKeys s \<and> v3 = JNum (ss_revision s) \<and> v4 = JNum (ss_lastDay s)
      \<and> v5 = JArr (map row_json (ss_rows s)) \<and> 1 \<le> ss_revision s \<and> ss_revision s < max_safe
      \<and> day_number (ss_lastDay s) \<and> 1 \<le> length (ss_rows s) \<and> int (length (ss_rows s)) \<le> sp_maxRecords p
      \<and> (\<forall>r \<in> set (ss_rows s). row_ok p (ss_lastDay s) r)
      \<and> distinct (map row_paymentId (ss_rows s)) \<and> distinct (map row_originalDigest (ss_rows s))
      \<and> rows_within p (ss_lastDay s) (ss_rows s)"
      unfolding kvs decode_members.simps
      by (auto simp: state_member_keys_def bind_eq_Some_conv items safe_integer_js as_day_js decode_rows_eq [OF p]
          intro: revision intro!: exI [of _ "ss_rows s"])
    also have "\<dots> \<longleftrightarrow> JObj kvs = state_json p s \<and> state_ok p s"
      unfolding kvs state_json_def state_ok_def using p by (auto simp: capture_policy_js)
    finally show ?thesis .
  qed
qed

end
