(* ===== verification/Spending_Limits.thy ===== *)
theory Spending_Limits
  imports Spending_Validity
begin

text \<open>
  The limits a valid journal keeps, on every day of its history, and the size of its text. The
  incremental check of the event days (\<open>history_within\<close>) is compared with the exposure of a day
  read off the rows directly.
\<close>

section \<open>Exposure of a day\<close>

definition value_of :: "(spend_row \<Rightarrow> bool) \<Rightarrow> spend_row list \<Rightarrow> nat" where
  "value_of P rows = sum_list (map row_value (filter P rows))"

definition not_before :: "int \<Rightarrow> spend_row \<Rightarrow> bool" where
  "not_before d r \<longleftrightarrow> (case row_spentDay r of None \<Rightarrow> True | Some e \<Rightarrow> d \<le> e)"

text \<open>The originals that count on a day: reserved by then, and unresolved or spent no earlier.\<close>

definition exposure_on :: "int \<Rightarrow> spend_row list \<Rightarrow> nat" where
  "exposure_on d rows = value_of (\<lambda>r. row_reservedDay r \<le> d \<and> not_before d r) rows"

definition ordered_days :: "spend_row list \<Rightarrow> bool" where
  "ordered_days rows \<longleftrightarrow> (\<forall>r \<in> set rows. \<forall>e. row_spentDay r = Some e \<longrightarrow> row_reservedDay r \<le> e)"

lemma value_of_simps [simp]:
  "value_of P [] = 0"
  "value_of P (r # rows) = (if P r then row_value r else 0) + value_of P rows"
  "value_of P (rows @ rows') = value_of P rows + value_of P rows'"
  by (simp_all add: value_of_def)

lemma value_of_mono: "(\<And>r. r \<in> set rows \<Longrightarrow> P r \<Longrightarrow> Q r) \<Longrightarrow> value_of P rows \<le> value_of Q rows"
  by (induction rows) (auto intro: add_mono trans_le_add2)

lemma value_of_cong: "(\<And>r. r \<in> set rows \<Longrightarrow> P r = Q r) \<Longrightarrow> value_of P rows = value_of Q rows"
  by (simp add: value_of_def cong: filter_cong)

lemma value_of_split:
  "(\<And>r. r \<in> set rows \<Longrightarrow> P r \<longleftrightarrow> Q r \<noteq> R r) \<Longrightarrow> (\<And>r. r \<in> set rows \<Longrightarrow> \<not> (Q r \<and> R r))
    \<Longrightarrow> value_of P rows = value_of Q rows + value_of R rows"
  by (induction rows) auto

lemma not_before_mono: "not_before d r \<Longrightarrow> c \<le> d \<Longrightarrow> not_before c r"
  by (auto simp: not_before_def split: option.splits)

lemma carried_starts:
  assumes "ordered_days rows"
  shows "value_of (\<lambda>r. row_reservedDay r < d \<and> not_before d r) rows + starts_on d rows = exposure_on d rows"
proof -
  have "starts_on d rows = value_of (\<lambda>r. row_reservedDay r = d) rows"
    by (simp add: starts_on_def value_of_def)
  moreover have "exposure_on d rows = value_of (\<lambda>r. row_reservedDay r < d \<and> not_before d r) rows
      + value_of (\<lambda>r. row_reservedDay r = d) rows"
    unfolding exposure_on_def using assms
    by (intro value_of_split) (auto simp: not_before_def ordered_days_def split: option.splits)
  ultimately show ?thesis by simp
qed

lemma exposure_ends:
  assumes "ordered_days rows"
  shows "exposure_on d rows - ends_on d rows
    = value_of (\<lambda>r. row_reservedDay r \<le> d \<and> not_before (d + 1) r) rows"
proof -
  have "ends_on d rows = value_of (\<lambda>r. row_spentDay r = Some d) rows"
    by (simp add: ends_on_def value_of_def)
  moreover have "exposure_on d rows = value_of (\<lambda>r. row_spentDay r = Some d) rows
      + value_of (\<lambda>r. row_reservedDay r \<le> d \<and> not_before (d + 1) r) rows"
    unfolding exposure_on_def using assms
    by (intro value_of_split) (auto simp: not_before_def ordered_days_def split: option.splits)
  ultimately show ?thesis by simp
qed

definition days_of :: "spend_row \<Rightarrow> int set" where
  "days_of r = insert (row_reservedDay r) (set_option (row_spentDay r))"

lemma set_event_days: "set (event_days rows) = (\<Union>r \<in> set rows. days_of r)"
  by (auto simp: event_days_def days_of_def split: option.splits)

lemma strict_event_days: "sorted_wrt (<) (event_days rows)"
  by (simp add: event_days_def strict_sorted_iff)

lemma history_within_suffix:
  assumes "ordered_days rows" and "sorted_wrt (<) ds"
    and "\<And>r e d. r \<in> set rows \<Longrightarrow> e \<in> days_of r \<Longrightarrow> d \<in> set ds \<Longrightarrow> e \<in> set ds \<or> e < d"
    and "ds \<noteq> [] \<Longrightarrow> h = value_of (\<lambda>r. row_reservedDay r < hd ds \<and> not_before (hd ds) r) rows"
  shows "history_within limit rows h ds \<longleftrightarrow> (\<forall>d \<in> set ds. exposure_on d rows \<le> limit)"
  using assms(2-)
proof (induction ds arbitrary: h)
  case (Cons d ds)
  have peak: "h + starts_on d rows = exposure_on d rows"
    using carried_starts [OF assms(1)] Cons.prems(3) by simp
  have "history_within limit rows (exposure_on d rows - ends_on d rows) ds
      \<longleftrightarrow> (\<forall>d \<in> set ds. exposure_on d rows \<le> limit)"
  proof (rule Cons.IH)
    show "sorted_wrt (<) ds" using Cons.prems(1) by simp
  next
    fix r e c
    assume r: "r \<in> set rows" "e \<in> days_of r" and "c \<in> set ds"
    then have "d < c" using Cons.prems(1) by simp
    then show "e \<in> set ds \<or> e < c" using Cons.prems(2) [OF r, of d] by auto
  next
    assume "ds \<noteq> []"
    then obtain c cs where ds: "ds = c # cs" by (cases ds) auto
    then have "d < c" using Cons.prems(1) by simp
    have gap: "e \<le> d \<or> c \<le> e" if "r \<in> set rows" "e \<in> days_of r" for r e
      using Cons.prems(2) [OF that, of d] Cons.prems(1) ds by auto
    have "value_of (\<lambda>r. row_reservedDay r \<le> d \<and> not_before (d + 1) r) rows
        = value_of (\<lambda>r. row_reservedDay r < hd ds \<and> not_before (hd ds) r) rows"
    proof (rule value_of_cong)
      fix r assume r: "r \<in> set rows"
      have res: "row_reservedDay r \<le> d \<or> c \<le> row_reservedDay r"
        by (rule gap [OF r]) (simp add: days_of_def)
      have "e \<le> d \<or> c \<le> e" if "row_spentDay r = Some e" for e
        by (rule gap [OF r]) (simp add: days_of_def that)
      then show "(row_reservedDay r \<le> d \<and> not_before (d + 1) r)
          = (row_reservedDay r < hd ds \<and> not_before (hd ds) r)"
        using res \<open>d < c\<close> by (auto simp: ds not_before_def split: option.splits)
    qed
    then show "exposure_on d rows - ends_on d rows
        = value_of (\<lambda>r. row_reservedDay r < hd ds \<and> not_before (hd ds) r) rows"
      using exposure_ends [OF assms(1)] by simp
  qed
  then show ?case by (simp add: peak)
qed simp

text \<open>Between event days the exposure is no larger than on the last day something was reserved.\<close>

lemma exposure_peak:
  assumes "\<And>d. d \<in> set (event_days rows) \<Longrightarrow> exposure_on d rows \<le> limit"
  shows "exposure_on d rows \<le> limit"
proof (cases "\<exists>r \<in> set rows. row_reservedDay r \<le> d")
  case False
  then have "exposure_on d rows = value_of (\<lambda>_. False) rows"
    unfolding exposure_on_def by (intro value_of_cong) auto
  then show ?thesis by (simp add: value_of_def)
next
  case True
  define days where "days = row_reservedDay ` {r \<in> set rows. row_reservedDay r \<le> d}"
  have fin: "finite days" "days \<noteq> {}" using True by (auto simp: days_def)
  then have last_day: "Max days \<in> days" by (rule Max_in)
  have "exposure_on d rows \<le> exposure_on (Max days) rows"
    unfolding exposure_on_def
  proof (rule value_of_mono)
    fix r assume "r \<in> set rows" and r: "row_reservedDay r \<le> d \<and> not_before d r"
    then have "row_reservedDay r \<le> Max days" by (intro Max_ge fin) (auto simp: days_def)
    moreover have "Max days \<le> d" using last_day by (auto simp: days_def)
    ultimately show "row_reservedDay r \<le> Max days \<and> not_before (Max days) r"
      using r not_before_mono by blast
  qed
  also have "\<dots> \<le> limit"
    using last_day by (intro assms) (auto simp: days_def set_event_days days_of_def)
  finally show ?thesis .
qed

lemma history_within_iff:
  assumes "ordered_days rows"
  shows "history_within limit rows 0 (event_days rows) \<longleftrightarrow> (\<forall>d. exposure_on d rows \<le> limit)"
proof -
  have first: "0 = value_of (\<lambda>r. row_reservedDay r < hd (event_days rows) \<and> not_before (hd (event_days rows)) r) rows"
    if "event_days rows \<noteq> []"
  proof -
    have "hd (event_days rows) \<le> row_reservedDay r" if "r \<in> set rows" for r
    proof -
      have "row_reservedDay r \<in> set (event_days rows)"
        using that by (auto simp: set_event_days days_of_def)
      then show ?thesis using strict_event_days [of rows] by (cases "event_days rows") auto
    qed
    then have "value_of (\<lambda>r. row_reservedDay r < hd (event_days rows) \<and> not_before (hd (event_days rows)) r) rows
        = value_of (\<lambda>_. False) rows"
      by (intro value_of_cong) fastforce
    then show ?thesis by (simp add: value_of_def)
  qed
  have "history_within limit rows 0 (event_days rows)
      \<longleftrightarrow> (\<forall>d \<in> set (event_days rows). exposure_on d rows \<le> limit)"
    by (rule history_within_suffix [OF assms strict_event_days _ first]) (auto simp: set_event_days)
  then show ?thesis using exposure_peak by blast
qed

lemma total_exposure_value: "total_exposure rows = value_of (\<lambda>_. True) rows"
  by (simp add: total_exposure_def value_of_def)

lemma daily_exposure_on:
  assumes "\<And>r. r \<in> set rows \<Longrightarrow> row_ok p d r"
  shows "daily_exposure d rows = exposure_on d rows"
proof -
  have "(row_status r \<noteq> Spent \<or> row_spentDay r = Some d) = (row_reservedDay r \<le> d \<and> not_before d r)"
    if "r \<in> set rows" for r
    using row_okD [OF assms [OF that]] by (auto simp: not_before_def split: option.splits)
  then have "filter (\<lambda>r. row_status r \<noteq> Spent \<or> row_spentDay r = Some d) rows
      = filter (\<lambda>r. row_reservedDay r \<le> d \<and> not_before d r) rows"
    by (intro filter_cong refl)
  then show ?thesis
    by (simp add: daily_exposure_def exposure_on_def value_of_def)
qed

lemma rows_ordered: "(\<And>r. r \<in> set rows \<Longrightarrow> row_ok p d r) \<Longrightarrow> ordered_days rows"
  unfolding ordered_days_def by (metis row_okD(4))

lemma rows_within_iff:
  assumes "\<And>r. r \<in> set rows \<Longrightarrow> row_ok p d r"
  shows "rows_within p d rows \<longleftrightarrow> total_exposure rows \<le> decimal_value (sp_maxTotal p)
    \<and> (\<forall>c. exposure_on c rows \<le> decimal_value (sp_maxDaily p))"
proof -
  have "ordered_days rows" using assms by (rule rows_ordered)
  moreover have "daily_exposure d rows = exposure_on d rows" using assms by (rule daily_exposure_on)
  ultimately show ?thesis by (auto simp: rows_within_def history_within_iff)
qed

section \<open>The size of the text\<close>

lemma token_size: "token_text s \<Longrightarrow> length (string_text s) \<le> 130"
proof -
  assume s: "token_text s"
  then have "list_all identifier_char s"
    by (cases s) (auto simp: token_text_def alnum_identifier)
  then show ?thesis using s by (simp add: plain_length plain_identifier token_text_def)
qed

lemma amount_size: "amount_text s \<Longrightarrow> length (string_text s) \<le> 79"
proof -
  assume s: "amount_text s"
  then have "list_all identifier_char s"
    by (auto simp: amount_text_def positive_decimal_def list_all_iff identifier_char_def is_alnum_def)
  then show ?thesis using s by (simp add: plain_length plain_identifier amount_text_def)
qed

lemma day_size: "day_number n \<Longrightarrow> length (int_text n) \<le> 10"
  by (rule int_text_size) (auto simp: day_number_def)

lemma row_size:
  assumes p: "policy_ok p" and r: "row_ok p d r"
  shows "length (stringify (row_json r)) \<le> 820"
proof -
  have tokens: "token_text (row_paymentId r)" "token_text (row_network r)" "token_text (row_asset r)"
    "token_text (row_recipient r)"
    using p r by (auto simp: row_ok_def policy_ok_def list_all_iff)
  have spent: "length (stringify (case row_spentDay r of None \<Rightarrow> JNull | Some d \<Rightarrow> JNum d)) \<le> 10"
    using row_okD(5) [OF r] by (simp add: day_size split: option.splits)
  have status: "length (string_text (status_text (row_status r))) \<le> 10"
  proof -
    have "length (string_text (status_text st)) \<le> 10" for st
      by (cases st; simp only:; code_simp)
    then show ?thesis .
  qed
  have keys: "length (string_text ''paymentId'') = 11" "length (string_text ''originalDigest'') = 16"
    "length (string_text ''network'') = 9" "length (string_text ''asset'') = 7"
    "length (string_text ''recipient'') = 11" "length (string_text ''amount'') = 8"
    "length (string_text ''reservedDay'') = 13" "length (string_text ''status'') = 8"
    "length (string_text ''spentDay'') = 10"
    by code_simp+
  have reserved: "length (int_text (row_reservedDay r)) \<le> 10"
    using r by (simp add: day_size row_ok_def)
  have "length (stringify (row_json r)) \<le> 2 + sum_list (map (\<lambda>k. member_size (k, the (map_of (row_members r) k))) row_member_keys)"
    unfolding row_json_def using r by (intro in_order_size) (simp_all add: row_ok_def)
  also have "\<dots> \<le> 820"
    using tokens [THEN token_size] spent status reserved r [unfolded row_ok_def]
      amount_size [of "row_amount r"] commitment_size [of "row_originalDigest r"]
    by (simp add: row_member_keys_def row_members_def member_size_def keys)
  finally show ?thesis .
qed

lemma policy_size:
  assumes p: "policy_ok p" and ks: "keys_of policy_keys ks"
  shows "length (stringify (in_order ks (policy_members p))) \<le> 3000"
proof -
  have keys: "length (string_text ''version'') = 9" "length (string_text ''policyId'') = 10"
    "length (string_text ''accountId'') = 11" "length (string_text ''network'') = 9"
    "length (string_text ''asset'') = 7" "length (string_text ''recipients'') = 12"
    "length (string_text ''maxPayment'') = 12" "length (string_text ''maxTotal'') = 10"
    "length (string_text ''maxDaily'') = 10" "length (string_text ''maxRecords'') = 12"
    by code_simp+
  have recipients: "length (stringify (JArr (map JStr (sp_recipients p)))) \<le> 2 + 16 * 131"
  proof -
    have "length (stringify v) \<le> 130" if "v \<in> set (map JStr (sp_recipients p))" for v
      using that p by (auto simp: policy_ok_def list_all_iff token_size)
    then have "length (stringify (JArr (map JStr (sp_recipients p)))) \<le> 2 + length (map JStr (sp_recipients p)) * (130 + 1)"
      by (rule array_size)
    then show ?thesis using p by (simp add: policy_ok_def)
  qed
  have records: "length (int_text (sp_maxRecords p)) \<le> 4"
    using p by (intro int_text_size) (auto simp: policy_ok_def)
  have one: "length (int_text 1) \<le> 1" by (rule int_text_size) simp_all
  have "length (stringify (in_order ks (policy_members p)))
      \<le> 2 + sum_list (map (\<lambda>k. member_size (k, the (map_of (policy_members p) k))) policy_keys)"
    using ks by (rule in_order_size) simp
  also have "\<dots> \<le> 3000"
    using p [unfolded policy_ok_def] recipients records one
      token_size [of "sp_policyId p"] token_size [of "sp_accountId p"] token_size [of "sp_network p"]
      token_size [of "sp_asset p"] amount_size [of "sp_maxPayment p"] amount_size [of "sp_maxTotal p"]
      amount_size [of "sp_maxDaily p"]
    by (simp add: policy_keys_def policy_members_def member_size_def keys del: stringify.simps(5))
  finally show ?thesis .
qed

lemma state_size:
  assumes p: "policy_ok p" and s: "state_ok p s"
  shows "length (stringify (state_json p s)) \<le> max_state_bytes"
proof -
  have keys: "length (string_text ''version'') = 9" "length (string_text ''policy'') = 8"
    "length (string_text ''revision'') = 10" "length (string_text ''lastDay'') = 9"
    "length (string_text ''reservations'') = 14"
    by code_simp+
  have rows: "length (stringify (JArr (map row_json (ss_rows s)))) \<le> 2 + length (ss_rows s) * (820 + 1)"
    using s array_size [of "map row_json (ss_rows s)" 820] row_size [OF p] by (auto simp: state_ok_def)
  have count: "length (ss_rows s) \<le> 1024"
    using p s by (simp add: policy_ok_def state_ok_def)
  have revision: "length (int_text (ss_revision s)) \<le> 16"
    using s by (intro int_text_size) (auto simp: state_ok_def max_safe_def)
  have day: "length (int_text (ss_lastDay s)) \<le> 10"
    using s by (intro day_size) (simp add: state_ok_def)
  have policy: "length (stringify (in_order (ss_policyKeys s) (policy_members p))) \<le> 3000"
    using s by (intro policy_size p) (simp add: state_ok_def)
  have one: "length (int_text 1) \<le> 1" by (rule int_text_size) simp_all
  have "length (stringify (state_json p s)) \<le> 2 + sum_list (map member_size [(''version'', JNum 1),
      (''policy'', in_order (ss_policyKeys s) (policy_members p)), (''revision'', JNum (ss_revision s)),
      (''lastDay'', JNum (ss_lastDay s)), (''reservations'', JArr (map row_json (ss_rows s)))])"
    unfolding state_json_def by (rule object_size)
  also have "\<dots> \<le> max_state_bytes"
    using rows count revision day policy one
    by (simp add: member_size_def keys max_state_bytes_def del: stringify.simps(5))
  finally show ?thesis .
qed

text \<open>What \<open>decode\<close> accepts.\<close>

lemma decode_Some_eq:
  assumes "policy_ok p"
  shows "decode p (Some v) = Some s \<longleftrightarrow> v = state_json p s \<and> state_ok p s"
proof (cases v)
  case (JObj kvs)
  then show ?thesis
    using decode_members_eq [OF assms, of kvs s] state_size [OF assms, of s]
    by (auto simp del: stringify.simps)
qed (auto simp: state_json_def)

end
