(* ===== verification/Spending_Owner.thy ===== *)
theory Spending_Owner
  imports Spending_Limits
begin

text \<open>
  What the owner of a spending journal does, as a relation: an operation leaves everything as it
  was, closes or holds the owner, or makes one swap of a lawful change, after which the owner has
  either moved to the new state or is held. \<open>sound_op\<close> says that an operation stays within the
  relation for every backend; it is proved for each operation from its weakest precondition.
\<close>

section \<open>Lawful changes of the journal\<close>

definition base_ok :: "spend_policy \<Rightarrow> spend_state \<Rightarrow> bool" where
  "base_ok p s \<longleftrightarrow> s = initial_state \<or> state_ok p s"

text \<open>One new unresolved original, or one unresolved original observed.\<close>

inductive spend_change :: "spend_policy \<Rightarrow> bool \<Rightarrow> spend_state \<Rightarrow> spend_state \<Rightarrow> bool" for p single s where
  add: "row_status r = Reserved \<Longrightarrow> row_spentDay r = None \<Longrightarrow> row_reservedDay r = d \<Longrightarrow> ss_lastDay s \<le> d
    \<Longrightarrow> (single \<Longrightarrow> \<forall>q \<in> set (ss_rows s). row_status q = Spent)
    \<Longrightarrow> spend_change p single s (s\<lparr>ss_revision := ss_revision s + 1, ss_lastDay := d, ss_rows := ss_rows s @ [r]\<rparr>)"
| resolve: "i < length (ss_rows s) \<Longrightarrow> ss_rows s ! i = old \<Longrightarrow> row_status old \<noteq> Spent \<Longrightarrow> st \<noteq> Reserved
    \<Longrightarrow> ss_lastDay s \<le> d
    \<Longrightarrow> spend_change p single s (s\<lparr>ss_revision := ss_revision s + 1, ss_lastDay := d,
      ss_rows := (ss_rows s)[i := old\<lparr>row_status := st, row_spentDay := if st = Spent then Some d else None\<rparr>]\<rparr>)"

inductive_cases spend_changeE: "spend_change p single s t"

lemma row_ok_later: "row_ok p c r \<Longrightarrow> c \<le> d \<Longrightarrow> row_ok p d r"
  by (force simp: row_ok_def)

lemma new_reservation_ok:
  assumes p: "policy_ok p" and r: "new_reservation p input d = Inr r" and d: "day_number d"
  shows "row_ok p d r" "row_status r = Reserved" "row_spentDay r = None" "row_reservedDay r = d"
proof -
  from r obtain f where "reservation_fields p f d = Inr r"
    by (auto simp: new_reservation_def also_then_Inr)
  note f = this [unfolded reservation_fields_eq [OF p]]
  then show "row_ok p d r" "row_status r = Reserved" "row_spentDay r = None" "row_reservedDay r = d"
    using d by (simp_all add: row_ok_def)
qed

lemma base_rows:
  assumes "base_ok p s"
  shows "\<forall>r \<in> set (ss_rows s). row_ok p (ss_lastDay s) r" "distinct (map row_paymentId (ss_rows s))"
    "distinct (map row_originalDigest (ss_rows s))" "\<forall>c. exposure_on c (ss_rows s) \<le> decimal_value (sp_maxDaily p)"
    "total_exposure (ss_rows s) \<le> decimal_value (sp_maxTotal p)" "keys_of policy_keys (ss_policyKeys s)"
    "0 \<le> ss_revision s"
  using assms rows_within_iff [of "ss_rows s" p "ss_lastDay s"]
  by (auto simp: base_ok_def initial_state_def state_ok_def exposure_on_def total_exposure_def)

lemma add_ok:
  assumes p: "policy_ok p" and s: "base_ok p s" and d: "day_number d" "ss_lastDay s \<le> d"
    and r: "new_reservation p input d = Inr r"
    and fresh: "\<forall>q \<in> set (ss_rows s). row_paymentId q \<noteq> row_paymentId r \<and> row_originalDigest q \<noteq> row_originalDigest r"
    and count: "int (length (ss_rows s)) < sp_maxRecords p"
    and total: "total_exposure (ss_rows s @ [r]) \<le> decimal_value (sp_maxTotal p)"
    and daily: "daily_exposure d (ss_rows s @ [r]) \<le> decimal_value (sp_maxDaily p)"
    and revision: "ss_revision s < max_safe - 1"
  shows "state_ok p (s\<lparr>ss_revision := ss_revision s + 1, ss_lastDay := d, ss_rows := ss_rows s @ [r]\<rparr>)"
proof -
  note r' = new_reservation_ok [OF p r d(1)]
  note s' = base_rows [OF s]
  have rows: "\<forall>q \<in> set (ss_rows s @ [r]). row_ok p d q"
    using s'(1) r'(1) d(2) by (auto intro: row_ok_later)
  have "exposure_on c (ss_rows s @ [r]) \<le> decimal_value (sp_maxDaily p)" for c
  proof (cases "c < d")
    case True
    then have "exposure_on c (ss_rows s @ [r]) = exposure_on c (ss_rows s)"
      by (simp add: exposure_on_def r'(4))
    then show ?thesis using s'(4) by simp
  next
    case False
    have "exposure_on c (ss_rows s @ [r]) \<le> value_of (\<lambda>q. row_status q \<noteq> Spent \<or> row_spentDay q = Some d) (ss_rows s @ [r])"
      unfolding exposure_on_def
    proof (rule value_of_mono)
      fix q assume q: "q \<in> set (ss_rows s @ [r])" and on: "row_reservedDay q \<le> c \<and> not_before c q"
      have ok: "row_ok p d q" using rows q by blast
      show "row_status q \<noteq> Spent \<or> row_spentDay q = Some d"
        using on False row_okD(3,4) [OF ok] by (auto simp: not_before_def split: option.splits)
    qed
    then show ?thesis using daily by (simp add: value_of_def daily_exposure_def)
  qed
  then have "rows_within p d (ss_rows s @ [r])"
    using total rows by (subst rows_within_iff) auto
  then show ?thesis
    using rows s' d fresh count revision by (auto simp: state_ok_def)
qed

lemma value_update_le:
  "i < length xs \<Longrightarrow> row_value new = row_value (xs ! i) \<Longrightarrow> (P new \<Longrightarrow> P (xs ! i))
    \<Longrightarrow> value_of P (xs[i := new]) \<le> value_of P xs"
  by (induction xs arbitrary: i) (auto split: nat.splits)

lemma resolve_ok:
  assumes s: "base_ok p s" and i: "i < length (ss_rows s)" and old: "ss_rows s ! i = old" "row_status old \<noteq> Spent"
    and d: "day_number d" "ss_lastDay s \<le> d" and revision: "ss_revision s < max_safe - 1"
    and new: "new = old\<lparr>row_status := st, row_spentDay := if st = Spent then Some d else None\<rparr>"
  shows "state_ok p (s\<lparr>ss_revision := ss_revision s + 1, ss_lastDay := d, ss_rows := (ss_rows s)[i := new]\<rparr>)"
proof -
  note s' = base_rows [OF s]
  have sok: "state_ok p s" using s i by (auto simp: base_ok_def initial_state_def)
  have old_in: "old \<in> set (ss_rows s)" using i old by auto
  have old_ok: "row_ok p d old" using s'(1) old_in d(2) row_ok_later by blast
  have new_ok: "row_ok p d new"
    using old_ok old(2) d by (auto simp: new row_ok_def row_value_def)
  have rows: "\<forall>q \<in> set ((ss_rows s)[i := new]). row_ok p d q"
    using s'(1) new_ok d(2) by (auto intro: row_ok_later dest!: set_update_subset_insert [THEN subsetD])
  have same: "map f ((ss_rows s)[i := new]) = map f (ss_rows s)" if "f new = f old" for f :: "spend_row \<Rightarrow> 'x"
    using that old i by (metis list_update_id map_update)
  have ids: "map row_paymentId ((ss_rows s)[i := new]) = map row_paymentId (ss_rows s)"
    "map row_originalDigest ((ss_rows s)[i := new]) = map row_originalDigest (ss_rows s)"
    "map row_value ((ss_rows s)[i := new]) = map row_value (ss_rows s)"
    by (rule same, simp add: new row_value_def)+
  have "exposure_on c ((ss_rows s)[i := new]) \<le> decimal_value (sp_maxDaily p)" for c
  proof -
    have "not_before c old" using old(2) row_okD(3) [OF old_ok] by (auto simp: not_before_def split: option.splits)
    then have "exposure_on c ((ss_rows s)[i := new]) \<le> exposure_on c (ss_rows s)"
      unfolding exposure_on_def using i old by (intro value_update_le) (simp_all add: new row_value_def)
    also have "\<dots> \<le> decimal_value (sp_maxDaily p)" using s'(4) by simp
    finally show ?thesis .
  qed
  then have "rows_within p d ((ss_rows s)[i := new])"
    using s'(5) rows by (subst rows_within_iff) (auto simp: total_exposure_def ids)
  then show ?thesis
    using rows s' d revision sok i by (simp add: state_ok_def ids)
qed

text \<open>The store accepts every lawful change of the state whose text it holds.\<close>

lemma zip_update_filter:
  "i < length xs \<Longrightarrow> length (filter (\<lambda>(x, y). x \<noteq> y) (zip xs (xs[i := v]))) \<le> 1"
proof -
  have "length (filter (\<lambda>(x, y). x \<noteq> y) (zip ys ys)) = 0" for ys :: "'a list"
    by (induction ys) auto
  then show "i < length xs \<Longrightarrow> length (filter (\<lambda>(x, y). x \<noteq> y) (zip xs (xs[i := v]))) \<le> 1"
    by (induction xs arbitrary: i) (auto split: nat.splits)
qed

lemma first_error_None: "first_error xs = None \<longleftrightarrow> (\<forall>x \<in> set xs. x = None)"
proof (induction xs)
  case (Cons x xs)
  then show ?case by (cases x) auto
qed simp

lemma zip_update_pairs:
  "(x, y) \<in> set (zip xs (xs[i := v])) \<Longrightarrow> x = y \<or> x = xs ! i \<and> y = v"
proof (induction xs arbitrary: i)
  case (Cons a xs)
  then show ?case by (cases i) (auto dest: in_set_zipE simp: zip_same)
qed simp

lemma change_accepted:
  assumes s: "base_ok p s" and change: "spend_change p single s t" and t: "state_ok p t"
  shows "transition_refusal (s = initial_state) s t = None"
  using change
proof cases
  case (add r d)
  show ?thesis
  proof (cases "s = initial_state")
    case True
    then show ?thesis using add by (simp add: transition_refusal_def initial_state_def)
  next
    case False
    then show ?thesis using add by (simp add: transition_refusal_def Let_def)
  qed
next
  case (resolve i old st d)
  then have "s \<noteq> initial_state" by (auto simp: initial_state_def)
  define new where "new = old\<lparr>row_status := st, row_spentDay := if st = Spent then Some d else None\<rparr>"
  have rows: "ss_rows t = (ss_rows s)[i := new]" and day: "ss_lastDay t = d"
    using resolve by (simp_all add: new_def)
  have kept: "row_paymentId new = row_paymentId old" "row_originalDigest new = row_originalDigest old"
    "row_network new = row_network old" "row_asset new = row_asset old" "row_recipient new = row_recipient old"
    "row_amount new = row_amount old" "row_reservedDay new = row_reservedDay old" "row_status new = st"
    "st \<noteq> Spent \<or> row_spentDay new = Some d"
    by (simp_all add: new_def)
  have one: "row_transition d (x, y) = None" if "x = y \<or> x = old \<and> y = new" for x y
    using that
  proof
    assume "x = old \<and> y = new"
    then show ?thesis
      using kept \<open>row_status old \<noteq> Spent\<close> \<open>st \<noteq> Reserved\<close> by (auto simp: row_transition_def)
  qed (simp add: row_transition_def)
  have "first_error (map (row_transition (ss_lastDay t)) (zip (ss_rows s) (ss_rows t))) = None"
    unfolding first_error_None rows day
  proof
    fix e assume "e \<in> set (map (row_transition d) (zip (ss_rows s) ((ss_rows s)[i := new])))"
    then obtain q where q: "q \<in> set (zip (ss_rows s) ((ss_rows s)[i := new]))" "e = row_transition d q"
      by (auto simp del: set_zip)
    obtain x y where "q = (x, y)" by (cases q)
    with q have xy: "(x, y) \<in> set (zip (ss_rows s) ((ss_rows s)[i := new]))" "e = row_transition d (x, y)"
      by simp_all
    have "x = y \<or> x = old \<and> y = new"
      using zip_update_pairs [OF xy(1)] \<open>ss_rows s ! i = old\<close> by metis
    then show "e = None" unfolding xy(2) by (rule one)
  qed
  then have "rows_transition s t = None"
    using zip_update_filter [OF resolve(2), of new] by (simp add: rows_transition_def Let_def rows)
  then show ?thesis
    using \<open>s \<noteq> initial_state\<close> resolve by (simp add: transition_refusal_def)
qed

section \<open>The owner's relation\<close>

definition owner_ok :: "spend_policy \<Rightarrow> spend_owner \<Rightarrow> bool" where
  "owner_ok p w \<longleftrightarrow> decode p (ow_current w) = Some (ow_state w) \<and> \<not> ow_busy w"

inductive owner_event :: "spend_policy \<Rightarrow> 'b cas \<Rightarrow> bool \<Rightarrow> spend_owner \<times> 'b \<Rightarrow> spend_owner \<times> 'b \<Rightarrow> bool"
  for p cas single where
  quiet: "owner_event p cas single x x"
| close: "owner_event p cas single (w, b) (w\<lparr>ow_closed := True\<rparr>, b)"
| hold: "owner_event p cas single (w, b) (w\<lparr>ow_held := True\<rparr>, b)"
| swap: "\<not> ow_closed w \<Longrightarrow> \<not> ow_held w \<Longrightarrow> spend_change p single (ow_state w) next \<Longrightarrow> state_ok p next
    \<Longrightarrow> cas (ow_current w) (state_json p next) b = (b', CasText (state_json p next), False)
    \<Longrightarrow> owner_event p cas single (w, b) (w\<lparr>ow_current := Some (state_json p next), ow_state := next\<rparr>, b')"
| doubt: "\<not> ow_closed w \<Longrightarrow> \<not> ow_held w \<Longrightarrow> spend_change p single (ow_state w) next \<Longrightarrow> state_ok p next
    \<Longrightarrow> cas (ow_current w) (state_json p next) b = (b', reply, closes)
    \<Longrightarrow> reply \<noteq> CasText (state_json p next) \<or> closes
    \<Longrightarrow> owner_event p cas single (w, b) (w\<lparr>ow_closed := closes, ow_held := True\<rparr>, b')"

inductive_cases owner_eventE: "owner_event p cas single (w, b) (w', b')"

lemma decode_initial: "decode p None = Some s \<longleftrightarrow> s = initial_state"
  by auto

lemma owner_base:
  assumes "policy_ok p" and "owner_ok p w"
  shows "base_ok p (ow_state w)" and "ow_current w = None \<longleftrightarrow> ow_state w = initial_state"
    and "\<And>v. ow_current w = Some v \<Longrightarrow> v = state_json p (ow_state w)"
proof -
  have "\<not> state_ok p initial_state" by (simp add: state_ok_def initial_state_def)
  then show "base_ok p (ow_state w)" and "ow_current w = None \<longleftrightarrow> ow_state w = initial_state"
    and "\<And>v. ow_current w = Some v \<Longrightarrow> v = state_json p (ow_state w)"
    using assms by (cases "ow_current w"; auto simp: owner_ok_def base_ok_def decode_Some_eq)+
qed

lemma change_lawful:
  assumes "policy_ok p" and "owner_ok p w" and "spend_change p single (ow_state w) next" and "state_ok p next"
  shows "require_transition p (ow_current w) (state_json p next) = Inr next"
proof -
  have "decode p (ow_current w) = Some (ow_state w)" using assms(2) by (simp add: owner_ok_def)
  moreover have "decode p (Some (state_json p next)) = Some next"
    using assms by (simp add: decode_Some_eq)
  moreover have "transition_refusal (ow_current w = None) (ow_state w) next = None"
    using change_accepted [OF owner_base(1) assms(3,4)] owner_base(2) assms by simp
  ultimately show ?thesis by (simp add: require_transition_def)
qed

text \<open>
  What a \<open>work\<close> promises \<open>change\<close>: it touches nothing but the held flag, and what it gives is a
  lawful change once the revision is counted.
\<close>

text \<open>An operation that fails keeps the state; if it called the backend or is in doubt, it holds the owner.\<close>

definition doubts :: "spend_error set" where
  "doubts = {COMMIT_UNKNOWN, CONFLICT, UNRESOLVED_ORIGINAL}"

lemma in_doubts [simp]: "e \<in> doubts \<longleftrightarrow> e = COMMIT_UNKNOWN \<or> e = CONFLICT \<or> e = UNRESOLVED_ORIGINAL"
  by (simp add: doubts_def)

definition refusal :: "spend_owner \<Rightarrow> 'b \<Rightarrow> spend_error \<Rightarrow> spend_owner \<times> 'b \<Rightarrow> bool" where
  "refusal w b e x \<longleftrightarrow> e \<noteq> CORRUPT \<and> ow_state (fst x) = ow_state w \<and> ow_current (fst x) = ow_current w
     \<and> (snd x \<noteq> b \<or> e \<in> doubts \<longrightarrow> ow_held (fst x))"

lemma refusal_quiet [simp]: "refusal w b e (w, b) \<longleftrightarrow> e \<noteq> CORRUPT \<and> (e \<in> {COMMIT_UNKNOWN, CONFLICT, UNRESOLVED_ORIGINAL} \<longrightarrow> ow_held w)"
  by (auto simp: refusal_def doubts_def)

definition lawful_proposal :: "spend_policy \<Rightarrow> bool \<Rightarrow> spend_state \<Rightarrow> spend_state \<Rightarrow> bool" where
  "lawful_proposal p single s next \<longleftrightarrow> (let t = next\<lparr>ss_revision := ss_revision s + 1\<rparr> in
     spend_change p single s t \<and> (ss_revision s < max_safe - 1 \<longrightarrow> state_ok p t))"

definition good_work :: "spend_policy \<Rightarrow> bool \<Rightarrow> spend_owner \<Rightarrow> ('b, spend_state option \<times> 'a) spend_prog \<Rightarrow> bool" where
  "good_work p single w work \<longleftrightarrow> (\<forall>b. wpre work
     (\<lambda>r x. x = (w, b) \<and> (\<forall>next. fst r = Some next \<longrightarrow> lawful_proposal p single (ow_state w) next))
     (\<lambda>e x. e \<noteq> CORRUPT \<and> (x = (w, b) \<and> e \<notin> doubts \<or> x = (w\<lparr>ow_held := True\<rparr>, b))) (w, b))"

lemma set_busy_idem [simp]: "\<not> ow_busy w \<Longrightarrow> w\<lparr>ow_busy := False\<rparr> = w"
  by (cases w) simp

lemma commit_event:
  assumes p: "policy_ok p" and w: "\<not> ow_closed w" "\<not> ow_held w" "\<not> ow_busy w"
    and law: "lawful_proposal p single (ow_state w) next"
  shows "wpre (commit cas p next) (\<lambda>_ x. owner_event p cas single (w, b) (apfst (\<lambda>w. w\<lparr>ow_busy := False\<rparr>) x))
    (\<lambda>e x. refusal w b e x \<and> owner_event p cas single (w, b) (apfst (\<lambda>w. w\<lparr>ow_busy := False\<rparr>) x)) (w\<lparr>ow_busy := True\<rparr>, b)"
proof (cases "ss_revision (ow_state w) < max_safe - 1")
  case False
  then show ?thesis using w by (simp add: commit_def wp owner_event.quiet refusal_def doubts_def)
next
  case True
  define t where "t = next\<lparr>ss_revision := ss_revision (ow_state w) + 1\<rparr>"
  have t: "spend_change p single (ow_state w) t" "state_ok p t"
    using law True by (simp_all add: t_def Let_def lawful_proposal_def)
  have ok: "decode p (Some (state_json p t)) = Some t"
    using t p by (simp only: decode_Some_eq)
  obtain b' reply closes where cas: "cas (ow_current w) (state_json p t) b = (b', reply, closes)"
    by (metis prod_cases3)
  have swap: "owner_event p cas single (w, b) (w\<lparr>ow_current := Some (state_json p t), ow_state := t\<rparr>, b')"
    if "reply = CasText (state_json p t)" "\<not> closes"
    using that cas by (intro owner_event.swap w t) simp
  have doubt: "owner_event p cas single (w, b) (w\<lparr>ow_closed := closes, ow_held := True\<rparr>, b')"
    if "reply \<noteq> CasText (state_json p t) \<or> closes"
    by (rule owner_event.doubt [where cas = cas and b = b and b' = b', OF w(1,2) t cas that])
  have flags: "w\<lparr>ow_busy := False, ow_closed := closes, ow_held := True\<rparr> = w\<lparr>ow_closed := closes, ow_held := True\<rparr>"
    "w\<lparr>ow_closed := False, ow_held := True\<rparr> = w\<lparr>ow_held := True\<rparr>"
    "w\<lparr>ow_current := x, ow_state := y, ow_busy := False\<rparr> = w\<lparr>ow_current := x, ow_state := y\<rparr>" for x y
    using w(1,3) by (cases w; simp)+
  have "wpre (call_cas cas (state_json p t))
     (\<lambda>observed x. observed = reply \<and> reply \<noteq> CasThrew \<and> \<not> closes \<and> x = (w\<lparr>ow_busy := True\<rparr>, b'))
     (\<lambda>e x. e \<noteq> CORRUPT \<and> (reply = CasThrew \<or> closes) \<and> x = (w\<lparr>ow_busy := True, ow_closed := closes, ow_held := True\<rparr>, b'))
     (w\<lparr>ow_busy := True\<rparr>, b)"
    using w cas by (auto simp: wpre_def call_cas_def refuse_held_def hold_def run_defs Let_def)
  then have "wpre (andthen (call_cas cas (state_json p t)) (\<lambda>observed.
       if observed \<noteq> CasText (state_json p t) then refuse_held (if observed = CasNull then CONFLICT else COMMIT_UNKNOWN)
       else assign (apfst (\<lambda>w. w\<lparr>ow_current := Some (state_json p t), ow_state := t\<rparr>))))
     (\<lambda>_ x. owner_event p cas single (w, b) (apfst (\<lambda>w. w\<lparr>ow_busy := False\<rparr>) x))
     (\<lambda>e x. refusal w b e x \<and> owner_event p cas single (w, b) (apfst (\<lambda>w. w\<lparr>ow_busy := False\<rparr>) x)) (w\<lparr>ow_busy := True\<rparr>, b)"
    unfolding wp
    by (rule wpre_mono) (use swap doubt w flags in \<open>auto simp: wp refuse_held_def hold_def refusal_def\<close>)
  then show ?thesis
    using True by (simp add: commit_def wp ok Let_def flip: t_def cong: if_cong)
qed

lemma change_event:
  assumes p: "policy_ok p" and w: "\<not> ow_busy w"
    and work: "good_work p single (w\<lparr>ow_busy := True\<rparr>) work"
  shows "wpre (change cas p work) (\<lambda>_ x. owner_event p cas single (w, b) x)
    (\<lambda>e x. refusal w b e x \<and> owner_event p cas single (w, b) x) (w, b)"
proof (cases "ow_closed w \<or> ow_held w")
  case True
  then show ?thesis
    by (auto simp: wpre_def change_def usable_def run_defs owner_event.quiet refusal_def doubts_def)
next
  case False
  define body :: "('a, 'b) spend_prog" where "body = andthen work (\<lambda>(proposed, result). case proposed of None \<Rightarrow> yield result
      | Some next \<Rightarrow> andthen (commit cas p next) (\<lambda>_. yield result))"
  have held: "owner_event p cas single (w, b) (w\<lparr>ow_held := True, ow_busy := False\<rparr>, b)"
  proof -
    have "w\<lparr>ow_held := True, ow_busy := False\<rparr> = w\<lparr>ow_held := True\<rparr>" using w by (cases w) simp
    then show ?thesis by (simp add: owner_event.hold)
  qed
  have "wpre body (\<lambda>_ x. owner_event p cas single (w, b) (apfst (\<lambda>w. w\<lparr>ow_busy := False\<rparr>) x))
    (\<lambda>e x. refusal w b e x \<and> owner_event p cas single (w, b) (apfst (\<lambda>w. w\<lparr>ow_busy := False\<rparr>) x)) (w\<lparr>ow_busy := True\<rparr>, b)"
    unfolding body_def wp
  proof (rule wpre_mono [OF work [unfolded good_work_def, rule_format, of b]])
    fix r :: "spend_state option \<times> 'b" and x
    assume r: "x = (w\<lparr>ow_busy := True\<rparr>, b) \<and>
      (\<forall>next. fst r = Some next \<longrightarrow> lawful_proposal p single (ow_state (w\<lparr>ow_busy := True\<rparr>)) next)"
    show "wpre (case r of (proposed, result) \<Rightarrow> case proposed of None \<Rightarrow> yield result
          | Some next \<Rightarrow> andthen (commit cas p next) (\<lambda>_. yield result))
        (\<lambda>_ x. owner_event p cas single (w, b) (apfst (\<lambda>w. w\<lparr>ow_busy := False\<rparr>) x))
        (\<lambda>e x. refusal w b e x \<and> owner_event p cas single (w, b) (apfst (\<lambda>w. w\<lparr>ow_busy := False\<rparr>) x)) x"
    proof (cases "fst r")
      case None
      then show ?thesis using r w by (auto simp: wp owner_event.quiet split: prod.split)
    next
      case (Some nxt)
      then obtain v where v: "r = (Some nxt, v)" by (cases r) auto
      have event: "wpre (commit cas p nxt)
          (\<lambda>_ x. owner_event p cas single (w, b) (apfst (\<lambda>w. w\<lparr>ow_busy := False\<rparr>) x))
          (\<lambda>e x. refusal w b e x \<and> owner_event p cas single (w, b) (apfst (\<lambda>w. w\<lparr>ow_busy := False\<rparr>) x)) x"
        using commit_event [OF p, of w single nxt cas b] r w False v by simp
      show ?thesis
        unfolding v split_conv option.case wp by (rule wpre_mono [OF event]) (simp_all add: wp)
    qed
  next
    fix e x
    assume "e \<noteq> CORRUPT \<and> (x = (w\<lparr>ow_busy := True\<rparr>, b) \<and> e \<notin> doubts \<or> x = (w\<lparr>ow_busy := True, ow_held := True\<rparr>, b))"
    then show "refusal w b e x \<and> owner_event p cas single (w, b) (apfst (\<lambda>w. w\<lparr>ow_busy := False\<rparr>) x)"
      using w held by (auto simp: owner_event.quiet refusal_def)
  qed
  then show ?thesis
    using False w unfolding wpre_def change_def body_def [symmetric]
    by (auto simp: refusal_def usable_def run_defs set_busy_def split: prod.splits sum.splits)
qed

section \<open>The operations\<close>

lemma revision_first:
  "s\<lparr>ss_lastDay := d, ss_rows := rs, ss_revision := n\<rparr> = s\<lparr>ss_revision := n, ss_lastDay := d, ss_rows := rs\<rparr>"
  by (cases s) simp

lemma reserve_good:
  assumes p: "policy_ok p" and w: "base_ok p (ow_state w)"
  shows "good_work p single w (reserve_work p single input nowDay)"
proof -
  let ?s = "ow_state w"
  have law: "lawful_proposal p single ?s (?s\<lparr>ss_lastDay := d, ss_rows := ss_rows ?s @ [r]\<rparr>)"
    if d: "as_day nowDay = Some d" "ss_lastDay ?s \<le> d" and r: "new_reservation p input d = Inr r"
      and "single \<longrightarrow> \<not> (\<exists>q \<in> set (ss_rows ?s). row_status q \<noteq> Spent)"
      and "\<forall>q \<in> set (ss_rows ?s). row_paymentId q \<noteq> row_paymentId r \<and> row_originalDigest q \<noteq> row_originalDigest r"
      and "int (length (ss_rows ?s)) < sp_maxRecords p"
      and "total_exposure (ss_rows ?s @ [r]) \<le> decimal_value (sp_maxTotal p)"
      and "daily_exposure d (ss_rows ?s @ [r]) \<le> decimal_value (sp_maxDaily p)" for d r
  proof -
    have day: "day_number d" using d(1) by (auto simp: as_day_def satisfying_eq_Some split: if_splits)
    note r' = new_reservation_ok [OF p r day]
    have "spend_change p single ?s (?s\<lparr>ss_revision := ss_revision ?s + 1, ss_lastDay := d, ss_rows := ss_rows ?s @ [r]\<rparr>)"
      using that r' by (intro spend_change.add) auto
    moreover have "ss_revision ?s < max_safe - 1 \<longrightarrow>
        state_ok p (?s\<lparr>ss_revision := ss_revision ?s + 1, ss_lastDay := d, ss_rows := ss_rows ?s @ [r]\<rparr>)"
      using add_ok [OF p w day d(2) r] that by blast
    ultimately show ?thesis by (simp add: lawful_proposal_def Let_def revision_first)
  qed
  have input: "new_reservation p input d = Inl e \<Longrightarrow> e \<noteq> CORRUPT \<and> e \<notin> doubts" for d e
    by (auto simp: doubts_def new_reservation_def reservation_fields_def need_def ensure_def split: option.splits if_splits)
  show ?thesis
    unfolding good_work_def reserve_work_def selected_day_def refuse_held_def hold_def
    using law by (auto simp: wp Let_def dest!: input split: option.splits sum.splits)
qed

lemma first_index_Some: "first_index P xs = Some i \<Longrightarrow> i < length xs \<and> P (xs ! i)"
  by (induction xs arbitrary: i) (auto split: if_splits)

lemma observe_good:
  assumes w: "base_ok p (ow_state w)" and st: "st \<noteq> Reserved"
  shows "good_work p single w (observe_work pid digest st nowDay)"
proof -
  let ?s = "ow_state w"
  have law: "lawful_proposal p single ?s (?s\<lparr>ss_lastDay := d, ss_rows := (ss_rows ?s)[i := (ss_rows ?s ! i)\<lparr>row_status := st,
      row_spentDay := if st = Spent then Some d else None\<rparr>]\<rparr>)"
    if d: "as_day nowDay = Some d" "ss_lastDay ?s \<le> d" and i: "first_index (\<lambda>r. row_paymentId r = pid) (ss_rows ?s) = Some i"
      and open_row: "row_status (ss_rows ?s ! i) \<noteq> Spent" for d i
  proof -
    have day: "day_number d" using d(1) by (auto simp: as_day_def satisfying_eq_Some split: if_splits)
    note i' = first_index_Some [OF i]
    show ?thesis
      unfolding lawful_proposal_def Let_def revision_first
      using i' open_row st d(2) resolve_ok [OF w _ refl open_row day d(2)]
      by (intro conjI impI spend_change.resolve [OF _ refl]) auto
  qed
  show ?thesis
    unfolding good_work_def observe_work_def selected_day_def
    using law by (auto simp: wp Let_def split: option.splits)
qed

text \<open>Operations of an owner, and what one of them does to the owner and its backend.\<close>

datatype spend_op =
    OpReserve bool jsval jsval
  | OpObserve jsval jsval jsval jsval
  | OpInspect jsval
  | OpClose
  | OpSnapshot

fun owner_step :: "'b cas \<Rightarrow> spend_policy \<Rightarrow> spend_op \<Rightarrow> spend_owner \<times> 'b \<Rightarrow> spend_owner \<times> 'b" where
  "owner_step cas p (OpReserve single input nowDay) x = fst (reserve_original cas p single input nowDay x)"
| "owner_step cas p (OpObserve paymentId digest st nowDay) x = fst (observe cas p paymentId digest st nowDay x)"
| "owner_step cas p (OpInspect nowDay) x = fst (inspect_owner nowDay x)"
| "owner_step cas p OpClose x = fst (close_owner x)"
| "owner_step cas p OpSnapshot x = fst (snapshot_owner x)"

fun single_op :: "spend_op \<Rightarrow> bool" where
  "single_op (OpReserve single _ _) = single"
| "single_op _ = True"

lemma owner_ok_busy: "owner_ok p w \<Longrightarrow> \<not> ow_busy w"
  by (simp add: owner_ok_def)

lemma reserve_event:
  assumes "policy_ok p" and "owner_ok p w"
  shows "wpre (reserve_original cas p single input nowDay) (\<lambda>_ x. owner_event p cas single (w, b) x)
    (\<lambda>e x. refusal w b e x \<and> owner_event p cas single (w, b) x) (w, b)"
proof -
  have "good_work p single (w\<lparr>ow_busy := True\<rparr>) (reserve_work p single input nowDay)"
    using owner_base(1) [OF assms] by (intro reserve_good assms) simp
  from change_event [OF assms(1) owner_ok_busy [OF assms(2)] this, of cas b]
  show ?thesis unfolding reserve_original_def wp by (rule wpre_mono) (simp_all add: wp)
qed

lemma observe_event:
  assumes "policy_ok p" and "owner_ok p w"
  shows "wpre (observe cas p paymentId digest st nowDay) (\<lambda>_ x. owner_event p cas single (w, b) x)
    (\<lambda>e x. refusal w b e x \<and> owner_event p cas single (w, b) x) (w, b)"
proof -
  have "good_work p single (w\<lparr>ow_busy := True\<rparr>) (observe_work pid dig s nowDay)" if "s \<noteq> Reserved" for pid dig s
    using owner_base(1) [OF assms] that by (intro observe_good) simp_all
  note event = change_event [OF assms(1) owner_ok_busy [OF assms(2)] this, where cas = cas and b = b]
  show ?thesis
    unfolding observe_def
    by (auto simp: wp satisfying_eq_Some owner_event.quiet event refusal_quiet split: option.splits)
qed

lemma owner_event_mono:
  assumes "\<And>x y. spend_change p s x y \<Longrightarrow> spend_change p single x y" and "owner_event p cas s x y"
  shows "owner_event p cas single x y"
  using assms(2)
proof cases
  case (swap w t b b')
  then show ?thesis using assms(1) by (simp add: owner_event.swap)
next
  case (doubt w t b b' reply closes)
  then have "spend_change p single (ow_state w) t" using assms(1) by blast
  then show ?thesis
    unfolding doubt(1,2)
    by (rule owner_event.doubt [where cas = cas and b = b and b' = b', OF doubt(3,4) _ doubt(6-8)])
qed (auto intro: owner_event.intros)

lemma owner_step_event:
  assumes "policy_ok p" and "owner_ok p w" and "single \<longrightarrow> single_op op"
  shows "owner_event p cas single (w, b) (owner_step cas p op (w, b))"
proof (cases op)
  case (OpReserve s input nowDay)
  have "owner_event p cas s (w, b) (owner_step cas p op (w, b))"
    using reserve_event [OF assms(1,2), of cas s input nowDay b]
    by (auto simp: OpReserve wpre_def split: prod.splits sum.splits)
  moreover have "spend_change p single x y" if "spend_change p s x y" for x y
    using that assms(3) by (auto simp: OpReserve elim!: spend_changeE intro: spend_change.intros)
  ultimately show ?thesis by (blast intro: owner_event_mono)
next
  case (OpObserve paymentId digest st nowDay)
  then show ?thesis
    using observe_event [OF assms(1,2), of cas paymentId digest st nowDay single b]
    by (auto simp: wpre_def split: prod.splits sum.splits)
qed (auto simp: inspect_owner_def usable_def selected_day_def close_owner_def snapshot_owner_def run_defs
    intro: owner_event.intros split: option.splits)

end
