(* ===== verification/Spending_Store.thy ===== *)
theory Spending_Store
  imports Spending_Reservations
begin

text \<open>
  The stored side of the spending journal: the ownership token
  (\<open>src/src/original-funding-spending-sqlite-profile.js\<close>) and the two-table SQLite store
  (\<open>openOriginalFundingSpendingSqliteStore\<close> of \<open>src/src/original-funding-spending-sqlite-store.js\<close>).

  SQLite is a parameter: every transaction takes a \<open>sql_fault\<close> that says how its statements end.
  A statement that throws before COMMIT leaves the database as it was (the transaction is rolled
  back by the store, or by SQLite when the connection goes); a COMMIT that throws may or may not
  have taken effect.
\<close>

section \<open>Ownership\<close>

record spend_token =
  tk_storeId :: string
  tk_accountId :: string
  tk_ownerId :: string
  tk_epoch :: int
  tk_minimumRevision :: int

definition token_keys :: "string list" where
  "token_keys = [''version'', ''storeId'', ''accountId'', ''ownerId'', ''epoch'', ''minimumRevision'']"

definition as_number :: "int \<Rightarrow> jsval \<Rightarrow> int option" where
  "as_number minimum v = (if v = VNum NumNegZero then None
     else satisfying (\<lambda>n. minimum \<le> n \<and> n < max_safe) (safe_integer v))"

definition capture_ownership :: "spend_policy \<Rightarrow> jsval \<Rightarrow> spend_token option" where
  "capture_ownership p input = do {
     t \<leftarrow> exact_fields token_keys input;
     guard (field ''version'' t = num 1);
     accountId \<leftarrow> as_token (field ''accountId'' t);
     guard (accountId = sp_accountId p);
     storeId \<leftarrow> as_token (field ''storeId'' t);
     ownerId \<leftarrow> as_token (field ''ownerId'' t);
     epoch \<leftarrow> as_number 1 (field ''epoch'' t);
     minimumRevision \<leftarrow> as_number 0 (field ''minimumRevision'' t);
     Some \<lparr>tk_storeId = storeId, tk_accountId = accountId, tk_ownerId = ownerId, tk_epoch = epoch,
       tk_minimumRevision = minimumRevision\<rparr>
   }"

text \<open>
  The token of a store, and the token read back from its database, are captured tokens already;
  the two operations below check and change their members.
\<close>

definition token_ok :: "spend_policy \<Rightarrow> spend_token \<Rightarrow> bool" where
  "token_ok p t \<longleftrightarrow> tk_accountId t = sp_accountId p \<and> token_text (tk_accountId t) \<and> token_text (tk_storeId t)
     \<and> token_text (tk_ownerId t) \<and> 1 \<le> tk_epoch t \<and> tk_epoch t < max_safe
     \<and> 0 \<le> tk_minimumRevision t \<and> tk_minimumRevision t < max_safe"

definition require_ownership :: "spend_policy \<Rightarrow> spend_token \<Rightarrow> spend_token \<Rightarrow> spend_token option" where
  "require_ownership p expected observed = do {
     guard (token_ok p expected \<and> token_ok p observed);
     guard (tk_storeId expected = tk_storeId observed \<and> tk_accountId expected = tk_accountId observed
       \<and> tk_ownerId expected = tk_ownerId observed \<and> tk_epoch expected = tk_epoch observed);
     guard (tk_minimumRevision expected \<le> tk_minimumRevision observed);
     Some observed
   }"

definition next_ownership :: "spend_policy \<Rightarrow> spend_token \<Rightarrow> jsval \<Rightarrow> int \<Rightarrow> spend_token option" where
  "next_ownership p current nextOwnerId currentRevision = do {
     guard (token_ok p current);
     owner \<leftarrow> as_token nextOwnerId;
     guard (0 \<le> currentRevision \<and> currentRevision < max_safe);
     guard (tk_minimumRevision current \<le> currentRevision \<and> tk_epoch current < max_safe - 1);
     Some (current\<lparr>tk_ownerId := owner, tk_epoch := tk_epoch current + 1, tk_minimumRevision := currentRevision\<rparr>)
   }"

section \<open>The database and its handles\<close>

record spend_database =
  db_storeId :: string
  db_policy :: spend_policy
  db_ownerId :: string
  db_epoch :: int
  db_revision :: int
  db_raw :: "json option"

record spend_store =
  sto_policy :: spend_policy
  sto_token :: spend_token
  sto_closed :: bool
  sto_busy :: bool
  sto_held :: bool
  sto_lastRevision :: "int option"
  sto_transactions :: nat
  sto_transferred :: bool

datatype sql_fault = SqlOk | SqlRefused bool | CommitFailed bool bool

datatype store_error =
    STORE_CLOSED | STORE_HELD | STORE_BUSY | STORE_ACCOUNT | STORE_INPUT | STORE_TRANSITION transition_error
  | STORE_UNAVAILABLE | STORE_COMMIT_UNKNOWN | STORE_ROLLBACK_UNKNOWN

type_synonym 'a store_prog = "(spend_store \<times> spend_database, store_error, 'a) prog"

definition store_usable :: "'a \<Rightarrow> 'a store_prog" where
  "store_usable v = andthen (gets fst) (\<lambda>st.
     andthen (assure (\<not> (sto_closed st \<or> sto_held st \<or> sto_busy st))
       (if sto_closed st then STORE_CLOSED else if sto_held st then STORE_HELD else STORE_BUSY)) (\<lambda>_. yield v))"

definition observed_token :: "spend_policy \<Rightarrow> spend_database \<Rightarrow> spend_state \<Rightarrow> spend_token" where
  "observed_token p db s = \<lparr>tk_storeId = db_storeId db, tk_accountId = sp_accountId p,
     tk_ownerId = db_ownerId db, tk_epoch = db_epoch db, tk_minimumRevision = ss_revision s\<rparr>"

text \<open>\<open>validate\<close>: the state the database holds, if it is one this handle owns.\<close>

definition validate_database :: "spend_store \<Rightarrow> spend_database \<Rightarrow> spend_state option" where
  "validate_database st db = (let p = sto_policy st in do {
     guard (db_storeId db = tk_storeId (sto_token st) \<and> db_policy db = p);
     s \<leftarrow> decode p (db_raw db);
     guard (db_revision db = ss_revision s);
     guard (case sto_lastRevision st of None \<Rightarrow> True | Some n \<Rightarrow> n \<le> ss_revision s);
     require_ownership p (sto_token st) (observed_token p db s);
     Some s
   })"

text \<open>
  \<open>transaction(work)\<close>, up to the busy flag, which no other call can see. The work gives the new database, the revision the handle has seen and a
  value, or \<open>None\<close> if one of its checks fails. Whatever is thrown inside holds the handle.
\<close>

definition abandon :: "bool \<Rightarrow> store_error \<Rightarrow> 'a store_prog" where
  "abandon rollback_threw e = andthen (assign (apfst (\<lambda>st. st\<lparr>sto_held := True\<rparr>))) (\<lambda>_.
     raise (if rollback_threw then STORE_ROLLBACK_UNKNOWN else e))"

definition saw_revision :: "int \<Rightarrow> unit store_prog" where
  "saw_revision revision = assign (apfst (\<lambda>st. st\<lparr>sto_lastRevision := Some revision\<rparr>))"

fun finish_commit :: "sql_fault \<Rightarrow> spend_database \<Rightarrow> 'a \<Rightarrow> 'a store_prog" where
  "finish_commit (CommitFailed kept rollback_threw) db' v =
     andthen (assign (apsnd (\<lambda>db. if kept then db' else db))) (\<lambda>_. abandon rollback_threw STORE_COMMIT_UNKNOWN)"
| "finish_commit _ db' v =
     andthen (assign (\<lambda>(st, db). (st\<lparr>sto_transactions := sto_transactions st + 1\<rparr>, db'))) (\<lambda>_. yield v)"

definition transaction :: "sql_fault \<Rightarrow> (spend_store \<Rightarrow> spend_database \<Rightarrow> spend_state
    \<Rightarrow> (spend_database \<times> int \<times> 'a) option) \<Rightarrow> 'a store_prog" where
  "transaction fault work = andthen (store_usable ()) (\<lambda>_. andthen (gets id) (\<lambda>(st, db).
     case fault of SqlRefused rollback_threw \<Rightarrow> abandon rollback_threw STORE_UNAVAILABLE
     | _ \<Rightarrow>
       case validate_database st db of None \<Rightarrow> abandon False STORE_UNAVAILABLE
       | Some s \<Rightarrow> andthen (saw_revision (ss_revision s)) (\<lambda>_.
           case work st db s of None \<Rightarrow> abandon False STORE_UNAVAILABLE
           | Some (db', revision, v) \<Rightarrow>
               andthen (saw_revision revision) (\<lambda>_. finish_commit fault db' v))))"

definition store_load :: "sql_fault \<Rightarrow> string \<Rightarrow> (json option) store_prog" where
  "store_load fault accountId = andthen (gets (sp_accountId \<circ> sto_policy \<circ> fst)) (\<lambda>account.
     andthen (assure (accountId = account) STORE_ACCOUNT) (\<lambda>_.
     transaction fault (\<lambda>st db s. Some (db, ss_revision s, db_raw db))))"

definition swap_work :: "json option \<Rightarrow> json \<Rightarrow> spend_state \<Rightarrow> spend_store \<Rightarrow> spend_database \<Rightarrow> spend_state
    \<Rightarrow> (spend_database \<times> int \<times> json option) option" where
  "swap_work expected proposed next st db s =
     (if db_raw db \<noteq> expected then Some (db, ss_revision s, None)
      else if expected = Some proposed then Some (db, ss_revision s, Some proposed)
      else Some (db\<lparr>db_revision := ss_revision next, db_raw := Some proposed\<rparr>, ss_revision next, Some proposed))"

definition compare_and_swap :: "sql_fault \<Rightarrow> string \<Rightarrow> json option \<Rightarrow> json \<Rightarrow> (json option) store_prog" where
  "compare_and_swap fault accountId expected proposed =
     andthen (gets (sto_policy \<circ> fst)) (\<lambda>p.
     andthen (assure (accountId = sp_accountId p) STORE_ACCOUNT) (\<lambda>_.
     andthen (store_usable ()) (\<lambda>_.
     case require_transition p expected proposed of
       Inl e \<Rightarrow> raise (STORE_TRANSITION e)
     | Inr next \<Rightarrow> transaction fault (swap_work expected proposed next))))"

definition transfer_work :: "jsval \<Rightarrow> spend_store \<Rightarrow> spend_database \<Rightarrow> spend_state
    \<Rightarrow> (spend_database \<times> int \<times> spend_token) option" where
  "transfer_work nextOwnerId st db s = do {
     selected \<leftarrow> next_ownership (sto_policy st) (sto_token st) nextOwnerId (ss_revision s);
     Some (db\<lparr>db_ownerId := tk_ownerId selected, db_epoch := tk_epoch selected\<rparr>, ss_revision s, selected)
   }"

definition transfer_ownership :: "sql_fault \<Rightarrow> jsval \<Rightarrow> spend_token store_prog" where
  "transfer_ownership fault nextOwnerId =
     andthen (gets fst) (\<lambda>st.
     andthen (demand (next_ownership (sto_policy st) (sto_token st) nextOwnerId
       (tk_minimumRevision (sto_token st))) STORE_INPUT) (\<lambda>_.
     andthen (transaction fault (transfer_work nextOwnerId)) (\<lambda>selected.
     andthen (assign (apfst (\<lambda>st. st\<lparr>sto_transferred := True, sto_closed := True\<rparr>))) (\<lambda>_.
     yield selected))))"

definition close_store :: "unit store_prog" where
  "close_store = assign (apfst (\<lambda>st. st\<lparr>sto_closed := True, sto_held := sto_held st \<or> sto_busy st\<rparr>))"

text \<open>\<open>openStore\<close>: a handle exists only if its first transaction, an empty one, succeeds.\<close>

definition fresh_store :: "spend_policy \<Rightarrow> spend_token \<Rightarrow> spend_store" where
  "fresh_store p token = \<lparr>sto_policy = p, sto_token = token, sto_closed = False, sto_busy = False,
     sto_held = False, sto_lastRevision = None, sto_transactions = 0, sto_transferred = False\<rparr>"

definition created_database :: "spend_policy \<Rightarrow> spend_token \<Rightarrow> spend_database" where
  "created_database p token = \<lparr>db_storeId = tk_storeId token, db_policy = p, db_ownerId = tk_ownerId token,
     db_epoch = tk_epoch token, db_revision = 0, db_raw = None\<rparr>"

fun commit_kept :: "sql_fault \<Rightarrow> bool" where
  "commit_kept SqlOk = True"
| "commit_kept (SqlRefused _) = False"
| "commit_kept (CommitFailed kept _) = kept"

definition open_store :: "sql_fault \<Rightarrow> bool \<Rightarrow> spend_policy \<Rightarrow> spend_token \<Rightarrow> spend_database option
    \<Rightarrow> spend_database option \<times> spend_store option" where
  "open_store fault creating p token d =
     (case (if creating then (if d = None then Some (created_database p token) else None) else d) of
        None \<Rightarrow> (d, None)
      | Some db \<Rightarrow>
          (case transaction fault (\<lambda>st db s. Some (db, ss_revision s, ())) (fresh_store p token, db) of
             ((st, db'), Inr _) \<Rightarrow> (Some db', Some st)
           | _ \<Rightarrow> (if commit_kept fault \<and> validate_database (fresh_store p token) db \<noteq> None then Some db else d, None)))"

end
