(* ===== verification/Spending_System.thy ===== *)
theory Spending_System
  imports Spending_Owner Spending_Store
begin

text \<open>
  Several owners over one stored journal. The locale \<open>spend_backend\<close> states what an exact
  compare-and-swap backend promises and derives, for every interleaving of the operations of all
  owners, that the stored journal stays valid and only moves forward; the SQLite store model
  provides it.
\<close>

section \<open>How a journal moves\<close>

definition row_leq :: "spend_row \<Rightarrow> spend_row \<Rightarrow> bool" where
  "row_leq a b \<longleftrightarrow> row_paymentId b = row_paymentId a \<and> row_originalDigest b = row_originalDigest a
     \<and> row_network b = row_network a \<and> row_asset b = row_asset a \<and> row_recipient b = row_recipient a
     \<and> row_amount b = row_amount a \<and> row_reservedDay b = row_reservedDay a
     \<and> (row_status a = Spent \<longrightarrow> b = a) \<and> (row_status b = Reserved \<longrightarrow> row_status a = Reserved)"

definition journal_leq :: "spend_state \<Rightarrow> spend_state \<Rightarrow> bool" where
  "journal_leq s t \<longleftrightarrow> ss_revision s \<le> ss_revision t \<and> ss_lastDay s \<le> ss_lastDay t
     \<and> length (ss_rows s) \<le> length (ss_rows t)
     \<and> (\<forall>i < length (ss_rows s). row_leq (ss_rows s ! i) (ss_rows t ! i))"

lemma row_leq_refl [simp]: "row_leq r r"
  by (simp add: row_leq_def)

lemma row_leq_spent: "row_leq a b \<Longrightarrow> row_status a = Spent \<Longrightarrow> b = a"
  by (simp add: row_leq_def)

lemma row_leq_trans:
  assumes "row_leq a b" and "row_leq b c"
  shows "row_leq a c"
proof (cases "row_status a = Spent \<or> row_status b = Spent")
  case True
  then show ?thesis using assms row_leq_spent by blast
next
  case False
  then show ?thesis using assms by (simp add: row_leq_def)
qed

lemma journal_leq_refl [simp]: "journal_leq s s"
  by (simp add: journal_leq_def)

lemma journal_leq_trans:
  assumes "journal_leq s t" and "journal_leq t u"
  shows "journal_leq s u"
proof -
  have "row_leq (ss_rows s ! i) (ss_rows u ! i)" if i: "i < length (ss_rows s)" for i
  proof (rule row_leq_trans)
    show "row_leq (ss_rows s ! i) (ss_rows t ! i)" using assms(1) i by (simp add: journal_leq_def)
    show "row_leq (ss_rows t ! i) (ss_rows u ! i)" using assms i by (simp add: journal_leq_def)
  qed
  then show ?thesis using assms unfolding journal_leq_def by (meson order_trans)
qed

lemma row_leq_observed:
  assumes "row_status old \<noteq> Spent" and "st \<noteq> Reserved"
  shows "row_leq old (old\<lparr>row_status := st, row_spentDay := d\<rparr>)"
  using assms by (simp add: row_leq_def)

lemma spend_change_leq: "spend_change p single s t \<Longrightarrow> journal_leq s t"
proof (induction rule: spend_change.induct)
  case (add r d)
  then show ?case by (simp add: journal_leq_def nth_append)
next
  case (resolve i old st d)
  then show ?case by (auto simp: journal_leq_def nth_list_update row_leq_observed)
qed

lemma spend_change_unresolved:
  assumes "spend_change p True s t" and "unresolved_count (ss_rows s) \<le> 1"
  shows "unresolved_count (ss_rows t) \<le> 1"
  using assms(1)
proof cases
  case (add r d)
  then have "filter is_open (ss_rows s) = []" by (auto simp: filter_empty_conv is_open_def)
  then show ?thesis using add by (simp add: unresolved_count_def)
next
  case (resolve i old st d)
  have "length (filter P (xs[i := v])) \<le> length (filter P xs)"
    if "i < length xs" "P (xs ! i)" for P v and xs :: "spend_row list"
    using that by (induction xs arbitrary: i) (auto split: nat.splits)
  from this [of "ss_rows s" is_open] show ?thesis
    using resolve assms(2) by (auto simp: unresolved_count_def is_open_def intro: order_trans)
qed

section \<open>Owners over a backend\<close>

record ('i, 'b) spend_system =
  sy_owners :: "'i \<Rightarrow> spend_owner"
  sy_backend :: 'b

datatype ('i, 'x) spend_event = Act 'i spend_op | Reopen 'i | Admin 'x

definition reopen :: "('i \<Rightarrow> 'b \<Rightarrow> 'b \<times> load_reply) \<Rightarrow> spend_policy \<Rightarrow> 'i
    \<Rightarrow> ('i, 'b) spend_system \<Rightarrow> ('i, 'b) spend_system" where
  "reopen load p i y = (case load i (sy_backend y) of (b', reply) \<Rightarrow>
     (case open_owner p reply of Inl _ \<Rightarrow> y\<lparr>sy_backend := b'\<rparr>
      | Inr w \<Rightarrow> y\<lparr>sy_owners := (sy_owners y)(i := w), sy_backend := b'\<rparr>))"

fun system_step :: "('i \<Rightarrow> 'b cas) \<Rightarrow> ('i \<Rightarrow> 'b \<Rightarrow> 'b \<times> load_reply) \<Rightarrow> ('x \<Rightarrow> 'b \<Rightarrow> 'b) \<Rightarrow> spend_policy
    \<Rightarrow> ('i, 'x) spend_event \<Rightarrow> ('i, 'b) spend_system \<Rightarrow> ('i, 'b) spend_system" where
  "system_step swap load admin p (Act i op) y =
     (case owner_step (swap i) p op (sy_owners y i, sy_backend y) of (w', b') \<Rightarrow>
        y\<lparr>sy_owners := (sy_owners y)(i := w'), sy_backend := b'\<rparr>)"
| "system_step swap load admin p (Reopen i) y = reopen load p i y"
| "system_step swap load admin p (Admin x) y = y\<lparr>sy_backend := admin x (sy_backend y)\<rparr>"

fun single_event :: "('i, 'x) spend_event \<Rightarrow> bool" where
  "single_event (Act i op) = single_op op"
| "single_event _ = True"

definition stored :: "('b \<Rightarrow> json option) \<Rightarrow> spend_policy \<Rightarrow> ('i, 'b) spend_system \<Rightarrow> spend_state" where
  "stored content p y = the (decode p (content (sy_backend y)))"

definition system_ok :: "('b \<Rightarrow> json option) \<Rightarrow> spend_policy \<Rightarrow> ('i, 'b) spend_system \<Rightarrow> bool" where
  "system_ok content p y \<longleftrightarrow> policy_ok p \<and> decode p (content (sy_backend y)) \<noteq> None
     \<and> (\<forall>i. owner_ok p (sy_owners y i))"

definition one_open :: "('b \<Rightarrow> json option) \<Rightarrow> spend_policy \<Rightarrow> ('i, 'b) spend_system \<Rightarrow> bool" where
  "one_open content p y \<longleftrightarrow> unresolved_count (ss_rows (stored content p y)) \<le> 1"

lemma open_owner_ok: "open_owner p reply = Inr w \<Longrightarrow> owner_ok p w"
  by (auto simp: open_owner_def owner_ok_def bind_eq_Some_conv)

lemma owner_event_ok:
  assumes "policy_ok p" and "owner_ok p w" and "owner_event p cas single (w, b) (w', b')"
  shows "owner_ok p w'"
  using assms(3)
proof cases
  case (swap nxt)
  then have "decode p (Some (state_json p nxt)) = Some nxt"
    using assms(1) by (simp only: decode_Some_eq)
  then show ?thesis using swap assms(2) by (simp add: owner_ok_def)
qed (use assms(2) in \<open>auto simp: owner_ok_def\<close>)

locale spend_backend =
  fixes swap :: "'i \<Rightarrow> 'b cas"
    and load :: "'i \<Rightarrow> 'b \<Rightarrow> 'b \<times> load_reply"
    and admin :: "'x \<Rightarrow> 'b \<Rightarrow> 'b"
    and content :: "'b \<Rightarrow> json option"
  assumes swap_content: "swap i expected proposed b = (b', reply, closes) \<Longrightarrow>
      content b' = content b \<or> content b = expected \<and> content b' = Some proposed"
    and swap_done: "swap i expected proposed b = (b', CasText proposed, closes) \<Longrightarrow>
      content b = expected \<and> content b' = Some proposed"
    and load_content: "load i b = (b', answer) \<Longrightarrow> content b' = content b"
    and admin_content: "content (admin x b) = content b"
begin

text \<open>One event leaves the stored journal or makes one lawful change of it.\<close>

lemma event_stored:
  assumes y: "system_ok content p y" and e: "single \<longrightarrow> single_event e"
  defines "y' \<equiv> system_step swap load admin p e y"
  shows "system_ok content p y'" and "stored content p y' = stored content p y
    \<or> spend_change p single (stored content p y) (stored content p y')"
proof -
  have p: "policy_ok p" and w: "\<And>i. owner_ok p (sy_owners y i)" using y by (simp_all add: system_ok_def)
  have "system_ok content p y' \<and> (stored content p y' = stored content p y
    \<or> spend_change p single (stored content p y) (stored content p y'))"
  proof (cases e)
    case (Act i op)
    obtain w' b' where step: "owner_step (swap i) p op (sy_owners y i, sy_backend y) = (w', b')"
      by (cases "owner_step (swap i) p op (sy_owners y i, sy_backend y)")
    have event: "owner_event p (swap i) single (sy_owners y i, sy_backend y) (w', b')"
      using owner_step_event [OF p w [of i], where single = single and op = op and cas = "swap i" and b = "sy_backend y"] e Act by (simp add: step)
    have w': "owner_ok p w'" by (rule owner_event_ok [OF p w event])
    have y': "y' = y\<lparr>sy_owners := (sy_owners y)(i := w'), sy_backend := b'\<rparr>"
      by (simp add: y'_def Act step)
    have moved: "content b' = content (sy_backend y) \<or> (\<exists>nxt. content (sy_backend y) = ow_current (sy_owners y i)
        \<and> content b' = Some (state_json p nxt) \<and> spend_change p single (ow_state (sy_owners y i)) nxt \<and> state_ok p nxt)"
      using event
    proof cases
      case (swap nxt)
      then show ?thesis using swap_content by blast
    next
      case (doubt nxt reply closes)
      then show ?thesis using swap_content [OF doubt(6)] by blast
    qed auto
    then show ?thesis
    proof
      assume "content b' = content (sy_backend y)"
      then show ?thesis using y w' by (auto simp: y' system_ok_def stored_def)
    next
      assume "\<exists>nxt. content (sy_backend y) = ow_current (sy_owners y i)
        \<and> content b' = Some (state_json p nxt) \<and> spend_change p single (ow_state (sy_owners y i)) nxt \<and> state_ok p nxt"
      then obtain nxt where n: "content (sy_backend y) = ow_current (sy_owners y i)"
        "content b' = Some (state_json p nxt)" "spend_change p single (ow_state (sy_owners y i)) nxt" "state_ok p nxt"
        by blast
      have "decode p (Some (state_json p nxt)) = Some nxt" using n(4) p by (simp only: decode_Some_eq)
      then show ?thesis using n w [of i] w' y by (auto simp: y' system_ok_def stored_def owner_ok_def)
    qed
  next
    case (Reopen i)
    then show ?thesis
      using y load_content [of i "sy_backend y"]
      by (auto simp: y'_def reopen_def system_ok_def stored_def open_owner_ok split: prod.splits sum.splits)
  next
    case (Admin x)
    then show ?thesis using y by (simp add: y'_def system_ok_def stored_def admin_content)
  qed
  then show "system_ok content p y'" and "stored content p y' = stored content p y
    \<or> spend_change p single (stored content p y) (stored content p y')" by blast+
qed

sublocale machine: ordered_machine "system_step swap load admin p" "system_ok content p"
  "\<lambda>y y'. journal_leq (stored content p y) (stored content p y')" for p
proof
  show "journal_leq (stored content p y) (stored content p (system_step swap load admin p e y))"
    if "system_ok content p y" for e y
    using event_stored(2) [OF that, of False e] by (auto intro: spend_change_leq)
qed (use event_stored(1) [where single = False] in \<open>auto intro: journal_leq_trans\<close>)

lemma run_one_open:
  assumes "system_ok content p y" and "one_open content p y" and "list_all single_event es"
  shows "one_open content p (run (system_step swap load admin p) es y)"
  using assms
proof (induction es arbitrary: y)
  case (Cons e es)
  have "one_open content p (system_step swap load admin p e y)"
    using event_stored(2) [OF Cons.prems(1), of True e] Cons.prems
    by (auto simp: one_open_def dest: spend_change_unresolved)
  then show ?case
    using Cons event_stored(1) [OF Cons.prems(1), of True e] by simp
qed simp

text \<open>An owner whose view is stale never gets its swap through, and is held.\<close>

lemma stale_swap:
  assumes "swap i expected proposed b = (b', reply, closes)" and "content b \<noteq> expected"
  shows "reply \<noteq> CasText proposed" and "content b' = content b"
  using assms swap_content swap_done by blast+

end

end
