(* ===== verification/Spending_Site.thy ===== *)
theory Spending_Site
  imports Spending_System
begin

text \<open>
  The SQLite store as the backend of several owners: one database, one store handle per owner,
  and the outcome of each transaction taken from a list of faults (\<open>SqlOk\<close> when the list is
  used up). Handles are opened, closed and transferred by the administrative operations.
\<close>

record spend_site =
  si_handles :: "nat \<Rightarrow> spend_store option"
  si_database :: "spend_database option"
  si_faults :: "sql_fault list"

definition site_content :: "spend_site \<Rightarrow> json option" where
  "site_content x = Option.bind (si_database x) db_raw"

definition next_fault :: "spend_site \<Rightarrow> sql_fault" where
  "next_fault x = (case si_faults x of [] \<Rightarrow> SqlOk | f # _ \<Rightarrow> f)"

text \<open>Run a program of handle \<open>i\<close>; a handle that was never opened throws.\<close>

definition on_handle :: "nat \<Rightarrow> (sql_fault \<Rightarrow> 'a store_prog) \<Rightarrow> spend_site \<Rightarrow> spend_site \<times> 'a option" where
  "on_handle i f x = (case (si_handles x i, si_database x) of
     (Some st, Some db) \<Rightarrow>
       (case f (next_fault x) (st, db) of ((st', db'), result) \<Rightarrow>
          (x\<lparr>si_handles := (si_handles x)(i := Some st'), si_database := Some db', si_faults := tl (si_faults x)\<rparr>,
           case result of Inl _ \<Rightarrow> None | Inr v \<Rightarrow> Some v))
   | _ \<Rightarrow> (x, None))"

definition site_swap :: "spend_policy \<Rightarrow> nat \<Rightarrow> spend_site cas" where
  "site_swap p i expected proposed x =
     (case on_handle i (\<lambda>fault. compare_and_swap fault (sp_accountId p) expected proposed) x of (x', result) \<Rightarrow>
        (x', case result of None \<Rightarrow> CasThrew | Some None \<Rightarrow> CasNull | Some (Some v) \<Rightarrow> CasText v, False))"

definition site_load :: "spend_policy \<Rightarrow> nat \<Rightarrow> spend_site \<Rightarrow> spend_site \<times> load_reply" where
  "site_load p i x = (case on_handle i (\<lambda>fault. store_load fault (sp_accountId p)) x of (x', result) \<Rightarrow>
     (x', case result of None \<Rightarrow> LoadThrew | Some None \<Rightarrow> LoadNull | Some (Some v) \<Rightarrow> LoadText v))"

datatype site_admin = OpenHandle nat bool spend_policy spend_token | TransferHandle nat jsval | CloseHandle nat

fun site_administer :: "site_admin \<Rightarrow> spend_site \<Rightarrow> spend_site" where
  "site_administer (OpenHandle i creating p token) x =
     (case open_store (next_fault x) creating p token (si_database x) of (d, st) \<Rightarrow>
        x\<lparr>si_handles := (si_handles x)(i := st), si_database := d, si_faults := tl (si_faults x)\<rparr>)"
| "site_administer (TransferHandle i nextOwnerId) x = fst (on_handle i (\<lambda>fault. transfer_ownership fault nextOwnerId) x)"
| "site_administer (CloseHandle i) x = fst (on_handle i (\<lambda>_. close_store) x)"

section \<open>What a transaction does to the database\<close>

lemmas store_run_defs = run_defs transaction_def store_usable_def abandon_def saw_revision_def

text \<open>A transaction leaves the database, or puts the one its work computed in place.\<close>

lemma transaction_effect:
  assumes "transaction fault work (st, db) = ((st', db'), r)"
  shows "db' = db \<and> (\<forall>v. r = Inr v \<longrightarrow> False) \<or> (\<exists>s revision new v. validate_database st db = Some s
    \<and> work st db s = Some (new, revision, v)
    \<and> (r = Inr v \<and> db' = new \<or> (\<exists>e. r = Inl e) \<and> (db' = db \<or> db' = new)))"
  using assms
  by (cases fault)
    (auto simp: store_run_defs split: if_splits option.splits prod.splits)

lemma load_effect:
  assumes "store_load fault account (st, db) = ((st', db'), r)"
  shows "db' = db \<and> (\<forall>v. r = Inr v \<longrightarrow> v = db_raw db)"
proof (cases "account = sp_accountId (sto_policy st)")
  case True
  then have "transaction fault (\<lambda>st db s. Some (db, ss_revision s, db_raw db)) (st, db) = ((st', db'), r)"
    using assms by (simp add: store_load_def run_defs)
  from transaction_effect [OF this] show ?thesis by auto
next
  case False
  then show ?thesis using assms by (auto simp: store_load_def run_defs)
qed

lemma swap_effect:
  assumes "compare_and_swap fault account expected proposed (st, db) = ((st', db'), r)"
  shows "db_raw db' = db_raw db \<or> db_raw db = expected \<and> db_raw db' = Some proposed"
    and "r = Inr (Some v) \<Longrightarrow> db_raw db = expected \<and> db_raw db' = Some proposed"
    and "r = Inr None \<Longrightarrow> db' = db"
    and "db' \<noteq> db \<Longrightarrow> db_storeId db' = db_storeId db \<and> db_policy db' = db_policy db \<and> db_ownerId db' = db_ownerId db
      \<and> db_epoch db' = db_epoch db"
proof -
  have refused: "db' = db \<and> (\<exists>e. r = Inl e) \<or> (\<exists>next. transaction fault (swap_work expected proposed next) (st, db) = ((st', db'), r))"
    using assms
    by (auto simp: compare_and_swap_def store_usable_def run_defs split: if_splits sum.splits)
  have work: "swap_work expected proposed next st0 db s = Some (new, revision, v) \<Longrightarrow>
      (new = db \<and> (v = None \<or> v = Some proposed \<and> db_raw db = expected \<and> expected = Some proposed))
      \<or> (v = Some proposed \<and> db_raw db = expected \<and> db_raw new = Some proposed \<and> db_storeId new = db_storeId db
         \<and> db_policy new = db_policy db \<and> db_ownerId new = db_ownerId db \<and> db_epoch new = db_epoch db)"
    for "next" st0 s new revision v
    by (auto simp: swap_work_def split: if_splits)
  show "db_raw db' = db_raw db \<or> db_raw db = expected \<and> db_raw db' = Some proposed"
    and "r = Inr (Some v) \<Longrightarrow> db_raw db = expected \<and> db_raw db' = Some proposed"
    and "r = Inr None \<Longrightarrow> db' = db"
    and "db' \<noteq> db \<Longrightarrow> db_storeId db' = db_storeId db \<and> db_policy db' = db_policy db \<and> db_ownerId db' = db_ownerId db
      \<and> db_epoch db' = db_epoch db"
    using refused by (auto dest!: transaction_effect work)
qed

lemma transfer_effect:
  assumes "transfer_ownership fault owner (st, db) = ((st', db'), r)"
  shows "db_raw db' = db_raw db" and "r = Inr t \<Longrightarrow> sto_closed st' \<and> db_epoch db' = tk_epoch (sto_token st) + 1
    \<and> tk_epoch t = db_epoch db' \<and> tk_ownerId t = db_ownerId db' \<and> tk_storeId t = tk_storeId (sto_token st)"
proof -
  have refused: "db' = db \<and> (\<exists>e. r = Inl e) \<or> (\<exists>st1 r1. transaction fault (transfer_work owner) (st, db) = ((st1, db'), r1)
      \<and> (\<forall>t. r = Inr t \<longrightarrow> r1 = Inr t \<and> sto_closed st'))"
    using assms by (auto simp: transfer_ownership_def run_defs split: if_splits sum.splits option.splits prod.splits)
  have work: "transfer_work owner st db s = Some (new, revision, v) \<Longrightarrow> db_raw new = db_raw db
      \<and> db_epoch new = tk_epoch (sto_token st) + 1 \<and> tk_epoch v = db_epoch new \<and> tk_ownerId v = db_ownerId new
      \<and> tk_storeId v = tk_storeId (sto_token st)" for s new revision v
    by (auto simp: transfer_work_def next_ownership_def bind_eq_Some_conv)
  show "db_raw db' = db_raw db" and "r = Inr t \<Longrightarrow> sto_closed st' \<and> db_epoch db' = tk_epoch (sto_token st) + 1
    \<and> tk_epoch t = db_epoch db' \<and> tk_ownerId t = db_ownerId db' \<and> tk_storeId t = tk_storeId (sto_token st)"
    using refused by (auto dest!: transaction_effect work)
qed

section \<open>The store provides the backend\<close>

lemma on_handle_content:
  assumes "on_handle i f x = (x', r)"
    and "\<And>st db st' db' q. f (next_fault x) (st, db) = ((st', db'), q) \<Longrightarrow> db_raw db' = db_raw db"
  shows "site_content x' = site_content x"
  using assms by (auto simp: on_handle_def site_content_def split: option.splits prod.splits)

lemma open_content: "open_store fault creating p token d = (d', st) \<Longrightarrow> Option.bind d' db_raw = Option.bind d db_raw"
proof -
  assume o: "open_store fault creating p token d = (d', st)"
  have same: "db' = db" if "transaction fault (\<lambda>st db s. Some (db, ss_revision s, ())) (st0, db) = ((st1, db'), r)"
    for st0 st1 db db' r
    using transaction_effect [OF that] by auto
  show ?thesis
    using o by (auto simp: open_store_def created_database_def split: option.splits prod.splits sum.splits if_splits dest!: same)
qed

interpretation site: spend_backend "site_swap p" "site_load p" site_administer site_content for p
proof
  fix i expected proposed b b' reply closes
  assume "site_swap p i expected proposed b = (b', reply, closes)"
  then show "site_content b' = site_content b \<or> site_content b = expected \<and> site_content b' = Some proposed"
    by (auto simp: site_swap_def on_handle_def site_content_def split: option.splits prod.splits dest!: swap_effect(1))
next
  fix i expected proposed b b' closes
  assume "site_swap p i expected proposed b = (b', CasText proposed, closes)"
  then show "site_content b = expected \<and> site_content b' = Some proposed"
    by (auto simp: site_swap_def on_handle_def site_content_def split: option.splits prod.splits sum.splits
        dest!: swap_effect(2))
next
  fix i b b' answer
  assume "site_load p i b = (b', answer)"
  then show "site_content b' = site_content b"
    by (auto simp: site_load_def on_handle_def site_content_def split: option.splits prod.splits dest!: load_effect)
next
  fix a b
  show "site_content (site_administer a b) = site_content b"
  proof (cases a)
    case (OpenHandle i creating q token)
    then show ?thesis by (auto simp: site_content_def split: prod.splits dest: open_content)
  next
    case (TransferHandle i owner)
    then show ?thesis
      by (auto intro!: on_handle_content [where f = "\<lambda>fault. transfer_ownership fault owner"] transfer_effect(1) simp: prod_eq_iff)
  next
    case (CloseHandle i)
    then show ?thesis
      by (auto intro!: on_handle_content [where f = "\<lambda>_. close_store"] simp: prod_eq_iff close_store_def run_defs)
  qed
qed

end
