(* ===== verification/Spending_Properties.thy ===== *)
theory Spending_Properties
  imports Spending_Site
begin

text \<open>
  The properties of the spending reservations: the limits of the stored journal, the operations of
  one owner, and the journal under several owners of one SQLite store.
\<close>

section \<open>A small journal\<close>

definition demo_policy :: spend_policy where
  "demo_policy = \<lparr>sp_policyId = ''p'', sp_accountId = ''a'', sp_network = ''n'', sp_asset = ''z'',
     sp_recipients = [''r''], sp_maxPayment = ''6'', sp_maxTotal = ''9'', sp_maxDaily = ''9'', sp_maxRecords = 2\<rparr>"

definition demo_policy_input :: jsval where
  "demo_policy_input = js_of (in_order policy_keys (policy_members demo_policy))"

definition demo_digest :: "char \<Rightarrow> string" where
  "demo_digest c = ''sha256:'' @ replicate 64 c"

definition demo_original :: "string \<Rightarrow> char \<Rightarrow> jsval" where
  "demo_original pid c = js_of (JObj [(''paymentId'', JStr pid), (''originalDigest'', JStr (demo_digest c)),
     (''network'', JStr ''n''), (''asset'', JStr ''z''), (''recipient'', JStr ''r''), (''amount'', JStr ''5'')])"

definition demo_row :: "string \<Rightarrow> char \<Rightarrow> spend_row" where
  "demo_row pid c = \<lparr>row_paymentId = pid, row_originalDigest = demo_digest c, row_network = ''n'', row_asset = ''z'',
     row_recipient = ''r'', row_amount = ''5'', row_reservedDay = 3, row_status = Reserved, row_spentDay = None,
     row_keys = row_member_keys\<rparr>"

definition demo_state :: spend_state where
  "demo_state = \<lparr>ss_policyKeys = policy_keys, ss_revision = 1, ss_lastDay = 3, ss_rows = [demo_row ''x'' CHR ''a'']\<rparr>"

lemma demo_tokens [simp]: "token_text ''p''" "token_text ''a''" "token_text ''n''" "token_text ''z''" "token_text ''r''"
  "token_text ''x''" "token_text ''y''"
  by (simp_all add: token_text_def is_alnum_def is_lower_def is_upper_def is_digit_def code_def)

lemma demo_digits [simp]: "digit_value CHR ''6'' = 6" "digit_value CHR ''9'' = 9" "digit_value CHR ''5'' = 5"
  by (simp_all add: digit_value_def code_def)

lemma demo_amounts [simp]: "amount_text ''6''" "amount_text ''9''" "amount_text ''5''"
  by (simp_all add: amount_text_def positive_decimal_def is_digit_def code_def max_amount_def)

lemma demo_policy_ok: "policy_ok demo_policy"
  by (simp add: policy_ok_def demo_policy_def)

lemma demo_policy_captured: "capture_policy demo_policy_input = Some demo_policy"
  unfolding demo_policy_input_def capture_policy_js using demo_policy_ok keys_of_self policy_keys_distinct(1) by blast

lemma demo_digest_ok [simp]: "is_hex c \<Longrightarrow> commitment_text (demo_digest c)"
  unfolding demo_digest_def commitment_text_def prefixed_hex64_append by (rule is_hex64_replicate)

lemma demo_hex [simp]: "is_hex CHR ''a''" "is_hex CHR ''b''"
  by (simp_all add: is_hex_def is_digit_def code_def)

lemma demo_state_ok: "state_ok demo_policy demo_state"
  by (simp add: state_ok_def demo_state_def demo_row_def row_ok_def row_value_def demo_policy_def day_number_def max_safe_def
      rows_within_def total_exposure_def daily_exposure_def event_days_def starts_on_def)

section \<open>The stored journal\<close>

text \<open>C18: A stored journal text is accepted exactly when it is the text of a valid state for the
  captured policy, and then the state it denotes is that state: nothing else decodes, and no valid
  state is refused (its text always fits the size bound).\<close>

theorem state_text_exact:
  assumes "capture_policy input = Some p"
  shows "decode p (Some v) = Some s \<longleftrightarrow> v = state_json p s \<and> state_ok p s"
  using capture_policy_ok [OF assms] by (rule decode_Some_eq)

theorem state_text_exact_witness:
  "decode demo_policy (Some (state_json demo_policy demo_state)) = Some demo_state"
  using state_text_exact [OF demo_policy_captured] demo_state_ok by blast

text \<open>C17: Whatever journal is accepted keeps every limit of its policy: the total of all originals,
  the exposure of every single day of its history (unresolved originals carried into each later day
  and a spent one counted through its spend day), the amount of every payment, the number of
  records, and no payment or original twice.\<close>

theorem decoded_limits:
  assumes "capture_policy input = Some p" and "decode p raw = Some s"
  shows "total_exposure (ss_rows s) \<le> decimal_value (sp_maxTotal p)
    \<and> (\<forall>d. exposure_on d (ss_rows s) \<le> decimal_value (sp_maxDaily p))
    \<and> (\<forall>r \<in> set (ss_rows s). row_value r \<le> decimal_value (sp_maxPayment p) \<and> row_recipient r \<in> set (sp_recipients p))
    \<and> int (length (ss_rows s)) \<le> sp_maxRecords p
    \<and> distinct (map row_paymentId (ss_rows s)) \<and> distinct (map row_originalDigest (ss_rows s))"
proof -
  have p: "policy_ok p" by (rule capture_policy_ok [OF assms(1)])
  have base: "base_ok p s" using assms(2) p by (cases raw) (auto simp: base_ok_def decode_Some_eq)
  moreover have "int (length (ss_rows s)) \<le> sp_maxRecords p"
    using base p by (auto simp: base_ok_def initial_state_def state_ok_def policy_ok_def)
  ultimately show ?thesis using base_rows [OF base] by (auto simp: row_ok_def)
qed

theorem decoded_limits_witness:
  "(\<forall>d. exposure_on d (ss_rows demo_state) \<le> 9) \<and> exposure_on 7 (ss_rows demo_state) = 5"
proof -
  have "decode demo_policy (Some (state_json demo_policy demo_state)) = Some demo_state"
    using demo_state_ok demo_policy_ok by (simp only: decode_Some_eq)
  from decoded_limits [OF demo_policy_captured this]
  show ?thesis
    by (simp add: demo_policy_def) (simp add: demo_state_def demo_row_def exposure_on_def not_before_def row_value_def)
qed

section \<open>One owner\<close>

lemma owner_event_held:
  assumes "owner_event p cas single (w, b) (w', b')" and "ow_held w \<or> ow_closed w"
  shows "b' = b \<and> ow_state w' = ow_state w \<and> ow_current w' = ow_current w \<and> (ow_held w' \<or> ow_closed w')"
  using assms by cases auto

lemma held_run:
  assumes "policy_ok p" and "owner_ok p w" and "ow_held w \<or> ow_closed w"
  shows "snd (run (owner_step cas p) ops (w, b)) = b
    \<and> ow_state (fst (run (owner_step cas p) ops (w, b))) = ow_state w"
  using assms(2,3)
proof (induction ops arbitrary: w)
  case (Cons op ops)
  obtain w' b' where step: "owner_step cas p op (w, b) = (w', b')" by (cases "owner_step cas p op (w, b)")
  have event: "owner_event p cas False (w, b) (w', b')"
    using owner_step_event [OF assms(1) Cons.prems(1), where single = False and op = op and cas = cas and b = b]
    by (simp add: step)
  note held = owner_event_held [OF event Cons.prems(2)]
  then show ?case
    using Cons.IH [of w'] owner_event_ok [OF assms(1) Cons.prems(1) event] by (simp add: step)
qed simp

text \<open>When a reservation may be made, and what it does then.\<close>

definition admissible :: "spend_policy \<Rightarrow> bool \<Rightarrow> spend_state \<Rightarrow> int \<Rightarrow> spend_row \<Rightarrow> bool" where
  "admissible p single s d r \<longleftrightarrow> ss_lastDay s \<le> d
     \<and> (single \<longrightarrow> (\<forall>q \<in> set (ss_rows s). row_status q = Spent))
     \<and> (\<forall>q \<in> set (ss_rows s). row_paymentId q \<noteq> row_paymentId r \<and> row_originalDigest q \<noteq> row_originalDigest r)
     \<and> int (length (ss_rows s)) < sp_maxRecords p
     \<and> total_exposure (ss_rows s @ [r]) \<le> decimal_value (sp_maxTotal p)
     \<and> daily_exposure d (ss_rows s @ [r]) \<le> decimal_value (sp_maxDaily p)
     \<and> ss_revision s < max_safe - 1"

definition reserved_state :: "spend_state \<Rightarrow> int \<Rightarrow> spend_row \<Rightarrow> spend_state" where
  "reserved_state s d r = s\<lparr>ss_revision := ss_revision s + 1, ss_lastDay := d, ss_rows := ss_rows s @ [r]\<rparr>"

lemma reserved_state_ok:
  assumes "policy_ok p" and "owner_ok p w" and "as_day nowDay = Some d" and "new_reservation p input d = Inr r"
    and "admissible p single (ow_state w) d r"
  shows "decode p (Some (state_json p (reserved_state (ow_state w) d r))) = Some (reserved_state (ow_state w) d r)"
proof -
  have day: "day_number d" using assms(3) by (auto simp: as_day_def satisfying_eq_Some split: if_splits)
  have "state_ok p (reserved_state (ow_state w) d r)"
    unfolding reserved_state_def using assms(5)
    by (intro add_ok [OF assms(1) owner_base(1) [OF assms(1,2)] day _ assms(4)]) (simp_all add: admissible_def)
  then show ?thesis using assms(1) by (simp only: decode_Some_eq)
qed

lemma reserve_run:
  assumes p: "policy_ok p" and w: "owner_ok p w" "\<not> ow_closed w" "\<not> ow_held w"
    and d: "as_day nowDay = Some d" and r: "new_reservation p input d = Inr r"
    and a: "admissible p single (ow_state w) d r"
    and cas: "cas (ow_current w) (state_json p (reserved_state (ow_state w) d r)) b = (b', reply, closes)"
  shows "reserve_original cas p single input nowDay (w, b) =
    (if reply = CasText (state_json p (reserved_state (ow_state w) d r)) \<and> \<not> closes
     then ((w\<lparr>ow_current := Some (state_json p (reserved_state (ow_state w) d r)), ow_state := reserved_state (ow_state w) d r\<rparr>, b'),
       Inr (row_paymentId r, row_originalDigest r))
     else ((w\<lparr>ow_closed := closes, ow_held := True\<rparr>, b'),
       Inl (if closes then CLOSED else if reply = CasNull then CONFLICT else COMMIT_UNKNOWN)))"
proof -
  note ok = reserved_state_ok [OF p w(1) d r a]
  note a' = a [unfolded admissible_def]
  have busy: "\<not> ow_busy w" using w(1) by (simp add: owner_ok_def)
  have flags: "w\<lparr>ow_busy := False, ow_closed := closes, ow_held := True\<rparr> = w\<lparr>ow_closed := closes, ow_held := True\<rparr>"
    "w\<lparr>ow_current := x, ow_state := y, ow_busy := False\<rparr> = w\<lparr>ow_current := x, ow_state := y\<rparr>"
    "\<not> closes \<Longrightarrow> w\<lparr>ow_busy := False, ow_held := True\<rparr> = w\<lparr>ow_closed := closes, ow_held := True\<rparr>" for x y
    using w(2) busy by (cases w; simp)+
  show ?thesis
    using w a' busy cas ok
    by (auto simp: reserve_original_def change_def usable_def reserve_work_def selected_day_def d r run_defs Let_def
        commit_def call_cas_def refuse_held_def hold_def set_busy_def revision_first flags
        simp flip: reserved_state_def)
qed

definition fresh_owner :: spend_owner where
  "fresh_owner = \<lparr>ow_current = None, ow_state = initial_state, ow_busy = False, ow_closed = False, ow_held = False\<rparr>"

lemma fresh_owner_fields [simp]: "ow_current fresh_owner = None" "ow_state fresh_owner = initial_state"
  "\<not> ow_busy fresh_owner" "\<not> ow_closed fresh_owner" "\<not> ow_held fresh_owner"
  by (simp_all add: fresh_owner_def)

lemma demo_row_ids [simp]: "row_paymentId (demo_row pid c) = pid" "row_originalDigest (demo_row pid c) = demo_digest c"
  by (simp_all add: demo_row_def)

lemma fresh_owner_ok: "owner_ok p fresh_owner"
  by (simp add: owner_ok_def)

lemma demo_day: "as_day (num 3) = Some 3"
  using as_day_js [of "JNum 3" 3] by (simp add: day_number_def)

lemma demo_original_fields: "exact_fields original_keys (demo_original pid c) = Some [(''paymentId'', VStr pid),
    (''originalDigest'', VStr (demo_digest c)), (''network'', VStr ''n''), (''asset'', VStr ''z''),
    (''recipient'', VStr ''r''), (''amount'', VStr ''5'')]"
  by (simp add: demo_original_def original_keys_def row_member_keys_def obj_def js_members_def)

lemma demo_reservation:
  "token_text pid \<Longrightarrow> is_hex c \<Longrightarrow> new_reservation demo_policy (demo_original pid c) 3 = Inr (demo_row pid c)"
  by (simp add: new_reservation_def demo_original_fields reservation_fields_def original_texts_def demo_policy_def demo_row_def)

lemma demo_admissible: "admissible demo_policy single initial_state 3 (demo_row pid c)"
  by (simp add: admissible_def initial_state_def demo_policy_def demo_row_def total_exposure_def daily_exposure_def
      row_value_def max_safe_def)

lemma demo_reserved_state: "reserved_state initial_state 3 (demo_row ''x'' CHR ''a'') = demo_state"
  by (simp add: reserved_state_def initial_state_def demo_state_def)

lemma demo_run:
  assumes "cas None (state_json demo_policy demo_state) b = (b', reply, closes)"
  shows "reserve_original cas demo_policy single (demo_original ''x'' CHR ''a'') (num 3) (fresh_owner, b) =
    (if reply = CasText (state_json demo_policy demo_state) \<and> \<not> closes
     then ((fresh_owner\<lparr>ow_current := Some (state_json demo_policy demo_state), ow_state := demo_state\<rparr>, b'),
       Inr (''x'', demo_digest CHR ''a''))
     else ((fresh_owner\<lparr>ow_closed := closes, ow_held := True\<rparr>, b'),
       Inl (if closes then CLOSED else if reply = CasNull then CONFLICT else COMMIT_UNKNOWN)))"
  using reserve_run [OF demo_policy_ok fresh_owner_ok _ _ demo_day demo_reservation, of "''x''" "CHR ''a''" single cas b b' reply closes]
    assms demo_admissible [of single "''x''" "CHR ''a''"]
  by (simp add: demo_reserved_state)

lemma reserve_success:
  assumes "reserve_original cas p single original nowDay (w, b) = ((w', b'), Inr ids)"
  shows "\<not> ow_closed w \<and> \<not> ow_held w \<and> (\<exists>d r. as_day nowDay = Some d \<and> new_reservation p original d = Inr r
    \<and> admissible p single (ow_state w) d r)"
  using assms
  by (auto simp: reserve_original_def change_def usable_def reserve_work_def selected_day_def run_defs Let_def
      commit_def refuse_held_def hold_def set_busy_def admissible_def split: if_splits option.splits sum.splits prod.splits)

text \<open>C16: A reservation by a usable owner whose backend takes the proposed swap succeeds exactly when
  the day is valid and not before the journal's last day, the original is well formed, allowed by the
  policy and not reserved before, the record, total and daily limits have room for it, the revision
  can be counted on, and, for a single-original reservation, no original is unresolved. The owner and
  its backend then hold the journal with the original appended as the last, unresolved row.\<close>

theorem original_reserved_iff:
  assumes "capture_policy input = Some p" and "owner_ok p w"
    and "\<And>expected proposed. cas expected proposed b = (after expected proposed, CasText proposed, False)"
  shows "((\<exists>w' b' ids. reserve_original cas p single original nowDay (w, b) = ((w', b'), Inr ids)) \<longleftrightarrow>
      \<not> ow_closed w \<and> \<not> ow_held w \<and> (\<exists>d r. as_day nowDay = Some d \<and> new_reservation p original d = Inr r
        \<and> admissible p single (ow_state w) d r))
    \<and> (\<forall>d r. \<not> ow_closed w \<and> \<not> ow_held w \<and> as_day nowDay = Some d \<and> new_reservation p original d = Inr r
        \<and> admissible p single (ow_state w) d r \<longrightarrow>
      (let next = reserved_state (ow_state w) d r; raw = state_json p next in
        reserve_original cas p single original nowDay (w, b) =
          ((w\<lparr>ow_current := Some raw, ow_state := next\<rparr>, after (ow_current w) raw),
           Inr (row_paymentId r, row_originalDigest r))))"
proof -
  note run = reserve_run [where cas = cas and b = b and closes = False and reply = "CasText v" and b' = "after e v" for v e,
      OF capture_policy_ok [OF assms(1)] assms(2)]
  show ?thesis
    using run assms(3) reserve_success [of cas p single original nowDay w b] by (auto simp: Let_def)
qed

theorem original_reserved_iff_witness:
  "reserve_original (\<lambda>e v (b::nat). (b + 1, CasText v, False)) demo_policy True (demo_original ''x'' CHR ''a'') (num 3)
     (fresh_owner, 0) =
   ((fresh_owner\<lparr>ow_current := Some (state_json demo_policy demo_state), ow_state := demo_state\<rparr>, 1),
     Inr (''x'', demo_digest CHR ''a''))"
  using original_reserved_iff [OF demo_policy_captured fresh_owner_ok, of "\<lambda>e v b. (b + 1, CasText v, False)" "0::nat" "\<lambda>_ _. 1"
      True "demo_original ''x'' CHR ''a''" "num 3"] demo_day demo_reservation [of "''x''" "CHR ''a''"]
    demo_admissible [of True "''x''" "CHR ''a''"] demo_reserved_state
  by (simp add: Let_def)

text \<open>If a reservation fails after the backend was called (the swap threw, was answered with
  anything but the proposed text, or the backend closed the owner meanwhile), or a second unresolved
  original was asked for, the owner keeps the state it had and is held; from then on no sequence of
  its operations reaches the backend or changes its state. A failed reservation is never a failure of
  the validation of its own proposal.\<close>

theorem doubt_holds_owner:
  assumes "capture_policy input = Some p" and "owner_ok p w"
    and op: "reserve_original cas p single original nowDay (w, b) = ((w', b'), Inl e)"
  shows "e \<noteq> CORRUPT \<and> ow_state w' = ow_state w \<and> ow_current w' = ow_current w
    \<and> (b' \<noteq> b \<or> e \<in> {COMMIT_UNKNOWN, CONFLICT, UNRESOLVED_ORIGINAL} \<longrightarrow>
        ow_held w' \<and> snd (run (owner_step cas p) ops (w', b')) = b'
        \<and> ow_state (fst (run (owner_step cas p) ops (w', b'))) = ow_state w)"
proof -
  have p: "policy_ok p" by (rule capture_policy_ok [OF assms(1)])
  have r: "refusal w b e (w', b')" and event: "owner_event p cas single (w, b) (w', b')"
    using wpre_error [OF reserve_event [OF p assms(2)] op] by auto
  have "owner_ok p w'" by (rule owner_event_ok [OF p assms(2) event])
  then show ?thesis using held_run [OF p, of w' cas ops b'] r by (auto simp: refusal_def)
qed

theorem doubt_holds_owner_witness:
  "snd (reserve_original (\<lambda>e v (b::nat). (b + 1, CasThrew, False)) demo_policy True (demo_original ''x'' CHR ''a'') (num 3)
     (fresh_owner, 0)) = Inl COMMIT_UNKNOWN
   \<and> snd (run (owner_step (\<lambda>e v (b::nat). (b + 1, CasThrew, False)) demo_policy)
       [OpReserve True (demo_original ''y'' CHR ''b'') (num 3)] (fresh_owner\<lparr>ow_closed := False, ow_held := True\<rparr>, 1)) = 1"
proof -
  have op: "reserve_original (\<lambda>e v (b::nat). (b + 1, CasThrew, False)) demo_policy True (demo_original ''x'' CHR ''a'') (num 3)
     (fresh_owner, 0) = ((fresh_owner\<lparr>ow_closed := False, ow_held := True\<rparr>, 1), Inl COMMIT_UNKNOWN)"
    by (subst demo_run [of "\<lambda>e v (b::nat). (b + 1, CasThrew, False)" 0 1 CasThrew False]) simp_all
  have "snd (run (owner_step (\<lambda>e v (b::nat). (b + 1, CasThrew, False)) demo_policy)
       [OpReserve True (demo_original ''y'' CHR ''b'') (num 3)] (fresh_owner\<lparr>ow_closed := False, ow_held := True\<rparr>, 1)) = 1"
    using doubt_holds_owner [OF demo_policy_captured fresh_owner_ok op,
        of "[OpReserve True (demo_original ''y'' CHR ''b'') (num 3)]"] by blast
  then show ?thesis by (simp only: op snd_conv simp_thms)
qed

lemma commit_agree:
  assumes p: "policy_ok p" and w: "owner_ok p w" and law: "lawful_proposal p single (ow_state w) nxt"
    and agree: "\<And>e v t. require_transition p e v = Inr t \<Longrightarrow> cas e v b = cas' e v b"
  shows "commit cas p nxt (w\<lparr>ow_busy := True\<rparr>, b) = commit cas' p nxt (w\<lparr>ow_busy := True\<rparr>, b)"
proof (cases "ss_revision (ow_state w) < max_safe - 1")
  case True
  define t where "t = nxt\<lparr>ss_revision := ss_revision (ow_state w) + 1\<rparr>"
  have t: "spend_change p single (ow_state w) t" "state_ok p t"
    using law True by (simp_all add: t_def Let_def lawful_proposal_def)
  have "cas (ow_current w) (state_json p t) b = cas' (ow_current w) (state_json p t) b"
    by (rule agree [OF change_lawful [OF p w t]])
  then have call: "call_cas cas (state_json p t) (w\<lparr>ow_busy := True\<rparr>, b) = call_cas cas' (state_json p t) (w\<lparr>ow_busy := True\<rparr>, b)"
    by (simp add: call_cas_def)
  have "decode p (Some (state_json p t)) = Some t" using t p by (simp only: decode_Some_eq)
  then show ?thesis
    using True by (simp add: commit_def andthen_def gets_def assure_def demand_def Let_def call flip: t_def)
qed (simp add: commit_def run_defs)

lemma change_agree:
  assumes p: "policy_ok p" and w: "owner_ok p w" and work: "good_work p single (w\<lparr>ow_busy := True\<rparr>) work"
    and agree: "\<And>e v t. require_transition p e v = Inr t \<Longrightarrow> cas e v b = cas' e v b"
  shows "change cas p work (w, b) = change cas' p work (w, b)"
proof -
  obtain x r where run: "work (w\<lparr>ow_busy := True\<rparr>, b) = (x, r)" by (cases "work (w\<lparr>ow_busy := True\<rparr>, b)")
  note good = work [unfolded good_work_def, rule_format, of b]
  show ?thesis
  proof (cases r)
    case (Inl e)
    then show ?thesis using run by (simp add: change_def run_defs set_busy_def usable_def)
  next
    case (Inr q)
    then have x: "x = (w\<lparr>ow_busy := True\<rparr>, b)"
      and law: "fst q = Some nxt \<Longrightarrow> lawful_proposal p single (ow_state w) nxt" for nxt
      using wpre_result [OF good, of x q] run by auto
    have same: "commit cas p nxt (w\<lparr>ow_busy := True\<rparr>, b) = commit cas' p nxt (w\<lparr>ow_busy := True\<rparr>, b)" if "fst q = Some nxt" for nxt
      by (rule commit_agree [where cas = cas and cas' = cas', OF p w law [OF that] agree])
    show ?thesis
      using run x same Inr
      by (cases q; cases "fst q") (simp_all add: change_def andthen_def usable_def gets_def assure_def assign_def set_busy_def)
  qed
qed

text \<open>Every operation of an owner consults its backend with lawful transitions only: two backends
  that answer alike whenever the transition check of the store
  (\<open>requireOriginalFundingSpendingStateTransition\<close>) accepts the expected and the proposed text give
  every operation the same result, the same owner and the same backend state.\<close>

theorem owner_consults_lawfully:
  assumes "capture_policy input = Some p" and "owner_ok p w"
    and agree: "\<And>e v t. require_transition p e v = Inr t \<Longrightarrow> cas e v b = cas' e v b"
  shows "reserve_original cas p single original nowDay (w, b) = reserve_original cas' p single original nowDay (w, b)
    \<and> observe cas p paymentId digest st nowDay (w, b) = observe cas' p paymentId digest st nowDay (w, b)"
proof -
  have p: "policy_ok p" by (rule capture_policy_ok [OF assms(1)])
  have "good_work p single (w\<lparr>ow_busy := True\<rparr>) (reserve_work p single original nowDay)"
    using owner_base(1) [OF p assms(2)] by (intro reserve_good p) simp
  note reserve = change_agree [where cas = cas and cas' = cas' and b = b, OF p assms(2) this agree]
  have "good_work p single (w\<lparr>ow_busy := True\<rparr>) (observe_work pid dig s nowDay)" if "s \<noteq> Reserved" for pid dig s
    using owner_base(1) [OF p assms(2)] that by (intro observe_good) simp_all
  note observe = change_agree [where cas = cas and cas' = cas' and b = b, OF p assms(2) this agree]
  show ?thesis
    using reserve observe
    by (simp add: reserve_original_def observe_def andthen_def demand_def satisfying_eq_Some split: option.splits)
qed

definition trusting_cas :: "nat cas" where
  "trusting_cas = (\<lambda>e v b. (b + 1, CasText v, False))"

definition careful_cas :: "nat cas" where
  "careful_cas = (\<lambda>e v b. case require_transition demo_policy e v of
     Inr _ \<Rightarrow> (b + 1, CasText v, False) | Inl _ \<Rightarrow> (b, CasThrew, False))"

theorem owner_consults_lawfully_witness:
  "snd (reserve_original careful_cas demo_policy True (demo_original ''x'' CHR ''a'') (num 3) (fresh_owner, 0))
    = Inr (''x'', demo_digest CHR ''a'')"
proof -
  have agree: "careful_cas e v 0 = trusting_cas e v 0" if "require_transition demo_policy e v = Inr t" for e v t
    using that by (simp add: careful_cas_def trusting_cas_def)
  have "trusting_cas None (state_json demo_policy demo_state) 0 = (1, CasText (state_json demo_policy demo_state), False)"
    by (simp add: trusting_cas_def)
  from demo_run [where cas = trusting_cas, OF this, of True]
  show ?thesis
    using owner_consults_lawfully [where cas = careful_cas and cas' = trusting_cas and b = 0 and single = True
        and original = "demo_original ''x'' CHR ''a''" and nowDay = "num 3", OF demo_policy_captured fresh_owner_ok agree]
    by simp
qed

section \<open>Several owners of one store\<close>

definition site_run :: "spend_policy \<Rightarrow> (nat, site_admin) spend_event list \<Rightarrow> (nat, spend_site) spend_system
    \<Rightarrow> (nat, spend_site) spend_system" where
  "site_run p es y = run (system_step (site_swap p) (site_load p) site_administer p) es y"

definition demo_token :: spend_token where
  "demo_token = \<lparr>tk_storeId = ''s'', tk_accountId = ''a'', tk_ownerId = ''o'', tk_epoch = 1, tk_minimumRevision = 0\<rparr>"

definition demo_site :: "(nat, spend_site) spend_system" where
  "demo_site = \<lparr>sy_owners = (\<lambda>_. fresh_owner), sy_backend = \<lparr>si_handles = (\<lambda>_. Some (fresh_store demo_policy demo_token)),
     si_database = Some (created_database demo_policy demo_token), si_faults = []\<rparr>\<rparr>"

definition demo_race :: "(nat, site_admin) spend_event list" where
  "demo_race = [Act 0 (OpReserve True (demo_original ''x'' CHR ''a'') (num 3)),
     Act 1 (OpReserve True (demo_original ''y'' CHR ''b'') (num 3))]"

lemma demo_site_ok: "system_ok site_content demo_policy demo_site" "one_open site_content demo_policy demo_site"
  by (simp_all add: system_ok_def one_open_def stored_def demo_site_def site_content_def created_database_def
      demo_policy_ok fresh_owner_ok initial_state_def unresolved_count_def)

text \<open>C14: However the operations of several owners of one SQLite store are interleaved, with handles
  opened, transferred and closed in between, owners reopened, statements refused and commits that
  fail with or without effect, the stored journal stays valid and only moves forward: revision and
  last day never decrease, no original is removed, reordered or changed in its payment, digest,
  network, asset, recipient, amount or day, a spent one stays as it is and an observed one is never
  unobserved.\<close>

theorem stored_journal_forward:
  assumes "system_ok site_content p y"
  shows "system_ok site_content p (site_run p es y)
    \<and> journal_leq (stored site_content p y) (stored site_content p (site_run p es y))"
  unfolding site_run_def using site.machine.run_inv [OF assms] site.machine.run_leq [OF assms] by blast

theorem stored_journal_forward_witness:
  "journal_leq initial_state (stored site_content demo_policy (site_run demo_policy demo_race demo_site))"
  using stored_journal_forward [OF demo_site_ok(1), of demo_race]
  by (simp add: stored_def demo_site_def site_content_def created_database_def)

text \<open>C13: If every reservation is a single-original one, the stored journal never has more than one
  unresolved original, whatever the interleaving of the owners and whatever SQLite does: a stale
  owner's check passes, but its swap does not.\<close>

theorem one_unresolved_original:
  assumes "system_ok site_content p y" and "one_open site_content p y" and "list_all single_event es"
  shows "unresolved_count (ss_rows (stored site_content p (site_run p es y))) \<le> 1"
  using site.run_one_open [OF assms] by (simp add: one_open_def site_run_def)

theorem one_unresolved_original_witness:
  "unresolved_count (ss_rows (stored site_content demo_policy (site_run demo_policy demo_race demo_site))) \<le> 1"
  using one_unresolved_original [OF demo_site_ok, of demo_race] by (simp add: demo_race_def)

section \<open>Fencing\<close>

text \<open>The token of the handle is behind the epoch of the database.\<close>

definition fenced :: "nat \<Rightarrow> spend_site \<Rightarrow> bool" where
  "fenced i x \<longleftrightarrow> (\<exists>st db. si_handles x i = Some st \<and> si_database x = Some db \<and> tk_epoch (sto_token st) < db_epoch db)"

text \<open>A program of a handle keeps its token, never lowers the epoch, and does nothing when fenced.\<close>

definition handle_prog :: "(sql_fault \<Rightarrow> 'a store_prog) \<Rightarrow> bool" where
  "handle_prog f \<longleftrightarrow> (\<forall>fault st db st' db' r. f fault (st, db) = ((st', db'), r) \<longrightarrow>
     sto_token st' = sto_token st \<and> db_epoch db \<le> db_epoch db'
     \<and> (tk_epoch (sto_token st) < db_epoch db \<longrightarrow> db' = db))"

lemma on_handle_fenced:
  assumes "handle_prog f" and "on_handle j f x = (x', r)" and "fenced i x"
  shows "fenced i x'" and "i = j \<Longrightarrow> si_database x' = si_database x"
proof -
  show "fenced i x'"
    using assms by (fastforce simp: on_handle_def fenced_def handle_prog_def split: option.splits prod.splits if_splits)
  show "si_database x' = si_database x" if "i = j"
    using assms that by (fastforce simp: on_handle_def fenced_def handle_prog_def split: option.splits prod.splits)
qed

lemma validate_epoch: "validate_database st db = Some s \<Longrightarrow> tk_epoch (sto_token st) = db_epoch db"
  by (auto simp: validate_database_def require_ownership_def observed_token_def bind_eq_Some_conv Let_def)

lemma transaction_token: "transaction fault work (st, db) = ((st', db'), r) \<Longrightarrow> sto_token st' = sto_token st"
  by (cases fault) (auto simp: store_run_defs split: if_splits option.splits prod.splits)

lemma transaction_prog:
  assumes "\<And>st db s new revision v. work st db s = Some (new, revision, v) \<Longrightarrow> db_epoch db = tk_epoch (sto_token st)
    \<Longrightarrow> db_epoch db \<le> db_epoch new"
  shows "handle_prog (\<lambda>fault. transaction fault work)"
  unfolding handle_prog_def
proof (intro allI impI conjI)
  fix fault st db st' db' r
  assume t: "transaction fault work (st, db) = ((st', db'), r)"
  show "sto_token st' = sto_token st" by (rule transaction_token [OF t])
  show "db_epoch db \<le> db_epoch db'" using transaction_effect [OF t] assms validate_epoch by fastforce
  show "db' = db" if "tk_epoch (sto_token st) < db_epoch db"
    using transaction_effect [OF t] validate_epoch that by fastforce
qed

lemma swap_prog: "handle_prog (\<lambda>fault. compare_and_swap fault account expected proposed)"
proof -
  have inner: "handle_prog (\<lambda>fault. transaction fault (swap_work expected proposed next))" for "next"
    by (rule transaction_prog) (auto simp: swap_work_def split: if_splits)
  show ?thesis
    unfolding handle_prog_def
    using inner [unfolded handle_prog_def]
    by (auto simp: compare_and_swap_def store_usable_def run_defs split: if_splits sum.splits; blast)
qed

lemma load_prog: "handle_prog (\<lambda>fault. store_load fault account)"
proof -
  have inner: "handle_prog (\<lambda>fault. transaction fault (\<lambda>st db s. Some (db, ss_revision s, db_raw db)))"
    by (rule transaction_prog) auto
  show ?thesis
    unfolding handle_prog_def using inner [unfolded handle_prog_def]
    by (auto simp: store_load_def run_defs split: if_splits; blast)
qed

lemma transfer_prog: "handle_prog (\<lambda>fault. transfer_ownership fault owner)"
proof -
  have inner: "handle_prog (\<lambda>fault. transaction fault (transfer_work owner))"
    by (rule transaction_prog) (auto simp: transfer_work_def next_ownership_def bind_eq_Some_conv)
  show ?thesis
    unfolding handle_prog_def using inner [unfolded handle_prog_def]
    by (auto simp: transfer_ownership_def run_defs split: if_splits option.splits prod.splits sum.splits; blast)
qed

lemma close_prog: "handle_prog (\<lambda>_. close_store)"
  by (auto simp: handle_prog_def close_store_def run_defs)

text \<open>Events that do not open handle \<open>i\<close> anew.\<close>

fun keeps_handle :: "nat \<Rightarrow> (nat, site_admin) spend_event \<Rightarrow> bool" where
  "keeps_handle i (Admin (OpenHandle j _ _ _)) \<longleftrightarrow> j \<noteq> i"
| "keeps_handle i _ \<longleftrightarrow> True"

lemma swap_fenced:
  assumes "site_swap p j e v x = (x', reply, closes)" and "fenced i x"
  shows "fenced i x'" and "i = j \<Longrightarrow> si_database x' = si_database x"
proof -
  obtain r where run: "on_handle j (\<lambda>fault. compare_and_swap fault (sp_accountId p) e v) x = (x', r)"
    using assms(1) by (auto simp: site_swap_def split: prod.splits)
  show "fenced i x'" by (rule on_handle_fenced(1) [OF swap_prog run assms(2)])
  show "i = j \<Longrightarrow> si_database x' = si_database x" by (rule on_handle_fenced(2) [OF swap_prog run assms(2)])
qed

lemma owner_step_fenced:
  assumes "system_ok site_content p y" and "fenced i (sy_backend y)"
    and "owner_step (site_swap p j) p op (sy_owners y j, sy_backend y) = (w', x')"
  shows "fenced i x'" and "i = j \<Longrightarrow> si_database x' = si_database (sy_backend y)"
proof -
  have "owner_event p (site_swap p j) False (sy_owners y j, sy_backend y) (w', x')"
    using owner_step_event [where p = p and cas = "site_swap p j" and single = False and op = op and b = "sy_backend y"
        and w = "sy_owners y j"] assms by (simp add: system_ok_def)
  then have "x' = sy_backend y \<or> (\<exists>e v reply closes. site_swap p j e v (sy_backend y) = (x', reply, closes))"
    by cases auto
  then show "fenced i x'" and "i = j \<Longrightarrow> si_database x' = si_database (sy_backend y)"
    using assms(2) swap_fenced by blast+
qed

lemma step_fenced:
  assumes y: "system_ok site_content p y" and f: "fenced i (sy_backend y)" and k: "keeps_handle i e"
  shows "fenced i (sy_backend (system_step (site_swap p) (site_load p) site_administer p e y))"
proof (cases e)
  case (Act j op)
  then show ?thesis
    using owner_step_fenced(1) [OF y f, of j op] by (auto split: prod.splits)
next
  case (Reopen j)
  obtain x' r where load: "site_load p j (sy_backend y) = (x', r)" by (cases "site_load p j (sy_backend y)")
  then obtain q where "on_handle j (\<lambda>fault. store_load fault (sp_accountId p)) (sy_backend y) = (x', q)"
    by (auto simp: site_load_def split: prod.splits)
  then have "fenced i x'" by (rule on_handle_fenced(1) [OF load_prog _ f])
  then show ?thesis using load by (auto simp: Reopen reopen_def split: sum.splits)
next
  case (Admin a)
  show ?thesis
  proof (cases a)
    case (OpenHandle j creating q token)
    have same: "db' = db" if "transaction fault (\<lambda>st db s. Some (db, ss_revision s, ())) (st0, db) = ((st1, db'), r)"
      for fault st0 st1 db db' r
      using transaction_effect [OF that] by auto
    have "open_store fault creating q token (Some db) = (d', st) \<Longrightarrow> d' = Some db" for fault db d' st
      by (auto simp: open_store_def split: prod.splits sum.splits if_splits dest!: same)
    then show ?thesis
      using f k by (fastforce simp: Admin OpenHandle fenced_def split: prod.splits)
  next
    case (TransferHandle j owner)
    then show ?thesis
      using on_handle_fenced(1) [OF transfer_prog _ f, of j owner]
      by (cases "on_handle j (\<lambda>fault. transfer_ownership fault owner) (sy_backend y)") (simp add: Admin)
  next
    case (CloseHandle j)
    then show ?thesis
      using on_handle_fenced(1) [OF close_prog _ f, of j]
      by (cases "on_handle j (\<lambda>_. close_store) (sy_backend y)") (simp add: Admin)
  qed
qed

text \<open>C15: Once the ownership of the database has moved past a handle (its token's epoch is behind the
  database's), nothing that owner does through the handle ever changes the database again, whatever
  happens in between, unless the handle itself is opened anew.\<close>

theorem fenced_owner_is_inert:
  assumes "system_ok site_content p y" and "fenced i (sy_backend y)" and "list_all (keeps_handle i) es"
  shows "fenced i (sy_backend (site_run p es y))
    \<and> si_database (sy_backend (site_run p (es @ [Act i op]) y)) = si_database (sy_backend (site_run p es y))"
proof -
  have run: "fenced i (sy_backend (site_run p es y)) \<and> system_ok site_content p (site_run p es y)"
    using assms
  proof (induction es arbitrary: y)
    case (Cons e es)
    have "system_ok site_content p (system_step (site_swap p) (site_load p) site_administer p e y)"
      by (rule site.machine.step_inv [OF Cons.prems(1)])
    then show ?case
      using Cons.IH [of "system_step (site_swap p) (site_load p) site_administer p e y"] step_fenced [OF Cons.prems(1,2), of e]
        Cons.prems(3) by (simp add: site_run_def)
  qed (simp add: site_run_def)
  then have "si_database (sy_backend (system_step (site_swap p) (site_load p) site_administer p (Act i op) (site_run p es y)))
      = si_database (sy_backend (site_run p es y))"
    using owner_step_fenced(2) [of p "site_run p es y" i i op] by (auto split: prod.splits)
  then show ?thesis using run by (simp add: site_run_def)
qed

definition moved_site :: "(nat, spend_site) spend_system" where
  "moved_site = demo_site\<lparr>sy_backend := (sy_backend demo_site)\<lparr>si_database :=
     Some ((created_database demo_policy demo_token)\<lparr>db_ownerId := ''q'', db_epoch := 2\<rparr>)\<rparr>\<rparr>"

theorem fenced_owner_is_inert_witness:
  "si_database (sy_backend (site_run demo_policy (demo_race @ [Act 0 OpSnapshot]) moved_site))
    = si_database (sy_backend (site_run demo_policy demo_race moved_site))"
proof -
  have "system_ok site_content demo_policy moved_site"
    using demo_site_ok(1)
    by (simp add: moved_site_def system_ok_def demo_site_def site_content_def created_database_def)
  moreover have "fenced 0 (sy_backend moved_site)"
    by (simp add: moved_site_def fenced_def demo_site_def fresh_store_def demo_token_def)
  ultimately show ?thesis
    using fenced_owner_is_inert [of demo_policy moved_site 0 demo_race OpSnapshot] by (simp add: demo_race_def)
qed

end
