(* ===== verification/Price_Policy.thy ===== *)
theory Price_Policy
  imports Captured_Records Canonical_JSON
begin

text \<open>
  The dynamic-plasma price policy (\<open>src/src/zenon/dynamic-plasma-price-policy.js\<close>): how much fused
  plasma and how much proof-of-work difficulty a block needs at given prices, a quote that reserves
  enough for a bounded number of price changes, and the check that the quote still covers the
  prices observed later. \<open>BigInt\<close> values are \<^typ>\<open>int\<close>; where the source rejects, the functions
  here give \<open>None\<close> (there is one error, and no state).
\<close>

section \<open>Amounts\<close>

definition ceil_divide :: "int \<Rightarrow> int \<Rightarrow> int" where
  "ceil_divide v d = (v + d - 1) div d"

definition safe_result :: "int \<Rightarrow> bool" where
  "safe_result v \<longleftrightarrow> 0 \<le> v \<and> v \<le> max_safe"

definition price_scale :: int where
  "price_scale = 1000"

definition difficulty_per_plasma :: int where
  "difficulty_per_plasma = 1500"

definition minimum_price :: int where
  "minimum_price = 1000"

datatype pricing_mode = FusionOnly | FusionAndPow

record price_amounts =
  am_requiredFused :: int
  am_selectedFused :: int
  am_difficulty :: int
  am_mode :: pricing_mode

text \<open>\<open>calculateDynamicPlasmaPriceAmounts\<close>, with its guard \<open>requireSafeResult\<close> as the predicate \<open>ok\<close>.\<close>

definition calculate_amounts :: "int \<Rightarrow> int \<Rightarrow> int \<Rightarrow> int \<Rightarrow> int \<Rightarrow> int \<Rightarrow> (int \<Rightarrow> bool) \<Rightarrow> price_amounts option" where
  "calculate_amounts base available fusion_price work_price scale per_plasma ok = do {
     let required = ceil_divide (base * fusion_price) scale;
     guard (ok required);
     let (selected, difficulty, mode) =
       (if required \<le> available then (required, 0, FusionOnly)
        else let effective = (available * scale) div fusion_price;
               remaining = base - effective;
               priced_work = ceil_divide (remaining * work_price) scale
             in (available, priced_work * per_plasma, FusionAndPow));
     guard (ok difficulty);
     guard (ok selected);
     Some \<lparr>am_requiredFused = required, am_selectedFused = selected, am_difficulty = difficulty, am_mode = mode\<rparr>
   }"

definition price_amounts_of :: "int \<Rightarrow> int \<Rightarrow> int \<Rightarrow> int \<Rightarrow> price_amounts option" where
  "price_amounts_of base available fusion_price work_price =
     calculate_amounts base available fusion_price work_price price_scale difficulty_per_plasma safe_result"

section \<open>Captured inputs\<close>

definition as_natural :: "jsval \<Rightarrow> int option" where
  "as_natural v = (if v = VNum NumNegZero then None else satisfying (\<lambda>n. 0 \<le> n) (safe_integer v))"

definition as_nonzero :: "jsval \<Rightarrow> int option" where
  "as_nonzero v = satisfying (\<lambda>n. n \<noteq> 0) (as_natural v)"

definition as_digest :: "jsval \<Rightarrow> string option" where
  "as_digest v = satisfying (\<lambda>s. length s = 71 \<and> prefixed_hex64 ''sha256:'' s) (string_value v)"

definition frontier_fields :: "string list" where
  "frontier_fields = [''height'', ''hash'', ''version'', ''nextFusionPrice'', ''nextWorkPrice'']"

definition rpc_fields :: "string list" where
  "rpc_fields = [''availablePlasma'', ''basePlasma'', ''requiredDifficulty'']"

definition compat_fields :: "string list" where
  "compat_fields = [''classification'', ''reason'', ''scope'', ''chainProfileGuard'', ''chainAuthentication'',
     ''afterSigningAction'', ''quote'']"

definition instant_fields :: "string list" where
  "instant_fields = [''frontier'', ''rpcObservation'', ''selectedFusedPlasma'', ''requiredDifficulty'',
     ''powRequired'', ''pricingMode'', ''sdk105BasePlasmaUnderpricingDetected'']"

definition price_policy_fields :: "string list" where
  "price_policy_fields = [''policyVersion'', ''maxPriceChangePercent'', ''maxMomentumAdvances'',
     ''maxFusedPlasma'', ''maxDifficulty'']"

record price_frontier =
  fr_height :: int
  fr_hash :: string
  fr_fusionPrice :: int
  fr_workPrice :: int

record price_rpc =
  rpc_available :: int
  rpc_base :: int
  rpc_difficulty :: int

text \<open>A compatibility observation: the quote of \<open>snapshotCompatibility\<close>; its other members are constants.\<close>

record price_observation =
  ob_frontier :: price_frontier
  ob_rpc :: price_rpc
  ob_selectedFused :: int
  ob_difficulty :: int
  ob_pow :: bool
  ob_mode :: pricing_mode
  ob_underpricing :: bool

record price_policy =
  pp_changePercent :: int
  pp_maxAdvances :: int
  pp_maxFused :: int
  pp_maxDifficulty :: int

definition snapshot_frontier :: "jsval \<Rightarrow> price_frontier option" where
  "snapshot_frontier v = do {
     f \<leftarrow> exact_fields frontier_fields v;
     height \<leftarrow> as_nonzero (field ''height'' f);
     version \<leftarrow> as_natural (field ''version'' f);
     fusion \<leftarrow> as_natural (field ''nextFusionPrice'' f);
     work \<leftarrow> as_natural (field ''nextWorkPrice'' f);
     hash \<leftarrow> satisfying is_hex64 (string_value (field ''hash'' f));
     guard (version = 2 \<and> minimum_price \<le> fusion \<and> minimum_price \<le> work);
     Some \<lparr>fr_height = height, fr_hash = hash, fr_fusionPrice = fusion, fr_workPrice = work\<rparr>
   }"

definition snapshot_rpc :: "jsval \<Rightarrow> price_rpc option" where
  "snapshot_rpc v = do {
     r \<leftarrow> exact_fields rpc_fields v;
     available \<leftarrow> as_natural (field ''availablePlasma'' r);
     base \<leftarrow> as_nonzero (field ''basePlasma'' r);
     difficulty \<leftarrow> as_natural (field ''requiredDifficulty'' r);
     Some \<lparr>rpc_available = available, rpc_base = base, rpc_difficulty = difficulty\<rparr>
   }"

fun mode_text :: "pricing_mode \<Rightarrow> string" where
  "mode_text FusionOnly = ''FUSION_ONLY''"
| "mode_text FusionAndPow = ''FUSION_AND_POW''"

definition observation_constants :: "fields \<Rightarrow> bool" where
  "observation_constants c \<longleftrightarrow> field ''classification'' c = VStr ''DP_ACTIVE'' \<and> field ''reason'' c = VStr ''NONE''
     \<and> field ''scope'' c = VStr ''OBSERVED_FRONTIER_ONLY'' \<and> field ''chainProfileGuard'' c = VStr ''MATCH''
     \<and> field ''chainAuthentication'' c = VStr ''NOT_ESTABLISHED'' \<and> field ''afterSigningAction'' c = VStr ''NONE''"

definition snapshot_compatibility :: "jsval \<Rightarrow> price_observation option" where
  "snapshot_compatibility v = do {
     c \<leftarrow> exact_fields compat_fields v;
     guard (observation_constants c);
     q \<leftarrow> exact_fields instant_fields (field ''quote'' c);
     frontier \<leftarrow> snapshot_frontier (field ''frontier'' q);
     rpc \<leftarrow> snapshot_rpc (field ''rpcObservation'' q);
     declared_fused \<leftarrow> as_natural (field ''selectedFusedPlasma'' q);
     declared_difficulty \<leftarrow> as_natural (field ''requiredDifficulty'' q);
     amounts \<leftarrow> price_amounts_of (rpc_base rpc) (rpc_available rpc) (fr_fusionPrice frontier) (fr_workPrice frontier);
     let selected = am_selectedFused amounts;
     let difficulty = am_difficulty amounts;
     let underpricing = (difficulty = 0 \<and> rpc_base rpc < selected);
     guard (rpc_difficulty rpc = difficulty \<and> declared_difficulty = difficulty \<and> declared_fused = selected
       \<and> field ''powRequired'' q = VBool (difficulty \<noteq> 0)
       \<and> field ''pricingMode'' q = VStr (mode_text (am_mode amounts))
       \<and> field ''sdk105BasePlasmaUnderpricingDetected'' q = VBool underpricing);
     Some \<lparr>ob_frontier = frontier, ob_rpc = rpc, ob_selectedFused = selected, ob_difficulty = difficulty,
       ob_pow = (difficulty \<noteq> 0), ob_mode = am_mode amounts, ob_underpricing = underpricing\<rparr>
   }"

definition snapshot_price_policy :: "jsval \<Rightarrow> price_policy option" where
  "snapshot_price_policy v = do {
     p \<leftarrow> exact_fields price_policy_fields v;
     guard (field ''policyVersion'' p = num 1);
     percent \<leftarrow> as_natural (field ''maxPriceChangePercent'' p);
     advances \<leftarrow> as_natural (field ''maxMomentumAdvances'' p);
     fused \<leftarrow> as_natural (field ''maxFusedPlasma'' p);
     difficulty \<leftarrow> as_natural (field ''maxDifficulty'' p);
     guard (1 \<le> percent \<and> percent \<le> 100 \<and> advances \<le> 128);
     Some \<lparr>pp_changePercent = percent, pp_maxAdvances = advances, pp_maxFused = fused, pp_maxDifficulty = difficulty\<rparr>
   }"

section \<open>Price envelopes and quotes\<close>

text \<open>The loop of \<open>boundedPrice\<close> and \<open>boundedLowerPrice\<close>; they differ in the multiplier only.\<close>

fun price_loop :: "int \<Rightarrow> nat \<Rightarrow> int \<Rightarrow> int option" where
  "price_loop multiplier 0 price = Some price"
| "price_loop multiplier (Suc n) price =
     (let next = max minimum_price (price * multiplier div 100) in
      if safe_result next then price_loop multiplier n next else None)"

definition bounded_price :: "int \<Rightarrow> price_policy \<Rightarrow> int \<Rightarrow> int option" where
  "bounded_price initial p advances = price_loop (100 + pp_changePercent p) (nat advances) initial"

definition bounded_lower_price :: "int \<Rightarrow> price_policy \<Rightarrow> int \<Rightarrow> int option" where
  "bounded_lower_price initial p advances = price_loop (100 - pp_changePercent p) (nat advances) initial"

record price_quote =
  pq_policy :: price_policy
  pq_source :: price_observation
  pq_fusionBound :: int
  pq_workBound :: int
  pq_fused :: int
  pq_difficulty :: int
  pq_mode :: pricing_mode
  pq_subject :: string
  pq_runtime :: string

definition build_quote :: "price_observation \<Rightarrow> price_policy \<Rightarrow> string \<Rightarrow> string \<Rightarrow> price_quote option" where
  "build_quote source p subject runtime = do {
     fusion \<leftarrow> bounded_price (fr_fusionPrice (ob_frontier source)) p (pp_maxAdvances p);
     work \<leftarrow> bounded_price (fr_workPrice (ob_frontier source)) p (pp_maxAdvances p);
     let available = min (rpc_available (ob_rpc source)) (pp_maxFused p);
     amounts \<leftarrow> price_amounts_of (rpc_base (ob_rpc source)) available fusion work;
     guard (am_difficulty amounts \<le> pp_maxDifficulty p);
     Some \<lparr>pq_policy = p, pq_source = source, pq_fusionBound = fusion, pq_workBound = work,
       pq_fused = am_selectedFused amounts, pq_difficulty = am_difficulty amounts, pq_mode = am_mode amounts,
       pq_subject = subject, pq_runtime = runtime\<rparr>
   }"

definition create_fields :: "string list" where
  "create_fields = [''compatibility'', ''policy'', ''subjectDigest'', ''runtimeContextDigest'']"

definition create_quote :: "jsval \<Rightarrow> price_quote option" where
  "create_quote input = do {
     top \<leftarrow> exact_fields create_fields input;
     source \<leftarrow> snapshot_compatibility (field ''compatibility'' top);
     p \<leftarrow> snapshot_price_policy (field ''policy'' top);
     subject \<leftarrow> as_digest (field ''subjectDigest'' top);
     runtime \<leftarrow> as_digest (field ''runtimeContextDigest'' top);
     build_quote source p subject runtime
   }"

section \<open>Receipts and selections\<close>

definition receipt_fields :: "string list" where
  "receipt_fields = [''quoteVersion'', ''scope'', ''chainAuthentication'', ''frontierContinuity'',
     ''afterSigningAction'', ''policy'', ''sourceCompatibility'', ''boundPrices'', ''selected'', ''pricingMode'',
     ''subjectDigest'', ''runtimeContextDigest'']"

definition snapshot_selection :: "jsval \<Rightarrow> (int \<times> int) option" where
  "snapshot_selection v = do {
     s \<leftarrow> exact_fields [''fusedPlasma'', ''difficulty''] v;
     fused \<leftarrow> as_natural (field ''fusedPlasma'' s);
     difficulty \<leftarrow> as_natural (field ''difficulty'' s);
     Some (fused, difficulty)
   }"

definition receipt_constants :: "fields \<Rightarrow> bool" where
  "receipt_constants r \<longleftrightarrow> field ''quoteVersion'' r = num 1 \<and> field ''scope'' r = VStr ''DECLARED_UNSIGNED_PRICE_BOUND''
     \<and> field ''chainAuthentication'' r = VStr ''NOT_ESTABLISHED''
     \<and> field ''frontierContinuity'' r = VStr ''HEIGHT_WINDOW_ONLY_NO_ANCESTRY_PROOF''
     \<and> field ''afterSigningAction'' r = VStr ''NONE''"

text \<open>\<open>rebuildReceipt\<close>: the quote is computed again and compared; nothing in the receipt is trusted.\<close>

definition rebuild_receipt :: "jsval \<Rightarrow> price_quote option" where
  "rebuild_receipt v = do {
     r \<leftarrow> exact_fields receipt_fields v;
     guard (receipt_constants r);
     source \<leftarrow> snapshot_compatibility (field ''sourceCompatibility'' r);
     p \<leftarrow> snapshot_price_policy (field ''policy'' r);
     subject \<leftarrow> as_digest (field ''subjectDigest'' r);
     runtime \<leftarrow> as_digest (field ''runtimeContextDigest'' r);
     bounds \<leftarrow> exact_fields [''fusionPrice'', ''workPrice''] (field ''boundPrices'' r);
     fusion \<leftarrow> as_natural (field ''fusionPrice'' bounds);
     work \<leftarrow> as_natural (field ''workPrice'' bounds);
     selected \<leftarrow> snapshot_selection (field ''selected'' r);
     expected \<leftarrow> build_quote source p subject runtime;
     guard (fusion = pq_fusionBound expected \<and> work = pq_workBound expected
       \<and> selected = (pq_fused expected, pq_difficulty expected)
       \<and> field ''pricingMode'' r = VStr (mode_text (pq_mode expected)));
     Some expected
   }"

definition select_fields :: "string list" where
  "select_fields = [''quote'', ''compatibility'', ''policy'', ''subjectDigest'', ''runtimeContextDigest'']"

definition validate_fields :: "string list" where
  "validate_fields = select_fields @ [''selection'']"

definition observation_fits :: "price_quote \<Rightarrow> price_policy \<Rightarrow> price_observation \<Rightarrow> bool" where
  "observation_fits q p now \<longleftrightarrow> (let origin = pq_source q; from = ob_frontier origin; to = ob_frontier now;
       age = fr_height to - fr_height from in
     rpc_base (ob_rpc now) = rpc_base (ob_rpc origin) \<and> pq_fused q \<le> rpc_available (ob_rpc now)
     \<and> 0 \<le> age \<and> age \<le> pp_maxAdvances p
     \<and> (age = 0 \<longrightarrow> fr_hash to = fr_hash from \<and> fr_fusionPrice to = fr_fusionPrice from
          \<and> fr_workPrice to = fr_workPrice from)
     \<and> (0 < age \<longrightarrow> fr_hash to \<noteq> fr_hash from)
     \<and> fr_fusionPrice to \<le> pq_fusionBound q \<and> fr_workPrice to \<le> pq_workBound q)"

text \<open>The observed prices against the clamps for the advances that actually elapsed; a bound that is not a safe number rejects.\<close>

definition prices_within :: "price_policy \<Rightarrow> int \<Rightarrow> int \<Rightarrow> int \<Rightarrow> bool" where
  "prices_within p advances initial observed \<longleftrightarrow>
     (case bounded_price initial p advances of None \<Rightarrow> False | Some upper \<Rightarrow> observed \<le> upper)
     \<and> (case bounded_lower_price initial p advances of None \<Rightarrow> False | Some lower \<Rightarrow> lower \<le> observed)"

definition check_selection :: "jsval \<Rightarrow> bool \<Rightarrow> (int \<times> int) option" where
  "check_selection input validate = do {
     top \<leftarrow> exact_fields (if validate then validate_fields else select_fields) input;
     q \<leftarrow> rebuild_receipt (field ''quote'' top);
     p \<leftarrow> snapshot_price_policy (field ''policy'' top);
     guard (p = pq_policy q);
     subject \<leftarrow> as_digest (field ''subjectDigest'' top);
     guard (subject = pq_subject q);
     runtime \<leftarrow> as_digest (field ''runtimeContextDigest'' top);
     guard (runtime = pq_runtime q);
     now \<leftarrow> snapshot_compatibility (field ''compatibility'' top);
     guard (observation_fits q p now);
     let origin = ob_frontier (pq_source q);
     let age = fr_height (ob_frontier now) - fr_height origin;
     guard (prices_within p age (fr_fusionPrice origin) (fr_fusionPrice (ob_frontier now))
       \<and> prices_within p age (fr_workPrice origin) (fr_workPrice (ob_frontier now)));
     required \<leftarrow> price_amounts_of (rpc_base (ob_rpc now)) (pq_fused q) (fr_fusionPrice (ob_frontier now))
       (fr_workPrice (ob_frontier now));
     guard (am_difficulty required \<le> pq_difficulty q);
     supplied \<leftarrow> (if validate then snapshot_selection (field ''selection'' top) else Some (pq_fused q, pq_difficulty q));
     guard (supplied = (pq_fused q, pq_difficulty q));
     Some (pq_fused q, pq_difficulty q)
   }"

end
