(* ===== verification/Price_Properties.thy ===== *)
theory Price_Properties
  imports Price_Policy
begin

text \<open>
  What the price policy guarantees: the computed amounts pay for the block and are the least that
  do; a quote keeps paying as long as prices move within the declared clamps, so an honest later
  observation is never refused; and a receipt is rebuilt from its JSON copy.
\<close>

section \<open>Rounding up\<close>

lemma int_le_div: "0 < (b::int) \<Longrightarrow> a \<le> c div b \<longleftrightarrow> a * b \<le> c"
proof
  assume b: "0 < b" and "a \<le> c div b"
  then have "a * b \<le> (c div b) * b" by simp
  also have "\<dots> \<le> c" using b by (metis minus_mod_eq_div_mult diff_ge_0_iff_ge pos_mod_sign le_add_same_cancel1 add.commute diff_le_eq)
  finally show "a * b \<le> c" .
next
  assume b: "0 < b" and "a * b \<le> c"
  then have "a * b div b \<le> c div b" by (intro zdiv_mono1)
  with b show "a \<le> c div b" by simp
qed

lemma ceil_divide_le: "0 < d \<Longrightarrow> ceil_divide v d \<le> n \<longleftrightarrow> v \<le> n * d"
proof -
  assume d: "0 < d"
  have "ceil_divide v d \<le> n \<longleftrightarrow> \<not> n + 1 \<le> (v + d - 1) div d" by (auto simp: ceil_divide_def)
  also have "\<dots> \<longleftrightarrow> \<not> (n + 1) * d \<le> v + d - 1" using d by (simp add: int_le_div)
  also have "\<dots> \<longleftrightarrow> v \<le> n * d" by (simp add: algebra_simps) linarith
  finally show ?thesis .
qed

lemma ceil_divide_pays: "0 < d \<Longrightarrow> v \<le> ceil_divide v d * d"
  using ceil_divide_le [of d v "ceil_divide v d"] by simp

lemma ceil_divide_mono: "0 < d \<Longrightarrow> v \<le> w \<Longrightarrow> ceil_divide v d \<le> ceil_divide w d"
  by (simp add: ceil_divide_def zdiv_mono1)

lemma ceil_divide_nonneg: "0 < d \<Longrightarrow> 0 \<le> v \<Longrightarrow> 0 \<le> ceil_divide v d"
  by (simp add: ceil_divide_def pos_imp_zdiv_nonneg_iff)

text \<open>What an amount buys at a price: fused plasma directly, difficulty through work.\<close>

definition bought :: "int \<Rightarrow> int \<Rightarrow> int" where
  "bought amount price = amount * price_scale div price"

definition pays_for :: "int \<Rightarrow> int \<Rightarrow> int \<Rightarrow> int \<Rightarrow> int \<Rightarrow> bool" where
  "pays_for base fused difficulty fusion_price work_price \<longleftrightarrow>
     base \<le> bought fused fusion_price + bought (difficulty div difficulty_per_plasma) work_price"

lemma bought_enough: "0 < price \<Longrightarrow> base \<le> bought amount price \<longleftrightarrow> ceil_divide (base * price) price_scale \<le> amount"
  by (simp add: bought_def price_scale_def ceil_divide_le int_le_div)

lemma bought_mono: "0 < price \<Longrightarrow> a \<le> b \<Longrightarrow> bought a price \<le> bought b price"
  by (simp add: bought_def price_scale_def zdiv_mono1)

lemma bought_cheaper: "0 < p \<Longrightarrow> p \<le> q \<Longrightarrow> 0 \<le> a \<Longrightarrow> bought a q \<le> bought a p"
  by (simp add: bought_def price_scale_def zdiv_mono2)

lemma amounts_cases:
  assumes "price_amounts_of base available f w = Some a"
  defines "required \<equiv> ceil_divide (base * f) price_scale"
  shows "safe_result required" and "am_requiredFused a = required"
    and "(required \<le> available \<and> a = \<lparr>am_requiredFused = required, am_selectedFused = required, am_difficulty = 0, am_mode = FusionOnly\<rparr>)
      \<or> (available < required \<and> am_selectedFused a = available \<and> am_mode a = FusionAndPow
         \<and> am_difficulty a = ceil_divide ((base - bought available f) * w) price_scale * difficulty_per_plasma
         \<and> safe_result (am_difficulty a) \<and> safe_result available)"
  using assms(1)
  by (auto simp: price_amounts_of_def calculate_amounts_def bind_eq_Some_conv Let_def required_def bought_def
      split: if_splits)

lemma remaining_positive:
  assumes "0 < f" and "available < ceil_divide (base * f) price_scale"
  shows "0 < base - bought available f"
  using assms bought_enough [of f base available] by simp

lemma amounts_are_least:
  assumes "price_amounts_of base available f w = Some a" and "0 < base" "0 \<le> available" "0 < f" "0 < w"
  shows "pays_for base (am_selectedFused a) (am_difficulty a) f w
    \<and> am_selectedFused a \<le> available \<and> safe_result (am_selectedFused a) \<and> safe_result (am_difficulty a)
    \<and> (\<forall>k. 0 \<le> k \<longrightarrow> pays_for base (am_selectedFused a) (k * difficulty_per_plasma) f w
        \<longrightarrow> am_difficulty a \<le> k * difficulty_per_plasma)
    \<and> (am_mode a = FusionOnly \<longrightarrow> am_difficulty a = 0
        \<and> (\<forall>s. base \<le> bought s f \<longrightarrow> am_selectedFused a \<le> s))
    \<and> (am_mode a = FusionAndPow \<longrightarrow> am_selectedFused a = available \<and> 0 < am_difficulty a)"
  using amounts_cases(3) [OF assms(1)]
proof
  assume only: "ceil_divide (base * f) price_scale \<le> available \<and>
    a = \<lparr>am_requiredFused = ceil_divide (base * f) price_scale, am_selectedFused = ceil_divide (base * f) price_scale,
      am_difficulty = 0, am_mode = FusionOnly\<rparr>"
  then have "base \<le> bought (am_selectedFused a) f" using assms(4) by (simp add: bought_enough)
  moreover have "bought 0 w = 0" by (simp add: bought_def)
  ultimately show ?thesis
    using only assms(4) amounts_cases(1) [OF assms(1)]
    by (auto simp: pays_for_def difficulty_per_plasma_def safe_result_def max_safe_def bought_enough)
next
  assume pow: "available < ceil_divide (base * f) price_scale \<and> am_selectedFused a = available \<and> am_mode a = FusionAndPow
    \<and> am_difficulty a = ceil_divide ((base - bought available f) * w) price_scale * difficulty_per_plasma
    \<and> safe_result (am_difficulty a) \<and> safe_result available"
  define n where "n = ceil_divide ((base - bought available f) * w) price_scale"
  have rest: "0 < base - bought available f" using pow assms(4) by (intro remaining_positive) simp_all
  have pays: "base \<le> bought available f + bought k w \<longleftrightarrow> n \<le> k" for k
    using bought_enough [OF assms(5), of "base - bought available f" k] by (simp add: n_def) linarith
  have "\<not> n \<le> 0" using pays [of 0] rest by (simp add: bought_def)
  moreover have "am_difficulty a = n * 1500" "am_selectedFused a = available" "am_mode a = FusionAndPow"
    "safe_result (am_difficulty a)" "safe_result available"
    using pow unfolding n_def by (auto simp: difficulty_per_plasma_def)
  ultimately show ?thesis
    by (simp add: pays_for_def difficulty_per_plasma_def pays)
qed

text \<open>C19: The amounts the policy computes pay for the base plasma of the block at the given prices:
  fused plasma first, up to what is available, and proof-of-work for the rest. They are the least
  that do: no smaller difficulty pays on top of the selected fusion, and when fusion alone is
  selected no smaller fusion pays by itself. They are safe integers.\<close>

theorem amounts_pay:
  assumes "price_amounts_of base available f w = Some a" and "0 < base" "0 \<le> available" "0 < f" "0 < w"
  shows "pays_for base (am_selectedFused a) (am_difficulty a) f w
    \<and> am_selectedFused a \<le> available \<and> safe_result (am_selectedFused a) \<and> safe_result (am_difficulty a)
    \<and> (\<forall>k. 0 \<le> k \<longrightarrow> pays_for base (am_selectedFused a) (k * difficulty_per_plasma) f w
        \<longrightarrow> am_difficulty a \<le> k * difficulty_per_plasma)
    \<and> (am_mode a = FusionOnly \<longrightarrow> am_difficulty a = 0
        \<and> (\<forall>s. base \<le> bought s f \<longrightarrow> am_selectedFused a \<le> s))
    \<and> (am_mode a = FusionAndPow \<longrightarrow> am_selectedFused a = available \<and> 0 < am_difficulty a)"
  using assms by (rule amounts_are_least)

theorem amounts_pay_witness:
  "pays_for 21000 10000 21438000 1100 1200 \<and> am_difficulty (the (price_amounts_of 21000 10000 1100 1200)) = 21438000"
proof -
  have "price_amounts_of 21000 10000 1100 1200 = Some \<lparr>am_requiredFused = 23100, am_selectedFused = 10000,
      am_difficulty = 21438000, am_mode = FusionAndPow\<rparr>"
    by (simp add: price_amounts_of_def calculate_amounts_def ceil_divide_def price_scale_def difficulty_per_plasma_def
        safe_result_def max_safe_def)
  then show ?thesis using amounts_pay [of 21000 10000 1100 1200] by simp
qed

section \<open>Cheaper prices\<close>

text \<open>A plan made for some prices, with its fusion as all that is available, is enough at lower ones.\<close>

lemma cheaper_amounts:
  assumes a: "price_amounts_of base available f w = Some a" and "0 < base" "0 \<le> available"
    and f: "0 < f'" "f' \<le> f" and w: "0 < w'" "w' \<le> w"
  shows "\<exists>b. price_amounts_of base (am_selectedFused a) f' w' = Some b \<and> am_difficulty b \<le> am_difficulty a"
proof -
  define S where "S = am_selectedFused a"
  define r where "r = ceil_divide (base * f') price_scale"
  have scale: "0 < price_scale" by (simp add: price_scale_def)
  have r: "r \<le> ceil_divide (base * f) price_scale" "0 \<le> r"
    using assms scale by (auto simp: r_def intro!: ceil_divide_mono ceil_divide_nonneg mult_left_mono)
  have safe: "safe_result r" using r amounts_cases(1) [OF a] by (simp add: safe_result_def)
  have S: "safe_result S" using amounts_cases [OF a] by (auto simp: S_def)
  show ?thesis
  proof (cases "r \<le> S")
    case True
    have "0 \<le> am_difficulty a"
      using amounts_cases(3) [OF a] by (auto simp: safe_result_def)
    with True safe show ?thesis
      by (simp add: price_amounts_of_def calculate_amounts_def Let_def safe_result_def max_safe_def flip: S_def r_def)
  next
    case False
    then have pow: "S = available" "am_difficulty a = ceil_divide ((base - bought S f) * w) price_scale * difficulty_per_plasma"
      "safe_result (am_difficulty a)"
      using amounts_cases(3) [OF a] r(1) by (auto simp: S_def)
    have rest: "0 < base - bought S f'" using False f(1) by (intro remaining_positive) (simp_all add: r_def)
    have "bought S f \<le> bought S f'" using f assms(3) pow(1) by (intro bought_cheaper) simp_all
    then have "(base - bought S f') * w' \<le> (base - bought S f) * w"
      using rest w by (intro mult_mono) simp_all
    then have less: "ceil_divide ((base - bought S f') * w') price_scale * difficulty_per_plasma \<le> am_difficulty a"
      unfolding pow(2) using scale by (intro mult_right_mono ceil_divide_mono) (simp_all add: difficulty_per_plasma_def)
    moreover have "0 \<le> ceil_divide ((base - bought S f') * w') price_scale * difficulty_per_plasma"
      using rest w scale by (intro mult_nonneg_nonneg ceil_divide_nonneg) (simp_all add: difficulty_per_plasma_def)
    ultimately have "safe_result (ceil_divide ((base - bought S f') * w') price_scale * difficulty_per_plasma)"
      using pow(3) by (simp add: safe_result_def)
    with False safe S less show ?thesis
      by (simp add: price_amounts_of_def calculate_amounts_def Let_def flip: S_def r_def bought_def)
  qed
qed

section \<open>Price walks\<close>

text \<open>One advance: the price moves by at most the percentage either way, rounded down, and never below the minimum.\<close>

definition price_step :: "int \<Rightarrow> int \<Rightarrow> int \<Rightarrow> bool" where
  "price_step percent p q \<longleftrightarrow> max minimum_price (p * (100 - percent) div 100) \<le> q
     \<and> q \<le> max minimum_price (p * (100 + percent) div 100)"

inductive price_walk :: "int \<Rightarrow> nat \<Rightarrow> int \<Rightarrow> int \<Rightarrow> bool" for percent where
  stay: "price_walk percent 0 p p"
| move: "price_step percent p q \<Longrightarrow> price_walk percent n q r \<Longrightarrow> price_walk percent (Suc n) p r"

text \<open>The loops without their check.\<close>

fun price_iterate :: "int \<Rightarrow> nat \<Rightarrow> int \<Rightarrow> int" where
  "price_iterate m 0 p = p"
| "price_iterate m (Suc n) p = price_iterate m n (max minimum_price (p * m div 100))"

lemma loop_iterate: "price_loop m n p = Some u \<Longrightarrow> u = price_iterate m n p"
  by (induction n arbitrary: p) (auto simp: Let_def split: if_splits)

lemma iterate_mono: "0 \<le> m \<Longrightarrow> p \<le> q \<Longrightarrow> price_iterate m n p \<le> price_iterate m n q"
proof (induction n arbitrary: p q)
  case (Suc n)
  have "p * m \<le> q * m" using Suc.prems by (intro mult_right_mono)
  then have "max minimum_price (p * m div 100) \<le> max minimum_price (q * m div 100)"
    by (intro max.mono zdiv_mono1) simp_all
  then show ?case using Suc by simp
qed simp

lemma walk_between:
  assumes "price_walk percent n p r" and "0 \<le> percent" "percent \<le> 100"
  shows "price_iterate (100 - percent) n p \<le> r \<and> r \<le> price_iterate (100 + percent) n p"
  using assms(1)
proof induction
  case (move p q n r)
  have "price_iterate (100 - percent) (Suc n) p \<le> price_iterate (100 - percent) n q"
    using move.hyps(1) assms(3) by (simp add: price_step_def iterate_mono)
  moreover have "price_iterate (100 + percent) n q \<le> price_iterate (100 + percent) (Suc n) p"
    using move.hyps(1) assms(2) by (simp add: price_step_def iterate_mono)
  ultimately show ?case using move.IH by linarith
qed simp

lemma loop_prefix: "price_loop m n p = Some u \<Longrightarrow> k \<le> n \<Longrightarrow> \<exists>v. price_loop m k p = Some v"
proof (induction n arbitrary: p k)
  case (Suc n)
  then show ?case by (cases k) (auto simp: Let_def split: if_splits)
qed simp

lemma loop_lower_total:
  assumes "0 \<le> percent" "percent \<le> 100" and "safe_result p"
  shows "\<exists>v. price_loop (100 - percent) n p = Some v"
  using assms(3)
proof (induction n arbitrary: p)
  case (Suc n)
  have "p * (100 - percent) \<le> p * 100" using Suc.prems assms by (intro mult_left_mono) (auto simp: safe_result_def)
  then have "p * (100 - percent) div 100 \<le> p" using zdiv_mono1 [of "p * (100 - percent)" "p * 100" 100] by simp
  then have "safe_result (max minimum_price (p * (100 - percent) div 100))"
    using Suc.prems by (auto simp: safe_result_def minimum_price_def max_safe_def)
  then show ?case using Suc.IH by (simp add: Let_def)
qed simp

lemma iterate_later:
  assumes "0 \<le> percent" and "minimum_price \<le> p"
  shows "k \<le> n \<Longrightarrow> price_iterate (100 + percent) k p \<le> price_iterate (100 + percent) n p"
proof (induction n)
  case (Suc n)
  show ?case
  proof (cases "k = Suc n")
    case False
    have step: "q \<le> max minimum_price (q * (100 + percent) div 100)" if "0 \<le> q" for q
    proof -
      have "q * 100 \<le> q * (100 + percent)" using that assms(1) by (intro mult_left_mono) simp_all
      then show ?thesis using zdiv_mono1 [of "q * 100" "q * (100 + percent)" 100] by simp
    qed
    have "price_iterate (100 + percent) n p \<le> price_iterate (100 + percent) (Suc n) p"
      using step [of p] assms by (simp add: iterate_mono minimum_price_def)
    then show ?thesis using Suc False by simp
  qed simp
qed simp

text \<open>An honest walk stays within the clamps the selection checks, and within the bound of the quote.\<close>

lemma walk_within:
  assumes walk: "price_walk (pp_changePercent p) (nat k) initial observed"
    and pct: "0 \<le> pp_changePercent p" "pp_changePercent p \<le> 100"
    and k: "0 \<le> k" "k \<le> pp_maxAdvances p"
    and initial: "minimum_price \<le> initial" "initial \<le> max_safe"
    and bound: "bounded_price initial p (pp_maxAdvances p) = Some u"
  shows "prices_within p k initial observed" and "observed \<le> u"
proof -
  have "nat k \<le> nat (pp_maxAdvances p)" using k by simp
  then obtain upper where up: "price_loop (100 + pp_changePercent p) (nat k) initial = Some upper"
    using loop_prefix [OF bound [unfolded bounded_price_def], of "nat k"] by blast
  obtain lower where low: "price_loop (100 - pp_changePercent p) (nat k) initial = Some lower"
    using loop_lower_total [OF pct, of initial "nat k"] initial by (auto simp: safe_result_def minimum_price_def)
  note between = walk_between [OF walk pct]
  show "prices_within p k initial observed"
    using between up low loop_iterate [OF up] loop_iterate [OF low]
    by (simp add: prices_within_def bounded_price_def bounded_lower_price_def)
  have "price_iterate (100 + pp_changePercent p) (nat k) initial \<le> price_iterate (100 + pp_changePercent p) (nat (pp_maxAdvances p)) initial"
    using k by (intro iterate_later pct initial) simp
  then show "observed \<le> u"
    using between loop_iterate [OF bound [unfolded bounded_price_def]] by simp
qed

section \<open>Selections\<close>

definition observation_ok :: "price_observation \<Rightarrow> bool" where
  "observation_ok ob \<longleftrightarrow> 0 < rpc_base (ob_rpc ob) \<and> safe_result (rpc_base (ob_rpc ob)) \<and> safe_result (rpc_available (ob_rpc ob))
     \<and> minimum_price \<le> fr_fusionPrice (ob_frontier ob) \<and> fr_fusionPrice (ob_frontier ob) \<le> max_safe
     \<and> minimum_price \<le> fr_workPrice (ob_frontier ob) \<and> fr_workPrice (ob_frontier ob) \<le> max_safe
     \<and> 0 < fr_height (ob_frontier ob) \<and> fr_height (ob_frontier ob) \<le> max_safe \<and> is_hex64 (fr_hash (ob_frontier ob))
     \<and> (\<exists>a. price_amounts_of (rpc_base (ob_rpc ob)) (rpc_available (ob_rpc ob)) (fr_fusionPrice (ob_frontier ob))
          (fr_workPrice (ob_frontier ob)) = Some a \<and> ob_selectedFused ob = am_selectedFused a
          \<and> ob_difficulty ob = am_difficulty a \<and> rpc_difficulty (ob_rpc ob) = am_difficulty a
          \<and> ob_pow ob = (am_difficulty a \<noteq> 0) \<and> ob_mode ob = am_mode a
          \<and> ob_underpricing ob = (am_difficulty a = 0 \<and> rpc_base (ob_rpc ob) < am_selectedFused a))"

definition price_policy_ok :: "price_policy \<Rightarrow> bool" where
  "price_policy_ok p \<longleftrightarrow> 1 \<le> pp_changePercent p \<and> pp_changePercent p \<le> 100 \<and> 0 \<le> pp_maxAdvances p
     \<and> pp_maxAdvances p \<le> 128 \<and> safe_result (pp_maxFused p) \<and> safe_result (pp_maxDifficulty p)"

lemma as_natural_Some: "as_natural v = Some n \<longleftrightarrow> v = num n \<and> safe_result n"
proof -
  have "VNum NumNegZero \<noteq> num n" by (simp add: num_def del: num_js_of)
  then show ?thesis
    by (cases v rule: safe_integer.cases)
      (auto simp: as_natural_def satisfying_eq_Some safe_result_def safe_range_def max_safe_def simp del: num_js_of
        simp: num_def)
qed

lemma as_nonzero_Some: "as_nonzero v = Some n \<longleftrightarrow> v = num n \<and> safe_result n \<and> 0 < n"
  by (auto simp: as_nonzero_def satisfying_eq_Some as_natural_Some safe_result_def)

lemma as_digest_Some: "as_digest v = Some s \<longleftrightarrow> v = VStr s \<and> commitment_text s"
proof -
  have "commitment_text s \<Longrightarrow> length s = 71"
    by (auto simp: is_hex64_def dest!: commitment_prefix)
  then show ?thesis by (auto simp: as_digest_def satisfying_eq_Some commitment_text_def)
qed

lemma snapshot_compatibility_ok: "snapshot_compatibility v = Some ob \<Longrightarrow> observation_ok ob"
  by (auto simp: snapshot_compatibility_def snapshot_frontier_def snapshot_rpc_def bind_eq_Some_conv Let_def
      as_natural_Some as_nonzero_Some observation_ok_def satisfying_eq_Some) (auto simp: safe_result_def)

lemma snapshot_price_policy_ok: "snapshot_price_policy v = Some p \<Longrightarrow> price_policy_ok p"
  by (auto simp: snapshot_price_policy_def bind_eq_Some_conv as_natural_Some price_policy_ok_def safe_result_def)

definition quote_ok :: "price_quote \<Rightarrow> bool" where
  "quote_ok q \<longleftrightarrow> observation_ok (pq_source q) \<and> price_policy_ok (pq_policy q) \<and> commitment_text (pq_subject q)
     \<and> commitment_text (pq_runtime q)
     \<and> build_quote (pq_source q) (pq_policy q) (pq_subject q) (pq_runtime q) = Some q"

lemma build_quote_parts:
  assumes "build_quote source p subject runtime = Some q"
  shows "pq_source q = source" "pq_policy q = p" "pq_subject q = subject" "pq_runtime q = runtime"
    "bounded_price (fr_fusionPrice (ob_frontier source)) p (pp_maxAdvances p) = Some (pq_fusionBound q)"
    "bounded_price (fr_workPrice (ob_frontier source)) p (pp_maxAdvances p) = Some (pq_workBound q)"
    "\<exists>a. price_amounts_of (rpc_base (ob_rpc source)) (min (rpc_available (ob_rpc source)) (pp_maxFused p))
       (pq_fusionBound q) (pq_workBound q) = Some a \<and> pq_fused q = am_selectedFused a
       \<and> pq_difficulty q = am_difficulty a \<and> pq_mode q = am_mode a \<and> am_difficulty a \<le> pp_maxDifficulty p"
  using assms by (auto simp: build_quote_def bind_eq_Some_conv Let_def)

lemma rebuild_receipt_ok: "rebuild_receipt v = Some q \<Longrightarrow> quote_ok q"
proof -
  assume "rebuild_receipt v = Some q"
  then obtain vs vp ss ps sub run where s: "snapshot_compatibility vs = Some ss" "snapshot_price_policy vp = Some ps"
    and d: "commitment_text sub" "commitment_text run" and b: "build_quote ss ps sub run = Some q"
    by (auto simp: rebuild_receipt_def bind_eq_Some_conv as_digest_Some)
  then show ?thesis
    using build_quote_parts(1-4) [OF b] snapshot_compatibility_ok snapshot_price_policy_ok by (simp add: quote_ok_def)
qed

inductive_cases price_walk_zeroE: "price_walk percent 0 p r"

text \<open>Everything \<open>checkSelection\<close> computes after it has captured its inputs.\<close>

definition captured_selection :: "jsval \<Rightarrow> bool \<Rightarrow> fields \<Rightarrow> price_quote \<Rightarrow> price_observation \<Rightarrow> bool" where
  "captured_selection input validate captured q now \<longleftrightarrow>
     exact_fields (if validate then validate_fields else select_fields) input = Some captured
     \<and> rebuild_receipt (field ''quote'' captured) = Some q
     \<and> snapshot_price_policy (field ''policy'' captured) = Some (pq_policy q)
     \<and> as_digest (field ''subjectDigest'' captured) = Some (pq_subject q)
     \<and> as_digest (field ''runtimeContextDigest'' captured) = Some (pq_runtime q)
     \<and> snapshot_compatibility (field ''compatibility'' captured) = Some now"

definition price_advances :: "price_quote \<Rightarrow> price_observation \<Rightarrow> int" where
  "price_advances q now = fr_height (ob_frontier now) - fr_height (ob_frontier (pq_source q))"

lemma loop_minimum: "minimum_price \<le> p0 \<Longrightarrow> price_loop m k p0 = Some u \<Longrightarrow> minimum_price \<le> u"
proof (induction k arbitrary: p0)
  case (Suc k)
  show ?case
    by (rule Suc.IH [of "max minimum_price (p0 * m div 100)"])
      (use Suc.prems in \<open>auto simp: Let_def split: if_splits\<close>)
qed simp

lemma bounds_minimum: "bounded_price p0 p n = Some u \<Longrightarrow> minimum_price \<le> p0 \<Longrightarrow> minimum_price \<le> u"
  unfolding bounded_price_def by (rule loop_minimum)

text \<open>The amounts of a plan, at any prices up to the bounds of the quote, never exceed the plan.\<close>

lemma quote_covers:
  assumes q: "quote_ok q" and now: "observation_ok now"
    and base: "rpc_base (ob_rpc now) = rpc_base (ob_rpc (pq_source q))"
    and f: "fr_fusionPrice (ob_frontier now) \<le> pq_fusionBound q" and w: "fr_workPrice (ob_frontier now) \<le> pq_workBound q"
  shows "\<exists>b. price_amounts_of (rpc_base (ob_rpc now)) (pq_fused q) (fr_fusionPrice (ob_frontier now))
    (fr_workPrice (ob_frontier now)) = Some b \<and> am_difficulty b \<le> pq_difficulty q"
proof -
  have b: "build_quote (pq_source q) (pq_policy q) (pq_subject q) (pq_runtime q) = Some q"
    using q by (simp add: quote_ok_def)
  obtain a where a: "price_amounts_of (rpc_base (ob_rpc (pq_source q)))
      (min (rpc_available (ob_rpc (pq_source q))) (pp_maxFused (pq_policy q))) (pq_fusionBound q) (pq_workBound q) = Some a"
    "pq_fused q = am_selectedFused a" "pq_difficulty q = am_difficulty a"
    using build_quote_parts(7) [OF b] by blast
  have "0 \<le> min (rpc_available (ob_rpc (pq_source q))) (pp_maxFused (pq_policy q))"
    using q by (simp add: quote_ok_def observation_ok_def price_policy_ok_def safe_result_def)
  from cheaper_amounts [OF a(1) _ this _ f _ w]
  show ?thesis using now a base by (auto simp: observation_ok_def minimum_price_def)
qed

lemma check_selection_eq:
  assumes c: "captured_selection input validate captured q now"
  shows "check_selection input validate = (do {
     guard (observation_fits q (pq_policy q) now);
     let origin = ob_frontier (pq_source q);
     let age = price_advances q now;
     guard (prices_within (pq_policy q) age (fr_fusionPrice origin) (fr_fusionPrice (ob_frontier now))
       \<and> prices_within (pq_policy q) age (fr_workPrice origin) (fr_workPrice (ob_frontier now)));
     supplied \<leftarrow> (if validate then snapshot_selection (field ''selection'' captured) else Some (pq_fused q, pq_difficulty q));
     guard (supplied = (pq_fused q, pq_difficulty q));
     Some (pq_fused q, pq_difficulty q)
   })"
proof (cases "observation_fits q (pq_policy q) now")
  case True
  have q: "quote_ok q" "observation_ok now"
    using c by (auto simp: captured_selection_def dest: rebuild_receipt_ok snapshot_compatibility_ok)
  obtain b where b: "price_amounts_of (rpc_base (ob_rpc now)) (pq_fused q) (fr_fusionPrice (ob_frontier now))
    (fr_workPrice (ob_frontier now)) = Some b" "am_difficulty b \<le> pq_difficulty q"
    using quote_covers [OF q] True by (auto simp: observation_fits_def Let_def)
  show ?thesis
    using c True by (simp add: check_selection_def captured_selection_def price_advances_def Let_def b cong: if_cong)
next
  case False
  then show ?thesis using c by (simp add: check_selection_def captured_selection_def)
qed

lemma selection_captured:
  assumes "check_selection input validate = Some result"
  shows "\<exists>captured q now. captured_selection input validate captured q now \<and> observation_fits q (pq_policy q) now
    \<and> result = (pq_fused q, pq_difficulty q)"
  using assms by (auto simp: check_selection_def captured_selection_def bind_eq_Some_conv Let_def)

text \<open>C20: Whatever selection the policy returns pays for the base plasma of the block at the prices
  observed now, from the quote's own fusion, which is available now, and within the fusion and
  difficulty the policy allows; it is the selection the quote reserved.\<close>

theorem selection_pays:
  assumes "check_selection input validate = Some (fused, difficulty)"
  shows "\<exists>captured q now. captured_selection input validate captured q now \<and> fused = pq_fused q \<and> difficulty = pq_difficulty q
    \<and> pays_for (rpc_base (ob_rpc now)) fused difficulty (fr_fusionPrice (ob_frontier now)) (fr_workPrice (ob_frontier now))
    \<and> fused \<le> rpc_available (ob_rpc now) \<and> fused \<le> pp_maxFused (pq_policy q) \<and> difficulty \<le> pp_maxDifficulty (pq_policy q)"
proof -
  obtain captured q now where c: "captured_selection input validate captured q now"
    and fits: "observation_fits q (pq_policy q) now" and r: "fused = pq_fused q" "difficulty = pq_difficulty q"
    using selection_captured [OF assms] by blast
  have ok: "quote_ok q" "observation_ok now"
    using c by (auto simp: captured_selection_def dest: rebuild_receipt_ok snapshot_compatibility_ok)
  obtain b where b: "price_amounts_of (rpc_base (ob_rpc now)) (pq_fused q) (fr_fusionPrice (ob_frontier now))
    (fr_workPrice (ob_frontier now)) = Some b" "am_difficulty b \<le> pq_difficulty q"
    using quote_covers [OF ok] fits by (auto simp: observation_fits_def Let_def)
  note now = ok(2) [unfolded observation_ok_def]
  have build: "build_quote (pq_source q) (pq_policy q) (pq_subject q) (pq_runtime q) = Some q"
    using ok(1) by (simp add: quote_ok_def)
  obtain a where a: "pq_fused q = am_selectedFused a" "am_difficulty a \<le> pp_maxDifficulty (pq_policy q)"
    "pq_difficulty q = am_difficulty a" "price_amounts_of (rpc_base (ob_rpc (pq_source q)))
      (min (rpc_available (ob_rpc (pq_source q))) (pp_maxFused (pq_policy q))) (pq_fusionBound q) (pq_workBound q) = Some a"
    using build_quote_parts(7) [OF build] by blast
  have least: "pq_fused q \<le> pp_maxFused (pq_policy q)" "0 \<le> pq_fused q"
    using amounts_cases [OF a(4)] ok(1)
    by (auto simp: a(1) safe_result_def)
  have f: "0 < fr_fusionPrice (ob_frontier now)" "0 < fr_workPrice (ob_frontier now)" "0 < rpc_base (ob_rpc now)"
    using now by (simp_all add: minimum_price_def)
  have paid: "pays_for (rpc_base (ob_rpc now)) (am_selectedFused b) (am_difficulty b)
      (fr_fusionPrice (ob_frontier now)) (fr_workPrice (ob_frontier now)) \<and> am_selectedFused b \<le> pq_fused q"
    using amounts_are_least [OF b(1) f(3) least(2) f(1,2)] by blast
  have "pays_for (rpc_base (ob_rpc now)) fused difficulty (fr_fusionPrice (ob_frontier now)) (fr_workPrice (ob_frontier now))"
    using paid b(2) f unfolding r pays_for_def
    by (smt (verit) bought_mono difficulty_per_plasma_def zdiv_mono1)
  moreover have "pq_fused q \<le> rpc_available (ob_rpc now)" using fits by (simp add: observation_fits_def Let_def)
  moreover have "pq_difficulty q \<le> pp_maxDifficulty (pq_policy q)" using a(2,3) by simp
  ultimately show ?thesis using c least(1) r by blast
qed

lemma honest_selected:
  assumes c: "captured_selection input False captured q now"
    and base: "rpc_base (ob_rpc now) = rpc_base (ob_rpc (pq_source q))"
    and available: "pq_fused q \<le> rpc_available (ob_rpc now)"
    and age: "0 \<le> price_advances q now" "price_advances q now \<le> pp_maxAdvances (pq_policy q)"
    and hash: "fr_hash (ob_frontier now) = fr_hash (ob_frontier (pq_source q)) \<longleftrightarrow> price_advances q now = 0"
    and fusion: "price_walk (pp_changePercent (pq_policy q)) (nat (price_advances q now))
      (fr_fusionPrice (ob_frontier (pq_source q))) (fr_fusionPrice (ob_frontier now))"
    and work: "price_walk (pp_changePercent (pq_policy q)) (nat (price_advances q now))
      (fr_workPrice (ob_frontier (pq_source q))) (fr_workPrice (ob_frontier now))"
  shows "check_selection input False = Some (pq_fused q, pq_difficulty q)"
proof -
  have ok: "quote_ok q" using c by (auto simp: captured_selection_def dest: rebuild_receipt_ok)
  then have build: "build_quote (pq_source q) (pq_policy q) (pq_subject q) (pq_runtime q) = Some q"
    and p: "0 \<le> pp_changePercent (pq_policy q)" "pp_changePercent (pq_policy q) \<le> 100"
    and prices: "minimum_price \<le> fr_fusionPrice (ob_frontier (pq_source q))" "fr_fusionPrice (ob_frontier (pq_source q)) \<le> max_safe"
      "minimum_price \<le> fr_workPrice (ob_frontier (pq_source q))" "fr_workPrice (ob_frontier (pq_source q)) \<le> max_safe"
    by (simp_all add: quote_ok_def price_policy_ok_def observation_ok_def)
  note f = walk_within [OF fusion p age prices(1,2) build_quote_parts(5) [OF build]]
  note w = walk_within [OF work p age prices(3,4) build_quote_parts(6) [OF build]]
  have still: "fr_fusionPrice (ob_frontier now) = fr_fusionPrice (ob_frontier (pq_source q))
      \<and> fr_workPrice (ob_frontier now) = fr_workPrice (ob_frontier (pq_source q))" if "price_advances q now = 0"
    using fusion work that by (auto elim!: price_walk_zeroE)
  have "observation_fits q (pq_policy q) now"
    using base available age hash still f(2) w(2)
    by (auto simp: observation_fits_def price_advances_def Let_def)
  then show ?thesis
    using check_selection_eq [OF c] f(1) w(1) by (simp add: Let_def)
qed

text \<open>C21: A quote never strands an honest payer: if the prices observed now are reached from those of
  the quote by as many advances as the heights say, each moving a price by at most the policy's
  percentage, within the advances the quote covers, for the same base plasma, with the reserved
  fusion still available, and with a frontier hash that changed exactly if the height did, then the
  selection is accepted, and it is the reserved one.\<close>

theorem honest_observation_selected:
  assumes c: "captured_selection input False captured q now"
    and base: "rpc_base (ob_rpc now) = rpc_base (ob_rpc (pq_source q))"
    and available: "pq_fused q \<le> rpc_available (ob_rpc now)"
    and age: "0 \<le> price_advances q now" "price_advances q now \<le> pp_maxAdvances (pq_policy q)"
    and hash: "fr_hash (ob_frontier now) = fr_hash (ob_frontier (pq_source q)) \<longleftrightarrow> price_advances q now = 0"
    and fusion: "price_walk (pp_changePercent (pq_policy q)) (nat (price_advances q now))
      (fr_fusionPrice (ob_frontier (pq_source q))) (fr_fusionPrice (ob_frontier now))"
    and work: "price_walk (pp_changePercent (pq_policy q)) (nat (price_advances q now))
      (fr_workPrice (ob_frontier (pq_source q))) (fr_workPrice (ob_frontier now))"
  shows "check_selection input False = Some (pq_fused q, pq_difficulty q)"
  using assms by (rule honest_selected)

section \<open>Receipts as JSON\<close>

definition frontier_json :: "price_frontier \<Rightarrow> json" where
  "frontier_json f = JObj [(''height'', JNum (fr_height f)), (''hash'', JStr (fr_hash f)), (''version'', JNum 2),
     (''nextFusionPrice'', JNum (fr_fusionPrice f)), (''nextWorkPrice'', JNum (fr_workPrice f))]"

definition rpc_json :: "price_rpc \<Rightarrow> json" where
  "rpc_json r = JObj [(''availablePlasma'', JNum (rpc_available r)), (''basePlasma'', JNum (rpc_base r)),
     (''requiredDifficulty'', JNum (rpc_difficulty r))]"

definition observation_json :: "price_observation \<Rightarrow> json" where
  "observation_json ob = JObj [(''classification'', JStr ''DP_ACTIVE''), (''reason'', JStr ''NONE''),
     (''scope'', JStr ''OBSERVED_FRONTIER_ONLY''), (''chainProfileGuard'', JStr ''MATCH''),
     (''chainAuthentication'', JStr ''NOT_ESTABLISHED''), (''afterSigningAction'', JStr ''NONE''),
     (''quote'', JObj [(''frontier'', frontier_json (ob_frontier ob)), (''rpcObservation'', rpc_json (ob_rpc ob)),
       (''selectedFusedPlasma'', JNum (ob_selectedFused ob)), (''requiredDifficulty'', JNum (ob_difficulty ob)),
       (''powRequired'', JBool (ob_pow ob)), (''pricingMode'', JStr (mode_text (ob_mode ob))),
       (''sdk105BasePlasmaUnderpricingDetected'', JBool (ob_underpricing ob))])]"

definition price_policy_json :: "price_policy \<Rightarrow> json" where
  "price_policy_json p = JObj [(''policyVersion'', JNum 1), (''maxPriceChangePercent'', JNum (pp_changePercent p)),
     (''maxMomentumAdvances'', JNum (pp_maxAdvances p)), (''maxFusedPlasma'', JNum (pp_maxFused p)),
     (''maxDifficulty'', JNum (pp_maxDifficulty p))]"

text \<open>The object \<open>buildQuote\<close> returns, as the JSON it is copied through.\<close>

definition quote_json :: "price_quote \<Rightarrow> json" where
  "quote_json q = JObj [(''quoteVersion'', JNum 1), (''scope'', JStr ''DECLARED_UNSIGNED_PRICE_BOUND''),
     (''chainAuthentication'', JStr ''NOT_ESTABLISHED''),
     (''frontierContinuity'', JStr ''HEIGHT_WINDOW_ONLY_NO_ANCESTRY_PROOF''), (''afterSigningAction'', JStr ''NONE''),
     (''policy'', price_policy_json (pq_policy q)), (''sourceCompatibility'', observation_json (pq_source q)),
     (''boundPrices'', JObj [(''fusionPrice'', JNum (pq_fusionBound q)), (''workPrice'', JNum (pq_workBound q))]),
     (''selected'', JObj [(''fusedPlasma'', JNum (pq_fused q)), (''difficulty'', JNum (pq_difficulty q))]),
     (''pricingMode'', JStr (mode_text (pq_mode q))), (''subjectDigest'', JStr (pq_subject q)),
     (''runtimeContextDigest'', JStr (pq_runtime q))]"

lemma num_not_negative_zero [simp]: "num n \<noteq> VNum NumNegZero" "VNum NumNegZero \<noteq> num n"
  by (simp_all add: num_def del: num_js_of)

lemma natural_num [simp]: "as_natural (num n) = (if safe_result n then Some n else None)"
  by (auto simp: as_natural_def safe_result_def safe_range_def max_safe_def)

lemma nonzero_num [simp]: "as_nonzero (num n) = (if safe_result n \<and> 0 < n then Some n else None)"
  by (auto simp: as_nonzero_def safe_result_def max_safe_def)

lemma digest_VStr [simp]: "as_digest (VStr s) = (if commitment_text s then Some s else None)"
proof (cases "commitment_text s")
  case True
  then have "as_digest (VStr s) = Some s" by (simp only: as_digest_Some simp_thms)
  with True show ?thesis by simp
next
  case False
  then have "as_digest (VStr s) \<noteq> Some t" for t unfolding as_digest_Some by auto
  then have "as_digest (VStr s) = None" by blast
  with False show ?thesis by simp
qed

lemma frontier_copy:
  assumes "0 < fr_height f" "fr_height f \<le> max_safe" "is_hex64 (fr_hash f)" "minimum_price \<le> fr_fusionPrice f"
    "fr_fusionPrice f \<le> max_safe" "minimum_price \<le> fr_workPrice f" "fr_workPrice f \<le> max_safe"
  shows "snapshot_frontier (js_of (frontier_json f)) = Some f"
proof -
  have "exact_fields frontier_fields (js_of (frontier_json f)) = Some [(''height'', num (fr_height f)), (''hash'', VStr (fr_hash f)),
      (''version'', num 2), (''nextFusionPrice'', num (fr_fusionPrice f)), (''nextWorkPrice'', num (fr_workPrice f))]"
    unfolding frontier_json_def by (subst capture_named) (simp_all add: frontier_fields_def)
  moreover have "safe_result (fr_height f)" "safe_result 2" "safe_result (fr_fusionPrice f)" "safe_result (fr_workPrice f)"
    using assms by (simp_all add: safe_result_def max_safe_def minimum_price_def)
  ultimately show ?thesis using assms by (simp add: snapshot_frontier_def)
qed

lemma rpc_copy:
  assumes "0 < rpc_base r" "safe_result (rpc_base r)" "safe_result (rpc_available r)" "safe_result (rpc_difficulty r)"
  shows "snapshot_rpc (js_of (rpc_json r)) = Some r"
proof -
  have "exact_fields rpc_fields (js_of (rpc_json r)) = Some [(''availablePlasma'', num (rpc_available r)),
      (''basePlasma'', num (rpc_base r)), (''requiredDifficulty'', num (rpc_difficulty r))]"
    unfolding rpc_json_def by (subst capture_named) (simp_all add: rpc_fields_def)
  then show ?thesis using assms by (simp add: snapshot_rpc_def)
qed

lemma observation_copy:
  assumes "observation_ok ob"
  shows "snapshot_compatibility (js_of (observation_json ob)) = Some ob"
proof -
  define quote where "quote = JObj [(''frontier'', frontier_json (ob_frontier ob)), (''rpcObservation'', rpc_json (ob_rpc ob)),
       (''selectedFusedPlasma'', JNum (ob_selectedFused ob)), (''requiredDifficulty'', JNum (ob_difficulty ob)),
       (''powRequired'', JBool (ob_pow ob)), (''pricingMode'', JStr (mode_text (ob_mode ob))),
       (''sdk105BasePlasmaUnderpricingDetected'', JBool (ob_underpricing ob))]"
  obtain a where a: "price_amounts_of (rpc_base (ob_rpc ob)) (rpc_available (ob_rpc ob)) (fr_fusionPrice (ob_frontier ob))
      (fr_workPrice (ob_frontier ob)) = Some a" "ob_selectedFused ob = am_selectedFused a"
    "ob_difficulty ob = am_difficulty a" "rpc_difficulty (ob_rpc ob) = am_difficulty a"
    "ob_pow ob = (am_difficulty a \<noteq> 0)" "ob_mode ob = am_mode a"
    "ob_underpricing ob = (am_difficulty a = 0 \<and> rpc_base (ob_rpc ob) < am_selectedFused a)"
    using assms by (auto simp: observation_ok_def)
  have safe: "safe_result (am_difficulty a)" "safe_result (am_selectedFused a)"
    using amounts_cases [OF a(1)] by (auto simp: safe_result_def max_safe_def)
  have outer: "exact_fields compat_fields (js_of (observation_json ob)) = Some [(''classification'', VStr ''DP_ACTIVE''),
     (''reason'', VStr ''NONE''), (''scope'', VStr ''OBSERVED_FRONTIER_ONLY''), (''chainProfileGuard'', VStr ''MATCH''),
     (''chainAuthentication'', VStr ''NOT_ESTABLISHED''), (''afterSigningAction'', VStr ''NONE''), (''quote'', js_of quote)]"
    unfolding observation_json_def quote_def [symmetric] by (subst capture_named) (simp_all add: compat_fields_def)
  have inner: "exact_fields instant_fields (js_of quote) = Some [(''frontier'', js_of (frontier_json (ob_frontier ob))),
      (''rpcObservation'', js_of (rpc_json (ob_rpc ob))), (''selectedFusedPlasma'', num (ob_selectedFused ob)),
      (''requiredDifficulty'', num (ob_difficulty ob)), (''powRequired'', VBool (ob_pow ob)),
      (''pricingMode'', VStr (mode_text (ob_mode ob))), (''sdk105BasePlasmaUnderpricingDetected'', VBool (ob_underpricing ob))]"
    unfolding quote_def by (subst capture_named) (simp_all add: instant_fields_def)
  have parts: "snapshot_frontier (js_of (frontier_json (ob_frontier ob))) = Some (ob_frontier ob)"
    "snapshot_rpc (js_of (rpc_json (ob_rpc ob))) = Some (ob_rpc ob)"
    using assms safe a(4) by (auto simp: observation_ok_def intro!: frontier_copy rpc_copy)
  show ?thesis
    using a safe by (simp add: snapshot_compatibility_def outer inner parts observation_constants_def Let_def)
qed

lemma policy_copy:
  assumes "price_policy_ok p"
  shows "snapshot_price_policy (js_of (price_policy_json p)) = Some p"
proof -
  have "exact_fields price_policy_fields (js_of (price_policy_json p)) = Some [(''policyVersion'', num 1),
     (''maxPriceChangePercent'', num (pp_changePercent p)), (''maxMomentumAdvances'', num (pp_maxAdvances p)),
     (''maxFusedPlasma'', num (pp_maxFused p)), (''maxDifficulty'', num (pp_maxDifficulty p))]"
    unfolding price_policy_json_def by (subst capture_named) (simp_all add: price_policy_fields_def)
  moreover have "safe_result (pp_changePercent p)" "safe_result (pp_maxAdvances p)"
    using assms by (simp_all add: price_policy_ok_def safe_result_def max_safe_def)
  ultimately show ?thesis using assms by (simp add: snapshot_price_policy_def price_policy_ok_def)
qed

lemma bound_safe: "bounded_price p0 p n = Some u \<Longrightarrow> safe_result p0 \<Longrightarrow> safe_result u"
proof -
  have "safe_result p0 \<Longrightarrow> price_loop m k p0 = Some u \<Longrightarrow> safe_result u" for m k
    by (induction k arbitrary: p0) (auto simp: Let_def split: if_splits)
  then show "bounded_price p0 p n = Some u \<Longrightarrow> safe_result p0 \<Longrightarrow> safe_result u"
    by (simp add: bounded_price_def)
qed

lemma quote_copy:
  assumes "quote_ok q"
  shows "rebuild_receipt (js_of (quote_json q)) = Some q"
proof -
  have build: "build_quote (pq_source q) (pq_policy q) (pq_subject q) (pq_runtime q) = Some q"
    and ok: "observation_ok (pq_source q)" "price_policy_ok (pq_policy q)" "commitment_text (pq_subject q)" "commitment_text (pq_runtime q)"
    using assms by (simp_all add: quote_ok_def)
  define bounds where "bounds = JObj [(''fusionPrice'', JNum (pq_fusionBound q)), (''workPrice'', JNum (pq_workBound q))]"
  define chosen where "chosen = JObj [(''fusedPlasma'', JNum (pq_fused q)), (''difficulty'', JNum (pq_difficulty q))]"
  have outer: "exact_fields receipt_fields (js_of (quote_json q)) = Some [(''quoteVersion'', num 1),
     (''scope'', VStr ''DECLARED_UNSIGNED_PRICE_BOUND''), (''chainAuthentication'', VStr ''NOT_ESTABLISHED''),
     (''frontierContinuity'', VStr ''HEIGHT_WINDOW_ONLY_NO_ANCESTRY_PROOF''), (''afterSigningAction'', VStr ''NONE''),
     (''policy'', js_of (price_policy_json (pq_policy q))), (''sourceCompatibility'', js_of (observation_json (pq_source q))),
     (''boundPrices'', js_of bounds), (''selected'', js_of chosen), (''pricingMode'', VStr (mode_text (pq_mode q))),
     (''subjectDigest'', VStr (pq_subject q)), (''runtimeContextDigest'', VStr (pq_runtime q))]"
    unfolding quote_json_def bounds_def [symmetric] chosen_def [symmetric]
    by (subst capture_named) (simp_all add: receipt_fields_def)
  have inner: "exact_fields [''fusionPrice'', ''workPrice''] (js_of bounds)
      = Some [(''fusionPrice'', num (pq_fusionBound q)), (''workPrice'', num (pq_workBound q))]"
    unfolding bounds_def by (subst capture_named) simp_all
  have safe: "safe_result (pq_fusionBound q)" "safe_result (pq_workBound q)"
    using ok(1) bound_safe [OF build_quote_parts(5) [OF build]] bound_safe [OF build_quote_parts(6) [OF build]]
    by (auto simp: observation_ok_def safe_result_def minimum_price_def)
  obtain a where a: "price_amounts_of (rpc_base (ob_rpc (pq_source q)))
      (min (rpc_available (ob_rpc (pq_source q))) (pp_maxFused (pq_policy q))) (pq_fusionBound q) (pq_workBound q) = Some a"
    "pq_fused q = am_selectedFused a" "pq_difficulty q = am_difficulty a"
    using build_quote_parts(7) [OF build] by blast
  have amounts: "safe_result (pq_fused q)" "safe_result (pq_difficulty q)"
    using amounts_cases [OF a(1)] a(2,3) by (auto simp: safe_result_def max_safe_def)
  have "snapshot_selection (js_of chosen) = Some (pq_fused q, pq_difficulty q)"
    unfolding snapshot_selection_def chosen_def using amounts
    by (subst capture_named) simp_all
  then show ?thesis
    using ok by (simp add: rebuild_receipt_def outer inner receipt_constants_def observation_copy policy_copy build safe)
qed

text \<open>A quote survives being copied as JSON: the receipt that \<open>createDynamicPlasmaPricePolicyQuote\<close>
  returns, parsed back from its text, is rebuilt to the same quote; nothing else of it is trusted.\<close>

theorem receipt_roundtrip:
  assumes "create_quote input = Some q"
  shows "rebuild_receipt (js_of (quote_json q)) = Some q"
proof (rule quote_copy)
  obtain vs vp ss ps sub run where s: "snapshot_compatibility vs = Some ss" "snapshot_price_policy vp = Some ps"
    and d: "commitment_text sub" "commitment_text run" and b: "build_quote ss ps sub run = Some q"
    using assms by (auto simp: create_quote_def bind_eq_Some_conv as_digest_Some)
  then show "quote_ok q"
    using build_quote_parts(1-4) [OF b] snapshot_compatibility_ok snapshot_price_policy_ok by (simp add: quote_ok_def)
qed

section \<open>An example\<close>

definition demo_frontier :: "int \<Rightarrow> char \<Rightarrow> int \<Rightarrow> price_frontier" where
  "demo_frontier height c fusion = \<lparr>fr_height = height, fr_hash = replicate 64 c, fr_fusionPrice = fusion, fr_workPrice = 1000\<rparr>"

definition demo_observation :: price_observation where
  "demo_observation = \<lparr>ob_frontier = demo_frontier 5 CHR ''a'' 1000,
     ob_rpc = \<lparr>rpc_available = 10000, rpc_base = 21000, rpc_difficulty = 16500000\<rparr>,
     ob_selectedFused = 10000, ob_difficulty = 16500000, ob_pow = True, ob_mode = FusionAndPow, ob_underpricing = False\<rparr>"

definition demo_later :: price_observation where
  "demo_later = \<lparr>ob_frontier = demo_frontier 6 CHR ''b'' 1100,
     ob_rpc = \<lparr>rpc_available = 10000, rpc_base = 21000, rpc_difficulty = 17865000\<rparr>,
     ob_selectedFused = 10000, ob_difficulty = 17865000, ob_pow = True, ob_mode = FusionAndPow, ob_underpricing = False\<rparr>"

definition demo_price_policy :: price_policy where
  "demo_price_policy = \<lparr>pp_changePercent = 10, pp_maxAdvances = 2, pp_maxFused = 8000, pp_maxDifficulty = 30000000\<rparr>"

definition demo_binding :: string where
  "demo_binding = ''sha256:'' @ replicate 64 CHR ''a''"

definition demo_quote :: price_quote where
  "demo_quote = \<lparr>pq_policy = demo_price_policy, pq_source = demo_observation, pq_fusionBound = 1210, pq_workBound = 1210,
     pq_fused = 8000, pq_difficulty = 26116500, pq_mode = FusionAndPow, pq_subject = demo_binding, pq_runtime = demo_binding\<rparr>"

definition demo_create_input :: jsval where
  "demo_create_input = js_of (JObj [(''compatibility'', observation_json demo_observation),
     (''policy'', price_policy_json demo_price_policy), (''subjectDigest'', JStr demo_binding),
     (''runtimeContextDigest'', JStr demo_binding)])"

definition demo_select_members :: "(string \<times> json) list" where
  "demo_select_members = [(''quote'', quote_json demo_quote), (''compatibility'', observation_json demo_later),
     (''policy'', price_policy_json demo_price_policy), (''subjectDigest'', JStr demo_binding),
     (''runtimeContextDigest'', JStr demo_binding)]"

lemma demo_binding_ok: "commitment_text demo_binding"
proof -
  have "is_hex CHR ''a''" by (simp add: is_hex_def is_digit_def code_def)
  then show ?thesis
    unfolding demo_binding_def commitment_text_def prefixed_hex64_append by (rule is_hex64_replicate)
qed

lemma demo_observations_ok: "observation_ok demo_observation" "observation_ok demo_later"
proof -
  have hex: "is_hex64 (replicate 64 CHR ''a'')" "is_hex64 (replicate 64 CHR ''b'')"
    by (rule is_hex64_replicate, simp add: is_hex_def is_digit_def code_def)+
  show "observation_ok demo_observation" "observation_ok demo_later"
    unfolding observation_ok_def using hex
    by (simp_all add: demo_observation_def demo_later_def demo_frontier_def safe_result_def max_safe_def minimum_price_def
        price_amounts_of_def calculate_amounts_def ceil_divide_def price_scale_def difficulty_per_plasma_def)
qed

lemma demo_price_policy_ok: "price_policy_ok demo_price_policy"
  by (simp add: price_policy_ok_def demo_price_policy_def safe_result_def max_safe_def)

lemma demo_build: "build_quote demo_observation demo_price_policy demo_binding demo_binding = Some demo_quote"
  by (simp add: build_quote_def demo_observation_def demo_frontier_def demo_price_policy_def demo_quote_def bounded_price_def
      numeral_2_eq_2 minimum_price_def safe_result_def max_safe_def price_amounts_of_def calculate_amounts_def ceil_divide_def
      price_scale_def difficulty_per_plasma_def)

lemma demo_created: "create_quote demo_create_input = Some demo_quote"
proof -
  have "exact_fields create_fields demo_create_input = Some [(''compatibility'', js_of (observation_json demo_observation)),
     (''policy'', js_of (price_policy_json demo_price_policy)), (''subjectDigest'', VStr demo_binding),
     (''runtimeContextDigest'', VStr demo_binding)]"
    unfolding demo_create_input_def by (subst capture_named) (simp_all add: create_fields_def)
  then show ?thesis
    by (simp add: create_quote_def observation_copy demo_observations_ok policy_copy demo_price_policy_ok demo_binding_ok demo_build)
qed

lemma demo_quote_ok: "quote_ok demo_quote"
  using demo_build demo_observations_ok demo_price_policy_ok demo_binding_ok
  by (simp add: quote_ok_def) (simp add: demo_quote_def)

lemma demo_captured:
  "captured_selection (js_of (JObj demo_select_members)) False (js_members demo_select_members) demo_quote demo_later"
proof -
  have "exact_fields select_fields (js_of (JObj demo_select_members)) = Some (js_members demo_select_members)"
    by (rule capture_named) (simp_all add: select_fields_def demo_select_members_def)
  moreover have "js_members demo_select_members = [(''quote'', js_of (quote_json demo_quote)),
      (''compatibility'', js_of (observation_json demo_later)), (''policy'', js_of (price_policy_json demo_price_policy)),
      (''subjectDigest'', VStr demo_binding), (''runtimeContextDigest'', VStr demo_binding)]"
    by (simp add: demo_select_members_def)
  moreover have "pq_policy demo_quote = demo_price_policy" "pq_subject demo_quote = demo_binding" "pq_runtime demo_quote = demo_binding"
    by (simp_all add: demo_quote_def)
  ultimately show ?thesis
    by (simp add: captured_selection_def quote_copy demo_quote_ok observation_copy demo_observations_ok policy_copy
        demo_price_policy_ok demo_binding_ok)
qed

lemma demo_walks: "price_walk 10 (Suc 0) 1000 1100" "price_walk 10 (Suc 0) 1000 1000"
  by (rule price_walk.move [OF _ price_walk.stay], simp add: price_step_def minimum_price_def)+

lemma demo_hashes: "replicate 64 CHR ''b'' \<noteq> replicate 64 CHR ''a''"
  by simp

lemma demo_advances: "price_advances demo_quote demo_later = 1"
  by (simp add: price_advances_def demo_quote_def demo_later_def demo_observation_def demo_frontier_def)

lemmas demo_prices = demo_quote_def demo_later_def demo_observation_def demo_frontier_def demo_price_policy_def

lemma demo_honest:
  "rpc_base (ob_rpc demo_later) = rpc_base (ob_rpc (pq_source demo_quote))"
  "pq_fused demo_quote \<le> rpc_available (ob_rpc demo_later)"
  "0 \<le> price_advances demo_quote demo_later"
  "price_advances demo_quote demo_later \<le> pp_maxAdvances (pq_policy demo_quote)"
  "fr_hash (ob_frontier demo_later) = fr_hash (ob_frontier (pq_source demo_quote))
    \<longleftrightarrow> price_advances demo_quote demo_later = 0"
  "price_walk (pp_changePercent (pq_policy demo_quote)) (nat (price_advances demo_quote demo_later))
    (fr_fusionPrice (ob_frontier (pq_source demo_quote))) (fr_fusionPrice (ob_frontier demo_later))"
  "price_walk (pp_changePercent (pq_policy demo_quote)) (nat (price_advances demo_quote demo_later))
    (fr_workPrice (ob_frontier (pq_source demo_quote))) (fr_workPrice (ob_frontier demo_later))"
  unfolding demo_advances using demo_walks demo_hashes by (simp_all add: demo_prices)

theorem honest_observation_selected_witness:
  "check_selection (js_of (JObj demo_select_members)) False = Some (8000, 26116500)"
  using honest_observation_selected [OF demo_captured demo_honest] by (simp add: demo_quote_def)

theorem receipt_roundtrip_witness: "rebuild_receipt (js_of (quote_json demo_quote)) = Some demo_quote"
  by (rule receipt_roundtrip [OF demo_created])

lemma captured_selection_same:
  "captured_selection input v c q now \<Longrightarrow> captured_selection input v c' q' now' \<Longrightarrow> q' = q \<and> now' = now"
  by (auto simp: captured_selection_def)

theorem selection_pays_witness: "pays_for 21000 8000 26116500 1100 1000"
proof -
  have selected: "check_selection (js_of (JObj demo_select_members)) False = Some (8000, 26116500)"
    using honest_selected [OF demo_captured demo_honest] by (simp add: demo_quote_def)
  obtain captured q now where c: "captured_selection (js_of (JObj demo_select_members)) False captured q now"
    and p: "pays_for (rpc_base (ob_rpc now)) 8000 26116500 (fr_fusionPrice (ob_frontier now)) (fr_workPrice (ob_frontier now))"
    using selection_pays [OF selected] by blast
  show ?thesis
    using p captured_selection_same [OF demo_captured c] by (simp add: demo_later_def demo_frontier_def)
qed

end
