(* ===== verification/Observer_Copy.thy ===== *)
theory Observer_Copy
  imports JSON_Lemmas
begin

text \<open>
  The detached copy that the funding observer takes of every input
  (\<open>copyJson\<close> and \<open>snapshotJson\<close> of \<open>src/src/service-credit-zenon-funding-observer-state.js\<close>): plain
  JSON within budgets for its nodes, members, key and string bytes, depth and canonical text, and
  nothing else. The lemmas say that the copy of a JSON value is that value, exactly when it is
  within the budgets.

  The source also refuses an object it has already seen in the same input. The values of the model
  are trees, so this check never fires here; it is the one check of \<open>copyJson\<close> that is left out.
\<close>

section \<open>Budgets\<close>

record copy_budget =
  bu_keyBytes :: nat
  bu_members :: nat
  bu_nodes :: nat
  bu_stringBytes :: nat

definition fresh_budget :: copy_budget where
  "fresh_budget = \<lparr>bu_keyBytes = 0, bu_members = 0, bu_nodes = 0, bu_stringBytes = 0\<rparr>"

definition max_input_bytes :: nat where
  "max_input_bytes = 512 * 1024"

definition max_nodes :: nat where
  "max_nodes = 8192"

definition max_members :: nat where
  "max_members = 8192"

definition max_key_bytes :: nat where
  "max_key_bytes = 64 * 1024"

definition max_string_bytes :: nat where
  "max_string_bytes = 256 * 1024"

definition max_array_length :: nat where
  "max_array_length = 4096"

definition max_depth :: nat where
  "max_depth = 24"

text \<open>\<open>addBudget\<close>: add, then compare with the maximum.\<close>

definition add_nodes :: "nat \<Rightarrow> copy_budget \<Rightarrow> copy_budget option" where
  "add_nodes n b = (let b' = b\<lparr>bu_nodes := bu_nodes b + n\<rparr> in
     if max_nodes < bu_nodes b' then None else Some b')"

definition add_members :: "nat \<Rightarrow> copy_budget \<Rightarrow> copy_budget option" where
  "add_members n b = (let b' = b\<lparr>bu_members := bu_members b + n\<rparr> in
     if max_members < bu_members b' then None else Some b')"

definition add_key :: "string \<Rightarrow> copy_budget \<Rightarrow> copy_budget option" where
  "add_key k b = (let b' = b\<lparr>bu_keyBytes := bu_keyBytes b + utf8_bytes k\<rparr> in
     if max_key_bytes < bu_keyBytes b' then None else Some b')"

definition add_string :: "string \<Rightarrow> copy_budget \<Rightarrow> copy_budget option" where
  "add_string s b = (let b' = b\<lparr>bu_stringBytes := bu_stringBytes b + utf8_bytes s\<rparr> in
     if max_string_bytes < bu_stringBytes b' then None else Some b')"

definition forbidden_key :: "string \<Rightarrow> bool" where
  "forbidden_key k \<longleftrightarrow> k = ''__proto__'' \<or> k = ''constructor'' \<or> k = ''prototype'' \<or> max_key_bytes < length k"

section \<open>The copy\<close>

function (sequential) copy_value :: "nat \<Rightarrow> jsval \<Rightarrow> copy_budget \<Rightarrow> (json \<times> copy_budget) option"
  and copy_elements :: "nat \<Rightarrow> nat \<Rightarrow> jsval property list \<Rightarrow> copy_budget \<Rightarrow> (json list \<times> copy_budget) option"
  and copy_members :: "nat \<Rightarrow> (string \<times> jsval property) list \<Rightarrow> copy_budget
    \<Rightarrow> ((string \<times> json) list \<times> copy_budget) option"
where
  "copy_value d v b = (if max_depth < d then None else Option.bind (add_nodes 1 b) (\<lambda>b.
     case v of
       VNull \<Rightarrow> Some (JNull, b)
     | VBool x \<Rightarrow> Some (JBool x, b)
     | VStr s \<Rightarrow> if max_string_bytes < length s then None else map_option (Pair (JStr s)) (add_string s b)
     | VNum n \<Rightarrow> map_option (\<lambda>i. (JNum i, b)) (safe_integer (VNum n))
     | VArray form props \<Rightarrow>
         if \<not> is_ordinary form \<or> max_array_length < length props then None
         else Option.bind (add_members (length props) b) (\<lambda>b.
           map_option (\<lambda>(js, b). (JArr js, b)) (copy_elements d 0 props b))
     | VObject p symbolic props \<Rightarrow>
         if p \<noteq> ObjectProto \<or> symbolic \<or> max_array_length < length props then None
         else Option.bind (add_members (length props) b) (\<lambda>b.
           map_option (\<lambda>(kvs, b). (JObj kvs, b)) (copy_members d props b))
     | _ \<Rightarrow> None))"
| "copy_elements d i [] b = Some ([], b)"
| "copy_elements d i (HiddenProp # ps) b = None"
| "copy_elements d i (DataProp v # ps) b = do {
     b \<leftarrow> add_key (nat_text i) b;
     (j, b) \<leftarrow> copy_value (Suc d) v b;
     (js, b) \<leftarrow> copy_elements d (Suc i) ps b;
     Some (j # js, b)
   }"
| "copy_members d [] b = Some ([], b)"
| "copy_members d ((k, HiddenProp) # ps) b = None"
| "copy_members d ((k, DataProp v) # ps) b = (if forbidden_key k then None else do {
     b \<leftarrow> add_key k b;
     (j, b) \<leftarrow> copy_value (Suc d) v b;
     (kvs, b) \<leftarrow> copy_members d ps b;
     Some ((k, j) # kvs, b)
   })"

  by pat_completeness auto

termination
  by (relation "measure (case_sum (\<lambda>(d, v, b). size v)
      (case_sum (\<lambda>(d, i, ps, b). size_list (size_property size) ps)
        (\<lambda>(d, ps, b). size_list (size_prod (\<lambda>_. 0) (size_property size)) ps)))") auto

declare copy_value.simps [simp del]

definition detached_copy :: "jsval \<Rightarrow> json option" where
  "detached_copy input = do {
     (copy, _) \<leftarrow> copy_value 0 input fresh_budget;
     if max_input_bytes < utf8_bytes (canonical_json copy) then None else Some copy
   }"

section \<open>What the copy of a JSON value costs\<close>

definition spend :: "copy_budget \<Rightarrow> copy_budget \<Rightarrow> copy_budget" where
  "spend b c = \<lparr>bu_keyBytes = bu_keyBytes b + bu_keyBytes c, bu_members = bu_members b + bu_members c,
     bu_nodes = bu_nodes b + bu_nodes c, bu_stringBytes = bu_stringBytes b + bu_stringBytes c\<rparr>"

definition within_budget :: "copy_budget \<Rightarrow> bool" where
  "within_budget b \<longleftrightarrow> bu_keyBytes b \<le> max_key_bytes \<and> bu_members b \<le> max_members \<and> bu_nodes b \<le> max_nodes
     \<and> bu_stringBytes b \<le> max_string_bytes"

function (sequential) copy_cost :: "json \<Rightarrow> copy_budget"
  and elements_cost :: "nat \<Rightarrow> json list \<Rightarrow> copy_budget"
  and members_cost :: "(string \<times> json) list \<Rightarrow> copy_budget"
where
  "copy_cost (JStr s) = fresh_budget\<lparr>bu_nodes := 1, bu_stringBytes := utf8_bytes s\<rparr>"
| "copy_cost (JArr vs) = spend (fresh_budget\<lparr>bu_nodes := 1, bu_members := length vs\<rparr>) (elements_cost 0 vs)"
| "copy_cost (JObj kvs) = spend (fresh_budget\<lparr>bu_nodes := 1, bu_members := length kvs\<rparr>) (members_cost kvs)"
| "copy_cost _ = fresh_budget\<lparr>bu_nodes := 1\<rparr>"
| "elements_cost i [] = fresh_budget"
| "elements_cost i (v # vs) = spend (fresh_budget\<lparr>bu_keyBytes := utf8_bytes (nat_text i)\<rparr>)
     (spend (copy_cost v) (elements_cost (Suc i) vs))"
| "members_cost [] = fresh_budget"
| "members_cost ((k, v) # kvs) = spend (fresh_budget\<lparr>bu_keyBytes := utf8_bytes k\<rparr>)
     (spend (copy_cost v) (members_cost kvs))"
  by pat_completeness auto

termination
  by (relation "measure (case_sum size
      (case_sum (\<lambda>(i, vs). size_list size vs) (\<lambda>kvs. size_list (size_prod (\<lambda>_. 0) size) kvs)))") auto

text \<open>The checks of the copy that are not counted: depth, lengths, keys and numbers.\<close>

fun copyable :: "nat \<Rightarrow> json \<Rightarrow> bool" where
  "copyable d (JNum n) \<longleftrightarrow> d \<le> max_depth \<and> safe_range n"
| "copyable d (JArr vs) \<longleftrightarrow> d \<le> max_depth \<and> length vs \<le> max_array_length \<and> (\<forall>v \<in> set vs. copyable (Suc d) v)"
| "copyable d (JObj kvs) \<longleftrightarrow> d \<le> max_depth \<and> length kvs \<le> max_array_length
     \<and> (\<forall>(k, v) \<in> set kvs. \<not> forbidden_key k \<and> copyable (Suc d) v)"
| "copyable d _ \<longleftrightarrow> d \<le> max_depth"

lemma spend_fields [simp]:
  "bu_keyBytes (spend b c) = bu_keyBytes b + bu_keyBytes c" "bu_members (spend b c) = bu_members b + bu_members c"
  "bu_nodes (spend b c) = bu_nodes b + bu_nodes c" "bu_stringBytes (spend b c) = bu_stringBytes b + bu_stringBytes c"
  by (simp_all add: spend_def)

lemma fresh_fields [simp]:
  "bu_keyBytes fresh_budget = 0" "bu_members fresh_budget = 0" "bu_nodes fresh_budget = 0" "bu_stringBytes fresh_budget = 0"
  by (simp_all add: fresh_budget_def)

lemma spend_fresh [simp]: "spend b fresh_budget = b" "spend fresh_budget b = b"
  by (simp_all add: spend_def fresh_budget_def)

lemma spend_assoc: "spend (spend a b) c = spend a (spend b c)"
  by (simp add: spend_def add.assoc)

lemma within_spend: "within_budget (spend b c) \<Longrightarrow> within_budget b"
  by (simp add: within_budget_def)

lemma utf8_length: "length s \<le> utf8_bytes s"
  by (induction s) (simp_all add: utf8_bytes_def)

lemma add_spend:
  assumes "within_budget b"
  shows "add_nodes n b = (let b' = spend b (fresh_budget\<lparr>bu_nodes := n\<rparr>) in if within_budget b' then Some b' else None)"
    "add_members n b = (let b' = spend b (fresh_budget\<lparr>bu_members := n\<rparr>) in if within_budget b' then Some b' else None)"
    "add_key k b = (let b' = spend b (fresh_budget\<lparr>bu_keyBytes := utf8_bytes k\<rparr>) in if within_budget b' then Some b' else None)"
    "add_string s b = (let b' = spend b (fresh_budget\<lparr>bu_stringBytes := utf8_bytes s\<rparr>) in if within_budget b' then Some b' else None)"
  using assms
  by (auto simp: add_nodes_def add_members_def add_key_def add_string_def within_budget_def spend_def Let_def)

text \<open>Copying a JSON value, within a budget that still holds, gives that value and its cost.\<close>

definition copied :: "'a \<Rightarrow> bool \<Rightarrow> copy_budget \<Rightarrow> copy_budget \<Rightarrow> ('a \<times> copy_budget) option" where
  "copied v fine b c = (if fine \<and> within_budget (spend b c) then Some (v, spend b c) else None)"

lemma copied_bind:
  assumes "\<And>b. within_budget b \<Longrightarrow> f b = copied w g b c'"
  shows "Option.bind (copied v p b c) (\<lambda>(j, b). Option.bind (f b) (\<lambda>(js, b). Some (h j js, b)))
    = copied (h v w) (p \<and> g) b (spend c c')"
  using assms [of "spend b c"] within_spend [of "spend b c" c']
  by (auto simp: copied_def spend_assoc)

lemma elements_copied:
  assumes "\<And>v d b. v \<in> set vs \<Longrightarrow> within_budget b \<Longrightarrow> copy_value d (js_of v) b = copied v (copyable d v) b (copy_cost v)"
    and "within_budget b"
  shows "copy_elements d i (map DataProp (map js_of vs)) b
    = copied vs (\<forall>v \<in> set vs. copyable (Suc d) v) b (elements_cost i vs)"
  using assms
proof (induction vs arbitrary: i b)
  case (Cons v vs)
  let ?k = "spend b (fresh_budget\<lparr>bu_keyBytes := utf8_bytes (nat_text i)\<rparr>)"
  have "copy_elements d i (map DataProp (map js_of (v # vs))) b
      = (if within_budget ?k then copied (v # vs) (copyable (Suc d) v \<and> (\<forall>v \<in> set vs. copyable (Suc d) v)) ?k
          (spend (copy_cost v) (elements_cost (Suc i) vs)) else None)"
    using Cons by (simp add: add_spend Let_def copied_bind [where h = Cons])
  then show ?case
    using within_spend [of ?k] by (auto simp: copied_def spend_assoc)
qed (simp add: copied_def)

lemma members_copied:
  assumes "\<And>k v d b. (k, v) \<in> set kvs \<Longrightarrow> within_budget b \<Longrightarrow> copy_value d (js_of v) b = copied v (copyable d v) b (copy_cost v)"
    and "within_budget b"
  shows "copy_members d (map (\<lambda>(k, v). (k, DataProp (js_of v))) kvs) b
    = copied kvs (\<forall>(k, v) \<in> set kvs. \<not> forbidden_key k \<and> copyable (Suc d) v) b (members_cost kvs)"
  using assms
proof (induction kvs arbitrary: b)
  case (Cons kv kvs)
  obtain k v where kv: "kv = (k, v)" by (cases kv)
  let ?k = "spend b (fresh_budget\<lparr>bu_keyBytes := utf8_bytes k\<rparr>)"
  have "copy_members d (map (\<lambda>(k, v). (k, DataProp (js_of v))) (kv # kvs)) b
      = (if forbidden_key k then None else if within_budget ?k
          then copied ((k, v) # kvs) (copyable (Suc d) v \<and> (\<forall>(k, v) \<in> set kvs. \<not> forbidden_key k \<and> copyable (Suc d) v)) ?k
          (spend (copy_cost v) (members_cost kvs)) else None)"
  proof -
    have "copy_value d (js_of v) b = copied v (copyable d v) b (copy_cost v)" if "within_budget b" for d b
      using Cons.prems(1) [of k v] that by (simp add: kv)
    moreover have "copy_members d (map (\<lambda>(k, v). (k, DataProp (js_of v))) kvs) b
        = copied kvs (\<forall>(k, v) \<in> set kvs. \<not> forbidden_key k \<and> copyable (Suc d) v) b (members_cost kvs)"
      if "within_budget b" for b
      using that Cons.prems(1) by (intro Cons.IH) (auto simp: kv)
    ultimately show ?thesis
      using Cons.prems(2) by (simp add: kv add_spend Let_def copied_bind [where h = "\<lambda>j. Cons (k, j)"])
  qed
  then show ?case
    using within_spend [of ?k] by (auto simp: copied_def spend_assoc kv)
qed (simp add: copied_def)

text \<open>An array or an object: one node, its members, then what is inside.\<close>

lemma copied_container:
  assumes b: "within_budget b" and inner: "\<And>b. within_budget b \<Longrightarrow> f b = copied w g b c"
  shows "Option.bind (add_nodes 1 b) (\<lambda>b. if \<not> p then None else Option.bind (add_members n b) (\<lambda>b.
      map_option (\<lambda>(js, b). (h js, b)) (f b)))
    = copied (h w) (p \<and> g) b (spend (fresh_budget\<lparr>bu_nodes := 1, bu_members := n\<rparr>) c)"
proof -
  define node where "node = fresh_budget\<lparr>bu_nodes := 1\<rparr>"
  define items where "items = fresh_budget\<lparr>bu_members := n\<rparr>"
  have both: "fresh_budget\<lparr>bu_nodes := 1, bu_members := n\<rparr> = spend node items"
    by (simp add: node_def items_def spend_def fresh_budget_def)
  have n: "add_nodes 1 b' = (if within_budget (spend b' node) then Some (spend b' node) else None)"
    and m: "add_members n b' = (if within_budget (spend b' items) then Some (spend b' items) else None)"
    if "within_budget b'" for b'
    using that by (simp_all only: add_spend node_def items_def Let_def)
  show ?thesis
  proof (cases "within_budget (spend (spend b node) items)")
    case True
    moreover have "within_budget (spend b node)" using True by (rule within_spend)
    ultimately show ?thesis
      using b inner [of "spend (spend b node) items"] unfolding both
      by (simp add: n m del: One_nat_def) (simp add: copied_def spend_assoc)
  next
    case False
    then have "\<not> within_budget (spend b (spend (spend node items) c))"
      using within_spend [of "spend (spend b node) items" c] by (auto simp: spend_assoc)
    then show ?thesis
      using b False unfolding both
      by (cases "within_budget (spend b node)") (simp_all add: n m copied_def del: One_nat_def)
  qed
qed

lemma copied_deep: "copied v False b c = None"
  by (simp add: copied_def)

lemma copy_json:
  "within_budget b \<Longrightarrow> copy_value d (js_of v) b = copied v (copyable d v) b (copy_cost v)"
proof (induction v arbitrary: d b)
  case (JStr s)
  have "bu_stringBytes b + utf8_bytes s \<le> max_string_bytes \<Longrightarrow> \<not> max_string_bytes < length s"
    using utf8_length [of s] by simp
  with JStr show ?case
    by (auto simp: copy_value.simps within_budget_def add_nodes_def add_string_def Let_def copied_def)
next
  case (JArr vs)
  show ?case
  proof (cases "max_depth < d")
    case False
    have image: "js_of (JArr vs) = VArray (OrdinaryArray None) (map DataProp (map js_of vs))" by (simp add: arr_def)
    have "copy_value d (js_of (JArr vs)) b = Option.bind (add_nodes 1 b) (\<lambda>b.
        if \<not> length vs \<le> max_array_length then None else Option.bind (add_members (length vs) b) (\<lambda>b.
          map_option (\<lambda>(js, b). (JArr js, b)) (copy_elements d 0 (map DataProp (map js_of vs)) b)))"
      unfolding image copy_value.simps using False by (simp add: not_le cong: if_cong)
    also have "\<dots> = copied (JArr vs) (length vs \<le> max_array_length \<and> (\<forall>v \<in> set vs. copyable (Suc d) v)) b
        (spend (fresh_budget\<lparr>bu_nodes := 1, bu_members := length vs\<rparr>) (elements_cost 0 vs))"
      using JArr by (intro copied_container elements_copied) auto
    finally show ?thesis using False by simp
  qed (simp add: copy_value.simps copied_def)
next
  case (JObj kvs)
  show ?case
  proof (cases "max_depth < d")
    case False
    have image: "js_of (JObj kvs) = VObject ObjectProto False (map (\<lambda>(k, v). (k, DataProp (js_of v))) kvs)"
      by (simp add: obj_def js_members_def split_beta comp_def)
    have "copy_value d (js_of (JObj kvs)) b = Option.bind (add_nodes 1 b) (\<lambda>b.
        if \<not> length kvs \<le> max_array_length then None else Option.bind (add_members (length kvs) b) (\<lambda>b.
          map_option (\<lambda>(kvs, b). (JObj kvs, b)) (copy_members d (map (\<lambda>(k, v). (k, DataProp (js_of v))) kvs) b)))"
      unfolding image copy_value.simps using False by (simp add: not_le cong: if_cong)
    also have "\<dots> = copied (JObj kvs) (length kvs \<le> max_array_length
          \<and> (\<forall>(k, v) \<in> set kvs. \<not> forbidden_key k \<and> copyable (Suc d) v)) b
        (spend (fresh_budget\<lparr>bu_nodes := 1, bu_members := length kvs\<rparr>) (members_cost kvs))"
      using JObj by (intro copied_container members_copied) (auto simp: snds.simps)
    finally show ?thesis using False by simp
  qed (simp add: copy_value.simps copied_def)
next
  case (JNum n)
  then show ?case
    by (auto simp: copy_value.simps [of _ "VNum (NumInt n)"] add_spend Let_def copied_def simp del: num_js_of)
qed (auto simp: copy_value.simps add_spend Let_def copied_def)

text \<open>The snapshot of a JSON value: itself if it is within every limit, refused otherwise.\<close>

definition within_limits :: "json \<Rightarrow> bool" where
  "within_limits v \<longleftrightarrow> copyable 0 v \<and> within_budget (copy_cost v) \<and> utf8_bytes (canonical_json v) \<le> max_input_bytes"

lemma snapshot_js: "detached_copy (js_of v) = (if within_limits v then Some v else None)"
proof -
  have "within_budget fresh_budget" by (simp add: within_budget_def)
  then show ?thesis by (simp add: detached_copy_def copy_json copied_def within_limits_def)
qed

end
