(* ===== verification/Observer_Data.thy ===== *)
theory Observer_Data
  imports Service_Credit_Data Observer_Copy
begin

text \<open>
  The data of the funding observer
  (\<open>src/src/service-credit-zenon-funding-observer-state.js\<close>): its policies, the target it looks for,
  checkpoints of the momentum chain, page receipts, inclusions and first thresholds, each with the
  \<open>normalize\<close> function that reads it from a detached copy and the JSON object it is stored as. A
  reader gives \<open>None\<close> where the source calls \<open>onFailure\<close>; the caller names the error.

  Each record comes with a predicate for its well-formed values and two facts: the reader returns
  well-formed values only, and it returns every well-formed value from its own JSON image.

  Heights, versions and counts are safe integers. Sums of two of them can exceed the safe range,
  where a JavaScript number rounds; the source only ever compares such a sum with safe integers, and
  rounding does not move a sum across them, so \<^typ>\<open>int\<close> agrees.
\<close>

named_theorems reader_defs "definitions of the readers and of well-formedness"
named_theorems reader_rules "what the readers return"
named_theorems image_defs "definitions of the JSON images"

section \<open>Scalars\<close>

definition hash_text :: "string \<Rightarrow> bool" where
  "hash_text s \<longleftrightarrow> is_hex64 s \<and> s \<noteq> zero_hash"

definition zenon_transaction :: "string \<Rightarrow> bool" where
  "zenon_transaction s \<longleftrightarrow> prefixed_hex64 ''zenontx:'' s"

definition zenon_amount :: "string \<Rightarrow> bool" where
  "zenon_amount s \<longleftrightarrow> positive_decimal s \<and> length s \<le> 77"

definition as_hash :: "jsval \<Rightarrow> string option" where
  "as_hash v = as_text hash_text v"

definition as_transaction :: "jsval \<Rightarrow> string option" where
  "as_transaction v = as_text zenon_transaction v"

text \<open>A value that may be \<open>null\<close>.\<close>

definition nullable :: "(jsval \<Rightarrow> 'a option) \<Rightarrow> jsval \<Rightarrow> 'a option option" where
  "nullable read v = (if v = VNull then Some None else map_option Some (read v))"

fun json_option :: "('a \<Rightarrow> json) \<Rightarrow> 'a option \<Rightarrow> json" where
  "json_option f None = JNull"
| "json_option f (Some x) = f x"

lemma as_hash_VStr [simp]: "as_hash (VStr s) = (if hash_text s then Some s else None)"
  by (simp add: as_hash_def)

lemma as_hash_Some [reader_rules]: "as_hash v = Some s \<Longrightarrow> hash_text s"
  unfolding as_hash_def by (drule as_text_Some) simp

lemma as_transaction_VStr [simp]: "as_transaction (VStr s) = (if zenon_transaction s then Some s else None)"
  by (simp add: as_transaction_def)

lemma as_transaction_Some [reader_rules]: "as_transaction v = Some s \<Longrightarrow> zenon_transaction s"
  unfolding as_transaction_def by (drule as_text_Some) simp

lemma identifier_read [reader_rules]: "as_identifier v = Some s \<Longrightarrow> identifier_text s"
  by (drule as_identifier_Some) simp

lemma commitment_read [reader_rules]: "as_commitment v = Some s \<Longrightarrow> commitment_text s"
  by (drule as_commitment_Some) simp

lemma amount_read [reader_rules]: "as_text P v = Some s \<Longrightarrow> P s"
  by (drule as_text_Some) simp

lemmas count_read [reader_rules] = as_positive_Some as_count_Some

lemma nullable_VNull [simp]: "nullable read VNull = Some None"
  by (simp add: nullable_def)

lemma nullable_Some: "nullable read v = Some (Some x) \<Longrightarrow> read v = Some x"
  by (auto simp: nullable_def split: if_splits)

lemma nullable_copy:
  "(\<And>y. x = Some y \<Longrightarrow> read (js_of (f y)) = Some y) \<Longrightarrow> (\<And>y. x = Some y \<Longrightarrow> f y \<noteq> JNull)
    \<Longrightarrow> nullable read (js_of (json_option f x)) = Some x"
  by (cases x) (auto simp: nullable_def)

section \<open>Policies and profiles\<close>

record observer_policy =
  obp_policyId :: string
  obp_policyVersion :: int
  obp_verifierVersion :: int

definition observer_policy_ok :: "observer_policy \<Rightarrow> bool" where
  [reader_defs]: "observer_policy_ok p \<longleftrightarrow> identifier_text (obp_policyId p) \<and> positive_safe (obp_policyVersion p)
     \<and> positive_safe (obp_verifierVersion p)"

definition normalize_observer_policy :: "jsval \<Rightarrow> observer_policy option" where
  [reader_defs]: "normalize_observer_policy input = do {
     v \<leftarrow> exact_fields [''policyId'', ''policyVersion'', ''verifierVersion''] input;
     policyId \<leftarrow> as_identifier (field ''policyId'' v);
     policyVersion \<leftarrow> as_positive (field ''policyVersion'' v);
     verifierVersion \<leftarrow> as_positive (field ''verifierVersion'' v);
     Some \<lparr>obp_policyId = policyId, obp_policyVersion = policyVersion, obp_verifierVersion = verifierVersion\<rparr>
   }"

definition observer_policy_json :: "observer_policy \<Rightarrow> json" where
  [image_defs]: "observer_policy_json p = JObj [(''policyId'', JStr (obp_policyId p)),
     (''policyVersion'', JNum (obp_policyVersion p)), (''verifierVersion'', JNum (obp_verifierVersion p))]"

record authority_generation =
  ag_generationId :: string
  ag_generationVersion :: int
  ag_commitment :: string

definition generation_ok :: "authority_generation \<Rightarrow> bool" where
  [reader_defs]: "generation_ok g \<longleftrightarrow> identifier_text (ag_generationId g) \<and> positive_safe (ag_generationVersion g)
     \<and> commitment_text (ag_commitment g)"

definition normalize_generation :: "jsval \<Rightarrow> authority_generation option" where
  [reader_defs]: "normalize_generation input = do {
     v \<leftarrow> exact_fields [''generationId'', ''generationVersion'', ''generationCommitment''] input;
     generationId \<leftarrow> as_identifier (field ''generationId'' v);
     generationVersion \<leftarrow> as_positive (field ''generationVersion'' v);
     generationCommitment \<leftarrow> as_commitment (field ''generationCommitment'' v);
     Some \<lparr>ag_generationId = generationId, ag_generationVersion = generationVersion,
       ag_commitment = generationCommitment\<rparr>
   }"

definition generation_json :: "authority_generation \<Rightarrow> json" where
  [image_defs]: "generation_json g = JObj [(''generationId'', JStr (ag_generationId g)),
     (''generationVersion'', JNum (ag_generationVersion g)), (''generationCommitment'', JStr (ag_commitment g))]"

definition chain_ok :: "chain_profile \<Rightarrow> bool" where
  [reader_defs]: "chain_ok c \<longleftrightarrow> sdk_safe_chain_identifier (cp_chainIdentifier c) \<and> hash_text (cp_genesisMomentumHash c)"

definition normalize_chain_profile :: "jsval \<Rightarrow> chain_profile option" where
  [reader_defs]: "normalize_chain_profile input = do {
     v \<leftarrow> exact_fields [''version'', ''chainIdentifier'', ''genesisMomentumHash''] input;
     guard (field ''version'' v = num 1);
     chainIdentifier \<leftarrow> as_text sdk_safe_chain_identifier (field ''chainIdentifier'' v);
     genesisMomentumHash \<leftarrow> as_hash (field ''genesisMomentumHash'' v);
     Some \<lparr>cp_chainIdentifier = chainIdentifier, cp_genesisMomentumHash = genesisMomentumHash\<rparr>
   }"

definition confirmation_ok :: "confirmation_policy \<Rightarrow> bool" where
  [reader_defs]: "confirmation_ok p \<longleftrightarrow> identifier_text (cf_policyId p) \<and> positive_safe (cf_policyVersion p)
     \<and> positive_safe (cf_minimumConfirmations p)"

definition normalize_confirmation_policy :: "jsval \<Rightarrow> confirmation_policy option" where
  [reader_defs]: "normalize_confirmation_policy input = do {
     v \<leftarrow> exact_fields [''policyId'', ''policyVersion'', ''minimumConfirmations''] input;
     policyId \<leftarrow> as_identifier (field ''policyId'' v);
     policyVersion \<leftarrow> as_positive (field ''policyVersion'' v);
     minimumConfirmations \<leftarrow> as_positive (field ''minimumConfirmations'' v);
     Some \<lparr>cf_policyId = policyId, cf_policyVersion = policyVersion, cf_minimumConfirmations = minimumConfirmations\<rparr>
   }"

record checkpoint =
  ck_height :: int
  ck_hash :: string

definition checkpoint_ok :: "checkpoint \<Rightarrow> bool" where
  [reader_defs]: "checkpoint_ok c \<longleftrightarrow> count_safe (ck_height c) \<and> hash_text (ck_hash c)"

definition normalize_checkpoint :: "jsval \<Rightarrow> checkpoint option" where
  [reader_defs]: "normalize_checkpoint input = do {
     v \<leftarrow> exact_fields [''height'', ''hash''] input;
     height \<leftarrow> as_count (field ''height'' v);
     hash \<leftarrow> as_hash (field ''hash'' v);
     Some \<lparr>ck_height = height, ck_hash = hash\<rparr>
   }"

definition checkpoint_json :: "checkpoint \<Rightarrow> json" where
  [image_defs]: "checkpoint_json c = JObj [(''height'', JNum (ck_height c)), (''hash'', JStr (ck_hash c))]"

text \<open>\<open>normalizeCatchUpConfiguration\<close>, bounded by \<open>MAX_PAGE_ENTRIES\<close>, \<open>MAX_BACKFILL_SPAN\<close> and \<open>MAX_MEMBERS_PER_MOMENTUM\<close>.\<close>

record catch_up =
  cu_pageEntries :: int
  cu_backfillSpan :: int
  cu_momentumMembers :: int

definition catch_up_ok :: "catch_up \<Rightarrow> bool" where
  [reader_defs]: "catch_up_ok c \<longleftrightarrow> 0 < cu_pageEntries c \<and> cu_pageEntries c \<le> 64 \<and> 0 < cu_backfillSpan c
     \<and> cu_backfillSpan c \<le> 4096 \<and> 0 < cu_momentumMembers c \<and> cu_momentumMembers c \<le> 256"

definition catch_up_fields :: "string list" where
  [reader_defs]: "catch_up_fields = [''maximumPageEntries'', ''maximumBackfillSpan'', ''maximumMembersPerMomentum'']"

definition read_catch_up :: "fields \<Rightarrow> catch_up option" where
  [reader_defs]: "read_catch_up v = do {
     pageEntries \<leftarrow> as_positive (field ''maximumPageEntries'' v);
     backfillSpan \<leftarrow> as_positive (field ''maximumBackfillSpan'' v);
     momentumMembers \<leftarrow> as_positive (field ''maximumMembersPerMomentum'' v);
     guard (pageEntries \<le> 64 \<and> backfillSpan \<le> 4096 \<and> momentumMembers \<le> 256);
     Some \<lparr>cu_pageEntries = pageEntries, cu_backfillSpan = backfillSpan, cu_momentumMembers = momentumMembers\<rparr>
   }"

definition normalize_catch_up :: "jsval \<Rightarrow> catch_up option" where
  [reader_defs]: "normalize_catch_up input = do {
     v \<leftarrow> exact_fields catch_up_fields input;
     read_catch_up v
   }"

definition catch_up_members :: "catch_up \<Rightarrow> (string \<times> json) list" where
  [image_defs]: "catch_up_members c = [(''maximumPageEntries'', JNum (cu_pageEntries c)),
     (''maximumBackfillSpan'', JNum (cu_backfillSpan c)), (''maximumMembersPerMomentum'', JNum (cu_momentumMembers c))]"

definition normalize_version_height :: "jsval \<Rightarrow> int option option" where
  [reader_defs]: "normalize_version_height v = nullable as_positive v"

text \<open>\<open>normalizeMomentumVersionBounds\<close>: the highest height seen with version 1 and the lowest with version 2.\<close>

definition version_conflict :: "int option \<Rightarrow> int option \<Rightarrow> bool" where
  "version_conflict maxV1 minV2 = (case (maxV1, minV2) of (Some a, Some b) \<Rightarrow> b \<le> a | _ \<Rightarrow> False)"

definition normalize_version_bounds :: "jsval \<Rightarrow> jsval \<Rightarrow> (int option \<times> int option) option" where
  [reader_defs]: "normalize_version_bounds v1 v2 = do {
     maxV1 \<leftarrow> normalize_version_height v1;
     minV2 \<leftarrow> normalize_version_height v2;
     guard (\<not> version_conflict maxV1 minV2);
     Some (maxV1, minV2)
   }"

definition version_bounds_ok :: "int option \<Rightarrow> int option \<Rightarrow> bool" where
  "version_bounds_ok maxV1 minV2 \<longleftrightarrow> \<not> version_conflict maxV1 minV2
     \<and> (\<forall>n \<in> set_option maxV1 \<union> set_option minV2. positive_safe n)"

text \<open>What is read is well-formed, and well-formed values are read back from their images.\<close>

lemma policies_read [reader_rules]:
  "normalize_observer_policy v = Some p \<Longrightarrow> observer_policy_ok p"
  "normalize_generation v = Some g \<Longrightarrow> generation_ok g"
  "normalize_chain_profile v = Some c \<Longrightarrow> chain_ok c"
  "normalize_confirmation_policy v = Some f \<Longrightarrow> confirmation_ok f"
  "normalize_checkpoint v = Some k \<Longrightarrow> checkpoint_ok k"
  by (auto simp: reader_defs bind_eq_Some_conv intro: reader_rules)

lemma catch_up_read [reader_rules]: "read_catch_up fs = Some c \<Longrightarrow> catch_up_ok c"
  by (auto simp: reader_defs bind_eq_Some_conv positive_safe_def dest!: as_positive_Some)

lemma version_bounds_read [reader_rules]:
  "normalize_version_bounds v w = Some (m, n) \<Longrightarrow> version_bounds_ok m n"
  by (auto simp: reader_defs bind_eq_Some_conv version_bounds_ok_def dest!: nullable_Some intro: reader_rules)

lemma policies_copy [simp]:
  "observer_policy_ok p \<Longrightarrow> normalize_observer_policy (js_of (observer_policy_json p)) = Some p"
  "generation_ok g \<Longrightarrow> normalize_generation (js_of (generation_json g)) = Some g"
  "chain_ok c \<Longrightarrow> normalize_chain_profile (js_of (chain_profile_json c)) = Some c"
  "confirmation_ok f \<Longrightarrow> normalize_confirmation_policy (js_of (confirmation_policy_json f)) = Some f"
  "checkpoint_ok k \<Longrightarrow> normalize_checkpoint (js_of (checkpoint_json k)) = Some k"
  by (simp_all add: reader_defs image_defs chain_profile_json_def confirmation_policy_json_def exact_fields_obj)

lemma catch_up_copy: "catch_up_ok c \<Longrightarrow> normalize_catch_up (js_of (JObj (catch_up_members c))) = Some c"
  by (simp add: reader_defs image_defs exact_fields_obj positive_safe_def max_safe_def)

section \<open>The target\<close>

record funding_target =
  tg_transactionId :: string
  tg_payer :: string
  tg_payee :: string
  tg_asset :: string
  tg_amount :: string
  tg_providerId :: string
  tg_serviceId :: string
  tg_resourceId :: string
  tg_resourceBinding :: string
  tg_paymentResourceDigest :: string
  tg_paymentRequirementDigest :: string
  tg_paymentIntentDigest :: string
  tg_offerId :: string
  tg_offerVersion :: int
  tg_fundingPolicyId :: string
  tg_fundingPolicyVersion :: int
  tg_capabilityCommitment :: string
  tg_totalUnits :: int
  tg_expiresAt :: int
  tg_grantFundingCommitment :: string

definition target_fields :: "string list" where
  [reader_defs]: "target_fields = [
     ''transactionId'', ''payer'', ''payee'', ''asset'', ''amount'', ''scheme'', ''paymentFlow'',
     ''settlement'', ''network'', ''providerId'', ''serviceId'', ''resourceId'', ''resourceBinding'',
     ''paymentResourceDigest'', ''paymentRequirementDigest'', ''paymentIntentDigest'', ''offerId'',
     ''offerVersion'', ''fundingPolicyId'', ''fundingPolicyVersion'', ''capabilityCommitment'',
     ''totalUnits'', ''expiresAt'', ''grantFundingCommitment'']"

definition target_ok :: "funding_target \<Rightarrow> bool" where
  [reader_defs]: "target_ok t \<longleftrightarrow>
     zenon_transaction (tg_transactionId t) \<and> identifier_text (tg_payer t) \<and>
     identifier_text (tg_payee t) \<and> identifier_text (tg_asset t) \<and>
     identifier_text (tg_providerId t) \<and> identifier_text (tg_serviceId t) \<and>
     identifier_text (tg_resourceId t) \<and> identifier_text (tg_offerId t) \<and>
     identifier_text (tg_fundingPolicyId t) \<and> zenon_amount (tg_amount t) \<and>
     commitment_text (tg_resourceBinding t) \<and> commitment_text (tg_paymentResourceDigest t) \<and>
     commitment_text (tg_paymentRequirementDigest t) \<and>
     commitment_text (tg_paymentIntentDigest t) \<and>
     commitment_text (tg_capabilityCommitment t) \<and>
     commitment_text (tg_grantFundingCommitment t) \<and> positive_safe (tg_offerVersion t) \<and>
     positive_safe (tg_fundingPolicyVersion t) \<and> positive_safe (tg_totalUnits t) \<and>
     positive_safe (tg_expiresAt t)"

definition normalize_target :: "jsval \<Rightarrow> funding_target option" where
  [reader_defs]: "normalize_target input = do {
     v \<leftarrow> exact_fields target_fields input;
     transactionId \<leftarrow> as_transaction (field ''transactionId'' v);
     payer \<leftarrow> as_identifier (field ''payer'' v);
     payee \<leftarrow> as_identifier (field ''payee'' v);
     asset \<leftarrow> as_identifier (field ''asset'' v);
     providerId \<leftarrow> as_identifier (field ''providerId'' v);
     serviceId \<leftarrow> as_identifier (field ''serviceId'' v);
     resourceId \<leftarrow> as_identifier (field ''resourceId'' v);
     offerId \<leftarrow> as_identifier (field ''offerId'' v);
     fundingPolicyId \<leftarrow> as_identifier (field ''fundingPolicyId'' v);
     amount \<leftarrow> as_text zenon_amount (field ''amount'' v);
     guard (field ''scheme'' v = VStr ''exact'' \<and> field ''paymentFlow'' v = VStr ''upfront''
       \<and> field ''settlement'' v = VStr ''account-block'' \<and> field ''network'' v = VStr ''zenon:testnet'');
     resourceBinding \<leftarrow> as_commitment (field ''resourceBinding'' v);
     paymentResourceDigest \<leftarrow> as_commitment (field ''paymentResourceDigest'' v);
     paymentRequirementDigest \<leftarrow> as_commitment (field ''paymentRequirementDigest'' v);
     paymentIntentDigest \<leftarrow> as_commitment (field ''paymentIntentDigest'' v);
     capabilityCommitment \<leftarrow> as_commitment (field ''capabilityCommitment'' v);
     grantFundingCommitment \<leftarrow> as_commitment (field ''grantFundingCommitment'' v);
     offerVersion \<leftarrow> as_positive (field ''offerVersion'' v);
     fundingPolicyVersion \<leftarrow> as_positive (field ''fundingPolicyVersion'' v);
     totalUnits \<leftarrow> as_positive (field ''totalUnits'' v);
     expiresAt \<leftarrow> as_positive (field ''expiresAt'' v);
     Some \<lparr>
       tg_transactionId = transactionId, tg_payer = payer, tg_payee = payee, tg_asset = asset,
       tg_amount = amount, tg_providerId = providerId, tg_serviceId = serviceId,
       tg_resourceId = resourceId, tg_resourceBinding = resourceBinding,
       tg_paymentResourceDigest = paymentResourceDigest,
       tg_paymentRequirementDigest = paymentRequirementDigest,
       tg_paymentIntentDigest = paymentIntentDigest, tg_offerId = offerId,
       tg_offerVersion = offerVersion, tg_fundingPolicyId = fundingPolicyId,
       tg_fundingPolicyVersion = fundingPolicyVersion, tg_capabilityCommitment = capabilityCommitment,
       tg_totalUnits = totalUnits, tg_expiresAt = expiresAt,
       tg_grantFundingCommitment = grantFundingCommitment\<rparr>
   }"

definition target_json :: "funding_target \<Rightarrow> json" where
  [image_defs]: "target_json t = JObj [
     (''transactionId'', JStr (tg_transactionId t)), (''payer'', JStr (tg_payer t)),
     (''payee'', JStr (tg_payee t)), (''asset'', JStr (tg_asset t)), (''amount'', JStr (tg_amount t)),
     (''scheme'', JStr ''exact''), (''paymentFlow'', JStr ''upfront''),
     (''settlement'', JStr ''account-block''), (''network'', JStr ''zenon:testnet''),
     (''providerId'', JStr (tg_providerId t)), (''serviceId'', JStr (tg_serviceId t)),
     (''resourceId'', JStr (tg_resourceId t)), (''resourceBinding'', JStr (tg_resourceBinding t)),
     (''paymentResourceDigest'', JStr (tg_paymentResourceDigest t)),
     (''paymentRequirementDigest'', JStr (tg_paymentRequirementDigest t)),
     (''paymentIntentDigest'', JStr (tg_paymentIntentDigest t)), (''offerId'', JStr (tg_offerId t)),
     (''offerVersion'', JNum (tg_offerVersion t)), (''fundingPolicyId'', JStr (tg_fundingPolicyId t)),
     (''fundingPolicyVersion'', JNum (tg_fundingPolicyVersion t)),
     (''capabilityCommitment'', JStr (tg_capabilityCommitment t)),
     (''totalUnits'', JNum (tg_totalUnits t)), (''expiresAt'', JNum (tg_expiresAt t)),
     (''grantFundingCommitment'', JStr (tg_grantFundingCommitment t))]"

lemma target_read [reader_rules]: "normalize_target v = Some t \<Longrightarrow> target_ok t"
  by (auto simp: reader_defs bind_eq_Some_conv intro: reader_rules)

lemma target_copy [simp]: "target_ok t \<Longrightarrow> normalize_target (js_of (target_json t)) = Some t"
  by (simp add: reader_defs image_defs exact_fields_obj)

end
