(* ===== verification/Observer_Receipts.thy ===== *)
theory Observer_Receipts
  imports Observer_Data
begin

text \<open>
  What the funding observer stores of a page of momentums
  (\<open>src/src/service-credit-zenon-funding-observer-state.js\<close>): the receipt of the last applied page, the
  inclusion of the target, the first time the confirmation threshold was reached; their commitments,
  and \<open>validatePageReceipt\<close>, which recomputes the plan and page digests and the links of the lineage.
\<close>

section \<open>Commitments\<close>

text \<open>\<open>commitment\<close>: SHA-256 over a domain, a zero byte and the canonical text.\<close>

definition domain_commitment :: "(string \<Rightarrow> string) \<Rightarrow> string \<Rightarrow> json \<Rightarrow> string" where
  "domain_commitment sha domain v = ''sha256:'' @ sha (domain @ [char_of (0::nat)] @ canonical_json v)"

definition observer_record_domain :: string where
  "observer_record_domain = ''zenon-x402-funding-observer-record-v2''"

definition target_binding_domain :: string where
  "target_binding_domain = ''zenon-x402-funding-observer-target-v1''"

definition plan_domain :: string where
  "plan_domain = ''zenon-x402-funding-observer-backfill-plan-v1''"

definition page_domain :: string where
  "page_domain = ''zenon-x402-funding-observer-page-v1''"

definition inclusion_domain :: string where
  "inclusion_domain = ''zenon-x402-funding-observer-inclusion-v1''"

lemma domain_commitment_ok [simp]: "hex_digest sha \<Longrightarrow> commitment_text (domain_commitment sha d v)"
  unfolding domain_commitment_def commitment_text_def prefixed_hex64_append by (simp add: hex_digest_def)

definition observer_record_id :: "(string \<Rightarrow> string) \<Rightarrow> observer_policy \<Rightarrow> authority_generation \<Rightarrow> chain_profile
    \<Rightarrow> confirmation_policy \<Rightarrow> string \<Rightarrow> string" where
  "observer_record_id sha p g c f transactionId = domain_commitment sha observer_record_domain (JObj [
     (''schemaVersion'', JNum 2), (''observerPolicy'', observer_policy_json p),
     (''authorityGeneration'', generation_json g), (''chainProfile'', chain_profile_json c),
     (''confirmationPolicy'', confirmation_policy_json f), (''transactionId'', JStr transactionId)])"

definition target_binding :: "(string \<Rightarrow> string) \<Rightarrow> funding_target \<Rightarrow> string" where
  "target_binding sha t = domain_commitment sha target_binding_domain (target_json t)"

definition inclusion_authorization_id :: "(string \<Rightarrow> string) \<Rightarrow> string \<Rightarrow> string \<Rightarrow> int \<Rightarrow> string \<Rightarrow> int \<Rightarrow> string" where
  "inclusion_authorization_id sha recordId transactionId height hash threshold =
     domain_commitment sha inclusion_domain (JObj [(''observerRecordId'', JStr recordId),
       (''transactionId'', JStr transactionId), (''momentumHeight'', JNum height),
       (''momentumHash'', JStr hash), (''threshold'', JNum threshold)])"

text \<open>The context every observation names: \<open>normalizeContext\<close> and \<open>contextMatches\<close>.\<close>

record observer_context =
  cx_recordId :: string
  cx_binding :: string
  cx_generation :: authority_generation
  cx_chain :: chain_profile

definition context_ok :: "observer_context \<Rightarrow> bool" where
  [reader_defs]: "context_ok c \<longleftrightarrow> commitment_text (cx_recordId c) \<and> commitment_text (cx_binding c)
     \<and> generation_ok (cx_generation c) \<and> chain_ok (cx_chain c)"

definition read_context :: "fields \<Rightarrow> observer_context option" where
  [reader_defs]: "read_context v = do {
     recordId \<leftarrow> as_commitment (field ''observerRecordId'' v);
     binding \<leftarrow> as_commitment (field ''targetBindingDigest'' v);
     generation \<leftarrow> normalize_generation (field ''authorityGeneration'' v);
     chain \<leftarrow> normalize_chain_profile (field ''chainProfile'' v);
     Some \<lparr>cx_recordId = recordId, cx_binding = binding, cx_generation = generation, cx_chain = chain\<rparr>
   }"

definition context_members :: "observer_context \<Rightarrow> (string \<times> json) list" where
  [image_defs]: "context_members c = [(''observerRecordId'', JStr (cx_recordId c)),
     (''targetBindingDigest'', JStr (cx_binding c)), (''authorityGeneration'', generation_json (cx_generation c)),
     (''chainProfile'', chain_profile_json (cx_chain c))]"

definition context_matches :: "observer_context \<Rightarrow> observer_context \<Rightarrow> bool" where
  "context_matches own given \<longleftrightarrow> cx_recordId given = cx_recordId own \<and> cx_binding given = cx_binding own
     \<and> same_json (generation_json (cx_generation given)) (generation_json (cx_generation own))
     \<and> same_json (chain_profile_json (cx_chain given)) (chain_profile_json (cx_chain own))"

section \<open>Memberships, lineages and page receipts\<close>

record membership =
  mb_transactionId :: string
  mb_binding :: string
  mb_height :: int
  mb_hash :: string

definition membership_ok :: "membership \<Rightarrow> bool" where
  [reader_defs]: "membership_ok m \<longleftrightarrow> zenon_transaction (mb_transactionId m) \<and> commitment_text (mb_binding m)
     \<and> positive_safe (mb_height m) \<and> hash_text (mb_hash m)"

definition membership_fields :: "string list" where
  [reader_defs]: "membership_fields = [''transactionId'', ''targetBindingDigest'', ''momentumHeight'', ''momentumHash'']"

definition read_membership :: "fields \<Rightarrow> membership option" where
  [reader_defs]: "read_membership v = do {
     transactionId \<leftarrow> as_transaction (field ''transactionId'' v);
     binding \<leftarrow> as_commitment (field ''targetBindingDigest'' v);
     height \<leftarrow> as_positive (field ''momentumHeight'' v);
     hash \<leftarrow> as_hash (field ''momentumHash'' v);
     Some \<lparr>mb_transactionId = transactionId, mb_binding = binding, mb_height = height, mb_hash = hash\<rparr>
   }"

definition normalize_membership :: "jsval \<Rightarrow> membership option" where
  [reader_defs]: "normalize_membership input = do {
     v \<leftarrow> exact_fields membership_fields input;
     read_membership v
   }"

definition membership_members :: "membership \<Rightarrow> (string \<times> json) list" where
  [image_defs]: "membership_members m = [(''transactionId'', JStr (mb_transactionId m)),
     (''targetBindingDigest'', JStr (mb_binding m)), (''momentumHeight'', JNum (mb_height m)),
     (''momentumHash'', JStr (mb_hash m))]"

definition membership_json :: "membership \<Rightarrow> json" where
  [image_defs]: "membership_json m = JObj (membership_members m)"

record lineage_entry =
  le_height :: int
  le_hash :: string
  le_previousHash :: string

definition entry_ok :: "lineage_entry \<Rightarrow> bool" where
  [reader_defs]: "entry_ok e \<longleftrightarrow> positive_safe (le_height e) \<and> hash_text (le_hash e) \<and> hash_text (le_previousHash e)"

definition normalize_entry :: "jsval \<Rightarrow> lineage_entry option" where
  [reader_defs]: "normalize_entry input = do {
     v \<leftarrow> exact_fields [''height'', ''hash'', ''previousHash''] input;
     height \<leftarrow> as_positive (field ''height'' v);
     hash \<leftarrow> as_hash (field ''hash'' v);
     previousHash \<leftarrow> as_hash (field ''previousHash'' v);
     Some \<lparr>le_height = height, le_hash = hash, le_previousHash = previousHash\<rparr>
   }"

definition entry_json :: "lineage_entry \<Rightarrow> json" where
  [image_defs]: "entry_json e = JObj [(''height'', JNum (le_height e)), (''hash'', JStr (le_hash e)),
     (''previousHash'', JStr (le_previousHash e))]"

text \<open>The elements of an array of a detached copy.\<close>

fun array_elements :: "jsval \<Rightarrow> jsval list option" where
  "array_elements (VArray form props) = all_some (map data_value props)"
| "array_elements _ = None"

record page_receipt =
  rc_planId :: string
  rc_pageDigest :: string
  rc_start :: checkpoint
  rc_end :: checkpoint
  rc_frontier :: checkpoint
  rc_count :: int
  rc_lineage :: "lineage_entry list"
  rc_membership :: "membership option"
  rc_threshold :: "checkpoint option"

definition page_receipt_fields :: "string list" where
  [reader_defs]: "page_receipt_fields = [''planId'', ''pageDigest'', ''startCheckpoint'', ''endCheckpoint'', ''frontier'',
     ''entryCount'', ''lineage'', ''targetMembership'', ''thresholdCheckpoint'']"

definition receipt_shape :: "checkpoint \<Rightarrow> checkpoint \<Rightarrow> checkpoint \<Rightarrow> int \<Rightarrow> nat \<Rightarrow> bool" where
  [reader_defs]: "receipt_shape start final frontier entryCount entries \<longleftrightarrow> ck_height start < ck_height final
     \<and> ck_height final - ck_height start = entryCount \<and> ck_height final \<le> ck_height frontier
     \<and> int entries = entryCount \<and> entries \<le> 64"

text \<open>\<open>normalizeLastAppliedPage\<close> of a value other than \<open>null\<close>.\<close>

definition normalize_receipt :: "jsval \<Rightarrow> page_receipt option" where
  [reader_defs]: "normalize_receipt input = do {
     v \<leftarrow> exact_fields page_receipt_fields input;
     planId \<leftarrow> as_commitment (field ''planId'' v);
     pageDigest \<leftarrow> as_commitment (field ''pageDigest'' v);
     start \<leftarrow> normalize_checkpoint (field ''startCheckpoint'' v);
     final \<leftarrow> normalize_checkpoint (field ''endCheckpoint'' v);
     frontier \<leftarrow> normalize_checkpoint (field ''frontier'' v);
     entryCount \<leftarrow> as_positive (field ''entryCount'' v);
     items \<leftarrow> array_elements (field ''lineage'' v);
     guard (receipt_shape start final frontier entryCount (length items));
     lineage \<leftarrow> all_some (map normalize_entry items);
     targetMembership \<leftarrow> nullable normalize_membership (field ''targetMembership'' v);
     threshold \<leftarrow> nullable normalize_checkpoint (field ''thresholdCheckpoint'' v);
     Some \<lparr>rc_planId = planId, rc_pageDigest = pageDigest, rc_start = start, rc_end = final,
       rc_frontier = frontier, rc_count = entryCount, rc_lineage = lineage, rc_membership = targetMembership,
       rc_threshold = threshold\<rparr>
   }"

definition receipt_members :: "page_receipt \<Rightarrow> (string \<times> json) list" where
  [image_defs]: "receipt_members r = [(''planId'', JStr (rc_planId r)),
     (''startCheckpoint'', checkpoint_json (rc_start r)), (''endCheckpoint'', checkpoint_json (rc_end r)),
     (''frontier'', checkpoint_json (rc_frontier r)), (''entryCount'', JNum (rc_count r)),
     (''lineage'', JArr (map entry_json (rc_lineage r))),
     (''targetMembership'', json_option membership_json (rc_membership r))]"

definition receipt_json :: "page_receipt \<Rightarrow> json" where
  [image_defs]: "receipt_json r = JObj [(''planId'', JStr (rc_planId r)), (''pageDigest'', JStr (rc_pageDigest r)),
     (''startCheckpoint'', checkpoint_json (rc_start r)), (''endCheckpoint'', checkpoint_json (rc_end r)),
     (''frontier'', checkpoint_json (rc_frontier r)), (''entryCount'', JNum (rc_count r)),
     (''lineage'', JArr (map entry_json (rc_lineage r))),
     (''targetMembership'', json_option membership_json (rc_membership r)),
     (''thresholdCheckpoint'', json_option checkpoint_json (rc_threshold r))]"

definition receipt_ok :: "page_receipt \<Rightarrow> bool" where
  [reader_defs]: "receipt_ok r \<longleftrightarrow> commitment_text (rc_planId r) \<and> commitment_text (rc_pageDigest r)
     \<and> checkpoint_ok (rc_start r) \<and> checkpoint_ok (rc_end r) \<and> checkpoint_ok (rc_frontier r)
     \<and> positive_safe (rc_count r)
     \<and> receipt_shape (rc_start r) (rc_end r) (rc_frontier r) (rc_count r) (length (rc_lineage r))
     \<and> (\<forall>e \<in> set (rc_lineage r). entry_ok e)
     \<and> (\<forall>m \<in> set_option (rc_membership r). membership_ok m)
     \<and> (\<forall>c \<in> set_option (rc_threshold r). checkpoint_ok c)"

lemma array_elements_arr [simp]: "array_elements (arr vs) = Some vs"
  by (simp add: arr_def comp_def)

lemma array_elements_js [simp]: "array_elements (js_of (JArr vs)) = Some (map js_of vs)"
  by simp

lemma all_read:
  assumes "all_some (map read vs) = Some xs" and "x \<in> set xs"
  shows "\<exists>v. read v = Some x"
proof -
  have "Some x \<in> set (map read vs)" using assms by (simp add: all_some_eq_Some)
  then show ?thesis by force
qed

lemma all_read_length: "all_some (map read vs) = Some xs \<Longrightarrow> length xs = length vs"
  by (metis all_some_eq_Some length_map)

lemma all_copied: "(\<And>x. x \<in> set xs \<Longrightarrow> read (js_of (f x)) = Some x) \<Longrightarrow> all_some (map read (map js_of (map f xs))) = Some xs"
proof -
  assume "\<And>x. x \<in> set xs \<Longrightarrow> read (js_of (f x)) = Some x"
  then have "map read (map js_of (map f xs)) = map Some xs" by simp
  then show ?thesis by (simp only: all_some_eq_Some)
qed

lemma records_read [reader_rules]:
  "read_context fs = Some c \<Longrightarrow> context_ok c"
  "read_membership fs = Some m \<Longrightarrow> membership_ok m"
  "normalize_membership v = Some m \<Longrightarrow> membership_ok m"
  "normalize_entry v = Some e \<Longrightarrow> entry_ok e"
  by (auto simp: reader_defs bind_eq_Some_conv intro: reader_rules)

lemma nullable_read [reader_rules]:
  "nullable normalize_membership v = Some x \<Longrightarrow> m \<in> set_option x \<Longrightarrow> membership_ok m"
  "nullable normalize_checkpoint v = Some y \<Longrightarrow> c \<in> set_option y \<Longrightarrow> checkpoint_ok c"
  by (auto dest!: nullable_Some intro: reader_rules)

lemma receipt_read [reader_rules]: "normalize_receipt v = Some r \<Longrightarrow> receipt_ok r"
proof -
  assume "normalize_receipt v = Some r"
  then obtain fs planId pageDigest start final frontier entryCount items lineage membership threshold where
    read: "as_commitment (field ''planId'' fs) = Some planId" "as_commitment (field ''pageDigest'' fs) = Some pageDigest"
      "normalize_checkpoint (field ''startCheckpoint'' fs) = Some start"
      "normalize_checkpoint (field ''endCheckpoint'' fs) = Some final"
      "normalize_checkpoint (field ''frontier'' fs) = Some frontier" "as_positive (field ''entryCount'' fs) = Some entryCount"
      "all_some (map normalize_entry items) = Some lineage"
      "nullable normalize_membership (field ''targetMembership'' fs) = Some membership"
      "nullable normalize_checkpoint (field ''thresholdCheckpoint'' fs) = Some threshold"
    and shape: "receipt_shape start final frontier entryCount (length items)"
    and r: "r = \<lparr>rc_planId = planId, rc_pageDigest = pageDigest, rc_start = start, rc_end = final,
       rc_frontier = frontier, rc_count = entryCount, rc_lineage = lineage, rc_membership = membership,
       rc_threshold = threshold\<rparr>"
    by (auto simp: normalize_receipt_def bind_eq_Some_conv)
  have "entry_ok e" if "e \<in> set lineage" for e
    using all_read [OF read(7) that] by (auto intro: reader_rules)
  then show ?thesis
    using read shape all_read_length [OF read(7)] unfolding receipt_ok_def r
    by (auto intro: reader_rules)
qed

lemma records_copy [simp]:
  "context_ok c \<Longrightarrow> read_context (js_members (context_members c)) = Some c"
  "membership_ok m \<Longrightarrow> normalize_membership (js_of (membership_json m)) = Some m"
  "entry_ok e \<Longrightarrow> normalize_entry (js_of (entry_json e)) = Some e"
proof -
  show "context_ok c \<Longrightarrow> read_context (js_members (context_members c)) = Some c"
    by (simp add: context_ok_def read_context_def context_members_def)
qed (simp_all add: reader_defs image_defs exact_fields_obj)

lemma images_not_null [simp]: "membership_json m \<noteq> JNull" "checkpoint_json c \<noteq> JNull"
  by (simp_all add: image_defs)

lemma optional_copy [simp]:
  "(\<And>m. x = Some m \<Longrightarrow> membership_ok m) \<Longrightarrow> nullable normalize_membership (js_of (json_option membership_json x)) = Some x"
  "(\<And>c. y = Some c \<Longrightarrow> checkpoint_ok c) \<Longrightarrow> nullable normalize_checkpoint (js_of (json_option checkpoint_json y)) = Some y"
  by (intro nullable_copy; simp)+

lemma receipt_copy [simp]: "receipt_ok r \<Longrightarrow> normalize_receipt (js_of (receipt_json r)) = Some r"
proof -
  assume r: "receipt_ok r"
  have "all_some (map normalize_entry (map js_of (map entry_json (rc_lineage r)))) = Some (rc_lineage r)"
    using r by (intro all_copied) (simp add: receipt_ok_def)
  then show ?thesis
    using r by (simp add: normalize_receipt_def receipt_json_def page_receipt_fields_def exact_fields_obj receipt_ok_def
        comp_def)
qed

section \<open>Inclusions, thresholds and quarantines\<close>

record inclusion =
  in_membership :: membership
  in_authorizationId :: string
  in_confirmations :: int

abbreviation in_height :: "inclusion \<Rightarrow> int" where
  "in_height i \<equiv> mb_height (in_membership i)"

definition inclusion_fields :: "string list" where
  "inclusion_fields = [''transactionId'', ''targetBindingDigest'', ''momentumHeight'', ''momentumHash'',
     ''inclusionAuthorizationId'', ''currentConfirmations'']"

definition authorized :: "(string \<Rightarrow> string) \<Rightarrow> string \<Rightarrow> int \<Rightarrow> membership \<Rightarrow> string" where
  "authorized sha recordId threshold m =
     inclusion_authorization_id sha recordId (mb_transactionId m) (mb_height m) (mb_hash m) threshold"

definition normalize_inclusion :: "(string \<Rightarrow> string) \<Rightarrow> string \<Rightarrow> int \<Rightarrow> jsval \<Rightarrow> inclusion option" where
  "normalize_inclusion sha recordId threshold input = do {
     v \<leftarrow> exact_fields inclusion_fields input;
     m \<leftarrow> read_membership v;
     authorizationId \<leftarrow> as_commitment (field ''inclusionAuthorizationId'' v);
     confirmations \<leftarrow> as_positive (field ''currentConfirmations'' v);
     guard (authorizationId = authorized sha recordId threshold m);
     Some \<lparr>in_membership = m, in_authorizationId = authorizationId, in_confirmations = confirmations\<rparr>
   }"

definition inclusion_ok :: "(string \<Rightarrow> string) \<Rightarrow> string \<Rightarrow> int \<Rightarrow> inclusion \<Rightarrow> bool" where
  "inclusion_ok sha recordId threshold i \<longleftrightarrow> membership_ok (in_membership i) \<and> positive_safe (in_confirmations i)
     \<and> in_authorizationId i = authorized sha recordId threshold (in_membership i)
     \<and> commitment_text (in_authorizationId i)"

definition inclusion_json :: "inclusion \<Rightarrow> json" where
  "inclusion_json i = JObj (membership_members (in_membership i) @
     [(''inclusionAuthorizationId'', JStr (in_authorizationId i)), (''currentConfirmations'', JNum (in_confirmations i))])"

record first_threshold =
  ft_checkpoint :: checkpoint
  ft_confirmations :: int
  ft_receipt :: page_receipt

definition normalize_first_threshold :: "jsval \<Rightarrow> first_threshold option" where
  "normalize_first_threshold input = do {
     v \<leftarrow> exact_fields [''checkpoint'', ''confirmations'', ''lineageReceipt''] input;
     checkpoint \<leftarrow> normalize_checkpoint (field ''checkpoint'' v);
     confirmations \<leftarrow> as_positive (field ''confirmations'' v);
     receipt \<leftarrow> normalize_receipt (field ''lineageReceipt'' v);
     Some \<lparr>ft_checkpoint = checkpoint, ft_confirmations = confirmations, ft_receipt = receipt\<rparr>
   }"

definition first_threshold_ok :: "first_threshold \<Rightarrow> bool" where
  "first_threshold_ok t \<longleftrightarrow> checkpoint_ok (ft_checkpoint t) \<and> positive_safe (ft_confirmations t) \<and> receipt_ok (ft_receipt t)"

definition first_threshold_json :: "first_threshold \<Rightarrow> json" where
  "first_threshold_json t = JObj [(''checkpoint'', checkpoint_json (ft_checkpoint t)),
     (''confirmations'', JNum (ft_confirmations t)), (''lineageReceipt'', receipt_json (ft_receipt t))]"

datatype quarantine_reason = CheckpointHashMismatch | ContextDrift | FrontierReplacement | InclusionDisappeared
  | InclusionTupleDrift | MembershipNotLinked | MomentumVersionConflict | PageGap | PageHeightConflict
  | PageMemberConflict | PageParentMismatch | PlanContextDrift | TargetBindingDrift

fun reason_text :: "quarantine_reason \<Rightarrow> string" where
  "reason_text CheckpointHashMismatch = ''CHECKPOINT_HASH_MISMATCH''"
| "reason_text ContextDrift = ''CONTEXT_DRIFT''"
| "reason_text FrontierReplacement = ''FRONTIER_REPLACEMENT''"
| "reason_text InclusionDisappeared = ''INCLUSION_DISAPPEARED''"
| "reason_text InclusionTupleDrift = ''INCLUSION_TUPLE_DRIFT''"
| "reason_text MembershipNotLinked = ''MEMBERSHIP_NOT_LINKED''"
| "reason_text MomentumVersionConflict = ''MOMENTUM_VERSION_CONFLICT''"
| "reason_text PageGap = ''PAGE_GAP''"
| "reason_text PageHeightConflict = ''PAGE_HEIGHT_CONFLICT''"
| "reason_text PageMemberConflict = ''PAGE_MEMBER_CONFLICT''"
| "reason_text PageParentMismatch = ''PAGE_PARENT_MISMATCH''"
| "reason_text PlanContextDrift = ''PLAN_CONTEXT_DRIFT''"
| "reason_text TargetBindingDrift = ''TARGET_BINDING_DRIFT''"

definition quarantine_reasons :: "quarantine_reason list" where
  "quarantine_reasons = [CheckpointHashMismatch, ContextDrift, FrontierReplacement, InclusionDisappeared,
     InclusionTupleDrift, MembershipNotLinked, MomentumVersionConflict, PageGap, PageHeightConflict,
     PageMemberConflict, PageParentMismatch, PlanContextDrift, TargetBindingDrift]"

definition normalize_quarantine :: "jsval \<Rightarrow> quarantine_reason option" where
  "normalize_quarantine input = do {
     v \<leftarrow> exact_fields [''reason''] input;
     find (\<lambda>r. field ''reason'' v = VStr (reason_text r)) quarantine_reasons
   }"

definition quarantine_json :: "quarantine_reason \<Rightarrow> json" where
  "quarantine_json r = JObj [(''reason'', JStr (reason_text r))]"

lemma inclusion_read: "normalize_inclusion sha r t v = Some i \<Longrightarrow> inclusion_ok sha r t i"
  by (auto simp: normalize_inclusion_def inclusion_ok_def bind_eq_Some_conv intro: reader_rules)

lemma inclusion_copy: "inclusion_ok sha r t i \<Longrightarrow> normalize_inclusion sha r t (js_of (inclusion_json i)) = Some i"
proof -
  assume i: "inclusion_ok sha r t i"
  have "read_membership (js_members (membership_members m @ xs)) = Some m" if "membership_ok m" for m xs
    using that by (simp add: read_membership_def membership_ok_def membership_members_def)
  moreover have "field ''inclusionAuthorizationId'' (js_members (membership_members m @ xs)) = field ''inclusionAuthorizationId'' (js_members xs)"
    "field ''currentConfirmations'' (js_members (membership_members m @ xs)) = field ''currentConfirmations'' (js_members xs)" for m xs
    by (simp_all add: membership_members_def)
  moreover have "map fst (js_members (membership_members m @ xs))
      = [''transactionId'', ''targetBindingDigest'', ''momentumHeight'', ''momentumHash''] @ map fst xs" for m xs
    by (simp add: membership_members_def js_members_def split_beta comp_def)
  ultimately show ?thesis
    using i by (simp add: normalize_inclusion_def inclusion_ok_def inclusion_json_def inclusion_fields_def exact_fields_obj
        del: js_members_simps(3)) (elim conjE, simp)
qed

lemma first_threshold_read: "normalize_first_threshold v = Some t \<Longrightarrow> first_threshold_ok t"
  by (auto simp: normalize_first_threshold_def first_threshold_ok_def bind_eq_Some_conv intro: reader_rules)

lemma first_threshold_copy: "first_threshold_ok t \<Longrightarrow> normalize_first_threshold (js_of (first_threshold_json t)) = Some t"
  by (simp add: normalize_first_threshold_def first_threshold_ok_def first_threshold_json_def exact_fields_obj)

lemma quarantine_copy [simp]: "normalize_quarantine (js_of (quarantine_json r)) = Some r"
  by (cases r) (simp_all add: normalize_quarantine_def quarantine_json_def exact_fields_obj quarantine_reasons_def)

section \<open>Validating a page receipt\<close>

definition plan_members :: "observer_context \<Rightarrow> checkpoint \<Rightarrow> checkpoint \<Rightarrow> int \<Rightarrow> int \<Rightarrow> int \<Rightarrow> (string \<times> json) list" where
  "plan_members cx start frontier fromHeight throughHeight entryCount =
     (''planVersion'', JNum 1) # context_members cx @ [(''startCheckpoint'', checkpoint_json start),
       (''frontier'', checkpoint_json frontier), (''fromHeight'', JNum fromHeight),
       (''throughHeight'', JNum throughHeight), (''entryCount'', JNum entryCount)]"

definition plan_id :: "(string \<Rightarrow> string) \<Rightarrow> observer_context \<Rightarrow> checkpoint \<Rightarrow> checkpoint \<Rightarrow> int \<Rightarrow> int \<Rightarrow> int \<Rightarrow> string" where
  "plan_id sha cx start frontier fromHeight throughHeight entryCount =
     domain_commitment sha plan_domain (JObj (plan_members cx start frontier fromHeight throughHeight entryCount))"

text \<open>\<open>pageReceiptDigest\<close>.\<close>

definition page_receipt_digest :: "(string \<Rightarrow> string) \<Rightarrow> observer_context \<Rightarrow> page_receipt \<Rightarrow> string" where
  "page_receipt_digest sha cx r = domain_commitment sha page_domain
     (JObj ((''pageVersion'', JNum 1) # context_members cx @ receipt_members r))"

text \<open>The last height a page may reach from a checkpoint.\<close>

definition bounded_through :: "catch_up \<Rightarrow> int \<Rightarrow> int \<Rightarrow> int" where
  "bounded_through cu start frontier = min frontier (min (start + cu_pageEntries cu) (start + cu_backfillSpan cu))"

text \<open>Entries with consecutive heights, each naming the hash of the one before.\<close>

fun linked :: "int \<Rightarrow> string \<Rightarrow> lineage_entry list \<Rightarrow> bool" where
  "linked height previous [] = True"
| "linked height previous (e # es) \<longleftrightarrow> le_height e = height + 1 \<and> le_previousHash e = previous
     \<and> linked (height + 1) (le_hash e) es"

text \<open>The search loops keep the last entry with the height.\<close>

fun entry_at :: "int \<Rightarrow> lineage_entry list \<Rightarrow> lineage_entry option" where
  "entry_at h [] = None"
| "entry_at h (e # es) = (case entry_at h es of Some x \<Rightarrow> Some x | None \<Rightarrow> if le_height e = h then Some e else None)"

definition membership_linked :: "string \<Rightarrow> string \<Rightarrow> page_receipt \<Rightarrow> membership \<Rightarrow> bool" where
  "membership_linked transactionId binding r m \<longleftrightarrow> mb_transactionId m = transactionId \<and> mb_binding m = binding
     \<and> ck_height (rc_start r) < mb_height m \<and> mb_height m \<le> ck_height (rc_end r)
     \<and> (case entry_at (mb_height m) (rc_lineage r) of None \<Rightarrow> False | Some e \<Rightarrow> mb_hash m = le_hash e)"

definition receipt_membership :: "page_receipt \<Rightarrow> inclusion option \<Rightarrow> membership option" where
  "receipt_membership r i = (case rc_membership r of Some m \<Rightarrow> Some m | None \<Rightarrow> map_option in_membership i)"

definition threshold_reached :: "int \<Rightarrow> page_receipt \<Rightarrow> inclusion option \<Rightarrow> bool" where
  "threshold_reached minimum r i = (case receipt_membership r i of None \<Rightarrow> False
     | Some m \<Rightarrow> minimum \<le> ck_height (rc_end r) - mb_height m + 1)"

definition validate_page_receipt :: "(string \<Rightarrow> string) \<Rightarrow> observer_context \<Rightarrow> int \<Rightarrow> string \<Rightarrow> catch_up \<Rightarrow> inclusion option
    \<Rightarrow> page_receipt \<Rightarrow> bool" where
  "validate_page_receipt sha cx minimum transactionId cu i r \<longleftrightarrow>
     rc_planId r = plan_id sha cx (rc_start r) (rc_frontier r) (ck_height (rc_start r) + 1) (ck_height (rc_end r)) (rc_count r)
     \<and> rc_pageDigest r = page_receipt_digest sha cx r
     \<and> ck_height (rc_end r) = bounded_through cu (ck_height (rc_start r)) (ck_height (rc_frontier r))
     \<and> int (length (rc_lineage r)) = rc_count r \<and> int (length (rc_lineage r)) \<le> cu_pageEntries cu
     \<and> (ck_height (rc_end r) = ck_height (rc_frontier r) \<longrightarrow> ck_hash (rc_end r) = ck_hash (rc_frontier r))
     \<and> linked (ck_height (rc_start r)) (ck_hash (rc_start r)) (rc_lineage r)
     \<and> le_height (last (rc_lineage r)) = ck_height (rc_end r) \<and> le_hash (last (rc_lineage r)) = ck_hash (rc_end r)
     \<and> (\<forall>m \<in> set_option (rc_membership r). membership_linked transactionId (cx_binding cx) r m)
     \<and> (\<forall>c \<in> set_option (rc_threshold r). threshold_reached minimum r i \<and> ck_height (rc_start r) < ck_height c
          \<and> same_json (checkpoint_json c) (checkpoint_json (rc_end r)))"

text \<open>Images determine their values, so \<open>sameJson\<close> compares values.\<close>

lemma same_checkpoint [simp]: "same_json (checkpoint_json a) (checkpoint_json b) \<longleftrightarrow> a = b"
proof
  assume eq: "same_json (checkpoint_json a) (checkpoint_json b)"
  note m = same_members [OF eq [unfolded same_json_iff checkpoint_json_def]]
  show "a = b" using m [of "''height''"] m [of "''hash''"] by simp
qed simp

lemma same_generation [simp]: "same_json (generation_json a) (generation_json b) \<longleftrightarrow> a = b"
proof
  assume eq: "same_json (generation_json a) (generation_json b)"
  note m = same_members [OF eq [unfolded same_json_iff generation_json_def]]
  show "a = b" using m [of "''generationId''"] m [of "''generationVersion''"] m [of "''generationCommitment''"] by simp
qed simp

lemma same_chain [simp]: "same_json (chain_profile_json a) (chain_profile_json b) \<longleftrightarrow> a = b"
  by (simp add: same_json_iff)

lemma context_matches_eq [simp]: "context_matches own given \<longleftrightarrow> given = own"
  by (auto simp: context_matches_def)

end
