(* ===== verification/Observer_State.thy ===== *)
theory Observer_State
  imports Observer_Receipts
begin

text \<open>
  The state of the funding observer and \<open>normalizeStateSnapshot\<close>
  (\<open>src/src/service-credit-zenon-funding-observer-state.js\<close>). The function reads every part of a stored
  state and then checks the parts against each other; the checks are the predicates of this theory,
  in the order of the source, and together they are the invariant of the observer: a state is
  accepted exactly if it satisfies them, and is then returned unchanged.
\<close>

datatype observer_status = AwaitingInclusion | IncludedBelowThreshold | ThresholdObserved | Quarantined

fun status_name :: "observer_status \<Rightarrow> string" where
  "status_name AwaitingInclusion = ''AWAITING_INCLUSION''"
| "status_name IncludedBelowThreshold = ''INCLUDED_BELOW_THRESHOLD''"
| "status_name ThresholdObserved = ''THRESHOLD_OBSERVED''"
| "status_name Quarantined = ''QUARANTINED''"

record observer_state =
  os_revision :: int
  os_policy :: observer_policy
  os_generation :: authority_generation
  os_recordId :: string
  os_chain :: chain_profile
  os_confirmation :: confirmation_policy
  os_target :: funding_target
  os_binding :: string
  os_checkpoint :: checkpoint
  os_catchUp :: catch_up
  os_lastPage :: "page_receipt option"
  os_maxV1 :: "int option"
  os_minV2 :: "int option"
  os_status :: observer_status
  os_inclusion :: "inclusion option"
  os_firstThreshold :: "first_threshold option"
  os_quarantine :: "quarantine_reason option"

definition own_context :: "observer_state \<Rightarrow> observer_context" where
  "own_context s = \<lparr>cx_recordId = os_recordId s, cx_binding = os_binding s, cx_generation = os_generation s,
     cx_chain = os_chain s\<rparr>"

abbreviation os_minimum :: "observer_state \<Rightarrow> int" where
  "os_minimum s \<equiv> cf_minimumConfirmations (os_confirmation s)"

abbreviation os_transactionId :: "observer_state \<Rightarrow> string" where
  "os_transactionId s \<equiv> tg_transactionId (os_target s)"

section \<open>The checks\<close>

definition identities_checked :: "(string \<Rightarrow> string) \<Rightarrow> observer_state \<Rightarrow> bool" where
  "identities_checked sha s \<longleftrightarrow>
     os_recordId s = observer_record_id sha (os_policy s) (os_generation s) (os_chain s) (os_confirmation s) (os_transactionId s)
     \<and> os_binding s = target_binding sha (os_target s)"

definition valid_receipt :: "(string \<Rightarrow> string) \<Rightarrow> observer_state \<Rightarrow> page_receipt \<Rightarrow> bool" where
  "valid_receipt sha s r \<longleftrightarrow> validate_page_receipt sha (own_context s) (os_minimum s) (os_transactionId s) (os_catchUp s)
     (os_inclusion s) r"

definition receipt_checked :: "(string \<Rightarrow> string) \<Rightarrow> observer_state \<Rightarrow> bool" where
  "receipt_checked sha s \<longleftrightarrow> (\<forall>r \<in> set_option (os_lastPage s).
     same_json (checkpoint_json (rc_end r)) (checkpoint_json (os_checkpoint s)) \<and> valid_receipt sha s r)"

definition inclusion_checked :: "observer_state \<Rightarrow> bool" where
  "inclusion_checked s \<longleftrightarrow> (\<forall>i \<in> set_option (os_inclusion s).
     mb_transactionId (in_membership i) = os_transactionId s \<and> mb_binding (in_membership i) = os_binding s
     \<and> in_height i \<le> ck_height (os_checkpoint s)
     \<and> in_confirmations i = ck_height (os_checkpoint s) - in_height i + 1)"

definition first_threshold_checked :: "(string \<Rightarrow> string) \<Rightarrow> observer_state \<Rightarrow> bool" where
  "first_threshold_checked sha s \<longleftrightarrow> (case os_firstThreshold s of
     None \<Rightarrow> (case os_inclusion s of None \<Rightarrow> True | Some i \<Rightarrow> in_confirmations i < os_minimum s)
   | Some t \<Rightarrow> (case os_inclusion s of
       None \<Rightarrow> False
     | Some i \<Rightarrow> ft_confirmations t = ck_height (ft_checkpoint t) - in_height i + 1
         \<and> os_minimum s \<le> ft_confirmations t \<and> ck_height (ft_checkpoint t) \<le> ck_height (os_checkpoint s)
         \<and> same_json (json_option checkpoint_json (rc_threshold (ft_receipt t))) (checkpoint_json (ft_checkpoint t))
         \<and> same_json (checkpoint_json (rc_end (ft_receipt t))) (checkpoint_json (ft_checkpoint t))
         \<and> valid_receipt sha s (ft_receipt t)
         \<and> (case receipt_membership (ft_receipt t) (Some i) of None \<Rightarrow> False | Some m \<Rightarrow> m = in_membership i)))"

text \<open>The last receipt carries a threshold checkpoint exactly when the source says it should.\<close>

definition threshold_receipt_checked :: "observer_state \<Rightarrow> bool" where
  "threshold_receipt_checked s \<longleftrightarrow> (\<forall>r \<in> set_option (os_lastPage s).
     (rc_threshold r \<noteq> None) = (case os_firstThreshold s of
        None \<Rightarrow> threshold_reached (os_minimum s) r (os_inclusion s)
      | Some t \<Rightarrow> same_json (receipt_json r) (receipt_json (ft_receipt t)))
     \<and> (\<forall>m \<in> set_option (rc_membership r). \<forall>i \<in> set_option (os_inclusion s).
          mb_height m = in_height i \<and> mb_hash m = mb_hash (in_membership i))
     \<and> (\<forall>c \<in> set_option (rc_threshold r). \<forall>t \<in> set_option (os_firstThreshold s).
          same_json (checkpoint_json c) (checkpoint_json (ft_checkpoint t))))"

definition status_checked :: "observer_state \<Rightarrow> bool" where
  "status_checked s \<longleftrightarrow> (case os_status s of
     AwaitingInclusion \<Rightarrow> os_inclusion s = None \<and> os_firstThreshold s = None \<and> os_quarantine s = None
   | IncludedBelowThreshold \<Rightarrow> (case os_inclusion s of None \<Rightarrow> False | Some i \<Rightarrow> in_confirmations i < os_minimum s)
       \<and> os_firstThreshold s = None \<and> os_quarantine s = None
   | ThresholdObserved \<Rightarrow> (case os_inclusion s of None \<Rightarrow> False | Some i \<Rightarrow> os_minimum s \<le> in_confirmations i)
       \<and> os_firstThreshold s \<noteq> None \<and> os_quarantine s = None
   | Quarantined \<Rightarrow> os_quarantine s \<noteq> None \<and> (case os_inclusion s of None \<Rightarrow> os_firstThreshold s = None
       | Some i \<Rightarrow> in_confirmations i < os_minimum s \<longrightarrow> os_firstThreshold s = None))"

definition state_checked :: "(string \<Rightarrow> string) \<Rightarrow> observer_state \<Rightarrow> bool" where
  "state_checked sha s \<longleftrightarrow> identities_checked sha s \<and> receipt_checked sha s \<and> inclusion_checked s
     \<and> first_threshold_checked sha s \<and> threshold_receipt_checked s \<and> status_checked s"

section \<open>Reading a state\<close>

definition observer_state_fields :: "string list" where
  "observer_state_fields = [''schemaVersion'', ''revision'', ''observerPolicy'', ''authorityGeneration'',
     ''observerRecordId'', ''chainProfile'', ''confirmationPolicy'', ''target'', ''targetBindingDigest'',
     ''checkpoint'', ''catchUp'', ''maxV1Height'', ''minV2Height'', ''status'', ''inclusion'', ''firstThreshold'',
     ''trustClassification'', ''quarantine'']"

definition normalize_catch_up_state :: "jsval \<Rightarrow> (catch_up \<times> page_receipt option) option" where
  "normalize_catch_up_state input = do {
     v \<leftarrow> exact_fields (catch_up_fields @ [''lastAppliedPage'']) input;
     configuration \<leftarrow> read_catch_up v;
     lastPage \<leftarrow> nullable normalize_receipt (field ''lastAppliedPage'' v);
     Some (configuration, lastPage)
   }"

definition catch_up_state_json :: "catch_up \<Rightarrow> page_receipt option \<Rightarrow> json" where
  "catch_up_state_json c r = JObj (catch_up_members c @ [(''lastAppliedPage'', json_option receipt_json r)])"

definition observer_statuses :: "observer_status list" where
  "observer_statuses = [AwaitingInclusion, IncludedBelowThreshold, ThresholdObserved, Quarantined]"

definition trust_classification :: string where
  "trust_classification = ''injected-observation-only''"

definition normalize_state_snapshot :: "(string \<Rightarrow> string) \<Rightarrow> jsval \<Rightarrow> observer_state option" where
  "normalize_state_snapshot sha input = do {
     v \<leftarrow> exact_fields observer_state_fields input;
     guard (field ''schemaVersion'' v = num 2);
     revision \<leftarrow> as_count (field ''revision'' v);
     policy \<leftarrow> normalize_observer_policy (field ''observerPolicy'' v);
     generation \<leftarrow> normalize_generation (field ''authorityGeneration'' v);
     chain \<leftarrow> normalize_chain_profile (field ''chainProfile'' v);
     confirmation \<leftarrow> normalize_confirmation_policy (field ''confirmationPolicy'' v);
     target \<leftarrow> normalize_target (field ''target'' v);
     recordId \<leftarrow> as_commitment (field ''observerRecordId'' v);
     binding \<leftarrow> as_commitment (field ''targetBindingDigest'' v);
     guard (field ''trustClassification'' v = VStr trust_classification);
     checkpoint \<leftarrow> normalize_checkpoint (field ''checkpoint'' v);
     (catchUp, lastPage) \<leftarrow> normalize_catch_up_state (field ''catchUp'' v);
     (maxV1, minV2) \<leftarrow> normalize_version_bounds (field ''maxV1Height'' v) (field ''minV2Height'' v);
     included \<leftarrow> nullable (normalize_inclusion sha recordId (cf_minimumConfirmations confirmation)) (field ''inclusion'' v);
     firstThreshold \<leftarrow> nullable normalize_first_threshold (field ''firstThreshold'' v);
     quarantine \<leftarrow> nullable normalize_quarantine (field ''quarantine'' v);
     status \<leftarrow> find (\<lambda>st. field ''status'' v = VStr (status_name st)) observer_statuses;
     let s = \<lparr>os_revision = revision, os_policy = policy, os_generation = generation, os_recordId = recordId,
       os_chain = chain, os_confirmation = confirmation, os_target = target, os_binding = binding,
       os_checkpoint = checkpoint, os_catchUp = catchUp, os_lastPage = lastPage, os_maxV1 = maxV1, os_minV2 = minV2,
       os_status = status, os_inclusion = included, os_firstThreshold = firstThreshold, os_quarantine = quarantine\<rparr>;
     guard (state_checked sha s);
     Some s
   }"

definition observer_json :: "observer_state \<Rightarrow> json" where
  "observer_json s = JObj [(''schemaVersion'', JNum 2), (''revision'', JNum (os_revision s)),
     (''observerPolicy'', observer_policy_json (os_policy s)),
     (''authorityGeneration'', generation_json (os_generation s)), (''observerRecordId'', JStr (os_recordId s)),
     (''chainProfile'', chain_profile_json (os_chain s)),
     (''confirmationPolicy'', confirmation_policy_json (os_confirmation s)), (''target'', target_json (os_target s)),
     (''targetBindingDigest'', JStr (os_binding s)), (''checkpoint'', checkpoint_json (os_checkpoint s)),
     (''catchUp'', catch_up_state_json (os_catchUp s) (os_lastPage s)),
     (''maxV1Height'', json_option JNum (os_maxV1 s)), (''minV2Height'', json_option JNum (os_minV2 s)),
     (''status'', JStr (status_name (os_status s))), (''inclusion'', json_option inclusion_json (os_inclusion s)),
     (''firstThreshold'', json_option first_threshold_json (os_firstThreshold s)),
     (''trustClassification'', JStr trust_classification),
     (''quarantine'', json_option quarantine_json (os_quarantine s))]"

section \<open>Valid states\<close>

definition parts_ok :: "(string \<Rightarrow> string) \<Rightarrow> observer_state \<Rightarrow> bool" where
  "parts_ok sha s \<longleftrightarrow> count_safe (os_revision s) \<and> observer_policy_ok (os_policy s) \<and> generation_ok (os_generation s)
     \<and> chain_ok (os_chain s) \<and> confirmation_ok (os_confirmation s) \<and> target_ok (os_target s)
     \<and> commitment_text (os_recordId s) \<and> commitment_text (os_binding s) \<and> checkpoint_ok (os_checkpoint s)
     \<and> catch_up_ok (os_catchUp s) \<and> (\<forall>r \<in> set_option (os_lastPage s). receipt_ok r)
     \<and> version_bounds_ok (os_maxV1 s) (os_minV2 s)
     \<and> (\<forall>i \<in> set_option (os_inclusion s). inclusion_ok sha (os_recordId s) (os_minimum s) i)
     \<and> (\<forall>t \<in> set_option (os_firstThreshold s). first_threshold_ok t)"

definition valid_state :: "(string \<Rightarrow> string) \<Rightarrow> observer_state \<Rightarrow> bool" where
  "valid_state sha s \<longleftrightarrow> parts_ok sha s \<and> state_checked sha s"

lemma find_status: "find (\<lambda>st. v = VStr (status_name st)) observer_statuses = Some st \<Longrightarrow> v = VStr (status_name st)"
  by (auto simp: observer_statuses_def split: if_splits)

lemma find_own_status [simp]: "find (\<lambda>st'. status_name st = status_name st') observer_statuses = Some st"
  by (cases st) (simp_all add: observer_statuses_def)

lemma optional_read:
  "nullable normalize_receipt v = Some x \<Longrightarrow> r \<in> set_option x \<Longrightarrow> receipt_ok r"
  "nullable (normalize_inclusion sha i n) v = Some y \<Longrightarrow> j \<in> set_option y \<Longrightarrow> inclusion_ok sha i n j"
  "nullable normalize_first_threshold v = Some z \<Longrightarrow> t \<in> set_option z \<Longrightarrow> first_threshold_ok t"
  by (auto dest!: nullable_Some intro: reader_rules inclusion_read first_threshold_read)

lemma catch_up_state_read:
  assumes "normalize_catch_up_state v = Some (c, x)"
  shows "catch_up_ok c" and "r \<in> set_option x \<Longrightarrow> receipt_ok r"
  using assms by (auto simp: normalize_catch_up_state_def bind_eq_Some_conv intro: reader_rules optional_read(1))

text \<open>What \<open>normalizeStateSnapshot\<close> returns is valid, and it returns every valid state from its image.\<close>

lemma state_read:
  assumes "normalize_state_snapshot sha v = Some s"
  shows "valid_state sha s"
  using assms unfolding valid_state_def parts_ok_def
  by (auto simp: normalize_state_snapshot_def bind_eq_Some_conv Let_def
      intro: reader_rules catch_up_state_read optional_read)

lemma state_images_not_null [simp]: "receipt_json r \<noteq> JNull" "inclusion_json i \<noteq> JNull" "first_threshold_json t \<noteq> JNull"
    "quarantine_json q \<noteq> JNull"
  by (simp_all add: receipt_json_def inclusion_json_def first_threshold_json_def quarantine_json_def)

lemma catch_up_state_copy:
  assumes "catch_up_ok c" and "\<And>r. x = Some r \<Longrightarrow> receipt_ok r"
  shows "normalize_catch_up_state (js_of (catch_up_state_json c x)) = Some (c, x)"
proof -
  have "nullable normalize_receipt (js_of (json_option receipt_json x)) = Some x"
    using assms(2) by (intro nullable_copy) simp_all
  then show ?thesis
    using assms(1)
    by (simp add: normalize_catch_up_state_def catch_up_state_json_def catch_up_members_def catch_up_fields_def
        read_catch_up_def catch_up_ok_def exact_fields_obj positive_safe_def max_safe_def)
qed

lemma version_bounds_copy:
  "version_bounds_ok m n \<Longrightarrow> normalize_version_bounds (js_of (json_option JNum m)) (js_of (json_option JNum n)) = Some (m, n)"
proof -
  assume ok: "version_bounds_ok m n"
  then have "nullable as_positive (js_of (json_option JNum m)) = Some m" "nullable as_positive (js_of (json_option JNum n)) = Some n"
    by (intro nullable_copy; auto simp: version_bounds_ok_def)+
  then show ?thesis using ok by (simp add: normalize_version_bounds_def normalize_version_height_def version_bounds_ok_def)
qed

lemma observer_state_eta:
  "\<lparr>os_revision = os_revision s, os_policy = os_policy s, os_generation = os_generation s, os_recordId = os_recordId s,
     os_chain = os_chain s, os_confirmation = os_confirmation s, os_target = os_target s, os_binding = os_binding s,
     os_checkpoint = os_checkpoint s, os_catchUp = os_catchUp s, os_lastPage = os_lastPage s, os_maxV1 = os_maxV1 s,
     os_minV2 = os_minV2 s, os_status = os_status s, os_inclusion = os_inclusion s,
     os_firstThreshold = os_firstThreshold s, os_quarantine = os_quarantine s\<rparr> = s"
  by (cases s) simp

lemma state_copy:
  assumes "valid_state sha s"
  shows "normalize_state_snapshot sha (js_of (observer_json s)) = Some s"
proof -
  note parts = assms [unfolded valid_state_def parts_ok_def]
  have optional: "nullable (normalize_inclusion sha (os_recordId s) (os_minimum s)) (js_of (json_option inclusion_json (os_inclusion s))) = Some (os_inclusion s)"
    "nullable normalize_first_threshold (js_of (json_option first_threshold_json (os_firstThreshold s))) = Some (os_firstThreshold s)"
    "nullable normalize_quarantine (js_of (json_option quarantine_json (os_quarantine s))) = Some (os_quarantine s)"
    using parts by (intro nullable_copy; auto simp: inclusion_copy first_threshold_copy)+
  have "normalize_catch_up_state (js_of (catch_up_state_json (os_catchUp s) (os_lastPage s))) = Some (os_catchUp s, os_lastPage s)"
    using parts by (intro catch_up_state_copy) auto
  then show ?thesis
    using parts optional
    by (simp add: normalize_state_snapshot_def observer_json_def observer_state_fields_def exact_fields_obj version_bounds_copy Let_def
        observer_state_eta)
qed

end
