(* ===== verification/Observer_Steps.thy ===== *)
theory Observer_Steps
  imports Observer_State
begin

text \<open>
  The operations of the funding observer
  (\<open>src/src/service-credit-zenon-funding-observer-state.js\<close>). Each takes one untrusted value, detaches it,
  reads the state and the other members from it, and returns a new state with a disposition. An
  operation is split where the source has finished reading: \<open>\<dots>_input\<close> reads, and the function of the
  same name without the suffix decides on the values read. Failures are values of
  \<open>observer_error\<close>; the first that the source would throw.

  Every changed state is built by \<open>cloneState\<close>, which reads the image of the new state with
  \<open>normalizeStateSnapshot\<close> again and so fails with \<open>INVALID_STATE\<close> unless the new state is valid.
\<close>

datatype observer_error = InvalidInput | InvalidState | StaleRevision

datatype disposition = IsQuarantined | Unchanged | Applied | SourceUnavailable | SourceBehind | AtFrontier
  | InclusionRequired | BackfillRequired | Replayed

type_synonym observer_result = "observer_error + observer_state \<times> disposition"

section \<open>New states\<close>

definition clone_state :: "(string \<Rightarrow> string) \<Rightarrow> observer_state \<Rightarrow> observer_error + observer_state" where
  "clone_state sha s = need InvalidState (normalize_state_snapshot sha (js_of (observer_json s)))"

definition quarantine_state :: "(string \<Rightarrow> string) \<Rightarrow> observer_state \<Rightarrow> quarantine_reason \<Rightarrow> observer_error + observer_state" where
  "quarantine_state sha s reason = (if os_status s = Quarantined then Inr s
     else clone_state sha (s\<lparr>os_revision := os_revision s + 1, os_status := Quarantined, os_quarantine := Some reason\<rparr>))"

definition with_disposition :: "observer_error + observer_state \<Rightarrow> disposition \<Rightarrow> observer_result" where
  "with_disposition r d = also_then r (\<lambda>s. Inr (s, d))"

definition quarantined :: "(string \<Rightarrow> string) \<Rightarrow> observer_state \<Rightarrow> quarantine_reason \<Rightarrow> observer_result" where
  "quarantined sha s reason = with_disposition (quarantine_state sha s reason) IsQuarantined"

section \<open>Reading inputs\<close>

text \<open>The start of every operation: detach, take the members, read the state, compare the revision.\<close>

definition supplied_fields :: "string list \<Rightarrow> jsval \<Rightarrow> fields option" where
  "supplied_fields names input = do {
     copy \<leftarrow> detached_copy input;
     exact_fields names (js_of copy)
   }"

definition read_state :: "(string \<Rightarrow> string) \<Rightarrow> fields \<Rightarrow> observer_error + observer_state" where
  "read_state sha v = also_then (need InvalidState (normalize_state_snapshot sha (field ''state'' v))) (\<lambda>s.
     also_then (need InvalidInput (as_count (field ''expectedRevision'' v))) (\<lambda>revision.
     also_then (ensure StaleRevision (revision = os_revision s)) (\<lambda>_. Inr s)))"

definition context_fields :: "string list" where
  "context_fields = [''observerRecordId'', ''targetBindingDigest'', ''authorityGeneration'', ''chainProfile'']"

text \<open>A member of a detached value, \<open>undefined\<close> where there is none.\<close>

fun peek :: "string \<Rightarrow> jsval \<Rightarrow> jsval" where
  "peek k (VObject p symbolic props) = (case map_of props k of Some (DataProp v) \<Rightarrow> v | _ \<Rightarrow> VUndefined)"
| "peek k _ = VUndefined"

definition unavailable :: "jsval \<Rightarrow> unit option" where
  "unavailable input = do {
     v \<leftarrow> exact_fields [''status'', ''reason''] input;
     guard (field ''reason'' v = VStr ''TIMEOUT'' \<or> field ''reason'' v = VStr ''UNAVAILABLE'')
   }"

section \<open>Creating a state\<close>

definition create_state_fields :: "string list" where
  "create_state_fields = [''observerPolicy'', ''authorityGeneration'', ''chainProfile'', ''confirmationPolicy'',
     ''target'', ''checkpoint'', ''catchUp'']"

definition initial_observer :: "(string \<Rightarrow> string) \<Rightarrow> observer_policy \<Rightarrow> authority_generation \<Rightarrow> chain_profile
    \<Rightarrow> confirmation_policy \<Rightarrow> funding_target \<Rightarrow> checkpoint \<Rightarrow> catch_up \<Rightarrow> observer_state" where
  "initial_observer sha p g c f t k u = \<lparr>os_revision = 0, os_policy = p, os_generation = g,
     os_recordId = observer_record_id sha p g c f (tg_transactionId t), os_chain = c, os_confirmation = f,
     os_target = t, os_binding = target_binding sha t, os_checkpoint = k, os_catchUp = u, os_lastPage = None,
     os_maxV1 = None, os_minV2 = None, os_status = AwaitingInclusion, os_inclusion = None,
     os_firstThreshold = None, os_quarantine = None\<rparr>"

definition create_observer :: "(string \<Rightarrow> string) \<Rightarrow> jsval \<Rightarrow> observer_error + observer_state" where
  "create_observer sha input = also_then (need InvalidInput (do {
       v \<leftarrow> supplied_fields create_state_fields input;
       p \<leftarrow> normalize_observer_policy (field ''observerPolicy'' v);
       g \<leftarrow> normalize_generation (field ''authorityGeneration'' v);
       c \<leftarrow> normalize_chain_profile (field ''chainProfile'' v);
       f \<leftarrow> normalize_confirmation_policy (field ''confirmationPolicy'' v);
       t \<leftarrow> normalize_target (field ''target'' v);
       k \<leftarrow> normalize_checkpoint (field ''checkpoint'' v);
       u \<leftarrow> normalize_catch_up (field ''catchUp'' v);
       Some (initial_observer sha p g c f t k u)
     })) (clone_state sha)"

section \<open>Momentum versions\<close>

definition merge_with :: "(int \<Rightarrow> int \<Rightarrow> int) \<Rightarrow> int option \<Rightarrow> int option \<Rightarrow> int option" where
  "merge_with f old new = (case (old, new) of (None, _) \<Rightarrow> new | (_, None) \<Rightarrow> old | (Some a, Some b) \<Rightarrow> Some (f a b))"

definition apply_versions :: "(string \<Rightarrow> string) \<Rightarrow> observer_state \<Rightarrow> int option \<Rightarrow> int option \<Rightarrow> observer_result" where
  "apply_versions sha s seenV1 seenV2 =
     (let maxV1 = merge_with max (os_maxV1 s) seenV1;
          minV2 = merge_with min (os_minV2 s) seenV2
      in if version_conflict maxV1 minV2 then quarantined sha s MomentumVersionConflict
         else if maxV1 = os_maxV1 s \<and> minV2 = os_minV2 s then Inr (s, Unchanged)
         else with_disposition (clone_state sha
           (s\<lparr>os_revision := os_revision s + 1, os_maxV1 := maxV1, os_minV2 := minV2\<rparr>)) Applied)"

definition versions_input :: "(string \<Rightarrow> string) \<Rightarrow> jsval \<Rightarrow> observer_result" where
  "versions_input sha input = also_then (need InvalidInput (supplied_fields
       [''state'', ''expectedRevision'', ''maxV1Height'', ''minV2Height''] input)) (\<lambda>v.
     also_then (read_state sha v) (\<lambda>s.
     if os_status s = Quarantined then Inr (s, IsQuarantined)
     else also_then (need InvalidInput (normalize_version_bounds (field ''maxV1Height'' v) (field ''minV2Height'' v)))
       (\<lambda>(seenV1, seenV2).
     also_then (ensure InvalidInput (\<not> (seenV1 = None \<and> seenV2 = None))) (\<lambda>_.
     apply_versions sha s seenV1 seenV2))))"

section \<open>Planning a backfill\<close>

record backfill_plan =
  bp_context :: observer_context
  bp_start :: checkpoint
  bp_frontier :: checkpoint
  bp_from :: int
  bp_through :: int
  bp_count :: int
  bp_planId :: string

definition plan_json :: "backfill_plan \<Rightarrow> json" where
  "plan_json p = JObj (plan_members (bp_context p) (bp_start p) (bp_frontier p) (bp_from p) (bp_through p) (bp_count p)
     @ [(''planId'', JStr (bp_planId p))])"

definition make_plan :: "(string \<Rightarrow> string) \<Rightarrow> observer_state \<Rightarrow> checkpoint \<Rightarrow> backfill_plan" where
  "make_plan sha s frontier =
     (let from = ck_height (os_checkpoint s) + 1;
          through = bounded_through (os_catchUp s) (ck_height (os_checkpoint s)) (ck_height frontier);
          entries = through - from + 1
      in \<lparr>bp_context = own_context s, bp_start = os_checkpoint s, bp_frontier = frontier, bp_from = from,
        bp_through = through, bp_count = entries,
        bp_planId = plan_id sha (own_context s) (os_checkpoint s) frontier from through entries\<rparr>)"

definition plan_fields :: "string list" where
  "plan_fields = ''planVersion'' # context_fields @ [''startCheckpoint'', ''frontier'', ''fromHeight'',
     ''throughHeight'', ''entryCount'', ''planId'']"

definition normalize_plan :: "(string \<Rightarrow> string) \<Rightarrow> jsval \<Rightarrow> backfill_plan option" where
  "normalize_plan sha input = do {
     v \<leftarrow> exact_fields plan_fields input;
     guard (field ''planVersion'' v = num 1);
     cx \<leftarrow> read_context v;
     start \<leftarrow> normalize_checkpoint (field ''startCheckpoint'' v);
     frontier \<leftarrow> normalize_checkpoint (field ''frontier'' v);
     from \<leftarrow> as_positive (field ''fromHeight'' v);
     through \<leftarrow> as_positive (field ''throughHeight'' v);
     entries \<leftarrow> as_positive (field ''entryCount'' v);
     planId \<leftarrow> as_commitment (field ''planId'' v);
     guard (planId = plan_id sha cx start frontier from through entries);
     Some \<lparr>bp_context = cx, bp_start = start, bp_frontier = frontier, bp_from = from, bp_through = through,
       bp_count = entries, bp_planId = planId\<rparr>
   }"

definition detached_plan :: "(string \<Rightarrow> string) \<Rightarrow> observer_state \<Rightarrow> checkpoint \<Rightarrow> backfill_plan option" where
  "detached_plan sha s frontier = do {
     copy \<leftarrow> detached_copy (js_of (plan_json (make_plan sha s frontier)));
     normalize_plan sha (js_of copy)
   }"

datatype chain_source = SourceDown | SourceAt checkpoint "string option"

definition normalize_source :: "jsval \<Rightarrow> chain_source option" where
  "normalize_source input = (if peek ''status'' input = VStr ''UNAVAILABLE'' then map_option (\<lambda>_. SourceDown) (unavailable input)
     else do {
       v \<leftarrow> exact_fields [''status'', ''frontier'', ''checkpointHash''] input;
       guard (field ''status'' v = VStr ''AVAILABLE'');
       frontier \<leftarrow> normalize_checkpoint (field ''frontier'' v);
       checkpointHash \<leftarrow> nullable as_hash (field ''checkpointHash'' v);
       Some (SourceAt frontier checkpointHash)
     })"

text \<open>The target was found on the last page, and its inclusion has not been observed yet.\<close>

definition inclusion_pending :: "observer_state \<Rightarrow> bool" where
  "inclusion_pending s \<longleftrightarrow> os_inclusion s = None
     \<and> (case os_lastPage s of None \<Rightarrow> False | Some r \<Rightarrow> rc_membership r \<noteq> None)"

type_synonym plan_result = "observer_error + observer_state \<times> disposition \<times> backfill_plan option"

definition without_plan :: "observer_result \<Rightarrow> plan_result" where
  "without_plan r = also_then r (\<lambda>(s, d). Inr (s, d, None))"

fun plan_backfill :: "(string \<Rightarrow> string) \<Rightarrow> observer_state \<Rightarrow> chain_source \<Rightarrow> plan_result" where
  "plan_backfill sha s SourceDown = Inr (s, SourceUnavailable, None)"
| "plan_backfill sha s (SourceAt frontier checkpointHash) =
     (if ck_height frontier < ck_height (os_checkpoint s) then
        also_then (ensure InvalidInput (checkpointHash = None)) (\<lambda>_. Inr (s, SourceBehind, None))
      else if checkpointHash \<noteq> Some (ck_hash (os_checkpoint s)) then without_plan (quarantined sha s CheckpointHashMismatch)
      else if ck_height frontier = ck_height (os_checkpoint s) then
        if ck_hash frontier \<noteq> ck_hash (os_checkpoint s) then without_plan (quarantined sha s CheckpointHashMismatch)
        else Inr (s, if inclusion_pending s then InclusionRequired else AtFrontier, None)
      else if inclusion_pending s then Inr (s, InclusionRequired, None)
      else also_then (need InvalidInput (detached_plan sha s frontier)) (\<lambda>p. Inr (s, BackfillRequired, Some p)))"

definition plan_input :: "(string \<Rightarrow> string) \<Rightarrow> jsval \<Rightarrow> plan_result" where
  "plan_input sha input = also_then (need InvalidInput (supplied_fields
       ([''state'', ''expectedRevision''] @ context_fields @ [''source'']) input)) (\<lambda>v.
     also_then (read_state sha v) (\<lambda>s.
     also_then (need InvalidInput (read_context v)) (\<lambda>cx.
     if os_status s = Quarantined then Inr (s, IsQuarantined, None)
     else if \<not> context_matches (own_context s) cx then without_plan (quarantined sha s ContextDrift)
     else also_then (need InvalidInput (normalize_source (field ''source'' v))) (plan_backfill sha s))))"

end
