(* ===== verification/Observer_Pages.thy ===== *)
theory Observer_Pages
  imports Observer_Steps
begin

text \<open>
  Applying a page of momentums and an inclusion observation to the funding observer, and the
  candidate it projects (\<open>applyZenonFundingObserverPage\<close>, \<open>updateIncludedState\<close>,
  \<open>applyZenonFundingInclusionObservation\<close>, \<open>projectZenonFundingObservationCandidate\<close> and the stored
  text, in \<open>src/src/service-credit-zenon-funding-observer-state.js\<close>).
\<close>

section \<open>Pages\<close>

text \<open>A momentum with its members: transaction and target binding.\<close>

record page_entry =
  pe_height :: int
  pe_hash :: string
  pe_previousHash :: string
  pe_members :: "(string \<times> string) list"

record momentum_page =
  pg_context :: observer_context
  pg_planId :: string
  pg_start :: checkpoint
  pg_frontier :: checkpoint
  pg_entries :: "page_entry list"

definition normalize_member :: "jsval \<Rightarrow> (string \<times> string) option" where
  "normalize_member input = do {
     v \<leftarrow> exact_fields [''transactionId'', ''targetBindingDigest''] input;
     transactionId \<leftarrow> as_transaction (field ''transactionId'' v);
     binding \<leftarrow> as_commitment (field ''targetBindingDigest'' v);
     Some (transactionId, binding)
   }"

definition normalize_page_entry :: "catch_up \<Rightarrow> jsval \<Rightarrow> page_entry option" where
  "normalize_page_entry cu input = do {
     v \<leftarrow> exact_fields [''height'', ''hash'', ''previousHash'', ''members''] input;
     height \<leftarrow> as_positive (field ''height'' v);
     hash \<leftarrow> as_hash (field ''hash'' v);
     previousHash \<leftarrow> as_hash (field ''previousHash'' v);
     items \<leftarrow> array_elements (field ''members'' v);
     guard (int (length items) \<le> cu_momentumMembers cu);
     members \<leftarrow> all_some (map normalize_member items);
     Some \<lparr>pe_height = height, pe_hash = hash, pe_previousHash = previousHash, pe_members = members\<rparr>
   }"

definition page_fields :: "string list" where
  "page_fields = ''pageVersion'' # context_fields @ [''planId'', ''startCheckpoint'', ''frontier'', ''entries'']"

definition normalize_page :: "catch_up \<Rightarrow> jsval \<Rightarrow> momentum_page option" where
  "normalize_page cu input = do {
     v \<leftarrow> exact_fields page_fields input;
     guard (field ''pageVersion'' v = num 1);
     cx \<leftarrow> read_context v;
     planId \<leftarrow> as_commitment (field ''planId'' v);
     start \<leftarrow> normalize_checkpoint (field ''startCheckpoint'' v);
     frontier \<leftarrow> normalize_checkpoint (field ''frontier'' v);
     items \<leftarrow> array_elements (field ''entries'' v);
     guard (items \<noteq> [] \<and> int (length items) \<le> cu_pageEntries cu);
     entries \<leftarrow> all_some (map (normalize_page_entry cu) items);
     guard (sum_list (map (length \<circ> pe_members) entries) \<le> max_members);
     Some \<lparr>pg_context = cx, pg_planId = planId, pg_start = start, pg_frontier = frontier, pg_entries = entries\<rparr>
   }"

text \<open>The loop over the members of one momentum, and the loop over the momentums of the page.\<close>

fun scan_members :: "string \<Rightarrow> string \<Rightarrow> page_entry \<Rightarrow> (string \<times> string) list \<Rightarrow> string list \<Rightarrow> membership option
    \<Rightarrow> quarantine_reason + membership option" where
  "scan_members transactionId binding e [] seen found = Inr found"
| "scan_members transactionId binding e ((x, b) # ms) seen found =
     (if x \<in> set seen then Inl PageMemberConflict
      else if x = transactionId then
        (if b \<noteq> binding then Inl TargetBindingDrift
         else let discovered = \<lparr>mb_transactionId = x, mb_binding = b, mb_height = pe_height e, mb_hash = pe_hash e\<rparr> in
           if found \<noteq> None \<and> \<not> same_json (json_option membership_json found) (membership_json discovered)
           then Inl InclusionTupleDrift
           else scan_members transactionId binding e ms (x # seen) (Some discovered))
      else scan_members transactionId binding e ms (x # seen) found)"

definition lineage_of :: "page_entry \<Rightarrow> lineage_entry" where
  "lineage_of e = \<lparr>le_height = pe_height e, le_hash = pe_hash e, le_previousHash = pe_previousHash e\<rparr>"

fun scan_entries :: "string \<Rightarrow> string \<Rightarrow> page_entry list \<Rightarrow> int \<Rightarrow> string \<Rightarrow> membership option
    \<Rightarrow> quarantine_reason + lineage_entry list \<times> membership option" where
  "scan_entries transactionId binding [] height previousHash found = Inr ([], found)"
| "scan_entries transactionId binding (e # es) height previousHash found =
     (if pe_height e \<noteq> height then Inl PageHeightConflict
      else if pe_previousHash e \<noteq> previousHash then Inl PageParentMismatch
      else also_then (scan_members transactionId binding e (pe_members e) [] found) (\<lambda>found.
        also_then (scan_entries transactionId binding es (height + 1) (pe_hash e) found) (\<lambda>(lineage, found).
        Inr (lineage_of e # lineage, found))))"

text \<open>\<open>updateIncludedState\<close> with the new checkpoint and the receipt of the page.\<close>

definition update_included :: "(string \<Rightarrow> string) \<Rightarrow> observer_state \<Rightarrow> checkpoint \<Rightarrow> page_receipt
    \<Rightarrow> observer_error + observer_state" where
  "update_included sha s checkpoint r = (case os_inclusion s of
     None \<Rightarrow> clone_state sha (s\<lparr>os_revision := os_revision s + 1, os_checkpoint := checkpoint, os_lastPage := Some r\<rparr>)
   | Some i \<Rightarrow>
       let confirmations = ck_height checkpoint - in_height i + 1;
           reached = (os_firstThreshold s = None \<and> os_minimum s \<le> confirmations) in
       if confirmations < in_confirmations i then quarantine_state sha s InclusionTupleDrift
       else if reached \<and> \<not> same_json (json_option checkpoint_json (rc_threshold r)) (checkpoint_json checkpoint)
       then quarantine_state sha s PageGap
       else let first = (if reached
           then Some \<lparr>ft_checkpoint = checkpoint, ft_confirmations = confirmations, ft_receipt = r\<rparr>
           else os_firstThreshold s) in
         clone_state sha (s\<lparr>os_revision := os_revision s + 1, os_checkpoint := checkpoint, os_lastPage := Some r,
           os_status := if first = None then IncludedBelowThreshold else ThresholdObserved,
           os_inclusion := Some (i\<lparr>in_confirmations := confirmations\<rparr>), os_firstThreshold := first\<rparr>))"

definition page_receipt_of :: "(string \<Rightarrow> string) \<Rightarrow> observer_context \<Rightarrow> backfill_plan \<Rightarrow> momentum_page \<Rightarrow> lineage_entry list
    \<Rightarrow> membership option \<Rightarrow> page_receipt" where
  "page_receipt_of sha cx p pg lineage found =
     (let final = last (pg_entries pg);
          r = \<lparr>rc_planId = bp_planId p, rc_pageDigest = [], rc_start = pg_start pg,
            rc_end = \<lparr>ck_height = pe_height final, ck_hash = pe_hash final\<rparr>, rc_frontier = pg_frontier pg,
            rc_count = int (length (pg_entries pg)), rc_lineage = lineage, rc_membership = found, rc_threshold = None\<rparr>
      in r\<lparr>rc_pageDigest := page_receipt_digest sha cx r\<rparr>)"

definition replayed :: "observer_state \<Rightarrow> page_receipt \<Rightarrow> bool" where
  "replayed s r \<longleftrightarrow> (case os_lastPage s of None \<Rightarrow> False
     | Some old \<Rightarrow> rc_planId old = rc_planId r \<and> rc_pageDigest old = rc_pageDigest r)"

text \<open>The threshold checkpoint of a new receipt: only if the state has none and the page reaches it.\<close>

definition with_threshold :: "observer_state \<Rightarrow> page_receipt \<Rightarrow> page_receipt" where
  "with_threshold s r =
     (let height = (case os_inclusion s of Some i \<Rightarrow> Some (in_height i) | None \<Rightarrow> map_option mb_height (rc_membership r));
          reaches = (os_firstThreshold s = None \<and> (case height of None \<Rightarrow> False
            | Some h \<Rightarrow> os_minimum s \<le> ck_height (rc_end r) - h + 1))
      in r\<lparr>rc_threshold := if reaches then Some (rc_end r) else None\<rparr>)"

definition accept_receipt :: "(string \<Rightarrow> string) \<Rightarrow> observer_state \<Rightarrow> backfill_plan \<Rightarrow> page_receipt \<Rightarrow> observer_result" where
  "accept_receipt sha s p r =
     (if replayed s r then Inr (s, Replayed)
      else if inclusion_pending s then Inr (s, InclusionRequired)
      else if \<not> same_json (plan_json p) (plan_json (make_plan sha s (bp_frontier p))) then quarantined sha s PlanContextDrift
      else if (case (os_inclusion s, rc_membership r) of
          (Some i, Some m) \<Rightarrow> \<not> (mb_height m = in_height i \<and> mb_hash m = mb_hash (in_membership i)) | _ \<Rightarrow> False)
      then quarantined sha s InclusionTupleDrift
      else with_disposition (update_included sha s (rc_end r) (with_threshold s r)) Applied)"

definition apply_page :: "(string \<Rightarrow> string) \<Rightarrow> observer_state \<Rightarrow> backfill_plan \<Rightarrow> momentum_page \<Rightarrow> observer_result" where
  "apply_page sha s p pg =
     (if \<not> context_matches (own_context s) (bp_context p) \<or> \<not> context_matches (own_context s) (pg_context pg)
      then quarantined sha s ContextDrift
      else if pg_planId pg \<noteq> bp_planId p \<or> \<not> same_json (checkpoint_json (pg_start pg)) (checkpoint_json (bp_start p))
        \<or> \<not> same_json (checkpoint_json (pg_frontier pg)) (checkpoint_json (bp_frontier p))
      then quarantined sha s PlanContextDrift
      else if int (length (pg_entries pg)) \<noteq> bp_count p then quarantined sha s PageGap
      else case scan_entries (os_transactionId s) (os_binding s) (pg_entries pg) (bp_from p) (ck_hash (pg_start pg)) None of
        Inl reason \<Rightarrow> quarantined sha s reason
      | Inr (lineage, found) \<Rightarrow>
          let r = page_receipt_of sha (own_context s) p pg lineage found in
          if ck_height (rc_end r) \<noteq> bp_through p then quarantined sha s PageGap
          else if ck_height (rc_end r) = ck_height (pg_frontier pg) \<and> ck_hash (rc_end r) \<noteq> ck_hash (pg_frontier pg)
          then quarantined sha s FrontierReplacement
          else accept_receipt sha s p r)"

definition page_input :: "(string \<Rightarrow> string) \<Rightarrow> jsval \<Rightarrow> observer_result" where
  "page_input sha input = also_then (need InvalidInput (supplied_fields [''state'', ''expectedRevision'', ''plan'', ''page''] input)) (\<lambda>v.
     also_then (read_state sha v) (\<lambda>s.
     if os_status s = Quarantined then Inr (s, IsQuarantined)
     else also_then (need InvalidInput (normalize_plan sha (field ''plan'' v))) (\<lambda>p.
     also_then (need InvalidInput (normalize_page (os_catchUp s) (field ''page'' v))) (\<lambda>pg.
     apply_page sha s p pg))))"

section \<open>Inclusion observations\<close>

datatype inclusion_observation = ObservationDown | NotFound string | Found membership string

definition normalize_observation :: "jsval \<Rightarrow> inclusion_observation option" where
  "normalize_observation input = (if peek ''status'' input = VStr ''UNAVAILABLE'' then map_option (\<lambda>_. ObservationDown) (unavailable input)
     else if peek ''status'' input = VStr ''NOT_FOUND'' then do {
       v \<leftarrow> exact_fields [''status'', ''transactionId''] input;
       map_option NotFound (as_transaction (field ''transactionId'' v))
     } else do {
       v \<leftarrow> exact_fields ([''status''] @ membership_fields @ [''pageDigest'']) input;
       guard (field ''status'' v = VStr ''FOUND'');
       m \<leftarrow> read_membership v;
       map_option (Found m) (as_commitment (field ''pageDigest'' v))
     })"

definition observed_on_page :: "page_receipt option \<Rightarrow> membership \<Rightarrow> string \<Rightarrow> page_receipt option" where
  "observed_on_page lastPage m pageDigest = (case lastPage of None \<Rightarrow> None
     | Some r \<Rightarrow> if rc_membership r = Some m \<and> rc_pageDigest r = pageDigest then Some r else None)"

definition include_found :: "(string \<Rightarrow> string) \<Rightarrow> observer_state \<Rightarrow> membership \<Rightarrow> string \<Rightarrow> observer_result" where
  "include_found sha s m pageDigest = (case observed_on_page (os_lastPage s) m pageDigest of
     None \<Rightarrow> quarantined sha s MembershipNotLinked
   | Some r \<Rightarrow>
       let confirmations = ck_height (os_checkpoint s) - mb_height m + 1;
           i = \<lparr>in_membership = m, in_authorizationId = authorized sha (os_recordId s) (os_minimum s) m,
             in_confirmations = confirmations\<rparr>;
           reached = (os_minimum s \<le> confirmations) in
       if confirmations \<le> 0 then quarantined sha s MembershipNotLinked
       else if reached \<and> rc_threshold r = None then quarantined sha s PageGap
       else let first = (if reached then map_option (\<lambda>c. \<lparr>ft_checkpoint = c, ft_confirmations = confirmations, ft_receipt = r\<rparr>)
           (rc_threshold r) else None) in
         with_disposition (clone_state sha (s\<lparr>os_revision := os_revision s + 1,
           os_status := if first = None then IncludedBelowThreshold else ThresholdObserved,
           os_inclusion := Some i, os_firstThreshold := first\<rparr>)) Applied)"

fun apply_inclusion :: "(string \<Rightarrow> string) \<Rightarrow> observer_state \<Rightarrow> inclusion_observation \<Rightarrow> observer_result" where
  "apply_inclusion sha s ObservationDown = Inr (s, SourceUnavailable)"
| "apply_inclusion sha s (NotFound transactionId) =
     (if transactionId \<noteq> os_transactionId s then quarantined sha s InclusionTupleDrift
      else if os_inclusion s = None \<and> \<not> inclusion_pending s then Inr (s, Unchanged)
      else quarantined sha s InclusionDisappeared)"
| "apply_inclusion sha s (Found m pageDigest) =
     (if mb_transactionId m \<noteq> os_transactionId s then quarantined sha s InclusionTupleDrift
      else if mb_binding m \<noteq> os_binding s then quarantined sha s TargetBindingDrift
      else case os_inclusion s of
        Some i \<Rightarrow> if mb_height m \<noteq> in_height i \<or> mb_hash m \<noteq> mb_hash (in_membership i)
          then quarantined sha s InclusionTupleDrift else Inr (s, Unchanged)
      | None \<Rightarrow> include_found sha s m pageDigest)"

definition inclusion_input :: "(string \<Rightarrow> string) \<Rightarrow> jsval \<Rightarrow> observer_result" where
  "inclusion_input sha input = also_then (need InvalidInput (supplied_fields
       ([''state'', ''expectedRevision''] @ context_fields @ [''observation'']) input)) (\<lambda>v.
     also_then (read_state sha v) (\<lambda>s.
     also_then (need InvalidInput (read_context v)) (\<lambda>cx.
     if os_status s = Quarantined then Inr (s, IsQuarantined)
     else if \<not> context_matches (own_context s) cx then quarantined sha s ContextDrift
     else also_then (need InvalidInput (normalize_observation (field ''observation'' v))) (apply_inclusion sha s))))"

section \<open>Candidates and stored text\<close>

definition read_stored :: "(string \<Rightarrow> string) \<Rightarrow> jsval \<Rightarrow> observer_error + observer_state" where
  "read_stored sha input = need InvalidState (do {
     copy \<leftarrow> detached_copy input;
     normalize_state_snapshot sha (js_of copy)
   })"

record observation_candidate =
  oc_recordId :: string
  oc_binding :: string
  oc_transactionId :: string
  oc_chain :: chain_profile
  oc_confirmation :: confirmation_policy
  oc_authorizationId :: string
  oc_inclusion :: membership
  oc_firstThreshold :: first_threshold

text \<open>The projection reads \<open>inclusion\<close> and \<open>firstThreshold\<close>, which a state past the threshold has.\<close>

definition candidate_of :: "observer_state \<Rightarrow> observation_candidate option" where
  "candidate_of s = (case (os_status s, os_inclusion s, os_firstThreshold s) of
     (ThresholdObserved, Some i, Some t) \<Rightarrow> Some \<lparr>oc_recordId = os_recordId s, oc_binding = os_binding s,
       oc_transactionId = os_transactionId s, oc_chain = os_chain s, oc_confirmation = os_confirmation s,
       oc_authorizationId = in_authorizationId i, oc_inclusion = in_membership i, oc_firstThreshold = t\<rparr>
   | _ \<Rightarrow> None)"

definition project_candidate :: "(string \<Rightarrow> string) \<Rightarrow> jsval \<Rightarrow> observer_error + observation_candidate option" where
  "project_candidate sha input = also_then (read_stored sha input) (\<lambda>s. Inr (candidate_of s))"

definition serialize_observer :: "(string \<Rightarrow> string) \<Rightarrow> jsval \<Rightarrow> observer_error + string" where
  "serialize_observer sha input = also_then (read_stored sha input) (\<lambda>s. Inr (canonical_json (observer_json s)))"

text \<open>\<open>JSON.parse\<close> is a parameter: the value a text denotes, if it is JSON.\<close>

definition parse_observer :: "(string \<Rightarrow> string) \<Rightarrow> (string \<Rightarrow> jsval option) \<Rightarrow> string \<Rightarrow> observer_error + observer_state" where
  "parse_observer sha parse text = also_then (ensure InvalidInput (text \<noteq> [] \<and> length text \<le> max_input_bytes
       \<and> utf8_bytes text \<le> max_input_bytes)) (\<lambda>_.
     also_then (need InvalidInput (parse text)) (\<lambda>v.
     also_then (read_stored sha v) (\<lambda>s.
     also_then (ensure InvalidInput (canonical_json (observer_json s) = text)) (\<lambda>_. Inr s))))"

end
