(* ===== verification/Observer_Invariant.thy ===== *)
theory Observer_Invariant
  imports Observer_Pages
begin

text \<open>
  Every state an operation of the funding observer builds is valid, so \<open>cloneState\<close> never fails: the
  only way to \<open>INVALID_STATE\<close> from a valid state is a revision counter at the largest safe integer.
  The lemmas also give the result of each operation as a plain state update.
\<close>

section \<open>Cloning\<close>

lemma clone_valid: "valid_state sha s \<Longrightarrow> clone_state sha s = Inr s"
  by (simp add: clone_state_def state_copy)

lemma clone_full: "\<not> count_safe (os_revision s) \<Longrightarrow> clone_state sha s = Inl InvalidState"
  by (simp add: clone_state_def normalize_state_snapshot_def observer_json_def observer_state_fields_def exact_fields_obj)

definition has_room :: "observer_state \<Rightarrow> bool" where
  "has_room s \<longleftrightarrow> os_revision s < max_safe"

lemma clone_next:
  assumes "valid_state sha s" and "os_revision s' = os_revision s + 1"
    and "count_safe (os_revision s') \<Longrightarrow> valid_state sha s'"
  shows "clone_state sha s' = (if has_room s then Inr s' else Inl InvalidState)"
proof -
  have "count_safe (os_revision s') \<longleftrightarrow> has_room s"
    using assms(1,2) by (auto simp: valid_state_def parts_ok_def count_safe_def has_room_def)
  then show ?thesis using assms(3) clone_valid clone_full by simp
qed

text \<open>The part of a state that no operation changes.\<close>

definition same_identity :: "observer_state \<Rightarrow> observer_state \<Rightarrow> bool" where
  "same_identity s s' \<longleftrightarrow> os_policy s' = os_policy s \<and> os_generation s' = os_generation s \<and> os_recordId s' = os_recordId s
     \<and> os_chain s' = os_chain s \<and> os_confirmation s' = os_confirmation s \<and> os_target s' = os_target s
     \<and> os_binding s' = os_binding s \<and> os_catchUp s' = os_catchUp s"

lemma same_identity_refl [simp]: "same_identity s s"
  by (simp add: same_identity_def)

lemma same_identity_trans: "same_identity s t \<Longrightarrow> same_identity t u \<Longrightarrow> same_identity s u"
  by (simp add: same_identity_def)

lemma membership_cong:
  "map_option in_membership i = map_option in_membership j \<Longrightarrow> receipt_membership r i = receipt_membership r j"
  by (cases "rc_membership r") (simp_all add: receipt_membership_def)

lemma threshold_cong:
  "map_option in_membership i = map_option in_membership j \<Longrightarrow> threshold_reached n r i = threshold_reached n r j"
  unfolding threshold_reached_def by (drule membership_cong [of i j r]) simp

lemma validate_cong:
  "map_option in_membership i = map_option in_membership j \<Longrightarrow>
    validate_page_receipt sha cx n x u i r = validate_page_receipt sha cx n x u j r"
  unfolding validate_page_receipt_def by (drule threshold_cong [of i j n r]) simp

lemma valid_receipt_cong:
  "same_identity s s' \<Longrightarrow> map_option in_membership (os_inclusion s') = map_option in_membership (os_inclusion s)
    \<Longrightarrow> valid_receipt sha s' r = valid_receipt sha s r"
  unfolding valid_receipt_def same_identity_def own_context_def by (metis validate_cong)

section \<open>Facts of a valid state\<close>

lemma valid_parts:
  assumes "valid_state sha s"
  shows "parts_ok sha s" "identities_checked sha s" "receipt_checked sha s" "inclusion_checked s"
    "first_threshold_checked sha s" "threshold_receipt_checked s" "status_checked s"
  using assms by (simp_all add: valid_state_def state_checked_def)

lemma threshold_included:
  assumes "first_threshold_checked sha s" and "os_firstThreshold s = Some t"
  shows "\<exists>i. os_inclusion s = Some i"
  using assms by (auto simp: first_threshold_checked_def split: option.splits)

lemma threshold_confirmed:
  assumes "first_threshold_checked sha s" "inclusion_checked s" "os_firstThreshold s = Some t" "os_inclusion s = Some i"
  shows "os_minimum s \<le> in_confirmations i" and "ft_confirmations t \<le> in_confirmations i"
    and "ck_height (rc_end (ft_receipt t)) \<le> ck_height (os_checkpoint s)"
  using assms by (auto simp: first_threshold_checked_def inclusion_checked_def)

text \<open>An unquarantined state: what its status says of its inclusion and threshold.\<close>

lemma live_state:
  assumes "valid_state sha s" "os_status s \<noteq> Quarantined"
  shows "os_quarantine s = None"
    and "os_inclusion s = None \<Longrightarrow> os_status s = AwaitingInclusion \<and> os_firstThreshold s = None"
    and "os_inclusion s = Some i \<Longrightarrow> os_firstThreshold s = None \<Longrightarrow> os_status s = IncludedBelowThreshold \<and> in_confirmations i < os_minimum s"
    and "os_firstThreshold s = Some t \<Longrightarrow> os_status s = ThresholdObserved"
  using assms(2) valid_parts(7) [OF assms(1)]
  by (cases "os_status s"; auto simp: status_checked_def split: option.splits)+

section \<open>Quarantine\<close>

definition into_quarantine :: "observer_state \<Rightarrow> quarantine_reason \<Rightarrow> observer_state" where
  "into_quarantine s reason = s\<lparr>os_revision := os_revision s + 1, os_status := Quarantined, os_quarantine := Some reason\<rparr>"

lemma into_quarantine_valid:
  assumes v: "valid_state sha s" and "count_safe (os_revision s + 1)"
  shows "valid_state sha (into_quarantine s reason)"
proof -
  let ?q = "into_quarantine s reason"
  have same: "same_identity s ?q" by (simp add: same_identity_def into_quarantine_def)
  have fields: "os_inclusion ?q = os_inclusion s" "os_firstThreshold ?q = os_firstThreshold s" "os_lastPage ?q = os_lastPage s"
    "os_checkpoint ?q = os_checkpoint s" "os_status ?q = Quarantined" "os_quarantine ?q = Some reason"
    "os_maxV1 ?q = os_maxV1 s" "os_minV2 ?q = os_minV2 s" "os_revision ?q = os_revision s + 1"
    by (simp_all add: into_quarantine_def)
  note receipts = valid_receipt_cong [OF same, unfolded fields, OF refl]
  note eqs = same [unfolded same_identity_def]
  note vs = valid_parts [OF v]
  have "parts_ok sha ?q" using vs(1) assms(2) by (simp add: parts_ok_def fields eqs)
  moreover have "identities_checked sha ?q" using vs(2) by (simp add: identities_checked_def eqs)
  moreover have "receipt_checked sha ?q" using vs(3) by (simp add: receipt_checked_def fields receipts)
  moreover have "inclusion_checked ?q" using vs(4) by (simp add: inclusion_checked_def fields eqs)
  moreover have "first_threshold_checked sha ?q"
    using vs(5) by (simp add: first_threshold_checked_def fields eqs receipts cong: option.case_cong)
  moreover have "threshold_receipt_checked ?q"
    using vs(6) by (simp add: threshold_receipt_checked_def fields eqs cong: option.case_cong)
  moreover have "status_checked ?q"
  proof (cases "os_firstThreshold s")
    case (Some t)
    then obtain i where "os_inclusion s = Some i" using threshold_included [OF vs(5)] by blast
    then show ?thesis
      using threshold_confirmed(1) [OF vs(5,4) Some] by (simp add: status_checked_def fields eqs)
  qed (simp add: status_checked_def fields eqs split: option.split)
  ultimately show ?thesis by (simp add: valid_state_def state_checked_def)
qed

text \<open>The result of an operation that moves to \<open>s'\<close>, unless the revision counter is full.\<close>

definition moves_to :: "observer_state \<Rightarrow> observer_state \<Rightarrow> disposition \<Rightarrow> observer_result" where
  "moves_to s s' d = (if has_room s then Inr (s', d) else Inl InvalidState)"

lemma quarantined_eq:
  assumes "valid_state sha s" and "os_status s \<noteq> Quarantined"
  shows "quarantined sha s reason = moves_to s (into_quarantine s reason) IsQuarantined"
proof -
  have "clone_state sha (into_quarantine s reason) = (if has_room s then Inr (into_quarantine s reason) else Inl InvalidState)"
    using assms(1) by (intro clone_next into_quarantine_valid) (simp_all add: into_quarantine_def)
  then show ?thesis
    using assms(2) by (simp add: quarantined_def quarantine_state_def with_disposition_def moves_to_def into_quarantine_def)
qed

section \<open>Momentum versions\<close>

definition with_versions :: "observer_state \<Rightarrow> int option \<Rightarrow> int option \<Rightarrow> observer_state" where
  "with_versions s m n = s\<lparr>os_revision := os_revision s + 1, os_maxV1 := m, os_minV2 := n\<rparr>"

lemma with_versions_valid:
  assumes v: "valid_state sha s" and "count_safe (os_revision s + 1)" and "version_bounds_ok m n"
  shows "valid_state sha (with_versions s m n)"
proof -
  let ?q = "with_versions s m n"
  have same: "same_identity s ?q" by (simp add: same_identity_def with_versions_def)
  have fields: "os_inclusion ?q = os_inclusion s" "os_firstThreshold ?q = os_firstThreshold s" "os_lastPage ?q = os_lastPage s"
    "os_checkpoint ?q = os_checkpoint s" "os_status ?q = os_status s" "os_quarantine ?q = os_quarantine s"
    "os_maxV1 ?q = m" "os_minV2 ?q = n" "os_revision ?q = os_revision s + 1"
    by (simp_all add: with_versions_def)
  note receipts = valid_receipt_cong [OF same, unfolded fields, OF refl]
  note eqs = same [unfolded same_identity_def]
  note vs = valid_parts [OF v]
  have "parts_ok sha ?q" using vs(1) assms(2,3) by (simp add: parts_ok_def fields eqs)
  moreover have "identities_checked sha ?q" using vs(2) by (simp add: identities_checked_def eqs)
  moreover have "receipt_checked sha ?q" using vs(3) by (simp add: receipt_checked_def fields receipts)
  moreover have "inclusion_checked ?q" using vs(4) by (simp add: inclusion_checked_def fields eqs)
  moreover have "first_threshold_checked sha ?q"
    using vs(5) by (simp add: first_threshold_checked_def fields eqs receipts cong: option.case_cong)
  moreover have "threshold_receipt_checked ?q"
    using vs(6) by (simp add: threshold_receipt_checked_def fields eqs cong: option.case_cong)
  moreover have "status_checked ?q"
    using vs(7) by (simp add: status_checked_def fields eqs cong: observer_status.case_cong option.case_cong)
  ultimately show ?thesis by (simp add: valid_state_def state_checked_def)
qed

lemma merge_positive:
  "(\<And>a b. f a b \<in> {a, b}) \<Longrightarrow> \<forall>n \<in> set_option old \<union> set_option new. positive_safe n
    \<Longrightarrow> n \<in> set_option (merge_with f old new) \<Longrightarrow> positive_safe n"
proof -
  assume f: "\<And>a b. f a b \<in> {a, b}" and ok: "\<forall>n \<in> set_option old \<union> set_option new. positive_safe n"
    and n: "n \<in> set_option (merge_with f old new)"
  show "positive_safe n"
  proof (cases old; cases new)
    fix a b assume "old = Some a" "new = Some b"
    with n have "n = f a b" by (simp add: merge_with_def)
    with f [of a b] ok \<open>old = Some a\<close> \<open>new = Some b\<close> show ?thesis by auto
  qed (use ok n in \<open>auto simp: merge_with_def\<close>)
qed

lemma merged_bounds:
  assumes "version_bounds_ok m n" "version_bounds_ok a b" "\<not> version_conflict (merge_with max m a) (merge_with min n b)"
  shows "version_bounds_ok (merge_with max m a) (merge_with min n b)"
proof -
  have "positive_safe k" if "k \<in> set_option (merge_with max m a)" for k
    using that assms(1,2) by (intro merge_positive [of max m a]) (auto simp: version_bounds_ok_def max_def)
  moreover have "positive_safe k" if "k \<in> set_option (merge_with min n b)" for k
    using that assms(1,2) by (intro merge_positive [of min n b]) (auto simp: version_bounds_ok_def min_def)
  ultimately show ?thesis using assms(3) by (auto simp: version_bounds_ok_def)
qed

lemma apply_versions_eq:
  assumes v: "valid_state sha s" and live: "os_status s \<noteq> Quarantined" and seen: "version_bounds_ok a b"
  shows "apply_versions sha s a b =
    (let m = merge_with max (os_maxV1 s) a; n = merge_with min (os_minV2 s) b in
     if version_conflict m n then moves_to s (into_quarantine s MomentumVersionConflict) IsQuarantined
     else if m = os_maxV1 s \<and> n = os_minV2 s then Inr (s, Unchanged)
     else moves_to s (with_versions s m n) Applied)"
proof -
  define m where "m = merge_with max (os_maxV1 s) a"
  define n where "n = merge_with min (os_minV2 s) b"
  have bounds: "version_bounds_ok (os_maxV1 s) (os_minV2 s)" using valid_parts(1) [OF v] by (simp add: parts_ok_def)
  have ok: "version_bounds_ok m n" if "\<not> version_conflict m n"
    using merged_bounds [OF bounds seen] that by (simp add: m_def n_def)
  have "clone_state sha (with_versions s m n) = (if has_room s then Inr (with_versions s m n) else Inl InvalidState)"
    if "\<not> version_conflict m n"
    using v ok [OF that] by (intro clone_next with_versions_valid) (simp_all add: with_versions_def)
  then show ?thesis
    unfolding apply_versions_def m_def [symmetric] n_def [symmetric] Let_def
    using quarantined_eq [OF v live]
    by (simp add: with_disposition_def moves_to_def flip: with_versions_def)
qed

end
