(* ===== verification/Observer_Receiving.thy ===== *)
theory Observer_Receiving
  imports Observer_Invariant
begin

text \<open>
  Why the receipt of an accepted page is valid: the scan of the page yields a linked lineage, the plan
  is the one the state itself would make, and so every digest and bound that \<open>validatePageReceipt\<close>
  recomputes is the one stored.
\<close>

section \<open>Lineages\<close>

lemma linked_heights: "linked h p es \<Longrightarrow> e \<in> set es \<Longrightarrow> h < le_height e \<and> le_height e \<le> h + int (length es)"
proof (induction h p es rule: linked.induct)
  case (2 h p x es)
  show ?case
  proof (cases "e = x")
    case False
    then have "h + 1 < le_height e \<and> le_height e \<le> h + 1 + int (length es)" using 2 by simp
    then show ?thesis by simp
  qed (use 2 in simp)
qed simp

lemma linked_last: "linked h p es \<Longrightarrow> es \<noteq> [] \<Longrightarrow> le_height (last es) = h + int (length es)"
proof (induction h p es rule: linked.induct)
  case (2 h p x es)
  then show ?case by (cases "es = []") auto
qed simp

lemma entry_at_None: "(\<And>e. e \<in> set es \<Longrightarrow> le_height e \<noteq> k) \<Longrightarrow> entry_at k es = None"
  by (induction es) simp_all

lemma entry_at_set: "entry_at k es = Some e \<Longrightarrow> e \<in> set es \<and> le_height e = k"
  by (induction es) (auto split: option.splits if_splits)

lemma linked_entry_at: "linked h p es \<Longrightarrow> e \<in> set es \<Longrightarrow> entry_at (le_height e) es = Some e"
proof (induction h p es rule: linked.induct)
  case (2 h p x es)
  show ?case
  proof (cases "e \<in> set es")
    case True
    then show ?thesis using 2 by simp
  next
    case False
    then have "e = x" using 2 by simp
    moreover have "entry_at (le_height x) es = None"
    proof (rule entry_at_None)
      fix y assume "y \<in> set es"
      moreover have "linked (h + 1) (le_hash x) es" "le_height x = h + 1" using 2(2) by simp_all
      ultimately show "le_height y \<noteq> le_height x" using linked_heights by force
    qed
    ultimately show ?thesis by simp
  qed
qed simp

section \<open>The scan of a page\<close>

lemma scan_members_found:
  "scan_members x b e ms seen found = Inr f \<Longrightarrow>
    f = found \<or> f = Some \<lparr>mb_transactionId = x, mb_binding = b, mb_height = pe_height e, mb_hash = pe_hash e\<rparr>"
  by (induction x b e ms seen found rule: scan_members.induct) (auto simp: Let_def split: if_splits)

lemma scan_entries_ok:
  assumes "scan_entries x b es h p found = Inr (lineage, f)"
  shows "lineage = map lineage_of es" and "linked (h - 1) p lineage"
    and "f = found \<or> (\<exists>e \<in> set es. f = Some \<lparr>mb_transactionId = x, mb_binding = b, mb_height = pe_height e, mb_hash = pe_hash e\<rparr>)"
proof -
  have "lineage = map lineage_of es \<and> linked (h - 1) p lineage \<and> (f = found
    \<or> (\<exists>e \<in> set es. f = Some \<lparr>mb_transactionId = x, mb_binding = b, mb_height = pe_height e, mb_hash = pe_hash e\<rparr>))"
    using assms
  proof (induction x b es h p found arbitrary: lineage f rule: scan_entries.induct)
    case (2 x b e es h p found)
    then obtain g rest where "scan_members x b e (pe_members e) [] found = Inr g"
      "scan_entries x b es (h + 1) (pe_hash e) g = Inr (rest, f)" "lineage = lineage_of e # rest" "pe_height e = h" "pe_previousHash e = p"
      by (auto simp: also_then_Inr split: if_splits)
    with 2(1) [of g rest f] scan_members_found [of x b e "pe_members e" "[]" found g] 2(2) show ?case
      by (auto simp: lineage_of_def)
  qed simp
  then show "lineage = map lineage_of es" and "linked (h - 1) p lineage"
    and "f = found \<or> (\<exists>e \<in> set es. f = Some \<lparr>mb_transactionId = x, mb_binding = b, mb_height = pe_height e, mb_hash = pe_hash e\<rparr>)"
    by blast+
qed

section \<open>Plans and pages as read\<close>

definition plan_ok :: "(string \<Rightarrow> string) \<Rightarrow> backfill_plan \<Rightarrow> bool" where
  "plan_ok sha p \<longleftrightarrow> context_ok (bp_context p) \<and> checkpoint_ok (bp_start p) \<and> checkpoint_ok (bp_frontier p)
     \<and> positive_safe (bp_from p) \<and> positive_safe (bp_through p) \<and> positive_safe (bp_count p) \<and> commitment_text (bp_planId p)
     \<and> bp_planId p = plan_id sha (bp_context p) (bp_start p) (bp_frontier p) (bp_from p) (bp_through p) (bp_count p)"

lemma normalize_plan_ok: "normalize_plan sha v = Some p \<Longrightarrow> plan_ok sha p"
  by (auto simp: normalize_plan_def plan_ok_def bind_eq_Some_conv intro: reader_rules)

definition page_entry_ok :: "page_entry \<Rightarrow> bool" where
  "page_entry_ok e \<longleftrightarrow> positive_safe (pe_height e) \<and> hash_text (pe_hash e) \<and> hash_text (pe_previousHash e)"

definition page_ok :: "catch_up \<Rightarrow> momentum_page \<Rightarrow> bool" where
  "page_ok cu pg \<longleftrightarrow> pg_entries pg \<noteq> [] \<and> int (length (pg_entries pg)) \<le> cu_pageEntries cu
     \<and> (\<forall>e \<in> set (pg_entries pg). page_entry_ok e)"

lemma normalize_page_entry_ok: "normalize_page_entry cu v = Some e \<Longrightarrow> page_entry_ok e"
  by (auto simp: normalize_page_entry_def page_entry_ok_def bind_eq_Some_conv intro: reader_rules)

lemma normalize_page_ok: "normalize_page cu v = Some pg \<Longrightarrow> page_ok cu pg"
proof -
  assume "normalize_page cu v = Some pg"
  then obtain items entries where items: "items \<noteq> []" "int (length items) \<le> cu_pageEntries cu"
    and read: "all_some (map (normalize_page_entry cu) items) = Some entries" and pg: "pg_entries pg = entries"
    by (auto simp: normalize_page_def bind_eq_Some_conv)
  have "page_entry_ok e" if "e \<in> set entries" for e
    using all_read [OF read that] by (auto intro: normalize_page_entry_ok)
  moreover have "length entries = length items" using read by (rule all_read_length)
  ultimately show ?thesis using items pg by (auto simp: page_ok_def)
qed

text \<open>The canonical text of a plan determines the plan.\<close>

lemma same_plan: "same_json (plan_json p) (plan_json q) \<longleftrightarrow> p = q"
proof
  assume eq: "same_json (plan_json p) (plan_json q)"
  note m = same_members [OF eq [unfolded same_json_iff plan_json_def plan_members_def context_members_def append.simps]]
  note inner = same_checkpoint [unfolded same_json_iff] same_generation [unfolded same_json_iff]
  have "bp_context p = bp_context q"
    using m [of "''observerRecordId''"] m [of "''targetBindingDigest''"] m [of "''authorityGeneration''"] m [of "''chainProfile''"]
    by (simp add: inner)
  moreover have "bp_start p = bp_start q" "bp_frontier p = bp_frontier q"
    using m [of "''startCheckpoint''"] m [of "''frontier''"] by (simp_all add: inner)
  moreover have "bp_from p = bp_from q" "bp_through p = bp_through q" "bp_count p = bp_count q" "bp_planId p = bp_planId q"
    using m [of "''fromHeight''"] m [of "''throughHeight''"] m [of "''entryCount''"] m [of "''planId''"] by simp_all
  ultimately show "p = q" by simp
qed simp

text \<open>Two receipts with the same text end at the same checkpoint.\<close>

lemma same_receipt_end: "same_json (receipt_json r) (receipt_json q) \<Longrightarrow> rc_end r = rc_end q"
proof -
  assume eq: "same_json (receipt_json r) (receipt_json q)"
  note m = same_members [OF eq [unfolded same_json_iff receipt_json_def]]
  show ?thesis using m [of "''endCheckpoint''"] by (simp add: same_checkpoint [unfolded same_json_iff])
qed

section \<open>The receipt of an accepted page\<close>

text \<open>What is known when \<open>applyZenonFundingObserverPage\<close> has passed all of its checks.\<close>

definition accepted_page :: "(string \<Rightarrow> string) \<Rightarrow> observer_state \<Rightarrow> backfill_plan \<Rightarrow> momentum_page \<Rightarrow> page_receipt \<Rightarrow> bool" where
  "accepted_page sha s p pg r \<longleftrightarrow> valid_state sha s \<and> os_status s \<noteq> Quarantined \<and> plan_ok sha p \<and> page_ok (os_catchUp s) pg
     \<and> p = make_plan sha s (bp_frontier p) \<and> pg_start pg = bp_start p \<and> pg_frontier pg = bp_frontier p
     \<and> int (length (pg_entries pg)) = bp_count p
     \<and> (\<exists>lineage found. scan_entries (os_transactionId s) (os_binding s) (pg_entries pg) (bp_from p) (ck_hash (pg_start pg)) None
          = Inr (lineage, found) \<and> r = page_receipt_of sha (own_context s) p pg lineage found)
     \<and> ck_height (rc_end r) = bp_through p
     \<and> (ck_height (rc_end r) = ck_height (pg_frontier pg) \<longrightarrow> ck_hash (rc_end r) = ck_hash (pg_frontier pg))"

lemma accepted_page_facts:
  assumes "accepted_page sha s p pg r"
  shows "rc_start r = os_checkpoint s" "rc_frontier r = bp_frontier p" "rc_planId r = bp_planId p"
    "bp_from p = ck_height (os_checkpoint s) + 1" "bp_start p = os_checkpoint s" "bp_context p = own_context s"
    "bp_through p = bounded_through (os_catchUp s) (ck_height (os_checkpoint s)) (ck_height (bp_frontier p))"
    "rc_count r = bp_through p - ck_height (os_checkpoint s)" "rc_lineage r = map lineage_of (pg_entries pg)"
    "linked (ck_height (os_checkpoint s)) (ck_hash (os_checkpoint s)) (rc_lineage r)" "rc_threshold r = None"
    "rc_end r = \<lparr>ck_height = pe_height (last (pg_entries pg)), ck_hash = pe_hash (last (pg_entries pg))\<rparr>"
    "rc_pageDigest r = page_receipt_digest sha (own_context s) r"
    "rc_membership r = None \<or> (\<exists>e \<in> set (pg_entries pg). rc_membership r = Some \<lparr>mb_transactionId = os_transactionId s,
       mb_binding = os_binding s, mb_height = pe_height e, mb_hash = pe_hash e\<rparr>)"
proof -
  obtain lineage found where scan: "scan_entries (os_transactionId s) (os_binding s) (pg_entries pg) (bp_from p)
      (ck_hash (pg_start pg)) None = Inr (lineage, found)"
    and r: "r = page_receipt_of sha (own_context s) p pg lineage found"
    using assms by (auto simp: accepted_page_def)
  have plan: "p = make_plan sha s (bp_frontier p)" using assms by (simp add: accepted_page_def)
  note fields = arg_cong [OF plan, of bp_from] arg_cong [OF plan, of bp_start] arg_cong [OF plan, of bp_context]
    arg_cong [OF plan, of bp_through] arg_cong [OF plan, of bp_count]
  show first: "bp_from p = ck_height (os_checkpoint s) + 1" and start: "bp_start p = os_checkpoint s"
    and "bp_context p = own_context s"
    and "bp_through p = bounded_through (os_catchUp s) (ck_height (os_checkpoint s)) (ck_height (bp_frontier p))"
    using fields by (simp_all add: make_plan_def Let_def)
  have entries: "bp_count p = bp_through p - ck_height (os_checkpoint s)"
    using fields by (simp add: make_plan_def Let_def)
  have given: "pg_start pg = bp_start p" "pg_frontier pg = bp_frontier p" "int (length (pg_entries pg)) = bp_count p"
    using assms by (simp_all add: accepted_page_def)
  show "rc_start r = os_checkpoint s" "rc_frontier r = bp_frontier p" "rc_planId r = bp_planId p"
    "rc_count r = bp_through p - ck_height (os_checkpoint s)" "rc_threshold r = None"
    "rc_end r = \<lparr>ck_height = pe_height (last (pg_entries pg)), ck_hash = pe_hash (last (pg_entries pg))\<rparr>"
    using given entries start by (simp_all add: r page_receipt_of_def Let_def)
  show "rc_pageDigest r = page_receipt_digest sha (own_context s) r"
    by (simp add: r page_receipt_of_def Let_def page_receipt_digest_def receipt_members_def)
  show "rc_lineage r = map lineage_of (pg_entries pg)"
    "linked (ck_height (os_checkpoint s)) (ck_hash (os_checkpoint s)) (rc_lineage r)"
    using scan_entries_ok(1,2) [OF scan] given start first by (simp_all add: r page_receipt_of_def Let_def)
  show "rc_membership r = None \<or> (\<exists>e \<in> set (pg_entries pg). rc_membership r = Some \<lparr>mb_transactionId = os_transactionId s,
       mb_binding = os_binding s, mb_height = pe_height e, mb_hash = pe_hash e\<rparr>)"
    using scan_entries_ok(3) [OF scan] by (simp add: r page_receipt_of_def Let_def)
qed

lemma accepted_heights:
  assumes "accepted_page sha s p pg r"
  shows "ck_height (os_checkpoint s) < ck_height (rc_end r)"
    and "ck_height (rc_end r) = ck_height (os_checkpoint s) + int (length (pg_entries pg))"
    and "ck_height (rc_end r) \<le> ck_height (rc_frontier r)"
    and "length (pg_entries pg) \<le> 64"
proof -
  note facts = accepted_page_facts [OF assms]
  have page: "pg_entries pg \<noteq> []" "int (length (pg_entries pg)) \<le> cu_pageEntries (os_catchUp s)"
    "int (length (pg_entries pg)) = bp_count p" "ck_height (rc_end r) = bp_through p"
    using assms by (auto simp: accepted_page_def page_ok_def)
  have "bp_count p = bp_through p - ck_height (os_checkpoint s)"
    using assms facts(8) by (auto simp: accepted_page_def page_receipt_of_def Let_def)
  then show eq: "ck_height (rc_end r) = ck_height (os_checkpoint s) + int (length (pg_entries pg))"
    using page by simp
  then show "ck_height (os_checkpoint s) < ck_height (rc_end r)" using page(1) by simp
  show "ck_height (rc_end r) \<le> ck_height (rc_frontier r)"
    using page(4) facts(2,7) by (simp add: bounded_through_def)
  show "length (pg_entries pg) \<le> 64"
    using page(2) assms by (auto simp: accepted_page_def valid_state_def parts_ok_def catch_up_ok_def)
qed

lemma accepted_receipt_ok:
  assumes a: "accepted_page sha s p pg r" and sha: "hex_digest sha"
  shows "receipt_ok (with_threshold s r)"
proof -
  note facts = accepted_page_facts [OF a] and heights = accepted_heights [OF a]
  have v: "valid_state sha s" and plan: "plan_ok sha p" and page: "page_ok (os_catchUp s) pg"
    using a by (simp_all add: accepted_page_def)
  have final: "page_entry_ok (last (pg_entries pg))" using page by (simp add: page_ok_def)
  have ends: "checkpoint_ok (rc_end r)"
    using final by (simp add: facts(12) checkpoint_ok_def page_entry_ok_def positive_count)
  have parts: "checkpoint_ok (os_checkpoint s)" "zenon_transaction (os_transactionId s)" "commitment_text (os_binding s)"
    using valid_parts(1) [OF v] by (simp_all add: parts_ok_def target_ok_def)
  have member: "membership_ok m" if "rc_membership r = Some m" for m
    using facts(14) that page parts(2,3) by (auto simp: membership_ok_def page_ok_def page_entry_ok_def)
  have entries: "entry_ok e" if "e \<in> set (rc_lineage r)" for e
    using that page by (auto simp: facts(9) entry_ok_def page_ok_def page_entry_ok_def lineage_of_def)
  have "positive_safe (rc_count r)"
    using heights(2,4) facts(8) plan a by (auto simp: accepted_page_def plan_ok_def positive_safe_def max_safe_def)
  moreover have "receipt_shape (rc_start r) (rc_end r) (rc_frontier r) (rc_count r) (length (rc_lineage r))"
    using heights facts(1,8,9) a plan by (simp add: receipt_shape_def accepted_page_def plan_ok_def positive_safe_def)
  moreover have "commitment_text (rc_pageDigest r)" using sha by (simp add: facts(13) page_receipt_digest_def)
  ultimately show ?thesis
    using ends parts(1) member entries plan
    by (auto simp: receipt_ok_def with_threshold_def Let_def facts(1,2,3) plan_ok_def)
qed

end
