(* ===== verification/Observer_Applying.thy ===== *)
theory Observer_Applying
  imports Observer_Receiving
begin

text \<open>
  Applying an accepted page and including a found target lead to valid states: the guards of
  \<open>updateIncludedState\<close> and of the inclusion observation that would quarantine the state after every
  other check has passed never fire.
\<close>

section \<open>The threshold of the new receipt\<close>

text \<open>The target, if it is on the page and already included, is included by the same momentum.\<close>

definition same_tuple :: "observer_state \<Rightarrow> page_receipt \<Rightarrow> bool" where
  "same_tuple s r \<longleftrightarrow> (\<forall>i \<in> set_option (os_inclusion s). \<forall>m \<in> set_option (rc_membership r).
     mb_height m = in_height i \<and> mb_hash m = mb_hash (in_membership i))"

lemma with_threshold_fields [simp]:
  "rc_planId (with_threshold s r) = rc_planId r" "rc_pageDigest (with_threshold s r) = rc_pageDigest r"
  "rc_start (with_threshold s r) = rc_start r" "rc_end (with_threshold s r) = rc_end r"
  "rc_frontier (with_threshold s r) = rc_frontier r" "rc_count (with_threshold s r) = rc_count r"
  "rc_lineage (with_threshold s r) = rc_lineage r" "rc_membership (with_threshold s r) = rc_membership r"
  by (simp_all add: with_threshold_def Let_def)

lemma reached_with_threshold [simp]: "threshold_reached n (with_threshold s r) i = threshold_reached n r i"
  by (simp add: threshold_reached_def receipt_membership_def cong: option.case_cong)

lemma receipt_membership_with_threshold [simp]: "receipt_membership (with_threshold s r) i = receipt_membership r i"
  by (simp add: receipt_membership_def cong: option.case_cong)

lemma threshold_of:
  assumes "same_tuple s r"
  shows "rc_threshold (with_threshold s r)
    = (if os_firstThreshold s = None \<and> threshold_reached (os_minimum s) r (os_inclusion s) then Some (rc_end r) else None)"
  using assms
  by (cases "os_inclusion s"; cases "rc_membership r")
    (auto simp: with_threshold_def threshold_reached_def receipt_membership_def same_tuple_def)

lemma accepted_receipt_valid:
  assumes a: "accepted_page sha s p pg r" and tuple: "same_tuple s r"
  shows "valid_receipt sha s (with_threshold s r)"
proof -
  note facts = accepted_page_facts [OF a] and heights = accepted_heights [OF a]
  have page: "pg_entries pg \<noteq> []" "int (length (pg_entries pg)) \<le> cu_pageEntries (os_catchUp s)"
    "ck_height (rc_end r) = ck_height (rc_frontier r) \<longrightarrow> ck_hash (rc_end r) = ck_hash (rc_frontier r)"
    "bp_through p = ck_height (rc_end r)" "bp_count p = rc_count r"
    and plan: "bp_planId p = plan_id sha (bp_context p) (bp_start p) (bp_frontier p) (bp_from p) (bp_through p) (bp_count p)"
    using a facts(2,8) heights(2) by (simp_all add: accepted_page_def page_ok_def plan_ok_def)
  have member: "membership_linked (os_transactionId s) (os_binding s) (with_threshold s r) m" if m: "rc_membership r = Some m" for m
  proof -
    obtain e where e: "e \<in> set (pg_entries pg)" "m = \<lparr>mb_transactionId = os_transactionId s, mb_binding = os_binding s,
        mb_height = pe_height e, mb_hash = pe_hash e\<rparr>"
      using facts(14) m by auto
    then have mem: "lineage_of e \<in> set (rc_lineage r)" by (simp add: facts(9))
    have "entry_at (pe_height e) (rc_lineage r) = Some (lineage_of e)"
      using linked_entry_at [OF facts(10) mem] by (simp add: lineage_of_def)
    moreover have "ck_height (os_checkpoint s) < pe_height e \<and> pe_height e \<le> ck_height (rc_end r)"
      using linked_heights [OF facts(10) mem] heights(2) by (simp add: lineage_of_def facts(9))
    ultimately show ?thesis by (simp add: membership_linked_def e(2) facts(1) lineage_of_def)
  qed
  have digest: "page_receipt_digest sha (own_context s) (with_threshold s r) = page_receipt_digest sha (own_context s) r"
    by (simp add: page_receipt_digest_def receipt_members_def)
  have "last (rc_lineage r) = lineage_of (last (pg_entries pg))" using page(1) by (simp add: facts(9) last_map)
  moreover have "int (length (rc_lineage r)) = rc_count r"
    using heights(2) facts(8) page(4) by (simp add: facts(9))
  ultimately show ?thesis
    using plan page(2,3) member heights(1) facts(7,10,13)
    by (auto simp: valid_receipt_def validate_page_receipt_def own_context_def [THEN arg_cong, of cx_binding] facts(1,3)
        facts(2)[symmetric] page(4,5) facts(4,5,6) lineage_of_def facts(12) [THEN arg_cong, of ck_height]
        facts(12) [THEN arg_cong, of ck_hash] facts(9) digest threshold_of [OF tuple] split: if_splits)
qed

section \<open>After a page\<close>

definition confirmed :: "checkpoint \<Rightarrow> inclusion \<Rightarrow> inclusion" where
  "confirmed c i = i\<lparr>in_confirmations := ck_height c - in_height i + 1\<rparr>"

definition threshold_after :: "observer_state \<Rightarrow> page_receipt \<Rightarrow> first_threshold option" where
  "threshold_after s r = (case (os_inclusion s, os_firstThreshold s, rc_threshold r) of
     (Some i, None, Some c) \<Rightarrow> Some \<lparr>ft_checkpoint = c, ft_confirmations = ck_height c - in_height i + 1, ft_receipt = r\<rparr>
   | _ \<Rightarrow> os_firstThreshold s)"

definition after_page :: "observer_state \<Rightarrow> page_receipt \<Rightarrow> observer_state" where
  "after_page s r = s\<lparr>os_revision := os_revision s + 1, os_checkpoint := rc_end r, os_lastPage := Some r,
     os_status := if os_inclusion s = None then AwaitingInclusion
       else if threshold_after s r = None then IncludedBelowThreshold else ThresholdObserved,
     os_inclusion := map_option (confirmed (rc_end r)) (os_inclusion s), os_firstThreshold := threshold_after s r\<rparr>"

lemma after_page_fields [simp]:
  "os_revision (after_page s r) = os_revision s + 1" "os_checkpoint (after_page s r) = rc_end r"
  "os_lastPage (after_page s r) = Some r" "os_inclusion (after_page s r) = map_option (confirmed (rc_end r)) (os_inclusion s)"
  "os_firstThreshold (after_page s r) = threshold_after s r" "os_quarantine (after_page s r) = os_quarantine s"
  "os_maxV1 (after_page s r) = os_maxV1 s" "os_minV2 (after_page s r) = os_minV2 s" "same_identity s (after_page s r)"
  by (simp_all add: after_page_def same_identity_def)

lemma confirmed_fields [simp]: "in_membership (confirmed c i) = in_membership i"
  "in_authorizationId (confirmed c i) = in_authorizationId i" "in_confirmations (confirmed c i) = ck_height c - in_height i + 1"
  by (simp_all add: confirmed_def)

lemma included_before:
  assumes "valid_state sha s" "os_inclusion s = Some i"
  shows "in_height i \<le> ck_height (os_checkpoint s)" "positive_safe (in_height i)"
    "in_confirmations i = ck_height (os_checkpoint s) - in_height i + 1"
  using valid_parts(1,4) [OF assms(1)] assms(2)
  by (auto simp: parts_ok_def inclusion_checked_def inclusion_ok_def membership_ok_def)

lemma confirmations_safe: "checkpoint_ok c \<Longrightarrow> positive_safe h \<Longrightarrow> h \<le> ck_height c \<Longrightarrow> positive_safe (ck_height c - h + 1)"
  by (auto simp: checkpoint_ok_def count_safe_def positive_safe_def)

lemma reached_included:
  "same_tuple s r \<Longrightarrow> os_inclusion s = Some i \<Longrightarrow> threshold_reached n r (Some i) \<longleftrightarrow> n \<le> ck_height (rc_end r) - in_height i + 1"
  by (cases "rc_membership r") (simp_all add: same_tuple_def threshold_reached_def receipt_membership_def)

text \<open>The three kinds of state a page can lead to.\<close>

lemma after_page_cases:
  assumes v: "valid_state sha s" and live: "os_status s \<noteq> Quarantined" and tuple: "same_tuple s r"
    and threshold: "rc_threshold r = (if os_firstThreshold s = None \<and> threshold_reached (os_minimum s) r (os_inclusion s)
      then Some (rc_end r) else None)" and higher: "ck_height (os_checkpoint s) < ck_height (rc_end r)"
  obtains (awaiting) "os_inclusion s = None" "os_firstThreshold s = None" "threshold_after s r = None"
      "(rc_threshold r \<noteq> None) = threshold_reached (os_minimum s) r None"
    | (below) i where "os_inclusion s = Some i" "os_firstThreshold s = None" "threshold_after s r = None"
        "rc_threshold r = None" "ck_height (rc_end r) - in_height i + 1 < os_minimum s"
    | (reached) i where "os_inclusion s = Some i" "os_firstThreshold s = None" "rc_threshold r = Some (rc_end r)"
        "threshold_after s r = Some \<lparr>ft_checkpoint = rc_end r, ft_confirmations = ck_height (rc_end r) - in_height i + 1, ft_receipt = r\<rparr>"
        "os_minimum s \<le> ck_height (rc_end r) - in_height i + 1"
    | (kept) i t where "os_inclusion s = Some i" "os_firstThreshold s = Some t" "threshold_after s r = Some t"
        "rc_threshold r = None" "os_minimum s \<le> ck_height (rc_end r) - in_height i + 1"
proof (cases "os_inclusion s")
  case None
  then show thesis
    using live_state(2) [OF v live None] threshold by (intro awaiting) (simp_all add: threshold_after_def)
next
  case (Some i)
  note reach = reached_included [OF tuple Some, of "os_minimum s"]
  show thesis
  proof (cases "os_firstThreshold s")
    case None
    show thesis
    proof (cases "os_minimum s \<le> ck_height (rc_end r) - in_height i + 1")
      case True
      then show thesis using Some None threshold reach by (intro reached [of i]) (simp_all add: threshold_after_def)
    next
      case False
      then show thesis using Some None threshold reach by (intro below [of i]) (simp_all add: threshold_after_def)
    qed
  next
    case t: (Some t)
    have "os_minimum s \<le> in_confirmations i" using threshold_confirmed(1) [OF valid_parts(5) [OF v] valid_parts(4) [OF v] t Some] .
    then have "os_minimum s \<le> ck_height (rc_end r) - in_height i + 1"
      using included_before(3) [OF v Some] higher by simp
    then show thesis using Some t threshold by (intro kept [of i t]) (simp_all add: threshold_after_def)
  qed
qed

lemma authorized_ok: "hex_digest sha \<Longrightarrow> commitment_text (authorized sha r n m)"
  by (simp add: authorized_def inclusion_authorization_id_def)

lemma after_page_valid:
  assumes a: "accepted_page sha s p pg r" and tuple: "same_tuple s r" and sha: "hex_digest sha"
    and room: "count_safe (os_revision s + 1)"
  shows "valid_state sha (after_page s (with_threshold s r))"
proof -
  define r' where "r' = with_threshold s r"
  define q where "q = after_page s r'"
  have v: "valid_state sha s" and live: "os_status s \<noteq> Quarantined" using a by (simp_all add: accepted_page_def)
  note vs = valid_parts [OF v]
  have higher: "ck_height (os_checkpoint s) < ck_height (rc_end r')" using accepted_heights(1) [OF a] by (simp add: r'_def)
  have ok: "receipt_ok r'" using accepted_receipt_ok [OF a sha] by (simp add: r'_def)
  then have ends: "checkpoint_ok (rc_end r')" by (simp add: receipt_ok_def)
  have same: "same_identity s q" by (simp add: q_def)
  note eqs = same [unfolded same_identity_def]
  have fields: "os_checkpoint q = rc_end r'" "os_lastPage q = Some r'" "os_quarantine q = os_quarantine s"
    "os_inclusion q = map_option (confirmed (rc_end r')) (os_inclusion s)" "os_firstThreshold q = threshold_after s r'"
    "os_maxV1 q = os_maxV1 s" "os_minV2 q = os_minV2 s" "os_revision q = os_revision s + 1"
    by (simp_all add: q_def)
  have memberships: "map_option in_membership (os_inclusion q) = map_option in_membership (os_inclusion s)"
    by (cases "os_inclusion s") (simp_all add: fields)
  note receipts = valid_receipt_cong [OF same memberships] threshold_cong [OF memberships]
  have valid: "valid_receipt sha s r'" using accepted_receipt_valid [OF a tuple] by (simp add: r'_def)
  have tuple': "same_tuple s r'" using tuple by (simp only: same_tuple_def r'_def with_threshold_fields)
  have threshold: "rc_threshold r' = (if os_firstThreshold s = None \<and> threshold_reached (os_minimum s) r' (os_inclusion s)
      then Some (rc_end r') else None)"
    using threshold_of [OF tuple] by (simp add: r'_def)
  note cases = after_page_cases [OF v live tuple' threshold higher, case_names awaiting below reached kept]
  have safe: "positive_safe (ck_height (rc_end r') - in_height i + 1)" "in_height i \<le> ck_height (rc_end r')"
    if "os_inclusion s = Some i" for i
    using included_before [OF v that] higher ends by (auto intro!: confirmations_safe)
  note parts = vs(1) [unfolded parts_ok_def]
  have "inclusion_ok sha (os_recordId s) (os_minimum s) (confirmed (rc_end r') i)" if "os_inclusion s = Some i" for i
    using parts safe(1) [OF that] that authorized_ok [OF sha] by (simp add: inclusion_ok_def)
  moreover have "first_threshold_ok t" if "threshold_after s r' = Some t" for t
    using parts ends ok safe(1) that by (cases rule: cases) (auto simp: first_threshold_ok_def)
  ultimately have "parts_ok sha q"
    using parts ok ends room by (simp add: parts_ok_def fields eqs option.set_map)
  moreover have "identities_checked sha q" using vs(2) by (simp add: identities_checked_def eqs)
  moreover have "receipt_checked sha q" using valid by (simp add: receipt_checked_def fields receipts)
  moreover have "inclusion_checked q"
    using vs(4) safe(2) by (auto simp: inclusion_checked_def fields eqs)
  moreover have "first_threshold_checked sha q"
  proof (cases rule: cases)
    case (kept i t)
    then show ?thesis
      using vs(5) higher by (auto simp: first_threshold_checked_def fields eqs receipts receipt_membership_def split: option.splits)
  next
    case (reached i)
    have "receipt_membership r' (Some (confirmed (rc_end r') i)) = Some (in_membership i)"
      using reached(1) tuple' valid vs(4)
      by (cases "rc_membership r'")
        (simp_all add: receipt_membership_def same_tuple_def valid_receipt_def validate_page_receipt_def membership_linked_def
          inclusion_checked_def own_context_def)
    with reached show ?thesis
      using valid by (simp add: first_threshold_checked_def fields eqs receipts)
  qed (simp_all add: first_threshold_checked_def fields eqs)
  moreover have "threshold_receipt_checked q"
  proof -
    have "\<not> same_json (receipt_json r') (receipt_json (ft_receipt t))" if "os_inclusion s = Some i" "os_firstThreshold s = Some t" for i t
      using threshold_confirmed(3) [OF vs(5,4) that(2,1)] higher same_receipt_end [of r' "ft_receipt t"] by auto
    moreover have "threshold_reached n r' (Some (confirmed c i)) \<longleftrightarrow> n \<le> ck_height (rc_end r') - in_height i + 1"
      if "os_inclusion s = Some i" for n c i
      using threshold_cong [of "Some (confirmed c i)" "Some i" n r'] reached_included [OF tuple' that] by simp
    ultimately show ?thesis
      using tuple' by (cases rule: cases) (auto simp: threshold_receipt_checked_def fields eqs receipts same_tuple_def)
  qed
  moreover have "status_checked q"
    using live_state(1) [OF v live]
    by (cases rule: cases) (auto simp: status_checked_def fields eqs, auto simp: q_def after_page_def)
  ultimately show ?thesis by (simp add: valid_state_def state_checked_def q_def r'_def)
qed

lemma update_included_eq:
  assumes a: "accepted_page sha s p pg r" and tuple: "same_tuple s r" and sha: "hex_digest sha"
  shows "with_disposition (update_included sha s (rc_end r) (with_threshold s r)) Applied
    = moves_to s (after_page s (with_threshold s r)) Applied"
proof -
  define r' where "r' = with_threshold s r"
  have v: "valid_state sha s" and live: "os_status s \<noteq> Quarantined" using a by (simp_all add: accepted_page_def)
  have ends: "rc_end r' = rc_end r" by (simp add: r'_def)
  have higher: "ck_height (os_checkpoint s) < ck_height (rc_end r')" using accepted_heights(1) [OF a] by (simp add: ends)
  have tuple': "same_tuple s r'" using tuple by (simp only: same_tuple_def r'_def with_threshold_fields)
  have threshold: "rc_threshold r' = (if os_firstThreshold s = None \<and> threshold_reached (os_minimum s) r' (os_inclusion s)
      then Some (rc_end r') else None)"
    using threshold_of [OF tuple] by (simp add: r'_def)
  have clone: "clone_state sha (after_page s r') = (if has_room s then Inr (after_page s r') else Inl InvalidState)"
    using v after_page_valid [OF a tuple sha] by (intro clone_next) (simp_all add: r'_def)
  have "update_included sha s (rc_end r') r' = clone_state sha (after_page s r')"
  proof (cases rule: after_page_cases [OF v live tuple' threshold higher, case_names awaiting below reached kept])
    case awaiting
    then have "after_page s r' = s\<lparr>os_revision := os_revision s + 1, os_checkpoint := rc_end r', os_lastPage := Some r'\<rparr>"
      using live_state(2) [OF v live] by (simp add: after_page_def)
    then show ?thesis using awaiting by (simp add: update_included_def)
  next
    case (below i)
    then show ?thesis
      using included_before [OF v below(1)] higher by (simp add: update_included_def after_page_def Let_def confirmed_def)
  next
    case (reached i)
    then show ?thesis
      using included_before [OF v reached(1)] higher by (simp add: update_included_def after_page_def Let_def confirmed_def)
  next
    case (kept i t)
    then show ?thesis
      using included_before [OF v kept(1)] higher by (simp add: update_included_def after_page_def Let_def confirmed_def)
  qed
  then show ?thesis
    using clone by (simp add: with_disposition_def moves_to_def ends r'_def)
qed

text \<open>A page is refused with a quarantine, or its receipt is considered.\<close>

lemma apply_page_form:
  "(\<exists>reason. apply_page sha s p pg = quarantined sha s reason) \<or>
   (\<exists>lineage found. let r = page_receipt_of sha (own_context s) p pg lineage found in
     scan_entries (os_transactionId s) (os_binding s) (pg_entries pg) (bp_from p) (ck_hash (pg_start pg)) None = Inr (lineage, found)
     \<and> pg_start pg = bp_start p \<and> pg_frontier pg = bp_frontier p \<and> int (length (pg_entries pg)) = bp_count p
     \<and> ck_height (rc_end r) = bp_through p
     \<and> (ck_height (rc_end r) = ck_height (pg_frontier pg) \<longrightarrow> ck_hash (rc_end r) = ck_hash (pg_frontier pg))
     \<and> apply_page sha s p pg = accept_receipt sha s p r)"
proof (cases "scan_entries (os_transactionId s) (os_binding s) (pg_entries pg) (bp_from p) (ck_hash (pg_start pg)) None")
  case (Inl reason)
  then show ?thesis by (auto simp: apply_page_def)
next
  case (Inr result)
  obtain lineage found where result: "result = (lineage, found)" by (cases result)
  define r where "r = page_receipt_of sha (own_context s) p pg lineage found"
  have "(\<exists>reason. apply_page sha s p pg = quarantined sha s reason)
    \<or> pg_start pg = bp_start p \<and> pg_frontier pg = bp_frontier p \<and> int (length (pg_entries pg)) = bp_count p
     \<and> ck_height (rc_end r) = bp_through p
     \<and> (ck_height (rc_end r) = ck_height (pg_frontier pg) \<longrightarrow> ck_hash (rc_end r) = ck_hash (pg_frontier pg))
     \<and> apply_page sha s p pg = accept_receipt sha s p r"
    unfolding apply_page_def Inr result sum.case prod.case r_def [symmetric] Let_def by auto
  then show ?thesis using Inr result by (auto simp: r_def Let_def)
qed

text \<open>Everything applying a page can do to a valid state.\<close>

lemma apply_page_cases:
  assumes v: "valid_state sha s" and live: "os_status s \<noteq> Quarantined" and plan: "plan_ok sha p"
    and page: "page_ok (os_catchUp s) pg" and sha: "hex_digest sha"
  obtains (quarantine) reason where "apply_page sha s p pg = moves_to s (into_quarantine s reason) IsQuarantined"
    | (replay) "apply_page sha s p pg = Inr (s, Replayed)"
    | (pending) "apply_page sha s p pg = Inr (s, InclusionRequired)" "inclusion_pending s"
    | (applied) r where "accepted_page sha s p pg r" "same_tuple s r" "\<not> inclusion_pending s"
        "apply_page sha s p pg = moves_to s (after_page s (with_threshold s r)) Applied"
proof -
  note quarantined = quarantined_eq [OF v live]
  define r where "r lineage found = page_receipt_of sha (own_context s) p pg lineage found" for lineage found
  show thesis
  proof (cases "\<exists>reason. apply_page sha s p pg = quarantined sha s reason")
    case True
    then show thesis using quarantined quarantine by auto
  next
    case False
    then have no: "apply_page sha s p pg \<noteq> quarantined sha s reason" for reason by blast
    from no obtain lineage found where
      scan: "scan_entries (os_transactionId s) (os_binding s) (pg_entries pg) (bp_from p) (ck_hash (pg_start pg)) None = Inr (lineage, found)"
      and given: "pg_start pg = bp_start p" "pg_frontier pg = bp_frontier p" "int (length (pg_entries pg)) = bp_count p"
      and ends: "ck_height (rc_end (r lineage found)) = bp_through p"
        "ck_height (rc_end (r lineage found)) = ck_height (pg_frontier pg) \<longrightarrow> ck_hash (rc_end (r lineage found)) = ck_hash (pg_frontier pg)"
      and result: "apply_page sha s p pg = accept_receipt sha s p (r lineage found)"
      using apply_page_form [of sha s p pg] unfolding Let_def r_def by blast
    have m: "rc_membership (r lineage found) = found" by (simp add: r_def page_receipt_of_def Let_def)
    show thesis
    proof (cases "replayed s (r lineage found)")
      case True
      then show thesis using result replay by (simp add: accept_receipt_def)
    next
      case fresh: False
      show thesis
      proof (cases "inclusion_pending s")
        case True
        then show thesis using result fresh pending by (simp add: accept_receipt_def)
      next
        case False
        have own: "p = make_plan sha s (bp_frontier p)"
          using no result fresh False by (auto simp: accept_receipt_def same_plan split: if_splits)
        then have accepted: "accepted_page sha s p pg (r lineage found)"
          using v live plan page given ends scan by (auto simp: accepted_page_def r_def)
        have tuple: "same_tuple s (r lineage found)"
          using no result fresh False own
          by (auto simp: accept_receipt_def same_plan same_tuple_def m split: if_splits option.splits)
        have "apply_page sha s p pg = with_disposition (update_included sha s (rc_end (r lineage found)) (with_threshold s (r lineage found))) Applied"
          using no result fresh False own
          by (auto simp: accept_receipt_def same_plan split: if_splits)
        then show thesis using applied [OF accepted tuple False] update_included_eq [OF accepted tuple sha] by simp
      qed
    qed
  qed
qed

end
