(* ===== verification/Observer_Including.thy ===== *)
theory Observer_Including
  imports Observer_Applying
begin

text \<open>
  Including the target that a page has shown, and the resulting step function of the observer: what
  every input can do to a valid state.
\<close>

section \<open>After an inclusion\<close>

definition new_inclusion :: "(string \<Rightarrow> string) \<Rightarrow> observer_state \<Rightarrow> membership \<Rightarrow> inclusion" where
  "new_inclusion sha s m = \<lparr>in_membership = m, in_authorizationId = authorized sha (os_recordId s) (os_minimum s) m,
     in_confirmations = ck_height (os_checkpoint s) - mb_height m + 1\<rparr>"

definition threshold_at_inclusion :: "observer_state \<Rightarrow> membership \<Rightarrow> page_receipt \<Rightarrow> first_threshold option" where
  "threshold_at_inclusion s m r = map_option (\<lambda>c. \<lparr>ft_checkpoint = c,
     ft_confirmations = ck_height (os_checkpoint s) - mb_height m + 1, ft_receipt = r\<rparr>) (rc_threshold r)"

definition after_inclusion :: "(string \<Rightarrow> string) \<Rightarrow> observer_state \<Rightarrow> membership \<Rightarrow> page_receipt \<Rightarrow> observer_state" where
  "after_inclusion sha s m r = s\<lparr>os_revision := os_revision s + 1,
     os_status := if threshold_at_inclusion s m r = None then IncludedBelowThreshold else ThresholdObserved,
     os_inclusion := Some (new_inclusion sha s m), os_firstThreshold := threshold_at_inclusion s m r\<rparr>"

text \<open>The target is on the last page of a valid state.\<close>

definition shown_on :: "(string \<Rightarrow> string) \<Rightarrow> observer_state \<Rightarrow> page_receipt \<Rightarrow> membership \<Rightarrow> bool" where
  "shown_on sha s r m \<longleftrightarrow> valid_state sha s \<and> os_status s \<noteq> Quarantined \<and> os_inclusion s = None
     \<and> os_lastPage s = Some r \<and> rc_membership r = Some m"

lemma shown_facts:
  assumes "shown_on sha s r m"
  shows "rc_end r = os_checkpoint s" "valid_receipt sha s r" "receipt_ok r" "membership_ok m" "os_firstThreshold s = None"
    "os_status s = AwaitingInclusion" "mb_transactionId m = os_transactionId s" "mb_binding m = os_binding s"
    "mb_height m \<le> ck_height (os_checkpoint s)"
    "rc_threshold r = (if os_minimum s \<le> ck_height (os_checkpoint s) - mb_height m + 1 then Some (os_checkpoint s) else None)"
    "entry_at (mb_height m) (rc_lineage r) \<noteq> None" "mb_hash m = le_hash (the (entry_at (mb_height m) (rc_lineage r)))"
proof -
  have v: "valid_state sha s" and live: "os_status s \<noteq> Quarantined" and none: "os_inclusion s = None"
    and last: "os_lastPage s = Some r" and m: "rc_membership r = Some m"
    using assms by (simp_all add: shown_on_def)
  note vs = valid_parts [OF v]
  show first: "os_firstThreshold s = None" and "os_status s = AwaitingInclusion" using live_state(2) [OF v live none] by simp_all
  show ends: "rc_end r = os_checkpoint s" and valid: "valid_receipt sha s r" using vs(3) last by (simp_all add: receipt_checked_def)
  show "receipt_ok r" using vs(1) last by (simp add: parts_ok_def)
  then show "membership_ok m" using m by (simp add: receipt_ok_def)
  have "membership_linked (os_transactionId s) (os_binding s) r m"
    using valid m by (simp add: valid_receipt_def validate_page_receipt_def own_context_def)
  then show "mb_transactionId m = os_transactionId s" "mb_binding m = os_binding s" "mb_height m \<le> ck_height (os_checkpoint s)"
    "entry_at (mb_height m) (rc_lineage r) \<noteq> None" "mb_hash m = le_hash (the (entry_at (mb_height m) (rc_lineage r)))"
    by (auto simp: membership_linked_def ends split: option.splits)
  have "(rc_threshold r \<noteq> None) = (os_minimum s \<le> ck_height (os_checkpoint s) - mb_height m + 1)"
    using vs(6) last first m by (simp add: threshold_receipt_checked_def threshold_reached_def receipt_membership_def ends)
  moreover have "c = os_checkpoint s" if "rc_threshold r = Some c" for c
    using valid that by (simp add: valid_receipt_def validate_page_receipt_def ends)
  ultimately show "rc_threshold r = (if os_minimum s \<le> ck_height (os_checkpoint s) - mb_height m + 1 then Some (os_checkpoint s) else None)"
    by (cases "rc_threshold r") auto
qed

lemma after_inclusion_valid:
  assumes shown: "shown_on sha s r m" and sha: "hex_digest sha" and room: "count_safe (os_revision s + 1)"
  shows "valid_state sha (after_inclusion sha s m r)"
proof -
  define q where "q = after_inclusion sha s m r"
  define n where "n = ck_height (os_checkpoint s) - mb_height m + 1"
  note facts = shown_facts [OF shown]
  have v: "valid_state sha s" and live: "os_status s \<noteq> Quarantined" and last: "os_lastPage s = Some r" and none: "os_inclusion s = None"
    and m: "rc_membership r = Some m" using shown by (simp_all add: shown_on_def)
  note vs = valid_parts [OF v]
  have same: "same_identity s q" by (simp add: q_def after_inclusion_def same_identity_def)
  note eqs = same [unfolded same_identity_def]
  have threshold: "threshold_at_inclusion s m r = (if os_minimum s \<le> n then Some \<lparr>ft_checkpoint = os_checkpoint s,
      ft_confirmations = n, ft_receipt = r\<rparr> else None)"
    by (simp add: threshold_at_inclusion_def facts(10) n_def)
  have fields: "os_checkpoint q = os_checkpoint s" "os_lastPage q = Some r" "os_quarantine q = None"
    "os_inclusion q = Some (new_inclusion sha s m)" "os_firstThreshold q = threshold_at_inclusion s m r"
    "os_maxV1 q = os_maxV1 s" "os_minV2 q = os_minV2 s" "os_revision q = os_revision s + 1"
    "os_status q = (if threshold_at_inclusion s m r = None then IncludedBelowThreshold else ThresholdObserved)"
    using last live_state(1) [OF v live] by (simp_all add: q_def after_inclusion_def)
  have new: "in_membership (new_inclusion sha s m) = m" "in_confirmations (new_inclusion sha s m) = n"
    by (simp_all add: new_inclusion_def n_def)
  have included: "receipt_membership r i = Some m" for i by (simp add: receipt_membership_def m)
  have receipts: "valid_receipt sha q r" "threshold_reached k r i \<longleftrightarrow> k \<le> n" for k i
  proof -
    have "threshold_reached k r i = threshold_reached k r j" for k i j by (simp add: threshold_reached_def included)
    then have "validate_page_receipt sha cx k x u i r = validate_page_receipt sha cx k x u j r" for cx k x u i j
      unfolding validate_page_receipt_def by metis
    then show "valid_receipt sha q r"
      using facts(2) eqs by (metis valid_receipt_def own_context_def)
    show "threshold_reached k r i \<longleftrightarrow> k \<le> n" by (simp add: threshold_reached_def included facts(1) n_def)
  qed
  note parts = vs(1) [unfolded parts_ok_def]
  have "positive_safe n"
    using parts facts(4,9) unfolding n_def by (intro confirmations_safe) (simp_all add: membership_ok_def)
  then have "inclusion_ok sha (os_recordId s) (os_minimum s) (new_inclusion sha s m)" "first_threshold_ok t"
    if "threshold_at_inclusion s m r = Some t \<or> True" "t = \<lparr>ft_checkpoint = os_checkpoint s, ft_confirmations = n, ft_receipt = r\<rparr>" for t
    using that facts(3,4) authorized_ok [OF sha] parts
    by (simp_all add: inclusion_ok_def new first_threshold_ok_def) (simp add: new_inclusion_def)
  then have "parts_ok sha q"
    using parts facts(3) room by (simp add: parts_ok_def fields eqs threshold)
  moreover have "identities_checked sha q" using vs(2) by (simp add: identities_checked_def eqs)
  moreover have "receipt_checked sha q" using receipts by (simp add: receipt_checked_def fields facts(1))
  moreover have "inclusion_checked q" using facts(7-9) by (simp add: inclusion_checked_def fields eqs new n_def)
  moreover have "first_threshold_checked sha q"
    using receipts(1) facts(1) by (simp add: first_threshold_checked_def fields eqs threshold new included facts(10) n_def)
  moreover have "threshold_receipt_checked q"
    unfolding threshold_receipt_checked_def fields
    by (simp only: option.set ball_simps) (simp add: eqs threshold new receipts(2) facts(10) m flip: n_def)
  moreover have "status_checked q" by (simp add: status_checked_def fields threshold eqs new)
  ultimately show ?thesis by (simp add: valid_state_def state_checked_def q_def)
qed

lemma include_found_eq:
  assumes shown: "shown_on sha s r m" and sha: "hex_digest sha" and digest: "rc_pageDigest r = pageDigest"
  shows "include_found sha s m pageDigest = moves_to s (after_inclusion sha s m r) Applied"
proof -
  note facts = shown_facts [OF shown]
  have v: "valid_state sha s" and last: "os_lastPage s = Some r" "rc_membership r = Some m"
    using shown by (simp_all add: shown_on_def)
  have "clone_state sha (after_inclusion sha s m r) = (if has_room s then Inr (after_inclusion sha s m r) else Inl InvalidState)"
    using v after_inclusion_valid [OF shown sha] by (intro clone_next) (simp_all add: after_inclusion_def)
  moreover have "include_found sha s m pageDigest = with_disposition (clone_state sha (after_inclusion sha s m r)) Applied"
    using last digest facts(9,10)
    by (simp add: include_found_def observed_on_page_def Let_def after_inclusion_def new_inclusion_def threshold_at_inclusion_def)
  ultimately show ?thesis by (simp add: moves_to_def with_disposition_def)
qed

end
