(* ===== verification/Observer_Runs.thy ===== *)
theory Observer_Runs
  imports Observer_Including
begin

text \<open>
  Inputs and runs of the funding observer. \<open>observer_result_of\<close> is the operation an input names; the changes it
  can make to the state that the input carries are the steps of \<open>observer_change\<close>, and a run feeds each
  state back into the next input.
\<close>

datatype observer_input = OnVersions jsval | OnPlan jsval | OnPage jsval | OnInclusion jsval

fun observer_result_of :: "(string \<Rightarrow> string) \<Rightarrow> observer_input \<Rightarrow> observer_result" where
  "observer_result_of sha (OnVersions v) = versions_input sha v"
| "observer_result_of sha (OnPlan v) = also_then (plan_input sha v) (\<lambda>(s, d, p). Inr (s, d))"
| "observer_result_of sha (OnPage v) = page_input sha v"
| "observer_result_of sha (OnInclusion v) = inclusion_input sha v"

fun input_value :: "observer_input \<Rightarrow> jsval" where
  "input_value (OnVersions v) = v"
| "input_value (OnPlan v) = v"
| "input_value (OnPage v) = v"
| "input_value (OnInclusion v) = v"

text \<open>The state an input carries.\<close>

definition supplied_state :: "(string \<Rightarrow> string) \<Rightarrow> observer_input \<Rightarrow> observer_state option" where
  "supplied_state sha input = do {
     copy \<leftarrow> detached_copy (input_value input);
     normalize_state_snapshot sha (peek ''state'' (js_of copy))
   }"

inductive observer_change :: "(string \<Rightarrow> string) \<Rightarrow> observer_state \<Rightarrow> observer_state \<Rightarrow> bool" for sha where
  quarantine: "os_status s \<noteq> Quarantined \<Longrightarrow> observer_change sha s (into_quarantine s reason)"
| versions: "os_status s \<noteq> Quarantined \<Longrightarrow> m = merge_with max (os_maxV1 s) a \<Longrightarrow> n = merge_with min (os_minV2 s) b
    \<Longrightarrow> version_bounds_ok a b \<Longrightarrow> \<not> version_conflict m n \<Longrightarrow> observer_change sha s (with_versions s m n)"
| page: "accepted_page sha s p pg r \<Longrightarrow> same_tuple s r \<Longrightarrow> \<not> inclusion_pending s
    \<Longrightarrow> observer_change sha s (after_page s (with_threshold s r))"
| inclusion: "shown_on sha s r m \<Longrightarrow> observer_change sha s (after_inclusion sha s m r)"

inductive observer_run :: "(string \<Rightarrow> string) \<Rightarrow> observer_state \<Rightarrow> observer_state \<Rightarrow> bool" for sha where
  start: "observer_run sha s s"
| observed: "observer_run sha s t \<Longrightarrow> supplied_state sha input = Some t \<Longrightarrow> observer_result_of sha input = Inr (u, d) \<Longrightarrow> observer_run sha s u"

inductive observer_reachable :: "(string \<Rightarrow> string) \<Rightarrow> observer_state \<Rightarrow> bool" for sha where
  created: "create_observer sha v = Inr s \<Longrightarrow> observer_reachable sha s"
| observed: "observer_reachable sha t \<Longrightarrow> supplied_state sha input = Some t \<Longrightarrow> observer_result_of sha input = Inr (u, d)
    \<Longrightarrow> observer_reachable sha u"

section \<open>Reading the state of an input\<close>

lemma exact_fields_peek: "exact_fields names v = Some fs \<Longrightarrow> k \<in> set names \<Longrightarrow> field k fs = peek k v"
proof (cases "(names, v)" rule: exact_fields.cases)
  case (1 names' p symbolic props)
  assume fs: "exact_fields names v = Some fs" and k: "k \<in> set names"
  define look where "look k = Option.bind (map_of props k) data_value" for k
  have all: "map (\<lambda>k. map_option (Pair k) (look k)) names = map Some fs"
    using fs 1 by (simp add: all_some_eq_Some look_def split: if_splits)
  have "field k fs = the (look k) \<and> look k \<noteq> None"
    using all k
  proof (induction names arbitrary: fs)
    case (Cons n ns)
    then obtain f fs' where "fs = f # fs'" by (cases fs) auto
    with Cons show ?case by (cases f; cases "look n") (auto simp: field_def)
  qed simp
  moreover have "look k \<noteq> None \<Longrightarrow> peek k v = the (look k)"
    using 1 by (auto simp: look_def split: option.splits property.splits elim!: data_value.elims)
  ultimately show ?thesis by simp
qed auto

lemma supplied_fields_state:
  assumes "supplied_fields names (input_value input) = Some fs" and "''state'' \<in> set names"
  shows "supplied_state sha input = normalize_state_snapshot sha (field ''state'' fs)"
  using assms exact_fields_peek [OF _ assms(2)]
  by (auto simp: supplied_fields_def supplied_state_def bind_eq_Some_conv)

lemma read_state_cases:
  "read_state sha fs = Inr s \<Longrightarrow> normalize_state_snapshot sha (field ''state'' fs) = Some s"
  "read_state sha fs = Inl InvalidState \<Longrightarrow> normalize_state_snapshot sha (field ''state'' fs) = None"
  by (auto simp: read_state_def also_then_Inr need_def ensure_def split: option.splits if_splits)

section \<open>Every input\<close>

text \<open>
  What an operation may do with a state: refuse for a reason of the input, keep the state, or change it,
  where only a full revision counter gives \<open>INVALID_STATE\<close>.
\<close>

definition lawful :: "(string \<Rightarrow> string) \<Rightarrow> observer_state \<Rightarrow> observer_result \<Rightarrow> bool" where
  "lawful sha s result \<longleftrightarrow> (case result of
     Inl e \<Rightarrow> e = InvalidInput \<or> e = StaleRevision \<or> e = InvalidState \<and> \<not> has_room s
   | Inr (t, d) \<Rightarrow> t = s \<or> has_room s \<and> observer_change sha s t)"

lemma lawful_moves: "observer_change sha s t \<Longrightarrow> lawful sha s (moves_to s t d)"
  by (simp add: lawful_def moves_to_def)

lemma lawful_simps [simp]: "lawful sha s (Inr (s, d))" "lawful sha s (Inl InvalidInput)" "lawful sha s (Inl StaleRevision)"
  by (simp_all add: lawful_def)

lemma lawful_need: "(\<And>x. v = Some x \<Longrightarrow> lawful sha s (f x)) \<Longrightarrow> lawful sha s (also_then (need InvalidInput v) f)"
  by (cases v) simp_all

lemma lawful_quarantined: "valid_state sha s \<Longrightarrow> os_status s \<noteq> Quarantined \<Longrightarrow> lawful sha s (quarantined sha s reason)"
  by (simp add: quarantined_eq lawful_moves observer_change.quarantine)

lemma lawful_versions:
  "valid_state sha s \<Longrightarrow> os_status s \<noteq> Quarantined \<Longrightarrow> version_bounds_ok a b \<Longrightarrow> lawful sha s (apply_versions sha s a b)"
  by (auto simp: apply_versions_eq Let_def intro!: lawful_moves observer_change.quarantine observer_change.versions)

lemma lawful_page:
  assumes "valid_state sha s" "os_status s \<noteq> Quarantined" "plan_ok sha p" "page_ok (os_catchUp s) pg" "hex_digest sha"
  shows "lawful sha s (apply_page sha s p pg)"
  by (rule apply_page_cases [OF assms])
    (use assms(2) in \<open>simp_all add: lawful_moves observer_change.quarantine observer_change.page\<close>)

definition state_only :: "plan_result \<Rightarrow> observer_result" where
  "state_only r = also_then r (\<lambda>(s, d, p). Inr (s, d))"

lemma state_only_without_plan [simp]: "state_only (without_plan r) = r"
  by (cases r) (simp_all add: state_only_def without_plan_def split_beta)

lemma state_only_simps [simp]: "state_only (Inr (s, d, p)) = Inr (s, d)" "state_only (Inl e) = Inl e"
  "state_only (also_then (need e v) f) = also_then (need e v) (\<lambda>x. state_only (f x))"
  "state_only (also_then (ensure e b) g) = also_then (ensure e b) (\<lambda>x. state_only (g x))"
  by (simp_all add: state_only_def need_def ensure_def split: option.split)

lemma lawful_plan:
  assumes "valid_state sha s" "os_status s \<noteq> Quarantined"
  shows "lawful sha s (state_only (plan_backfill sha s source))"
proof (cases source)
  case (SourceAt frontier hash)
  then show ?thesis
    using assms by (auto simp: lawful_quarantined ensure_def intro!: lawful_need)
qed simp

lemma lawful_inclusion:
  assumes v: "valid_state sha s" and live: "os_status s \<noteq> Quarantined" and sha: "hex_digest sha"
  shows "lawful sha s (apply_inclusion sha s observation)"
proof (cases observation)
  case (Found m digest)
  have "lawful sha s (include_found sha s m digest)" if none: "os_inclusion s = None"
  proof (cases "observed_on_page (os_lastPage s) m digest")
    case None
    then show ?thesis using lawful_quarantined [OF v live] by (simp add: include_found_def)
  next
    case (Some r)
    then have "shown_on sha s r m" "rc_pageDigest r = digest"
      using v live none by (auto simp: shown_on_def observed_on_page_def split: option.splits if_splits)
    then show ?thesis using sha by (simp add: include_found_eq lawful_moves observer_change.inclusion)
  qed
  then show ?thesis using Found lawful_quarantined [OF v live] by (simp split: option.split)
qed (simp_all add: lawful_quarantined [OF v live])

text \<open>The state is read first, so every input with a valid state is lawful for it.\<close>

lemma lawful_read:
  assumes "supplied_fields names (input_value input) = Some fs" "''state'' \<in> set names" "supplied_state sha input = Some s"
    and "valid_state sha s \<Longrightarrow> lawful sha s (f s)"
  shows "lawful sha s (also_then (read_state sha fs) f)"
proof -
  have "normalize_state_snapshot sha (field ''state'' fs) = Some s"
    using supplied_fields_state [OF assms(1,2)] assms(3) by simp
  then show ?thesis
    using assms(4) state_read by (simp add: read_state_def need_def ensure_def split: option.split)
qed

lemma lawful_observer_result:
  assumes sha: "hex_digest sha" and s: "supplied_state sha input = Some s"
  shows "lawful sha s (observer_result_of sha input)"
proof (cases input)
  case (OnVersions v)
  show ?thesis
    unfolding OnVersions observer_result_of.simps versions_input_def
  proof (rule lawful_need, rule lawful_read [OF _ _ s])
    fix fs assume "supplied_fields [''state'', ''expectedRevision'', ''maxV1Height'', ''minV2Height''] v = Some fs"
    then show "supplied_fields [''state'', ''expectedRevision'', ''maxV1Height'', ''minV2Height''] (input_value input) = Some fs"
      by (simp add: OnVersions)
    show "lawful sha s (if os_status s = Quarantined then Inr (s, IsQuarantined)
        else also_then (need InvalidInput (normalize_version_bounds (field ''maxV1Height'' fs) (field ''minV2Height'' fs)))
          (\<lambda>(seenV1, seenV2). also_then (ensure InvalidInput (\<not> (seenV1 = None \<and> seenV2 = None)))
            (\<lambda>_. apply_versions sha s seenV1 seenV2)))" if "valid_state sha s"
    proof (cases "os_status s = Quarantined")
      case False
      have "lawful sha s (apply_versions sha s a b)" if "normalize_version_bounds (field ''maxV1Height'' fs) (field ''minV2Height'' fs) = Some (a, b)" for a b
        using \<open>valid_state sha s\<close> False version_bounds_read [OF that] by (rule lawful_versions)
      with False show ?thesis by (auto simp: ensure_def intro!: lawful_need)
    qed simp
  qed simp
next
  case (OnPlan v)
  have "lawful sha s (state_only (plan_input sha v))"
    unfolding plan_input_def state_only_simps
  proof (rule lawful_need)
    fix fs assume fs: "supplied_fields ([''state'', ''expectedRevision''] @ context_fields @ [''source'']) v = Some fs"
    have inner: "state_only (also_then (read_state sha fs) f) = also_then (read_state sha fs) (\<lambda>x. state_only (f x))" for f
      by (cases "read_state sha fs") (simp_all add: state_only_def)
    show "lawful sha s (state_only (also_then (read_state sha fs) (\<lambda>s.
        also_then (need InvalidInput (read_context fs)) (\<lambda>cx.
        if os_status s = Quarantined then Inr (s, IsQuarantined, None)
        else if \<not> context_matches (own_context s) cx then without_plan (quarantined sha s ContextDrift)
        else also_then (need InvalidInput (normalize_source (field ''source'' fs))) (plan_backfill sha s)))))"
      unfolding inner
    proof (rule lawful_read [OF _ _ s])
      show "supplied_fields ([''state'', ''expectedRevision''] @ context_fields @ [''source'']) (input_value input) = Some fs"
        using fs by (simp add: OnPlan)
    qed (auto intro!: lawful_need lawful_quarantined lawful_plan)
  qed
  then show ?thesis by (simp add: OnPlan state_only_def)
next
  case (OnPage v)
  show ?thesis
    unfolding OnPage observer_result_of.simps page_input_def
  proof (rule lawful_need, rule lawful_read [OF _ _ s])
    fix fs assume "supplied_fields [''state'', ''expectedRevision'', ''plan'', ''page''] v = Some fs"
    then show "supplied_fields [''state'', ''expectedRevision'', ''plan'', ''page''] (input_value input) = Some fs"
      by (simp add: OnPage)
  qed (auto intro!: lawful_need lawful_page normalize_plan_ok normalize_page_ok sha)
next
  case (OnInclusion v)
  show ?thesis
    unfolding OnInclusion observer_result_of.simps inclusion_input_def
  proof (rule lawful_need, rule lawful_read [OF _ _ s])
    fix fs assume "supplied_fields ([''state'', ''expectedRevision''] @ context_fields @ [''observation'']) v = Some fs"
    then show "supplied_fields ([''state'', ''expectedRevision''] @ context_fields @ [''observation'']) (input_value input) = Some fs"
      by (simp add: OnInclusion)
  qed (auto intro!: lawful_need lawful_quarantined lawful_inclusion sha)
qed

text \<open>An input whose state is refused gives no state.\<close>

lemma refused_state:
  assumes "supplied_state sha input = None"
  shows "\<exists>e. observer_result_of sha input = Inl e"
proof -
  have read: "\<exists>e. read_state sha fs = Inl e"
    if "supplied_fields names (input_value input) = Some fs" "''state'' \<in> set names" for names fs
    using supplied_fields_state [OF that] assms by (simp add: read_state_def)
  show ?thesis
  proof (cases input)
    case (OnVersions v)
    show ?thesis
    proof (cases "supplied_fields [''state'', ''expectedRevision'', ''maxV1Height'', ''minV2Height''] v")
      case (Some fs)
      then show ?thesis using OnVersions read [of "[''state'', ''expectedRevision'', ''maxV1Height'', ''minV2Height'']" fs]
        by (auto simp: versions_input_def)
    qed (simp add: OnVersions versions_input_def)
  next
    case (OnPlan v)
    show ?thesis
    proof (cases "supplied_fields ([''state'', ''expectedRevision''] @ context_fields @ [''source'']) v")
      case (Some fs)
      then show ?thesis using OnPlan read [of "[''state'', ''expectedRevision''] @ context_fields @ [''source'']" fs]
        by (auto simp: plan_input_def)
    qed (simp add: OnPlan plan_input_def)
  next
    case (OnPage v)
    show ?thesis
    proof (cases "supplied_fields [''state'', ''expectedRevision'', ''plan'', ''page''] v")
      case (Some fs)
      then show ?thesis using OnPage read [of "[''state'', ''expectedRevision'', ''plan'', ''page'']" fs]
        by (auto simp: page_input_def)
    qed (simp add: OnPage page_input_def)
  next
    case (OnInclusion v)
    show ?thesis
    proof (cases "supplied_fields ([''state'', ''expectedRevision''] @ context_fields @ [''observation'']) v")
      case (Some fs)
      then show ?thesis using OnInclusion read [of "[''state'', ''expectedRevision''] @ context_fields @ [''observation'']" fs]
        by (auto simp: inclusion_input_def)
    qed (simp add: OnInclusion inclusion_input_def)
  qed
qed

end
