(* ===== verification/Observer_History.thy ===== *)
theory Observer_History
  imports Observer_Runs
begin

text \<open>
  What holds along every run of the funding observer: states stay valid, what has been established
  is kept, and the observed momentums form one chain of hash links from the first checkpoint.
\<close>

section \<open>Changes keep the invariant\<close>

lemma change_valid:
  assumes "observer_change sha s t" and "valid_state sha s" and "has_room s" and "hex_digest sha"
  shows "valid_state sha t" and "os_revision t = os_revision s + 1"
proof -
  have room: "count_safe (os_revision s + 1)"
    using valid_parts(1) [OF assms(2)] assms(3) by (auto simp: parts_ok_def count_safe_def has_room_def)
  note bounds = valid_parts(1) [OF assms(2), unfolded parts_ok_def]
  show "valid_state sha t"
    using assms(1)
  proof cases
    case (quarantine reason)
    then show ?thesis using into_quarantine_valid [OF assms(2) room] by simp
  next
    case (versions m a n b)
    have "version_bounds_ok m n"
      using merged_bounds [of "os_maxV1 s" "os_minV2 s" a b] bounds versions by simp
    then show ?thesis using versions(1) with_versions_valid [OF assms(2) room] by simp
  next
    case (page p pg r)
    then show ?thesis using after_page_valid [OF page(2,3) assms(4) room] by simp
  next
    case (inclusion r m)
    then show ?thesis using after_inclusion_valid [OF inclusion(2) assms(4) room] by simp
  qed
  show "os_revision t = os_revision s + 1"
    using assms(1) by cases (simp_all add: into_quarantine_def with_versions_def after_inclusion_def)
qed

lemma observed_step:
  assumes "hex_digest sha" "supplied_state sha input = Some s" "observer_result_of sha input = Inr (t, d)"
  shows "valid_state sha s" and "t = s \<or> has_room s \<and> observer_change sha s t"
proof -
  show "valid_state sha s"
    using assms(2) by (auto simp: supplied_state_def bind_eq_Some_conv intro: state_read)
  show "t = s \<or> has_room s \<and> observer_change sha s t"
    using lawful_observer_result [OF assms(1,2)] assms(3) by (simp add: lawful_def)
qed

text \<open>A property that every change keeps holds along runs.\<close>

lemma run_invariant:
  assumes run: "observer_run sha s t" and sha: "hex_digest sha"
    and step: "\<And>u v. valid_state sha u \<Longrightarrow> has_room u \<Longrightarrow> observer_change sha u v \<Longrightarrow> Q u \<Longrightarrow> Q v"
    and start: "Q s"
  shows "Q t"
  using run start
proof induction
  case (observed s t input u d)
  then show ?case
    using observed_step [OF sha observed.hyps(2,3)] step by metis
qed

section \<open>What is kept\<close>

definition keeps_inclusion :: "observer_state \<Rightarrow> observer_state \<Rightarrow> bool" where
  "keeps_inclusion s t \<longleftrightarrow> (\<forall>i. os_inclusion s = Some i \<longrightarrow> (\<exists>j. os_inclusion t = Some j \<and> in_membership j = in_membership i
     \<and> in_authorizationId j = in_authorizationId i \<and> in_confirmations i \<le> in_confirmations j))"

definition keeps :: "observer_state \<Rightarrow> observer_state \<Rightarrow> bool" where
  "keeps s t \<longleftrightarrow> same_identity s t \<and> os_revision s \<le> os_revision t
     \<and> ck_height (os_checkpoint s) \<le> ck_height (os_checkpoint t)
     \<and> keeps_inclusion s t
     \<and> (\<forall>f. os_firstThreshold s = Some f \<longrightarrow> os_firstThreshold t = Some f)"

lemma keeps_refl: "keeps s s"
  by (simp add: keeps_def keeps_inclusion_def)

lemma keeps_inclusion_trans:
  assumes "keeps_inclusion s t" "keeps_inclusion t u"
  shows "keeps_inclusion s u"
  unfolding keeps_inclusion_def
proof (intro allI impI)
  fix i assume "os_inclusion s = Some i"
  then obtain j where "os_inclusion t = Some j" "in_membership j = in_membership i" "in_authorizationId j = in_authorizationId i"
    "in_confirmations i \<le> in_confirmations j" using assms(1) by (auto simp: keeps_inclusion_def)
  moreover then obtain k where "os_inclusion u = Some k" "in_membership k = in_membership j"
    "in_authorizationId k = in_authorizationId j" "in_confirmations j \<le> in_confirmations k" using assms(2) by (auto simp: keeps_inclusion_def)
  ultimately show "\<exists>j. os_inclusion u = Some j \<and> in_membership j = in_membership i
     \<and> in_authorizationId j = in_authorizationId i \<and> in_confirmations i \<le> in_confirmations j" by auto
qed

lemma keeps_trans: "keeps s t \<Longrightarrow> keeps t u \<Longrightarrow> keeps s u"
  unfolding keeps_def by (meson same_identity_trans keeps_inclusion_trans order_trans)

lemma change_keeps:
  assumes "observer_change sha s t" and v: "valid_state sha s"
  shows "keeps s t"
  using assms(1)
proof cases
  case (quarantine reason)
  then show ?thesis by (simp add: keeps_def keeps_inclusion_def same_identity_def into_quarantine_def)
next
  case (versions m a n b)
  then show ?thesis by (simp add: keeps_def keeps_inclusion_def same_identity_def with_versions_def)
next
  case (page p pg r)
  have higher: "ck_height (os_checkpoint s) < ck_height (rc_end r)" by (rule accepted_heights(1) [OF page(2)])
  have "in_confirmations i \<le> ck_height (rc_end r) - in_height i + 1" if "os_inclusion s = Some i" for i
    using included_before(3) [OF v that] higher by simp
  moreover have "threshold_after s (with_threshold s r) = Some f" if "os_firstThreshold s = Some f" for f
    using that by (simp add: threshold_after_def split: option.split)
  ultimately show ?thesis
    using higher unfolding page(1) keeps_def keeps_inclusion_def by simp
next
  case (inclusion r m)
  then have "os_inclusion s = None" "os_firstThreshold s = None"
    using shown_facts(5) by (auto simp: shown_on_def)
  then show ?thesis using inclusion(1) by (simp add: keeps_def keeps_inclusion_def same_identity_def after_inclusion_def)
qed

section \<open>The chain behind a state\<close>

fun chain_tip :: "checkpoint \<Rightarrow> lineage_entry list \<Rightarrow> checkpoint" where
  "chain_tip k [] = k"
| "chain_tip k (e # es) = chain_tip \<lparr>ck_height = le_height e, ck_hash = le_hash e\<rparr> es"

definition on_chain :: "lineage_entry list \<Rightarrow> int \<Rightarrow> string \<Rightarrow> bool" where
  "on_chain es height hash \<longleftrightarrow> (\<exists>e \<in> set es. le_height e = height \<and> le_hash e = hash)"

definition chain_behind :: "checkpoint \<Rightarrow> lineage_entry list \<Rightarrow> observer_state \<Rightarrow> bool" where
  "chain_behind k es s \<longleftrightarrow> linked (ck_height k) (ck_hash k) es \<and> chain_tip k es = os_checkpoint s
     \<and> (\<forall>i. os_inclusion s = Some i \<longrightarrow> on_chain es (in_height i) (mb_hash (in_membership i)))
     \<and> (\<forall>t. os_firstThreshold s = Some t \<longrightarrow> on_chain es (ck_height (ft_checkpoint t)) (ck_hash (ft_checkpoint t)))
     \<and> (\<forall>r. os_lastPage s = Some r \<longrightarrow> set (rc_lineage r) \<subseteq> set es)"

lemma linked_append:
  "linked (ck_height k) (ck_hash k) es \<Longrightarrow> linked (ck_height (chain_tip k es)) (ck_hash (chain_tip k es)) fs
    \<Longrightarrow> linked (ck_height k) (ck_hash k) (es @ fs)"
proof (induction k es rule: chain_tip.induct)
  case (2 k e es)
  then have "linked (le_height e) (le_hash e) es" by simp
  with 2 show ?case by simp
qed simp

lemma chain_tip_append [simp]: "chain_tip k (es @ fs) = chain_tip (chain_tip k es) fs"
  by (induction k es rule: chain_tip.induct) simp_all

lemma chain_tip_last: "es \<noteq> [] \<Longrightarrow> chain_tip k es = \<lparr>ck_height = le_height (last es), ck_hash = le_hash (last es)\<rparr>"
  by (induction k es rule: chain_tip.induct) auto

lemma on_chain_append: "on_chain es h x \<Longrightarrow> on_chain (es @ fs) h x"
  by (auto simp: on_chain_def)

lemma change_chain:
  assumes "observer_change sha s t" and v: "valid_state sha s" and "chain_behind k es s"
  shows "\<exists>es. chain_behind k es t"
  using assms(1)
proof cases
  case (quarantine reason)
  then show ?thesis using assms(3) by (auto simp: chain_behind_def into_quarantine_def)
next
  case (versions m a n b)
  then show ?thesis using assms(3) by (auto simp: chain_behind_def with_versions_def)
next
  case (page p pg r)
  note facts = accepted_page_facts [OF page(2)] and heights = accepted_heights [OF page(2)]
  have nonempty: "pg_entries pg \<noteq> []" using page(2) by (simp add: accepted_page_def page_ok_def)
  have tip: "chain_tip (os_checkpoint s) (rc_lineage r) = rc_end r"
    using nonempty by (simp add: chain_tip_last facts(9) facts(12) last_map lineage_of_def)
  have final: "on_chain (rc_lineage r) (ck_height (rc_end r)) (ck_hash (rc_end r))"
    unfolding on_chain_def facts(9) facts(12) using nonempty
    by (intro bexI [of _ "lineage_of (last (pg_entries pg))"]) (simp_all add: lineage_of_def)
  have "linked (ck_height k) (ck_hash k) (es @ rc_lineage r)"
    using assms(3) facts(10) by (intro linked_append) (simp_all add: chain_behind_def)
  moreover have "on_chain (es @ rc_lineage r) (ck_height (ft_checkpoint t')) (ck_hash (ft_checkpoint t'))"
    if "threshold_after s (with_threshold s r) = Some t'" for t'
  proof (cases "os_firstThreshold s = Some t'")
    case True
    then show ?thesis using assms(3) by (auto simp: chain_behind_def intro: on_chain_append)
  next
    case False
    with that have "ft_checkpoint t' = rc_end r"
      by (auto simp: threshold_after_def threshold_of [OF page(3)] split: option.splits if_splits)
    then show ?thesis using final by (auto simp: on_chain_def)
  qed
  ultimately have "chain_behind k (es @ rc_lineage r) t"
    using assms(3) tip page(1) by (auto simp: chain_behind_def intro: on_chain_append)
  then show ?thesis ..
next
  case (inclusion r m)
  note facts = shown_facts [OF inclusion(2)]
  obtain e where e: "entry_at (mb_height m) (rc_lineage r) = Some e" using facts(11) by blast
  have "set (rc_lineage r) \<subseteq> set es" using assms(3) inclusion(2) by (simp add: chain_behind_def shown_on_def)
  then have member: "on_chain es (mb_height m) (mb_hash m)"
    using entry_at_set [OF e] e facts(12) by (auto simp: on_chain_def)
  have "on_chain es (ck_height (os_checkpoint s)) (ck_hash (os_checkpoint s))" if "rc_threshold r \<noteq> None"
  proof -
    have "rc_lineage r \<noteq> []" using e by auto
    moreover have "le_height (last (rc_lineage r)) = ck_height (os_checkpoint s)" "le_hash (last (rc_lineage r)) = ck_hash (os_checkpoint s)"
      using facts(2) by (simp_all add: valid_receipt_def validate_page_receipt_def facts(1))
    ultimately show ?thesis
      using \<open>set (rc_lineage r) \<subseteq> set es\<close> unfolding on_chain_def by (metis last_in_set subsetD)
  qed
  then have "chain_behind k es t"
    using assms(3) member inclusion(1) facts(10)
    by (auto simp: chain_behind_def after_inclusion_def new_inclusion_def threshold_at_inclusion_def split: if_splits)
  then show ?thesis ..
qed

end
