(* ===== verification/Observer_Versions.thy ===== *)
theory Observer_Versions
  imports Observer_History
begin

text \<open>
  Momentum versions, compared with a reference that looks at all observations at once: the bounds kept
  one observation at a time are the maximum and minimum of everything seen, and a conflict anywhere in
  what was seen quarantines the state, in whatever order the observations arrive.
\<close>

fun observe_versions :: "(string \<Rightarrow> string) \<Rightarrow> observer_state \<Rightarrow> (int option \<times> int option) list \<Rightarrow> observer_error + observer_state" where
  "observe_versions sha s [] = Inr s"
| "observe_versions sha s ((a, b) # obs) =
     also_then (if os_status s = Quarantined then Inr (s, IsQuarantined) else apply_versions sha s a b)
       (\<lambda>(t, d). observe_versions sha t obs)"

definition seen_heights :: "int option list \<Rightarrow> int set" where
  "seen_heights xs = {h. Some h \<in> set xs}"

definition highest :: "int option list \<Rightarrow> int option" where
  "highest xs = (if seen_heights xs = {} then None else Some (Max (seen_heights xs)))"

definition lowest :: "int option list \<Rightarrow> int option" where
  "lowest xs = (if seen_heights xs = {} then None else Some (Min (seen_heights xs)))"

lemma seen_heights_simps [simp]:
  "seen_heights [] = {}" "seen_heights (None # xs) = seen_heights xs" "seen_heights (Some h # xs) = insert h (seen_heights xs)"
  by (auto simp: seen_heights_def)

lemma seen_heights_finite [simp]: "finite (seen_heights xs)"
proof (induction xs)
  case (Cons x xs)
  then show ?case by (cases x) simp_all
qed simp

lemma Max_merge: "finite H \<Longrightarrow> Max (insert (max a b) H) = max a (Max (insert b H))" for a :: int
  by (cases "H = {}") (simp_all add: max.assoc)

lemma Min_merge: "finite H \<Longrightarrow> Min (insert (min a b) H) = min a (Min (insert b H))" for a :: int
  by (cases "H = {}") (simp_all add: min.assoc)

lemma highest_merge: "highest (merge_with max m a # xs) = highest (m # a # xs)"
proof (cases "(m, a)" rule: prod.exhaust)
  case (Pair u v)
  then show ?thesis by (cases u; cases v) (auto simp: merge_with_def highest_def Max_merge)
qed

lemma lowest_merge: "lowest (merge_with min m a # xs) = lowest (m # a # xs)"
proof (cases "(m, a)" rule: prod.exhaust)
  case (Pair u v)
  then show ?thesis by (cases u; cases v) (auto simp: merge_with_def lowest_def Min_merge)
qed

text \<open>A conflict remains one when more is seen.\<close>

lemma conflict_remains:
  assumes "version_conflict m n"
  shows "version_conflict (highest (m # xs)) (lowest (n # ys))"
proof -
  obtain a b where ab: "m = Some a" "n = Some b" "b \<le> a"
    using assms by (auto simp: version_conflict_def split: option.splits)
  have "Min (insert b (seen_heights ys)) \<le> b" "a \<le> Max (insert a (seen_heights xs))" by simp_all
  then have "Min (insert b (seen_heights ys)) \<le> Max (insert a (seen_heights xs))" using ab(3) by linarith
  then show ?thesis using ab by (simp add: version_conflict_def highest_def lowest_def)
qed

lemma quarantined_versions: "os_status s = Quarantined \<Longrightarrow> observe_versions sha s obs = Inr s"
  by (induction obs) auto

lemma observe_versions_bounds:
  assumes "valid_state sha s" "os_status s \<noteq> Quarantined" "os_revision s + int (length obs) \<le> max_safe"
    and "\<And>a b. (a, b) \<in> set obs \<Longrightarrow> version_bounds_ok a b"
  shows "\<exists>t. observe_versions sha s obs = Inr t \<and> (os_status t = Quarantined \<longleftrightarrow>
      version_conflict (highest (os_maxV1 s # map fst obs)) (lowest (os_minV2 s # map snd obs)))
    \<and> (os_status t \<noteq> Quarantined \<longrightarrow> os_maxV1 t = highest (os_maxV1 s # map fst obs) \<and> os_minV2 t = lowest (os_minV2 s # map snd obs))"
  using assms
proof (induction obs arbitrary: s)
  case Nil
  have "\<not> version_conflict (os_maxV1 s) (os_minV2 s)"
    using valid_parts(1) [OF Nil(1)] by (simp add: parts_ok_def version_bounds_ok_def)
  moreover have "highest [x] = x" "lowest [x] = x" for x by (cases x; simp add: highest_def lowest_def)+
  ultimately show ?case using Nil(2) by simp
next
  case (Cons ab obs)
  obtain a b where ab: "ab = (a, b)" by (cases ab)
  define m where "m = merge_with max (os_maxV1 s) a"
  define n where "n = merge_with min (os_minV2 s) b"
  have room: "has_room s" using Cons.prems(3) by (simp add: has_room_def)
  have ok: "version_bounds_ok a b" using Cons.prems(4) by (simp add: ab)
  note step = apply_versions_eq [OF Cons.prems(1,2) ok, folded m_def n_def, unfolded Let_def]
  have merged: "highest (os_maxV1 s # a # xs) = highest (m # xs)" "lowest (os_minV2 s # b # ys) = lowest (n # ys)" for xs ys
    by (simp_all add: m_def n_def highest_merge lowest_merge)
  show ?case
  proof (cases "version_conflict m n")
    case True
    then have "observe_versions sha s (ab # obs) = Inr (into_quarantine s MomentumVersionConflict)"
      using step room Cons.prems(2) by (simp add: ab moves_to_def quarantined_versions into_quarantine_def)
    then show ?thesis
      using conflict_remains [OF True] by (simp add: ab merged into_quarantine_def)
  next
    case no: False
    show ?thesis
    proof (cases "m = os_maxV1 s \<and> n = os_minV2 s")
      case True
      then have "observe_versions sha s (ab # obs) = observe_versions sha s obs"
        using step no Cons.prems(2) by (simp add: ab)
      moreover have "os_maxV1 s = m" "os_minV2 s = n" using True by simp_all
      ultimately show ?thesis
        using Cons.IH [of s] Cons.prems by (auto simp: ab merged)
    next
      case False
      let ?t = "with_versions s m n"
      have change: "observer_change sha s ?t"
        using Cons.prems(2) ok no by (intro observer_change.versions) (simp_all add: m_def n_def)
      have "valid_state sha ?t"
      proof -
        have bounds: "version_bounds_ok (os_maxV1 s) (os_minV2 s)"
          using valid_parts(1) [OF Cons.prems(1)] by (simp add: parts_ok_def)
        have "version_bounds_ok m n" using merged_bounds [OF bounds ok] no by (simp add: m_def n_def)
        moreover have "count_safe (os_revision s + 1)"
          using valid_parts(1) [OF Cons.prems(1)] room by (auto simp: parts_ok_def count_safe_def has_room_def)
        ultimately show ?thesis using Cons.prems(1) by (intro with_versions_valid)
      qed
      moreover have "observe_versions sha s (ab # obs) = observe_versions sha ?t obs"
        using step no False room Cons.prems(2) by (simp add: ab moves_to_def)
      moreover have "os_status ?t \<noteq> Quarantined" "os_revision ?t = os_revision s + 1" "os_maxV1 ?t = m" "os_minV2 ?t = n"
        using Cons.prems(2) by (simp_all add: with_versions_def)
      ultimately show ?thesis
        using Cons.IH [of ?t] Cons.prems(3,4) by (auto simp: ab merged)
    qed
  qed
qed

end
