(* ===== verification/Observer_Limits.thy ===== *)
theory Observer_Limits
  imports Observer_Versions
begin

text \<open>
  The size of what the funding observer stores. Every valid state stays far inside the budgets of
  \<open>snapshotJson\<close>, so a stored state is never refused for its size: it can be copied, read again and
  written, whatever pages the observer has applied.
\<close>

named_theorems compact_rules "how compact values are built"

section \<open>Compact values\<close>

text \<open>Nodes, bytes of keys and characters of the text of a value that may be nested \<open>h\<close> deep.\<close>

definition compact :: "nat \<Rightarrow> json \<Rightarrow> nat \<Rightarrow> nat \<Rightarrow> nat \<Rightarrow> bool" where
  "compact h v n k t \<longleftrightarrow> (\<forall>d. d \<le> h \<longrightarrow> copyable d v) \<and> bu_nodes (copy_cost v) \<le> n \<and> bu_keyBytes (copy_cost v) \<le> k
     \<and> text_size v \<le> t"

lemma compact_weaken: "compact h v n k t \<Longrightarrow> h' \<le> h \<Longrightarrow> n \<le> n' \<Longrightarrow> k \<le> k' \<Longrightarrow> t \<le> t' \<Longrightarrow> compact h' v n' k' t'"
  by (auto simp: compact_def)

lemma compact_num [compact_rules]: "count_safe n \<Longrightarrow> compact max_depth (JNum n) 1 0 16"
proof -
  assume n: "count_safe n"
  then have "length (int_text n) \<le> 16" by (intro int_text_size) (auto simp: count_safe_def max_safe_def)
  then show ?thesis using n by (simp add: compact_def count_safe_def safe_range_def max_safe_def)
qed

definition short_text :: "string \<Rightarrow> bool" where
  "short_text s \<longleftrightarrow> length (string_text s) \<le> 130"

lemma compact_str [compact_rules]: "short_text s \<Longrightarrow> compact max_depth (JStr s) 1 0 130"
  by (simp add: compact_def short_text_def)

lemma compact_null [compact_rules]: "compact max_depth JNull 1 0 4"
  by (simp add: compact_def)

lemma compact_option [compact_rules]:
  "(\<And>y. x = Some y \<Longrightarrow> compact h (f y) n k t) \<Longrightarrow> h \<le> max_depth \<Longrightarrow> 1 \<le> n \<Longrightarrow> 4 \<le> t \<Longrightarrow> compact h (json_option f x) n k t"
  by (cases x) (auto intro: compact_weaken [OF compact_null])

text \<open>The members of an object, one at a time.\<close>

definition short_key :: "string \<Rightarrow> bool" where
  "short_key k \<longleftrightarrow> utf8_bytes k \<le> 28 \<and> length (string_text k) \<le> 30 \<and> \<not> forbidden_key k"

definition compact_members :: "nat \<Rightarrow> (string \<times> json) list \<Rightarrow> nat \<Rightarrow> nat \<Rightarrow> nat \<Rightarrow> bool" where
  "compact_members h kvs n k t \<longleftrightarrow> (\<forall>d. d \<le> h \<longrightarrow> (\<forall>(key, v) \<in> set kvs. \<not> forbidden_key key \<and> copyable d v))
     \<and> bu_nodes (members_cost kvs) \<le> n \<and> bu_keyBytes (members_cost kvs) \<le> k
     \<and> sum_list (map (\<lambda>(key, v). length (string_text key) + 2 + text_size v) kvs) \<le> t"

lemma compact_none [compact_rules]: "compact_members h [] 0 0 0"
  by (simp add: compact_members_def)

lemma compact_member [compact_rules]:
  "short_key key \<Longrightarrow> compact h' v n k t \<Longrightarrow> h \<le> h' \<Longrightarrow> compact_members h kvs n' k' t'
    \<Longrightarrow> compact_members h ((key, v) # kvs) (n + n') (28 + k + k') (32 + t + t')"
  by (auto simp: compact_members_def compact_def short_key_def)

lemma compact_object:
  "compact_members (Suc h) kvs n k t \<Longrightarrow> length kvs \<le> max_array_length \<Longrightarrow> h \<le> max_depth \<Longrightarrow> compact h (JObj kvs) (Suc n) k (2 + t)"
  by (auto simp: compact_members_def compact_def)

lemma index_text: "i < 100 \<Longrightarrow> utf8_bytes (nat_text i) \<le> 2"
proof -
  assume "i < 100"
  then have "length (nat_text i) \<le> 2" by (intro nat_text_size) simp_all
  moreover have "list_all (\<lambda>c. code c < 128) (nat_text i)" for i
    by (induction i rule: nat_text.induct) (subst nat_text.simps, auto simp: code_def)
  moreover have "list_all (\<lambda>c. code c < 128) s \<Longrightarrow> utf8_bytes s = length s" for s
    unfolding utf8_bytes_def by (induction s) simp_all
  ultimately show ?thesis by simp
qed

lemma elements_bound:
  assumes "\<And>v. v \<in> set vs \<Longrightarrow> compact h v n k t" and "i + length vs \<le> 100"
  shows "bu_nodes (elements_cost i vs) \<le> length vs * n \<and> bu_keyBytes (elements_cost i vs) \<le> length vs * (2 + k)"
  using assms
proof (induction vs arbitrary: i)
  case (Cons v vs)
  have "bu_nodes (copy_cost v) \<le> n" "bu_keyBytes (copy_cost v) \<le> k"
    using Cons.prems(1) [of v] by (simp_all add: compact_def)
  moreover have "utf8_bytes (nat_text i) \<le> 2" using Cons.prems(2) by (intro index_text) simp
  moreover have "bu_nodes (elements_cost (Suc i) vs) \<le> length vs * n \<and> bu_keyBytes (elements_cost (Suc i) vs) \<le> length vs * (2 + k)"
    using Cons.prems by (intro Cons.IH) simp_all
  ultimately show ?case by simp
qed simp

lemma compact_array:
  assumes "\<And>v. v \<in> set vs \<Longrightarrow> compact (Suc h) v n k t" "length vs \<le> m" "m \<le> 100" "h \<le> max_depth"
  shows "compact h (JArr vs) (Suc (m * n)) (m * (2 + k)) (2 + m * (1 + t))"
proof -
  have "sum_list (map (\<lambda>v. 1 + text_size v) vs) \<le> length vs * (1 + t)"
    using assms(1)
  proof (induction vs)
    case (Cons v vs)
    have "text_size v \<le> t" using Cons.prems [of v] by (simp add: compact_def)
    moreover have "sum_list (map (\<lambda>v. 1 + text_size v) vs) \<le> length vs * (1 + t)"
      by (rule Cons.IH) (rule Cons.prems, simp)
    ultimately show ?case by simp
  qed simp
  then have "text_size (JArr vs) \<le> 2 + m * (1 + t)"
    using mult_le_mono1 [OF assms(2), of "1 + t"] by simp
  moreover have "bu_nodes (elements_cost 0 vs) \<le> m * n" "bu_keyBytes (elements_cost 0 vs) \<le> m * (2 + k)"
    using elements_bound [OF assms(1), of vs 0] assms(2,3)
    by (auto intro: order_trans [OF _ mult_le_mono1 [OF assms(2)]] simp del: mult_Suc_right add_2_eq_Suc)
  moreover have "copyable d (JArr vs)" if "d \<le> h" for d
    using that assms by (auto simp: compact_def max_array_length_def)
  ultimately show ?thesis by (simp add: compact_def)
qed

text \<open>A compact value fits the limits.\<close>

lemma text_size_pos: "0 < text_size v"
proof (cases v)
  case (JNum n)
  have "0 < length (nat_text k)" for k by (subst nat_text.simps) simp
  then show ?thesis by (simp add: JNum int_text_def)
qed (simp_all add: string_text_def)

lemma text_at_least: "length s + 2 \<le> length (string_text s)"
proof -
  have "length s \<le> length (concat (map escape_char s))"
  proof (induction s)
    case (Cons c s)
    have "0 < length (escape_char c)" by simp
    then show ?case using Cons by (simp del: length_greater_0_conv)
  qed simp
  then show ?thesis by (simp add: string_text_def)
qed

lemma utf8_twice: "utf8_bytes s \<le> 2 * length s"
  by (induction s) (simp_all add: utf8_bytes_def)

lemma strings_by_text: "bu_stringBytes (copy_cost v) \<le> 2 * text_size v"
proof (induction v)
  case (JStr s)
  then show ?case using utf8_twice [of s] text_at_least [of s] by simp
next
  case (JArr vs)
  have "bu_stringBytes (elements_cost i vs) \<le> 2 * sum_list (map (\<lambda>v. 1 + text_size v) vs)" for i
    using JArr
  proof (induction vs arbitrary: i)
    case (Cons v vs)
    have "bu_stringBytes (copy_cost v) \<le> 2 * text_size v" by (rule Cons.prems) simp
    moreover have "bu_stringBytes (elements_cost (Suc i) vs) \<le> 2 * sum_list (map (\<lambda>v. 1 + text_size v) vs)"
      by (rule Cons.IH) (rule Cons.prems, simp)
    ultimately show ?case by simp
  qed simp
  from this [of 0] show ?case by simp
next
  case (JObj kvs)
  have "bu_stringBytes (members_cost kvs) \<le> 2 * sum_list (map (\<lambda>(k, v). length (string_text k) + 2 + text_size v) kvs)"
    using JObj
  proof (induction kvs)
    case (Cons kv kvs)
    obtain k v where kv: "kv = (k, v)" by (cases kv)
    have "bu_stringBytes (copy_cost v) \<le> 2 * text_size v" by (rule Cons.prems [of kv v]) (simp_all add: kv)
    moreover have "bu_stringBytes (members_cost kvs) \<le> 2 * sum_list (map (\<lambda>(k, v). length (string_text k) + 2 + text_size v) kvs)"
      by (rule Cons.IH) (rule Cons.prems, simp_all)
    ultimately show ?case by (simp add: kv)
  qed simp
  then show ?case by simp
qed simp_all

lemma members_by_nodes: "bu_nodes (copy_cost v) = Suc (bu_members (copy_cost v))"
proof (induction v)
  case (JArr vs)
  have "bu_nodes (elements_cost i vs) = length vs + bu_members (elements_cost i vs)" for i
    using JArr by (induction vs arbitrary: i) simp_all
  then show ?case by simp
next
  case (JObj kvs)
  have "bu_nodes (members_cost kvs) = length kvs + bu_members (members_cost kvs)"
    using JObj
  proof (induction kvs)
    case (Cons kv kvs)
    obtain k v where kv: "kv = (k, v)" by (cases kv)
    have "bu_nodes (copy_cost v) = Suc (bu_members (copy_cost v))" by (rule Cons.prems [of kv v]) (simp_all add: kv)
    moreover have "bu_nodes (members_cost kvs) = length kvs + bu_members (members_cost kvs)"
      by (rule Cons.IH) (rule Cons.prems, simp_all)
    ultimately show ?case by (simp add: kv)
  qed simp
  then show ?case by simp
qed simp_all

lemma compact_fits:
  assumes "compact 0 v n k t" and "n \<le> max_nodes" "k \<le> max_key_bytes" "t \<le> 128 * 1024"
  shows "within_limits v"
proof -
  have c: "copyable 0 v" "bu_nodes (copy_cost v) \<le> n" "bu_keyBytes (copy_cost v) \<le> k" "text_size v \<le> t"
    using assms(1) by (simp_all add: compact_def)
  moreover have "utf8_bytes (canonical_json v) \<le> 2 * text_size v"
    using utf8_twice [of "canonical_json v"] canonical_size [of v] by simp
  ultimately show ?thesis
    using assms(2-) strings_by_text [of v] members_by_nodes [of v]
    by (simp add: within_limits_def within_budget_def max_nodes_def max_members_def max_string_bytes_def max_input_bytes_def)
qed

section \<open>The records of the observer\<close>

lemma short_texts:
  "identifier_text s \<Longrightarrow> short_text s" "hash_text s \<Longrightarrow> short_text s" "commitment_text s \<Longrightarrow> short_text s"
  "zenon_transaction s \<Longrightarrow> short_text s" "zenon_amount s \<Longrightarrow> short_text s" "sdk_safe_chain_identifier s \<Longrightarrow> short_text s"
proof -
  have plain: "short_text s" if "list_all identifier_char s" "length s \<le> 128" for s
    using that plain_length [OF plain_identifier] by (simp add: short_text_def)
  have hex: "list_all identifier_char h \<and> length h = 64" if "is_hex64 h" for h
    using that by (auto simp: is_hex64_def list_all_iff is_hex_not_separator)
  have digits: "list_all identifier_char s" if "positive_decimal s" for s
    using that by (auto simp: positive_decimal_def list_all_iff is_alnum_def alnum_identifier)
  show "short_text s" if "identifier_text s"
    using that by (intro plain) (cases s; auto simp: identifier_text_def alnum_identifier)+
  show "hash_text s \<Longrightarrow> short_text s" using plain [of s] hex [of s] by (simp add: hash_text_def)
  show "commitment_text s \<Longrightarrow> short_text s" by (simp add: short_text_def commitment_size)
  show "short_text s" if x: "zenon_transaction s"
  proof -
    obtain h where h: "s = ''zenontx:'' @ h" "is_hex64 h"
      using x unfolding zenon_transaction_def prefixed_hex64_iff by (elim exE conjE)
    have "list_all identifier_char ''zenontx:''"
      by (simp add: identifier_char_def is_alnum_def is_digit_def is_lower_def is_upper_def code_def)
    then show ?thesis using hex [OF h(2)] by (intro plain) (simp_all add: h(1))
  qed
  show "zenon_amount s \<Longrightarrow> short_text s" using plain [of s] digits [of s] by (simp add: zenon_amount_def)
  show "sdk_safe_chain_identifier s \<Longrightarrow> short_text s"
    using plain [of s] digits [of s] by (auto simp: sdk_safe_chain_identifier_def max_safe_text_def)
qed

lemma count_small: "count_safe 1" "count_safe 2"
  by (simp_all add: count_safe_def max_safe_def)

lemmas compact_defs = count_small short_key_def utf8_bytes_def code_def forbidden_key_def max_key_bytes_def string_text_def escape_char_def
  Let_def max_depth_def max_array_length_def positive_count short_texts
lemmas compact_weakened = compact_weaken [OF compact_object]

lemma compact_checkpoint [compact_rules]: "checkpoint_ok c \<Longrightarrow> compact 20 (checkpoint_json c) 3 56 212"
  unfolding checkpoint_json_def
  by (rule compact_weakened [where h = 20]) (rule compact_rules | simp add: compact_defs checkpoint_ok_def)+

lemma compact_entry [compact_rules]: "entry_ok e \<Longrightarrow> compact 20 (entry_json e) 4 84 374"
  unfolding entry_json_def
  by (rule compact_weakened [where h = 20]) (rule compact_rules | simp add: compact_defs entry_ok_def)+

lemma compact_membership [compact_rules]: "membership_ok m \<Longrightarrow> compact 20 (membership_json m) 5 112 600"
  unfolding membership_json_def membership_members_def
  by (rule compact_weakened [where h = 20]) (rule compact_rules | simp add: compact_defs membership_ok_def)+


lemma compact_policies [compact_rules]:
  "observer_policy_ok p \<Longrightarrow> compact 20 (observer_policy_json p) 4 84 262"
  "generation_ok g \<Longrightarrow> compact 20 (generation_json g) 4 84 374"
  "chain_ok c \<Longrightarrow> compact 20 (chain_profile_json c) 4 84 374"
  "confirmation_ok f \<Longrightarrow> compact 20 (confirmation_policy_json f) 4 84 262"
  unfolding observer_policy_json_def generation_json_def chain_profile_json_def confirmation_policy_json_def
  by ((rule compact_weakened [where h = 20], (rule compact_rules | simp add: compact_defs observer_policy_ok_def generation_ok_def
        chain_ok_def confirmation_ok_def)+)[])+

lemma compact_target [compact_rules]: "target_ok t \<Longrightarrow> compact 20 (target_json t) 25 672 3700"
  unfolding target_json_def
  by (rule compact_weakened [where h = 20])
    (rule compact_rules | simp add: compact_defs target_ok_def | simp add: short_text_def string_text_def escape_char_def code_def)+

lemma compact_lineage [compact_rules]:
  "\<forall>e \<in> set es. entry_ok e \<Longrightarrow> length es \<le> 64 \<Longrightarrow> compact 19 (JArr (map entry_json es)) 257 5504 24002"
proof -
  assume es: "\<forall>e \<in> set es. entry_ok e" "length es \<le> 64"
  have "compact 19 (JArr (map entry_json es)) (Suc (64 * 4)) (64 * (2 + 84)) (2 + 64 * (1 + 374))"
    using es compact_entry by (intro compact_array) (auto simp: max_depth_def)
  then show ?thesis by simp
qed

lemma compact_receipt [compact_rules]: "receipt_ok r \<Longrightarrow> compact 18 (receipt_json r) 280 6100 26100"
  unfolding receipt_json_def
  by (rule compact_weakened [where h = 18]) (rule compact_rules | simp add: compact_defs receipt_ok_def receipt_shape_def)+

lemma compact_first_threshold [compact_rules]: "first_threshold_ok t \<Longrightarrow> compact 17 (first_threshold_json t) 285 6300 26500"
  unfolding first_threshold_json_def
  by (rule compact_weakened [where h = 17]) (rule compact_rules | simp add: compact_defs first_threshold_ok_def)+

lemma compact_inclusion [compact_rules]:
  "membership_ok (in_membership i) \<and> commitment_text (in_authorizationId i) \<and> positive_safe (in_confirmations i)
    \<Longrightarrow> compact 20 (inclusion_json i) 7 168 820"
  unfolding inclusion_json_def membership_members_def append.simps
  by (rule compact_weakened [where h = 20]) (rule compact_rules | simp add: compact_defs membership_ok_def)+

lemma compact_quarantine [compact_rules]: "compact 20 (quarantine_json q) 2 28 170"
  unfolding quarantine_json_def
  by (cases q) (rule compact_weakened [where h = 20], (rule compact_rules | simp add: compact_defs short_text_def)+)+

lemma compact_catch_up [compact_rules]:
  "catch_up_ok c \<Longrightarrow> \<forall>r \<in> set_option x. receipt_ok r \<Longrightarrow> compact 17 (catch_up_state_json c x) 290 6300 26400"
  unfolding catch_up_state_json_def catch_up_members_def append.simps
  by (rule compact_weakened [where h = 17])
    (rule compact_rules | simp add: compact_defs catch_up_ok_def count_safe_def max_safe_def)+

lemma short_names: "short_text (status_name st)" "short_text trust_classification"
  by (cases st) (simp_all add: short_text_def trust_classification_def string_text_def escape_char_def code_def)

lemma compact_state:
  assumes "valid_state sha s"
  shows "compact 16 (observer_json s) 660 14500 61000"
proof -
  have parts: "parts_ok sha s" by (rule valid_parts(1) [OF assms])
  have included: "membership_ok (in_membership i) \<and> commitment_text (in_authorizationId i) \<and> positive_safe (in_confirmations i)"
    if "os_inclusion s = Some i" for i
  proof -
    have "inclusion_ok sha (os_recordId s) (os_minimum s) i" using parts that by (simp add: parts_ok_def)
    then show ?thesis unfolding inclusion_ok_def by blast
  qed
  have seen: "count_safe n" if "os_maxV1 s = Some n \<or> os_minV2 s = Some n" for n
    using parts that by (auto simp: parts_ok_def version_bounds_ok_def positive_count)
  note given = parts [unfolded parts_ok_def]
  show ?thesis
    unfolding observer_json_def
    by (rule compact_weakened [where h = 16], (rule compact_rules
        | (simp add: compact_defs short_names included seen given; fail))+)
qed

lemma valid_state_fits:
  assumes "valid_state sha s"
  shows "within_limits (observer_json s)"
  by (rule compact_fits [OF compact_weaken [OF compact_state [OF assms], of 0 660 14500 61000]])
    (simp_all add: max_nodes_def max_key_bytes_def)

end
