(* ===== verification/Observer_Calls.thy ===== *)
theory Observer_Calls
  imports Observer_Limits
begin

text \<open>
  Well-formed calls of the funding observer: the JSON objects that carry a state and a request, and the fact that
  an operation reads back exactly what such an object was written from. With them a property can
  speak about states, plans and pages and still hold for the operations on untrusted values.
\<close>

section \<open>Images of the requests\<close>

definition member_json :: "string \<times> string \<Rightarrow> json" where
  "member_json m = JObj [(''transactionId'', JStr (fst m)), (''targetBindingDigest'', JStr (snd m))]"

definition page_entry_json :: "page_entry \<Rightarrow> json" where
  "page_entry_json e = JObj [(''height'', JNum (pe_height e)), (''hash'', JStr (pe_hash e)),
     (''previousHash'', JStr (pe_previousHash e)), (''members'', JArr (map member_json (pe_members e)))]"

definition page_json :: "momentum_page \<Rightarrow> json" where
  "page_json pg = JObj ((''pageVersion'', JNum 1) # context_members (pg_context pg) @ [(''planId'', JStr (pg_planId pg)),
     (''startCheckpoint'', checkpoint_json (pg_start pg)), (''frontier'', checkpoint_json (pg_frontier pg)),
     (''entries'', JArr (map page_entry_json (pg_entries pg)))])"

fun source_json :: "chain_source \<Rightarrow> json" where
  "source_json SourceDown = JObj [(''status'', JStr ''UNAVAILABLE''), (''reason'', JStr ''TIMEOUT'')]"
| "source_json (SourceAt frontier hash) = JObj [(''status'', JStr ''AVAILABLE''), (''frontier'', checkpoint_json frontier),
     (''checkpointHash'', json_option JStr hash)]"

fun observed_json :: "inclusion_observation \<Rightarrow> json" where
  "observed_json ObservationDown = JObj [(''status'', JStr ''UNAVAILABLE''), (''reason'', JStr ''TIMEOUT'')]"
| "observed_json (NotFound x) = JObj [(''status'', JStr ''NOT_FOUND''), (''transactionId'', JStr x)]"
| "observed_json (Found m digest) = JObj ((''status'', JStr ''FOUND'') # membership_members m @ [(''pageDigest'', JStr digest)])"

definition call_members :: "observer_state \<Rightarrow> (string \<times> json) list" where
  "call_members s = [(''state'', observer_json s), (''expectedRevision'', JNum (os_revision s))]"

definition versions_call :: "observer_state \<Rightarrow> int option \<Rightarrow> int option \<Rightarrow> json" where
  "versions_call s a b = JObj (call_members s @ [(''maxV1Height'', json_option JNum a), (''minV2Height'', json_option JNum b)])"

definition plan_call :: "observer_state \<Rightarrow> chain_source \<Rightarrow> json" where
  "plan_call s source = JObj (call_members s @ context_members (own_context s) @ [(''source'', source_json source)])"

definition page_call :: "observer_state \<Rightarrow> backfill_plan \<Rightarrow> momentum_page \<Rightarrow> json" where
  "page_call s p pg = JObj (call_members s @ [(''plan'', plan_json p), (''page'', page_json pg)])"

definition inclusion_call :: "observer_state \<Rightarrow> inclusion_observation \<Rightarrow> json" where
  "inclusion_call s obs = JObj (call_members s @ context_members (own_context s) @ [(''observation'', observed_json obs)])"

section \<open>What is read of them\<close>

definition page_sound :: "catch_up \<Rightarrow> momentum_page \<Rightarrow> bool" where
  "page_sound cu pg \<longleftrightarrow> page_ok cu pg \<and> context_ok (pg_context pg) \<and> commitment_text (pg_planId pg)
     \<and> checkpoint_ok (pg_start pg) \<and> checkpoint_ok (pg_frontier pg)
     \<and> (\<forall>e \<in> set (pg_entries pg). int (length (pe_members e)) \<le> cu_momentumMembers cu
          \<and> (\<forall>(x, b) \<in> set (pe_members e). zenon_transaction x \<and> commitment_text b))
     \<and> sum_list (map (length \<circ> pe_members) (pg_entries pg)) \<le> max_members"

lemma peek_obj [simp]: "peek k (obj kvs) = (case map_of kvs k of Some v \<Rightarrow> v | None \<Rightarrow> VUndefined)"
  by (simp add: obj_def map_of_map split_beta comp_def split: option.split)

lemma member_copy: "zenon_transaction (fst m) \<Longrightarrow> commitment_text (snd m) \<Longrightarrow> normalize_member (js_of (member_json m)) = Some m"
  by (simp add: normalize_member_def member_json_def exact_fields_obj)

lemma page_entry_copy:
  assumes "page_entry_ok e" "int (length (pe_members e)) \<le> cu_momentumMembers cu"
    "\<forall>(x, b) \<in> set (pe_members e). zenon_transaction x \<and> commitment_text b"
  shows "normalize_page_entry cu (js_of (page_entry_json e)) = Some e"
proof -
  have "all_some (map normalize_member (map js_of (map member_json (pe_members e)))) = Some (pe_members e)"
    using assms(3) by (intro all_copied member_copy) auto
  then show ?thesis
    using assms(1,2) by (simp add: normalize_page_entry_def page_entry_json_def exact_fields_obj page_entry_ok_def comp_def)
qed

lemma page_copy:
  assumes "page_sound cu pg"
  shows "normalize_page cu (js_of (page_json pg)) = Some pg"
proof -
  have "all_some (map (normalize_page_entry cu) (map js_of (map page_entry_json (pg_entries pg)))) = Some (pg_entries pg)"
    using assms by (intro all_copied page_entry_copy) (auto simp: page_sound_def page_ok_def)
  then show ?thesis
    using assms by (simp add: normalize_page_def page_json_def page_fields_def context_fields_def context_members_def exact_fields_obj
        read_context_def page_sound_def page_ok_def context_ok_def comp_def)
qed

lemma plan_copy: "plan_ok sha p \<Longrightarrow> normalize_plan sha (js_of (plan_json p)) = Some p"
  by (cases p; cases "bp_context p") (simp add: normalize_plan_def plan_json_def plan_members_def plan_fields_def context_fields_def
      context_members_def exact_fields_obj read_context_def plan_ok_def context_ok_def)

fun source_ok :: "chain_source \<Rightarrow> bool" where
  "source_ok SourceDown \<longleftrightarrow> True"
| "source_ok (SourceAt frontier hash) \<longleftrightarrow> checkpoint_ok frontier \<and> (\<forall>h \<in> set_option hash. hash_text h)"

fun observed_ok :: "inclusion_observation \<Rightarrow> bool" where
  "observed_ok ObservationDown \<longleftrightarrow> True"
| "observed_ok (NotFound x) \<longleftrightarrow> zenon_transaction x"
| "observed_ok (Found m digest) \<longleftrightarrow> membership_ok m \<and> commitment_text digest"

lemma source_copy: "source_ok source \<Longrightarrow> normalize_source (js_of (source_json source)) = Some source"
proof (cases source)
  case (SourceAt frontier hash)
  assume "source_ok source"
  moreover from this have "nullable as_hash (js_of (json_option JStr hash)) = Some hash"
    by (intro nullable_copy) (auto simp: SourceAt)
  ultimately show ?thesis by (simp add: SourceAt normalize_source_def exact_fields_obj)
qed (simp add: normalize_source_def exact_fields_obj unavailable_def)

lemma observed_copy: "observed_ok obs \<Longrightarrow> normalize_observation (js_of (observed_json obs)) = Some obs"
  by (cases obs) (simp_all add: normalize_observation_def exact_fields_obj unavailable_def membership_fields_def
      membership_members_def read_membership_def membership_ok_def)


section \<open>Calls fit the limits\<close>

lemma own_context_ok: "valid_state sha s \<Longrightarrow> context_ok (own_context s)"
  using valid_parts(1) by (auto simp: parts_ok_def own_context_def context_ok_def)

lemma compact_context [compact_rules]:
  assumes "context_ok c" "h \<le> 20" "compact_members h kvs n k t"
  shows "compact_members h (context_members c @ kvs) (10 + n) (280 + k) (1136 + t)"
proof -
  have "compact_members h (context_members c @ kvs) (1 + (1 + (4 + (4 + n)))) (28 + 0 + (28 + 0 + (28 + 84 + (28 + 84 + k))))
      (32 + 130 + (32 + 130 + (32 + 374 + (32 + 374 + t))))"
    unfolding context_members_def append.simps
    by (rule compact_rules assms | (use assms(2) in \<open>simp add: compact_defs assms(1) [unfolded context_ok_def]; fail\<close>))+
  then show ?thesis by (simp add: ac_simps)
qed

lemma compact_call [compact_rules]:
  assumes "valid_state sha s" "compact_members 16 kvs n k t"
  shows "compact_members 16 (call_members s @ kvs) (661 + n) (14556 + k) (61080 + t)"
proof -
  have "count_safe (os_revision s)" using valid_parts(1) [OF assms(1)] by (simp add: parts_ok_def)
  then have "compact_members 16 (call_members s @ kvs) (660 + (1 + n)) (28 + 14500 + (28 + 0 + k)) (32 + 61000 + (32 + 16 + t))"
    unfolding call_members_def append.simps
    by - (rule compact_rules assms compact_state [OF assms(1)] | (simp add: compact_defs; fail))+
  then show ?thesis by (simp add: ac_simps)
qed

lemma compact_source [compact_rules]:
  assumes "source_ok source"
  shows "compact 16 (source_json source) 10 400 1000"
proof (cases source)
  case SourceDown
  show ?thesis
    unfolding SourceDown source_json.simps
    by (rule compact_weakened [where h = 16], (rule compact_rules | (simp add: compact_defs short_text_def; fail))+)
next
  case (SourceAt frontier hash)
  note given = assms [unfolded SourceAt source_ok.simps]
  show ?thesis
    unfolding SourceAt source_json.simps
    by (rule compact_weakened [where h = 16], (rule compact_rules | (simp add: compact_defs given; fail)
        | (simp add: short_text_def string_text_def escape_char_def code_def; fail))+)
qed

lemma compact_observed [compact_rules]:
  assumes "observed_ok obs"
  shows "compact 16 (observed_json obs) 10 400 1400"
proof (cases obs)
  case ObservationDown
  show ?thesis
    unfolding ObservationDown observed_json.simps
    by (rule compact_weakened [where h = 16], (rule compact_rules | (simp add: compact_defs short_text_def; fail))+)
next
  case (NotFound x)
  note given = assms [unfolded NotFound observed_ok.simps]
  show ?thesis
    unfolding NotFound observed_json.simps
    by (rule compact_weakened [where h = 16], (rule compact_rules | (simp add: compact_defs given; fail)
        | (simp add: short_text_def string_text_def escape_char_def code_def; fail))+)
next
  case (Found m digest)
  note given = assms [unfolded Found observed_ok.simps membership_ok_def]
  show ?thesis
    unfolding Found observed_json.simps membership_members_def append.simps
    by (rule compact_weakened [where h = 16], (rule compact_rules | (simp add: compact_defs given; fail)
        | (simp add: short_text_def string_text_def escape_char_def code_def; fail))+)
qed

lemma object_fits:
  assumes "compact_members 16 kvs n k t" "length kvs \<le> 64" "n < 8192" "k \<le> 65536" "t \<le> 131070"
  shows "within_limits (JObj kvs)"
proof -
  have "compact 15 (JObj kvs) (Suc n) k (2 + t)"
    using assms(1,2) by (intro compact_object) (simp_all add: max_array_length_def max_depth_def)
  then have "compact 0 (JObj kvs) (Suc n) k (2 + t)" by (rule compact_weaken) simp_all
  then show ?thesis by (rule compact_fits) (use assms(3-) in \<open>simp_all add: max_nodes_def max_key_bytes_def\<close>)
qed

lemma calls_fit:
  assumes "valid_state sha s"
  shows "source_ok source \<Longrightarrow> within_limits (plan_call s source)"
    and "observed_ok obs \<Longrightarrow> within_limits (inclusion_call s obs)"
    and "version_bounds_ok a b \<Longrightarrow> within_limits (versions_call s a b)"
proof -
  have seen: "count_safe n" if "version_bounds_ok a b" "a = Some n \<or> b = Some n" for n
    using that by (auto simp: version_bounds_ok_def positive_count)
  show "within_limits (plan_call s source)" if "source_ok source"
    unfolding plan_call_def
    by (rule object_fits, (rule compact_rules assms own_context_ok that
        | (simp add: compact_defs call_members_def context_members_def; fail))+)
  show "within_limits (inclusion_call s obs)" if "observed_ok obs"
    unfolding inclusion_call_def
    by (rule object_fits, (rule compact_rules assms own_context_ok that
        | (simp add: compact_defs call_members_def context_members_def; fail))+)
  show "within_limits (versions_call s a b)" if "version_bounds_ok a b"
    unfolding versions_call_def
    by (rule object_fits, (rule compact_rules assms
        | (simp add: compact_defs call_members_def seen [OF that]; fail))+)
qed

section \<open>Calls\<close>

lemma js_members_keys: "map fst (js_members kvs) = map fst kvs"
  by (simp add: js_members_def split_beta comp_def)

lemma supplied_call:
  assumes "within_limits (JObj kvs)" "map fst kvs = names" "distinct names"
  shows "supplied_fields names (js_of (JObj kvs)) = Some (js_members kvs)"
proof -
  have "exact_fields names (js_of (JObj kvs)) = Some (js_members kvs)"
    using assms(2,3) by (simp only: js_of_JObj exact_fields_obj js_members_keys)
  then show ?thesis using assms(1) by (simp only: supplied_fields_def snapshot_js if_True bind.bind_lunit)
qed

lemma read_call:
  assumes "valid_state sha s"
  shows "read_state sha (js_members (call_members s) @ kvs) = Inr s"
  using assms valid_parts(1) [OF assms]
  by (simp add: read_state_def call_members_def state_copy parts_ok_def)


lemma versions_called:
  assumes "valid_state sha s" "os_status s \<noteq> Quarantined" "version_bounds_ok a b" "(a, b) \<noteq> (None, None)"
  shows "versions_input sha (js_of (versions_call s a b)) = apply_versions sha s a b"
proof -
  have "supplied_fields [''state'', ''expectedRevision'', ''maxV1Height'', ''minV2Height''] (js_of (versions_call s a b))
      = Some (js_members (call_members s @ [(''maxV1Height'', json_option JNum a), (''minV2Height'', json_option JNum b)]))"
    using calls_fit(3) [OF assms(1,3)] unfolding versions_call_def by (rule supplied_call) (simp_all add: call_members_def)
  then show ?thesis
    using assms read_call [OF assms(1)] by (simp add: versions_input_def version_bounds_copy call_members_def)
qed

lemma plan_called:
  assumes "valid_state sha s" "os_status s \<noteq> Quarantined" "source_ok source"
  shows "plan_input sha (js_of (plan_call s source)) = plan_backfill sha s source"
proof -
  have "supplied_fields ([''state'', ''expectedRevision''] @ context_fields @ [''source'']) (js_of (plan_call s source))
      = Some (js_members (call_members s @ context_members (own_context s) @ [(''source'', source_json source)]))"
    using calls_fit(1) [OF assms(1,3)] unfolding plan_call_def
    by (rule supplied_call) (simp_all add: call_members_def context_members_def context_fields_def)
  moreover have "read_context (js_members (call_members s) @ js_members (context_members (own_context s)) @ xs) = Some (own_context s)" for xs
    using own_context_ok [OF assms(1)]
    by (simp add: read_context_def call_members_def context_members_def context_ok_def)
  moreover have "field ''source'' (js_members (call_members s @ context_members (own_context s) @ [(''source'', source_json source)]))
      = js_of (source_json source)"
    by (simp add: call_members_def context_members_def)
  ultimately show ?thesis
    using assms(1,2) source_copy [OF assms(3)] by (simp add: plan_input_def read_call del: js_of_JObj)
qed

lemma page_called:
  assumes "valid_state sha s" "within_limits (page_call s p pg)" "os_status s \<noteq> Quarantined" "plan_ok sha p" "page_sound (os_catchUp s) pg"
  shows "page_input sha (js_of (page_call s p pg)) = apply_page sha s p pg"
proof -
  have "supplied_fields [''state'', ''expectedRevision'', ''plan'', ''page''] (js_of (page_call s p pg))
      = Some (js_members (call_members s @ [(''plan'', plan_json p), (''page'', page_json pg)]))"
    using assms(2) unfolding page_call_def by (rule supplied_call) (simp_all add: call_members_def)
  moreover have "field ''plan'' (js_members (call_members s @ [(''plan'', plan_json p), (''page'', page_json pg)])) = js_of (plan_json p)"
    "field ''page'' (js_members (call_members s @ [(''plan'', plan_json p), (''page'', page_json pg)])) = js_of (page_json pg)"
    by (simp_all add: call_members_def)
  ultimately show ?thesis
    using assms(1,3) plan_copy [OF assms(4)] page_copy [OF assms(5)] by (simp add: page_input_def read_call del: js_of_JObj)
qed

lemma inclusion_called:
  assumes "valid_state sha s" "os_status s \<noteq> Quarantined" "observed_ok obs"
  shows "inclusion_input sha (js_of (inclusion_call s obs)) = apply_inclusion sha s obs"
proof -
  have "supplied_fields ([''state'', ''expectedRevision''] @ context_fields @ [''observation'']) (js_of (inclusion_call s obs))
      = Some (js_members (call_members s @ context_members (own_context s) @ [(''observation'', observed_json obs)]))"
    using calls_fit(2) [OF assms(1,3)] unfolding inclusion_call_def
    by (rule supplied_call) (simp_all add: call_members_def context_members_def context_fields_def)
  moreover have "read_context (js_members (call_members s) @ js_members (context_members (own_context s)) @ xs) = Some (own_context s)" for xs
    using own_context_ok [OF assms(1)]
    by (simp add: read_context_def call_members_def context_members_def context_ok_def)
  moreover have "field ''observation'' (js_members (call_members s @ context_members (own_context s) @ [(''observation'', observed_json obs)]))
      = js_of (observed_json obs)"
    by (simp add: call_members_def context_members_def)
  ultimately show ?thesis
    using assms(1,2) observed_copy [OF assms(3)] by (simp add: inclusion_input_def read_call del: js_of_JObj)
qed

end
