(* ===== verification/Observer_Catch_Up.thy ===== *)
theory Observer_Catch_Up
  imports Observer_Calls
begin

text \<open>
  Catching up with an honest chain. \<open>catch_up_loop\<close> is the loop of a coordinator that asks the observer for a plan, hands
  it the page of the plan, shows it the inclusion it asks for, and stops at the frontier. It calls the
  operations of the observer on JSON values and changes no state itself. The lemmas say that every round of it moves on,
  so the loop ends at the frontier with the target included and its confirmations counted.
\<close>

section \<open>The honest chain and the loop\<close>

definition tip_at :: "(int \<Rightarrow> page_entry) \<Rightarrow> int \<Rightarrow> checkpoint" where
  "tip_at mom h = \<lparr>ck_height = h, ck_hash = pe_hash (mom h)\<rparr>"

definition honest_page :: "(int \<Rightarrow> page_entry) \<Rightarrow> backfill_plan \<Rightarrow> momentum_page" where
  "honest_page mom p = \<lparr>pg_context = bp_context p, pg_planId = bp_planId p, pg_start = bp_start p, pg_frontier = bp_frontier p,
     pg_entries = map mom [bp_from p..bp_through p]\<rparr>"

fun catch_up_loop :: "(string \<Rightarrow> string) \<Rightarrow> (int \<Rightarrow> page_entry) \<Rightarrow> int \<Rightarrow> nat \<Rightarrow> observer_state \<Rightarrow> observer_state option" where
  "catch_up_loop sha mom F 0 s = None"
| "catch_up_loop sha mom F (Suc n) s =
     (case plan_input sha (js_of (plan_call s (SourceAt (tip_at mom F) (Some (pe_hash (mom (ck_height (os_checkpoint s)))))))) of
        Inr (t, BackfillRequired, Some p) \<Rightarrow>
          (case page_input sha (js_of (page_call t p (honest_page mom p))) of
             Inr (u, Applied) \<Rightarrow> catch_up_loop sha mom F n u
           | _ \<Rightarrow> None)
      | Inr (t, InclusionRequired, _) \<Rightarrow>
          (case Option.bind (os_lastPage t) (\<lambda>r. map_option (\<lambda>m. Found m (rc_pageDigest r)) (rc_membership r)) of
             None \<Rightarrow> None
           | Some obs \<Rightarrow>
               (case inclusion_input sha (js_of (inclusion_call t obs)) of
                  Inr (u, Applied) \<Rightarrow> catch_up_loop sha mom F n u
                | _ \<Rightarrow> None))
      | Inr (t, AtFrontier, _) \<Rightarrow> Some t
      | _ \<Rightarrow> None)"

text \<open>The target is in momentum \<open>k\<close> and no other.\<close>

definition honest_momentum :: "observer_state \<Rightarrow> (int \<Rightarrow> page_entry) \<Rightarrow> int \<Rightarrow> int \<Rightarrow> bool" where
  "honest_momentum s mom k h \<longleftrightarrow> pe_height (mom h) = h \<and> pe_previousHash (mom h) = pe_hash (mom (h - 1)) \<and> page_entry_ok (mom h)
     \<and> distinct (map fst (pe_members (mom h)))
     \<and> (\<forall>(x, b) \<in> set (pe_members (mom h)). x = os_transactionId s \<longrightarrow> b = os_binding s)
     \<and> (os_transactionId s \<in> set (map fst (pe_members (mom h))) \<longleftrightarrow> h = k)"

definition honest_chain :: "observer_state \<Rightarrow> (int \<Rightarrow> page_entry) \<Rightarrow> int \<Rightarrow> int \<Rightarrow> bool" where
  "honest_chain s mom k F \<longleftrightarrow> os_checkpoint s = tip_at mom (ck_height (os_checkpoint s)) \<and> ck_height (os_checkpoint s) \<le> F \<and> F \<le> max_safe
     \<and> (\<forall>h. ck_height (os_checkpoint s) < h \<and> h \<le> F \<longrightarrow> honest_momentum s mom k h)"

definition target_at :: "observer_state \<Rightarrow> (int \<Rightarrow> page_entry) \<Rightarrow> int \<Rightarrow> membership" where
  "target_at s mom k = \<lparr>mb_transactionId = os_transactionId s, mb_binding = os_binding s, mb_height = k, mb_hash = pe_hash (mom k)\<rparr>"

section \<open>Scanning an honest page\<close>

lemma scan_absent:
  "distinct (map fst ms) \<Longrightarrow> set (map fst ms) \<inter> set seen = {} \<Longrightarrow> x \<notin> set (map fst ms) \<Longrightarrow> scan_members x b e ms seen found = Inr found"
  by (induction x b e ms seen found rule: scan_members.induct) auto

lemma scan_present:
  "distinct (map fst ms) \<Longrightarrow> set (map fst ms) \<inter> set seen = {} \<Longrightarrow> \<forall>(y, c) \<in> set ms. y = x \<longrightarrow> c = b \<Longrightarrow> x \<in> set (map fst ms)
    \<Longrightarrow> scan_members x b e ms seen None = Inr (Some \<lparr>mb_transactionId = x, mb_binding = b, mb_height = pe_height e, mb_hash = pe_hash e\<rparr>)"
proof (induction ms arbitrary: seen)
  case (Cons m ms)
  obtain y c where m: "m = (y, c)" by (cases m)
  show ?case
  proof (cases "y = x")
    case True
    then have "x \<notin> set (map fst ms)" "c = b" using Cons.prems(1,3) by (simp_all add: m)
    then show ?thesis using Cons.prems(1,2) True by (simp add: m scan_absent Let_def)
  next
    case False
    then show ?thesis using Cons.prems by (simp add: m) (rule Cons.IH, auto)
  qed
qed simp

lemma scan_honest:
  assumes "\<And>h. a \<le> h \<Longrightarrow> h \<le> z \<Longrightarrow> honest_momentum s mom k h" and "a \<le> k \<and> k \<le> z \<longrightarrow> found = None"
  shows "scan_entries (os_transactionId s) (os_binding s) (map mom [a..z]) a (pe_hash (mom (a - 1))) found
    = Inr (map lineage_of (map mom [a..z]), if a \<le> k \<and> k \<le> z then Some (target_at s mom k) else found)"
  using assms
proof (induction a z arbitrary: found rule: upto.induct)
  case (1 a z)
  show ?case
  proof (cases "a \<le> z")
    case True
    have honest: "honest_momentum s mom k a" using 1(2) True by simp
    define found' where "found' = (if a = k then Some (target_at s mom k) else found)"
    have "scan_members (os_transactionId s) (os_binding s) (mom a) (pe_members (mom a)) [] found = Inr found'"
    proof (cases "a = k")
      case True
      then have "found = None" using 1(3) \<open>a \<le> z\<close> by simp
      then show ?thesis
        using honest scan_present [of "pe_members (mom a)" "[]" "os_transactionId s" "os_binding s" "mom a"] True
        by (simp add: honest_momentum_def found'_def target_at_def)
    next
      case False
      then show ?thesis using honest by (simp add: honest_momentum_def found'_def scan_absent)
    qed
    moreover have "scan_entries (os_transactionId s) (os_binding s) (map mom [a + 1..z]) (a + 1) (pe_hash (mom a)) found'
        = Inr (map lineage_of (map mom [a + 1..z]), if a + 1 \<le> k \<and> k \<le> z then Some (target_at s mom k) else found')"
      using 1(1) [OF True, of found'] 1(2,3) by (simp add: found'_def)
    ultimately show ?thesis
      using honest True by (auto simp: upto_rec1 honest_momentum_def found'_def)
  qed auto
qed


section \<open>One round\<close>

text \<open>A state the loop can be in: at a momentum of the chain, with only the target itself seen or included.\<close>

definition plan_from :: "(string \<Rightarrow> string) \<Rightarrow> observer_state \<Rightarrow> (int \<Rightarrow> page_entry) \<Rightarrow> int \<Rightarrow> int \<Rightarrow> backfill_plan" where
  "plan_from sha s mom F h = make_plan sha (s\<lparr>os_checkpoint := tip_at mom h\<rparr>) (tip_at mom F)"

definition follows :: "(string \<Rightarrow> string) \<Rightarrow> observer_state \<Rightarrow> (int \<Rightarrow> page_entry) \<Rightarrow> int \<Rightarrow> int \<Rightarrow> observer_state \<Rightarrow> bool" where
  "follows sha s mom k F t \<longleftrightarrow> valid_state sha t \<and> same_identity s t \<and> os_status t \<noteq> Quarantined
     \<and> ck_height (os_checkpoint s) \<le> ck_height (os_checkpoint t) \<and> ck_height (os_checkpoint t) \<le> F
     \<and> os_checkpoint t = tip_at mom (ck_height (os_checkpoint t))
     \<and> (\<forall>i. os_inclusion t = Some i \<longrightarrow> in_membership i = target_at s mom k \<and> ck_height (os_checkpoint s) < k)
     \<and> (\<forall>r m. os_lastPage t = Some r \<longrightarrow> rc_membership r = Some m \<longrightarrow> m = target_at s mom k \<and> ck_height (os_checkpoint s) < k)
     \<and> (\<forall>r. os_lastPage t = Some r \<longrightarrow> (\<exists>h. ck_height (os_checkpoint s) \<le> h \<and> h < ck_height (os_checkpoint t)
          \<and> rc_planId r = bp_planId (plan_from sha s mom F h)))
     \<and> (ck_height (os_checkpoint s) < k \<and> k \<le> ck_height (os_checkpoint t) \<longrightarrow> os_inclusion t \<noteq> None \<or> inclusion_pending t)"

lemma followsD:
  assumes "follows sha s mom k F t"
  shows "valid_state sha t" "same_identity s t" "os_status t \<noteq> Quarantined"
    "ck_height (os_checkpoint s) \<le> ck_height (os_checkpoint t)" "ck_height (os_checkpoint t) \<le> F"
    "os_checkpoint t = tip_at mom (ck_height (os_checkpoint t))"
    "os_inclusion t = Some i \<Longrightarrow> in_membership i = target_at s mom k \<and> ck_height (os_checkpoint s) < k"
    "os_lastPage t = Some r \<Longrightarrow> rc_membership r = Some m \<Longrightarrow> m = target_at s mom k \<and> ck_height (os_checkpoint s) < k"
    "os_lastPage t = Some r \<Longrightarrow> \<exists>h. ck_height (os_checkpoint s) \<le> h \<and> h < ck_height (os_checkpoint t)
       \<and> rc_planId r = bp_planId (plan_from sha s mom F h)"
    "ck_height (os_checkpoint s) < k \<Longrightarrow> k \<le> ck_height (os_checkpoint t) \<Longrightarrow> os_inclusion t \<noteq> None \<or> inclusion_pending t"
  using assms unfolding follows_def by blast+

lemma make_plan_from:
  assumes "same_identity s t" "os_checkpoint t = tip_at mom (ck_height (os_checkpoint t))"
  shows "make_plan sha t (tip_at mom F) = plan_from sha s mom F (ck_height (os_checkpoint t))"
proof -
  have "own_context (s\<lparr>os_checkpoint := c\<rparr>) = own_context t" for c
    using assms(1) by (simp add: same_identity_def own_context_def)
  then show ?thesis
    using assms(1) by (simp add: plan_from_def make_plan_def Let_def same_identity_def flip: assms(2))
qed

lemma own_plan_ok:
  assumes v: "valid_state sha t" and F: "checkpoint_ok F" and higher: "ck_height (os_checkpoint t) < ck_height F" and sha: "hex_digest sha"
  shows "plan_ok sha (make_plan sha t F)"
proof -
  have parts: "checkpoint_ok (os_checkpoint t)" "catch_up_ok (os_catchUp t)"
    using valid_parts(1) [OF v] by (simp_all add: parts_ok_def)
  then have "ck_height (os_checkpoint t) < bounded_through (os_catchUp t) (ck_height (os_checkpoint t)) (ck_height F)"
    "bounded_through (os_catchUp t) (ck_height (os_checkpoint t)) (ck_height F) \<le> ck_height F" "0 \<le> ck_height (os_checkpoint t)"
    using higher by (auto simp: bounded_through_def catch_up_ok_def checkpoint_ok_def count_safe_def)
  then show ?thesis
    using parts F own_context_ok [OF v] sha
    by (simp add: plan_ok_def make_plan_def Let_def plan_id_def positive_safe_def checkpoint_ok_def count_safe_def)
qed

lemma compact_plan:
  assumes "plan_ok sha p"
  shows "compact 16 (plan_json p) 22 588 1980"
proof -
  have given: "context_ok (bp_context p)" "checkpoint_ok (bp_start p)" "checkpoint_ok (bp_frontier p)" "positive_safe (bp_from p)"
    "positive_safe (bp_through p)" "positive_safe (bp_count p)" "commitment_text (bp_planId p)"
    using assms unfolding plan_ok_def by blast+
  show ?thesis
    unfolding plan_json_def plan_members_def append.simps append_assoc
    by (rule compact_weakened [where h = 16], (rule compact_rules given | (simp add: compact_defs context_members_def given; fail))+)
qed

lemma own_plan_detached:
  assumes "plan_ok sha (make_plan sha t F)"
  shows "detached_plan sha t F = Some (make_plan sha t F)"
proof -
  have "within_limits (plan_json (make_plan sha t F))"
    by (rule compact_fits [OF compact_weaken [OF compact_plan [OF assms], of 0 22 588 1980]]) (simp_all add: max_nodes_def max_key_bytes_def)
  then show ?thesis using plan_copy [OF assms] by (simp add: detached_plan_def snapshot_js)
qed


lemma last_momentum: "a \<le> z \<Longrightarrow> last (map mom [a..z]) = mom z"
  by (simp add: upto_rec2)

lemma tuple_agrees:
  "same_tuple t r \<Longrightarrow> os_inclusion t = Some i \<Longrightarrow> rc_membership r = Some m
    \<Longrightarrow> mb_height m = in_height i \<and> mb_hash m = mb_hash (in_membership i)"
  by (simp add: same_tuple_def)

lemma honest_page_applied:
  fixes t :: observer_state and mom :: "int \<Rightarrow> page_entry" and F :: int and sha :: "string \<Rightarrow> string"
  defines "h \<equiv> ck_height (os_checkpoint t)" and "p \<equiv> make_plan sha t (tip_at mom F)"
  assumes t: "follows sha s mom k F t" and room: "h < F" "\<not> inclusion_pending t" and sha: "hex_digest sha"
    and chain: "honest_chain s mom k F" "checkpoint_ok (tip_at mom F)"
    and plans: "inj_on (\<lambda>h. bp_planId (plan_from sha s mom F h)) {ck_height (os_checkpoint s)..<F}"
    and sound: "page_sound (os_catchUp t) (honest_page mom p)"
  shows "\<exists>r. accepted_page sha t p (honest_page mom p) r \<and> same_tuple t r
    \<and> apply_page sha t p (honest_page mom p) = moves_to t (after_page t (with_threshold t r)) Applied
    \<and> rc_membership r = (if h < k \<and> k \<le> bp_through p then Some (target_at s mom k) else None)
    \<and> rc_end r = tip_at mom (bp_through p) \<and> rc_planId r = bp_planId p \<and> h < bp_through p \<and> bp_through p \<le> F"
proof -
  define z where "z = bounded_through (os_catchUp t) h F"
  define pg where "pg = honest_page mom p"
  have v: "valid_state sha t" and live: "os_status t \<noteq> Quarantined" and same: "same_identity s t" and at: "os_checkpoint t = tip_at mom h"
    and low: "ck_height (os_checkpoint s) \<le> h"
    unfolding h_def by (fact followsD [OF t])+
  note eqs = same [unfolded same_identity_def]
  have "catch_up_ok (os_catchUp t)" using valid_parts(1) [OF v] by (simp add: parts_ok_def)
  then have z: "h < z" "z \<le> F" using room(1) by (auto simp: z_def bounded_through_def catch_up_ok_def)
  have plan: "bp_from p = h + 1" "bp_through p = z" "bp_count p = z - h" "bp_context p = own_context t" "bp_start p = os_checkpoint t"
    "bp_frontier p = tip_at mom F"
    by (simp_all add: p_def make_plan_def Let_def h_def z_def tip_at_def)
  have page: "pg_context pg = own_context t" "pg_planId pg = bp_planId p" "pg_start pg = os_checkpoint t" "pg_frontier pg = tip_at mom F"
    "pg_entries pg = map mom [h + 1..z]"
    by (simp_all add: pg_def honest_page_def plan)
  have honest: "honest_momentum s mom k j" if "h + 1 \<le> j" "j \<le> z" for j
    using chain(1) that low z(2) by (simp add: honest_chain_def)
  have scan: "scan_entries (os_transactionId t) (os_binding t) (pg_entries pg) (bp_from p) (ck_hash (pg_start pg)) None
      = Inr (map lineage_of (map mom [h + 1..z]), if h < k \<and> k \<le> z then Some (target_at s mom k) else None)"
    using scan_honest [of "h + 1" z s mom k None, OF honest] by (simp add: page plan eqs at tip_at_def add1_zle_eq)
  define found where "found = (if h < k \<and> k \<le> z then Some (target_at s mom k) else None)"
  define r where "r = page_receipt_of sha (own_context t) p pg (map lineage_of (map mom [h + 1..z])) found"
  have "last (map mom [h + 1..z]) = mom z" "pe_height (mom z) = z"
    using last_momentum [of "h + 1" z mom] honest [of z] z by (simp_all add: honest_momentum_def)
  then have r: "rc_end r = tip_at mom z" "rc_membership r = found" "rc_planId r = bp_planId p"
    by (simp_all add: r_def page_receipt_of_def Let_def page tip_at_def)
  have entries: "int (length (pg_entries pg)) = bp_count p" using z by (simp add: page plan)
  have ends: "ck_height (rc_end r) = bp_through p"
    "ck_height (rc_end r) = ck_height (pg_frontier pg) \<longrightarrow> ck_hash (rc_end r) = ck_hash (pg_frontier pg)"
    by (simp_all add: r plan page tip_at_def)
  have tuple: "same_tuple t r"
    using followsD(7) [OF t] by (auto simp: same_tuple_def r found_def)
  have "plan_ok sha p" unfolding p_def
    using room(1) by (intro own_plan_ok [OF v chain(2) _ sha]) (simp add: h_def tip_at_def)
  moreover have "page_ok (os_catchUp t) pg" using sound by (simp add: page_sound_def pg_def)
  moreover have "p = make_plan sha t (bp_frontier p)" by (simp only: plan(6)) (simp only: p_def)
  moreover have "\<exists>lineage found. scan_entries (os_transactionId t) (os_binding t) (pg_entries pg) (bp_from p) (ck_hash (pg_start pg)) None
      = Inr (lineage, found) \<and> r = page_receipt_of sha (own_context t) p pg lineage found"
    using scan unfolding r_def found_def by blast
  ultimately have accepted: "accepted_page sha t p pg r"
    unfolding accepted_page_def using v live entries ends page(3,4) plan(5,6) by (intro conjI) (simp_all only: simp_thms)
  have fresh: "\<not> replayed t r"
  proof (cases "os_lastPage t")
    case (Some old)
    then obtain j where j: "ck_height (os_checkpoint s) \<le> j" "j < h" "rc_planId old = bp_planId (plan_from sha s mom F j)"
      using followsD(9) [OF t] unfolding h_def by blast
    moreover have "p = plan_from sha s mom F h"
      unfolding p_def h_def by (rule make_plan_from [OF same at [unfolded h_def]])
    moreover have "j = h" if "bp_planId (plan_from sha s mom F j) = bp_planId (plan_from sha s mom F h)"
      using inj_onD [OF plans that] j room(1) low by simp
    ultimately show ?thesis using Some r(3) by (auto simp: replayed_def)
  qed (simp add: replayed_def)
  have "apply_page sha t p pg = accept_receipt sha t p r"
    unfolding apply_page_def scan [folded found_def] sum.case prod.case r_def [symmetric] Let_def
    using ends entries by (auto simp: page(1-4) plan(4-6))
  also have "\<dots> = with_disposition (update_included sha t (rc_end r) (with_threshold t r)) Applied"
  proof -
    have "make_plan sha t (bp_frontier p) = p" by (simp only: plan(6)) (simp only: p_def)
    moreover have "(case (os_inclusion t, rc_membership r) of
        (Some i, Some m) \<Rightarrow> \<not> (mb_height m = in_height i \<and> mb_hash m = mb_hash (in_membership i)) | _ \<Rightarrow> False) = False"
    proof (cases "os_inclusion t")
      case (Some i)
      then show ?thesis using tuple_agrees [OF tuple Some] by (cases "rc_membership r") simp_all
    qed simp
    ultimately show ?thesis using fresh room(2) by (simp only: accept_receipt_def same_json_refl if_False not_True_eq_False)
  qed
  also have "\<dots> = moves_to t (after_page t (with_threshold t r)) Applied"
    by (rule update_included_eq [OF accepted tuple sha])
  finally show ?thesis
    using accepted tuple r z by (auto simp: pg_def found_def plan)
qed


lemma page_round:
  fixes t :: observer_state and mom :: "int \<Rightarrow> page_entry" and F :: int and sha :: "string \<Rightarrow> string"
  defines "p \<equiv> make_plan sha t (tip_at mom F)"
  assumes t: "follows sha s mom k F t" and below: "ck_height (os_checkpoint t) < F" "\<not> inclusion_pending t" and sha: "hex_digest sha"
    and chain: "honest_chain s mom k F" "checkpoint_ok (tip_at mom F)"
    and plans: "inj_on (\<lambda>h. bp_planId (plan_from sha s mom F h)) {ck_height (os_checkpoint s)..<F}"
    and sound: "page_sound (os_catchUp t) (honest_page mom p)" and room: "has_room t"
  obtains u where "apply_page sha t p (honest_page mom p) = Inr (u, Applied)" "follows sha s mom k F u"
    "ck_height (os_checkpoint t) < ck_height (os_checkpoint u)" "os_inclusion u = None \<longleftrightarrow> os_inclusion t = None"
    "os_revision u = os_revision t + 1"
proof -
  obtain r where a: "accepted_page sha t p (honest_page mom p) r" and tuple: "same_tuple t r"
    and result: "apply_page sha t p (honest_page mom p) = moves_to t (after_page t (with_threshold t r)) Applied"
    and r: "rc_membership r = (if ck_height (os_checkpoint t) < k \<and> k \<le> bp_through p then Some (target_at s mom k) else None)"
      "rc_end r = tip_at mom (bp_through p)" "rc_planId r = bp_planId p" "ck_height (os_checkpoint t) < bp_through p" "bp_through p \<le> F"
    using honest_page_applied [OF t below sha chain plans sound [unfolded p_def], folded p_def] by blast
  define u where "u = after_page t (with_threshold t r)"
  have v: "valid_state sha t" and same: "same_identity s t" and at: "os_checkpoint t = tip_at mom (ck_height (os_checkpoint t))"
    and low: "ck_height (os_checkpoint s) \<le> ck_height (os_checkpoint t)"
    by (fact followsD [OF t])+
  have "count_safe (os_revision t + 1)"
    using valid_parts(1) [OF v] room by (auto simp: parts_ok_def count_safe_def has_room_def)
  then have valid: "valid_state sha u" unfolding u_def by (rule after_page_valid [OF a tuple sha])
  have own: "p = plan_from sha s mom F (ck_height (os_checkpoint t))"
    unfolding p_def by (rule make_plan_from [OF same at])
  have fields: "os_checkpoint u = tip_at mom (bp_through p)" "os_lastPage u = Some (with_threshold t r)"
    "os_inclusion u = map_option (confirmed (rc_end r)) (os_inclusion t)" "os_revision u = os_revision t + 1" "os_status u \<noteq> Quarantined"
    using r(2) by (simp_all add: u_def) (simp add: after_page_def)
  have height: "ck_height (os_checkpoint u) = bp_through p" by (simp add: fields tip_at_def)
  have included: "in_membership i = target_at s mom k \<and> ck_height (os_checkpoint s) < k" if "os_inclusion u = Some i" for i
    using that followsD(7) [OF t] by (auto simp: fields)
  have shown: "m = target_at s mom k \<and> ck_height (os_checkpoint s) < k" if "os_lastPage u = Some q" "rc_membership q = Some m" for q m
    using that r(1) low by (auto simp: fields split: if_splits)
  have planned: "\<exists>h. ck_height (os_checkpoint s) \<le> h \<and> h < bp_through p \<and> rc_planId q = bp_planId (plan_from sha s mom F h)"
    if "os_lastPage u = Some q" for q
    using that r(3,4) low own by (intro exI [of _ "ck_height (os_checkpoint t)"]) (auto simp: fields)
  have progress: "os_inclusion u \<noteq> None \<or> inclusion_pending u" if "ck_height (os_checkpoint s) < k" "k \<le> bp_through p"
  proof (cases "k \<le> ck_height (os_checkpoint t)")
    case True
    then show ?thesis using followsD(10) [OF t] that below(2) by (auto simp: fields)
  next
    case False
    then show ?thesis using that r(1) by (auto simp: inclusion_pending_def fields)
  qed
  have "same_identity s u" using same by (simp add: u_def same_identity_trans [of s t])
  then have "follows sha s mom k F u"
    unfolding follows_def height
    using valid fields(5) order_trans [OF low less_imp_le [OF r(4)]] r(5) included shown planned progress fields(1) by blast
  moreover have "os_inclusion u = None \<longleftrightarrow> os_inclusion t = None" by (simp add: fields)
  ultimately show thesis
    using that [of u] result room r(4) height fields(4) by (simp add: moves_to_def u_def)
qed

lemma inclusion_round:
  assumes t: "follows sha s mom k F t" and pending: "inclusion_pending t" and sha: "hex_digest sha" and room: "has_room t"
  obtains r m u where "os_lastPage t = Some r" "rc_membership r = Some m" "observed_ok (Found m (rc_pageDigest r))"
    "apply_inclusion sha t (Found m (rc_pageDigest r)) = Inr (u, Applied)" "follows sha s mom k F u"
    "ck_height (os_checkpoint u) = ck_height (os_checkpoint t)" "os_inclusion t = None" "os_inclusion u \<noteq> None"
    "os_revision u = os_revision t + 1"
proof -
  obtain r m where last: "os_lastPage t = Some r" and m: "rc_membership r = Some m" and none: "os_inclusion t = None"
    using pending by (auto simp: inclusion_pending_def split: option.splits)
  have v: "valid_state sha t" and live: "os_status t \<noteq> Quarantined" and same: "same_identity s t"
    by (fact followsD [OF t])+
  have shown: "shown_on sha t r m" using v live none last m by (simp add: shown_on_def)
  note facts = shown_facts [OF shown]
  have ok: "observed_ok (Found m (rc_pageDigest r))" using facts(3,4) by (simp add: receipt_ok_def)
  define u where "u = after_inclusion sha t m r"
  have "include_found sha t m (rc_pageDigest r) = moves_to t u Applied"
    unfolding u_def by (rule include_found_eq [OF shown sha refl])
  then have result: "apply_inclusion sha t (Found m (rc_pageDigest r)) = Inr (u, Applied)"
    using facts(7,8) none room by (simp add: moves_to_def)
  have "count_safe (os_revision t + 1)"
    using valid_parts(1) [OF v] room by (auto simp: parts_ok_def count_safe_def has_room_def)
  then have valid: "valid_state sha u" unfolding u_def by (rule after_inclusion_valid [OF shown sha])
  have fields: "os_checkpoint u = os_checkpoint t" "os_lastPage u = os_lastPage t" "os_inclusion u = Some (new_inclusion sha t m)"
    "os_revision u = os_revision t + 1" "os_status u \<noteq> Quarantined"
    by (simp_all add: u_def after_inclusion_def)
  have "m = target_at s mom k \<and> ck_height (os_checkpoint s) < k" by (rule followsD(8) [OF t last m])
  then have "in_membership (new_inclusion sha t m) = target_at s mom k \<and> ck_height (os_checkpoint s) < k" by (simp add: new_inclusion_def)
  moreover have "same_identity s u" using same by (simp add: u_def after_inclusion_def same_identity_def)
  ultimately have "follows sha s mom k F u"
    unfolding follows_def fields(1,2)
    using valid fields(3,5) followsD(4-6,8,9) [OF t] by auto
  then show thesis using that [OF last m ok result] none by (simp add: fields)
qed


section \<open>The loop\<close>

text \<open>Rounds that are left: one for each momentum at most, and one for the inclusion.\<close>

definition rounds_left :: "int \<Rightarrow> observer_state \<Rightarrow> nat" where
  "rounds_left F t = nat (F - ck_height (os_checkpoint t)) + (if os_inclusion t = None then 1 else 0)"

text \<open>Every page the loop asks for is within the limits of the observer.\<close>

definition pages_fit :: "(string \<Rightarrow> string) \<Rightarrow> observer_state \<Rightarrow> (int \<Rightarrow> page_entry) \<Rightarrow> int \<Rightarrow> bool" where
  "pages_fit sha s mom F \<longleftrightarrow> (\<forall>t. valid_state sha t \<and> same_identity s t \<and> ck_height (os_checkpoint s) \<le> ck_height (os_checkpoint t)
     \<and> ck_height (os_checkpoint t) < F \<longrightarrow>
     (let p = make_plan sha t (tip_at mom F) in page_sound (os_catchUp t) (honest_page mom p)
        \<and> within_limits (page_call t p (honest_page mom p))))"

lemma planned_round:
  assumes t: "follows sha s mom k F t" and F: "checkpoint_ok (tip_at mom F)" and sha: "hex_digest sha"
  shows "plan_input sha (js_of (plan_call t (SourceAt (tip_at mom F) (Some (pe_hash (mom (ck_height (os_checkpoint t))))))))
    = (if inclusion_pending t then Inr (t, InclusionRequired, None)
       else if ck_height (os_checkpoint t) = F then Inr (t, AtFrontier, None)
       else Inr (t, BackfillRequired, Some (make_plan sha t (tip_at mom F))))"
proof -
  note v = followsD(1) [OF t] and live = followsD(3) [OF t] and at = followsD(6) [OF t] and high = followsD(5) [OF t]
  have hash: "ck_hash (os_checkpoint t) = pe_hash (mom (ck_height (os_checkpoint t)))"
    using arg_cong [OF at, of ck_hash] by (simp add: tip_at_def)
  have "hash_text (pe_hash (mom (ck_height (os_checkpoint t))))"
    using valid_parts(1) [OF v] by (simp add: parts_ok_def checkpoint_ok_def flip: hash)
  then have "source_ok (SourceAt (tip_at mom F) (Some (pe_hash (mom (ck_height (os_checkpoint t))))))" using F by simp
  note called = plan_called [OF v live this]
  have "detached_plan sha t (tip_at mom F) = Some (make_plan sha t (tip_at mom F))" if "ck_height (os_checkpoint t) < F"
    using that by (intro own_plan_detached own_plan_ok [OF v F _ sha]) (simp add: tip_at_def)
  moreover have "ck_hash (tip_at mom F) = ck_hash (os_checkpoint t)" if "ck_height (os_checkpoint t) = F"
    using that by (simp add: tip_at_def hash)
  moreover have "ck_height (tip_at mom F) = F" by (simp add: tip_at_def)
  ultimately show ?thesis
    unfolding called using high by (simp add: hash)
qed

lemma catch_up_follows:
  assumes chain: "honest_chain s mom k F" "checkpoint_ok (tip_at mom F)" and sha: "hex_digest sha" and fit: "pages_fit sha s mom F"
    and plans: "inj_on (\<lambda>h. bp_planId (plan_from sha s mom F h)) {ck_height (os_checkpoint s)..<F}"
    and t: "follows sha s mom k F t" and fuel: "rounds_left F t < n" and counter: "os_revision t + int (rounds_left F t) \<le> max_safe"
  shows "\<exists>u. catch_up_loop sha mom F n t = Some u \<and> follows sha s mom k F u \<and> ck_height (os_checkpoint u) = F \<and> \<not> inclusion_pending u"
  using t fuel counter
proof (induction n arbitrary: t)
  case (Suc n)
  note t = Suc.prems(1)
  note v = followsD(1) [OF t] and live = followsD(3) [OF t] and high = followsD(5) [OF t]
  note plan = planned_round [OF t chain(2) sha]
  show ?case
  proof (cases "inclusion_pending t")
    case True
    then have "os_inclusion t = None" by (simp add: inclusion_pending_def)
    then have room: "has_room t" using Suc.prems(3) by (auto simp: has_room_def rounds_left_def split: if_splits)
    obtain r m u where last: "os_lastPage t = Some r" "rc_membership r = Some m" and ok: "observed_ok (Found m (rc_pageDigest r))"
      and result: "apply_inclusion sha t (Found m (rc_pageDigest r)) = Inr (u, Applied)" and u: "follows sha s mom k F u"
      and fields: "ck_height (os_checkpoint u) = ck_height (os_checkpoint t)" "os_inclusion t = None" "os_inclusion u \<noteq> None"
        "os_revision u = os_revision t + 1"
      by (rule inclusion_round [OF t True sha room])
    have "catch_up_loop sha mom F (Suc n) t = catch_up_loop sha mom F n u"
      using plan True last inclusion_called [OF v live ok] result by simp
    moreover have "rounds_left F t = Suc (rounds_left F u)" using fields by (simp add: rounds_left_def)
    ultimately show ?thesis using Suc.IH [OF u] Suc.prems(2,3) fields(4) by simp
  next
    case no: False
    show ?thesis
    proof (cases "ck_height (os_checkpoint t) = F")
      case True
      then show ?thesis using plan no t by simp
    next
      case False
      define p where "p = make_plan sha t (tip_at mom F)"
      have below: "ck_height (os_checkpoint t) < F" using high False by simp
      then have room: "has_room t" using Suc.prems(3) by (auto simp: has_room_def rounds_left_def split: if_splits)
      have page: "page_sound (os_catchUp t) (honest_page mom p)" "within_limits (page_call t p (honest_page mom p))"
        using fit v followsD(2,4) [OF t] below by (auto simp: pages_fit_def Let_def p_def)
      have ok: "plan_ok sha p"
        unfolding p_def using below by (intro own_plan_ok [OF v chain(2) _ sha]) (simp add: tip_at_def)
      obtain u where result: "apply_page sha t p (honest_page mom p) = Inr (u, Applied)" and u: "follows sha s mom k F u"
        and fields: "ck_height (os_checkpoint t) < ck_height (os_checkpoint u)" "os_inclusion u = None \<longleftrightarrow> os_inclusion t = None"
          "os_revision u = os_revision t + 1"
        using page_round [OF t below no sha chain plans page(1) [unfolded p_def] room, folded p_def] by blast
      have "catch_up_loop sha mom F (Suc n) t = catch_up_loop sha mom F n u"
        using plan no False page_called [OF v page(2) live ok page(1)] result by (simp flip: p_def)
      moreover have "rounds_left F u < rounds_left F t"
        using fields followsD(5) [OF u] by (simp add: rounds_left_def)
      ultimately show ?thesis using Suc.IH [OF u] Suc.prems(2,3) fields(3) by simp
    qed
  qed
qed simp


text \<open>Where the loop ends, and what it has established there.\<close>

lemma follows_end:
  assumes u: "follows sha s mom k F u" and at: "ck_height (os_checkpoint u) = F" and settled: "\<not> inclusion_pending u"
  shows "os_checkpoint u = tip_at mom F"
    and "ck_height (os_checkpoint s) < k \<Longrightarrow> k \<le> F \<Longrightarrow> \<exists>i. os_inclusion u = Some i \<and> in_membership i = target_at s mom k
       \<and> in_confirmations i = F - k + 1
       \<and> os_status u = (if os_minimum s \<le> F - k + 1 then ThresholdObserved else IncludedBelowThreshold)"
    and "\<not> (ck_height (os_checkpoint s) < k \<and> k \<le> F) \<Longrightarrow> os_status u = AwaitingInclusion \<and> os_inclusion u = None"
proof -
  note v = followsD(1) [OF u] and live = followsD(3) [OF u]
  show "os_checkpoint u = tip_at mom F" using followsD(6) [OF u] at by simp
  have minimum: "os_minimum u = os_minimum s" using followsD(2) [OF u] by (simp add: same_identity_def)
  show "\<exists>i. os_inclusion u = Some i \<and> in_membership i = target_at s mom k \<and> in_confirmations i = F - k + 1
       \<and> os_status u = (if os_minimum s \<le> F - k + 1 then ThresholdObserved else IncludedBelowThreshold)"
    if between: "ck_height (os_checkpoint s) < k" "k \<le> F"
  proof -
    have "os_inclusion u \<noteq> None" using followsD(10) [OF u between(1)] between(2) at settled by simp
    then obtain i where i: "os_inclusion u = Some i" by blast
    then have tuple: "in_membership i = target_at s mom k" using followsD(7) [OF u] by simp
    then have confirmed: "in_confirmations i = F - k + 1"
      using included_before(3) [OF v i] at by (simp add: target_at_def)
    show ?thesis
    proof (cases "os_firstThreshold u")
      case None
      then show ?thesis using live_state(3) [OF v live i None] i tuple confirmed minimum by simp
    next
      case (Some t)
      then show ?thesis
        using live_state(4) [OF v live Some] threshold_confirmed(1) [OF valid_parts(5,4) [OF v] Some i] i tuple confirmed minimum by simp
    qed
  qed
  show "os_status u = AwaitingInclusion \<and> os_inclusion u = None" if "\<not> (ck_height (os_checkpoint s) < k \<and> k \<le> F)"
  proof (cases "os_inclusion u")
    case None
    then show ?thesis using live_state(2) [OF v live] by simp
  next
    case (Some i)
    then show ?thesis
      using followsD(7) [OF u Some] included_before(1) [OF v Some] at that by (simp add: target_at_def)
  qed
qed

end
