(* ===== verification/Observer_Watch.thy ===== *)
theory Observer_Watch
  imports Observer_Catch_Up
begin

text \<open>
  Runs made of calls: creating an observer from its configuration, the run a catch-up loop performs, and replies
  to replayed pages and to a quarantined observer. The last section is a concrete observer that finds its target
  in the first momentum it is shown.
\<close>

section \<open>Creation\<close>

definition creation_json :: "observer_policy \<Rightarrow> authority_generation \<Rightarrow> chain_profile \<Rightarrow> confirmation_policy \<Rightarrow> funding_target
    \<Rightarrow> checkpoint \<Rightarrow> catch_up \<Rightarrow> json" where
  "creation_json p g c f t k u = JObj [(''observerPolicy'', observer_policy_json p), (''authorityGeneration'', generation_json g),
     (''chainProfile'', chain_profile_json c), (''confirmationPolicy'', confirmation_policy_json f), (''target'', target_json t),
     (''checkpoint'', checkpoint_json k), (''catchUp'', JObj (catch_up_members u))]"

definition configuration_ok :: "observer_policy \<Rightarrow> authority_generation \<Rightarrow> chain_profile \<Rightarrow> confirmation_policy \<Rightarrow> funding_target
    \<Rightarrow> checkpoint \<Rightarrow> catch_up \<Rightarrow> bool" where
  "configuration_ok p g c f t k u \<longleftrightarrow> observer_policy_ok p \<and> generation_ok g \<and> chain_ok c \<and> confirmation_ok f \<and> target_ok t
     \<and> checkpoint_ok k \<and> catch_up_ok u"

lemma initial_valid:
  assumes "configuration_ok p g c f t k u" "hex_digest sha"
  shows "valid_state sha (initial_observer sha p g c f t k u)"
  using assms
  by (simp add: configuration_ok_def valid_state_def parts_ok_def state_checked_def identities_checked_def receipt_checked_def
      inclusion_checked_def first_threshold_checked_def threshold_receipt_checked_def status_checked_def initial_observer_def
      observer_record_id_def target_binding_def version_bounds_ok_def version_conflict_def count_safe_def max_safe_def)

lemma creation_fits:
  assumes "configuration_ok p g c f t k u"
  shows "within_limits (creation_json p g c f t k u)"
proof -
  note given = assms [unfolded configuration_ok_def]
  have counts: "count_safe (cu_pageEntries u)" "count_safe (cu_backfillSpan u)" "count_safe (cu_momentumMembers u)"
    using given by (simp_all add: catch_up_ok_def count_safe_def max_safe_def)
  have "compact 20 (JObj (catch_up_members u)) 4 84 148"
    unfolding catch_up_members_def
    by (rule compact_weakened [where h = 20], (rule compact_rules
        | (simp add: compact_defs counts; fail))+)
  then show ?thesis
    unfolding creation_json_def
    by - (rule object_fits, (rule compact_rules | assumption | (simp add: compact_defs given; fail))+)
qed

lemma create_called:
  assumes ok: "configuration_ok p g c f t k u" and sha: "hex_digest sha"
  shows "create_observer sha (js_of (creation_json p g c f t k u)) = Inr (initial_observer sha p g c f t k u)"
proof -
  have "supplied_fields create_state_fields (js_of (creation_json p g c f t k u)) = Some (js_members
      [(''observerPolicy'', observer_policy_json p), (''authorityGeneration'', generation_json g),
       (''chainProfile'', chain_profile_json c), (''confirmationPolicy'', confirmation_policy_json f), (''target'', target_json t),
       (''checkpoint'', checkpoint_json k), (''catchUp'', JObj (catch_up_members u))])"
    using creation_fits [OF ok] unfolding creation_json_def by (rule supplied_call) (simp_all add: create_state_fields_def)
  moreover have "normalize_catch_up (obj (js_members (catch_up_members u))) = Some u"
    using catch_up_copy ok by (simp add: configuration_ok_def)
  ultimately show ?thesis
    using ok clone_valid [OF initial_valid [OF ok sha]] by (simp add: create_observer_def configuration_ok_def)
qed

text \<open>Every observer is created in this way.\<close>

lemma created_initial:
  assumes "create_observer sha v = Inr s" and sha: "hex_digest sha"
  obtains p g c f t k u where "configuration_ok p g c f t k u" "s = initial_observer sha p g c f t k u"
proof -
  obtain fs p g c f t k u where read: "normalize_observer_policy (field ''observerPolicy'' fs) = Some p"
      "normalize_generation (field ''authorityGeneration'' fs) = Some g" "normalize_chain_profile (field ''chainProfile'' fs) = Some c"
      "normalize_confirmation_policy (field ''confirmationPolicy'' fs) = Some f" "normalize_target (field ''target'' fs) = Some t"
      "normalize_checkpoint (field ''checkpoint'' fs) = Some k" "normalize_catch_up (field ''catchUp'' fs) = Some u"
    and clone: "clone_state sha (initial_observer sha p g c f t k u) = Inr s"
    using assms(1) by (auto simp: create_observer_def also_then_Inr need_Inr bind_eq_Some_conv)
  have "catch_up_ok u" using read(7) by (auto simp: normalize_catch_up_def bind_eq_Some_conv intro: reader_rules)
  then have ok: "configuration_ok p g c f t k u" using read by (auto simp: configuration_ok_def intro: reader_rules)
  show thesis using that [OF ok] clone clone_valid [OF initial_valid [OF ok sha]] by simp
qed

lemma created_fields:
  assumes "create_observer sha v = Inr s" and "hex_digest sha"
  shows "valid_state sha s" "os_inclusion s = None" "os_firstThreshold s = None" "os_lastPage s = None" "os_revision s = 0"
    "os_status s = AwaitingInclusion"
proof -
  obtain p g c f t k u where "configuration_ok p g c f t k u" "s = initial_observer sha p g c f t k u"
    by (rule created_initial [OF assms])
  then show "valid_state sha s" "os_inclusion s = None" "os_firstThreshold s = None" "os_lastPage s = None" "os_revision s = 0"
      "os_status s = AwaitingInclusion"
    using initial_valid assms(2) by (simp_all add: initial_observer_def)
qed

section \<open>Runs of calls\<close>

lemma called_state:
  assumes v: "valid_state sha s" and input: "input_value input = js_of (JObj (call_members s @ kvs))"
    and result: "observer_result_of sha input = Inr (t, d)"
  shows "supplied_state sha input = Some s"
proof -
  have "supplied_state sha input \<noteq> None" using refused_state [of sha input] result by auto
  then have "detached_copy (input_value input) = Some (JObj (call_members s @ kvs))"
    unfolding supplied_state_def input snapshot_js by (auto split: if_splits)
  then show ?thesis
    using state_copy [OF v] by (simp add: supplied_state_def call_members_def)
qed

lemma called_step:
  assumes "observer_run sha s t" "valid_state sha t" "input_value input = js_of (JObj (call_members t @ kvs))"
    "observer_result_of sha input = Inr (u, d)"
  shows "observer_run sha s u"
  by (rule observer_run.observed [OF assms(1) called_state [OF assms(2-4)] assms(4)])

lemma run_calls:
  assumes run: "observer_run sha s t" and v: "valid_state sha t"
  shows "plan_input sha (js_of (plan_call t source)) = Inr (u, d, p) \<Longrightarrow> observer_run sha s u"
    and "page_input sha (js_of (page_call t q pg)) = Inr (u, d) \<Longrightarrow> observer_run sha s u"
    and "inclusion_input sha (js_of (inclusion_call t obs)) = Inr (u, d) \<Longrightarrow> observer_run sha s u"
    and "versions_input sha (js_of (versions_call t a b)) = Inr (u, d) \<Longrightarrow> observer_run sha s u"
proof -
  note step = called_step [OF run v]
  show "plan_input sha (js_of (plan_call t source)) = Inr (u, d, p) \<Longrightarrow> observer_run sha s u"
    by (rule step [of "OnPlan (js_of (plan_call t source))" "context_members (own_context t) @ [(''source'', source_json source)]" u d])
      (simp_all only: input_value.simps plan_call_def observer_result_of.simps also_then.simps prod.case)
  show "page_input sha (js_of (page_call t q pg)) = Inr (u, d) \<Longrightarrow> observer_run sha s u"
    by (rule step [of "OnPage (js_of (page_call t q pg))" "[(''plan'', plan_json q), (''page'', page_json pg)]" u d])
      (simp_all only: input_value.simps page_call_def observer_result_of.simps)
  show "inclusion_input sha (js_of (inclusion_call t obs)) = Inr (u, d) \<Longrightarrow> observer_run sha s u"
    by (rule step [of "OnInclusion (js_of (inclusion_call t obs))" "context_members (own_context t) @ [(''observation'', observed_json obs)]" u d])
      (simp_all only: input_value.simps inclusion_call_def observer_result_of.simps)
  show "versions_input sha (js_of (versions_call t a b)) = Inr (u, d) \<Longrightarrow> observer_run sha s u"
    by (rule step [of "OnVersions (js_of (versions_call t a b))" "[(''maxV1Height'', json_option JNum a), (''minV2Height'', json_option JNum b)]" u d])
      (simp_all only: input_value.simps versions_call_def observer_result_of.simps)
qed

lemma run_valid: "observer_run sha s t \<Longrightarrow> hex_digest sha \<Longrightarrow> valid_state sha s \<Longrightarrow> valid_state sha t"
  by (erule run_invariant) (auto intro: change_valid)

lemma run_keeps: "observer_run sha s t \<Longrightarrow> hex_digest sha \<Longrightarrow> keeps s t"
  by (erule run_invariant) (auto intro: keeps_refl keeps_trans change_keeps)

lemma run_chain:
  assumes "create_observer sha v = Inr s" "observer_run sha s t" "hex_digest sha"
  shows "\<exists>es. chain_behind (os_checkpoint s) es t"
proof (rule run_invariant [OF assms(2,3), where Q = "\<lambda>t. \<exists>es. chain_behind (os_checkpoint s) es t"])
  show "\<exists>es. chain_behind (os_checkpoint s) es s"
    by (rule exI [of _ "[]"]) (simp add: chain_behind_def created_fields [OF assms(1,3)])
qed (auto intro: change_chain)

text \<open>A new observer can follow any honest chain.\<close>

lemma created_follows:
  assumes "create_observer sha v = Inr s" "hex_digest sha" "honest_chain s mom k F"
  shows "follows sha s mom k F s"
  using created_fields [OF assms(1,2)] assms(3)
  unfolding follows_def honest_chain_def by (auto simp: same_identity_def)

lemma catch_up_run:
  assumes "observer_run sha s t" "valid_state sha s" "hex_digest sha" "catch_up_loop sha mom F n t = Some u"
  shows "observer_run sha s u"
  using assms
proof (induction n arbitrary: t)
  case (Suc n)
  note v = run_valid [OF Suc.prems(1,3,2)]
  define source where "source = SourceAt (tip_at mom F) (Some (pe_hash (mom (ck_height (os_checkpoint t)))))"
  obtain t' d p where planned: "plan_input sha (js_of (plan_call t source)) = Inr (t', d, p)"
    using Suc.prems(4) by (cases "plan_input sha (js_of (plan_call t source))") (auto simp: source_def)
  note run = run_calls(1) [OF Suc.prems(1) v planned]
  note v' = run_valid [OF run Suc.prems(3,2)]
  note loop = Suc.prems(4) [unfolded catch_up_loop.simps, folded source_def, unfolded planned]
  consider (page) p' w where "page_input sha (js_of (page_call t' p' (honest_page mom p'))) = Inr (w, Applied)"
        "catch_up_loop sha mom F n w = Some u"
    | (inclusion) obs w where "inclusion_input sha (js_of (inclusion_call t' obs)) = Inr (w, Applied)" "catch_up_loop sha mom F n w = Some u"
    | (finish) "t' = u"
    using loop by (auto split: disposition.splits option.splits sum.splits prod.splits)
  then show ?case
  proof cases
    case page
    then show ?thesis using Suc.IH [OF run_calls(2) [OF run v' page(1)] Suc.prems(2,3)] by simp
  next
    case inclusion
    then show ?thesis using Suc.IH [OF run_calls(3) [OF run v' inclusion(1)] Suc.prems(2,3)] by simp
  qed (use run in simp)
qed simp

section \<open>Replies that change nothing\<close>

lemma page_replayed:
  assumes v: "valid_state sha s" and live: "os_status s \<noteq> Quarantined" and plan: "plan_ok sha p" and page: "page_ok (os_catchUp s) pg"
    and sha: "hex_digest sha" and applied: "apply_page sha s p pg = Inr (t, Applied)"
  shows "apply_page sha t p pg = Inr (t, Replayed)"
proof (cases rule: apply_page_cases [OF v live plan page sha, case_names quarantine replay pending applied])
  case (applied r)
  define t' where "t' = after_page s (with_threshold s r)"
  have t: "t = t'" using applied(4) \<open>apply_page sha s p pg = Inr (t, Applied)\<close> by (simp add: moves_to_def t'_def split: if_splits)
  have same: "same_identity s t" by (simp add: t t'_def)
  note eqs = same [unfolded same_identity_def]
  have own: "own_context t = own_context s" using eqs by (simp add: own_context_def)
  obtain lineage found where scan: "scan_entries (os_transactionId s) (os_binding s) (pg_entries pg) (bp_from p) (ck_hash (pg_start pg)) None
      = Inr (lineage, found)" and r: "r = page_receipt_of sha (own_context s) p pg lineage found"
    using applied(1) by (auto simp: accepted_page_def)
  have "os_lastPage t = Some (with_threshold s r)" by (simp add: t t'_def)
  then have "replayed t r" by (simp add: replayed_def)
  then have "accept_receipt sha t p r = Inr (t, Replayed)" by (simp add: accept_receipt_def)
  moreover have "apply_page sha t p pg = accept_receipt sha t p r"
  proof -
    have "pg_context pg = own_context s" "bp_context p = own_context s" "pg_planId pg = bp_planId p" "pg_start pg = bp_start p"
      "pg_frontier pg = bp_frontier p" "int (length (pg_entries pg)) = bp_count p"
      using \<open>apply_page sha s p pg = Inr (t, Applied)\<close> quarantined_eq [OF v live]
      by (auto simp: apply_page_def moves_to_def split: if_splits)
    moreover have "ck_height (rc_end r) = bp_through p"
      "ck_height (rc_end r) = ck_height (pg_frontier pg) \<longrightarrow> ck_hash (rc_end r) = ck_hash (pg_frontier pg)"
      using applied(1) by (simp_all add: accepted_page_def)
    moreover have "scan_entries (os_transactionId t) (os_binding t) (pg_entries pg) (bp_from p) (ck_hash (pg_start pg)) None
      = Inr (lineage, found)" using scan by (simp add: eqs)
    ultimately show ?thesis
      unfolding apply_page_def own by (auto simp: r [symmetric] Let_def)
  qed
  ultimately show ?thesis by simp
qed (use applied in \<open>simp_all add: moves_to_def split: if_splits\<close>)

lemma page_applied_live:
  assumes "valid_state sha s" "os_status s \<noteq> Quarantined" "plan_ok sha p" "page_ok (os_catchUp s) pg" "hex_digest sha"
    "apply_page sha s p pg = Inr (t, Applied)"
  shows "os_status t \<noteq> Quarantined"
proof (cases rule: apply_page_cases [OF assms(1-5), case_names quarantine replay pending applied])
  case (applied r)
  then have "t = after_page s (with_threshold s r)" using assms(6) by (simp add: moves_to_def split: if_splits)
  then show ?thesis by (simp add: after_page_def)
qed (use assms(6) in \<open>simp_all add: moves_to_def split: if_splits\<close>)

lemma quarantined_reply:
  assumes "valid_state sha s" "version_bounds_ok a b" "os_status s = Quarantined"
  shows "versions_input sha (js_of (versions_call s a b)) = Inr (s, IsQuarantined)"
proof -
  have "supplied_fields [''state'', ''expectedRevision'', ''maxV1Height'', ''minV2Height''] (js_of (versions_call s a b))
      = Some (js_members (call_members s @ [(''maxV1Height'', json_option JNum a), (''minV2Height'', json_option JNum b)]))"
    using calls_fit(3) [OF assms(1,2)] unfolding versions_call_def by (rule supplied_call) (simp_all add: call_members_def)
  then show ?thesis using assms(3) read_call [OF assms(1)] by (simp add: versions_input_def)
qed

end
