(* ===== verification/Observer_Demo.thy ===== *)
theory Observer_Demo
  imports Observer_Watch
begin

text \<open>
  A concrete observer. It starts at height 5, is shown momentum 6, which holds its target, and needs one
  confirmation. The digest of the example is constant.
\<close>

definition watch_sha :: "string \<Rightarrow> string" where
  "watch_sha s = replicate 64 CHR ''a''"

definition watch_commitment :: string where
  "watch_commitment = ''sha256:'' @ replicate 64 CHR ''a''"

definition watch_transaction :: string where
  "watch_transaction = ''zenontx:'' @ replicate 64 CHR ''c''"

definition watch_policy :: observer_policy where
  "watch_policy = \<lparr>obp_policyId = ''observer'', obp_policyVersion = 1, obp_verifierVersion = 1\<rparr>"

definition watch_generation :: authority_generation where
  "watch_generation = \<lparr>ag_generationId = ''first'', ag_generationVersion = 1, ag_commitment = watch_commitment\<rparr>"

definition watch_chain :: chain_profile where
  "watch_chain = \<lparr>cp_chainIdentifier = ''3'', cp_genesisMomentumHash = replicate 64 CHR ''b''\<rparr>"

definition watch_confirmation :: confirmation_policy where
  "watch_confirmation = \<lparr>cf_policyId = ''shallow'', cf_policyVersion = 1, cf_minimumConfirmations = 1\<rparr>"

definition watch_target :: funding_target where
  "watch_target = \<lparr>tg_transactionId = watch_transaction, tg_payer = ''payer'', tg_payee = ''payee'', tg_asset = ''znn'', tg_amount = ''7'',
     tg_providerId = ''provider'', tg_serviceId = ''service'', tg_resourceId = ''resource'', tg_resourceBinding = watch_commitment,
     tg_paymentResourceDigest = watch_commitment, tg_paymentRequirementDigest = watch_commitment,
     tg_paymentIntentDigest = watch_commitment, tg_offerId = ''offer'', tg_offerVersion = 1, tg_fundingPolicyId = ''funding'',
     tg_fundingPolicyVersion = 1, tg_capabilityCommitment = watch_commitment, tg_totalUnits = 3, tg_expiresAt = 9,
     tg_grantFundingCommitment = watch_commitment\<rparr>"

text \<open>Momentum 5 is the checkpoint the observer is created at.\<close>

definition watch_momentum :: "int \<Rightarrow> page_entry" where
  "watch_momentum h = \<lparr>pe_height = h, pe_hash = replicate 64 (if h = 5 then CHR ''d'' else CHR ''e''),
     pe_previousHash = replicate 64 CHR ''d'',
     pe_members = (if h = 6 then [(watch_transaction, watch_commitment)] else [])\<rparr>"

definition watch_catch_up :: catch_up where
  "watch_catch_up = \<lparr>cu_pageEntries = 8, cu_backfillSpan = 100, cu_momentumMembers = 4\<rparr>"

definition watch_creation :: jsval where
  "watch_creation = js_of (creation_json watch_policy watch_generation watch_chain watch_confirmation watch_target
     (tip_at watch_momentum 5) watch_catch_up)"

definition watch_start :: observer_state where
  "watch_start = initial_observer watch_sha watch_policy watch_generation watch_chain watch_confirmation watch_target
     (tip_at watch_momentum 5) watch_catch_up"

section \<open>It is well-formed\<close>

lemma watch_sha_ok: "hex_digest watch_sha"
  unfolding hex_digest_def watch_sha_def by (intro allI is_hex64_replicate) (simp add: is_hex_def is_digit_def code_def)

lemma watch_texts:
  "commitment_text watch_commitment" "zenon_transaction watch_transaction" "hash_text (replicate 64 CHR ''b'')"
  "hash_text (replicate 64 CHR ''d'')" "hash_text (replicate 64 CHR ''e'')"
proof -
  have hex: "is_hex64 (replicate 64 c)" if "is_hex c" for c using that by (rule is_hex64_replicate)
  have digits: "is_hex CHR ''a''" "is_hex CHR ''b''" "is_hex CHR ''c''" "is_hex CHR ''d''" "is_hex CHR ''e''"
    by (simp_all add: is_hex_def is_digit_def code_def)
  show "commitment_text watch_commitment"
    unfolding watch_commitment_def commitment_text_def prefixed_hex64_append by (rule hex [OF digits(1)])
  show "zenon_transaction watch_transaction"
    unfolding watch_transaction_def zenon_transaction_def prefixed_hex64_append by (rule hex [OF digits(3)])
  show "hash_text (replicate 64 CHR ''b'')" "hash_text (replicate 64 CHR ''d'')" "hash_text (replicate 64 CHR ''e'')"
    using hex digits by (simp_all add: hash_text_def zero_hash_def)
qed

lemma watch_identifiers:
  "\<forall>s \<in> {''observer'', ''first'', ''shallow'', ''payer'', ''payee'', ''znn'', ''provider'', ''service'', ''resource'', ''offer'', ''funding''}.
     identifier_text s"
  by (simp add: identifier_text_def is_alnum_def is_lower_def is_digit_def is_upper_def code_def identifier_char_def)

lemma watch_configuration:
  "configuration_ok watch_policy watch_generation watch_chain watch_confirmation watch_target (tip_at watch_momentum 5) watch_catch_up"
proof -
  have "sdk_safe_chain_identifier ''3''" "zenon_amount ''7''"
    by (simp_all add: sdk_safe_chain_identifier_def zenon_amount_def positive_decimal_def is_digit_def code_def max_safe_text_def)
  then show ?thesis
    using watch_texts watch_identifiers
    by (simp add: configuration_ok_def watch_policy_def observer_policy_ok_def watch_generation_def generation_ok_def watch_chain_def
        chain_ok_def watch_confirmation_def confirmation_ok_def watch_target_def target_ok_def checkpoint_ok_def tip_at_def
        watch_momentum_def watch_catch_up_def catch_up_ok_def positive_safe_def count_safe_def max_safe_def)
qed

lemma watch_created: "create_observer watch_sha watch_creation = Inr watch_start"
  unfolding watch_creation_def watch_start_def by (rule create_called [OF watch_configuration watch_sha_ok])

lemma watch_valid: "valid_state watch_sha watch_start"
  unfolding watch_start_def by (rule initial_valid [OF watch_configuration watch_sha_ok])

lemma watch_fields:
  "os_checkpoint watch_start = tip_at watch_momentum 5" "os_catchUp watch_start = watch_catch_up" "os_status watch_start = AwaitingInclusion"
  "os_transactionId watch_start = watch_transaction" "os_binding watch_start = watch_commitment" "os_revision watch_start = 0"
  "os_minimum watch_start = 1" "os_inclusion watch_start = None" "os_lastPage watch_start = None"
  by (simp_all add: watch_start_def initial_observer_def watch_target_def watch_confirmation_def target_binding_def domain_commitment_def
      watch_sha_def watch_commitment_def)

lemma tip_at_fields [simp]: "ck_height (tip_at mom h) = h" "ck_hash (tip_at mom h) = pe_hash (mom h)"
  by (simp_all add: tip_at_def)

lemma watch_honest: "honest_chain watch_start watch_momentum 6 6"
proof -
  have "honest_momentum watch_start watch_momentum 6 6"
    using watch_texts by (simp add: honest_momentum_def watch_momentum_def watch_fields page_entry_ok_def positive_safe_def max_safe_def)
  moreover have "h = 6" if "5 < h \<and> h \<le> 6" for h :: int using that by simp
  ultimately have "honest_momentum watch_start watch_momentum 6 h" if "5 < h \<and> h \<le> 6" for h using that by blast
  then show ?thesis by (simp add: honest_chain_def watch_fields max_safe_def)
qed

lemma watch_frontier: "checkpoint_ok (tip_at watch_momentum 6)"
  using watch_texts by (simp add: checkpoint_ok_def watch_momentum_def count_safe_def max_safe_def)

lemma watch_plans: "inj_on (\<lambda>h. bp_planId (plan_from watch_sha watch_start watch_momentum 6 h)) {ck_height (os_checkpoint watch_start)..<6}"
proof -
  have "{5..<6} = {5 :: int}" by auto
  then show ?thesis by (simp add: watch_fields)
qed


section \<open>It catches up\<close>

lemma compact_watch_entry: "compact 18 (page_entry_json (watch_momentum 6)) 10 500 2000"
proof -
  have member: "compact 20 (member_json (watch_transaction, watch_commitment)) 3 56 326"
    unfolding member_json_def fst_conv snd_conv
    by (rule compact_weakened [where h = 20], (rule compact_rules | (simp add: compact_defs watch_texts; fail))+)
  have "compact 19 (JArr (map member_json [(watch_transaction, watch_commitment)])) (Suc (1 * 3)) (1 * (2 + 56)) (2 + 1 * (1 + 326))"
    by (rule compact_array) (use member in \<open>simp_all add: max_depth_def\<close>)
  then have members: "compact 19 (JArr (map member_json (pe_members (watch_momentum 6)))) 4 58 329"
    by (simp add: watch_momentum_def)
  have parts: "count_safe (pe_height (watch_momentum 6))" "hash_text (pe_hash (watch_momentum 6))" "hash_text (pe_previousHash (watch_momentum 6))"
    using watch_texts by (simp_all add: watch_momentum_def count_safe_def max_safe_def)
  show ?thesis
    unfolding page_entry_json_def
    by (rule compact_weakened [where h = 18], (rule compact_rules members | (simp add: compact_defs parts; fail))+)
qed

lemma watch_page:
  assumes v: "valid_state watch_sha t" and same: "same_identity watch_start t" and height: "ck_height (os_checkpoint t) = 5"
    and p: "p = make_plan watch_sha t (tip_at watch_momentum 6)" and pg: "pg = honest_page watch_momentum p"
  shows "plan_ok watch_sha p" "page_sound (os_catchUp t) pg" "valid_state watch_sha t' \<Longrightarrow> within_limits (page_call t' p pg)"
proof -
  have limits: "os_catchUp t = watch_catch_up" using same by (simp add: same_identity_def watch_fields)
  show plan: "plan_ok watch_sha p"
    unfolding p using height by (intro own_plan_ok [OF v watch_frontier _ watch_sha_ok]) simp
  have range: "bp_from p = 6" "bp_through p = 6" "bp_context p = own_context t" "bp_start p = os_checkpoint t" "bp_frontier p = tip_at watch_momentum 6"
    by (simp_all add: p make_plan_def Let_def height bounded_through_def limits watch_catch_up_def)
  have page: "pg_context pg = own_context t" "pg_planId pg = bp_planId p" "pg_start pg = os_checkpoint t"
    "pg_frontier pg = tip_at watch_momentum 6" "pg_entries pg = [watch_momentum 6]"
    by (simp_all add: pg honest_page_def range)
  have parts: "context_ok (own_context t)" "commitment_text (bp_planId p)" "checkpoint_ok (os_checkpoint t)"
    using own_context_ok [OF v] plan valid_parts(1) [OF v] unfolding plan_ok_def parts_ok_def by blast+
  have entry: "page_entry_ok (watch_momentum 6)" "pe_members (watch_momentum 6) = [(watch_transaction, watch_commitment)]"
    using watch_texts by (simp_all add: page_entry_ok_def watch_momentum_def positive_safe_def max_safe_def)
  show "page_sound (os_catchUp t) pg"
    unfolding page_sound_def page_ok_def page using parts watch_frontier entry watch_texts
    by (simp add: limits watch_catch_up_def max_members_def)
  have "compact 17 (JArr (map page_entry_json [watch_momentum 6])) (Suc (1 * 10)) (1 * (2 + 500)) (2 + 1 * (1 + 2000))"
    by (rule compact_array) (use compact_watch_entry in \<open>simp_all add: max_depth_def\<close>)
  then have entries: "compact 17 (JArr (map page_entry_json (pg_entries pg))) 11 502 2003" by (simp add: page)
  note compact_plan [OF plan]
  moreover have "compact 16 (page_json pg) 60 2000 6000"
    unfolding page_json_def page
    by (rule compact_weakened [where h = 16], (rule compact_rules entries [unfolded page] | (simp add: compact_defs context_members_def parts watch_frontier; fail))+)
  ultimately show "within_limits (page_call t' p pg)" if "valid_state watch_sha t'"
    unfolding page_call_def
    by - (rule object_fits, (rule compact_rules that | assumption | (simp add: compact_defs call_members_def; fail))+)
qed

lemma watch_fit: "pages_fit watch_sha watch_start watch_momentum 6"
  unfolding pages_fit_def Let_def
proof (intro allI impI, elim conjE)
  fix t
  assume "valid_state watch_sha t" "same_identity watch_start t"
    and "ck_height (os_checkpoint watch_start) \<le> ck_height (os_checkpoint t)" "ck_height (os_checkpoint t) < 6"
  then show "page_sound (os_catchUp t) (honest_page watch_momentum (make_plan watch_sha t (tip_at watch_momentum 6)))
      \<and> within_limits (page_call t (make_plan watch_sha t (tip_at watch_momentum 6))
          (honest_page watch_momentum (make_plan watch_sha t (tip_at watch_momentum 6))))"
    using watch_page [of t, OF _ _ _ refl refl] by (simp add: watch_fields)
qed

definition watch_plan :: backfill_plan where
  "watch_plan = make_plan watch_sha watch_start (tip_at watch_momentum 6)"

text \<open>The first page is applied.\<close>

lemma watch_applied:
  obtains t where "page_input watch_sha (js_of (page_call watch_start watch_plan (honest_page watch_momentum watch_plan))) = Inr (t, Applied)"
    "valid_state watch_sha t"
proof -
  note page = watch_page [OF watch_valid same_identity_refl _ watch_plan_def refl]
  have "follows watch_sha watch_start watch_momentum 6 6 watch_start"
    by (rule created_follows [OF watch_created watch_sha_ok watch_honest])
  moreover have "\<not> inclusion_pending watch_start" "has_room watch_start"
    by (simp_all add: inclusion_pending_def has_room_def watch_fields max_safe_def)
  ultimately obtain t where "apply_page watch_sha watch_start watch_plan (honest_page watch_momentum watch_plan) = Inr (t, Applied)"
      "follows watch_sha watch_start watch_momentum 6 6 t"
    using page_round [of watch_sha watch_start watch_momentum 6 6 watch_start, folded watch_plan_def]
      watch_sha_ok watch_honest watch_frontier watch_plans page(2) by (auto simp: watch_fields)
  then show thesis
    using that page_called [OF watch_valid page(3) [OF _ watch_valid] _ page(1,2)] followsD(1) by (simp add: watch_fields)
qed

lemma watch_caught_up:
  "\<exists>t. catch_up_loop watch_sha watch_momentum 6 3 watch_start = Some t \<and> os_status t = ThresholdObserved"
proof -
  have "follows watch_sha watch_start watch_momentum 6 6 watch_start"
    by (rule created_follows [OF watch_created watch_sha_ok watch_honest])
  then obtain u where "catch_up_loop watch_sha watch_momentum 6 3 watch_start = Some u" "follows watch_sha watch_start watch_momentum 6 6 u"
      "ck_height (os_checkpoint u) = 6" "\<not> inclusion_pending u"
    using catch_up_follows [OF watch_honest watch_frontier watch_sha_ok watch_fit watch_plans, of watch_start 3]
    by (auto simp: rounds_left_def watch_fields max_safe_def)
  then show ?thesis using follows_end(2) [of watch_sha watch_start watch_momentum 6 6 u] by (auto simp: watch_fields)
qed

end
