(* ===== verification/Observer_Stored.thy ===== *)
theory Observer_Stored
  imports Observer_Limits
begin

text \<open>
  The stored text of the funding observer. \<open>serializeZenonFundingObserverState\<close> writes a state with
  sorted keys, so what is parsed again has its members in another order than the state the program
  holds. The readers take members by name and the budgets of a copy are sums over members, so the
  order makes no difference: a valid state is read back from its own text.
\<close>

section \<open>Sorting keys twice, and what a copy costs\<close>

lemma sort_keys_twice [simp]: "sort_keys (sort_keys v) = sort_keys v"
proof (induction v)
  case (JObj kvs)
  have again: "map (\<lambda>(k, v). (k, sort_keys v)) (sort_key fst (map (\<lambda>(k, v). (k, sort_keys v)) kvs))
      = sort_key fst (map (\<lambda>(k, v). (k, sort_keys v)) kvs)"
    using JObj by (intro map_idI) (force simp: snds.simps)
  have "sort_key fst (sort_key fst xs) = sort_key fst xs" for xs :: "(string \<times> json) list"
    by (simp add: sort_key_id_if_sorted)
  then show ?case unfolding sort_keys.simps again by simp
qed simp_all

lemma spend_commute: "spend a b = spend b a" "spend a (spend b c) = spend b (spend a c)"
  by (simp_all add: spend_def)

lemma members_cost_insort: "members_cost (insort_key fst kv kvs) = members_cost (kv # kvs)"
  by (induction kvs) (cases kv; auto simp: spend_assoc spend_commute)+

lemma members_cost_sorted: "members_cost (sort_key fst kvs) = members_cost kvs"
proof (induction kvs)
  case (Cons kv kvs)
  then show ?case by (cases kv) (simp add: members_cost_insort)
qed simp

lemma copy_cost_sorted: "copy_cost (sort_keys v) = copy_cost v"
proof (induction v)
  case (JArr vs)
  have "elements_cost i (map sort_keys ws) = elements_cost i ws" if "set ws \<subseteq> set vs" for i ws
    using that JArr by (induction ws arbitrary: i) auto
  then show ?case by simp
next
  case (JObj kvs)
  have "members_cost (map (\<lambda>(k, v). (k, sort_keys v)) xs) = members_cost xs" if "set xs \<subseteq> set kvs" for xs
    using that JObj by (induction xs) (auto simp: snds.simps)
  then show ?case by (simp add: members_cost_sorted)
qed simp_all

lemma copyable_sorted: "copyable d (sort_keys v) = copyable d v"
proof (induction v arbitrary: d)
  case (JObj kvs)
  then show ?case by (auto simp: snds.simps split_beta)
qed simp_all

lemma within_limits_sorted: "within_limits (sort_keys v) = within_limits v"
  by (simp add: within_limits_def copyable_sorted copy_cost_sorted canonical_json_def)

section \<open>Reading members in any order\<close>

lemma exact_fields_sorted:
  assumes "distinct names" and "map fst kvs = names"
  shows "exact_fields names (js_of (sort_keys (JObj kvs))) = Some (js_members (map (\<lambda>(k, v). (k, sort_keys v)) kvs))"
proof -
  define fs where "fs = map (\<lambda>(k, v). (k, sort_keys v)) kvs"
  have keys: "map fst fs = names" using assms(2) by (simp add: fs_def split_beta comp_def)
  have lookup: "map_of (sort_key fst fs) = map_of fs"
    using assms(1) keys by (intro map_of_sorted) simp
  have sorted: "distinct (map fst (sort_key fst fs))" "set (map fst (sort_key fst fs)) = set names"
  proof -
    have "mset (map fst (sort_key fst fs)) = mset (map fst fs)" by simp
    then have "distinct (map fst (sort_key fst fs)) \<longleftrightarrow> distinct (map fst fs)"
      by (rule mset_eq_imp_distinct_iff)
    then show "distinct (map fst (sort_key fst fs))" using assms(1) keys by simp
    show "set (map fst (sort_key fst fs)) = set names" unfolding keys [symmetric] by simp
  qed
  have "sort_keys (JObj kvs) = JObj (sort_key fst fs)" by (simp add: fs_def)
  also have "\<dots> = in_order (map fst (sort_key fst fs)) fs"
    by (rule in_order_ident [OF sorted(1)]) (simp add: lookup)
  finally have "exact_fields names (js_of (sort_keys (JObj kvs))) = Some (map (\<lambda>k. (k, js_of (the (map_of fs k)))) names)"
    using exact_fields_in_order [OF sorted] by (metis assms(1) distinct_card sorted)
  also have "map (\<lambda>k. (k, js_of (the (map_of fs k)))) names = js_members fs"
    unfolding keys [symmetric] js_members_def map_map using assms(1) keys by (intro map_cong) auto
  finally show ?thesis by (simp add: fs_def)
qed

lemma sorted_option [simp]: "sort_keys (json_option f x) = json_option (\<lambda>y. sort_keys (f y)) x"
  by (cases x) simp_all

lemma sorted_policies [simp]:
  "observer_policy_ok p \<Longrightarrow> normalize_observer_policy (js_of (sort_keys (observer_policy_json p))) = Some p"
  "generation_ok g \<Longrightarrow> normalize_generation (js_of (sort_keys (generation_json g))) = Some g"
  "chain_ok c \<Longrightarrow> normalize_chain_profile (js_of (sort_keys (chain_profile_json c))) = Some c"
  "confirmation_ok f \<Longrightarrow> normalize_confirmation_policy (js_of (sort_keys (confirmation_policy_json f))) = Some f"
  "checkpoint_ok k \<Longrightarrow> normalize_checkpoint (js_of (sort_keys (checkpoint_json k))) = Some k"
  by (simp_all add: reader_defs image_defs chain_profile_json_def confirmation_policy_json_def exact_fields_sorted del: sort_keys.simps(2))

lemma sorted_target [simp]: "target_ok t \<Longrightarrow> normalize_target (js_of (sort_keys (target_json t))) = Some t"
  by (simp add: reader_defs image_defs exact_fields_sorted del: sort_keys.simps(2))

lemma sorted_records [simp]:
  "membership_ok m \<Longrightarrow> normalize_membership (js_of (sort_keys (membership_json m))) = Some m"
  "entry_ok e \<Longrightarrow> normalize_entry (js_of (sort_keys (entry_json e))) = Some e"
  by (simp_all add: reader_defs image_defs exact_fields_sorted del: sort_keys.simps(2))

lemma sorted_not_null [simp]:
  "sort_keys (membership_json m) \<noteq> JNull" "sort_keys (checkpoint_json c) \<noteq> JNull" "sort_keys (receipt_json r) \<noteq> JNull"
  "sort_keys (inclusion_json i) \<noteq> JNull" "sort_keys (first_threshold_json t) \<noteq> JNull" "sort_keys (quarantine_json q) \<noteq> JNull"
  by (simp_all add: image_defs inclusion_json_def first_threshold_json_def quarantine_json_def)

lemma sorted_receipt [simp]: "receipt_ok r \<Longrightarrow> normalize_receipt (js_of (sort_keys (receipt_json r))) = Some r"
proof -
  assume r: "receipt_ok r"
  have "all_some (map normalize_entry (map js_of (map (\<lambda>e. sort_keys (entry_json e)) (rc_lineage r)))) = Some (rc_lineage r)"
    using r by (intro all_copied) (simp add: receipt_ok_def)
  moreover have "nullable normalize_membership (js_of (json_option (\<lambda>m. sort_keys (membership_json m)) (rc_membership r))) = Some (rc_membership r)"
    "nullable normalize_checkpoint (js_of (json_option (\<lambda>c. sort_keys (checkpoint_json c)) (rc_threshold r))) = Some (rc_threshold r)"
    using r by (intro nullable_copy; simp add: receipt_ok_def)+
  ultimately show ?thesis
    using r by (simp add: normalize_receipt_def receipt_json_def page_receipt_fields_def exact_fields_sorted receipt_ok_def
        comp_def del: sort_keys.simps(2))
qed

lemma sorted_first_threshold: "first_threshold_ok t \<Longrightarrow> normalize_first_threshold (js_of (sort_keys (first_threshold_json t))) = Some t"
  by (simp add: normalize_first_threshold_def first_threshold_ok_def first_threshold_json_def exact_fields_sorted del: sort_keys.simps(2))

lemma sorted_quarantine: "normalize_quarantine (js_of (sort_keys (quarantine_json r))) = Some r"
  by (cases r) (simp_all add: normalize_quarantine_def quarantine_json_def exact_fields_sorted quarantine_reasons_def del: sort_keys.simps(2))

lemma sorted_inclusion: "inclusion_ok sha r t i \<Longrightarrow> normalize_inclusion sha r t (js_of (sort_keys (inclusion_json i))) = Some i"
proof -
  have eta: "\<lparr>mb_transactionId = mb_transactionId m, mb_binding = mb_binding m, mb_height = mb_height m, mb_hash = mb_hash m\<rparr> = m" for m
    by simp
  show "inclusion_ok sha r t i \<Longrightarrow> normalize_inclusion sha r t (js_of (sort_keys (inclusion_json i))) = Some i"
    by (simp add: normalize_inclusion_def inclusion_ok_def inclusion_json_def inclusion_fields_def exact_fields_sorted
        membership_members_def read_membership_def membership_ok_def eta del: sort_keys.simps(2)) (elim conjE, simp)
qed

lemma sorted_catch_up:
  assumes "catch_up_ok c" and "\<And>r. x = Some r \<Longrightarrow> receipt_ok r"
  shows "normalize_catch_up_state (js_of (sort_keys (catch_up_state_json c x))) = Some (c, x)"
proof -
  have "nullable normalize_receipt (js_of (json_option (\<lambda>r. sort_keys (receipt_json r)) x)) = Some x"
    using assms(2) by (intro nullable_copy) simp_all
  then show ?thesis
    using assms(1)
    by (simp add: normalize_catch_up_state_def catch_up_state_json_def catch_up_members_def catch_up_fields_def
        read_catch_up_def catch_up_ok_def exact_fields_sorted positive_safe_def max_safe_def del: sort_keys.simps(2))
qed

lemma sorted_state:
  assumes "valid_state sha s"
  shows "normalize_state_snapshot sha (js_of (sort_keys (observer_json s))) = Some s"
proof -
  note parts = assms [unfolded valid_state_def parts_ok_def]
  have optional: "nullable (normalize_inclusion sha (os_recordId s) (os_minimum s)) (js_of (json_option (\<lambda>i. sort_keys (inclusion_json i)) (os_inclusion s))) = Some (os_inclusion s)"
    "nullable normalize_first_threshold (js_of (json_option (\<lambda>t. sort_keys (first_threshold_json t)) (os_firstThreshold s))) = Some (os_firstThreshold s)"
    "nullable normalize_quarantine (js_of (json_option (\<lambda>q. sort_keys (quarantine_json q)) (os_quarantine s))) = Some (os_quarantine s)"
    using parts by (intro nullable_copy; auto simp: sorted_inclusion sorted_first_threshold sorted_quarantine)+
  have "normalize_catch_up_state (js_of (sort_keys (catch_up_state_json (os_catchUp s) (os_lastPage s)))) = Some (os_catchUp s, os_lastPage s)"
    using parts by (intro sorted_catch_up) auto
  then show ?thesis
    using parts optional version_bounds_copy [of "os_maxV1 s" "os_minV2 s"]
    by (simp add: normalize_state_snapshot_def observer_json_def observer_state_fields_def exact_fields_sorted Let_def
        observer_state_eta del: sort_keys.simps(2))
qed

end
