(* ===== verification/Observer_Properties.thy ===== *)
theory Observer_Properties
  imports Observer_Demo Observer_Stored
begin

text \<open>
  The properties of the funding observer
  (\<open>src/src/service-credit-zenon-funding-observer-state.js\<close>), each followed by an application to the example of
  \<open>Observer_Demo\<close>.
\<close>

section \<open>Every input\<close>

text \<open>C22: An input that carries a readable state is answered with a state that is itself readable, from its
  own JSON image and within the size limits of inputs: the state the input carried, or one with the next revision.
  The error \<open>INVALID_STATE\<close> is only given when the revision counter is full.\<close>

theorem observer_replies_are_states:
  assumes "hex_digest sha" and "supplied_state sha input = Some s"
  shows "case observer_result_of sha input of
     Inl e \<Rightarrow> e = InvalidState \<longrightarrow> os_revision s = max_safe
   | Inr (t, d) \<Rightarrow> read_stored sha (js_of (observer_json t)) = Inr t \<and> (t = s \<or> os_revision t = os_revision s + 1)"
proof -
  have v: "valid_state sha s"
    using assms(2) by (auto simp: supplied_state_def bind_eq_Some_conv intro: state_read)
  then have full: "\<not> has_room s \<Longrightarrow> os_revision s = max_safe"
    using valid_parts(1) [OF v] by (simp add: has_room_def parts_ok_def count_safe_def)
  have stored: "read_stored sha (js_of (observer_json t)) = Inr t" if "valid_state sha t" for t
    using that valid_state_fits [OF that] by (simp add: read_stored_def snapshot_js state_copy)
  show ?thesis
    using lawful_observer_result [OF assms] v full change_valid [OF _ v _ assms(1)]
    by (auto simp: lawful_def stored split: sum.splits prod.splits)
qed

theorem observer_replies_are_states_witness:
  "case observer_result_of watch_sha (OnPlan (js_of (plan_call watch_start SourceDown))) of
     Inl e \<Rightarrow> e = InvalidState \<longrightarrow> os_revision watch_start = max_safe
   | Inr (t, d) \<Rightarrow> read_stored watch_sha (js_of (observer_json t)) = Inr t
       \<and> (t = watch_start \<or> os_revision t = os_revision watch_start + 1)"
proof (rule observer_replies_are_states [OF watch_sha_ok])
  have "plan_input watch_sha (js_of (plan_call watch_start SourceDown)) = Inr (watch_start, SourceUnavailable, None)"
    using plan_called [OF watch_valid, of SourceDown] by (simp add: watch_fields)
  then show "supplied_state watch_sha (OnPlan (js_of (plan_call watch_start SourceDown))) = Some watch_start"
    by (intro called_state [OF watch_valid, of _ "context_members (own_context watch_start) @ [(''source'', source_json SourceDown)]" watch_start SourceUnavailable])
      (simp_all only: input_value.simps plan_call_def observer_result_of.simps also_then.simps prod.case)
qed

text \<open>A quarantined observer stays exactly as it is, whatever it is given.\<close>

theorem quarantine_is_final:
  assumes "hex_digest sha" and "observer_run sha s t" and "os_status s = Quarantined"
  shows "t = s"
proof (rule run_invariant [OF assms(2,1), where Q = "\<lambda>t. t = s"])
  fix u v assume "observer_change sha u v" "u = s"
  then show "v = s"
    using assms(3) by cases (auto simp: accepted_page_def shown_on_def)
qed simp

theorem quarantine_is_final_witness:
  "\<exists>t. versions_input watch_sha (js_of (versions_call (into_quarantine watch_start ContextDrift) (Some 4) None)) = Inr (t, IsQuarantined)
     \<and> t = into_quarantine watch_start ContextDrift"
proof -
  let ?q = "into_quarantine watch_start ContextDrift"
  have valid: "valid_state watch_sha ?q"
    by (rule into_quarantine_valid [OF watch_valid]) (simp add: watch_fields count_safe_def max_safe_def)
  obtain t where reply: "versions_input watch_sha (js_of (versions_call ?q (Some 4) None)) = Inr (t, IsQuarantined)"
    using quarantined_reply [OF valid, of "Some 4" None]
    by (simp add: into_quarantine_def version_bounds_ok_def positive_safe_def max_safe_def version_conflict_def)
  then have "observer_run watch_sha ?q t" using run_calls(4) [OF observer_run.start _ reply] valid by blast
  then have "t = ?q"
    by (rule quarantine_is_final [OF watch_sha_ok]) (simp add: into_quarantine_def)
  then show ?thesis using reply by blast
qed

text \<open>C23: Along every run the observer keeps what it watches (policies, generation, chain, target and limits), never
  lowers its revision or the height of its checkpoint, and never withdraws what it has established: the momentum that includes
  the target, its authorization, and the first time the confirmation threshold was reached.\<close>

theorem observations_are_kept:
  assumes "hex_digest sha" and "observer_run sha s t"
  shows "keeps s t"
  by (rule run_keeps [OF assms(2,1)])

theorem observations_are_kept_witness:
  "\<exists>t. page_input watch_sha (js_of (page_call watch_start watch_plan (honest_page watch_momentum watch_plan))) = Inr (t, Applied)
     \<and> keeps watch_start t"
proof -
  obtain t where page: "page_input watch_sha (js_of (page_call watch_start watch_plan (honest_page watch_momentum watch_plan)))
      = Inr (t, Applied)"
    using watch_applied by blast
  have "observer_run watch_sha watch_start t"
    using run_calls(2) [OF observer_run.start _ page] watch_valid by blast
  then have "keeps watch_start t" by (rule observations_are_kept [OF watch_sha_ok])
  then show ?thesis using page by blast
qed

section \<open>What an observation rests on\<close>

text \<open>C24: When a run that started with a new observer projects a candidate, there is a chain of momentums, each naming the hash of the one before,
  from the checkpoint the observer was created at to its current one, which contains the momentum that includes
  the target and the momentum where the threshold was first observed, and the confirmations counted there are at least the required ones.\<close>

theorem candidate_rests_on_chain:
  assumes "hex_digest sha" and "create_observer sha v = Inr s" and "observer_run sha s t" and "candidate_of t = Some c"
  shows "\<exists>es. linked (ck_height (os_checkpoint s)) (ck_hash (os_checkpoint s)) es \<and> chain_tip (os_checkpoint s) es = os_checkpoint t
     \<and> on_chain es (mb_height (oc_inclusion c)) (mb_hash (oc_inclusion c))
     \<and> on_chain es (ck_height (ft_checkpoint (oc_firstThreshold c))) (ck_hash (ft_checkpoint (oc_firstThreshold c)))
     \<and> mb_transactionId (oc_inclusion c) = os_transactionId s \<and> mb_binding (oc_inclusion c) = target_binding sha (os_target s)
     \<and> cf_minimumConfirmations (oc_confirmation c) \<le> ck_height (ft_checkpoint (oc_firstThreshold c)) - mb_height (oc_inclusion c) + 1"
proof -
  obtain i f where parts: "os_inclusion t = Some i" "os_firstThreshold t = Some f" "oc_inclusion c = in_membership i"
    "oc_firstThreshold c = f" "oc_confirmation c = os_confirmation t"
    using assms(4) by (auto simp: candidate_of_def split: option.splits observer_status.splits)
  obtain es where chain: "chain_behind (os_checkpoint s) es t" using run_chain [OF assms(2,3,1)] by blast
  have v: "valid_state sha t" by (rule run_valid [OF assms(3,1) created_fields(1) [OF assms(2,1)]])
  have kept: "same_identity s t" using run_keeps [OF assms(3,1)] by (simp add: keeps_def)
  show ?thesis
    using chain valid_parts(2,4,5) [OF v] kept parts
    by (intro exI [of _ es]) (auto simp: chain_behind_def inclusion_checked_def first_threshold_checked_def same_identity_def identities_checked_def)
qed

text \<open>C25: Given an honest chain that holds the target in momentum \<open>k\<close>, a new observer catches up with any frontier: asked for a plan, handed the page of
  the plan and shown the inclusion it asks for, round after round, it reaches the frontier after at most one round for each momentum and
  two more, and there it has the target included with its confirmations counted, past the threshold exactly if there are enough of them.\<close>

theorem observer_catches_up:
  assumes "create_observer sha v = Inr s" and "hex_digest sha" and "honest_chain s mom k F" and "checkpoint_ok (tip_at mom F)"
    and "pages_fit sha s mom F" and "inj_on (\<lambda>h. bp_planId (plan_from sha s mom F h)) {ck_height (os_checkpoint s)..<F}"
    and "F - ck_height (os_checkpoint s) < max_safe"
  shows "\<exists>t. catch_up_loop sha mom F (nat (F - ck_height (os_checkpoint s)) + 2) s = Some t \<and> os_checkpoint t = tip_at mom F
     \<and> (if ck_height (os_checkpoint s) < k \<and> k \<le> F
        then (\<exists>i. os_inclusion t = Some i \<and> in_membership i = target_at s mom k \<and> in_confirmations i = F - k + 1)
          \<and> os_status t = (if os_minimum s \<le> F - k + 1 then ThresholdObserved else IncludedBelowThreshold)
        else os_status t = AwaitingInclusion)"
proof -
  note new = created_fields [OF assms(1,2)]
  have "ck_height (os_checkpoint s) \<le> F" using assms(3) by (simp add: honest_chain_def)
  then have "rounds_left F s < nat (F - ck_height (os_checkpoint s)) + 2" "os_revision s + int (rounds_left F s) \<le> max_safe"
    using assms(7) by (simp_all add: rounds_left_def new)
  then obtain u where "catch_up_loop sha mom F (nat (F - ck_height (os_checkpoint s)) + 2) s = Some u"
      "follows sha s mom k F u" "ck_height (os_checkpoint u) = F" "\<not> inclusion_pending u"
    using catch_up_follows [OF assms(3,4,2,5,6) created_follows [OF assms(1,2,3)]] by blast
  then show ?thesis using follows_end [of sha s mom k F u] by (intro exI [of _ u]) auto
qed

theorem observer_catches_up_witness:
  "\<exists>t. catch_up_loop watch_sha watch_momentum 6 3 watch_start = Some t \<and> os_checkpoint t = tip_at watch_momentum 6
     \<and> os_status t = ThresholdObserved"
proof -
  have "nat (6 - ck_height (os_checkpoint watch_start)) + 2 = 3" by (simp add: watch_fields)
  then show ?thesis
    using observer_catches_up [OF watch_created watch_sha_ok watch_honest watch_frontier watch_fit watch_plans]
    by (auto simp: watch_fields max_safe_def numeral_3_eq_3 simp del: catch_up_loop.simps)
qed

theorem candidate_rests_on_chain_witness:
  "\<exists>t c es. observer_run watch_sha watch_start t \<and> candidate_of t = Some c \<and> linked 5 (replicate 64 CHR ''d'') es
     \<and> on_chain es (mb_height (oc_inclusion c)) (mb_hash (oc_inclusion c))"
proof -
  obtain t where t: "catch_up_loop watch_sha watch_momentum 6 3 watch_start = Some t" "os_status t = ThresholdObserved"
    using watch_caught_up by blast
  have run: "observer_run watch_sha watch_start t"
    by (rule catch_up_run [OF observer_run.start watch_valid watch_sha_ok t(1)])
  have "candidate_of t \<noteq> None"
    using valid_parts(7) [OF run_valid [OF run watch_sha_ok watch_valid]] t(2)
    by (auto simp: candidate_of_def status_checked_def split: option.splits)
  then obtain c where "candidate_of t = Some c" by blast
  from this candidate_rests_on_chain [OF watch_sha_ok watch_created run this] run show ?thesis
    by (auto simp: watch_fields watch_momentum_def)
qed

section \<open>Repeated and reordered observations\<close>

text \<open>C26: A page that has been applied can be delivered again: with the new state it is answered \<open>REPLAYED\<close> and changes nothing.\<close>

theorem page_replay_is_idempotent:
  assumes "hex_digest sha" and "valid_state sha s" and "os_status s \<noteq> Quarantined" and "plan_ok sha p" and "page_sound (os_catchUp s) pg"
    and "within_limits (page_call s p pg)" and "page_input sha (js_of (page_call s p pg)) = Inr (t, Applied)"
    and "within_limits (page_call t p pg)"
  shows "page_input sha (js_of (page_call t p pg)) = Inr (t, Replayed)"
proof -
  note applied = assms(7) [unfolded page_called [OF assms(2,6,3,4,5)]]
  have page: "page_ok (os_catchUp s) pg" using assms(5) by (simp add: page_sound_def)
  have run: "observer_run sha s t" by (rule run_calls(2) [OF observer_run.start assms(2,7)])
  have "os_status t \<noteq> Quarantined" using page_applied_live [OF assms(2,3,4) page assms(1) applied] .
  moreover have "os_catchUp t = os_catchUp s" using run_keeps [OF run assms(1)] by (simp add: keeps_def same_identity_def)
  ultimately show ?thesis
    using page_called [OF run_valid [OF run assms(1,2)] assms(8) _ assms(4)] assms(5)
      page_replayed [OF assms(2,3,4) page assms(1) applied] by simp
qed

theorem page_replay_is_idempotent_witness:
  "\<exists>t. page_input watch_sha (js_of (page_call watch_start watch_plan (honest_page watch_momentum watch_plan))) = Inr (t, Applied)
     \<and> page_input watch_sha (js_of (page_call t watch_plan (honest_page watch_momentum watch_plan))) = Inr (t, Replayed)"
proof -
  obtain t where t: "page_input watch_sha (js_of (page_call watch_start watch_plan (honest_page watch_momentum watch_plan))) = Inr (t, Applied)"
    "valid_state watch_sha t" by (rule watch_applied)
  have height: "ck_height (os_checkpoint watch_start) = 5" and live: "os_status watch_start \<noteq> Quarantined" by (simp_all add: watch_fields)
  note page = watch_page [OF watch_valid same_identity_refl height watch_plan_def refl]
  show ?thesis
    using page_replay_is_idempotent [OF watch_sha_ok watch_valid live page(1,2) page(3) [OF watch_valid] t(1) page(3) [OF t(2)]] t(1) by blast
qed

text \<open>C27: The version bounds that the observer keeps one observation at a time are the highest height seen with version 1
  and the lowest seen with version 2, in whatever order and grouping they arrive, and the observer is quarantined exactly if some height with version 2
  is not above every height with version 1.\<close>

theorem versions_are_order_independent:
  assumes "valid_state sha s" and "os_status s \<noteq> Quarantined" and "os_revision s + int (length obs) \<le> max_safe"
    and "\<And>a b. (a, b) \<in> set obs \<Longrightarrow> version_bounds_ok a b"
  shows "\<exists>t. observe_versions sha s obs = Inr t
    \<and> (os_status t = Quarantined \<longleftrightarrow> version_conflict (highest (os_maxV1 s # map fst obs)) (lowest (os_minV2 s # map snd obs)))
    \<and> (os_status t \<noteq> Quarantined \<longrightarrow> os_maxV1 t = highest (os_maxV1 s # map fst obs) \<and> os_minV2 t = lowest (os_minV2 s # map snd obs))"
  by (rule observe_versions_bounds [OF assms])

theorem versions_are_order_independent_witness:
  "\<exists>t. observe_versions watch_sha watch_start [(Some 7, None), (None, Some 9), (Some 4, None)] = Inr t \<and> os_status t \<noteq> Quarantined
     \<and> os_maxV1 t = Some 7 \<and> os_minV2 t = Some 9"
proof -
  have seen: "version_bounds_ok a b" if "(a, b) \<in> set [(Some 7, None), (None, Some 9), (Some 4, None)]" for a b
    using that by (auto simp: version_bounds_ok_def version_conflict_def positive_safe_def max_safe_def)
  have "os_maxV1 watch_start = None" "os_minV2 watch_start = None" by (simp_all add: watch_start_def initial_observer_def)
  then show ?thesis
    using versions_are_order_independent [OF watch_valid, of "[(Some 7, None), (None, Some 9), (Some 4, None)]", OF _ _ seen]
    by (auto simp: watch_fields max_safe_def highest_def lowest_def version_conflict_def)
qed

section \<open>Stored text\<close>

text \<open>C28: The text of a valid state is at most 64 KiB, of the 512 KiB that are accepted, and reading it gives the state again,
  whatever the observer has been through and although the text has the members of every object in another order. \<open>JSON.parse\<close> is
  assumed to give the value that was written.\<close>

theorem stored_text_round_trips:
  assumes "valid_state sha s" and "text = canonical_json (observer_json s)"
    and "parse text = Some (js_of (sort_keys (observer_json s)))"
  shows "serialize_observer sha (js_of (observer_json s)) = Inr text \<and> parse_observer sha parse text = Inr s
    \<and> length text \<le> 64 * 1024 \<and> utf8_bytes text \<le> max_input_bytes"
proof -
  note fits = valid_state_fits [OF assms(1)]
  have size: "length text \<le> 61000"
    using canonical_size [of "observer_json s"] compact_state [OF assms(1)] assms(2) by (simp add: compact_def)
  have bytes: "utf8_bytes text \<le> max_input_bytes"
    using fits assms(2) by (simp add: within_limits_def)
  have "read_stored sha (js_of (sort_keys (observer_json s))) = Inr s"
    using fits by (simp add: read_stored_def snapshot_js within_limits_sorted sorted_state [OF assms(1)] del: sort_keys.simps)
  then have "parse_observer sha parse text = Inr s"
    using size bytes assms(2,3) stringify_head(1) [of "sort_keys (observer_json s)"]
    by (simp add: parse_observer_def canonical_json_def max_input_bytes_def)
  moreover have "serialize_observer sha (js_of (observer_json s)) = Inr text"
    using fits assms(2) by (simp add: serialize_observer_def read_stored_def snapshot_js state_copy [OF assms(1)])
  ultimately show ?thesis using size bytes by simp
qed

theorem stored_text_round_trips_witness:
  "parse_observer watch_sha (\<lambda>_. Some (js_of (sort_keys (observer_json watch_start)))) (canonical_json (observer_json watch_start))
     = Inr watch_start"
  using stored_text_round_trips [OF watch_valid refl, of "\<lambda>_. Some (js_of (sort_keys (observer_json watch_start)))"] by simp

end
