(* ===== verification/Payer_Address.thy ===== *)
theory Payer_Address
  imports Prelude "HOL-Library.Word"
begin

text \<open>
  The user addresses of the Zenon ledger as \<open>zenon/fixed-payer-shard-routing.js\<close> reads them
  (\<open>polymodStep\<close>, \<open>canonicalUserAddress\<close>): the prefix \<open>z1\<close>, thirty-two characters of five bits
  that hold twenty bytes, and a six-character Bech32 checksum. JavaScript's shifts and bitwise
  operators work on 32 bits, and so do the ones here. The specification is arithmetic: an address
  is the text of a number written in base 32 with the six characters that make the checksum one.
\<close>

unbundle bit_operations_syntax

section \<open>The code\<close>

definition bech32 :: string where
  "bech32 = ''qpzry9x8gf2tvdw0s3jn54khce6mua7l''"

definition bech32_generators :: "32 word list" where
  "bech32_generators = [0x3b6a57b2, 0x26508e6d, 0x1ea119fa, 0x3d4233dd, 0x2a1462b3]"

definition polymod_step :: "32 word \<Rightarrow> 32 word \<Rightarrow> 32 word" where
  "polymod_step checksum w = (let top = drop_bit 25 checksum in
     fold (\<lambda>i r. if drop_bit i top AND 1 \<noteq> 0 then r XOR bech32_generators ! i else r) [0..<5]
       (push_bit 5 (checksum AND 0x1ffffff) XOR w))"

definition polymod :: "32 word \<Rightarrow> 32 word list \<Rightarrow> 32 word" where
  "polymod checksum ws = foldl polymod_step checksum ws"

text \<open>The checksum after the prefix \<open>z\<close>.\<close>

definition prefix_checksum :: "32 word" where
  "prefix_checksum = polymod_step (polymod_step (polymod_step 1 3) 0) 26"

text \<open>\<open>BECH32.indexOf\<close> of a character.\<close>

fun index_of :: "char \<Rightarrow> string \<Rightarrow> nat option" where
  "index_of c [] = None"
| "index_of c (d # ds) = (if c = d then Some 0 else map_option Suc (index_of c ds))"

definition address_words :: "string \<Rightarrow> 32 word list option" where
  "address_words s = all_some (map (\<lambda>c. map_option of_nat (index_of c bech32)) s)"

text \<open>The loop from five-bit words to bytes: the bytes and the number of bits left over.\<close>

fun regroup :: "32 word list \<Rightarrow> 32 word \<Rightarrow> nat \<Rightarrow> 32 word list \<times> nat" where
  "regroup [] accumulator bits = ([], bits)"
| "regroup (w # ws) accumulator bits =
     (let accumulator = push_bit 5 accumulator OR w; bits = bits + 5 in
      if 8 \<le> bits then
        (let (bytes, left) = regroup ws accumulator (bits - 8)
         in ((drop_bit (bits - 8) accumulator AND 255) # bytes, left))
      else regroup ws accumulator bits)"

definition user_address :: "string \<Rightarrow> bool" where
  "user_address s \<longleftrightarrow> length s = 40 \<and> s ! 0 = CHR ''z'' \<and> s ! 1 = CHR ''1''
     \<and> (case address_words (drop 2 s) of None \<Rightarrow> False | Some ws \<Rightarrow>
          polymod prefix_checksum ws = 1
          \<and> (case regroup (take 32 ws) 0 0 of (bytes, bits) \<Rightarrow>
               length bytes = 20 \<and> bits = 0 \<and> hd bytes = 0 \<and> list_ex (\<lambda>b. b \<noteq> 0) bytes))"

definition canonical_user_address :: "jsval \<Rightarrow> bool" where
  "canonical_user_address v = (case v of VStr s \<Rightarrow> user_address s | _ \<Rightarrow> False)"

section \<open>Numbers and their digits\<close>

definition digits :: "nat \<Rightarrow> nat \<Rightarrow> nat \<Rightarrow> nat list" where
  "digits b k n = map (\<lambda>i. n div b ^ i mod b) (rev [0..<k])"

definition undigits :: "nat \<Rightarrow> nat list \<Rightarrow> nat" where
  "undigits b ds = foldl (\<lambda>n d. b * n + d) 0 ds"

lemma undigits_simps [simp]: "undigits b [] = 0" "undigits b (ds @ [d]) = b * undigits b ds + d"
  by (simp_all add: undigits_def)

lemma digits_length [simp]: "length (digits b k n) = k"
  by (simp add: digits_def)

lemma digits_bound: "0 < b \<Longrightarrow> d \<in> set (digits b k n) \<Longrightarrow> d < b"
  by (auto simp: digits_def)

lemma digits_Suc: "digits b (Suc k) n = digits b k (n div b) @ [n mod b]"
proof -
  have "rev [0..<Suc k] = map Suc (rev [0..<k]) @ [0]"
    by (simp add: upt_conv_Cons map_Suc_upt rev_map [symmetric] del: upt_Suc)
  then show ?thesis
    by (simp add: digits_def comp_def div_mult2_eq)
qed

lemma undigits_digits: "0 < b \<Longrightarrow> undigits b (digits b k n) = n mod b ^ k"
proof (induction k arbitrary: n)
  case 0
  then show ?case by (simp add: digits_def)
next
  case (Suc k)
  have "undigits b (digits b (Suc k) n) = b * (n div b mod b ^ k) + n mod b"
    using Suc by (simp add: digits_Suc)
  also have "\<dots> = n mod b ^ Suc k"
    using mod_mult2_eq [of n b "b ^ k"] by simp
  finally show ?case .
qed

lemma undigits_less: "(\<And>d. d \<in> set ds \<Longrightarrow> d < b) \<Longrightarrow> undigits b ds < b ^ length ds"
proof (induction ds rule: rev_induct)
  case (snoc d ds)
  then have "undigits b ds + 1 \<le> b ^ length ds" and "d < b" by (simp_all add: Suc_leI)
  then have "b * (undigits b ds + 1) \<le> b * b ^ length ds" by (intro mult_left_mono) simp_all
  then show ?case using \<open>d < b\<close> by simp
qed simp

lemma digits_undigits: "(\<And>d. d \<in> set ds \<Longrightarrow> d < b) \<Longrightarrow> digits b (length ds) (undigits b ds) = ds"
proof (induction ds rule: rev_induct)
  case (snoc d ds)
  then have "d < b" and "digits b (length ds) (undigits b ds) = ds" by simp_all
  then show ?case by (simp add: digits_Suc)
qed (simp add: digits_def)

lemma undigits_inj:
  assumes "undigits b xs = undigits b ys" and "length xs = length ys"
    and "\<And>d. d \<in> set xs \<union> set ys \<Longrightarrow> d < b"
  shows "xs = ys"
proof -
  have "digits b (length xs) (undigits b xs) = xs" and "digits b (length ys) (undigits b ys) = ys"
    using assms(3) by (auto intro!: digits_undigits)
  then show ?thesis using assms(1,2) by metis
qed

lemma undigits_append: "undigits b (xs @ ys) = undigits b xs * b ^ length ys + undigits b ys"
  by (induction ys rule: rev_induct) (simp_all add: algebra_simps flip: append_assoc)

section \<open>The specification\<close>

text \<open>
  The address of a number: its thirty-two base-32 digits and the six digits that bring the
  checksum to one.
\<close>

definition checksum_digits :: "nat list \<Rightarrow> nat list" where
  "checksum_digits ps = digits 32 6 (unat (polymod prefix_checksum (map of_nat (ps @ replicate 6 0)) XOR 1))"

definition address_text :: "nat \<Rightarrow> string" where
  "address_text n = (let ps = digits 32 32 n in ''z1'' @ map (\<lambda>d. bech32 ! d) (ps @ checksum_digits ps))"

section \<open>The checksum is linear\<close>

definition top_term :: "nat \<Rightarrow> 32 word \<Rightarrow> 32 word" where
  "top_term i c = (if bit c (25 + i) then bech32_generators ! i else 0)"

lemma polymod_step_terms: "polymod_step c w = push_bit 5 (c AND 0x1ffffff) XOR w
    XOR top_term 0 c XOR top_term 1 c XOR top_term 2 c XOR top_term 3 c XOR top_term 4 c"
proof -
  have low: "drop_bit i (drop_bit 25 c) AND 1 \<noteq> 0 \<longleftrightarrow> bit c (25 + i)" for i
    by (simp add: and_one_eq odd_iff_mod_2_eq_one bit_iff_odd_drop_bit add.commute
        flip: odd_iff_mod_2_eq_one)
  have five: "[0..<5] = [0, 1, 2, 3, 4 :: nat]" by (simp add: upt_rec numeral_eq_Suc)
  show ?thesis
    unfolding polymod_step_def Let_def low five by (simp add: top_term_def ac_simps)
qed

lemma top_term_xor: "top_term i (a XOR b) = top_term i a XOR top_term i b"
  by (auto simp: top_term_def bit_xor_iff)

lemma polymod_step_xor: "polymod_step (a XOR b) (u XOR v) = polymod_step a u XOR polymod_step b v"
proof -
  have "(a XOR b) AND 0x1ffffff = (a AND 0x1ffffff) XOR (b AND 0x1ffffff)"
    by (rule bit.conj_xor_distrib2)
  then show ?thesis
    by (simp only: polymod_step_terms top_term_xor push_bit_xor ac_simps)
qed

text \<open>A checksum keeps thirty bits, and a step without a carry out of them multiplies by 32.\<close>

definition narrow :: "nat \<Rightarrow> 32 word \<Rightarrow> bool" where
  "narrow k w \<longleftrightarrow> take_bit k w = w"

lemma narrow_bit: "narrow k w \<Longrightarrow> k \<le> i \<Longrightarrow> \<not> bit w i"
  unfolding narrow_def by (metis bit_take_bit_iff not_le)

lemma narrow_xor: "narrow k a \<Longrightarrow> narrow k b \<Longrightarrow> narrow k (a XOR b)"
  by (simp add: narrow_def take_bit_xor)

lemma narrow_mono: "narrow k w \<Longrightarrow> k \<le> m \<Longrightarrow> narrow m w"
  unfolding narrow_def by (metis min.absorb2 take_bit_take_bit)

lemma narrow_less: "k < 32 \<Longrightarrow> narrow k w \<longleftrightarrow> unat w < 2 ^ k"
  unfolding narrow_def word_unat_eq_iff by (simp add: unsigned_take_bit_eq take_bit_nat_eq_self_iff)

lemma narrow_top_term: "narrow 30 (top_term i c)" if "i < 5"
proof -
  have "i = 0 \<or> i = 1 \<or> i = 2 \<or> i = 3 \<or> i = 4" using that by linarith
  then show ?thesis by (auto simp: top_term_def narrow_def bech32_generators_def)
qed

lemma narrow_step: "narrow 5 w \<Longrightarrow> narrow 30 (polymod_step c w)"
proof -
  assume "narrow 5 w"
  then have "narrow 30 w" by (rule narrow_mono) simp
  moreover have "narrow 30 (push_bit 5 (c AND 0x1ffffff))"
  proof -
    have "c AND 0x1ffffff = take_bit 25 c" by (simp add: take_bit_eq_mask mask_eq_exp_minus_1)
    then show ?thesis by (simp add: narrow_def take_bit_push_bit)
  qed
  ultimately show ?thesis
    unfolding polymod_step_terms by (intro narrow_xor narrow_top_term) simp_all
qed

lemma polymod_step_free:
  assumes "narrow 25 c" shows "polymod_step c w = push_bit 5 c XOR w"
proof -
  have "top_term i c = 0" for i
    using assms by (simp add: top_term_def narrow_bit)
  moreover have "c AND 0x1ffffff = c"
    using assms by (simp add: narrow_def take_bit_eq_mask mask_eq_exp_minus_1)
  ultimately show ?thesis unfolding polymod_step_terms by simp
qed

text \<open>The five generators are independent in their low bits, so a step forgets nothing.\<close>

lemma polymod_step_zero:
  assumes "polymod_step c 0 = 0" and "narrow 30 c" shows "c = 0"
proof -
  have low: "bit (polymod_step c 0) i \<longleftrightarrow> bit (0 XOR top_term 0 c XOR top_term 1 c XOR top_term 2 c
      XOR top_term 3 c XOR top_term 4 c) i" if "i < 5" for i
    using that unfolding polymod_step_terms by (simp only: bit_xor_iff bit_push_bit_iff) simp
  have zero: "\<not> bit (polymod_step c 0) i" for i
    unfolding assms(1) by simp
  have top: "\<not> bit c 25" "\<not> bit c 26" "\<not> bit c 27" "\<not> bit c 28" "\<not> bit c 29"
    using zero [of 0] zero [of 1] zero [of 2] zero [of 3] zero [of 4]
    by (auto simp: low top_term_def bech32_generators_def bit_xor_iff split: if_splits)
  have "narrow 25 c" 
    unfolding narrow_def
  proof (rule bit_word_eqI)
    fix n assume "n < LENGTH(32)"
    show "bit (take_bit 25 c) n = bit c n"
    proof (cases "n < 25")
      case False
      then have "n = 25 \<or> n = 26 \<or> n = 27 \<or> n = 28 \<or> n = 29 \<or> 30 \<le> n" by linarith
      then show ?thesis using top narrow_bit [OF assms(2)] False by (auto simp: bit_take_bit_iff)
    qed (simp add: bit_take_bit_iff)
  qed
  then have shifted: "push_bit 5 c = 0"
    using assms(1) polymod_step_free [of c 0] by simp
  have "\<not> bit c n" for n
  proof (cases "n < 25")
    case True
    then have "bit (push_bit 5 c) (n + 5) \<longleftrightarrow> bit c n" by (simp add: bit_push_bit_iff)
    then show ?thesis unfolding shifted by simp
  next
    case False
    then show ?thesis using narrow_bit [OF \<open>narrow 25 c\<close>] by simp
  qed
  then show ?thesis by (intro bit_word_eqI) simp
qed

lemma polymod_step_inj:
  assumes "polymod_step a w = polymod_step b w" and "narrow 30 a" and "narrow 30 b" shows "a = b"
proof -
  have "polymod_step (a XOR b) 0 = 0"
    using polymod_step_xor [of a b w w] assms(1) by simp
  then have same: "a XOR b = 0"
    by (rule polymod_step_zero) (rule narrow_xor [OF assms(2,3)])
  have "b = (a XOR a) XOR b" by simp
  also have "\<dots> = a XOR (a XOR b)" by (rule xor.assoc)
  also have "\<dots> = a" unfolding same by simp
  finally show ?thesis by (rule sym)
qed

lemma polymod_simps [simp]: "polymod c [] = c" "polymod c (w # ws) = polymod (polymod_step c w) ws"
    "polymod c (us @ ws) = polymod (polymod c us) ws"
  by (simp_all add: polymod_def)

lemma narrow_polymod: "narrow 30 c \<Longrightarrow> list_all (narrow 5) ws \<Longrightarrow> narrow 30 (polymod c ws)"
  by (induction ws arbitrary: c) (simp_all add: narrow_step)

lemma polymod_inj:
  "polymod a ws = polymod b ws \<Longrightarrow> list_all (narrow 5) ws \<Longrightarrow> narrow 30 a \<Longrightarrow> narrow 30 b \<Longrightarrow> a = b"
proof (induction ws arbitrary: a b)
  case (Cons w ws)
  then have "narrow 5 w" by simp
  with Cons have "polymod_step a w = polymod_step b w" by (simp add: narrow_step)
  then show ?case using Cons.prems(3,4) by (rule polymod_step_inj)
qed simp


section \<open>Checksums and digits\<close>

lemma xor_cancel: "a XOR b = a XOR c \<longleftrightarrow> b = c" for a b c :: "32 word"
proof
  assume "a XOR b = a XOR c"
  then have "(a XOR a) XOR b = (a XOR a) XOR c" unfolding xor.assoc by simp
  then show "b = c" by simp
qed simp

text \<open>Words of five bits are the images of digits below 32.\<close>

definition digit_words :: "nat list \<Rightarrow> 32 word list" where
  "digit_words ds = map of_nat ds"

lemma digit_words_simps [simp]: "digit_words [] = []" "digit_words (d # ds) = of_nat d # digit_words ds"
    "digit_words (ds @ es) = digit_words ds @ digit_words es" "length (digit_words ds) = length ds"
  by (simp_all add: digit_words_def)

lemma unat_digit: "d < 2 ^ k \<Longrightarrow> k \<le> 32 \<Longrightarrow> unat (of_nat d :: 32 word) = d"
proof -
  assume "d < 2 ^ k" and "k \<le> 32"
  then have "d < 2 ^ 32" by (meson less_le_trans one_le_numeral power_increasing)
  then show ?thesis by (simp add: unat_of_nat)
qed

lemma narrow_digit: "d < 32 \<Longrightarrow> narrow 5 (of_nat d)"
  by (simp add: narrow_less unat_digit [of d 5])

lemma narrow_digit_words: "(\<And>d. d \<in> set ds \<Longrightarrow> d < 32) \<Longrightarrow> list_all (narrow 5) (digit_words ds)"
  by (auto simp: list_all_iff digit_words_def intro: narrow_digit)

text \<open>Up to six digits from zero: the checksum is the number they write.\<close>

lemma shifted_digit:
  assumes "d < 32" shows "push_bit 5 (w :: 32 word) XOR of_nat d = 32 * w + of_nat d"
    and "push_bit 5 w OR of_nat d = 32 * w + of_nat d"
proof -
  have free: "push_bit 5 w AND of_nat d = 0"
  proof (rule bit_word_eqI)
    fix n assume "n < LENGTH(32)"
    show "bit (push_bit 5 w AND of_nat d) n \<longleftrightarrow> bit (0 :: 32 word) n"
      using narrow_bit [OF narrow_digit [OF assms], of n] by (cases "5 \<le> n") (auto simp: bit_and_iff bit_push_bit_iff)
  qed
  have "push_bit 5 w = 32 * w" by (simp add: push_bit_eq_mult)
  then show "push_bit 5 w OR of_nat d = 32 * w + of_nat d"
    using free by (simp add: disjunctive_add_eq_or)
  moreover have "push_bit 5 w XOR of_nat d = push_bit 5 w OR of_nat d"
    using free by (simp add: disjunctive_xor_eq_or)
  ultimately show "push_bit 5 w XOR of_nat d = 32 * w + of_nat d" by simp
qed

lemma polymod_short:
  assumes "\<And>d. d \<in> set ds \<Longrightarrow> d < 32" and "length ds \<le> 6"
  shows "polymod 0 (digit_words ds) = of_nat (undigits 32 ds)"
  using assms
proof (induction ds rule: rev_induct)
  case (snoc d ds)
  have "undigits 32 ds < 32 ^ length ds" using snoc.prems(1) by (intro undigits_less) simp
  also have "\<dots> \<le> 32 ^ 5" using snoc.prems(2) by (intro power_increasing) simp_all
  finally have small: "undigits 32 ds < 2 ^ 25" by simp
  then have "narrow 25 (of_nat (undigits 32 ds))"
    by (simp add: narrow_less unat_digit [of _ 25])
  then show ?case
    using snoc polymod_step_free shifted_digit(1) [of d "of_nat (undigits 32 ds)"] by simp
qed simp

lemma polymod_shift:
  assumes "\<And>d. d \<in> set ds \<Longrightarrow> d < 32" and "length ds \<le> 6"
  shows "polymod c (digit_words ds) = polymod c (replicate (length ds) 0) XOR of_nat (undigits 32 ds)"
proof -
  have "polymod (a XOR b) ws = polymod a (replicate (length ws) 0) XOR polymod b ws" for a b ws
  proof (induction ws arbitrary: a b)
    case (Cons w ws)
    have "polymod_step (a XOR b) w = polymod_step a 0 XOR polymod_step b w"
      using polymod_step_xor [of a b 0 w] by simp
    then show ?case using Cons by simp
  qed simp
  from this [of c 0 "digit_words ds"] show ?thesis using polymod_short [OF assms] by simp
qed


lemma checksum_digits_bound: "length (checksum_digits ps) = 6" "d \<in> set (checksum_digits ps) \<Longrightarrow> d < 32"
  unfolding checksum_digits_def by (simp, rule digits_bound [of 32]) simp_all

lemma narrow_prefix: "narrow 30 prefix_checksum"
  unfolding prefix_checksum_def by (rule narrow_step) (simp add: narrow_def)

text \<open>Exactly one checksum fits the payload.\<close>

lemma checksum_unique:
  assumes ps: "\<And>d. d \<in> set ps \<Longrightarrow> d < 32" and cs: "\<And>d. d \<in> set cs \<Longrightarrow> d < 32" and six: "length cs = 6"
  shows "polymod prefix_checksum (digit_words (ps @ cs)) = 1 \<longleftrightarrow> cs = checksum_digits ps"
proof -
  define z where "z = polymod prefix_checksum (digit_words (ps @ replicate 6 0))"
  have zero: "digit_words (replicate n 0) = replicate n 0" for n
    by (simp add: digit_words_def)
  have split: "polymod prefix_checksum (digit_words (ps @ cs)) = z XOR of_nat (undigits 32 cs)"
    using polymod_shift [OF cs, where c = "polymod prefix_checksum (digit_words ps)"] six by (simp add: z_def zero)
  have "narrow 30 z"
    unfolding z_def by (rule narrow_polymod [OF narrow_prefix narrow_digit_words]) (use ps in auto)
  then have "narrow 30 (z XOR 1)"
    by (rule narrow_xor) (simp add: narrow_def)
  then have bound: "unat (z XOR 1) < 32 ^ 6" by (simp add: narrow_less)
  have "undigits 32 cs < 32 ^ length cs" by (rule undigits_less) (rule cs)
  then have read: "unat (of_nat (undigits 32 cs) :: 32 word) = undigits 32 cs"
    using six by (intro unat_digit [of _ 30]) simp_all
  have "z XOR of_nat (undigits 32 cs) = 1 \<longleftrightarrow> of_nat (undigits 32 cs) = z XOR 1"
    using xor_cancel [of z "of_nat (undigits 32 cs)" "z XOR 1"] by (simp flip: xor.assoc)
  also have "\<dots> \<longleftrightarrow> undigits 32 cs = unat (z XOR 1)"
    unfolding word_unat_eq_iff read ..
  also have "\<dots> \<longleftrightarrow> cs = checksum_digits ps"
  proof
    assume "undigits 32 cs = unat (z XOR 1)"
    then show "cs = checksum_digits ps"
      using digits_undigits [of cs 32] cs six by (simp add: checksum_digits_def z_def digit_words_def)
  next
    assume "cs = checksum_digits ps"
    then show "undigits 32 cs = unat (z XOR 1)"
      using undigits_digits [of 32 6 "unat (z XOR 1)"] bound by (simp add: checksum_digits_def z_def digit_words_def)
  qed
  finally show ?thesis unfolding split .
qed

text \<open>Two words with the same checksum that agree outside six consecutive places agree there too.\<close>

lemma burst_detected:
  assumes "polymod prefix_checksum (digit_words (p @ x @ q)) = polymod prefix_checksum (digit_words (p @ y @ q))"
    and "length x = length y" and "length x \<le> 6" and digits: "\<And>d. d \<in> set (p @ x @ y @ q) \<Longrightarrow> d < 32"
  shows "x = y"
proof -
  define c where "c = polymod prefix_checksum (digit_words p)"
  have words: "list_all (narrow 5) (digit_words ds)" if "set ds \<subseteq> set (p @ x @ y @ q)" for ds
    using that digits by (intro narrow_digit_words) blast
  have "narrow 30 c"
    unfolding c_def by (rule narrow_polymod [OF narrow_prefix words]) simp
  moreover have "list_all (narrow 5) (digit_words x)" and "list_all (narrow 5) (digit_words y)"
    by (rule words; auto)+
  ultimately have "narrow 30 (polymod c (digit_words x))" "narrow 30 (polymod c (digit_words y))"
    by (simp_all add: narrow_polymod)
  moreover have "polymod (polymod c (digit_words x)) (digit_words q) = polymod (polymod c (digit_words y)) (digit_words q)"
    using assms(1) by (simp add: c_def)
  moreover have "list_all (narrow 5) (digit_words q)" by (rule words) auto
  ultimately have "polymod c (digit_words x) = polymod c (digit_words y)" by (metis polymod_inj)
  moreover have "polymod c (digit_words x) = polymod c (replicate (length x) 0) XOR of_nat (undigits 32 x)"
      "polymod c (digit_words y) = polymod c (replicate (length x) 0) XOR of_nat (undigits 32 y)"
    using digits assms(2,3) by (auto intro!: polymod_shift [THEN trans])
  ultimately have same: "(of_nat (undigits 32 x) :: 32 word) = of_nat (undigits 32 y)"
    by (simp add: xor_cancel)
  have "undigits 32 x < 32 ^ length x" "undigits 32 y < 32 ^ length x"
    using digits undigits_less [of x 32] undigits_less [of y 32] assms(2) by auto
  moreover have "(32 :: nat) ^ length x \<le> 32 ^ 6" using assms(3) by (intro power_increasing) simp_all
  ultimately have "undigits 32 x < 2 ^ 30" "undigits 32 y < 2 ^ 30" by simp_all
  then have "undigits 32 x = undigits 32 y"
    using arg_cong [OF same, of unat] by (simp add: unat_digit [of _ 30])
  then show ?thesis using assms(2) digits by (intro undigits_inj [of 32]) auto
qed

section \<open>From words to bytes\<close>

lemma byte_of: "drop_bit k (of_nat n :: 32 word) AND 255 = of_nat (n div 2 ^ k mod 256)" if "k \<le> 24"
proof -
  have "drop_bit k (of_nat n :: 32 word) AND 255 = take_bit 8 (drop_bit k (of_nat n))"
    by (simp add: take_bit_eq_mask mask_eq_exp_minus_1)
  also have "\<dots> = of_nat (take_bit 8 (drop_bit k n))"
    using that by (intro bit_word_eqI) (auto simp: bit_simps)
  finally show ?thesis by (simp add: take_bit_eq_mod drop_bit_eq_div)
qed

lemma digits_Cons: "digits b (Suc k) n = (n div b ^ k mod b) # digits b k n"
  by (simp add: digits_def)

lemma regroup_bytes:
  assumes "\<And>d. d \<in> set ds \<Longrightarrow> d < 32" and "b < 8"
  shows "regroup (digit_words ds) (of_nat n) b =
    (let t = b + 5 * length ds; N = n * 32 ^ length ds + undigits 32 ds
     in (map of_nat (digits 256 (t div 8) (N div 2 ^ (t mod 8))), t mod 8))"
  using assms
proof (induction ds arbitrary: n b)
  case Nil
  then show ?case by (simp add: digits_def)
next
  case (Cons d ds)
  define m where "m = 32 * n + d"
  define N where "N = m * 32 ^ length ds + undigits 32 ds"
  have N: "n * 32 ^ length (d # ds) + undigits 32 (d # ds) = N"
    using undigits_append [of 32 "[d]" ds] undigits_simps(2) [of 32 "[]" d]
    by (simp add: N_def m_def algebra_simps)
  have accumulator: "push_bit 5 (of_nat n) OR of_nat d = (of_nat m :: 32 word)"
    using shifted_digit(2) [of d "of_nat n"] Cons.prems(1) by (simp add: m_def)
  show ?case
  proof (cases "8 \<le> b + 5")
    case False
    have total: "b + 5 * length (d # ds) = b + 5 + 5 * length ds" by simp
    have "regroup (digit_words (d # ds)) (of_nat n) b = regroup (digit_words ds) (of_nat m) (b + 5)"
      using False by (simp add: accumulator Let_def)
    also have "\<dots> = (let t = b + 5 + 5 * length ds in (map of_nat (digits 256 (t div 8) (N div 2 ^ (t mod 8))), t mod 8))"
      unfolding N_def using Cons.IH [of "b + 5" m] Cons.prems(1) False by (simp add: Let_def)
    finally show ?thesis unfolding N Let_def total .
  next
    case True
    define t where "t = b + 5 - 8 + 5 * length ds"
    have total: "b + 5 * length (d # ds) = t + 8" using True by (simp add: t_def)
    have top: "N div 2 ^ (t mod 8) div 256 ^ (t div 8) mod 256 = m div 2 ^ (b + 5 - 8) mod 256"
    proof -
      have "(256 :: nat) ^ (t div 8) = 2 ^ (8 * (t div 8))" by (simp add: power_mult)
      then have "N div 2 ^ (t mod 8) div 256 ^ (t div 8) = N div 2 ^ t"
        by (simp flip: div_mult2_eq power_add)
      also have "\<dots> = N div 32 ^ length ds div 2 ^ (b + 5 - 8)"
      proof -
        have "(32 :: nat) ^ length ds = 2 ^ (5 * length ds)" by (simp add: power_mult)
        then show ?thesis by (simp add: t_def power_add mult.commute flip: div_mult2_eq)
      qed
      also have "N div 32 ^ length ds = m"
        using undigits_less [of ds 32] Cons.prems(1) by (simp add: N_def)
      finally show ?thesis by simp
    qed
    have rest: "regroup (digit_words ds) (of_nat m) (b + 5 - 8)
        = (map of_nat (digits 256 (t div 8) (N div 2 ^ (t mod 8))), t mod 8)"
      using Cons.IH [of "b + 5 - 8" m] Cons.prems by (simp add: Let_def t_def N_def)
    have "regroup (digit_words (d # ds)) (of_nat n) b
        = (of_nat (m div 2 ^ (b + 5 - 8) mod 256) # map of_nat (digits 256 (t div 8) (N div 2 ^ (t mod 8))), t mod 8)"
      using True Cons.prems(2) rest by (simp add: accumulator Let_def byte_of)
    moreover have "(t + 8) div 8 = Suc (t div 8)" "(t + 8) mod 8 = t mod 8" by simp_all
    ultimately show ?thesis unfolding N Let_def total by (simp only: digits_Cons top list.map)
  qed
qed


section \<open>Addresses and numbers\<close>

lemma index_of_Some: "index_of c cs = Some i \<Longrightarrow> i < length cs \<and> cs ! i = c"
  by (induction cs arbitrary: i) (auto split: if_splits)

lemma index_of_nth: "distinct cs \<Longrightarrow> i < length cs \<Longrightarrow> index_of (cs ! i) cs = Some i"
  by (induction cs arbitrary: i) (auto simp: nth_Cons' less_Suc_eq_0_disj)

lemma bech32_facts: "length bech32 = 32" "distinct bech32"
  by (simp_all add: bech32_def)

lemma address_words_text:
  assumes "\<And>d. d \<in> set ds \<Longrightarrow> d < 32"
  shows "address_words (map (\<lambda>d. bech32 ! d) ds) = Some (digit_words ds)"
proof -
  have "map (\<lambda>c. map_option (of_nat :: nat \<Rightarrow> 32 word) (index_of c bech32)) (map (\<lambda>d. bech32 ! d) ds)
      = map (\<lambda>d. Some (of_nat d)) ds"
    using assms by (simp add: index_of_nth bech32_facts)
  then show ?thesis by (simp only: address_words_def digit_words_def all_some_map_Some)
qed

lemma address_words_Some:
  assumes "address_words s = Some ws"
  obtains ds where "s = map (\<lambda>d. bech32 ! d) ds" "ws = digit_words ds" "\<forall>d \<in> set ds. d < 32"
proof -
  define ds where "ds = map (\<lambda>c. the (index_of c bech32)) s"
  have found: "map (\<lambda>c. map_option of_nat (index_of c bech32)) s = map Some ws"
    using assms by (simp add: address_words_def all_some_eq_Some)
  have known: "\<exists>i. index_of c bech32 = Some i" if "c \<in> set s" for c
  proof (rule ccontr)
    assume "\<not> ?thesis"
    then have "None \<in> set (map (\<lambda>c. map_option (of_nat :: nat \<Rightarrow> 32 word) (index_of c bech32)) s)"
      using that by (force simp: image_iff)
    then show False unfolding found by auto
  qed
  have "map (\<lambda>d. bech32 ! d) ds = s"
    unfolding ds_def map_map using known index_of_Some by (intro map_idI) fastforce
  moreover have "d < 32" if d: "d \<in> set ds" for d
  proof -
    obtain c where "c \<in> set s" and "d = the (index_of c bech32)" using d by (auto simp: ds_def)
    then show ?thesis using known [of c] index_of_Some [of c bech32] bech32_facts(1) by auto
  qed
  moreover have "map Some ws = map Some (digit_words ds)"
    unfolding found [symmetric] digit_words_def ds_def map_map using known by (intro map_cong) force+
  then have "ws = digit_words ds" by (simp add: inj_map_eq_map)
  ultimately show thesis using that by blast
qed

lemma user_bytes:
  assumes "\<And>d. d \<in> set ps \<Longrightarrow> d < 32" and "length ps = 32"
  shows "(case regroup (digit_words ps) 0 0 of (bytes, bits) \<Rightarrow>
      length bytes = 20 \<and> bits = 0 \<and> hd bytes = 0 \<and> list_ex (\<lambda>b. b \<noteq> 0) bytes)
    \<longleftrightarrow> 0 < undigits 32 ps \<and> undigits 32 ps < 2 ^ 152"
proof -
  define N where "N = undigits 32 ps"
  have "N < 32 ^ 32" using undigits_less [of ps 32] assms by (simp add: N_def)
  then have bound: "N < 256 ^ 20" by simp
  have bytes: "regroup (digit_words ps) 0 0 = (map of_nat (digits 256 20 N), 0)"
    using regroup_bytes [of ps 0 0] assms by (simp add: Let_def N_def)
  have word: "(of_nat b :: 32 word) = 0 \<longleftrightarrow> b = 0" if "b < 256" for b
    using that unat_digit [of b 8] by (auto simp: word_unat_eq_iff)
  have head: "hd (map of_nat (digits 256 20 N)) = (of_nat (N div 256 ^ 19) :: 32 word)"
    using digits_Cons [of 256 19 N] bound by (simp add: less_mult_imp_div_less)
  have "N div 256 ^ 19 < 256" using bound by (simp add: less_mult_imp_div_less)
  then have first: "hd (map of_nat (digits 256 20 N)) = (0 :: 32 word) \<longleftrightarrow> N < 2 ^ 152"
    unfolding head by (simp add: word div_eq_0_iff)
  have "(\<forall>d \<in> set (digits 256 20 N). d = 0) \<longleftrightarrow> N = 0"
  proof
    assume "\<forall>d \<in> set (digits 256 20 N). d = 0"
    then have "digits 256 20 N = replicate 20 0" by (intro replicate_eqI) simp_all
    then have "undigits 256 (digits 256 20 N) = 0" by (simp add: undigits_def numeral_eq_Suc)
    then show "N = 0" using undigits_digits [of 256 20 N] bound by simp
  qed (auto simp: digits_def)
  then have "list_ex (\<lambda>b. b \<noteq> 0) (map of_nat (digits 256 20 N) :: 32 word list) \<longleftrightarrow> 0 < N"
    using word digits_bound [of 256 _ 20 N] by (auto simp: list_ex_iff)
  then show ?thesis unfolding bytes prod.case using first unfolding N_def by (simp add: conj_commute)
qed

lemma address_text_parts:
  "length (address_text n) = 40" "address_text n = CHR ''z'' # CHR ''1'' # drop 2 (address_text n)"
  "drop 2 (address_text n) = map (\<lambda>d. bech32 ! d) (digits 32 32 n @ checksum_digits (digits 32 32 n))"
  by (simp_all add: address_text_def Let_def checksum_digits_bound)

lemma user_address_iff: "user_address s \<longleftrightarrow> (\<exists>n. 0 < n \<and> n < 2 ^ 152 \<and> s = address_text n)"
proof
  assume s: "user_address s"
  then obtain ws where words: "address_words (drop 2 s) = Some ws"
    by (auto simp: user_address_def split: option.splits)
  then obtain ds where ds: "drop 2 s = map (\<lambda>d. bech32 ! d) ds" "ws = digit_words ds" "\<forall>d \<in> set ds. d < 32"
    by (rule address_words_Some)
  define ps cs where "ps = take 32 ds" and "cs = drop 32 ds"
  have parts: "ds = ps @ cs" by (simp add: ps_def cs_def)
  have "length (drop 2 s) = 38" using s by (simp add: user_address_def)
  then have lengths: "length ps = 32" "length cs = 6"
    unfolding ds(1) by (simp_all add: ps_def cs_def)
  have small: "\<And>d. d \<in> set ps \<Longrightarrow> d < 32" "\<And>d. d \<in> set cs \<Longrightarrow> d < 32"
    using ds(3) unfolding parts by auto
  have check: "polymod prefix_checksum ws = 1" "case regroup (take 32 ws) 0 0 of (bytes, bits) \<Rightarrow>
      length bytes = 20 \<and> bits = 0 \<and> hd bytes = 0 \<and> list_ex (\<lambda>b. b \<noteq> 0) bytes"
    using s words by (simp_all add: user_address_def)
  have front: "take 32 ws = digit_words ps"
    unfolding ds(2) parts using lengths by simp
  have cs: "cs = checksum_digits ps"
    using checksum_unique [OF small lengths(2)] check(1) unfolding ds(2) parts by blast
  have "ps = digits 32 32 (undigits 32 ps)"
    using digits_undigits [of ps 32] small(1) lengths(1) by simp
  then have "drop 2 s = drop 2 (address_text (undigits 32 ps))"
    unfolding address_text_parts(3) ds(1) parts using cs by simp
  moreover have "s = CHR ''z'' # CHR ''1'' # drop 2 s"
    using s by (cases s; cases "tl s") (auto simp: user_address_def)
  ultimately have "s = address_text (undigits 32 ps)"
    using address_text_parts(2) by metis
  then show "\<exists>n. 0 < n \<and> n < 2 ^ 152 \<and> s = address_text n"
    using user_bytes [OF small(1) lengths(1)] check(2) unfolding front by blast
next
  assume "\<exists>n. 0 < n \<and> n < 2 ^ 152 \<and> s = address_text n"
  then obtain n where n: "0 < n" "n < 2 ^ 152" and s: "s = address_text n" by blast
  define ps where "ps = digits 32 32 n"
  have small: "\<And>d. d \<in> set ps \<Longrightarrow> d < 32" "\<And>d. d \<in> set (checksum_digits ps) \<Longrightarrow> d < 32"
    using digits_bound [of 32] checksum_digits_bound(2) by (auto simp: ps_def)
  have body: "drop 2 s = map (\<lambda>d. bech32 ! d) (ps @ checksum_digits ps)"
    unfolding s address_text_parts(3) ps_def ..
  have words: "address_words (drop 2 s) = Some (digit_words (ps @ checksum_digits ps))"
    unfolding body using small by (intro address_words_text) auto
  have check: "polymod prefix_checksum (digit_words (ps @ checksum_digits ps)) = 1"
    using checksum_unique [OF small checksum_digits_bound(1)] by blast
  have front: "take 32 (digit_words (ps @ checksum_digits ps)) = digit_words ps"
    by (simp add: ps_def)
  have "n < 32 ^ 32" using n(2) by (rule less_le_trans) simp
  then have "undigits 32 ps = n" using undigits_digits [of 32 32 n] by (simp add: ps_def)
  then have "case regroup (digit_words ps) 0 0 of (bytes, bits) \<Rightarrow>
      length bytes = 20 \<and> bits = 0 \<and> hd bytes = 0 \<and> list_ex (\<lambda>b. b \<noteq> 0) bytes"
    using user_bytes [of ps] small(1) n by (simp add: ps_def)
  moreover have "s ! 0 = CHR ''z''" "s ! 1 = CHR ''1''"
    unfolding s by (simp_all add: address_text_def Let_def)
  ultimately show "user_address s"
    unfolding user_address_def words option.case front using check by (simp add: s address_text_parts(1))
qed


end
