(* ===== verification/Bytes_Text.thy ===== *)
theory Bytes_Text
  imports Canonical_JSON "HOL-Library.Word"
begin

text \<open>
  Bytes and their texts: hexadecimal digests and base64, as \<open>Buffer\<close> of Node reads and writes
  them. The program only decodes texts of the full base64 shape (its regular expressions), so the
  decoder is given on those. Decoding what was encoded gives the bytes back, and a text is
  \<^emph>\<open>canonical\<close>, that is encoded again to itself, exactly when it is the encoding of some bytes.
\<close>

type_synonym bytes = "8 word list"

definition byte_hex :: "8 word \<Rightarrow> string" where
  "byte_hex b = [hex_digit (unat b div 16), hex_digit (unat b mod 16)]"

definition bytes_hex :: "bytes \<Rightarrow> string" where
  "bytes_hex b = concat (map byte_hex b)"

section \<open>Base64\<close>

definition base64_alphabet :: string where
  "base64_alphabet = ''ABCDEFGHIJKLMNOPQRSTUVWXYZabcdefghijklmnopqrstuvwxyz0123456789+/''"

definition sextet_char :: "nat \<Rightarrow> char" where
  "sextet_char n = base64_alphabet ! n"

definition sextet_value :: "char \<Rightarrow> nat" where
  "sextet_value c = length (takeWhile (\<lambda>d. d \<noteq> c) base64_alphabet)"

definition is_sextet :: "char \<Rightarrow> bool" where
  "is_sextet c \<longleftrightarrow> is_alnum c \<or> c = CHR ''+'' \<or> c = CHR ''/''"

definition b64_pad :: char where
  "b64_pad = CHR ''=''"

fun base64_encode :: "bytes \<Rightarrow> string" where
  "base64_encode (a # b # c # rest) =
     [sextet_char (unat a div 4), sextet_char (unat a mod 4 * 16 + unat b div 16),
      sextet_char (unat b mod 16 * 4 + unat c div 64), sextet_char (unat c mod 64)] @ base64_encode rest"
| "base64_encode [a, b] =
     [sextet_char (unat a div 4), sextet_char (unat a mod 4 * 16 + unat b div 16), sextet_char (unat b mod 16 * 4), b64_pad]"
| "base64_encode [a] = [sextet_char (unat a div 4), sextet_char (unat a mod 4 * 16), b64_pad, b64_pad]"
| "base64_encode [] = []"

text \<open>\<open>/^(?:[A-Za-z0-9+/]{4})*(?:[A-Za-z0-9+/]{2}==|[A-Za-z0-9+/]{3}=)?$/\<close>\<close>

fun base64_shape :: "string \<Rightarrow> bool" where
  "base64_shape (a # b # c # d # rest) \<longleftrightarrow> is_sextet a \<and> is_sextet b \<and>
     (is_sextet c \<and> is_sextet d \<and> base64_shape rest
      \<or> rest = [] \<and> d = b64_pad \<and> (is_sextet c \<or> c = b64_pad))"
| "base64_shape s \<longleftrightarrow> s = []"

definition triple :: "nat \<Rightarrow> nat \<Rightarrow> nat \<Rightarrow> nat \<Rightarrow> bytes" where
  "triple a b c d = [of_nat (a * 4 + b div 16), of_nat (b mod 16 * 16 + c div 4), of_nat (c mod 4 * 64 + d)]"

fun base64_decode :: "string \<Rightarrow> bytes" where
  "base64_decode (a # b # c # d # rest) =
     (if c = b64_pad then take 1 (triple (sextet_value a) (sextet_value b) 0 0)
      else if d = b64_pad then take 2 (triple (sextet_value a) (sextet_value b) (sextet_value c) 0)
      else triple (sextet_value a) (sextet_value b) (sextet_value c) (sextet_value d) @ base64_decode rest)"
| "base64_decode s = []"

definition canonical_base64 :: "string \<Rightarrow> bool" where
  "canonical_base64 s \<longleftrightarrow> base64_shape s \<and> base64_encode (base64_decode s) = s"

section \<open>Decoding what was encoded\<close>

lemma sextet_check: "\<forall>n \<in> set [0..<64]. sextet_value (sextet_char n) = n \<and> is_sextet (sextet_char n) \<and> sextet_char n \<noteq> b64_pad"
  by code_simp

lemma sextet [simp]:
  assumes "n < 64"
  shows "sextet_value (sextet_char n) = n" "is_sextet (sextet_char n)" "sextet_char n \<noteq> b64_pad"
  using sextet_check assms by simp_all

lemma byte_bound: "unat b < 256" for b :: "8 word"
  using unsigned_less [of b, where ?'a = nat] by simp

lemma byte_sextets:
  fixes a b :: "8 word"
  shows "unat a div 4 < 64" "unat a mod 4 * 16 + unat b div 16 < 64" "unat a mod 16 * 4 + unat b div 64 < 64"
    "unat a mod 64 < 64" "unat a mod 4 * 16 < 64" "unat a mod 16 * 4 < 64"
  using byte_bound [of a] byte_bound [of b] by auto

lemma join_div: "q < k \<Longrightarrow> (x * k + q) div k = x \<and> (x * k + q) mod k = q" for q k x :: nat
  by simp

lemma regrouped:
  fixes a b c :: nat
  assumes "a < 256" "b < 256" "c < 256"
  shows "a div 4 * 4 + (a mod 4 * 16 + b div 16) div 16 = a"
    "(a mod 4 * 16 + b div 16) mod 16 * 16 + (b mod 16 * 4 + c div 64) div 4 = b"
    "(b mod 16 * 4 + c div 64) mod 4 * 64 + c mod 64 = c"
proof -
  have "b div 16 < 16" "c div 64 < 4" using assms by auto
  then have "(a mod 4 * 16 + b div 16) div 16 = a mod 4" "(a mod 4 * 16 + b div 16) mod 16 = b div 16"
    "(b mod 16 * 4 + c div 64) div 4 = b mod 16" "(b mod 16 * 4 + c div 64) mod 4 = c div 64"
    using join_div by blast+
  then show "a div 4 * 4 + (a mod 4 * 16 + b div 16) div 16 = a"
    "(a mod 4 * 16 + b div 16) mod 16 * 16 + (b mod 16 * 4 + c div 64) div 4 = b"
    "(b mod 16 * 4 + c div 64) mod 4 * 64 + c mod 64 = c"
    by (simp_all only: div_mult_mod_eq)
qed

lemma triple_bytes:
  fixes a b c :: "8 word"
  shows "triple (unat a div 4) (unat a mod 4 * 16 + unat b div 16) (unat b mod 16 * 4 + unat c div 64) (unat c mod 64)
    = [a, b, c]"
  unfolding triple_def regrouped [OF byte_bound byte_bound byte_bound] by simp

lemma pair_bytes:
  fixes a b :: "8 word"
  shows "take 2 (triple (unat a div 4) (unat a mod 4 * 16 + unat b div 16) (unat b mod 16 * 4) 0) = [a, b]"
    "take 1 (triple (unat a div 4) (unat a mod 4 * 16) 0 0) = [a]"
  using triple_bytes [of a b 0] triple_bytes [of a 0 0] by (simp_all add: triple_def)

lemma base64_decode_encode [simp]: "base64_decode (base64_encode b) = b"
proof (induction b rule: base64_encode.induct)
  case (1 a b c rest)
  then show ?case
    by (simp only: base64_encode.simps append.simps base64_decode.simps sextet byte_sextets triple_bytes if_False refl)
next
  case (2 a b)
  then show ?case
    by (simp only: base64_encode.simps append.simps base64_decode.simps sextet byte_sextets pair_bytes if_False if_True refl)
next
  case (3 a)
  then show ?case
    by (simp only: base64_encode.simps append.simps base64_decode.simps sextet byte_sextets pair_bytes if_True refl)
qed simp

lemma base64_shape_encode [simp]: "base64_shape (base64_encode b)"
  by (induction b rule: base64_encode.induct) (simp_all add: byte_sextets)

lemma base64_encode_length: "length (base64_encode b) = 4 * ((length b + 2) div 3)"
proof (induction b rule: base64_encode.induct)
  case (1 a b c rest)
  have "(length (a # b # c # rest) + 2) div 3 = Suc ((length rest + 2) div 3)" by simp
  then show ?case using 1 by (simp only: base64_encode.simps length_append list.size) simp
qed simp_all

lemma canonical_base64_iff: "canonical_base64 s \<longleftrightarrow> (\<exists>b. s = base64_encode b)"
  unfolding canonical_base64_def by (metis base64_decode_encode base64_shape_encode)

end
