(* ===== verification/Payer_Routing.thy ===== *)
theory Payer_Routing
  imports Payer_Address Captured_Records Bytes_Text
begin

text \<open>
  The fixed routing of payers to two shards (\<open>zenon/fixed-payer-shard-routing.js\<close>): the options,
  the manifest file and the checks around reading it, the text the manifest must have, and \<open>route\<close>.

  The operating system's answers are the record \<open>manifest_io\<close>: one field for each call of
  \<open>readManifest\<close>, in the order of the calls, \<^const>\<open>None\<close> where the call throws. Paths are
  POSIX paths. SHA-256 on bytes, the fatal UTF-8 decoder and \<open>JSON.parse\<close> are parameters.
\<close>

unbundle bit_operations_syntax

section \<open>Configurations and options\<close>

datatype routing_error = InvalidRouting | UnsafePrivateRoot | UnsafeManifest | ManifestMismatch | InvalidPayer

text \<open>\<open>SHARD_ID\<close>, \<open>/^[a-z0-9](?:[a-z0-9._-]{0,62}[a-z0-9])?$/\<close>.\<close>

definition shard_edge :: "char \<Rightarrow> bool" where
  "shard_edge c \<longleftrightarrow> is_digit c \<or> is_lower c"

definition shard_id :: "string \<Rightarrow> bool" where
  "shard_id s \<longleftrightarrow> s \<noteq> [] \<and> length s \<le> 64 \<and> shard_edge (hd s) \<and> shard_edge (last s)
     \<and> list_all (\<lambda>c. shard_edge c \<or> code c = 46 \<or> code c = 95 \<or> code c = 45) s"

definition as_shard_id :: "jsval \<Rightarrow> string option" where
  "as_shard_id v = satisfying shard_id (string_value v)"

definition exact_shard_ids :: "jsval \<Rightarrow> string list option" where
  "exact_shard_ids v = do {
     elements \<leftarrow> satisfying (\<lambda>vs. length vs = 2) (exact_list 2 v);
     satisfying distinct (all_some (map as_shard_id elements))
   }"

definition routing_kind :: string where
  "routing_kind = ''zenon-fixed-payer-shard-routing''"

definition configuration_fields :: "string list" where
  "configuration_fields = [''schemaVersion'', ''kind'', ''routingVersion'', ''shardIds'']"

text \<open>A configuration is its shard ids; every other member is a constant.\<close>

definition routing_configuration :: "jsval \<Rightarrow> string list option" where
  "routing_configuration v = do {
     r \<leftarrow> exact_fields configuration_fields v;
     _ \<leftarrow> guard (field ''schemaVersion'' r = num 1 \<and> field ''kind'' r = VStr routing_kind
       \<and> field ''routingVersion'' r = num 1);
     exact_shard_ids (field ''shardIds'' r)
   }"

definition configuration_json :: "string list \<Rightarrow> json" where
  "configuration_json ids = JObj [(''schemaVersion'', JNum 1), (''kind'', JStr routing_kind),
     (''routingVersion'', JNum 1), (''shardIds'', JArr (map JStr ids))]"

definition canonical_manifest :: "string list \<Rightarrow> string" where
  "canonical_manifest ids = stringify (configuration_json ids) @ [CHR 0x0A]"

text \<open>\<open>isAbsolute\<close> and \<open>resolve(path) === path\<close>: every component is a proper name.\<close>

fun path_components :: "string \<Rightarrow> string \<Rightarrow> string list" where
  "path_components name [] = [name]"
| "path_components name (c # s) =
     (if c = CHR ''/'' then name # path_components [] s else path_components (name @ [c]) s)"

definition resolved_path :: "string \<Rightarrow> bool" where
  "resolved_path s \<longleftrightarrow> s = ''/'' \<or> (case s of [] \<Rightarrow> False
     | c # rest \<Rightarrow> c = CHR ''/'' \<and> list_all (\<lambda>name. name \<notin> {[], ''.'', ''..''}) (path_components [] rest))"

record routing_options =
  ro_privateRoot :: string
  ro_fingerprint :: string
  ro_expected :: "string list"

definition option_fields :: "string list" where
  "option_fields = [''privateRoot'', ''expectedManifestFingerprint'', ''expectedConfiguration'']"

definition capture_options :: "jsval \<Rightarrow> routing_options option" where
  "capture_options v = do {
     r \<leftarrow> exact_fields option_fields v;
     root \<leftarrow> satisfying (\<lambda>s. utf8_bytes s \<le> 4096 \<and> resolved_path s) (string_value (field ''privateRoot'' r));
     fingerprint \<leftarrow> as_commitment (field ''expectedManifestFingerprint'' r);
     expected \<leftarrow> routing_configuration (field ''expectedConfiguration'' r);
     Some \<lparr>ro_privateRoot = root, ro_fingerprint = fingerprint, ro_expected = expected\<rparr>
   }"

section \<open>Reading the manifest file\<close>

record file_stat =
  fs_dev :: int
  fs_ino :: int
  fs_mode :: int
  fs_nlink :: int
  fs_uid :: int
  fs_gid :: int
  fs_size :: int
  fs_mtimeNs :: int
  fs_ctimeNs :: int
  fs_isDirectory :: bool
  fs_isFile :: bool
  fs_isSymbolicLink :: bool

definition generation :: "file_stat \<Rightarrow> int list" where
  "generation st = [fs_dev st, fs_ino st, fs_mode st, fs_nlink st, fs_uid st, fs_gid st, fs_size st,
     fs_mtimeNs st, fs_ctimeNs st]"

definition unchanged_file :: "file_stat \<Rightarrow> file_stat \<Rightarrow> bool" where
  "unchanged_file a b \<longleftrightarrow> generation a = generation b"

definition safe_root :: "int \<Rightarrow> file_stat \<Rightarrow> bool" where
  "safe_root uid st \<longleftrightarrow> fs_isDirectory st \<and> \<not> fs_isSymbolicLink st \<and> fs_uid st = uid \<and> 1 \<le> fs_nlink st
     \<and> fs_mode st AND 0xfff = 0x1c0"

definition safe_manifest :: "int \<Rightarrow> file_stat \<Rightarrow> bool" where
  "safe_manifest uid st \<longleftrightarrow> fs_isFile st \<and> \<not> fs_isSymbolicLink st \<and> fs_uid st = uid \<and> fs_nlink st = 1
     \<and> fs_mode st AND 0xfff = 0x180 \<and> 1 \<le> fs_size st \<and> fs_size st \<le> 4096"

text \<open>
  \<open>io_read offset length\<close> is what one \<open>readSync\<close> puts into the buffer, \<open>io_uid\<close> what
  \<open>process.getuid\<close> gives (\<^const>\<open>None\<close> where there is no such function), and \<open>io_flags\<close> whether the
  platform has the \<open>open\<close> flags the code asks for.
\<close>

record manifest_io =
  io_flags :: bool
  io_uid :: "jsval option"
  io_rootBefore :: "file_stat option"
  io_rootPath :: "string option"
  io_rootOpen :: bool
  io_rootOpened :: "file_stat option"
  io_before :: "file_stat option"
  io_path :: "string option"
  io_open :: bool
  io_opened :: "file_stat option"
  io_read :: "nat \<Rightarrow> nat \<Rightarrow> bytes option"
  io_after :: "file_stat option"
  io_pathAfter :: "file_stat option"
  io_realpathAfter :: "string option"
  io_rootAfter :: "file_stat option"
  io_rootPathAfter :: "string option"
  io_closeManifest :: bool
  io_closeRoot :: bool

definition manifest_path :: "string \<Rightarrow> string" where
  "manifest_path root = (if root = ''/'' then root else root @ ''/'') @ ''fixed-payer-shards.v1.json''"

definition current_uid :: "jsval option \<Rightarrow> int option" where
  "current_uid v = Option.bind v as_count"

definition open_root :: "manifest_io \<Rightarrow> string \<Rightarrow> (int \<times> file_stat) option" where
  "open_root io root = do {
     _ \<leftarrow> guard (io_flags io);
     uid \<leftarrow> current_uid (io_uid io);
     before \<leftarrow> satisfying (safe_root uid) (io_rootBefore io);
     _ \<leftarrow> guard (io_rootPath io = Some root);
     _ \<leftarrow> guard (io_rootOpen io);
     _ \<leftarrow> satisfying (unchanged_file before) (io_rootOpened io);
     Some (uid, before)
   }"

text \<open>The read loop: up to one byte more than a manifest may have, until a read gives nothing.\<close>

function read_from :: "(nat \<Rightarrow> nat \<Rightarrow> bytes option) \<Rightarrow> nat \<Rightarrow> bytes option" where
  "read_from rd offset = (if 4097 \<le> offset then Some [] else
     (case rd offset (4097 - offset) of
        None \<Rightarrow> None
      | Some [] \<Rightarrow> Some []
      | Some (b # others) \<Rightarrow> map_option (\<lambda>rest. (b # others) @ rest) (read_from rd (offset + length (b # others)))))"
  by pat_completeness auto

termination
  by (relation "measure (\<lambda>(_, offset). 4097 - offset)") auto

declare read_from.simps [simp del]

definition read_content :: "manifest_io \<Rightarrow> string \<Rightarrow> int \<Rightarrow> bytes option" where
  "read_content io root uid = do {
     before \<leftarrow> satisfying (safe_manifest uid) (io_before io);
     _ \<leftarrow> guard (io_path io = Some (manifest_path root));
     _ \<leftarrow> guard (io_open io);
     opened \<leftarrow> satisfying (\<lambda>st. safe_manifest uid st \<and> unchanged_file before st) (io_opened io);
     content \<leftarrow> read_from (io_read io) 0;
     afterwards \<leftarrow> io_after io;
     pathAfter \<leftarrow> io_pathAfter io;
     _ \<leftarrow> guard (int (length content) = fs_size opened \<and> length content \<le> 4096 \<and> safe_manifest uid afterwards
       \<and> unchanged_file opened afterwards \<and> unchanged_file afterwards pathAfter);
     _ \<leftarrow> guard (io_realpathAfter io = Some (manifest_path root));
     Some content
   }"

definition check_root :: "manifest_io \<Rightarrow> string \<Rightarrow> int \<Rightarrow> file_stat \<Rightarrow> unit option" where
  "check_root io root uid before = do {
     _ \<leftarrow> satisfying (\<lambda>st. safe_root uid st \<and> unchanged_file before st) (io_rootAfter io);
     guard (io_rootPathAfter io = Some root)
   }"

definition read_manifest :: "manifest_io \<Rightarrow> string \<Rightarrow> routing_error + bytes" where
  "read_manifest io root =
     also_then (need UnsafePrivateRoot (open_root io root)) (\<lambda>(uid, before).
     also_then (need UnsafeManifest (read_content io root uid)) (\<lambda>content.
     also_then (need UnsafePrivateRoot (check_root io root uid before)) (\<lambda>_.
     also_then (ensure UnsafePrivateRoot (io_closeManifest io \<and> io_closeRoot io)) (\<lambda>_. Inr content))))"

section \<open>The routing\<close>

definition fingerprint_of :: "(bytes \<Rightarrow> bytes) \<Rightarrow> bytes \<Rightarrow> string" where
  "fingerprint_of digest content = ''sha256:'' @ bytes_hex (digest content)"

definition parse_manifest :: "(bytes \<Rightarrow> bytes) \<Rightarrow> (bytes \<Rightarrow> string option) \<Rightarrow> (string \<Rightarrow> jsval option)
    \<Rightarrow> bytes \<Rightarrow> string \<Rightarrow> string list \<Rightarrow> routing_error + string list" where
  "parse_manifest digest decode parse content fingerprint expected =
     also_then (ensure ManifestMismatch (fingerprint_of digest content = fingerprint)) (\<lambda>_.
     also_then (need ManifestMismatch (decode content)) (\<lambda>text.
     also_then (need ManifestMismatch (Option.bind (parse text) routing_configuration)) (\<lambda>parsed.
     also_then (ensure ManifestMismatch (text = canonical_manifest parsed
         \<and> canonical_manifest parsed = canonical_manifest expected)) (\<lambda>_. Inr parsed))))"

definition create_routing :: "(bytes \<Rightarrow> bytes) \<Rightarrow> (bytes \<Rightarrow> string option) \<Rightarrow> (string \<Rightarrow> jsval option)
    \<Rightarrow> manifest_io \<Rightarrow> jsval list \<Rightarrow> routing_error + string list" where
  "create_routing digest decode parse io arguments =
     also_then (need InvalidRouting (case arguments of [v] \<Rightarrow> capture_options v | _ \<Rightarrow> None)) (\<lambda>options.
     also_then (read_manifest io (ro_privateRoot options)) (\<lambda>content.
     parse_manifest digest decode parse content (ro_fingerprint options) (ro_expected options)))"

definition routing_domain :: string where
  "routing_domain = ''zenon-x402-fixed-payer-shard-routing-v1''"

text \<open>The bytes of an ASCII text.\<close>

definition ascii_bytes :: "string \<Rightarrow> bytes" where
  "ascii_bytes s = map (\<lambda>c. of_nat (code c)) s"

definition shard_index :: "(bytes \<Rightarrow> bytes) \<Rightarrow> string \<Rightarrow> nat" where
  "shard_index digest payer = unat (hd (digest (ascii_bytes (routing_domain @ [CHR 0x00] @ payer))) AND 1)"

definition route :: "(bytes \<Rightarrow> bytes) \<Rightarrow> string list \<Rightarrow> jsval list \<Rightarrow> routing_error + string" where
  "route digest ids arguments = (case arguments of
     [v] \<Rightarrow> if \<not> canonical_user_address v then Inl InvalidPayer
       else need InvalidPayer (map_option (\<lambda>payer. ids ! shard_index digest payer) (string_value v))
   | _ \<Rightarrow> Inl InvalidPayer)"

end
