(* ===== verification/Worker_Admission.thy ===== *)
theory Worker_Admission
  imports Captured_Records Programs
begin

text \<open>
  Admission of payers to workers (\<open>zenon/payer-worker-admission.js\<close>): every payer is bound to one
  worker, a worker handles one operation at a time, and a ticket goes from reserved through
  dispatched to completed, or from reserved to released.

  The source keeps objects and compares them by identity. Here a worker is its position in the
  list of workers and an issued ticket the position of its record, and a ticket that a caller
  presents is either an issued one or some other value, which no registry knows.
\<close>

section \<open>Configurations, requests and tickets\<close>

datatype lane = BuyerLane | FacilitatorLane

datatype operation_kind = BuyerPrepare | FacilitatorVerify | FacilitatorSettle | FacilitatorReconcile

datatype admission_error =
    BadConfiguration | BadRequest | OperationReplay | PayerBusy | CapacityExhausted
  | AdmissionLimitReached | BadTicket | BadTransition | WorkerQuarantined

datatype ticket_phase = TicketReserved | TicketDispatched | TicketReleased | TicketCompleted

record ticket =
  tk_lane :: lane
  tk_kind :: operation_kind
  tk_payer :: string
  tk_operationId :: string
  tk_workerId :: string
  tk_sequence :: nat

record ticket_record =
  tr_ticket :: ticket
  tr_worker :: nat
  tr_phase :: ticket_phase

record worker =
  wk_id :: string
  wk_payer :: "string option"
  wk_active :: "nat option"
  wk_quarantined :: bool
  wk_sequence :: nat

record admission =
  ad_lane :: lane
  ad_workers :: "worker list"
  ad_byId :: "string \<rightharpoonup> nat"
  ad_byPayer :: "string \<rightharpoonup> nat"
  ad_records :: "ticket_record list"
  ad_operationIds :: "string list"
  ad_admissions :: int
  ad_maximum :: int

text \<open>\<open>SAFE_ASCII\<close>, \<open>/^[\x21-\x7e]+$/\<close>, up to a maximal length.\<close>

definition safe_ascii :: "nat \<Rightarrow> string \<Rightarrow> bool" where
  "safe_ascii maximum s \<longleftrightarrow> s \<noteq> [] \<and> length s \<le> maximum \<and> list_all (\<lambda>c. 33 \<le> code c \<and> code c \<le> 126) s"

definition as_ascii :: "nat \<Rightarrow> jsval \<Rightarrow> string option" where
  "as_ascii maximum v = satisfying (safe_ascii maximum) (string_value v)"

definition as_lane :: "jsval \<Rightarrow> lane option" where
  "as_lane v = (if v = VStr ''buyer'' then Some BuyerLane
     else if v = VStr ''facilitator'' then Some FacilitatorLane else None)"

fun kind_text :: "operation_kind \<Rightarrow> string" where
  "kind_text BuyerPrepare = ''buyer.prepare''"
| "kind_text FacilitatorVerify = ''facilitator.verify''"
| "kind_text FacilitatorSettle = ''facilitator.settle''"
| "kind_text FacilitatorReconcile = ''facilitator.reconcile-candidate''"

fun valid_kinds :: "lane \<Rightarrow> operation_kind list" where
  "valid_kinds BuyerLane = [BuyerPrepare]"
| "valid_kinds FacilitatorLane = [FacilitatorVerify, FacilitatorSettle, FacilitatorReconcile]"

definition as_kind :: "lane \<Rightarrow> jsval \<Rightarrow> operation_kind option" where
  "as_kind l v = List.find (\<lambda>k. v = VStr (kind_text k)) (valid_kinds l)"

text \<open>\<open>exactRecord\<close> whose last member may be absent, which then reads as \<open>undefined\<close>.\<close>

definition exact_optional :: "string list \<Rightarrow> jsval \<Rightarrow> fields option" where
  "exact_optional names v = (case exact_fields names v of
     Some r \<Rightarrow> Some r | None \<Rightarrow> exact_fields (butlast names) v)"

definition capture_worker_ids :: "jsval \<Rightarrow> string list option" where
  "capture_worker_ids v = do {
     elements \<leftarrow> exact_list 8 v;
     satisfying distinct (all_some (map (as_ascii 64) elements))
   }"

definition as_maximum :: "jsval \<Rightarrow> int option" where
  "as_maximum v = (if v = VUndefined then Some 64
     else satisfying (\<lambda>n. 1 \<le> n \<and> n \<le> 256) (safe_integer v))"

definition new_worker :: "string \<Rightarrow> worker" where
  "new_worker workerId = \<lparr>wk_id = workerId, wk_payer = None, wk_active = None, wk_quarantined = False, wk_sequence = 0\<rparr>"

definition create_admission :: "jsval list \<Rightarrow> admission_error + admission" where
  "create_admission arguments = need BadConfiguration (do {
     options \<leftarrow> (case arguments of [v] \<Rightarrow> Some v | _ \<Rightarrow> None);
     r \<leftarrow> exact_optional [''lane'', ''workerIds'', ''maxAdmissions''] options;
     l \<leftarrow> as_lane (field ''lane'' r);
     ids \<leftarrow> capture_worker_ids (field ''workerIds'' r);
     maximum \<leftarrow> as_maximum (field ''maxAdmissions'' r);
     Some \<lparr>ad_lane = l, ad_workers = map new_worker ids, ad_byId = map_of (zip ids [0..<length ids]),
       ad_byPayer = Map.empty, ad_records = [], ad_operationIds = [], ad_admissions = 0, ad_maximum = maximum\<rparr>
   })"

section \<open>Admitting a payer\<close>

record admission_request =
  ar_payer :: string
  ar_operationId :: string
  ar_kind :: operation_kind

definition as_request :: "lane \<Rightarrow> jsval \<Rightarrow> admission_request option" where
  "as_request l v = do {
     r \<leftarrow> exact_fields [''payer'', ''operationId'', ''kind''] v;
     payer \<leftarrow> as_ascii 128 (field ''payer'' r);
     operationId \<leftarrow> as_ascii 128 (field ''operationId'' r);
     kind \<leftarrow> as_kind l (field ''kind'' r);
     Some \<lparr>ar_payer = payer, ar_operationId = operationId, ar_kind = kind\<rparr>
   }"

text \<open>The first worker without a payer that is not quarantined.\<close>

definition free_worker :: "worker list \<Rightarrow> nat option" where
  "free_worker ws = List.find (\<lambda>w. wk_payer (ws ! w) = None \<and> \<not> wk_quarantined (ws ! w)) [0..<length ws]"

text \<open>Issuing a ticket: its number is the number of tickets issued before.\<close>

definition issue_ticket :: "admission_request \<Rightarrow> nat \<Rightarrow> (admission, admission_error, nat) prog" where
  "issue_ticket rq w s =
     (let worker = ad_workers s ! w; number = length (ad_records s); sequence = wk_sequence worker + 1;
          t = \<lparr>tk_lane = ad_lane s, tk_kind = ar_kind rq, tk_payer = ar_payer rq, tk_operationId = ar_operationId rq,
            tk_workerId = wk_id worker, tk_sequence = sequence\<rparr>;
          unbound = (wk_payer worker = None)
      in (s\<lparr>ad_records := ad_records s @ [\<lparr>tr_ticket = t, tr_worker = w, tr_phase = TicketReserved\<rparr>],
          ad_workers := (ad_workers s)[w := worker\<lparr>
            wk_payer := if unbound then Some (ar_payer rq) else wk_payer worker,
            wk_sequence := sequence, wk_active := Some number\<rparr>],
          ad_byPayer := if unbound then (ad_byPayer s)(ar_payer rq \<mapsto> w) else ad_byPayer s,
          ad_operationIds := ad_operationIds s @ [ar_operationId rq],
          ad_admissions := ad_admissions s + 1\<rparr>, Inr number))"

definition admit_request :: "admission_request \<Rightarrow> (admission, admission_error, nat) prog" where
  "admit_request rq s =
     (if ar_operationId rq \<in> set (ad_operationIds s) then raise OperationReplay s
      else case ad_byPayer s (ar_payer rq) of
        Some w \<Rightarrow>
          if wk_quarantined (ad_workers s ! w) then raise WorkerQuarantined s
          else if wk_active (ad_workers s ! w) \<noteq> None then raise PayerBusy s
          else if ad_maximum s \<le> ad_admissions s then raise AdmissionLimitReached s
          else issue_ticket rq w s
      | None \<Rightarrow>
          if ad_maximum s \<le> ad_admissions s then raise AdmissionLimitReached s
          else case free_worker (ad_workers s) of
            None \<Rightarrow> raise CapacityExhausted s
          | Some w \<Rightarrow> issue_ticket rq w s)"

definition admit :: "jsval list \<Rightarrow> (admission, admission_error, nat) prog" where
  "admit arguments s = (case arguments of
     [v] \<Rightarrow> andthen (demand (as_request (ad_lane s) v) BadRequest) admit_request s
   | _ \<Rightarrow> raise BadRequest s)"

section \<open>Moving a ticket on\<close>

datatype presented = IssuedTicket nat | OtherValue jsval

fun ticket_number :: "presented \<Rightarrow> admission \<Rightarrow> nat option" where
  "ticket_number (IssuedTicket n) s = (if n < length (ad_records s) then Some n else None)"
| "ticket_number (OtherValue v) s = None"

definition move_ticket :: "presented list \<Rightarrow> ticket_phase \<Rightarrow> ticket_phase \<Rightarrow> bool \<Rightarrow> (admission, admission_error, unit) prog" where
  "move_ticket arguments expected target release s =
     (case (case arguments of [p] \<Rightarrow> ticket_number p s | _ \<Rightarrow> None) of
        None \<Rightarrow> raise BadTicket s
      | Some n \<Rightarrow>
          let r = ad_records s ! n; w = tr_worker r; worker = ad_workers s ! w in
          if wk_quarantined worker then raise WorkerQuarantined s
          else if tr_phase r \<noteq> expected \<or> wk_active worker \<noteq> Some n then raise BadTransition s
          else (s\<lparr>ad_records := (ad_records s)[n := r\<lparr>tr_phase := target\<rparr>],
              ad_workers := if release then (ad_workers s)[w := worker\<lparr>wk_active := None\<rparr>] else ad_workers s\<rparr>, Inr ()))"

definition mark_dispatched :: "presented list \<Rightarrow> (admission, admission_error, unit) prog" where
  "mark_dispatched arguments = move_ticket arguments TicketReserved TicketDispatched False"

definition release_undispatched :: "presented list \<Rightarrow> (admission, admission_error, unit) prog" where
  "release_undispatched arguments = move_ticket arguments TicketReserved TicketReleased True"

definition complete_ticket :: "presented list \<Rightarrow> (admission, admission_error, unit) prog" where
  "complete_ticket arguments = move_ticket arguments TicketDispatched TicketCompleted True"

definition quarantine_worker :: "jsval list \<Rightarrow> (admission, admission_error, unit) prog" where
  "quarantine_worker arguments s =
     (case Option.bind (Option.bind (case arguments of [v] \<Rightarrow> Some v | _ \<Rightarrow> None) (as_ascii 64)) (ad_byId s) of
        None \<Rightarrow> raise BadRequest s
      | Some w \<Rightarrow> (s\<lparr>ad_workers := (ad_workers s)[w := (ad_workers s ! w)\<lparr>wk_quarantined := True\<rparr>]\<rparr>, Inr ()))"

section \<open>Sequences of calls\<close>

datatype admission_call =
    Admit "jsval list"
  | MarkDispatched "presented list"
  | ReleaseUndispatched "presented list"
  | CompleteTicket "presented list"
  | QuarantineWorker "jsval list"

fun admission_step :: "admission_call \<Rightarrow> admission \<Rightarrow> admission" where
  "admission_step (Admit arguments) s = fst (admit arguments s)"
| "admission_step (MarkDispatched arguments) s = fst (mark_dispatched arguments s)"
| "admission_step (ReleaseUndispatched arguments) s = fst (release_undispatched arguments s)"
| "admission_step (CompleteTicket arguments) s = fst (complete_ticket arguments s)"
| "admission_step (QuarantineWorker arguments) s = fst (quarantine_worker arguments s)"

end
