(* ===== verification/Worker_Invariant.thy ===== *)
theory Worker_Invariant
  imports Worker_Admission
begin

text \<open>
  What holds in every state of an admission, and how a state may change: tickets are only added,
  bindings never change, and a quarantined worker's tickets stay as they are. Every call is shown
  to keep the first and to respect the second, so the locale \<open>ordered_machine\<close> gives both for all
  sequences of calls.
\<close>

section \<open>The invariant\<close>

definition open_ticket :: "ticket_record \<Rightarrow> bool" where
  "open_ticket r \<longleftrightarrow> tr_phase r = TicketReserved \<or> tr_phase r = TicketDispatched"

definition worker_tickets :: "admission \<Rightarrow> nat \<Rightarrow> ticket_record list" where
  "worker_tickets s w = filter (\<lambda>r. tr_worker r = w) (ad_records s)"

definition ids_ok :: "admission \<Rightarrow> bool" where
  "ids_ok s \<longleftrightarrow> distinct (map wk_id (ad_workers s))
     \<and> ad_byId s = map_of (zip (map wk_id (ad_workers s)) [0..<length (ad_workers s)])"

definition payers_ok :: "admission \<Rightarrow> bool" where
  "payers_ok s \<longleftrightarrow> (\<forall>p w. ad_byPayer s p = Some w
     \<longleftrightarrow> w < length (ad_workers s) \<and> wk_payer (ad_workers s ! w) = Some p)"

definition tickets_ok :: "admission \<Rightarrow> bool" where
  "tickets_ok s \<longleftrightarrow> (\<forall>r \<in> set (ad_records s). tr_worker r < length (ad_workers s)
     \<and> wk_payer (ad_workers s ! tr_worker r) = Some (tk_payer (tr_ticket r))
     \<and> tk_workerId (tr_ticket r) = wk_id (ad_workers s ! tr_worker r))"

definition active_ok :: "admission \<Rightarrow> bool" where
  "active_ok s \<longleftrightarrow> (\<forall>w < length (ad_workers s). \<forall>n. wk_active (ad_workers s ! w) = Some n
     \<longleftrightarrow> n < length (ad_records s) \<and> tr_worker (ad_records s ! n) = w \<and> open_ticket (ad_records s ! n))"

definition operations_ok :: "admission \<Rightarrow> bool" where
  "operations_ok s \<longleftrightarrow> map (\<lambda>r. tk_operationId (tr_ticket r)) (ad_records s) = ad_operationIds s
     \<and> distinct (ad_operationIds s)"

definition count_ok :: "admission \<Rightarrow> bool" where
  "count_ok s \<longleftrightarrow> ad_admissions s = int (length (ad_records s)) \<and> ad_admissions s \<le> ad_maximum s
     \<and> ad_maximum s \<le> 256"

definition sequences_ok :: "admission \<Rightarrow> bool" where
  "sequences_ok s \<longleftrightarrow> (\<forall>w < length (ad_workers s).
     map (\<lambda>r. tk_sequence (tr_ticket r)) (worker_tickets s w) = [1..<Suc (wk_sequence (ad_workers s ! w))])"

definition admission_ok :: "admission \<Rightarrow> bool" where
  "admission_ok s \<longleftrightarrow> ids_ok s \<and> payers_ok s \<and> tickets_ok s \<and> active_ok s \<and> operations_ok s \<and> count_ok s \<and> sequences_ok s"

lemmas admission_parts = ids_ok_def payers_ok_def tickets_ok_def active_ok_def operations_ok_def count_ok_def sequences_ok_def

lemma create_ok:
  assumes "create_admission arguments = Inr s" shows "admission_ok s"
proof -
  obtain l ids maximum where ids: "distinct ids" and maximum: "1 \<le> maximum" "maximum \<le> 256"
    and s: "s = \<lparr>ad_lane = l, ad_workers = map new_worker ids, ad_byId = map_of (zip ids [0..<length ids]),
       ad_byPayer = Map.empty, ad_records = [], ad_operationIds = [], ad_admissions = 0, ad_maximum = maximum\<rparr>"
    using assms
    by (fastforce simp: create_admission_def bind_eq_Some_conv capture_worker_ids_def as_maximum_def satisfying_eq_Some
        split: if_splits)
  have "map wk_id (map new_worker ids) = ids"
    by (simp add: new_worker_def comp_def)
  then show ?thesis
    using ids maximum unfolding admission_ok_def admission_parts worker_tickets_def s
    by (simp add: new_worker_def)
qed

section \<open>How a state may change\<close>

definition admission_leq :: "admission \<Rightarrow> admission \<Rightarrow> bool" where
  "admission_leq s t \<longleftrightarrow> ad_lane t = ad_lane s \<and> ad_maximum t = ad_maximum s
     \<and> map wk_id (ad_workers t) = map wk_id (ad_workers s) \<and> ad_byId t = ad_byId s
     \<and> (\<exists>more. map tr_ticket (ad_records t) = map tr_ticket (ad_records s) @ more)
     \<and> (\<forall>p w. ad_byPayer s p = Some w \<longrightarrow> ad_byPayer t p = Some w)
     \<and> (\<forall>w < length (ad_workers s). wk_quarantined (ad_workers s ! w) \<longrightarrow>
          wk_quarantined (ad_workers t ! w) \<and> worker_tickets t w = worker_tickets s w)"

lemma admission_leq_refl: "admission_leq s s"
  by (simp add: admission_leq_def)

lemma admission_leq_trans: "admission_leq s t \<Longrightarrow> admission_leq t u \<Longrightarrow> admission_leq s u"
  unfolding admission_leq_def by (clarsimp dest!: map_eq_imp_length_eq) 

section \<open>Issuing\<close>

lemma free_worker_Some:
  "free_worker ws = Some w \<Longrightarrow> w < length ws \<and> wk_payer (ws ! w) = None \<and> \<not> wk_quarantined (ws ! w)"
  by (auto simp: free_worker_def find_Some_iff)

text \<open>The conditions under which \<open>admit\<close> issues a ticket.\<close>

definition may_issue :: "admission_request \<Rightarrow> nat \<Rightarrow> admission \<Rightarrow> bool" where
  "may_issue rq w s \<longleftrightarrow> ar_operationId rq \<notin> set (ad_operationIds s) \<and> w < length (ad_workers s)
     \<and> ad_admissions s < ad_maximum s \<and> \<not> wk_quarantined (ad_workers s ! w) \<and> wk_active (ad_workers s ! w) = None
     \<and> (ad_byPayer s (ar_payer rq) = Some w
        \<or> ad_byPayer s (ar_payer rq) = None \<and> wk_payer (ad_workers s ! w) = None)"

lemma unbound_idle:
  assumes "admission_ok s" "w < length (ad_workers s)" "wk_payer (ad_workers s ! w) = None"
  shows "wk_active (ad_workers s ! w) = None" and "worker_tickets s w = []"
proof -
  have none: "tr_worker r \<noteq> w" if "r \<in> set (ad_records s)" for r
    using assms that by (auto simp: admission_ok_def tickets_ok_def)
  show "wk_active (ad_workers s ! w) = None"
  proof (rule ccontr)
    assume "\<not> ?thesis"
    then obtain n where "wk_active (ad_workers s ! w) = Some n" by blast
    then have "n < length (ad_records s)" "tr_worker (ad_records s ! n) = w"
      using assms(1,2) by (auto simp: admission_ok_def active_ok_def)
    then show False using none [of "ad_records s ! n"] by simp
  qed
  show "worker_tickets s w = []" using none by (auto simp: worker_tickets_def filter_empty_conv)
qed

lemma admit_request_cases:
  assumes "admission_ok s"
  shows "(\<exists>e. admit_request rq s = (s, Inl e)) \<or> (\<exists>w. admit_request rq s = issue_ticket rq w s \<and> may_issue rq w s)"
proof (cases "ad_byPayer s (ar_payer rq)")
  case unbound: None
  show ?thesis
  proof (cases "free_worker (ad_workers s)")
    case None
    then show ?thesis using unbound by (simp add: admit_request_def raise_def)
  next
    case (Some w)
    note free = free_worker_Some [OF Some]
    then have "wk_active (ad_workers s ! w) = None" using unbound_idle(1) [OF assms] by blast
    then show ?thesis using unbound Some free by (auto simp: admit_request_def raise_def may_issue_def)
  qed
next
  case (Some w)
  then have "w < length (ad_workers s)" using assms by (simp add: admission_ok_def payers_ok_def)
  then show ?thesis using Some by (auto simp: admit_request_def raise_def may_issue_def)
qed

lemma admit_cases:
  assumes "admission_ok s"
  shows "(\<exists>e. admit arguments s = (s, Inl e)) \<or> (\<exists>rq w. admit arguments s = issue_ticket rq w s \<and> may_issue rq w s)"
  using admit_request_cases [OF assms]
  by (auto simp: admit_def raise_def andthen_def demand_def split: list.splits option.splits)

lemma issue_ok:
  assumes s: "admission_ok s" and "may_issue rq w s"
  shows "admission_ok (fst (issue_ticket rq w s))" and "admission_leq s (fst (issue_ticket rq w s))"
proof -
  define t where "t = fst (issue_ticket rq w s)"
  define old where "old = ad_workers s ! w"
  define new where "new = old\<lparr>wk_payer := Some (ar_payer rq), wk_sequence := wk_sequence old + 1,
    wk_active := Some (length (ad_records s))\<rparr>"
  define r where "r = \<lparr>tr_ticket = \<lparr>tk_lane = ad_lane s, tk_kind = ar_kind rq, tk_payer = ar_payer rq,
    tk_operationId = ar_operationId rq, tk_workerId = wk_id old, tk_sequence = wk_sequence old + 1\<rparr>,
    tr_worker = w, tr_phase = TicketReserved\<rparr>"
  note may = assms(2) [unfolded may_issue_def]
  note parts = s [unfolded admission_ok_def]
  have w: "w < length (ad_workers s)" using may by blast
  have payer: "wk_payer old = None \<or> wk_payer old = Some (ar_payer rq)"
    using may parts unfolding payers_ok_def old_def by blast
  have none: "ad_byPayer s (ar_payer rq) = None" if "wk_payer old = None"
    using may that parts unfolding payers_ok_def old_def by force
  have t: "ad_records t = ad_records s @ [r]" "ad_workers t = (ad_workers s)[w := new]"
      "ad_byPayer t = (ad_byPayer s)(ar_payer rq \<mapsto> w)" "ad_operationIds t = ad_operationIds s @ [ar_operationId rq]"
      "ad_admissions t = ad_admissions s + 1" "ad_byId t = ad_byId s" "ad_maximum t = ad_maximum s" "ad_lane t = ad_lane s"
  proof -
    have bound: "(if wk_payer old = None then Some (ar_payer rq) else wk_payer old) = Some (ar_payer rq)"
      using payer by auto
    show "ad_workers t = (ad_workers s)[w := new]"
      unfolding t_def issue_ticket_def Let_def old_def [symmetric] bound new_def by simp
  qed (use payer may in \<open>auto simp: t_def issue_ticket_def Let_def r_def old_def\<close>)
  have ids: "map wk_id (ad_workers t) = map wk_id (ad_workers s)" "length (ad_workers t) = length (ad_workers s)"
    by (simp_all add: t map_update new_def old_def) (metis list_update_id map_update)
  have at: "ad_workers t ! v = (if v = w then new else ad_workers s ! v)" if "v < length (ad_workers s)" for v
    using that by (simp add: t)
  have mine: "worker_tickets t v = worker_tickets s v @ (if v = w then [r] else [])" for v
    by (simp add: worker_tickets_def t r_def)
  have "ids_ok t" using parts ids by (simp add: ids_ok_def t(6))
  moreover have "payers_ok t"
    unfolding payers_ok_def
  proof (intro allI)
    fix p v
    have before: "ad_byPayer s q = Some u \<longleftrightarrow> u < length (ad_workers s) \<and> wk_payer (ad_workers s ! u) = Some q" for q u
      using parts unfolding payers_ok_def by blast
    show "ad_byPayer t p = Some v \<longleftrightarrow> v < length (ad_workers t) \<and> wk_payer (ad_workers t ! v) = Some p"
    proof (cases "v < length (ad_workers s) \<and> v \<noteq> w")
      case True
      have "wk_payer (ad_workers s ! v) = Some (ar_payer rq) \<Longrightarrow> ad_byPayer s (ar_payer rq) = Some v"
        using True before by blast
      then show ?thesis using True before [of p v] may by (auto simp: ids(2) t(3) at)
    next
      case False
      then show ?thesis using before [of p v] w payer none by (auto simp: ids(2) t(3) at new_def old_def)
    qed
  qed
  moreover have "tickets_ok t"
    using parts payer w unfolding tickets_ok_def ids(2) t(1)
    by (auto simp: at r_def new_def old_def)
  moreover have "active_ok t"
  proof -
    have "open_ticket r" by (simp add: r_def open_ticket_def)
    moreover have "\<not> (n < length (ad_records s) \<and> tr_worker (ad_records s ! n) = w \<and> open_ticket (ad_records s ! n))" for n
      using parts may w unfolding active_ok_def by fastforce
    ultimately show ?thesis
      using parts w unfolding active_ok_def ids(2) t(1)
      by (auto simp: at new_def nth_append r_def less_Suc_eq)
  qed
  moreover have "operations_ok t"
    using parts may by (simp add: operations_ok_def t r_def)
  moreover have "count_ok t"
    using parts may by (simp add: count_ok_def t)
  moreover have "sequences_ok t"
    using parts unfolding sequences_ok_def ids(2) by (auto simp: mine at new_def r_def old_def)
  ultimately show "admission_ok (fst (issue_ticket rq w s))"
    unfolding t_def [symmetric] admission_ok_def by blast
  have "ad_byPayer t p = Some v" if "ad_byPayer s p = Some v" for p v
    using that may unfolding t(3) by auto
  then show "admission_leq s (fst (issue_ticket rq w s))"
    unfolding t_def [symmetric] admission_leq_def using ids may by (auto simp: t(1,6,7,8) mine at old_def)
qed

section \<open>Moving a ticket and quarantining a worker\<close>

lemma filter_update: "n < length xs \<Longrightarrow> \<not> P (xs ! n) \<Longrightarrow> \<not> P y \<Longrightarrow> filter P (xs[n := y]) = filter P xs"
  by (induction xs arbitrary: n) (auto split: nat.splits simp: less_Suc_eq_0_disj)

lemma same_tickets:
  assumes "map tr_ticket xs = map tr_ticket ys" and "map tr_worker xs = map tr_worker ys"
  shows "map (\<lambda>r. tk_sequence (tr_ticket r)) (filter (\<lambda>r. tr_worker r = w) xs)
    = map (\<lambda>r. tk_sequence (tr_ticket r)) (filter (\<lambda>r. tr_worker r = w) ys)"
  using assms
proof (induction xs arbitrary: ys)
  case (Cons x xs)
  then obtain y zs where "ys = y # zs" by (cases ys) auto
  with Cons show ?case by auto
qed simp

lemma move_ok:
  assumes s: "admission_ok s" and release: "release = (target = TicketReleased \<or> target = TicketCompleted)"
    and expected: "expected = TicketReserved \<or> expected = TicketDispatched"
  shows "admission_ok (fst (move_ticket arguments expected target release s))"
    and "admission_leq s (fst (move_ticket arguments expected target release s))"
proof -
  define t where "t = fst (move_ticket arguments expected target release s)"
  have "admission_ok t \<and> admission_leq s t"
  proof (cases "t = s")
    case False
    then obtain n where n: "n < length (ad_records s)" and
      moved: "t = fst (let r = ad_records s ! n; w = tr_worker r; worker = ad_workers s ! w in
          if wk_quarantined worker then raise WorkerQuarantined s
          else if tr_phase r \<noteq> expected \<or> wk_active worker \<noteq> Some n then raise BadTransition s
          else (s\<lparr>ad_records := (ad_records s)[n := r\<lparr>tr_phase := target\<rparr>],
              ad_workers := if release then (ad_workers s)[w := worker\<lparr>wk_active := None\<rparr>] else ad_workers s\<rparr>, Inr ()))"
      unfolding t_def move_ticket_def
      by (auto simp: raise_def split: list.splits option.splits presented.splits if_splits elim!: ticket_number.elims)
    define r where "r = ad_records s ! n"
    define w where "w = tr_worker r"
    define old where "old = ad_workers s ! w"
    define new where "new = (if release then old\<lparr>wk_active := None\<rparr> else old)"
    note parts = s [unfolded admission_ok_def]
    have w: "w < length (ad_workers s)"
      using parts n by (simp add: tickets_ok_def r_def w_def)
    have facts: "\<not> wk_quarantined old" "tr_phase r = expected" "wk_active old = Some n"
      and t: "ad_records t = (ad_records s)[n := r\<lparr>tr_phase := target\<rparr>]" "ad_workers t = (ad_workers s)[w := new]"
        "ad_byPayer t = ad_byPayer s" "ad_operationIds t = ad_operationIds s" "ad_admissions t = ad_admissions s"
        "ad_byId t = ad_byId s" "ad_maximum t = ad_maximum s" "ad_lane t = ad_lane s"
      using moved False
      by (auto simp: Let_def raise_def r_def w_def old_def new_def split: if_splits)
    have ids: "map wk_id (ad_workers t) = map wk_id (ad_workers s)" "length (ad_workers t) = length (ad_workers s)"
      by (simp_all add: t map_update new_def old_def) (metis list_update_id map_update)+
    have at: "ad_workers t ! v = (if v = w then new else ad_workers s ! v)" if "v < length (ad_workers s)" for v
      using that by (simp add: t)
    have new: "wk_payer new = wk_payer old" "wk_quarantined new = wk_quarantined old" "wk_sequence new = wk_sequence old"
        "wk_id new = wk_id old" "wk_active new = (if release then None else Some n)"
      using facts by (simp_all add: new_def)
    have tickets: "map tr_ticket (ad_records t) = map tr_ticket (ad_records s)" "map tr_worker (ad_records t) = map tr_worker (ad_records s)"
      using n by (simp_all add: t map_update r_def list_update_same_conv)
    have other: "worker_tickets t v = worker_tickets s v" if "v \<noteq> w" for v
      unfolding worker_tickets_def t(1) by (rule filter_update) (use that n in \<open>simp_all add: w_def r_def\<close>)
    have texts: "map (\<lambda>r. f (tr_ticket r)) (ad_records t) = map (\<lambda>r. f (tr_ticket r)) (ad_records s)" for f
      using arg_cong [OF tickets(1), of "map f"] by (simp add: comp_def)
    have "ids_ok t" using parts ids by (simp add: ids_ok_def t(6))
    moreover have "payers_ok t"
    proof -
      have "wk_payer (ad_workers t ! v) = wk_payer (ad_workers s ! v)" if "v < length (ad_workers s)" for v
        using that by (simp add: at new old_def)
      then show ?thesis using parts unfolding payers_ok_def ids(2) t(3) by auto
    qed
    moreover have "tickets_ok t"
      using parts w n unfolding tickets_ok_def ids(2) t(1)
      by (auto simp: at new old_def r_def dest!: set_update_subset_insert [THEN subsetD])
    moreover have "active_ok t"
      unfolding active_ok_def ids(2)
    proof (intro allI impI)
      fix v m assume v: "v < length (ad_workers s)"
      have before: "wk_active (ad_workers s ! v) = Some k
          \<longleftrightarrow> k < length (ad_records s) \<and> tr_worker (ad_records s ! k) = v \<and> open_ticket (ad_records s ! k)" for k
        using parts v unfolding active_ok_def by blast
      show "wk_active (ad_workers t ! v) = Some m
          \<longleftrightarrow> m < length (ad_records t) \<and> tr_worker (ad_records t ! m) = v \<and> open_ticket (ad_records t ! m)"
      proof (cases "v = w")
        case False
        then show ?thesis using before [of m] v n by (cases "m = n") (auto simp: at t(1) w_def r_def)
      next
        case True
        have "open_ticket (r\<lparr>tr_phase := target\<rparr>) \<longleftrightarrow> \<not> release"
          unfolding release by (cases target) (simp_all add: open_ticket_def)
        then show ?thesis using before [of m] True v n facts(3)
          by (cases "m = n") (auto simp: at new t(1) w_def r_def old_def)
      qed
    qed
    moreover have "operations_ok t"
      using parts unfolding operations_ok_def t(4) texts by blast
    moreover have "count_ok t"
      using parts by (simp add: count_ok_def t)
    moreover have "sequences_ok t"
      using parts unfolding sequences_ok_def ids(2) worker_tickets_def
      by (auto simp: at new old_def same_tickets [OF tickets])
    ultimately have "admission_ok t" unfolding admission_ok_def by blast
    moreover have "admission_leq s t"
      unfolding admission_leq_def using ids tickets(1) facts(1) other by (auto simp: t(3,6,7,8) at old_def)
    ultimately show ?thesis by blast
  qed (simp add: s admission_leq_refl)
  then show "admission_ok (fst (move_ticket arguments expected target release s))"
    and "admission_leq s (fst (move_ticket arguments expected target release s))"
    by (simp_all add: t_def)
qed

lemma quarantine_ok:
  assumes s: "admission_ok s"
  shows "admission_ok (fst (quarantine_worker arguments s))" and "admission_leq s (fst (quarantine_worker arguments s))"
proof -
  define t where "t = fst (quarantine_worker arguments s)"
  have "admission_ok t \<and> admission_leq s t"
  proof (cases "t = s")
    case False
    then obtain w where t: "t = s\<lparr>ad_workers := (ad_workers s)[w := (ad_workers s ! w)\<lparr>wk_quarantined := True\<rparr>]\<rparr>"
      by (auto simp: t_def quarantine_worker_def raise_def split: option.splits)
    note parts = s [unfolded admission_ok_def]
    have at: "wk_id (ad_workers t ! v) = wk_id (ad_workers s ! v)" "wk_payer (ad_workers t ! v) = wk_payer (ad_workers s ! v)"
        "wk_active (ad_workers t ! v) = wk_active (ad_workers s ! v)" "wk_sequence (ad_workers t ! v) = wk_sequence (ad_workers s ! v)"
        "wk_quarantined (ad_workers s ! v) \<Longrightarrow> wk_quarantined (ad_workers t ! v)" if "v < length (ad_workers s)" for v
      using that by (cases "v = w"; simp add: t)+
    have ids: "map wk_id (ad_workers t) = map wk_id (ad_workers s)" "length (ad_workers t) = length (ad_workers s)"
      by (simp_all add: t map_update) (metis list_update_id map_update)
    have rest: "ad_records t = ad_records s" "ad_byPayer t = ad_byPayer s" "ad_operationIds t = ad_operationIds s"
        "ad_admissions t = ad_admissions s" "ad_byId t = ad_byId s" "ad_maximum t = ad_maximum s" "ad_lane t = ad_lane s"
      by (simp_all add: t)
    have "admission_ok t"
      using parts unfolding admission_ok_def admission_parts worker_tickets_def rest ids
      by (simp add: at cong: conj_cong)
    moreover have "admission_leq s t"
      unfolding admission_leq_def worker_tickets_def rest ids by (simp add: at)
    ultimately show ?thesis by blast
  qed (simp add: s admission_leq_refl)
  then show "admission_ok (fst (quarantine_worker arguments s))" and "admission_leq s (fst (quarantine_worker arguments s))"
    by (simp_all add: t_def)
qed

section \<open>Sequences of calls\<close>

lemma admit_ok: "admission_ok s \<Longrightarrow> admission_ok (fst (admit arguments s)) \<and> admission_leq s (fst (admit arguments s))"
  using admit_cases [of s arguments] issue_ok [of s] by (auto simp: admission_leq_refl)

lemma step_ok:
  assumes "admission_ok s" shows "admission_ok (admission_step x s) \<and> admission_leq s (admission_step x s)"
proof (cases x)
  case (Admit arguments)
  then show ?thesis using admit_ok [OF assms] by simp
next
  case (MarkDispatched arguments)
  then show ?thesis using move_ok [OF assms, of False TicketDispatched TicketReserved arguments]
    by (simp add: mark_dispatched_def)
next
  case (ReleaseUndispatched arguments)
  then show ?thesis using move_ok [OF assms, of True TicketReleased TicketReserved arguments]
    by (simp add: release_undispatched_def)
next
  case (CompleteTicket arguments)
  then show ?thesis using move_ok [OF assms, of True TicketCompleted TicketDispatched arguments]
    by (simp add: complete_ticket_def)
next
  case (QuarantineWorker arguments)
  then show ?thesis using quarantine_ok [OF assms] by simp
qed

interpretation admission: ordered_machine admission_step admission_ok admission_leq
  by unfold_locales (use step_ok admission_leq_refl admission_leq_trans in blast)+

lemma created_run_ok: "create_admission arguments = Inr s \<Longrightarrow> admission_ok (run admission_step calls s)"
  by (rule admission.run_inv) (rule create_ok)

end
