(* ===== verification/Payer_Properties.thy ===== *)
theory Payer_Properties
  imports Payer_Routing Worker_Invariant
begin

text \<open>
  The properties of the parts that keep payers apart: addresses and their checksum, the fixed
  routing of an address to a shard, and the admission of payers to workers. Each stands with a
  concrete case in which its assumptions hold.
\<close>

unbundle bit_operations_syntax

section \<open>Addresses\<close>

lemma address_number: "n < 2 ^ 160 \<Longrightarrow> m < 2 ^ 160 \<Longrightarrow> address_text n = address_text m \<Longrightarrow> n = m"
proof -
  assume bounds: "n < 2 ^ 160" "m < 2 ^ 160" and same: "address_text n = address_text m"
  have digits: "\<forall>d \<in> set (digits 32 32 k). d < 32" for k by (auto intro: digits_bound)
  have "map (\<lambda>d. bech32 ! d) (digits 32 32 n) = map (\<lambda>d. bech32 ! d) (digits 32 32 m)"
    using same by (simp add: address_text_def Let_def)
  moreover have "inj_on (\<lambda>d. bech32 ! d) {..<32}"
    by (simp add: inj_on_nth bech32_facts)
  ultimately have "digits 32 32 n = digits 32 32 m"
    using digits by (subst (asm) inj_on_map_eq_map) (auto intro: inj_on_subset)
  then have "undigits 32 (digits 32 32 n) = undigits 32 (digits 32 32 m)" by simp
  then show "n = m" using bounds by (simp add: undigits_digits)
qed

text \<open>C30: A payer is accepted exactly when it is the address of a 20-byte number that is not zero and whose first byte is
  zero: a text is the address of at most one number, and every such number has its one address.\<close>

theorem canonical_addresses:
  "canonical_user_address v \<longleftrightarrow> (\<exists>!n. 0 < n \<and> n < 2 ^ 152 \<and> v = VStr (address_text n))"
proof -
  have unique: "n = m" if "n < 2 ^ 152" "m < 2 ^ 152" "address_text n = address_text m" for n m
    using that by (intro address_number) simp_all
  have "canonical_user_address v \<longleftrightarrow> (\<exists>n. 0 < n \<and> n < 2 ^ 152 \<and> v = VStr (address_text n))"
    by (cases v) (auto simp: canonical_user_address_def user_address_iff)
  also have "\<dots> \<longleftrightarrow> (\<exists>!n. 0 < n \<and> n < 2 ^ 152 \<and> v = VStr (address_text n))"
    using unique by (intro iffI; elim exE ex1E) (blast intro: ex1I)+
  finally show ?thesis .
qed

lemma equal_digits:
  assumes "map (\<lambda>d. bech32 ! d) ds = map (\<lambda>d. bech32 ! d) es" and "\<forall>d \<in> set ds \<union> set es. d < 32"
  shows "ds = es"
proof -
  have "inj_on (\<lambda>d. bech32 ! d) {..<32}"
    by (simp add: inj_on_nth bech32_facts)
  then have "inj_on (\<lambda>d. bech32 ! d) (set ds \<union> set es)"
    by (rule inj_on_subset) (use assms(2) in auto)
  then show ?thesis using assms(1) by (simp add: inj_on_map_eq_map)
qed

lemma address_garbled:
  assumes "user_address (p @ x @ q)" and "user_address (p @ y @ q)" and "length x = length y" and "length x \<le> 6"
  shows "x = y"
proof -
  define u v w z where "u = drop 2 p" and "v = drop (2 - length p) x" and "w = drop (2 - length p) y"
    and "z = drop (2 - length p - length x) q"
  have parts: "drop 2 (p @ x @ q) = u @ v @ z" "drop 2 (p @ y @ q) = u @ w @ z"
    using assms(3) by (simp_all add: u_def v_def w_def z_def)
  obtain ws ws' where words: "address_words (u @ v @ z) = Some ws" "address_words (u @ w @ z) = Some ws'"
      "polymod prefix_checksum ws = 1" "polymod prefix_checksum ws' = 1"
    using assms(1,2) unfolding user_address_def parts by (auto split: option.splits)
  obtain ds where ds: "u @ v @ z = map (\<lambda>d. bech32 ! d) ds" "ws = digit_words ds" "\<forall>d \<in> set ds. d < 32"
    using words(1) by (rule address_words_Some)
  obtain es where es: "u @ w @ z = map (\<lambda>d. bech32 ! d) es" "ws' = digit_words es" "\<forall>d \<in> set es. d < 32"
    using words(2) by (rule address_words_Some)
  obtain a b c where abc: "ds = a @ b @ c" "u = map (\<lambda>d. bech32 ! d) a" "v = map (\<lambda>d. bech32 ! d) b" "z = map (\<lambda>d. bech32 ! d) c"
    using ds(1) by (auto simp: append_eq_map_conv)
  obtain a' b' c' where abc': "es = a' @ b' @ c'" "u = map (\<lambda>d. bech32 ! d) a'" "w = map (\<lambda>d. bech32 ! d) b'" "z = map (\<lambda>d. bech32 ! d) c'"
    using es(1) by (auto simp: append_eq_map_conv)
  have "a = a'" "c = c'"
    by (rule equal_digits; use abc abc' ds(3) es(3) in auto)+
  then have checks: "polymod prefix_checksum (digit_words (a @ b @ c)) = polymod prefix_checksum (digit_words (a @ b' @ c))"
    using words(3,4) unfolding ds(2) es(2) abc(1) abc'(1) by metis
  have "length b = length v" and "length b' = length w" using abc abc' by simp_all
  then have "b = b'"
    using assms(3,4) ds(3) es(3) abc(1) abc'(1)
    by (intro burst_detected [OF checks]) (auto simp: v_def w_def)
  then have "drop 2 (p @ x @ q) = drop 2 (p @ y @ q)" unfolding parts abc(3) abc'(3) by simp
  moreover have "take 2 s = ''z1''" if "user_address s" for s
    using that by (cases s; cases "tl s") (auto simp: user_address_def)
  then have "take 2 (p @ x @ q) = ''z1''" and "take 2 (p @ y @ q) = ''z1''" using assms(1,2) by blast+
  ultimately have "p @ x @ q = p @ y @ q" by (metis append_take_drop_id)
  then show ?thesis by simp
qed

text \<open>C31: No change of an accepted address within six consecutive characters gives another accepted address; in particular a
  mistyped character or two exchanged neighbours are always noticed.\<close>

theorem garbled_address_rejected:
  assumes "canonical_user_address (VStr (p @ x @ q))" and "length y = length x" and "length x \<le> 6" and "y \<noteq> x"
  shows "\<not> canonical_user_address (VStr (p @ y @ q))"
  using address_garbled [of p x q y] assms by (auto simp: canonical_user_address_def)

definition demo_payer :: string where
  "demo_payer = ''z1qqqqqqqqqqqqqqqqqqqqqqqqqqqqqqqpd7uehm''"

lemma demo_payer_ok: "canonical_user_address (VStr demo_payer)"
  by code_simp

theorem garbled_address_rejected_witness:
  "\<not> canonical_user_address (VStr ''z1qqqqqqqqqqqqqqqqqqqqqqqqqqqqqqqpd7uehl'')"
proof -
  have "\<not> canonical_user_address (VStr (take 39 demo_payer @ ''l'' @ []))"
    by (rule garbled_address_rejected [of _ "drop 39 demo_payer"]) (use demo_payer_ok in \<open>simp_all add: demo_payer_def\<close>)
  then show ?thesis by (simp add: demo_payer_def)
qed

section \<open>Routing\<close>

lemma routing_parts:
  assumes "create_routing digest decode parse io arguments = Inr ids"
  obtains v options content where "arguments = [v]" "capture_options v = Some options"
    "read_manifest io (ro_privateRoot options) = Inr content"
    "parse_manifest digest decode parse content (ro_fingerprint options) (ro_expected options) = Inr ids"
  using assms by (auto simp: create_routing_def also_then_Inr split: list.splits)

lemma parsed_manifest:
  assumes "parse_manifest digest decode parse content fingerprint expected = Inr ids"
  shows "fingerprint_of digest content = fingerprint" and "decode content = Some (canonical_manifest ids)" and "ids = expected"
proof -
  have "canonical_manifest ids = canonical_manifest expected" "decode content = Some (canonical_manifest ids)"
      "fingerprint_of digest content = fingerprint"
    using assms by (auto simp: parse_manifest_def also_then_Inr)
  then show "fingerprint_of digest content = fingerprint" and "decode content = Some (canonical_manifest ids)"
    and "ids = expected"
    by (simp_all only: canonical_manifest_def append_same_eq stringify_inject)
      (simp add: configuration_json_def inj_map_eq_map inj_def)
qed

lemma two_shards:
  assumes "exact_shard_ids v = Some ids" shows "length ids = 2 \<and> distinct ids"
proof -
  obtain elements where two: "length elements = 2" and found: "map as_shard_id elements = map Some ids" and "distinct ids"
    using assms by (auto simp: exact_shard_ids_def bind_eq_Some_conv satisfying_eq_Some all_some_eq_Some)
  have "length elements = length ids" using arg_cong [OF found, of length] by simp
  then show ?thesis using two \<open>distinct ids\<close> by simp
qed

lemma expected_shards: "capture_options v = Some options \<Longrightarrow> length (ro_expected options) = 2 \<and> distinct (ro_expected options)"
  unfolding capture_options_def routing_configuration_def by (auto simp: bind_eq_Some_conv dest!: two_shards)

lemma manifest_read:
  assumes "read_manifest io root = Inr content"
  obtains uid st afterwards where "current_uid (io_uid io) = Some uid" "io_opened io = Some st" "safe_manifest uid st"
    "read_from (io_read io) 0 = Some content" "int (length content) = fs_size st"
    "io_after io = Some afterwards" "unchanged_file st afterwards"
  using assms
  by (auto simp: read_manifest_def also_then_Inr open_root_def read_content_def bind_eq_Some_conv satisfying_eq_Some)

lemma shard_index_less: "shard_index digest payer < 2"
proof -
  have "hd (digest (ascii_bytes (routing_domain @ [CHR 0x00] @ payer))) AND 1 = take_bit 1 (hd (digest (ascii_bytes (routing_domain @ [CHR 0x00] @ payer))))"
    by (simp add: take_bit_eq_mask)
  then show ?thesis
    unfolding shard_index_def by (simp only: unsigned_take_bit_eq) (simp add: take_bit_eq_mod)
qed

text \<open>C32: A routing that opens has read a regular file that only its owner can read and write, that stayed as it was
  while it was read, and whose bytes decode to exactly the manifest of the expected configuration with the expected
  fingerprint. It then sends every valid payer address to one of its two different shards and refuses everything else.\<close>

theorem routing_is_fixed:
  assumes "create_routing digest decode parse io arguments = Inr ids"
  shows "\<exists>v options content uid st afterwards. arguments = [v] \<and> capture_options v = Some options \<and> ids = ro_expected options
     \<and> fingerprint_of digest content = ro_fingerprint options \<and> decode content = Some (canonical_manifest ids)
     \<and> read_from (io_read io) 0 = Some content \<and> current_uid (io_uid io) = Some uid
     \<and> io_opened io = Some st \<and> safe_manifest uid st \<and> int (length content) = fs_size st
     \<and> io_after io = Some afterwards \<and> unchanged_file st afterwards
     \<and> length ids = 2 \<and> distinct ids
     \<and> (\<forall>payer. route digest ids [payer] \<in> (if canonical_user_address payer then Inr ` set ids else {Inl InvalidPayer}))"
proof -
  obtain v options content where opened: "arguments = [v]" "capture_options v = Some options"
    and content: "read_manifest io (ro_privateRoot options) = Inr content"
    and parsed: "parse_manifest digest decode parse content (ro_fingerprint options) (ro_expected options) = Inr ids"
    using assms by (rule routing_parts)
  note manifest = parsed_manifest [OF parsed]
  have two: "length ids = 2" "distinct ids" using expected_shards [OF opened(2)] manifest(3) by simp_all
  have "route digest ids [payer] \<in> (if canonical_user_address payer then Inr ` set ids else {Inl InvalidPayer})" for payer
    using shard_index_less [of digest] two(1)
    by (cases payer) (auto simp: route_def canonical_user_address_def)
  then show ?thesis
    using opened manifest two content by (elim manifest_read) blast
qed

definition demo_shards :: "string list" where
  "demo_shards = [''north'', ''south'']"

definition demo_content :: bytes where
  "demo_content = ascii_bytes (canonical_manifest demo_shards)"

definition demo_root_stat :: file_stat where
  "demo_root_stat = \<lparr>fs_dev = 1, fs_ino = 2, fs_mode = 0x41c0, fs_nlink = 2, fs_uid = 501, fs_gid = 20, fs_size = 96,
     fs_mtimeNs = 7, fs_ctimeNs = 7, fs_isDirectory = True, fs_isFile = False, fs_isSymbolicLink = False\<rparr>"

definition demo_file_stat :: file_stat where
  "demo_file_stat = \<lparr>fs_dev = 1, fs_ino = 3, fs_mode = 0x8180, fs_nlink = 1, fs_uid = 501, fs_gid = 20,
     fs_size = int (length demo_content), fs_mtimeNs = 8, fs_ctimeNs = 8,
     fs_isDirectory = False, fs_isFile = True, fs_isSymbolicLink = False\<rparr>"

definition demo_io :: manifest_io where
  "demo_io = (let path = Some (manifest_path ''/keep'') in
     \<lparr>io_flags = True, io_uid = Some (num 501), io_rootBefore = Some demo_root_stat, io_rootPath = Some ''/keep'',
      io_rootOpen = True, io_rootOpened = Some demo_root_stat, io_before = Some demo_file_stat, io_path = path,
      io_open = True, io_opened = Some demo_file_stat, io_read = (\<lambda>offset n. Some (take n (drop offset demo_content))),
      io_after = Some demo_file_stat, io_pathAfter = Some demo_file_stat, io_realpathAfter = path,
      io_rootAfter = Some demo_root_stat, io_rootPathAfter = Some ''/keep'',
      io_closeManifest = True, io_closeRoot = True\<rparr>)"

definition zero_digest :: "bytes \<Rightarrow> bytes" where
  "zero_digest content = replicate 32 0"

definition demo_decode :: "bytes \<Rightarrow> string option" where
  "demo_decode content = Some (map (\<lambda>b. char_of (unat b)) content)"

definition demo_parse :: "string \<Rightarrow> jsval option" where
  "demo_parse t = Some (js_of (configuration_json demo_shards))"

definition demo_options :: jsval where
  "demo_options = js_of (JObj [(''privateRoot'', JStr ''/keep''),
     (''expectedManifestFingerprint'', JStr (''sha256:'' @ replicate 64 (CHR ''0''))),
     (''expectedConfiguration'', configuration_json demo_shards)])"

lemma read_whole:
  assumes "length content \<le> 4096"
  shows "read_from (\<lambda>offset n. Some (take n (drop offset content))) 0 = Some content"
proof (cases content)
  case Nil
  then show ?thesis by (simp add: read_from.simps)
next
  case (Cons b others)
  have rest: "read_from (\<lambda>offset n. Some (take n (drop offset content))) (length content) = Some []"
    using assms by (simp add: read_from.simps)
  show ?thesis
    by (subst read_from.simps) (use assms rest Cons in simp)
qed

lemma ascii_decoded: "demo_decode (ascii_bytes s) = Some s"
proof -
  have "unat (of_nat (code c) :: 8 word) = code c" for c
    using code_less [of c] by (simp add: unat_of_nat)
  then show ?thesis by (simp add: demo_decode_def ascii_bytes_def comp_def)
qed

lemma demo_size: "1 \<le> length demo_content" "length demo_content \<le> 4096"
proof -
  have "length (canonical_manifest demo_shards) = 109" by code_simp
  then show "1 \<le> length demo_content" "length demo_content \<le> 4096" by (simp_all add: demo_content_def ascii_bytes_def)
qed

lemma shard_options_captured: "capture_options demo_options
    = Some \<lparr>ro_privateRoot = ''/keep'', ro_fingerprint = ''sha256:'' @ replicate 64 (CHR ''0''), ro_expected = demo_shards\<rparr>"
  by code_simp

lemma demo_stats: "safe_root 501 demo_root_stat" "safe_manifest 501 demo_file_stat"
  using demo_size by (simp_all add: safe_root_def safe_manifest_def demo_root_stat_def demo_file_stat_def)

lemma shard_routing_created: "create_routing zero_digest demo_decode demo_parse demo_io [demo_options] = Inr demo_shards"
proof -
  have "read_manifest demo_io ''/keep'' = Inr demo_content"
    using demo_size demo_stats read_whole [OF demo_size(2)]
    by (simp add: read_manifest_def open_root_def read_content_def check_root_def demo_io_def Let_def current_uid_def
        count_safe_def max_safe_def unchanged_file_def) (simp add: demo_file_stat_def)
  moreover have "fingerprint_of zero_digest demo_content = ''sha256:'' @ replicate 64 (CHR ''0'')"
    unfolding fingerprint_of_def zero_digest_def by code_simp
  moreover have "routing_configuration (js_of (configuration_json demo_shards)) = Some demo_shards"
    by code_simp
  ultimately show ?thesis
    using ascii_decoded [of "canonical_manifest demo_shards"]
    by (simp add: create_routing_def shard_options_captured parse_manifest_def demo_parse_def demo_content_def [symmetric]
        del: js_of.simps js_of_JObj)
qed

theorem routing_is_fixed_witness:
  "\<exists>v options content uid st afterwards. [demo_options] = [v] \<and> capture_options v = Some options \<and> demo_shards = ro_expected options
     \<and> fingerprint_of zero_digest content = ro_fingerprint options \<and> demo_decode content = Some (canonical_manifest demo_shards)
     \<and> read_from (io_read demo_io) 0 = Some content \<and> current_uid (io_uid demo_io) = Some uid
     \<and> io_opened demo_io = Some st \<and> safe_manifest uid st \<and> int (length content) = fs_size st
     \<and> io_after demo_io = Some afterwards \<and> unchanged_file st afterwards
     \<and> length demo_shards = 2 \<and> distinct demo_shards
     \<and> (\<forall>payer. route zero_digest demo_shards [payer]
          \<in> (if canonical_user_address payer then Inr ` set demo_shards else {Inl InvalidPayer}))"
  by (rule routing_is_fixed [OF shard_routing_created])

section \<open>Admission\<close>

definition demo_configuration :: jsval where
  "demo_configuration = js_of (JObj [(''lane'', JStr ''facilitator''), (''workerIds'', JArr [JStr ''one'', JStr ''two''])])"

definition demo_admission :: admission where
  "demo_admission = \<lparr>ad_lane = FacilitatorLane, ad_workers = [new_worker ''one'', new_worker ''two''],
     ad_byId = map_of [(''one'', 0), (''two'', 1)], ad_byPayer = Map.empty, ad_records = [], ad_operationIds = [],
     ad_admissions = 0, ad_maximum = 64\<rparr>"

lemma demo_admission_created: "create_admission [demo_configuration] = Inr demo_admission"
proof -
  have "exact_optional [''lane'', ''workerIds'', ''maxAdmissions''] demo_configuration
      = Some [(''lane'', VStr ''facilitator''), (''workerIds'', arr [VStr ''one'', VStr ''two''])]"
    by code_simp
  moreover have "capture_worker_ids (arr [VStr ''one'', VStr ''two'']) = Some [''one'', ''two'']"
    by code_simp
  ultimately show ?thesis
    by (simp add: create_admission_def demo_admission_def as_lane_def as_maximum_def)
qed

definition settle_request :: "string \<Rightarrow> string \<Rightarrow> jsval" where
  "settle_request payer operationId = js_of (JObj [(''payer'', JStr payer), (''operationId'', JStr operationId),
     (''kind'', JStr ''facilitator.settle'')])"

definition demo_calls :: "admission_call list" where
  "demo_calls = [Admit [settle_request ''payer-a'' ''first''], MarkDispatched [IssuedTicket 0],
     Admit [settle_request ''payer-b'' ''second''], Admit [settle_request ''payer-a'' ''third''],
     CompleteTicket [IssuedTicket 0], Admit [settle_request ''payer-a'' ''fourth'']]"

lemma settle_requests:
  "as_request FacilitatorLane (settle_request ''payer-a'' ''first'') = Some \<lparr>ar_payer = ''payer-a'', ar_operationId = ''first'', ar_kind = FacilitatorSettle\<rparr>"
  "as_request FacilitatorLane (settle_request ''payer-b'' ''second'') = Some \<lparr>ar_payer = ''payer-b'', ar_operationId = ''second'', ar_kind = FacilitatorSettle\<rparr>"
  "as_request FacilitatorLane (settle_request ''payer-a'' ''third'') = Some \<lparr>ar_payer = ''payer-a'', ar_operationId = ''third'', ar_kind = FacilitatorSettle\<rparr>"
  "as_request FacilitatorLane (settle_request ''payer-a'' ''fourth'') = Some \<lparr>ar_payer = ''payer-a'', ar_operationId = ''fourth'', ar_kind = FacilitatorSettle\<rparr>"
  by code_simp+

lemma demo_outcome:
  "map (\<lambda>r. (tk_workerId (tr_ticket r), tk_operationId (tr_ticket r), tr_phase r)) (ad_records (run admission_step demo_calls demo_admission))
    = [(''one'', ''first'', TicketCompleted), (''two'', ''second'', TicketReserved), (''one'', ''fourth'', TicketReserved)]"
  unfolding demo_calls_def demo_admission_def
  by (simp add: admit_def admit_request_def settle_requests issue_ticket_def andthen_def demand_def raise_def free_worker_def
      new_worker_def mark_dispatched_def complete_ticket_def move_ticket_def Let_def)

lemma tabulated:
  "map (\<lambda>r. (f r, g r, h r)) xs = ys \<Longrightarrow> map h (filter (\<lambda>r. f r = a) xs) = map (snd \<circ> snd) (filter (\<lambda>y. fst y = a) ys)"
  by (induction xs arbitrary: ys) auto

lemma worker_by_id:
  assumes "admission_ok s" and "w < length (ad_workers s)"
  shows "filter (\<lambda>r. tk_workerId (tr_ticket r) = wk_id (ad_workers s ! w)) (ad_records s) = worker_tickets s w"
  unfolding worker_tickets_def
proof (rule filter_cong [OF refl])
  fix r assume "r \<in> set (ad_records s)"
  then have "tr_worker r < length (ad_workers s)" "tk_workerId (tr_ticket r) = wk_id (ad_workers s ! tr_worker r)"
    using assms(1) by (simp_all add: admission_ok_def tickets_ok_def)
  then show "tk_workerId (tr_ticket r) = wk_id (ad_workers s ! w) \<longleftrightarrow> tr_worker r = w"
    using assms by (simp add: admission_ok_def ids_ok_def distinct_conv_nth) blast
qed

text \<open>C29: After any sequence of calls, two tickets have the same payer exactly when they have the same worker, at most one of
  a payer's tickets is unfinished, no operation was admitted twice, no more tickets were issued than allowed, and the tickets of
  each worker are numbered 1, 2, 3, and so on in the order they were issued.\<close>

theorem payers_are_isolated:
  assumes "create_admission arguments = Inr s" and "t = run admission_step calls s"
  shows "pairwise (\<lambda>m n. let a = tr_ticket (ad_records t ! m); b = tr_ticket (ad_records t ! n) in
        (tk_payer a = tk_payer b) = (tk_workerId a = tk_workerId b)
        \<and> tk_operationId a \<noteq> tk_operationId b
        \<and> \<not> (tk_payer a = tk_payer b \<and> open_ticket (ad_records t ! m) \<and> open_ticket (ad_records t ! n)))
      {..<length (ad_records t)}
    \<and> int (length (ad_records t)) \<le> ad_maximum s \<and> ad_maximum s \<le> 256
    \<and> (\<exists>issued. map (\<lambda>r. tk_sequence (tr_ticket r)) (filter (\<lambda>r. tk_workerId (tr_ticket r) = workerId) (ad_records t))
        = [1..<Suc issued])"
proof -
  have ok: "admission_ok t" and leq: "admission_leq s t"
    using created_run_ok [OF assms(1)] admission.run_leq [OF create_ok [OF assms(1)]] assms(2) by simp_all
  note parts = ok [unfolded admission_ok_def]
  have bound: "tr_worker r < length (ad_workers t) \<and> wk_payer (ad_workers t ! tr_worker r) = Some (tk_payer (tr_ticket r))
      \<and> tk_workerId (tr_ticket r) = wk_id (ad_workers t ! tr_worker r)" if "r \<in> set (ad_records t)" for r
    using parts that unfolding tickets_ok_def by blast
  have same: "tk_workerId (tr_ticket r) = tk_workerId (tr_ticket r') \<longleftrightarrow> tr_worker r = tr_worker r'"
    "tk_payer (tr_ticket r) = tk_payer (tr_ticket r') \<longleftrightarrow> tr_worker r = tr_worker r'"
    if "r \<in> set (ad_records t)" "r' \<in> set (ad_records t)" for r r'
  proof -
    show "tk_workerId (tr_ticket r) = tk_workerId (tr_ticket r') \<longleftrightarrow> tr_worker r = tr_worker r'"
      using bound [OF that(1)] bound [OF that(2)] parts by (simp add: ids_ok_def distinct_conv_nth) metis
    have "ad_byPayer t (tk_payer (tr_ticket r)) = Some (tr_worker r)" "ad_byPayer t (tk_payer (tr_ticket r')) = Some (tr_worker r')"
      using bound [OF that(1)] bound [OF that(2)] parts by (simp_all add: payers_ok_def)
    then show "tk_payer (tr_ticket r) = tk_payer (tr_ticket r') \<longleftrightarrow> tr_worker r = tr_worker r'"
      using bound [OF that(1)] bound [OF that(2)] by auto
  qed
  have alone: "m = n" if "m < length (ad_records t)" "n < length (ad_records t)" "open_ticket (ad_records t ! m)"
      "open_ticket (ad_records t ! n)" "tr_worker (ad_records t ! m) = tr_worker (ad_records t ! n)" for m n
  proof -
    have active: "wk_active (ad_workers t ! tr_worker (ad_records t ! m)) = Some k
        \<longleftrightarrow> k < length (ad_records t) \<and> tr_worker (ad_records t ! k) = tr_worker (ad_records t ! m) \<and> open_ticket (ad_records t ! k)" for k
      using parts bound [of "ad_records t ! m"] that(1) unfolding active_ok_def by simp
    show ?thesis using active [of m] active [of n] that by simp
  qed
  have operations: "tk_operationId (tr_ticket (ad_records t ! m)) \<noteq> tk_operationId (tr_ticket (ad_records t ! n))"
    if "m < length (ad_records t)" "n < length (ad_records t)" "m \<noteq> n" for m n
  proof -
    have "distinct (map (\<lambda>r. tk_operationId (tr_ticket r)) (ad_records t))" using parts by (simp add: operations_ok_def)
    then show ?thesis using that by (simp add: distinct_conv_nth)
  qed
  have "\<exists>issued. map (\<lambda>r. tk_sequence (tr_ticket r)) (filter (\<lambda>r. tk_workerId (tr_ticket r) = workerId) (ad_records t)) = [1..<Suc issued]"
  proof (cases "\<exists>w < length (ad_workers t). wk_id (ad_workers t ! w) = workerId")
    case True
    then obtain w where "w < length (ad_workers t)" and "wk_id (ad_workers t ! w) = workerId" by blast
    then show ?thesis using worker_by_id [OF ok] parts unfolding sequences_ok_def by metis
  next
    case False
    then have "filter (\<lambda>r. tk_workerId (tr_ticket r) = workerId) (ad_records t) = []"
      using bound by (auto simp: filter_empty_conv)
    then show ?thesis by (intro exI [of _ 0]) simp
  qed
  moreover have "int (length (ad_records t)) \<le> ad_maximum s \<and> ad_maximum s \<le> 256"
    using parts leq by (simp add: count_ok_def admission_leq_def)
  ultimately show ?thesis
    using operations alone same by (auto simp: pairwise_def Let_def)
qed

theorem payers_are_isolated_witness:
  "map (\<lambda>r. (tk_workerId (tr_ticket r), tk_operationId (tr_ticket r))) (ad_records (run admission_step demo_calls demo_admission))
      = [(''one'', ''first''), (''two'', ''second''), (''one'', ''fourth'')]
    \<and> (\<exists>issued. map (\<lambda>r. tk_sequence (tr_ticket r)) (filter (\<lambda>r. tk_workerId (tr_ticket r) = ''one'')
          (ad_records (run admission_step demo_calls demo_admission))) = [1..<Suc issued])"
proof -
  have "map (\<lambda>r. (tk_workerId (tr_ticket r), tk_operationId (tr_ticket r))) (ad_records (run admission_step demo_calls demo_admission))
      = [(''one'', ''first''), (''two'', ''second''), (''one'', ''fourth'')]"
    using arg_cong [OF demo_outcome, of "map (\<lambda>(w, operation, phase). (w, operation))"] by (simp add: comp_def)
  then show ?thesis
    using payers_are_isolated [OF demo_admission_created refl, of demo_calls "''one''"] by blast
qed

text \<open>Once a worker is quarantined, whatever is called after that, its tickets stay exactly as they are and it gets no more.\<close>

theorem quarantine_freezes_worker:
  assumes "create_admission arguments = Inr s" and "t = run admission_step before s"
    and "quarantine_worker [VStr workerId] t = (u, Inr ())" and "v = run admission_step after u"
  shows "filter (\<lambda>r. tk_workerId (tr_ticket r) = workerId) (ad_records v)
    = filter (\<lambda>r. tk_workerId (tr_ticket r) = workerId) (ad_records t)"
proof -
  have t: "admission_ok t" using created_run_ok [OF assms(1)] assms(2) by simp
  obtain w where w: "ad_byId t workerId = Some w"
    and u: "u = t\<lparr>ad_workers := (ad_workers t)[w := (ad_workers t ! w)\<lparr>wk_quarantined := True\<rparr>]\<rparr>"
    using assms(3) by (auto simp: quarantine_worker_def raise_def as_ascii_def split: option.splits if_splits)
  have found: "w < length (ad_workers t)" "wk_id (ad_workers t ! w) = workerId"
    using w t by (auto simp: admission_ok_def ids_ok_def in_set_zip dest!: map_of_SomeD)
  have "admission_ok u" using quarantine_ok(1) [OF t, of "[VStr workerId]"] assms(3) by simp
  then have leq: "admission_leq u v" and "admission_ok v"
    using admission.run_leq admission.run_inv assms(4) by blast+
  have ids: "map wk_id (ad_workers v) = map wk_id (ad_workers t)" "map wk_id (ad_workers u) = map wk_id (ad_workers t)"
    using leq found by (auto simp: u admission_leq_def map_update) (metis list_update_id map_update)+
  have lengths: "length (ad_workers v) = length (ad_workers t)" "length (ad_workers u) = length (ad_workers t)"
    using ids by (metis length_map)+
  have "worker_tickets v w = worker_tickets u w"
    using leq found by (auto simp: admission_leq_def u)
  then have frozen: "worker_tickets v w = worker_tickets t w"
    by (simp add: u worker_tickets_def)
  have "wk_id (ad_workers v ! w) = workerId"
    using ids(1) found lengths(1) by (metis nth_map)
  then show ?thesis
    using worker_by_id [OF \<open>admission_ok v\<close>, of w] worker_by_id [OF t, of w] found lengths(1) frozen by simp
qed

theorem quarantine_freezes_worker_witness:
  "\<exists>u. quarantine_worker [VStr ''two''] (run admission_step demo_calls demo_admission) = (u, Inr ())
     \<and> map tr_phase (filter (\<lambda>r. tk_workerId (tr_ticket r) = ''two'')
          (ad_records (run admission_step [MarkDispatched [IssuedTicket 1], Admit [settle_request ''payer-b'' ''fifth'']] u))) = [TicketReserved]"
proof -
  let ?t = "run admission_step demo_calls demo_admission"
  have "ad_byId ?t = ad_byId demo_admission"
    using admission.run_leq [OF create_ok [OF demo_admission_created], of demo_calls] by (simp add: admission_leq_def)
  then have "ad_byId ?t ''two'' = Some 1" by (simp add: demo_admission_def)
  moreover have "as_ascii 64 (VStr ''two'') = Some ''two''" by code_simp
  ultimately obtain u where u: "quarantine_worker [VStr ''two''] ?t = (u, Inr ())"
    unfolding quarantine_worker_def by simp
  have kept: "filter (\<lambda>r. tk_workerId (tr_ticket r) = ''two'') (ad_records (run admission_step after u))
      = filter (\<lambda>r. tk_workerId (tr_ticket r) = ''two'') (ad_records ?t)" for after
    by (rule quarantine_freezes_worker [OF demo_admission_created refl u refl])
  have "map tr_phase (filter (\<lambda>r. tk_workerId (tr_ticket r) = ''two'') (ad_records ?t)) = [TicketReserved]"
    using tabulated [OF demo_outcome, of "''two''"] by simp
  then have "map tr_phase (filter (\<lambda>r. tk_workerId (tr_ticket r) = ''two'') (ad_records (run admission_step after u)))
      = [TicketReserved]" for after
    by (simp only: kept)
  with u show ?thesis by (intro exI [of _ u] conjI)
qed

end
