(* ===== verification/Journal_Text.thy ===== *)
theory Journal_Text
  imports JSON_Lemmas
begin

text \<open>
  JSON as the settlement journal handles it (the first part of \<open>src/src/settlement-journal.js\<close>):
  the snapshot of an untrusted value within a byte limit, the check for forbidden keys, and the
  writer \<open>stringifyJsonWithoutHooks\<close> with its depth and byte limits. The lemmas say which values
  have a snapshot and which text the writer gives; for width 0 it is the text of \<open>JSON.stringify\<close>.

  Values are trees, so the \<open>seen\<close> set never fires, and a value does not change while it is read,
  so the second look at its descriptors finds what the first one found; its byte count starts
  again from zero and repeats charges that were already made.
\<close>

section \<open>Errors\<close>

text \<open>The two symbols \<open>INVALID_JSON_SNAPSHOT\<close> and \<open>JSON_SNAPSHOT_TOO_LARGE\<close>.\<close>

datatype snapshot_error = InvalidSnapshot | SnapshotTooLarge

text \<open>
  The codes of \<open>SettlementJournalError\<close>, a symbol that escapes, and \<open>Halted\<close> for the end of the
  process.
\<close>

datatype journal_error =
    JournalCorrupt | JournalRecordInvalid | JournalRecordTooLarge | JournalSecretFieldForbidden
  | JournalConfigurationInvalid | JournalCapacityExceeded | JournalIdentityConflict
  | JournalRecordNotFound | JournalEvidenceInvalid | JournalMomentumEvidenceInvalid
  | JournalMomentumRequired | JournalDeliveryClaimInvalid | JournalDeliveryConflict
  | JournalDeliveryNotPending | JournalCompareAndReplaceFailed | JournalWriteVerificationFailed
  | JournalRetentionInvalid | JournalOptionsInvalid | JournalClockInvalid
  | JournalStateMissing | JournalUnsafeFile | JournalMarkerCorrupt | JournalMarkerReadFailed
  | JournalMarkerWriteFailed | JournalMarkerSyncFailed | JournalReadFailed | JournalWriteFailed
  | JournalDirectorySyncFailed | JournalCleanupFailed | JournalUnsafeDirectory
  | JournalSymbol snapshot_error | Halted

section \<open>Snapshots of untrusted values\<close>

definition max_json_depth :: nat where
  "max_json_depth = 20"

definition charge :: "nat \<Rightarrow> string \<Rightarrow> nat \<Rightarrow> snapshot_error + nat" where
  "charge limit s n = (let n' = n + utf8_bytes s in if limit < n' then Inl SnapshotTooLarge else Inr n')"

text \<open>
  \<open>captureDescriptorView\<close>: the shape first, then every key with its descriptor. The keys of an
  object are distinct; a description in which one is repeated is no object.
\<close>

fun view_keys :: "nat \<Rightarrow> (string \<times> jsval property) list \<Rightarrow> nat \<Rightarrow> snapshot_error + nat" where
  "view_keys limit [] n = Inr n"
| "view_keys limit ((k, HiddenProp) # props) n = Inl InvalidSnapshot"
| "view_keys limit ((k, DataProp v) # props) n = also_then (charge limit k n) (view_keys limit props)"

definition view_array :: "nat \<Rightarrow> bool \<Rightarrow> jsval property list \<Rightarrow> snapshot_error + unit" where
  "view_array limit ordinary props =
     (if \<not> ordinary then Inl InvalidSnapshot
      else if limit < length props then Inl SnapshotTooLarge
      else if HiddenProp \<in> set props then Inl InvalidSnapshot
      else Inr ())"

definition view_object :: "nat \<Rightarrow> proto \<Rightarrow> bool \<Rightarrow> (string \<times> jsval property) list \<Rightarrow> nat \<Rightarrow> snapshot_error + nat" where
  "view_object limit p symbolic props n =
     (if p = ForeignProto then Inl InvalidSnapshot
      else if limit < length props + (if symbolic then 1 else 0) then Inl SnapshotTooLarge
      else if symbolic \<or> \<not> distinct (map fst props) then Inl InvalidSnapshot
      else view_keys limit props n)"

text \<open>\<open>descriptorSafeJsonValue\<close>, with the bytes charged so far.\<close>

function (sequential) snapshot_value :: "nat \<Rightarrow> nat \<Rightarrow> jsval \<Rightarrow> nat \<Rightarrow> snapshot_error + (json \<times> nat)"
  and snapshot_items :: "nat \<Rightarrow> nat \<Rightarrow> jsval property list \<Rightarrow> nat \<Rightarrow> snapshot_error + (json list \<times> nat)"
  and snapshot_members :: "nat \<Rightarrow> nat \<Rightarrow> (string \<times> jsval property) list \<Rightarrow> nat
    \<Rightarrow> snapshot_error + ((string \<times> json) list \<times> nat)"
where
  "snapshot_value limit d v n = (if max_json_depth < d then Inl InvalidSnapshot else case v of
       VNull \<Rightarrow> Inr (JNull, n)
     | VBool b \<Rightarrow> Inr (JBool b, n)
     | VStr s \<Rightarrow> also_then (charge limit s n) (\<lambda>n. Inr (JStr s, n))
     | VNum m \<Rightarrow> also_then (need InvalidSnapshot (safe_integer (VNum m))) (\<lambda>i. Inr (JNum i, n))
     | VArray form props \<Rightarrow> also_then (view_array limit (is_ordinary form) props) (\<lambda>_.
         also_then (snapshot_items limit (Suc d) props n) (\<lambda>(vs, n). Inr (JArr vs, n)))
     | VObject p symbolic props \<Rightarrow> also_then (view_object limit p symbolic props n) (\<lambda>n.
         also_then (snapshot_members limit (Suc d) props n) (\<lambda>(kvs, n). Inr (JObj kvs, n)))
     | _ \<Rightarrow> Inl InvalidSnapshot)"
| "snapshot_items limit d [] n = Inr ([], n)"
| "snapshot_items limit d (HiddenProp # props) n = Inl InvalidSnapshot"
| "snapshot_items limit d (DataProp v # props) n = also_then (snapshot_value limit d v n) (\<lambda>(j, n).
     also_then (snapshot_items limit d props n) (\<lambda>(js, n). Inr (j # js, n)))"
| "snapshot_members limit d [] n = Inr ([], n)"
| "snapshot_members limit d ((k, HiddenProp) # props) n = Inl InvalidSnapshot"
| "snapshot_members limit d ((k, DataProp v) # props) n = also_then (snapshot_value limit d v n) (\<lambda>(j, n).
     also_then (snapshot_members limit d props n) (\<lambda>(kvs, n). Inr ((k, j) # kvs, n)))"
  by pat_completeness auto

termination
  by (relation "measure (case_sum (\<lambda>(l, d, v, n). size v)
      (case_sum (\<lambda>(l, d, ps, n). size_list (size_property size) ps)
        (\<lambda>(l, d, ps, n). size_list (size_prod (\<lambda>_. 0) (size_property size)) ps)))") auto

declare snapshot_value.simps [simp del]

section \<open>Forbidden keys\<close>

definition lower_char :: "char \<Rightarrow> char" where
  "lower_char c = (if is_upper c then char_of (code c + 32) else c)"

text \<open>\<open>toLowerCase().replace(/[^a-z0-9]/g, '')\<close>; letters beyond ASCII are dropped either way.\<close>

definition normalized_key :: "string \<Rightarrow> string" where
  "normalized_key k = filter (\<lambda>c. is_lower c \<or> is_digit c) (map lower_char k)"

definition forbidden_persisted_keys :: "string list" where
  "forbidden_persisted_keys = [''mnemonic'', ''privatekey'', ''seed'', ''authtoken'', ''authorization'',
     ''password'', ''secret'', ''rpccredentials'', ''accesstoken'', ''refreshtoken'']"

definition check_key :: "string \<Rightarrow> journal_error + unit" where
  "check_key k =
     (if normalized_key k \<in> set forbidden_persisted_keys then Inl JournalSecretFieldForbidden
      else if k = ''__proto__'' \<or> k = ''prototype'' \<or> k = ''constructor'' then Inl JournalRecordInvalid
      else Inr ())"

text \<open>\<open>validateJsonValueInternal\<close> on a snapshot: plain arrays and objects only.\<close>

function (sequential) check_json :: "nat \<Rightarrow> json \<Rightarrow> journal_error + unit"
  and check_items :: "nat \<Rightarrow> json list \<Rightarrow> journal_error + unit"
  and check_members :: "nat \<Rightarrow> (string \<times> json) list \<Rightarrow> journal_error + unit"
where
  "check_json d v = (if max_json_depth < d then Inl JournalRecordInvalid else case v of
       JNum n \<Rightarrow> ensure JournalRecordInvalid (safe_range n)
     | JArr vs \<Rightarrow> check_items (Suc d) vs
     | JObj kvs \<Rightarrow> check_members (Suc d) kvs
     | _ \<Rightarrow> Inr ())"
| "check_items d [] = Inr ()"
| "check_items d (v # vs) = also_then (check_json d v) (\<lambda>_. check_items d vs)"
| "check_members d [] = Inr ()"
| "check_members d ((k, v) # kvs) = also_then (check_key k) (\<lambda>_.
     also_then (check_json d v) (\<lambda>_. check_members d kvs))"
  by pat_completeness auto

termination
  by (relation "measure (case_sum (\<lambda>(d, v). size v)
      (case_sum (\<lambda>(d, vs). size_list size vs) (\<lambda>(d, kvs). size_list (size_prod (\<lambda>_. 0) size) kvs)))") auto

declare check_json.simps [simp del]

section \<open>The writer\<close>

definition json_indent :: "nat \<Rightarrow> nat \<Rightarrow> string" where
  "json_indent depth width = replicate (depth * width) (CHR '' '')"

definition line_break :: "nat \<Rightarrow> nat \<Rightarrow> string" where
  "line_break depth width = (if width = 0 then [] else CHR 0x0A # json_indent depth width)"

definition member_colon :: "nat \<Rightarrow> string" where
  "member_colon width = (if width = 0 then '':'' else '': '')"

definition emit :: "nat \<Rightarrow> string \<Rightarrow> string \<Rightarrow> snapshot_error + string" where
  "emit limit s out = (if limit < utf8_bytes (out @ s) then Inl SnapshotTooLarge else Inr (out @ s))"

text \<open>
  \<open>serialize\<close> appends to the text written so far. The separator before an item is the opening
  break for the first one and a comma with a break for the others, as in the loops of the source.
  Sorting the keys does not depend on the state, so it is done before (\<open>stringify_json\<close>).
\<close>

function (sequential) serialize :: "nat \<Rightarrow> nat \<Rightarrow> nat \<Rightarrow> json \<Rightarrow> string \<Rightarrow> snapshot_error + string"
  and serialize_items :: "nat \<Rightarrow> nat \<Rightarrow> nat \<Rightarrow> string \<Rightarrow> json list \<Rightarrow> string \<Rightarrow> snapshot_error + string"
  and serialize_members :: "nat \<Rightarrow> nat \<Rightarrow> nat \<Rightarrow> string \<Rightarrow> (string \<times> json) list \<Rightarrow> string \<Rightarrow> snapshot_error + string"
where
  "serialize w limit d v out = (if max_json_depth + 4 < d then Inl InvalidSnapshot else case v of
       JNull \<Rightarrow> emit limit ''null'' out
     | JBool b \<Rightarrow> emit limit (if b then ''true'' else ''false'') out
     | JStr s \<Rightarrow> emit limit (string_text s) out
     | JNum n \<Rightarrow> if safe_range n then emit limit (int_text n) out else Inl InvalidSnapshot
     | JArr vs \<Rightarrow> also_then (emit limit ''['' out) (\<lambda>out.
         also_then (if vs = [] then Inr out else serialize_items w limit d (line_break (Suc d) w) vs out) (\<lambda>out.
         also_then (if vs = [] then Inr out else emit limit (line_break d w) out) (emit limit '']'')))
     | JObj kvs \<Rightarrow> also_then (emit limit ''{'' out) (\<lambda>out.
         also_then (if kvs = [] then Inr out else serialize_members w limit d (line_break (Suc d) w) kvs out) (\<lambda>out.
         also_then (if kvs = [] then Inr out else emit limit (line_break d w) out) (emit limit ''}''))))"
| "serialize_items w limit d before [] out = Inr out"
| "serialize_items w limit d before (v # vs) out =
     also_then (emit limit before out) (\<lambda>out. also_then (serialize w limit (Suc d) v out)
       (serialize_items w limit d (CHR '','' # line_break (Suc d) w) vs))"
| "serialize_members w limit d before [] out = Inr out"
| "serialize_members w limit d before ((k, v) # kvs) out =
     also_then (emit limit before out) (\<lambda>out. also_then (emit limit (string_text k) out) (\<lambda>out.
     also_then (emit limit (member_colon w) out) (\<lambda>out. also_then (serialize w limit (Suc d) v out)
       (serialize_members w limit d (CHR '','' # line_break (Suc d) w) kvs))))"
  by pat_completeness auto

termination
  by (relation "measure (case_sum (\<lambda>(w, l, d, v, s). size v)
      (case_sum (\<lambda>(w, l, d, b, vs, s). size_list size vs)
        (\<lambda>(w, l, d, b, kvs, s). size_list (size_prod (\<lambda>_. 0) size) kvs)))") auto

declare serialize.simps [simp del]

definition stringify_json :: "nat \<Rightarrow> bool \<Rightarrow> nat \<Rightarrow> json \<Rightarrow> snapshot_error + string" where
  "stringify_json width by_key limit v =
     (if 10 < width \<or> limit < 1 then Inl InvalidSnapshot
      else serialize width limit 0 (if by_key then sort_keys v else v) [])"

definition max_record_bytes :: nat where
  "max_record_bytes = 128 * 1024"

definition max_cached_response_bytes :: nat where
  "max_cached_response_bytes = 64 * 1024"

definition max_evidence_bytes :: nat where
  "max_evidence_bytes = 16 * 1024"

definition max_cas_options_bytes :: nat where
  "max_cas_options_bytes = max_record_bytes + 16 * 1024 + 4096"

definition canonical_text :: "nat \<Rightarrow> json \<Rightarrow> snapshot_error + string" where
  "canonical_text limit v = stringify_json 0 True limit v"

text \<open>\<open>canonicalJson(a) === canonicalJson(b)\<close>; a thrown symbol is no agreement.\<close>

definition same_text :: "nat \<Rightarrow> json \<Rightarrow> json \<Rightarrow> bool" where
  "same_text limit v w = (case (canonical_text limit v, canonical_text limit w) of
     (Inr s, Inr t) \<Rightarrow> s = t | _ \<Rightarrow> False)"

definition digest_of :: "(string \<Rightarrow> string) \<Rightarrow> nat \<Rightarrow> json \<Rightarrow> snapshot_error + string" where
  "digest_of sha limit v = also_then (canonical_text limit v) (\<lambda>t. Inr (sha t))"

text \<open>\<open>cloneJson\<close>: snapshot, forbidden keys, length of the text.\<close>

definition clone_json :: "nat \<Rightarrow> jsval \<Rightarrow> journal_error + json" where
  "clone_json limit v = (case snapshot_value limit 0 v 0 of
     Inl SnapshotTooLarge \<Rightarrow> Inl JournalRecordTooLarge
   | Inl InvalidSnapshot \<Rightarrow> Inl JournalRecordInvalid
   | Inr (j, _) \<Rightarrow> also_then (check_json 0 j) (\<lambda>_. case stringify_json 0 False limit j of
       Inl SnapshotTooLarge \<Rightarrow> Inl JournalRecordTooLarge
     | Inl InvalidSnapshot \<Rightarrow> Inl JournalRecordInvalid
     | Inr t \<Rightarrow> if limit < utf8_bytes t then Inl JournalRecordTooLarge else Inr j))"

text \<open>\<open>exactKeys\<close> on a plain object, whose keys are distinct as those of every object.\<close>

fun exact_keys :: "string list \<Rightarrow> json \<Rightarrow> bool" where
  "exact_keys expected (JObj kvs) \<longleftrightarrow> distinct (map fst kvs) \<and> length kvs = length expected \<and> (\<forall>(k, v) \<in> set kvs. k \<in> set expected)"
| "exact_keys expected _ \<longleftrightarrow> False"

text \<open>\<open>exactCasOptionsSnapshot\<close>.\<close>

definition cas_options :: "string list \<Rightarrow> jsval \<Rightarrow> json option" where
  "cas_options expected v = (case snapshot_value max_cas_options_bytes 0 v 0 of
     Inl _ \<Rightarrow> None
   | Inr (j, _) \<Rightarrow> if \<not> exact_keys expected j then None
       else case stringify_json 0 False max_cas_options_bytes j of
         Inl _ \<Rightarrow> None
       | Inr t \<Rightarrow> if max_cas_options_bytes < utf8_bytes t then None else Some j)"

section \<open>Members of JSON objects\<close>

definition members :: "json \<Rightarrow> (string \<times> json) list" where
  "members v = (case v of JObj kvs \<Rightarrow> kvs | _ \<Rightarrow> [])"

fun is_object :: "json \<Rightarrow> bool" where
  "is_object (JObj kvs) = True"
| "is_object _ = False"

text \<open>\<open>ownDataEntry\<close>: absent members are \<^const>\<open>None\<close>.\<close>

definition entry :: "string \<Rightarrow> json \<Rightarrow> json option" where
  "entry k v = map_of (members v) k"

definition set_entry :: "string \<Rightarrow> json \<Rightarrow> json \<Rightarrow> json" where
  "set_entry k x v = JObj (AList.update k x (members v))"

definition remove_entry :: "string \<Rightarrow> json \<Rightarrow> json" where
  "remove_entry k v = JObj (filter (\<lambda>(k', _). k' \<noteq> k) (members v))"

text \<open>Reading a member for a comparison or a regular expression.\<close>

definition text_entry :: "string \<Rightarrow> json \<Rightarrow> string option" where
  "text_entry k v = (case entry k v of Some (JStr s) \<Rightarrow> Some s | _ \<Rightarrow> None)"

definition number_entry :: "string \<Rightarrow> json \<Rightarrow> int option" where
  "number_entry k v = (case entry k v of Some (JNum n) \<Rightarrow> Some n | _ \<Rightarrow> None)"

end
