(* ===== verification/Journal_Layout.thy ===== *)
theory Journal_Layout
  imports Journal_Text
begin

text \<open>
  What the writer and the snapshot of the settlement journal compute. \<open>layout\<close> is the text without
  the limits: the writer gives it exactly when the value is not too deep, its numbers are safe
  integers and the text is within the byte limit. A snapshot or a clone of a JSON value is that
  value. Members that are set, removed and read are related as in a map.
\<close>

section \<open>The text that is written\<close>

fun items_text :: "string \<Rightarrow> string \<Rightarrow> string list \<Rightarrow> string" where
  "items_text before sep [] = []"
| "items_text before sep (x # xs) = before @ x @ items_text sep sep xs"

definition enclosed :: "nat \<Rightarrow> nat \<Rightarrow> string list \<Rightarrow> string" where
  "enclosed w d xs = (if xs = [] then [] else
     items_text (line_break (Suc d) w) (CHR '','' # line_break (Suc d) w) xs @ line_break d w)"

fun layout :: "nat \<Rightarrow> nat \<Rightarrow> json \<Rightarrow> string" where
  "layout w d JNull = ''null''"
| "layout w d (JBool b) = (if b then ''true'' else ''false'')"
| "layout w d (JNum n) = int_text n"
| "layout w d (JStr s) = string_text s"
| "layout w d (JArr vs) = ''['' @ enclosed w d (map (layout w (Suc d)) vs) @ '']''"
| "layout w d (JObj kvs) = ''{'' @ enclosed w d
     (map (\<lambda>(k, v). string_text k @ member_colon w @ layout w (Suc d) v) kvs) @ ''}''"

fun writable :: "nat \<Rightarrow> json \<Rightarrow> bool" where
  "writable d (JNum n) \<longleftrightarrow> d \<le> max_json_depth + 4 \<and> safe_range n"
| "writable d (JArr vs) \<longleftrightarrow> d \<le> max_json_depth + 4 \<and> (\<forall>v \<in> set vs. writable (Suc d) v)"
| "writable d (JObj kvs) \<longleftrightarrow> d \<le> max_json_depth + 4 \<and> (\<forall>(k, v) \<in> set kvs. writable (Suc d) v)"
| "writable d _ \<longleftrightarrow> d \<le> max_json_depth + 4"

lemma utf8_append [simp]: "utf8_bytes (s @ t) = utf8_bytes s + utf8_bytes t"
  by (simp add: utf8_bytes_def)

lemma utf8_Nil [simp]: "utf8_bytes [] = 0"
  by (simp add: utf8_bytes_def)

lemma emit_Inr: "emit limit s out = Inr t \<longleftrightarrow> t = out @ s \<and> utf8_bytes t \<le> limit"
  by (metis emit_def not_less sum.distinct(1) sum.inject(2))

lemma emit_fits: "emit limit s out = Inr t \<Longrightarrow> utf8_bytes t \<le> limit"
  by (metis emit_Inr)

lemma emit_Nil: "utf8_bytes out \<le> limit \<Longrightarrow> emit limit [] out = Inr out"
  by (simp add: emit_def)

lemma emit_then:
  assumes "\<And>o'. utf8_bytes o' \<le> limit \<Longrightarrow> f o' = emit limit t o'"
  shows "also_then (emit limit s out) f = emit limit (s @ t) out"
proof (cases "utf8_bytes (out @ s) \<le> limit")
  case True
  then have "emit limit s out = Inr (out @ s)" by (simp add: emit_def)
  then show ?thesis using assms [OF True] by (simp add: emit_def)
next
  case False
  then show ?thesis by (simp add: emit_def)
qed

lemma serialize_items_layout:
  assumes "\<And>v out. v \<in> set vs \<Longrightarrow> utf8_bytes out \<le> limit \<Longrightarrow> serialize w limit (Suc d) v out = emit limit (f v) out"
    and "utf8_bytes out \<le> limit"
  shows "serialize_items w limit d before vs out
    = emit limit (items_text before (CHR '','' # line_break (Suc d) w) (map f vs)) out"
  using assms
proof (induction vs arbitrary: before out)
  case (Cons v vs)
  then show ?case
    by (simp del: append.simps) (intro emit_then, simp add: emit_then)
qed (simp add: emit_Nil)

lemma serialize_members_layout:
  assumes "\<And>k v out. (k, v) \<in> set kvs \<Longrightarrow> utf8_bytes out \<le> limit \<Longrightarrow> serialize w limit (Suc d) v out = emit limit (f v) out"
    and "utf8_bytes out \<le> limit"
  shows "serialize_members w limit d before kvs out
    = emit limit (items_text before (CHR '','' # line_break (Suc d) w)
        (map (\<lambda>(k, v). string_text k @ member_colon w @ f v) kvs)) out"
  using assms
proof (induction kvs arbitrary: before out)
  case (Cons kv kvs)
  obtain k v where kv: "kv = (k, v)" by (cases kv)
  have rest: "serialize_members w limit d b kvs o' = emit limit (items_text b (CHR '','' # line_break (Suc d) w)
      (map (\<lambda>(k, v). string_text k @ member_colon w @ f v) kvs)) o'" if "utf8_bytes o' \<le> limit" for b o'
    using that Cons.prems by (intro Cons.IH) (auto simp: kv)
  have "serialize w limit (Suc d) v o' = emit limit (f v) o'" if "utf8_bytes o' \<le> limit" for o'
    using Cons.prems(1) [of k v] that by (simp add: kv)
  with rest show ?case
    by (simp add: kv del: append.simps) (intro emit_then, simp add: emit_then)
qed (simp add: emit_Nil)

lemma serialize_layout:
  "writable d v \<Longrightarrow> utf8_bytes out \<le> limit \<Longrightarrow> serialize w limit d v out = emit limit (layout w d v) out"
proof (induction v arbitrary: d out)
  case (JArr vs)
  have items: "serialize_items w limit d b vs o' = emit limit (items_text b (CHR '','' # line_break (Suc d) w)
      (map (layout w (Suc d)) vs)) o'" if "utf8_bytes o' \<le> limit" for b o'
    using JArr that by (intro serialize_items_layout) auto
  have "serialize w limit d (JArr vs) out = also_then (emit limit ''['' out) (\<lambda>out.
         also_then (if vs = [] then Inr out else serialize_items w limit d (line_break (Suc d) w) vs out) (\<lambda>out.
         also_then (if vs = [] then Inr out else emit limit (line_break d w) out) (emit limit '']'')))"
    using JArr.prems(1) by (simp add: serialize.simps)
  also have "\<dots> = emit limit (layout w d (JArr vs)) out"
    unfolding layout.simps enclosed_def
    by (intro emit_then) (cases "vs = []"; simp add: items emit_then)
  finally show ?case .
next
  case (JObj kvs)
  let ?g = "\<lambda>(k, v). string_text k @ member_colon w @ layout w (Suc d) v"
  have items: "serialize_members w limit d b kvs o' = emit limit (items_text b (CHR '','' # line_break (Suc d) w)
      (map ?g kvs)) o'" if "utf8_bytes o' \<le> limit" for b o'
    using JObj that by (intro serialize_members_layout) (auto simp: snds.simps)
  have "serialize w limit d (JObj kvs) out = also_then (emit limit ''{'' out) (\<lambda>out.
         also_then (if kvs = [] then Inr out else serialize_members w limit d (line_break (Suc d) w) kvs out) (\<lambda>out.
         also_then (if kvs = [] then Inr out else emit limit (line_break d w) out) (emit limit ''}'')))"
    using JObj.prems(1) by (simp add: serialize.simps)
  also have "\<dots> = emit limit (layout w d (JObj kvs)) out"
    unfolding layout.simps enclosed_def
    by (intro emit_then) (cases "kvs = []"; simp add: items emit_then)
  finally show ?case .
qed (auto simp: serialize.simps)

lemma serialize_items_Inr:
  assumes "\<And>v out t. v \<in> set vs \<Longrightarrow> serialize w limit (Suc d) v out = Inr t \<Longrightarrow> P v"
    and "serialize_items w limit d before vs out = Inr t"
  shows "\<forall>v \<in> set vs. P v"
  using assms by (induction vs arbitrary: before out) (auto simp: also_then_Inr)

lemma serialize_members_Inr:
  assumes "\<And>k v out t. (k, v) \<in> set kvs \<Longrightarrow> serialize w limit (Suc d) v out = Inr t \<Longrightarrow> P v"
    and "serialize_members w limit d before kvs out = Inr t"
  shows "\<forall>(k, v) \<in> set kvs. P v"
  using assms
proof (induction kvs arbitrary: before out)
  case (Cons kv kvs)
  obtain k v where kv: "kv = (k, v)" by (cases kv)
  from Cons.prems(2) obtain o1 t1 b' o2 where "serialize w limit (Suc d) v o1 = Inr t1"
    and "serialize_members w limit d b' kvs o2 = Inr t"
    by (auto simp: kv also_then_Inr)
  moreover from this(2) have "\<forall>(k, v) \<in> set kvs. P v"
    using Cons.prems(1) by (intro Cons.IH) auto
  ultimately show ?case using Cons.prems(1) [of k v] by (auto simp: kv)
qed simp

lemma serialize_writable: "serialize w limit d v out = Inr t \<Longrightarrow> writable d v"
proof (induction v arbitrary: d out t)
  case (JArr vs)
  then show ?case
    by (auto simp: serialize.simps [of _ _ _ "JArr vs"] also_then_Inr split: if_splits
        dest!: serialize_items_Inr [where P = "writable (Suc d)", rotated])
next
  case (JObj kvs)
  then show ?case
    by (fastforce simp: serialize.simps [of _ _ _ "JObj kvs"] also_then_Inr snds.simps split: if_splits
        dest!: serialize_members_Inr [where P = "writable (Suc d)", rotated])
qed (auto simp: serialize.simps split: if_splits)

text \<open>The writer in closed form.\<close>

lemma serialize_Inr:
  "utf8_bytes out \<le> limit \<Longrightarrow> serialize w limit d v out = Inr t
    \<longleftrightarrow> writable d v \<and> t = out @ layout w d v \<and> utf8_bytes t \<le> limit"
  using serialize_layout [of d v out limit w] serialize_writable [of w limit d v out t]
  by (metis emit_Inr)

lemma stringify_json_Inr:
  "stringify_json w by_key limit v = Inr t \<longleftrightarrow> w \<le> 10 \<and> 1 \<le> limit
    \<and> (let u = if by_key then sort_keys v else v in writable 0 u \<and> t = layout w 0 u \<and> utf8_bytes t \<le> limit)"
  by (auto simp: stringify_json_def serialize_Inr Let_def)

lemma items_text_comma: "items_text [] '','' xs = join_text xs"
proof -
  have "items_text '','' '','' (x # xs) = CHR '','' # join_text (x # xs)" for x :: string and xs
    by (induction xs arbitrary: x) auto
  then show ?thesis by (cases xs; cases "tl xs") auto
qed

lemma enclosed_comma: "enclosed 0 d xs = join_text xs"
  by (simp add: enclosed_def line_break_def items_text_comma)

lemma layout_compact: "layout 0 d v = stringify v"
proof (induction v arbitrary: d)
  case (JObj kvs)
  have "map (\<lambda>(k, v). string_text k @ member_colon 0 @ layout 0 (Suc d) v) kvs
      = map (\<lambda>(k, v). string_text k @ CHR '':'' # stringify v) kvs"
    using JObj by (intro map_cong) (auto simp: member_colon_def snds.simps)
  then show ?case unfolding layout.simps enclosed_comma stringify.simps by (simp only: append.simps)
qed (simp_all add: enclosed_comma cong: map_cong)

lemma canonical_text_Inr: "canonical_text limit v = Inr t \<Longrightarrow> t = canonical_json v"
  by (auto simp: canonical_text_def stringify_json_Inr layout_compact canonical_json_def Let_def)

lemma same_text_sorted: "same_text limit v w \<Longrightarrow> sort_keys v = sort_keys w"
  by (auto simp: same_text_def split: sum.splits dest!: canonical_text_Inr)

lemma same_text_refl: "same_text limit v v \<longleftrightarrow> (\<exists>t. canonical_text limit v = Inr t)"
  by (auto simp: same_text_def split: sum.splits)

lemma digest_of_Inr: "digest_of sha limit v = Inr h \<Longrightarrow> h = sha (canonical_json v)"
  by (auto simp: digest_of_def also_then_Inr dest!: canonical_text_Inr)

section \<open>Snapshots and clones of JSON values\<close>

text \<open>A snapshot of a JSON value is that value.\<close>

lemma snapshot_items_js:
  assumes "\<And>v n n' j. v \<in> set vs \<Longrightarrow> snapshot_value limit d (js_of v) n = Inr (j, n') \<Longrightarrow> j = v"
    and "snapshot_items limit d (map DataProp (map js_of vs)) n = Inr (js, n')"
  shows "js = vs"
  using assms
proof (induction vs arbitrary: n js)
  case (Cons v vs)
  then show ?case by (fastforce simp: also_then_Inr)
qed simp

lemma snapshot_members_js:
  assumes "\<And>k v n n' j. (k, v) \<in> set kvs \<Longrightarrow> snapshot_value limit d (js_of v) n = Inr (j, n') \<Longrightarrow> j = v"
    and "snapshot_members limit d (map (\<lambda>(k, v). (k, DataProp (js_of v))) kvs) n = Inr (js, n')"
  shows "js = kvs"
  using assms
proof (induction kvs arbitrary: n js)
  case (Cons kv kvs)
  obtain k v where kv: "kv = (k, v)" by (cases kv)
  from Cons.prems(2) obtain j n1 rest where js: "js = (k, j) # rest"
    and v: "snapshot_value limit d (js_of v) n = Inr (j, n1)"
    and rest: "snapshot_members limit d (map (\<lambda>(k, v). (k, DataProp (js_of v))) kvs) n1 = Inr (rest, n')"
    by (auto simp: kv also_then_Inr)
  have "rest = kvs" using Cons.prems(1) rest by (intro Cons.IH [of n1]) (simp_all, blast)
  moreover have "j = v" using Cons.prems(1) [of k v] v by (auto simp: kv)
  ultimately show ?case by (simp add: js kv)
qed simp

lemma snapshot_value_js: "snapshot_value limit d (js_of v) n = Inr (j, n') \<Longrightarrow> j = v"
proof (induction v arbitrary: d n n' j)
  case (JArr vs)
  have image: "js_of (JArr vs) = VArray (OrdinaryArray None) (map DataProp (map js_of vs))" by (simp add: arr_def)
  from JArr.prems obtain js where "j = JArr js"
    and "snapshot_items limit (Suc d) (map DataProp (map js_of vs)) n = Inr (js, n')"
    unfolding image by (auto simp: snapshot_value.simps also_then_Inr split: if_splits)
  then show ?case using JArr.IH by (blast dest: snapshot_items_js [rotated])
next
  case (JObj kvs)
  have image: "js_of (JObj kvs) = VObject ObjectProto False (map (\<lambda>(k, v). (k, DataProp (js_of v))) kvs)"
    by (simp add: obj_def js_members_def split_beta comp_def)
  from JObj.prems obtain js n1 where j: "j = JObj js"
    and "snapshot_members limit (Suc d) (map (\<lambda>(k, v). (k, DataProp (js_of v))) kvs) n1 = Inr (js, n')"
    unfolding image by (auto simp: snapshot_value.simps also_then_Inr split: if_splits)
  then have "js = kvs" using JObj.IH by (intro snapshot_members_js) (auto simp: snds.simps)
  then show ?case by (simp add: j)
qed (auto simp: snapshot_value.simps also_then_Inr num_def safe_integer.simps simp del: num_js_of split: if_splits)

lemma clone_json_js: "clone_json limit (js_of v) = Inr j \<Longrightarrow> j = v"
  by (auto simp: clone_json_def also_then_Inr split: sum.splits snapshot_error.splits if_splits
      dest!: snapshot_value_js)

lemma cas_options_js: "cas_options ks (js_of v) = Some j \<Longrightarrow> j = v"
  by (auto simp: cas_options_def split: sum.splits if_splits dest!: snapshot_value_js)

text \<open>The keys of what has a snapshot are distinct.\<close>

fun distinct_keys :: "json \<Rightarrow> bool" where
  "distinct_keys (JArr vs) \<longleftrightarrow> (\<forall>v \<in> set vs. distinct_keys v)"
| "distinct_keys (JObj kvs) \<longleftrightarrow> distinct (map fst kvs) \<and> (\<forall>(k, v) \<in> set kvs. distinct_keys v)"
| "distinct_keys _ \<longleftrightarrow> True"

lemma snapshot_items_each:
  assumes "snapshot_items limit d (map DataProp (map js_of vs)) n = Inr x" and "v \<in> set vs"
  shows "\<exists>m y. snapshot_value limit d (js_of v) m = Inr y"
  using assms
proof (induction vs arbitrary: n x)
  case (Cons w vs)
  then show ?case by (auto simp: also_then_Inr)
qed simp

lemma snapshot_members_each:
  assumes "snapshot_members limit d (map (\<lambda>(k, v). (k, DataProp (js_of v))) kvs) n = Inr x" and "(k, v) \<in> set kvs"
  shows "\<exists>m y. snapshot_value limit d (js_of v) m = Inr y"
  using assms
proof (induction kvs arbitrary: n x)
  case (Cons kv kvs)
  obtain l u where kv: "kv = (l, u)" by (cases kv)
  from Cons.prems(1) obtain a b y where u: "snapshot_value limit d (js_of u) n = Inr (a, b)"
    and rest: "snapshot_members limit d (map (\<lambda>(k, v). (k, DataProp (js_of v))) kvs) b = Inr y"
    by (auto simp: kv also_then_Inr)
  show ?case
  proof (cases "(k, v) = kv")
    case True
    then show ?thesis using u kv by blast
  next
    case False
    then show ?thesis using Cons.IH [OF rest] Cons.prems(2) by simp
  qed
qed simp

lemma snapshot_distinct: "snapshot_value limit d (js_of v) n = Inr x \<Longrightarrow> distinct_keys v"
proof (induction v arbitrary: d n x)
  case (JArr vs)
  have image: "js_of (JArr vs) = VArray (OrdinaryArray None) (map DataProp (map js_of vs))" by (simp add: arr_def)
  from JArr.prems obtain y where "snapshot_items limit (Suc d) (map DataProp (map js_of vs)) n = Inr y"
    unfolding image by (auto simp: snapshot_value.simps also_then_Inr split: if_splits)
  then have "distinct_keys v" if "v \<in> set vs" for v
    using JArr.IH [OF that] snapshot_items_each that by blast
  then show ?case by simp
next
  case (JObj kvs)
  have image: "js_of (JObj kvs) = VObject ObjectProto False (map (\<lambda>(k, v). (k, DataProp (js_of v))) kvs)"
    by (simp add: obj_def js_members_def split_beta comp_def)
  from JObj.prems obtain y n1 where y: "snapshot_members limit (Suc d) (map (\<lambda>(k, v). (k, DataProp (js_of v))) kvs) n1 = Inr y"
    and "view_object limit ObjectProto False (map (\<lambda>(k, v). (k, DataProp (js_of v))) kvs) n = Inr n1"
    unfolding image by (auto simp: snapshot_value.simps also_then_Inr split: if_splits)
  then have "distinct (map fst kvs)"
    by (auto simp: view_object_def comp_def split_beta split: if_splits)
  moreover have "distinct_keys v" if "(k, v) \<in> set kvs" for k v
  proof -
    have "\<exists>m z. snapshot_value limit (Suc d) (js_of v) m = Inr z"
      using y that by (rule snapshot_members_each)
    then show ?thesis using JObj.IH that by (auto simp: snds.simps)
  qed
  ultimately show ?case by auto
qed simp_all

lemma clone_json_distinct: "clone_json limit (js_of v) = Inr j \<Longrightarrow> distinct_keys v"
  by (auto simp: clone_json_def also_then_Inr split: sum.splits snapshot_error.splits if_splits
      dest!: snapshot_distinct)

text \<open>A clone passed the check of its keys.\<close>

lemma clone_json_checked: "clone_json limit v = Inr j \<Longrightarrow> check_json 0 j = Inr ()"
  by (auto simp: clone_json_def also_then_Inr split: sum.splits snapshot_error.splits if_splits)

section \<open>Members\<close>

lemma members_JObj [simp]: "members (JObj kvs) = kvs"
  by (simp add: members_def)

lemma entry_JObj [simp]: "entry k (JObj kvs) = map_of kvs k"
  by (simp add: entry_def)

lemma entry_set_entry [simp]: "entry k (set_entry k' x v) = (if k = k' then Some x else entry k v)"
  by (simp add: set_entry_def entry_def)

lemma entry_remove_entry [simp]: "entry k (remove_entry k' v) = (if k = k' then None else entry k v)"
proof -
  have "map_of (filter (\<lambda>(k, _). k \<noteq> k') kvs) k = (if k = k' then None else map_of kvs k)" for kvs :: "(string \<times> json) list"
    by (induction kvs) auto
  then show ?thesis by (simp add: remove_entry_def entry_def)
qed

lemma text_entry_set [simp]:
  "k \<noteq> k' \<Longrightarrow> text_entry k (set_entry k' x v) = text_entry k v"
  "text_entry k (set_entry k x v) = (case x of JStr s \<Rightarrow> Some s | _ \<Rightarrow> None)"
  by (auto simp: text_entry_def)

lemma number_entry_set [simp]:
  "k \<noteq> k' \<Longrightarrow> number_entry k (set_entry k' x v) = number_entry k v"
  "number_entry k (set_entry k x v) = (case x of JNum n \<Rightarrow> Some n | _ \<Rightarrow> None)"
  by (auto simp: number_entry_def)

lemma text_entry_Some: "text_entry k v = Some s \<longleftrightarrow> entry k v = Some (JStr s)"
  by (auto simp: text_entry_def split: option.splits json.splits)

lemma number_entry_Some: "number_entry k v = Some n \<longleftrightarrow> entry k v = Some (JNum n)"
  by (auto simp: number_entry_def split: option.splits json.splits)

text \<open>Values that agree up to the order of keys agree member by member.\<close>

lemma map_of_sort_key: "map_of (sort_key fst xs) k = map_of xs k"
proof -
  have first: "map_of ys k = map_option snd (case filter (\<lambda>y. fst y = k) ys of [] \<Rightarrow> None | y # _ \<Rightarrow> Some y)"
    for ys :: "('b \<times> 'c) list"
    by (induction ys) auto
  show ?thesis unfolding first [of "sort_key fst xs"] first [of xs] sort_key_stable ..
qed

lemma sorted_entry: "map_option sort_keys (entry k v) = entry k (sort_keys v)"
proof (cases v)
  case (JObj kvs)
  have "map_of (map (\<lambda>(k, v). (k, sort_keys v)) kvs) k = map_option sort_keys (map_of kvs k)"
    by (induction kvs) auto
  with JObj show ?thesis by (simp add: map_of_sort_key)
qed (simp_all add: entry_def members_def)

lemma sorted_scalar:
  "sort_keys v = JStr s \<longleftrightarrow> v = JStr s" "sort_keys v = JNum n \<longleftrightarrow> v = JNum n"
  "sort_keys v = JNull \<longleftrightarrow> v = JNull" "sort_keys v = JBool b \<longleftrightarrow> v = JBool b"
  by (cases v; simp)+

lemma sorted_entries: "sort_keys v = sort_keys w \<Longrightarrow> map_option sort_keys (entry k v) = map_option sort_keys (entry k w)"
  by (simp add: sorted_entry)

lemma map_sorted_scalar:
  "map_option sort_keys a = Some (JStr s) \<longleftrightarrow> a = Some (JStr s)"
  "map_option sort_keys a = Some (JNum n) \<longleftrightarrow> a = Some (JNum n)"
  "map_option sort_keys a = Some JNull \<longleftrightarrow> a = Some JNull"
  by (cases a; simp add: sorted_scalar)+

lemma sorted_same_text: "sort_keys v = sort_keys w \<Longrightarrow> text_entry k v = text_entry k w"
  using sorted_entries [of v w k] by (metis map_sorted_scalar(1) not_Some_eq text_entry_Some)

lemma sorted_same_number: "sort_keys v = sort_keys w \<Longrightarrow> number_entry k v = number_entry k w"
  using sorted_entries [of v w k] by (metis map_sorted_scalar(2) not_Some_eq number_entry_Some)

lemma sorted_same_null: "sort_keys v = sort_keys w \<Longrightarrow> entry k v = Some JNull \<longleftrightarrow> entry k w = Some JNull"
  using sorted_entries [of v w k] by (metis map_sorted_scalar(3))

end
