(* ===== verification/Journal_Time.thy ===== *)
theory Journal_Time
  imports JSON_Lemmas
begin

text \<open>
  Time stamps of the settlement journal (\<open>validateTimestamp\<close> of \<open>src/src/settlement-journal.js\<close>):
  the texts of 24 characters that \<open>Date\<close> reads and writes unchanged, that is
  \<open>YYYY-MM-DDTHH:MM:SS.mmmZ\<close> with a date of the Gregorian calendar. The journal compares them as
  strings and, for retention, as milliseconds (\<open>Date.parse\<close>); the theorem says that the two orders
  agree.
\<close>

section \<open>Reading a time stamp\<close>

definition slice :: "nat \<Rightarrow> nat \<Rightarrow> 'a list \<Rightarrow> 'a list" where
  "slice i n s = take n (drop i s)"

record instant =
  in_year :: nat
  in_month :: nat
  in_day :: nat
  in_hour :: nat
  in_minute :: nat
  in_second :: nat
  in_milli :: nat

definition digits_at :: "nat \<Rightarrow> nat \<Rightarrow> string \<Rightarrow> nat option" where
  "digits_at i n s = (let t = slice i n s in if list_all is_digit t then Some (decimal_value t) else None)"

definition iso_shape :: "string \<Rightarrow> bool" where
  "iso_shape s \<longleftrightarrow> length s = 24 \<and> s ! 4 = CHR ''-'' \<and> s ! 7 = CHR ''-'' \<and> s ! 10 = CHR ''T'' \<and> s ! 13 = CHR '':''
     \<and> s ! 16 = CHR '':'' \<and> s ! 19 = CHR ''.'' \<and> s ! 23 = CHR ''Z''"

definition leap_year :: "nat \<Rightarrow> bool" where
  "leap_year y \<longleftrightarrow> y mod 4 = 0 \<and> (y mod 100 \<noteq> 0 \<or> y mod 400 = 0)"

definition days_in_month :: "nat \<Rightarrow> nat \<Rightarrow> nat" where
  "days_in_month y m = (if m = 2 then if leap_year y then 29 else 28
     else if m = 4 \<or> m = 6 \<or> m = 9 \<or> m = 11 then 30 else 31)"

definition instant_ok :: "instant \<Rightarrow> bool" where
  "instant_ok i \<longleftrightarrow> 1 \<le> in_month i \<and> in_month i \<le> 12 \<and> 1 \<le> in_day i \<and> in_day i \<le> days_in_month (in_year i) (in_month i)
     \<and> in_hour i < 24 \<and> in_minute i < 60 \<and> in_second i < 60"

definition read_instant :: "string \<Rightarrow> instant option" where
  "read_instant s = do {
     guard (iso_shape s);
     y \<leftarrow> digits_at 0 4 s; m \<leftarrow> digits_at 5 2 s; d \<leftarrow> digits_at 8 2 s;
     h \<leftarrow> digits_at 11 2 s; mi \<leftarrow> digits_at 14 2 s; se \<leftarrow> digits_at 17 2 s; ms \<leftarrow> digits_at 20 3 s;
     let i = \<lparr>in_year = y, in_month = m, in_day = d, in_hour = h, in_minute = mi, in_second = se, in_milli = ms\<rparr>;
     guard (instant_ok i);
     Some i
   }"

definition valid_timestamp :: "string \<Rightarrow> bool" where
  "valid_timestamp s \<longleftrightarrow> read_instant s \<noteq> None"

section \<open>Milliseconds since 1970\<close>

definition days_before_year :: "nat \<Rightarrow> nat" where
  "days_before_year y = 365 * y + (y + 3) div 4 + (y + 399) div 400 - (y + 99) div 100"

definition days_before_month :: "nat \<Rightarrow> nat \<Rightarrow> nat" where
  "days_before_month y m = sum_list (map (days_in_month y) [1..<m])"

definition day_count :: "instant \<Rightarrow> nat" where
  "day_count i = days_before_year (in_year i) + days_before_month (in_year i) (in_month i) + (in_day i - 1)"

definition time_of_day :: "instant \<Rightarrow> nat" where
  "time_of_day i = ((in_hour i * 60 + in_minute i) * 60 + in_second i) * 1000 + in_milli i"

definition instant_millis :: "instant \<Rightarrow> int" where
  "instant_millis i = (int (day_count i) - 719528) * 86400000 + int (time_of_day i)"

text \<open>\<open>Date.parse\<close> on a valid time stamp.\<close>

definition parse_millis :: "string \<Rightarrow> int" where
  "parse_millis s = (case read_instant s of None \<Rightarrow> 0 | Some i \<Rightarrow> instant_millis i)"

section \<open>The calendar is ordered\<close>

definition year_length :: "nat \<Rightarrow> nat" where
  "year_length y = (if leap_year y then 366 else 365)"

lemma div_step: "0 < n \<Longrightarrow> (Suc y + (n - 1)) div n = (y + (n - 1)) div n + (if y mod n = 0 then 1 else 0)" for n :: nat
proof -
  assume n: "0 < n"
  obtain q r where y: "y = n * q + r" and r: "r < n"
    using n by (metis mult_div_mod_eq mod_less_divisor)
  have left: "(Suc y + (n - 1)) div n = q + 1"
  proof -
    have "Suc y + (n - 1) = y + n" using n by simp
    moreover have "y div n = q" using y r by simp
    ultimately show ?thesis using n div_add_self2 [of n y] by simp
  qed
  have right: "(y + (n - 1)) div n = (if r = 0 then q else q + 1)"
  proof (cases "r = 0")
    case True
    then have "y + (n - 1) = (n - 1) + n * q" using y by simp
    moreover have "((n - 1) + n * q) div n = q" using n by (subst div_mult_self2) auto
    ultimately show ?thesis using True by (simp only: refl if_True)
  next
    case False
    then have "y + (n - 1) = (r - 1) + n * (q + 1)" using y n by (simp add: algebra_simps)
    moreover have "((r - 1) + n * (q + 1)) div n = q + 1" using n r by (subst div_mult_self2) auto
    ultimately show ?thesis using False by (simp only: if_False)
  qed
  have "y mod n = r" using y r by simp
  with left right show ?thesis by simp
qed

lemma days_before_Suc: "days_before_year (Suc y) = days_before_year y + year_length y"
proof -
  define a b c where "a = (y + 3) div 4" and "b = (y + 99) div 100" and "c = (y + 399) div 400"
  have steps: "(Suc y + 3) div 4 = a + (if y mod 4 = 0 then 1 else 0)"
    "(Suc y + 99) div 100 = b + (if y mod 100 = 0 then 1 else 0)"
    "(Suc y + 399) div 400 = c + (if y mod 400 = 0 then 1 else 0)"
    using div_step [of 4 y] div_step [of 100 y] div_step [of 400 y] by (simp_all add: a_def b_def c_def)
  have "b \<le> 365 * y"
  proof (cases "y = 0")
    case False
    have "100 * b \<le> y + 99" by (simp add: b_def)
    then show ?thesis using False by linarith
  qed (simp add: b_def)
  moreover have "y mod 100 = 0 \<Longrightarrow> y mod 4 = 0"
  proof -
    assume "y mod 100 = 0"
    then obtain k where "y = 100 * k" by auto
    then have "y = 4 * (25 * k)" by simp
    then show "y mod 4 = 0" by simp
  qed
  moreover have "y mod 400 = 0 \<Longrightarrow> y mod 100 = 0"
  proof -
    assume "y mod 400 = 0"
    then obtain k where "y = 400 * k" by auto
    then have "y = 100 * (4 * k)" by simp
    then show "y mod 100 = 0" by simp
  qed
  ultimately show ?thesis
    unfolding days_before_year_def steps
    unfolding a_def [symmetric] b_def [symmetric] c_def [symmetric] year_length_def leap_year_def
    by (auto simp: algebra_simps)
qed

lemma days_before_mono: "y < y' \<Longrightarrow> days_before_year y + year_length y \<le> days_before_year y'"
proof (induction y')
  case (Suc y')
  then show ?case by (cases "y = y'") (simp_all add: days_before_Suc)
qed simp

lemma month_before: "1 \<le> m \<Longrightarrow> m < m' \<Longrightarrow> days_before_month y m + days_in_month y m \<le> days_before_month y m'"
proof -
  assume m: "1 \<le> m" "m < m'"
  have "[1..<m'] = [1..<m] @ m # [Suc m..<m']"
    using m by (metis less_or_eq_imp_le upt_add_eq_append upt_conv_Cons le_Suc_ex)
  then show ?thesis by (simp add: days_before_month_def)
qed

lemma year_months: "days_before_month y 13 = year_length y"
  by (simp add: days_before_month_def days_in_month_def year_length_def upt_conv_Cons)

lemma day_in_year:
  assumes "instant_ok i"
  shows "days_before_month (in_year i) (in_month i) + (in_day i - 1) < year_length (in_year i)"
proof -
  have "days_before_month (in_year i) (in_month i) + days_in_month (in_year i) (in_month i)
      \<le> days_before_month (in_year i) 13"
    using assms by (intro month_before) (auto simp: instant_ok_def)
  then show ?thesis using assms by (auto simp: instant_ok_def year_months)
qed

definition date_before :: "instant \<Rightarrow> instant \<Rightarrow> bool" where
  "date_before i j \<longleftrightarrow> in_year i < in_year j \<or> in_year i = in_year j \<and>
     (in_month i < in_month j \<or> in_month i = in_month j \<and> in_day i < in_day j)"

definition same_date :: "instant \<Rightarrow> instant \<Rightarrow> bool" where
  "same_date i j \<longleftrightarrow> in_year i = in_year j \<and> in_month i = in_month j \<and> in_day i = in_day j"

lemma day_count_mono:
  assumes "instant_ok i" "instant_ok j" "date_before i j"
  shows "day_count i < day_count j"
proof (cases "in_year i < in_year j")
  case True
  then show ?thesis
    using day_in_year [OF assms(1)] days_before_mono [OF True] by (simp add: day_count_def)
next
  case False
  then have y: "in_year j = in_year i" and rest: "in_month i < in_month j \<or> in_month i = in_month j \<and> in_day i < in_day j"
    using assms(3) by (auto simp: date_before_def)
  show ?thesis
  proof (cases "in_month i < in_month j")
    case True
    then show ?thesis
      using month_before [of "in_month i" "in_month j" "in_year i"] assms y
      by (auto simp: day_count_def instant_ok_def)
  next
    case False
    then show ?thesis using rest y assms by (auto simp: day_count_def instant_ok_def)
  qed
qed

lemma time_of_day_bound: "instant_ok i \<Longrightarrow> in_milli i < 1000 \<Longrightarrow> time_of_day i < 86400000"
  by (auto simp: instant_ok_def time_of_day_def)

definition time_before :: "instant \<Rightarrow> instant \<Rightarrow> bool" where
  "time_before i j \<longleftrightarrow> in_hour i < in_hour j \<or> in_hour i = in_hour j \<and>
     (in_minute i < in_minute j \<or> in_minute i = in_minute j \<and>
     (in_second i < in_second j \<or> in_second i = in_second j \<and> in_milli i < in_milli j))"

lemma time_of_day_mono:
  "instant_ok i \<Longrightarrow> instant_ok j \<Longrightarrow> in_milli i < 1000 \<Longrightarrow> in_milli j < 1000 \<Longrightarrow> time_before i j \<Longrightarrow> time_of_day i < time_of_day j"
  by (auto simp: instant_ok_def time_of_day_def time_before_def)

definition earlier :: "instant \<Rightarrow> instant \<Rightarrow> bool" where
  "earlier i j \<longleftrightarrow> date_before i j \<or> same_date i j \<and> time_before i j"

lemma date_total: "date_before i j \<or> same_date i j \<or> date_before j i"
  unfolding date_before_def same_date_def by linarith

lemma time_total:
  "time_before i j \<or> time_before j i \<or>
    in_hour i = in_hour j \<and> in_minute i = in_minute j \<and> in_second i = in_second j \<and> in_milli i = in_milli j"
  unfolding time_before_def by linarith

lemma earlier_total: "earlier i j \<or> i = j \<or> earlier j i"
proof -
  have "i = j" if "same_date i j" "in_hour i = in_hour j" "in_minute i = in_minute j" "in_second i = in_second j"
    "in_milli i = in_milli j"
    using that by (simp add: same_date_def)
  moreover have "same_date i j \<Longrightarrow> same_date j i" by (simp add: same_date_def)
  ultimately show ?thesis
    using date_total [of i j] time_total [of i j] unfolding earlier_def by blast
qed

lemma earlier_millis:
  assumes "instant_ok i" "instant_ok j" "in_milli i < 1000" "in_milli j < 1000" "earlier i j"
  shows "instant_millis i < instant_millis j"
  using assms(5) unfolding earlier_def
proof
  assume "date_before i j"
  then have "day_count i < day_count j" using assms by (intro day_count_mono)
  then show ?thesis
    using time_of_day_bound [OF assms(1,3)] by (simp add: instant_millis_def)
next
  assume same: "same_date i j \<and> time_before i j"
  then have "day_count i = day_count j" by (simp add: same_date_def day_count_def)
  moreover have "time_of_day i < time_of_day j" using same assms by (intro time_of_day_mono) auto
  ultimately show ?thesis by (simp add: instant_millis_def)
qed

lemma millis_earlier:
  assumes "instant_ok i" "instant_ok j" "in_milli i < 1000" "in_milli j < 1000"
  shows "instant_millis i < instant_millis j \<longleftrightarrow> earlier i j"
proof
  assume lt: "instant_millis i < instant_millis j"
  show "earlier i j"
  proof (rule ccontr)
    assume "\<not> earlier i j"
    then consider "i = j" | "earlier j i" using earlier_total by blast
    then show False
      using lt earlier_millis [OF assms(2,1,4,3)] by cases auto
  qed
qed (rule earlier_millis [OF assms])

section \<open>The order of the texts\<close>

lemma digit_less: "is_digit c \<Longrightarrow> is_digit d \<Longrightarrow> c < d \<longleftrightarrow> digit_value c < digit_value d"
  by (auto simp: is_digit_def digit_value_def code_def less_char_def)

lemma digit_same: "is_digit c \<Longrightarrow> is_digit d \<Longrightarrow> c = d \<longleftrightarrow> digit_value c = digit_value d"
  using digit_less [of c d] digit_less [of d c] by (metis less_irrefl neq_iff)

lemma digit_bound: "is_digit c \<Longrightarrow> digit_value c < 10"
  by (auto simp: is_digit_def digit_value_def)

lemma decimal_value_Cons: "decimal_value (c # s) = digit_value c * 10 ^ length s + decimal_value s"
proof -
  have "foldl (\<lambda>n c. 10 * n + digit_value c) a s = a * 10 ^ length s + foldl (\<lambda>n c. 10 * n + digit_value c) 0 s" for a
  proof (induction s arbitrary: a)
    case (Cons d s)
    from Cons [of "10 * a + digit_value d"] Cons [of "digit_value d"] show ?case
      by (simp add: algebra_simps)
  qed simp
  from this [of "digit_value c"] show ?thesis by (simp add: decimal_value_def)
qed

lemma decimal_bound: "list_all is_digit s \<Longrightarrow> decimal_value s < 10 ^ length s"
proof (induction s)
  case Nil
  then show ?case by (simp add: decimal_value_def)
next
  case (Cons c s)
  then have "digit_value c \<le> 9" "decimal_value s < 10 ^ length s" using digit_bound [of c] by auto
  then have "digit_value c * 10 ^ length s + decimal_value s < 9 * 10 ^ length s + 10 ^ length s"
    by (intro add_le_less_mono mult_right_mono) auto
  then show ?case by (simp add: decimal_value_Cons)
qed

lemma digits_less:
  "length s = length t \<Longrightarrow> list_all is_digit s \<Longrightarrow> list_all is_digit t
    \<Longrightarrow> (s < t \<longleftrightarrow> decimal_value s < decimal_value t) \<and> (s = t \<longleftrightarrow> decimal_value s = decimal_value t)"
proof (induction s t rule: list_induct2)
  case (Cons c s d t)
  let ?n = "10 ^ length s :: nat"
  have b: "decimal_value s < ?n" "decimal_value t < ?n"
    using Cons.prems decimal_bound [of s] decimal_bound [of t] Cons.hyps by auto
  have dig: "is_digit c" "is_digit d" and rest: "list_all is_digit s" "list_all is_digit t" using Cons.prems by auto
  consider "digit_value c < digit_value d" | "digit_value c = digit_value d" | "digit_value d < digit_value c" by linarith
  then show ?case
  proof cases
    case 1
    then have "digit_value c * ?n + ?n \<le> digit_value d * ?n"
      by (metis Suc_leI add.commute mult_Suc mult_le_mono1)
    then show ?thesis
      using 1 b Cons.hyps digit_less [OF dig] digit_same [OF dig] by (auto simp: decimal_value_Cons)
  next
    case 2
    then have "c = d" using digit_same [OF dig] by simp
    then show ?thesis using Cons.IH [OF rest] Cons.hyps by (simp add: decimal_value_Cons)
  next
    case 3
    then have "digit_value d * ?n + ?n \<le> digit_value c * ?n"
      by (metis Suc_leI add.commute mult_Suc mult_le_mono1)
    then show ?thesis
      using 3 b Cons.hyps digit_less [OF dig] digit_same [OF dig] by (auto simp: decimal_value_Cons)
  qed
qed (simp add: decimal_value_def)

lemma prefix_less: "length s = length t \<Longrightarrow> s @ u < t @ v \<longleftrightarrow> s < t \<or> s = t \<and> u < v" for s :: "'a::linorder list"
  by (induction s t rule: list_induct2) auto

text \<open>A shaped text is its groups of digits and its separators.\<close>

lemma list_explode: "length s = 24 \<Longrightarrow> s = map ((!) s) [0..<24]"
  by (metis map_nth)

lemma iso_groups:
  assumes "iso_shape s"
  shows "s = slice 0 4 s @ ''-'' @ slice 5 2 s @ ''-'' @ slice 8 2 s @ ''T'' @ slice 11 2 s @ '':'' @ slice 14 2 s
    @ '':'' @ slice 17 2 s @ ''.'' @ slice 20 3 s @ ''Z''"
proof -
  have step: "i < length s \<Longrightarrow> s ! i = c \<Longrightarrow> drop i s = c # drop (Suc i) s" for i c
    using Cons_nth_drop_Suc by metis
  have cut: "drop i s = slice i n s @ drop (i + n) s" for i n
    by (simp add: slice_def) (metis append_take_drop_id drop_drop add.commute)
  note sh = assms [unfolded iso_shape_def]
  have "s = slice 0 4 s @ drop 4 s" using cut [of 0 4] by simp
  also have "drop 4 s = ''-'' @ slice 5 2 s @ drop 7 s" using sh step [of 4] cut [of 5 2] by simp
  also have "drop 7 s = ''-'' @ slice 8 2 s @ drop 10 s" using sh step [of 7] cut [of 8 2] by simp
  also have "drop 10 s = ''T'' @ slice 11 2 s @ drop 13 s" using sh step [of 10] cut [of 11 2] by simp
  also have "drop 13 s = '':'' @ slice 14 2 s @ drop 16 s" using sh step [of 13] cut [of 14 2] by simp
  also have "drop 16 s = '':'' @ slice 17 2 s @ drop 19 s" using sh step [of 16] cut [of 17 2] by simp
  also have "drop 19 s = ''.'' @ slice 20 3 s @ drop 23 s" using sh step [of 19] cut [of 20 3] by simp
  also have "drop 23 s = ''Z''" using sh step [of 23] by simp
  finally show ?thesis .
qed

lemma digits_at_Some: "digits_at i n s = Some k \<longleftrightarrow> list_all is_digit (slice i n s) \<and> k = decimal_value (slice i n s)"
  by (auto simp: digits_at_def Let_def)

lemma slice_length: "iso_shape s \<Longrightarrow> i + n \<le> 24 \<Longrightarrow> length (slice i n s) = n"
  by (simp add: slice_def iso_shape_def)

lemma read_instant_Some:
  assumes "read_instant s = Some i"
  shows "iso_shape s" "instant_ok i" "in_milli i < 1000"
    "digits_at 0 4 s = Some (in_year i)" "digits_at 5 2 s = Some (in_month i)" "digits_at 8 2 s = Some (in_day i)"
    "digits_at 11 2 s = Some (in_hour i)" "digits_at 14 2 s = Some (in_minute i)" "digits_at 17 2 s = Some (in_second i)"
    "digits_at 20 3 s = Some (in_milli i)"
proof -
  from assms show all: "iso_shape s" "instant_ok i"
    "digits_at 0 4 s = Some (in_year i)" "digits_at 5 2 s = Some (in_month i)" "digits_at 8 2 s = Some (in_day i)"
    "digits_at 11 2 s = Some (in_hour i)" "digits_at 14 2 s = Some (in_minute i)" "digits_at 17 2 s = Some (in_second i)"
    "digits_at 20 3 s = Some (in_milli i)"
    by (auto simp: read_instant_def bind_eq_Some_conv Let_def)
  show "in_milli i < 1000"
    using all decimal_bound [of "slice 20 3 s"] slice_length [of s 20 3] by (simp add: digits_at_Some)
qed

lemma group_less:
  assumes "iso_shape s" "iso_shape t" "i + n \<le> 24" "digits_at i n s = Some k" "digits_at i n t = Some l"
  shows "slice i n s @ u < slice i n t @ v \<longleftrightarrow> k < l \<or> k = l \<and> u < v"
  using assms digits_less [of "slice i n s" "slice i n t"] prefix_less [of "slice i n s" "slice i n t" u v]
  by (simp add: slice_length digits_at_Some)

theorem text_order:
  assumes "read_instant s = Some i" "read_instant t = Some j"
  shows "s < t \<longleftrightarrow> earlier i j"
proof -
  note a = read_instant_Some [OF assms(1)] and b = read_instant_Some [OF assms(2)]
  note g = group_less [OF a(1) b(1)]
  show ?thesis
    apply (subst iso_groups [OF a(1)], subst iso_groups [OF b(1)])
    using a b by (auto simp: g earlier_def date_before_def same_date_def time_before_def)
qed

end
