(* ===== verification/Payment_Wire.thy ===== *)
theory Payment_Wire
  imports Captured_Records Bytes_Text
begin

text \<open>
  The x402 wire format (\<open>src/src/x402-wire.js\<close>): the snapshots of payment requirements and
  resources, when two of them are the same, the envelopes \<open>PaymentRequired\<close> and \<open>PaymentPayload\<close>
  with their structural checks, payment capabilities, and the base64 JSON of the headers.
  A check that throws gives \<^const>\<open>None\<close> (or \<^const>\<open>False\<close>); the source distinguishes its failures
  only by message.

  Parameters: the WHATWG parser \<open>new URL\<close> as a function from a text to the four parts that are
  looked at, the strict UTF-8 encoder and decoder, and \<open>JSON.parse\<close>. A property that is not an
  enumerable data property makes every check fail; the source lets some hidden properties pass
  that no check reads. Freezing is not modelled, so \<open>createPaymentCapabilities\<close> is, and
  \<open>snapshotPaymentCapabilities\<close>, which asks for frozen input, is not.
\<close>

section \<open>Objects and arrays\<close>

text \<open>\<open>isPlainObject\<close>, and \<open>readExactEnumerableDataObject\<close>: the members in order.\<close>

definition data_members :: "(string \<times> jsval property) list \<Rightarrow> fields option" where
  "data_members props = all_some (map (\<lambda>(k, p). map_option (Pair k) (data_value p)) props)"

fun plain_members :: "jsval \<Rightarrow> fields option" where
  "plain_members (VObject p symbolic props) = (if p = ForeignProto then None else data_members props)"
| "plain_members _ = None"

fun exact_data_object :: "string list \<Rightarrow> string list \<Rightarrow> jsval \<Rightarrow> fields option" where
  "exact_data_object required optional (VObject p symbolic props) =
     (if p = ForeignProto \<or> symbolic
        \<or> \<not> (\<forall>k \<in> set (map fst props). k \<in> set required \<or> k \<in> set optional)
        \<or> \<not> (\<forall>k \<in> set required. k \<in> set (map fst props)) then None
      else data_members props)"
| "exact_data_object required optional _ = None"

text \<open>\<open>readDataArray\<close> with \<open>requireEnumerableItems\<close>.\<close>

fun data_array :: "nat \<Rightarrow> bool \<Rightarrow> jsval \<Rightarrow> jsval list option" where
  "data_array limit allow_empty (VArray form props) =
     (if \<not> is_ordinary form \<or> (\<not> allow_empty \<and> props = []) \<or> limit < length props then None
      else all_some (map data_value props))"
| "data_array limit allow_empty _ = None"

section \<open>Requirements\<close>

definition max_zenon_amount :: nat where
  "max_zenon_amount = 2 ^ 255 - 1"

text \<open>\<open>validateCanonicalZenonAmount\<close>.\<close>

definition wire_amount :: "string \<Rightarrow> bool" where
  "wire_amount s \<longleftrightarrow> positive_decimal s \<and> decimal_value s \<le> max_zenon_amount"

record wire_chain =
  ch_identifier :: string
  ch_genesis :: string

definition mock_wire_chain :: wire_chain where
  "mock_wire_chain = \<lparr>ch_identifier = ''9007199254740991'', ch_genesis = replicate 64 (CHR ''0'')\<rparr>"

text \<open>\<open>validateZenonChainProfileSnapshot\<close> on the captured members.\<close>

definition as_wire_chain :: "fields \<Rightarrow> wire_chain option" where
  "as_wire_chain o' = do {
     guard (safe_integer (field ''version'' o') = Some 1);
     i \<leftarrow> string_value (field ''chainIdentifier'' o');
     guard (length i \<le> 20 \<and> positive_decimal i);
     guard (\<not> (2 ^ 64 - 1 < decimal_value i) \<and> int (decimal_value i) \<le> max_safe);
     g \<leftarrow> satisfying is_hex64 (string_value (field ''genesisMomentumHash'' o'));
     Some \<lparr>ch_identifier = i, ch_genesis = g\<rparr>
   }"

definition chain_profile_fields :: "string list" where
  "chain_profile_fields = [''version'', ''chainIdentifier'', ''genesisMomentumHash'']"

definition validate_wire_chain :: "jsval \<Rightarrow> wire_chain option" where
  "validate_wire_chain v = Option.bind (exact_data_object chain_profile_fields [] v) as_wire_chain"

datatype network = Testnet | Mock

fun network_text :: "network \<Rightarrow> string" where
  "network_text Testnet = ''zenon:testnet''"
| "network_text Mock = ''zenon:mock''"

definition as_network :: "string \<Rightarrow> network option" where
  "as_network s = (if s = network_text Testnet then Some Testnet else if s = network_text Mock then Some Mock else None)"

text \<open>
  A validated requirement: scheme \<open>exact\<close>, \<open>poc: true\<close> and settlement \<open>account-block\<close> are fixed;
  \<open>rq_upfront\<close> says that \<open>paymentFlow: 'upfront'\<close> is present.
\<close>

record requirement =
  rq_network :: network
  rq_asset :: string
  rq_amount :: string
  rq_payTo :: string
  rq_timeout :: int
  rq_upfront :: bool
  rq_chain :: wire_chain
  rq_minimum :: "int option"

definition present_text :: "jsval \<Rightarrow> string option" where
  "present_text v = satisfying (\<lambda>s. s \<noteq> []) (string_value v)"

text \<open>\<open>validateRequirementSnapshot\<close>, on the members of the requirement and of its \<open>extra\<close>.\<close>

definition as_minimum :: "network \<Rightarrow> fields \<Rightarrow> int option option" where
  "as_minimum n extra = (if \<not> has_own ''minimumMomentumConfirmations'' extra then Some None
     else if n = Mock then None
     else map_option Some (satisfying (\<lambda>m. 2 \<le> m \<and> m \<le> 30) (safe_integer (field ''minimumMomentumConfirmations'' extra))))"

definition as_requirement :: "bool \<Rightarrow> fields \<Rightarrow> fields \<Rightarrow> fields \<Rightarrow> requirement option" where
  "as_requirement active root extra chain = do {
     scheme \<leftarrow> present_text (field ''scheme'' root);
     net \<leftarrow> present_text (field ''network'' root);
     asset \<leftarrow> present_text (field ''asset'' root);
     amount \<leftarrow> present_text (field ''amount'' root);
     pay_to \<leftarrow> present_text (field ''payTo'' root);
     guard (length asset \<le> 128 \<and> length pay_to \<le> 128 \<and> length amount \<le> 77);
     guard (scheme = ''exact'');
     n \<leftarrow> as_network net;
     guard (wire_amount amount);
     timeout \<leftarrow> satisfying (\<lambda>t. 0 < t \<and> t \<le> 300) (safe_integer (field ''maxTimeoutSeconds'' root));
     guard (field ''poc'' extra = VBool True \<and> field ''settlement'' extra = VStr ''account-block'');
     guard (\<not> has_own ''paymentFlow'' extra \<or> field ''paymentFlow'' extra = VStr ''upfront'');
     guard (active \<longrightarrow> has_own ''paymentFlow'' extra);
     c \<leftarrow> as_wire_chain chain;
     guard (n = Mock \<longrightarrow> c = mock_wire_chain);
     guard (n \<noteq> Mock \<longrightarrow> c \<noteq> mock_wire_chain \<and> ch_genesis c \<noteq> ch_genesis mock_wire_chain);
     minimum \<leftarrow> as_minimum n extra;
     Some \<lparr>rq_network = n, rq_asset = asset, rq_amount = amount, rq_payTo = pay_to, rq_timeout = timeout,
       rq_upfront = has_own ''paymentFlow'' extra, rq_chain = c, rq_minimum = minimum\<rparr>
   }"

definition requirement_fields :: "string list" where
  "requirement_fields = [''scheme'', ''network'', ''asset'', ''amount'', ''payTo'', ''maxTimeoutSeconds'', ''extra'']"

definition extra_fields :: "string list" where
  "extra_fields = [''poc'', ''settlement'', ''zenonChain'']"

definition extra_optional_fields :: "string list" where
  "extra_optional_fields = [''paymentFlow'', ''minimumMomentumConfirmations'']"

text \<open>\<open>snapshotRequirement\<close>.\<close>

definition snapshot_requirement :: "bool \<Rightarrow> jsval \<Rightarrow> requirement option" where
  "snapshot_requirement active v = do {
     root \<leftarrow> exact_data_object requirement_fields [] v;
     extra \<leftarrow> exact_data_object extra_fields extra_optional_fields (field ''extra'' root);
     chain \<leftarrow> exact_data_object chain_profile_fields [] (field ''zenonChain'' extra);
     as_requirement active root extra chain
   }"

text \<open>The object that the snapshot is, with its members in the order of the source.\<close>

definition chain_json :: "wire_chain \<Rightarrow> json" where
  "chain_json c = JObj [(''version'', JNum 1), (''chainIdentifier'', JStr (ch_identifier c)),
     (''genesisMomentumHash'', JStr (ch_genesis c))]"

definition extra_json :: "requirement \<Rightarrow> json" where
  "extra_json r = JObj ((if rq_upfront r then [(''paymentFlow'', JStr ''upfront'')] else [])
     @ [(''poc'', JBool True), (''settlement'', JStr ''account-block''), (''zenonChain'', chain_json (rq_chain r))]
     @ (case rq_minimum r of None \<Rightarrow> [] | Some m \<Rightarrow> [(''minimumMomentumConfirmations'', JNum m)]))"

definition requirement_json :: "requirement \<Rightarrow> json" where
  "requirement_json r = JObj [(''scheme'', JStr ''exact''), (''network'', JStr (network_text (rq_network r))),
     (''asset'', JStr (rq_asset r)), (''amount'', JStr (rq_amount r)), (''payTo'', JStr (rq_payTo r)),
     (''maxTimeoutSeconds'', JNum (rq_timeout r)), (''extra'', extra_json r)]"

text \<open>\<open>effectiveMinimumMomentumConfirmations\<close>.\<close>

definition minimum_confirmations :: "requirement \<Rightarrow> int" where
  "minimum_confirmations r = (case rq_minimum r of None \<Rightarrow> 1 | Some m \<Rightarrow> m)"

definition effective_minimum :: "jsval \<Rightarrow> int option" where
  "effective_minimum v = map_option minimum_confirmations (snapshot_requirement True v)"

text \<open>\<open>sameRequirements\<close>.\<close>

definition same_requirements :: "jsval \<Rightarrow> jsval \<Rightarrow> bool" where
  "same_requirements a b = (case (snapshot_requirement False a, snapshot_requirement False b) of
     (Some l, Some r) \<Rightarrow> rq_network l = rq_network r \<and> rq_asset l = rq_asset r \<and> rq_amount l = rq_amount r
       \<and> rq_payTo l = rq_payTo r \<and> rq_timeout l = rq_timeout r \<and> rq_upfront l = rq_upfront r
       \<and> rq_minimum l = rq_minimum r \<and> ch_identifier (rq_chain l) = ch_identifier (rq_chain r)
       \<and> ch_genesis (rq_chain l) = ch_genesis (rq_chain r)
   | _ \<Rightarrow> False)"

section \<open>Resources\<close>

record url_parts =
  url_protocol :: string
  url_hostname :: string
  url_username :: string
  url_password :: string

type_synonym url_parser = "string \<Rightarrow> url_parts option"

definition http_url :: "url_parts \<Rightarrow> bool" where
  "http_url u \<longleftrightarrow> (url_protocol u = ''http:'' \<or> url_protocol u = ''https:'') \<and> url_username u = [] \<and> url_password u = []"

record resource =
  re_url :: string
  re_description :: "string option"
  re_mimeType :: "string option"
  re_serviceName :: "string option"
  re_tags :: "string list option"
  re_iconUrl :: "string option"

definition printable_ascii :: "string \<Rightarrow> bool" where
  "printable_ascii s \<longleftrightarrow> list_all (\<lambda>c. 32 \<le> code c \<and> code c \<le> 126) s"

text \<open>\<open>validateResourceServiceName\<close> and the tags: 1 to 32 printable characters.\<close>

definition service_text :: "string \<Rightarrow> bool" where
  "service_text s \<longleftrightarrow> s \<noteq> [] \<and> length s \<le> 32 \<and> printable_ascii s"

text \<open>\<open>validateResourceIconUrl\<close>.\<close>

definition icon_url :: "url_parser \<Rightarrow> string \<Rightarrow> bool" where
  "icon_url url s \<longleftrightarrow> s \<noteq> [] \<and> length s \<le> 2048
     \<and> (case url s of None \<Rightarrow> False | Some u \<Rightarrow> http_url u \<and> url_hostname u \<noteq> [])"

definition as_tags :: "jsval \<Rightarrow> string list option" where
  "as_tags v = Option.bind (data_array 5 True v) (\<lambda>vs. all_some (map (\<lambda>t. satisfying service_text (string_value t)) vs))"

text \<open>An optional member: absent, or readable.\<close>

definition optional_member :: "string \<Rightarrow> (jsval \<Rightarrow> 'a option) \<Rightarrow> fields \<Rightarrow> 'a option option" where
  "optional_member k f o' = (if has_own k o' then map_option Some (f (field k o')) else Some None)"

definition resource_fields :: "string list" where
  "resource_fields = [''url'', ''description'', ''mimeType'', ''serviceName'', ''tags'', ''iconUrl'']"

definition resource_optional_fields :: "string list" where
  "resource_optional_fields = [''description'', ''mimeType'', ''serviceName'', ''tags'', ''iconUrl'']"

text \<open>\<open>snapshotValidatedResource\<close>.\<close>

definition snapshot_resource :: "url_parser \<Rightarrow> jsval \<Rightarrow> resource option" where
  "snapshot_resource url v = do {
     o' \<leftarrow> exact_data_object [''url''] resource_optional_fields v;
     u \<leftarrow> present_text (field ''url'' o');
     description \<leftarrow> optional_member ''description'' string_value o';
     mime \<leftarrow> optional_member ''mimeType'' string_value o';
     service \<leftarrow> optional_member ''serviceName'' (\<lambda>v. satisfying service_text (string_value v)) o';
     tags \<leftarrow> optional_member ''tags'' as_tags o';
     icon \<leftarrow> optional_member ''iconUrl'' (\<lambda>v. satisfying (icon_url url) (string_value v)) o';
     guard (length u \<le> 4096);
     guard (case description of None \<Rightarrow> True | Some s \<Rightarrow> length s \<le> 4096);
     guard (case mime of None \<Rightarrow> True | Some s \<Rightarrow> length s \<le> 256);
     p \<leftarrow> url u;
     guard (http_url p);
     guard (case mime of None \<Rightarrow> True | Some s \<Rightarrow> list_all (\<lambda>c. code c \<noteq> 10 \<and> code c \<noteq> 13) s);
     Some \<lparr>re_url = u, re_description = description, re_mimeType = mime, re_serviceName = service,
       re_tags = tags, re_iconUrl = icon\<rparr>
   }"

definition validate_resource :: "url_parser \<Rightarrow> jsval \<Rightarrow> bool" where
  "validate_resource url v \<longleftrightarrow> snapshot_resource url v \<noteq> None"

text \<open>\<open>sameResource\<close>: presence, then values, then the tags one by one.\<close>

definition same_resource :: "url_parser \<Rightarrow> jsval \<Rightarrow> jsval \<Rightarrow> bool" where
  "same_resource url a b = (case (snapshot_resource url a, snapshot_resource url b) of
     (Some l, Some r) \<Rightarrow> re_url l = re_url r \<and> re_description l = re_description r \<and> re_mimeType l = re_mimeType r
       \<and> re_serviceName l = re_serviceName r \<and> re_iconUrl l = re_iconUrl r
       \<and> (case (re_tags l, re_tags r) of
            (None, None) \<Rightarrow> True
          | (Some s, Some t) \<Rightarrow> length s = length t \<and> (\<forall>i < length s. s ! i = t ! i)
          | _ \<Rightarrow> False)
   | _ \<Rightarrow> False)"

end
