(* ===== verification/Payment_Envelope.thy ===== *)
theory Payment_Envelope
  imports Payment_Wire
begin

text \<open>
  The messages around requirements and resources (\<open>src/src/x402-wire.js\<close>): \<open>PaymentRequired\<close>,
  \<open>PaymentPayload\<close>, the capabilities that are advertised, and the headers that carry them as
  base64 JSON. The strict UTF-8 decoder and \<open>JSON.parse\<close> are parameters of the header's reader.
\<close>

section \<open>Envelopes\<close>

text \<open>\<open>assertExactKeys\<close>: enumerable string keys only; symbols are not looked at.\<close>

definition assert_exact_keys :: "string list \<Rightarrow> string list \<Rightarrow> jsval \<Rightarrow> fields option" where
  "assert_exact_keys required optional v = do {
     o' \<leftarrow> plain_members v;
     guard (\<forall>(k, _) \<in> set o'. k \<in> set required \<or> k \<in> set optional);
     guard (\<forall>k \<in> set required. has_own k o');
     Some o'
   }"

text \<open>\<open>validateEmptyExtensionsProperty\<close>.\<close>

fun empty_object :: "jsval \<Rightarrow> bool" where
  "empty_object (VObject p symbolic props) \<longleftrightarrow> p \<noteq> ForeignProto \<and> \<not> symbolic \<and> props = []"
| "empty_object _ \<longleftrightarrow> False"

definition extensions_ok :: "bool \<Rightarrow> fields \<Rightarrow> bool" where
  "extensions_ok undefined_absent o' \<longleftrightarrow> \<not> has_own ''extensions'' o'
     \<or> undefined_absent \<and> field ''extensions'' o' = VUndefined
     \<or> empty_object (field ''extensions'' o')"

fun plain_object :: "jsval \<Rightarrow> bool" where
  "plain_object (VObject p symbolic props) \<longleftrightarrow> p \<noteq> ForeignProto"
| "plain_object _ \<longleftrightarrow> False"

fun accepted_requirements :: "jsval \<Rightarrow> requirement list option" where
  "accepted_requirements (VArray form props) =
     (if \<not> is_ordinary form \<or> props = [] then None
      else all_some (map (\<lambda>p. Option.bind (data_value p) (snapshot_requirement False)) props))"
| "accepted_requirements _ = None"

text \<open>\<open>validatePaymentRequiredOuter\<close> and \<open>validatePaymentRequired\<close>.\<close>

definition payment_error_ok :: "fields \<Rightarrow> bool" where
  "payment_error_ok o' \<longleftrightarrow> \<not> has_own ''error'' o' \<or> field ''error'' o' = VUndefined
     \<or> string_value (field ''error'' o') \<noteq> None"

definition validate_payment_required :: "url_parser \<Rightarrow> jsval \<Rightarrow> (resource \<times> requirement list) option" where
  "validate_payment_required url v = do {
     o' \<leftarrow> assert_exact_keys [''x402Version'', ''resource'', ''accepts''] [''error'', ''extensions''] v;
     guard (extensions_ok False o');
     guard (safe_integer (field ''x402Version'' o') = Some 2);
     r \<leftarrow> snapshot_resource url (field ''resource'' o');
     guard (payment_error_ok o');
     rs \<leftarrow> accepted_requirements (field ''accepts'' o');
     Some (r, rs)
   }"

text \<open>\<open>validatePaymentPayloadEnvelope\<close>.\<close>

record payment =
  pm_resource :: resource
  pm_accepted :: requirement
  pm_transaction :: jsval
  pm_intentDigest :: string

definition validate_payment_payload :: "url_parser \<Rightarrow> jsval \<Rightarrow> payment option" where
  "validate_payment_payload url v = do {
     o' \<leftarrow> assert_exact_keys [''x402Version'', ''resource'', ''accepted'', ''payload''] [''extensions''] v;
     guard (extensions_ok True o');
     guard (safe_integer (field ''x402Version'' o') = Some 2);
     r \<leftarrow> snapshot_resource url (field ''resource'' o');
     a \<leftarrow> snapshot_requirement False (field ''accepted'' o');
     p \<leftarrow> assert_exact_keys [''transaction'', ''intentDigest''] [] (field ''payload'' o');
     guard (plain_object (field ''transaction'' p));
     d \<leftarrow> satisfying is_hex64 (string_value (field ''intentDigest'' p));
     Some \<lparr>pm_resource = r, pm_accepted = a, pm_transaction = field ''transaction'' p, pm_intentDigest = d\<rparr>
   }"

section \<open>Capabilities\<close>

record payment_route =
  rt_scheme :: string
  rt_network :: string
  rt_flows :: "string list"

definition capability_text :: "jsval \<Rightarrow> string option" where
  "capability_text v = satisfying (\<lambda>s. s \<noteq> [] \<and> length s \<le> 128) (string_value v)"

definition recognized_flows :: "string list" where
  "recognized_flows = [''authorization'', ''upfront'', ''escrow'']"

text \<open>A route of \<open>copyCapabilityRoutes\<close>, and the whole list with its check for duplicates.\<close>

definition as_route :: "jsval \<Rightarrow> payment_route option" where
  "as_route v = do {
     o' \<leftarrow> exact_data_object [''scheme'', ''network'', ''paymentFlows''] [] v;
     s \<leftarrow> capability_text (field ''scheme'' o');
     n \<leftarrow> capability_text (field ''network'' o');
     guard (3 \<le> length n \<and> CHR '':'' \<in> set n);
     vs \<leftarrow> data_array 3 False (field ''paymentFlows'' o');
     flows \<leftarrow> all_some (map (\<lambda>f. satisfying (\<lambda>s. s \<in> set recognized_flows) (string_value f)) vs);
     guard (distinct flows);
     Some \<lparr>rt_scheme = s, rt_network = n, rt_flows = flows\<rparr>
   }"

definition route_key :: "payment_route \<Rightarrow> string" where
  "route_key r = rt_scheme r @ [CHR 0x00] @ rt_network r"

definition create_payment_capabilities :: "jsval \<Rightarrow> payment_route list option" where
  "create_payment_capabilities v = do {
     vs \<leftarrow> data_array 16 False v;
     rs \<leftarrow> all_some (map as_route vs);
     guard (distinct (map route_key rs));
     Some rs
   }"

section \<open>Headers\<close>

text \<open>\<open>Buffer.from(text, 'utf8')\<close> on code units below 256.\<close>

definition utf8_encode :: "string \<Rightarrow> bytes" where
  "utf8_encode s = concat (map (\<lambda>c. if code c < 128 then [of_nat (code c)]
     else [of_nat (192 + code c div 64), of_nat (128 + code c mod 64)]) s)"

definition within :: "nat option \<Rightarrow> nat \<Rightarrow> bool" where
  "within limit n \<longleftrightarrow> (case limit of None \<Rightarrow> True | Some m \<Rightarrow> n \<le> m)"

text \<open>
  \<open>encodeB64Json\<close> and \<open>decodeB64Json\<close>; the limits are natural numbers, absent as \<^const>\<open>None\<close>. The encoder
  is the source's on the values of which \<^const>\<open>stringify\<close> gives the text (\<^const>\<open>exchangeable\<close>); what is
  shown of it is shown for those.
\<close>

definition encode_b64_json :: "nat option \<Rightarrow> json \<Rightarrow> string option" where
  "encode_b64_json max_encoded v = (let t = base64_encode (utf8_encode (stringify v)) in
     if within max_encoded (length t) then Some t else None)"

definition decode_b64_json :: "(bytes \<Rightarrow> string option) \<Rightarrow> (string \<Rightarrow> jsval option) \<Rightarrow> nat \<Rightarrow> nat option \<Rightarrow> jsval \<Rightarrow> jsval option" where
  "decode_b64_json utf8 parse max_decoded max_encoded v = do {
     t \<leftarrow> present_text v;
     guard (within max_encoded (length t) \<and> within max_encoded (utf8_bytes t));
     guard (base64_shape t);
     let b = base64_decode t;
     guard (base64_encode b = t);
     guard (length b \<le> max_decoded);
     s \<leftarrow> utf8 b;
     w \<leftarrow> parse s;
     guard (plain_object w);
     Some w
   }"

section \<open>Requirements read back\<close>

lemma data_members_js: "data_members (map (\<lambda>(k, v). (k, DataProp v)) fs) = Some fs"
  unfolding data_members_def all_some_eq_Some by (induction fs) auto

lemma exact_data_object_obj:
  "exact_data_object required optional (obj fs) = (if set (map fst fs) \<subseteq> set required \<union> set optional
     \<and> set required \<subseteq> set (map fst fs) then Some fs else None)"
proof -
  have "map fst (map (\<lambda>(k, v). (k, DataProp v)) fs) = map fst fs" by (induction fs) auto
  then show ?thesis unfolding obj_def by (auto simp only: exact_data_object.simps data_members_js split: if_splits)
qed

definition wire_chain_ok :: "wire_chain \<Rightarrow> bool" where
  "wire_chain_ok c \<longleftrightarrow> length (ch_identifier c) \<le> 20 \<and> positive_decimal (ch_identifier c)
     \<and> \<not> 2 ^ 64 - 1 < decimal_value (ch_identifier c) \<and> int (decimal_value (ch_identifier c)) \<le> max_safe \<and> is_hex64 (ch_genesis c)"

definition requirement_ok :: "requirement \<Rightarrow> bool" where
  "requirement_ok r \<longleftrightarrow> rq_asset r \<noteq> [] \<and> length (rq_asset r) \<le> 128 \<and> rq_payTo r \<noteq> [] \<and> length (rq_payTo r) \<le> 128
     \<and> rq_amount r \<noteq> [] \<and> length (rq_amount r) \<le> 77 \<and> wire_amount (rq_amount r) \<and> 0 < rq_timeout r \<and> rq_timeout r \<le> 300
     \<and> wire_chain_ok (rq_chain r) \<and> (rq_network r = Mock \<longrightarrow> rq_chain r = mock_wire_chain \<and> rq_minimum r = None)
     \<and> (rq_network r \<noteq> Mock \<longrightarrow> rq_chain r \<noteq> mock_wire_chain \<and> ch_genesis (rq_chain r) \<noteq> ch_genesis mock_wire_chain)
     \<and> (case rq_minimum r of None \<Rightarrow> True | Some m \<Rightarrow> 2 \<le> m \<and> m \<le> 30)"

lemma as_chain_profile_Some: "as_wire_chain o' = Some c \<Longrightarrow> wire_chain_ok c"
  by (auto simp: as_wire_chain_def wire_chain_ok_def bind_eq_Some_conv satisfying_eq_Some)

lemma as_minimum_Some:
  "as_minimum n o' = Some m \<Longrightarrow> (case m of None \<Rightarrow> True | Some k \<Rightarrow> n \<noteq> Mock \<and> 2 \<le> k \<and> k \<le> 30)"
  by (auto simp: as_minimum_def satisfying_eq_Some split: if_splits)

lemma as_requirement_ok:
  assumes "as_requirement active root extra chain = Some r"
  shows "requirement_ok r \<and> (active \<longrightarrow> rq_upfront r)"
proof -
  have "as_wire_chain chain = Some (rq_chain r)" "as_minimum (rq_network r) extra = Some (rq_minimum r)"
    using assms by (auto simp: as_requirement_def bind_eq_Some_conv)
  then have "wire_chain_ok (rq_chain r)"
    "case rq_minimum r of None \<Rightarrow> True | Some k \<Rightarrow> rq_network r \<noteq> Mock \<and> 2 \<le> k \<and> k \<le> 30"
    using as_chain_profile_Some as_minimum_Some by blast+
  moreover have "rq_asset r \<noteq> []" "rq_payTo r \<noteq> []" "rq_amount r \<noteq> []" "length (rq_asset r) \<le> 128" "length (rq_payTo r) \<le> 128"
    "length (rq_amount r) \<le> 77" "wire_amount (rq_amount r)" "0 < rq_timeout r" "rq_timeout r \<le> 300"
    "rq_network r = Mock \<longrightarrow> rq_chain r = mock_wire_chain"
    "rq_network r \<noteq> Mock \<longrightarrow> rq_chain r \<noteq> mock_wire_chain \<and> ch_genesis (rq_chain r) \<noteq> ch_genesis mock_wire_chain"
    "active \<longrightarrow> rq_upfront r"
    using assms by (clarsimp simp: as_requirement_def bind_eq_Some_conv present_text_def satisfying_eq_Some)+
  ultimately show ?thesis
    unfolding requirement_ok_def by (auto split: option.splits)
qed

lemma snapshot_requirement_ok:
  "snapshot_requirement active v = Some r \<Longrightarrow> requirement_ok r \<and> (active \<longrightarrow> rq_upfront r)"
  by (auto simp: snapshot_requirement_def bind_eq_Some_conv dest: as_requirement_ok)

lemma as_network_text [simp]: "as_network (network_text n) = Some n"
  by (cases n) (simp_all add: as_network_def)

lemma chain_read_back: "wire_chain_ok c \<Longrightarrow> as_wire_chain [(''version'', num 1), (''chainIdentifier'', VStr (ch_identifier c)),
     (''genesisMomentumHash'', VStr (ch_genesis c))] = Some c"
  by (simp add: as_wire_chain_def wire_chain_ok_def satisfying_def safe_range_def max_safe_def)

lemma small_safe: "0 \<le> n \<Longrightarrow> n \<le> 300 \<Longrightarrow> safe_range n"
  by (simp add: safe_range_def max_safe_def)

lemma as_requirement_back:
  assumes r: "requirement_ok r" and active: "active \<longrightarrow> rq_upfront r"
    and extra: "field ''poc'' extra = VBool True" "field ''settlement'' extra = VStr ''account-block''"
      "has_own ''paymentFlow'' extra \<longleftrightarrow> rq_upfront r" "rq_upfront r \<Longrightarrow> field ''paymentFlow'' extra = VStr ''upfront''"
      "as_minimum (rq_network r) extra = Some (rq_minimum r)"
  shows "as_requirement active [(''scheme'', VStr ''exact''), (''network'', VStr (network_text (rq_network r))),
     (''asset'', VStr (rq_asset r)), (''amount'', VStr (rq_amount r)), (''payTo'', VStr (rq_payTo r)),
     (''maxTimeoutSeconds'', num (rq_timeout r)), (''extra'', e)] extra
     [(''version'', num 1), (''chainIdentifier'', VStr (ch_identifier (rq_chain r))),
     (''genesisMomentumHash'', VStr (ch_genesis (rq_chain r)))] = Some r"
proof -
  have net: "network_text (rq_network r) \<noteq> []" by (cases "rq_network r") auto
  have "Some \<lparr>rq_network = rq_network r, rq_asset = rq_asset r, rq_amount = rq_amount r, rq_payTo = rq_payTo r,
      rq_timeout = rq_timeout r, rq_upfront = rq_upfront r, rq_chain = rq_chain r, rq_minimum = rq_minimum r\<rparr> = Some r"
    by simp
  with net r active extra show ?thesis
    unfolding as_requirement_def requirement_ok_def
    by (simp add: present_text_def small_safe chain_read_back)
qed

text \<open>A snapshot of a snapshot is the same snapshot.\<close>

lemma snapshot_read_back:
  assumes "requirement_ok r" and "active \<longrightarrow> rq_upfront r"
  shows "snapshot_requirement active (js_of (requirement_json r)) = Some r"
proof -
  let ?chain = "[(''version'', num 1), (''chainIdentifier'', VStr (ch_identifier (rq_chain r))),
     (''genesisMomentumHash'', VStr (ch_genesis (rq_chain r)))]"
  let ?extra = "(if rq_upfront r then [(''paymentFlow'', VStr ''upfront'')] else [])
     @ [(''poc'', VBool True), (''settlement'', VStr ''account-block''), (''zenonChain'', obj ?chain)]
     @ (case rq_minimum r of None \<Rightarrow> [] | Some m \<Rightarrow> [(''minimumMomentumConfirmations'', num m)])"
  let ?root = "[(''scheme'', VStr ''exact''), (''network'', VStr (network_text (rq_network r))),
     (''asset'', VStr (rq_asset r)), (''amount'', VStr (rq_amount r)), (''payTo'', VStr (rq_payTo r)),
     (''maxTimeoutSeconds'', num (rq_timeout r)), (''extra'', obj ?extra)]"
  have image: "js_of (requirement_json r) = obj ?root"
    by (simp add: requirement_json_def extra_json_def chain_json_def js_members_def split: option.splits)
  have root: "exact_data_object requirement_fields [] (obj ?root) = Some ?root"
    unfolding exact_data_object_obj requirement_fields_def by auto
  have chain: "exact_data_object chain_profile_fields [] (obj ?chain) = Some ?chain"
    unfolding exact_data_object_obj chain_profile_fields_def by auto
  have extra: "exact_data_object extra_fields extra_optional_fields (obj ?extra) = Some ?extra"
    unfolding exact_data_object_obj extra_fields_def extra_optional_fields_def by (auto split: option.splits)
  have read: "field ''zenonChain'' ?extra = obj ?chain" "field ''poc'' ?extra = VBool True"
    "field ''settlement'' ?extra = VStr ''account-block''" "has_own ''paymentFlow'' ?extra \<longleftrightarrow> rq_upfront r"
    "rq_upfront r \<Longrightarrow> field ''paymentFlow'' ?extra = VStr ''upfront''"
    "as_minimum (rq_network r) ?extra = Some (rq_minimum r)"
    using assms(1) by (auto simp: as_minimum_def requirement_ok_def small_safe split: option.splits)
  have "as_requirement active ?root ?extra ?chain = Some r"
    using assms read by (intro as_requirement_back) simp_all
  then show ?thesis
    unfolding image snapshot_requirement_def root by (simp add: extra chain read(1) del: append.simps)
qed

text \<open>\<open>sameRequirements\<close> is agreement of the snapshots, \<open>sameResource\<close> of the resources.\<close>

lemma same_requirements_iff:
  "same_requirements a b \<longleftrightarrow> (\<exists>r. snapshot_requirement False a = Some r \<and> snapshot_requirement False b = Some r)"
  unfolding same_requirements_def by (auto split: option.splits)

lemma same_resource_iff:
  "same_resource url a b \<longleftrightarrow> (\<exists>r. snapshot_resource url a = Some r \<and> snapshot_resource url b = Some r)"
proof -
  have "(case (s, t) of (None, None) \<Rightarrow> True | (Some s, Some t) \<Rightarrow> length s = length t \<and> (\<forall>i < length s. s ! i = t ! i)
      | _ \<Rightarrow> False) \<longleftrightarrow> s = t" for s t :: "string list option"
    by (auto simp: list_eq_iff_nth_eq split: option.splits)
  then show ?thesis unfolding same_resource_def by (auto split: option.splits)
qed

end
