(* ===== verification/Journal_Records.thy ===== *)
theory Journal_Records
  imports Journal_Layout Journal_Time Payment_Envelope
begin

text \<open>
  The data of the settlement journal and its validators (\<open>src/src/settlement-journal.js\<close>). A record,
  a tombstone and the journal itself are the JSON objects of the source, read member by member, so
  that the order of keys and everything that is not looked at stay as they are.

  A regular expression converts what it tests to a text, so an array that holds one text passes
  where that text would; \<open>===\<close> between two arrays or objects of a tree is false. SHA-256 (\<open>sha\<close>) and
  the URL parser are parameters. An overflow of the canonical text inside a validator counts as
  invalid.
\<close>

section \<open>Reading members\<close>

text \<open>An absent member reads as \<open>undefined\<close>; all tests treat that as \<^const>\<open>JNull\<close>.\<close>

definition slot :: "string \<Rightarrow> json \<Rightarrow> json" where
  "slot k v = (case entry k v of None \<Rightarrow> JNull | Some x \<Rightarrow> x)"

definition text_slot :: "(string \<Rightarrow> bool) \<Rightarrow> string \<Rightarrow> json \<Rightarrow> bool" where
  "text_slot P k v = (case slot k v of JStr s \<Rightarrow> P s | _ \<Rightarrow> False)"

definition int_slot :: "(int \<Rightarrow> bool) \<Rightarrow> string \<Rightarrow> json \<Rightarrow> bool" where
  "int_slot P k v = (case slot k v of JNum n \<Rightarrow> safe_range n \<and> P n | _ \<Rightarrow> False)"

fun to_text :: "json \<Rightarrow> string" where
  "to_text JNull = []"
| "to_text (JBool b) = (if b then ''true'' else ''false'')"
| "to_text (JNum n) = int_text n"
| "to_text (JStr s) = s"
| "to_text (JArr vs) = join_text (map to_text vs)"
| "to_text (JObj kvs) = ''[object Object]''"

fun primitive :: "json \<Rightarrow> bool" where
  "primitive (JArr vs) = False"
| "primitive (JObj kvs) = False"
| "primitive _ = True"

definition strict_eq :: "json \<Rightarrow> json \<Rightarrow> bool" where
  "strict_eq v w \<longleftrightarrow> primitive v \<and> v = w"

definition hash_test :: "json \<Rightarrow> bool" where
  "hash_test v \<longleftrightarrow> is_hex64 (to_text v)"

definition nonce_test :: "json \<Rightarrow> bool" where
  "nonce_test v \<longleftrightarrow> length (to_text v) = 16 \<and> list_all is_hex (to_text v)"

definition clone_fits :: "nat \<Rightarrow> json \<Rightarrow> bool" where
  "clone_fits limit v \<longleftrightarrow> clone_json limit (js_of v) = Inr v"

section \<open>States of a record\<close>

definition evidence_states :: "string list" where
  "evidence_states = [''VALIDATED'', ''SUBMISSION_ACKNOWLEDGED'', ''SUBMISSION_OUTCOME_UNKNOWN'', ''MOMENTUM_INCLUDED'']"

definition delivery_states :: "string list" where
  "delivery_states = [''NONE'', ''DELIVERY_PENDING'', ''DELIVERED'']"

definition prior_states :: "string list" where
  "prior_states = [''VALIDATED'', ''SUBMISSION_ACKNOWLEDGED'', ''SUBMISSION_OUTCOME_UNKNOWN'']"

definition account_block_fields :: "string list" where
  "account_block_fields = [''version'', ''chainIdentifier'', ''blockType'', ''hash'', ''previousHash'', ''height'',
     ''momentumAcknowledged'', ''address'', ''toAddress'', ''amount'', ''tokenStandard'',
     ''fromBlockHash'', ''data'', ''fusedPlasma'', ''difficulty'', ''nonce'', ''publicKey'', ''signature'']"

definition record_fields :: "string list" where
  "record_fields = [''authorizationKey'', ''transactionHash'', ''chainProfile'', ''intentDigest'',
     ''resourceIdentity'', ''resourceDigest'', ''payer'', ''signedAccountBlock'',
     ''evidenceState'', ''momentumEvidence'', ''deliveryState'', ''cachedResponse'', ''createdAt'', ''updatedAt'']"

definition immutable_fields :: "string list" where
  "immutable_fields = [''authorizationKey'', ''transactionHash'', ''chainProfile'', ''intentDigest'',
     ''resourceIdentity'', ''resourceDigest'', ''payer'', ''signedAccountBlock'']"

definition tombstone_fields :: "string list" where
  "tombstone_fields = [''authorizationKey'', ''transactionHash'', ''chainProfile'', ''intentDigest'',
     ''resourceDigest'', ''payer'', ''signedAccountBlockDigest'', ''priorEvidenceState'',
     ''createdAt'', ''terminalizedAt'', ''lateMomentumEvidence'']"

section \<open>Parts of a record\<close>

text \<open>\<open>validateCanonicalBase64\<close>.\<close>

definition base64_of :: "nat \<Rightarrow> string \<Rightarrow> bool" where
  "base64_of n s \<longleftrightarrow> base64_shape s \<and> length (base64_decode s) = n \<and> base64_encode (base64_decode s) = s"

text \<open>\<open>validateChainProfile\<close>.\<close>

definition valid_chain :: "json \<Rightarrow> bool" where
  "valid_chain p \<longleftrightarrow> exact_keys chain_profile_fields p \<and> slot ''version'' p = JNum 1
     \<and> text_slot (\<lambda>s. length s \<le> 20 \<and> positive_decimal s \<and> int (decimal_value s) \<le> max_safe) ''chainIdentifier'' p
     \<and> hash_test (slot ''genesisMomentumHash'' p)"

definition long_text :: "string \<Rightarrow> bool" where
  "long_text s \<longleftrightarrow> 10 \<le> length s \<and> length s \<le> 128"

definition valid_acknowledged :: "json \<Rightarrow> bool" where
  "valid_acknowledged m \<longleftrightarrow> exact_keys [''hash'', ''height''] m \<and> hash_test (slot ''hash'' m) \<and> int_slot (\<lambda>n. 0 \<le> n) ''height'' m"

text \<open>\<open>validateSignedAccountBlock\<close>.\<close>

definition valid_block :: "json \<Rightarrow> json \<Rightarrow> bool" where
  "valid_block b r \<longleftrightarrow> exact_keys account_block_fields b
     \<and> slot ''version'' b = JNum 1 \<and> slot ''blockType'' b = JNum 2
     \<and> int_slot (\<lambda>n. 0 < n \<and> slot ''chainIdentifier'' (slot ''chainProfile'' r) = JStr (int_text n)) ''chainIdentifier'' b
     \<and> hash_test (slot ''hash'' b) \<and> strict_eq (slot ''hash'' b) (slot ''transactionHash'' r)
     \<and> hash_test (slot ''previousHash'' b) \<and> hash_test (slot ''fromBlockHash'' b)
     \<and> int_slot (\<lambda>n. 0 < n) ''height'' b
     \<and> valid_acknowledged (slot ''momentumAcknowledged'' b)
     \<and> text_slot (\<lambda>a. slot ''payer'' r = JStr a \<and> long_text a) ''address'' b
     \<and> text_slot long_text ''toAddress'' b
     \<and> text_slot (\<lambda>a. length a \<le> 77 \<and> positive_decimal a \<and> decimal_value a \<le> max_zenon_amount) ''amount'' b
     \<and> text_slot long_text ''tokenStandard'' b
     \<and> text_slot (\<lambda>d. base64_of 32 d \<and> slot ''intentDigest'' r = JStr (bytes_hex (base64_decode d))) ''data'' b
     \<and> int_slot (\<lambda>n. 0 \<le> n) ''fusedPlasma'' b \<and> int_slot (\<lambda>n. 0 \<le> n) ''difficulty'' b
     \<and> nonce_test (slot ''nonce'' b) \<and> text_slot (base64_of 32) ''publicKey'' b \<and> text_slot (base64_of 64) ''signature'' b"

definition detail_fields :: "string list" where
  "detail_fields = [''numConfirmations'', ''momentumHeight'', ''momentumHash'', ''momentumTimestamp'']"

text \<open>\<open>validateConfirmationDetail\<close> and \<open>validateMomentumEvidence\<close>.\<close>

definition valid_detail :: "json \<Rightarrow> bool" where
  "valid_detail d \<longleftrightarrow> exact_keys detail_fields d \<and> int_slot (\<lambda>n. 1 \<le> n) ''numConfirmations'' d
     \<and> int_slot (\<lambda>n. 1 \<le> n) ''momentumHeight'' d \<and> text_slot is_hex64 ''momentumHash'' d
     \<and> int_slot (\<lambda>n. 0 \<le> n) ''momentumTimestamp'' d \<and> clone_fits max_evidence_bytes d"

definition valid_evidence :: "json \<Rightarrow> bool" where
  "valid_evidence e \<longleftrightarrow> exact_keys [''observedAt'', ''confirmationDetail''] e \<and> text_slot valid_timestamp ''observedAt'' e
     \<and> valid_detail (slot ''confirmationDetail'' e) \<and> clone_fits max_evidence_bytes e"

definition digest_is :: "(string \<Rightarrow> string) \<Rightarrow> json \<Rightarrow> json \<Rightarrow> bool" where
  "digest_is sha v d \<longleftrightarrow> (case digest_of sha max_record_bytes v of Inl _ \<Rightarrow> False | Inr h \<Rightarrow> d = JStr h)"

definition authorization_json :: "json \<Rightarrow> json" where
  "authorization_json r = JObj [(''domain'', JStr ''zenon-x402-authorization-v1''),
     (''chainProfile'', slot ''chainProfile'' r), (''intentDigest'', slot ''intentDigest'' r),
     (''resourceDigest'', slot ''resourceDigest'' r), (''transactionHash'', slot ''transactionHash'' r)]"

definition text_le :: "json \<Rightarrow> json \<Rightarrow> bool" where
  "text_le a b = (case (a, b) of (JStr s, JStr t) \<Rightarrow> \<not> t < s | _ \<Rightarrow> False)"

section \<open>Records and tombstones\<close>

definition evidence_of :: "json \<Rightarrow> json" where
  "evidence_of r = slot ''evidenceState'' r"

definition delivery_of :: "json \<Rightarrow> json" where
  "delivery_of r = slot ''deliveryState'' r"

text \<open>\<open>validateRecord\<close>.\<close>

definition valid_record :: "(string \<Rightarrow> string) \<Rightarrow> url_parser \<Rightarrow> json \<Rightarrow> bool" where
  "valid_record sha url r \<longleftrightarrow> exact_keys record_fields r
     \<and> hash_test (slot ''authorizationKey'' r) \<and> hash_test (slot ''transactionHash'' r)
     \<and> hash_test (slot ''intentDigest'' r) \<and> hash_test (slot ''resourceDigest'' r)
     \<and> valid_chain (slot ''chainProfile'' r) \<and> validate_resource url (js_of (slot ''resourceIdentity'' r))
     \<and> digest_is sha (slot ''resourceIdentity'' r) (slot ''resourceDigest'' r)
     \<and> digest_is sha (authorization_json r) (slot ''authorizationKey'' r)
     \<and> text_slot long_text ''payer'' r
     \<and> valid_block (slot ''signedAccountBlock'' r) r
     \<and> text_slot (\<lambda>s. s \<in> set evidence_states) ''evidenceState'' r
     \<and> text_slot (\<lambda>s. s \<in> set delivery_states) ''deliveryState'' r
     \<and> text_slot valid_timestamp ''createdAt'' r \<and> text_slot valid_timestamp ''updatedAt'' r
     \<and> text_le (slot ''createdAt'' r) (slot ''updatedAt'' r)
     \<and> (if evidence_of r = JStr ''MOMENTUM_INCLUDED'' then valid_evidence (slot ''momentumEvidence'' r)
        else slot ''momentumEvidence'' r = JNull)
     \<and> (delivery_of r \<noteq> JStr ''NONE'' \<longrightarrow> evidence_of r = JStr ''MOMENTUM_INCLUDED'')
     \<and> (if delivery_of r = JStr ''DELIVERED'' then clone_fits max_cached_response_bytes (slot ''cachedResponse'' r)
        else slot ''cachedResponse'' r = JNull)
     \<and> clone_fits max_record_bytes r"

text \<open>\<open>validateTombstone\<close>.\<close>

definition valid_tombstone :: "(string \<Rightarrow> string) \<Rightarrow> json \<Rightarrow> bool" where
  "valid_tombstone sha t \<longleftrightarrow> exact_keys tombstone_fields t
     \<and> hash_test (slot ''authorizationKey'' t) \<and> hash_test (slot ''transactionHash'' t)
     \<and> hash_test (slot ''intentDigest'' t) \<and> hash_test (slot ''resourceDigest'' t)
     \<and> hash_test (slot ''signedAccountBlockDigest'' t)
     \<and> valid_chain (slot ''chainProfile'' t)
     \<and> digest_is sha (authorization_json t) (slot ''authorizationKey'' t)
     \<and> text_slot long_text ''payer'' t
     \<and> text_slot (\<lambda>s. s \<in> set prior_states) ''priorEvidenceState'' t
     \<and> text_slot valid_timestamp ''createdAt'' t \<and> text_slot valid_timestamp ''terminalizedAt'' t
     \<and> text_le (slot ''createdAt'' t) (slot ''terminalizedAt'' t)
     \<and> (slot ''lateMomentumEvidence'' t = JNull
        \<or> valid_evidence (slot ''lateMomentumEvidence'' t)
          \<and> text_le (slot ''terminalizedAt'' t) (slot ''observedAt'' (slot ''lateMomentumEvidence'' t)))
     \<and> clone_fits max_record_bytes t"

text \<open>\<open>validRetentionMs\<close> and \<open>isRetentionEligible\<close>.\<close>

definition valid_retention :: "int \<Rightarrow> bool" where
  "valid_retention n \<longleftrightarrow> 3600000 \<le> n \<and> n \<le> 2592000000"

definition retention_eligible :: "json \<Rightarrow> string \<Rightarrow> int \<Rightarrow> bool" where
  "retention_eligible r now retention \<longleftrightarrow> valid_retention retention \<and> valid_timestamp now
     \<and> text_slot (\<lambda>s. s \<in> set prior_states) ''evidenceState'' r
     \<and> delivery_of r = JStr ''NONE'' \<and> slot ''momentumEvidence'' r = JNull \<and> slot ''cachedResponse'' r = JNull
     \<and> text_slot (\<lambda>c. parse_millis c \<le> parse_millis now \<and> retention \<le> parse_millis now - parse_millis c) ''createdAt'' r"

text \<open>\<open>tombstoneFromRecord\<close>.\<close>

definition tombstone_from :: "(string \<Rightarrow> string) \<Rightarrow> json \<Rightarrow> string \<Rightarrow> journal_error + json" where
  "tombstone_from sha r now = also_then (clone_json max_record_bytes (js_of (slot ''chainProfile'' r))) (\<lambda>chain.
     case digest_of sha max_record_bytes (JObj [(''domain'', JStr ''zenon-x402-signed-account-block-v1''),
         (''signedAccountBlock'', slot ''signedAccountBlock'' r)]) of
       Inl e \<Rightarrow> Inl (JournalSymbol e)
     | Inr h \<Rightarrow> Inr (JObj [(''authorizationKey'', slot ''authorizationKey'' r), (''transactionHash'', slot ''transactionHash'' r),
         (''chainProfile'', chain), (''intentDigest'', slot ''intentDigest'' r), (''resourceDigest'', slot ''resourceDigest'' r),
         (''payer'', slot ''payer'' r), (''signedAccountBlockDigest'', JStr h), (''priorEvidenceState'', evidence_of r),
         (''createdAt'', slot ''createdAt'' r), (''terminalizedAt'', JStr now), (''lateMomentumEvidence'', JNull)]))"

text \<open>\<open>sameTombstoneIdentity\<close>.\<close>

definition same_tombstone :: "(string \<Rightarrow> string) \<Rightarrow> json \<Rightarrow> json \<Rightarrow> bool" where
  "same_tombstone sha l r \<longleftrightarrow> valid_tombstone sha l \<and> valid_tombstone sha r
     \<and> same_text max_record_bytes (set_entry ''lateMomentumEvidence'' JNull l) (set_entry ''lateMomentumEvidence'' JNull r)"

section \<open>The journal\<close>

definition record_key :: "string \<Rightarrow> string \<Rightarrow> journal_error + string" where
  "record_key a t = (if is_hex64 a \<and> is_hex64 t then Inr (a @ '':'' @ t) else Inl JournalRecordInvalid)"

definition key_of :: "json \<Rightarrow> string" where
  "key_of r = to_text (slot ''authorizationKey'' r) @ '':'' @ to_text (slot ''transactionHash'' r)"

definition journal_records :: "json \<Rightarrow> json" where
  "journal_records data = slot ''records'' data"

text \<open>\<open>journalTombstones\<close> on a valid journal: \<^const>\<open>None\<close> in version 1.\<close>

definition journal_tombstones :: "json \<Rightarrow> json option" where
  "journal_tombstones data = (if slot ''schemaVersion'' data = JNum 2 then Some (slot ''tombstones'' data) else None)"

definition map_entry :: "json option \<Rightarrow> string \<Rightarrow> json option" where
  "map_entry m k = Option.bind m (entry k)"

definition tombstone_list :: "json \<Rightarrow> json list" where
  "tombstone_list data = (case journal_tombstones data of None \<Rightarrow> [] | Some t \<Rightarrow> map snd (members t))"

definition record_list :: "json \<Rightarrow> json list" where
  "record_list data = map snd (members (journal_records data))"

definition max_tombstones :: nat where
  "max_tombstones = 4096"

text \<open>\<open>checksumFor\<close>.\<close>

definition checksum_content :: "json \<Rightarrow> json" where
  "checksum_content data = JObj ([(''schemaVersion'', slot ''schemaVersion'' data), (''revision'', slot ''revision'' data),
     (''records'', journal_records data)]
     @ (case journal_tombstones data of None \<Rightarrow> [] | Some t \<Rightarrow> [(''tombstones'', t)]))"

definition checksum_for :: "(string \<Rightarrow> string) \<Rightarrow> nat \<Rightarrow> json \<Rightarrow> snapshot_error + string" where
  "checksum_for sha limit data = digest_of sha limit (checksum_content data)"

text \<open>
  The two loops of \<open>validateJournalStructure\<close>: every entry is valid and stands under its own key,
  and no authorization or transaction was seen before.
\<close>

definition seen_before :: "json \<Rightarrow> json list \<Rightarrow> bool" where
  "seen_before v seen \<longleftrightarrow> (\<exists>w \<in> set seen. strict_eq v w)"

fun check_entries :: "(json \<Rightarrow> bool) \<Rightarrow> (string \<times> json) list \<Rightarrow> json list \<times> json list \<Rightarrow> (json list \<times> json list) option" where
  "check_entries valid [] seen = Some seen"
| "check_entries valid ((k, e) # kvs) (auths, txs) =
     (if \<not> valid e \<or> k \<noteq> key_of e \<or> seen_before (slot ''authorizationKey'' e) auths
        \<or> seen_before (slot ''transactionHash'' e) txs then None
      else check_entries valid kvs (slot ''authorizationKey'' e # auths, slot ''transactionHash'' e # txs))"

definition journal_fields :: "json \<Rightarrow> string list" where
  "journal_fields data = (if slot ''schemaVersion'' data = JNum 1 then [''schemaVersion'', ''revision'', ''records'', ''checksum'']
     else [''schemaVersion'', ''revision'', ''records'', ''tombstones'', ''checksum''])"

text \<open>\<open>validateJournalStructure\<close> and \<open>validateJournal\<close>; both fail with \<open>journal_corrupt\<close> only.\<close>

definition valid_structure :: "(string \<Rightarrow> string) \<Rightarrow> url_parser \<Rightarrow> nat \<Rightarrow> json \<Rightarrow> bool" where
  "valid_structure sha url max_records data \<longleftrightarrow>
     (slot ''schemaVersion'' data = JNum 1 \<or> slot ''schemaVersion'' data = JNum 2)
     \<and> is_object (journal_records data) \<and> (case journal_tombstones data of None \<Rightarrow> True | Some t \<Rightarrow> is_object t)
     \<and> exact_keys (journal_fields data) data \<and> int_slot (\<lambda>n. 0 \<le> n) ''revision'' data
     \<and> hash_test (slot ''checksum'' data)
     \<and> length (record_list data) \<le> max_records \<and> length (tombstone_list data) \<le> max_tombstones
     \<and> (case check_entries (valid_record sha url) (members (journal_records data)) ([], []) of
          None \<Rightarrow> False
        | Some seen \<Rightarrow> (case journal_tombstones data of None \<Rightarrow> True
            | Some t \<Rightarrow> check_entries (valid_tombstone sha) (members t) seen \<noteq> None))"

definition valid_journal :: "(string \<Rightarrow> string) \<Rightarrow> url_parser \<Rightarrow> nat \<Rightarrow> nat \<Rightarrow> json \<Rightarrow> bool" where
  "valid_journal sha url max_records max_bytes data \<longleftrightarrow> valid_structure sha url max_records data
     \<and> (case checksum_for sha max_bytes data of Inl _ \<Rightarrow> False | Inr c \<Rightarrow> slot ''checksum'' data = JStr c)"

text \<open>\<open>emptyJournal\<close>.\<close>

definition empty_content :: json where
  "empty_content = JObj [(''schemaVersion'', JNum 1), (''revision'', JNum 0), (''records'', JObj [])]"

definition max_file_bytes :: nat where
  "max_file_bytes = 16 * 1024 * 1024"

definition empty_journal :: "(string \<Rightarrow> string) \<Rightarrow> snapshot_error + json" where
  "empty_journal sha = also_then (checksum_for sha max_file_bytes empty_content)
     (\<lambda>c. Inr (JObj (members empty_content @ [(''checksum'', JStr c)])))"

end
