(* ===== verification/Journal_Disk.thy ===== *)
theory Journal_Disk
  imports Journal_Records Programs
begin

text \<open>
  The files of the settlement journal (\<open>#read\<close>, \<open>#write\<close> and the initialization marker of
  \<open>src/src/settlement-journal.js\<close>). The directory is a record of three things: the journal file, the
  marker file, and the temporary files that were left behind. Every call to the operating system is
  a step of its own that consults a script: it succeeds, it fails without effect, or the process
  ends there. Errors of \<open>close\<close> in the \<open>finally\<close> blocks of readers are ignored by the source and
  are not steps. \<open>assertSafeDirectory\<close> is one step that may fail.

  Parameters: SHA-256, \<open>JSON.parse\<close>, the URL parser. \<open>JSON.parse\<close> gives plain data; a number that is
  not a safe integer cannot occur in a valid journal, so reading one is \<open>journal_corrupt\<close>, and
  negative zero reads as zero.
\<close>

section \<open>The directory and its calls\<close>

datatype node = Missing | Regular string | Special

record disk =
  dk_journal :: node
  dk_marker :: node
  dk_leftover :: nat

datatype io_outcome = Succeeds | Fails | Ends

record site =
  st_disk :: disk
  st_script :: "io_outcome list"

type_synonym 'a journal_prog = "(site, journal_error, 'a) prog"

definition next_outcome :: "site \<Rightarrow> io_outcome" where
  "next_outcome s = (case st_script s of [] \<Rightarrow> Succeeds | x # _ \<Rightarrow> x)"

text \<open>A call that raises \<open>e\<close> when it fails and otherwise changes the directory.\<close>

definition syscall :: "journal_error \<Rightarrow> (disk \<Rightarrow> disk) \<Rightarrow> unit journal_prog" where
  "syscall e f s = (let rest = tl (st_script s) in
     case next_outcome s of
       Succeeds \<Rightarrow> (s\<lparr>st_disk := f (st_disk s), st_script := rest\<rparr>, Inr ())
     | Fails \<Rightarrow> (s\<lparr>st_script := rest\<rparr>, Inl e)
     | Ends \<Rightarrow> (s\<lparr>st_script := rest\<rparr>, Inl Halted))"

text \<open>Catching an error; nothing catches the end of the process.\<close>

definition on_error :: "'a journal_prog \<Rightarrow> (journal_error \<Rightarrow> 'a journal_prog) \<Rightarrow> 'a journal_prog" where
  "on_error p h s = (case p s of
     (t, Inl e) \<Rightarrow> if e = Halted then (t, Inl Halted) else h e t
   | (t, Inr v) \<Rightarrow> (t, Inr v))"

record world =
  w_sha :: "string \<Rightarrow> string"
  w_parse :: "string \<Rightarrow> jsval option"
  w_url :: url_parser

record config =
  cf_existing :: bool
  cf_maxRecords :: nat
  cf_maxBytes :: nat

text \<open>The constructor's check of its numbers.\<close>

definition config_ok :: "config \<Rightarrow> bool" where
  "config_ok c \<longleftrightarrow> 1 \<le> cf_maxRecords c \<and> cf_maxRecords c \<le> 10000 \<and> 1024 \<le> cf_maxBytes c \<and> int (cf_maxBytes c) \<le> max_safe"

section \<open>Texts\<close>

function (sequential) plain_json :: "jsval \<Rightarrow> json option"
  and plain_items :: "jsval property list \<Rightarrow> json list option"
  and plain_fields :: "(string \<times> jsval property) list \<Rightarrow> (string \<times> json) list option"
where
  "plain_json v = (case v of
       VNull \<Rightarrow> Some JNull
     | VBool b \<Rightarrow> Some (JBool b)
     | VStr s \<Rightarrow> Some (JStr s)
     | VNum n \<Rightarrow> map_option JNum (safe_integer (VNum n))
     | VArray form props \<Rightarrow> if is_ordinary form then map_option JArr (plain_items props) else None
     | VObject p symbolic props \<Rightarrow> if p = ObjectProto \<and> \<not> symbolic then map_option JObj (plain_fields props) else None
     | _ \<Rightarrow> None)"
| "plain_items [] = Some []"
| "plain_items (HiddenProp # props) = None"
| "plain_items (DataProp v # props) = Option.bind (plain_json v) (\<lambda>j. map_option (Cons j) (plain_items props))"
| "plain_fields [] = Some []"
| "plain_fields ((k, HiddenProp) # props) = None"
| "plain_fields ((k, DataProp v) # props) = Option.bind (plain_json v) (\<lambda>j. map_option (Cons (k, j)) (plain_fields props))"
  by pat_completeness auto

termination
  by (relation "measure (case_sum size
      (case_sum (size_list (size_property size)) (size_list (size_prod (\<lambda>_. 0) (size_property size)))))") auto

declare plain_json.simps [simp del]

text \<open>What \<open>JSON_PARSE\<close> and \<open>validateJournal\<close> make of a file, and the text of a journal.\<close>

definition decode_journal :: "world \<Rightarrow> config \<Rightarrow> string \<Rightarrow> json option" where
  "decode_journal w c t = do {
     guard (utf8_bytes t \<le> cf_maxBytes c);
     v \<leftarrow> w_parse w t;
     data \<leftarrow> plain_json v;
     guard (valid_journal (w_sha w) (w_url w) (cf_maxRecords c) (cf_maxBytes c) data);
     Some data
   }"

definition encode_journal :: "config \<Rightarrow> json \<Rightarrow> journal_error + string" where
  "encode_journal c data = (case stringify_json 2 False (cf_maxBytes c) data of
     Inl SnapshotTooLarge \<Rightarrow> Inl JournalCapacityExceeded
   | Inl InvalidSnapshot \<Rightarrow> Inl JournalWriteFailed
   | Inr t \<Rightarrow> if cf_maxBytes c < utf8_bytes (t @ [CHR 0x0A]) then Inl JournalCapacityExceeded else Inr (t @ [CHR 0x0A]))"

section \<open>The marker\<close>

text \<open>\<open>#hasInitializationMarker\<close>: \<open>lstat\<close>, then \<open>open\<close> and \<open>stat\<close> on a regular file.\<close>

definition has_marker :: "bool journal_prog" where
  "has_marker =
     andthen (syscall JournalMarkerReadFailed id) (\<lambda>_.
     andthen (gets (\<lambda>s. dk_marker (st_disk s))) (\<lambda>n. case n of
       Missing \<Rightarrow> yield False
     | Special \<Rightarrow> raise JournalMarkerCorrupt
     | Regular t \<Rightarrow>
         andthen (syscall JournalMarkerReadFailed id) (\<lambda>_.
         andthen (syscall JournalMarkerReadFailed id) (\<lambda>_.
         if t = [] then yield True else raise JournalMarkerCorrupt))))"

text \<open>\<open>#ensureInitializationMarker\<close>: exclusive creation, \<open>sync\<close>, \<open>close\<close>, \<open>sync\<close> of the directory.\<close>

definition ensure_marker :: "unit journal_prog" where
  "ensure_marker = andthen has_marker (\<lambda>present. if present then yield () else
     andthen (syscall JournalMarkerWriteFailed (\<lambda>d. d\<lparr>dk_marker := Regular []\<rparr>)) (\<lambda>_.
     andthen (syscall JournalMarkerWriteFailed id) (\<lambda>_.
     andthen (syscall JournalMarkerWriteFailed id) (\<lambda>_.
     syscall JournalMarkerSyncFailed id))))"

section \<open>Writing\<close>

text \<open>
  The temporary file: after it was created an error removes it again, unless that fails too. It is
  left behind when the process ends. \<open>rename\<close> makes it the journal.
\<close>

definition unlink_temporary :: "unit journal_prog" where
  "unlink_temporary = on_error (syscall JournalCleanupFailed (\<lambda>d. d\<lparr>dk_leftover := dk_leftover d - 1\<rparr>)) (\<lambda>_. yield ())"

definition guarded_step :: "(disk \<Rightarrow> disk) \<Rightarrow> unit journal_prog" where
  "guarded_step f = on_error (syscall JournalWriteFailed f) (\<lambda>e. andthen unlink_temporary (\<lambda>_. raise e))"

definition replace_file :: "string \<Rightarrow> unit journal_prog" where
  "replace_file t =
     andthen (syscall JournalWriteFailed (\<lambda>d. d\<lparr>dk_leftover := dk_leftover d + 1\<rparr>)) (\<lambda>_.
     andthen (guarded_step id) (\<lambda>_.
     andthen (guarded_step id) (\<lambda>_.
     andthen (guarded_step id) (\<lambda>_.
     guarded_step (\<lambda>d. d\<lparr>dk_journal := Regular t, dk_leftover := dk_leftover d - 1\<rparr>)))))"

text \<open>In \<open>existingOnly\<close> mode the file must still be there just before it is replaced.\<close>

definition check_existing :: "unit journal_prog" where
  "check_existing = andthen (syscall JournalUnsafeFile id) (\<lambda>_.
     andthen (gets (\<lambda>s. dk_journal (st_disk s))) (\<lambda>n. case n of
       Missing \<Rightarrow> raise JournalStateMissing
     | Special \<Rightarrow> raise JournalUnsafeFile
     | Regular t \<Rightarrow> yield ()))"

definition require_marker :: "unit journal_prog" where
  "require_marker = andthen has_marker (\<lambda>present. assure present JournalStateMissing)"

definition sealed :: "world \<Rightarrow> config \<Rightarrow> json \<Rightarrow> journal_error + json" where
  "sealed w c data = also_then (ensure JournalCorrupt (valid_structure (w_sha w) (w_url w) (cf_maxRecords c) data)) (\<lambda>_.
     case checksum_for (w_sha w) (cf_maxBytes c) data of
       Inl SnapshotTooLarge \<Rightarrow> Inl JournalCapacityExceeded
     | Inl InvalidSnapshot \<Rightarrow> Inl JournalWriteFailed
     | Inr h \<Rightarrow> let data' = set_entry ''checksum'' (JStr h) data in
         also_then (ensure JournalCorrupt (valid_journal (w_sha w) (w_url w) (cf_maxRecords c) (cf_maxBytes c) data')) (\<lambda>_. Inr data'))"

text \<open>\<open>#write\<close>.\<close>

definition write_journal :: "world \<Rightarrow> config \<Rightarrow> json \<Rightarrow> unit journal_prog" where
  "write_journal w c data =
     andthen (if cf_existing c then require_marker else yield ()) (\<lambda>_.
     andthen (lift_sum (sealed w c data)) (\<lambda>data'.
     andthen (lift_sum (encode_journal c data')) (\<lambda>t.
     andthen (if cf_existing c then check_existing else yield ()) (\<lambda>_.
     andthen (replace_file t) (\<lambda>_.
     andthen (syscall JournalDirectorySyncFailed id) (\<lambda>_.
     if cf_existing c then require_marker else ensure_marker))))))"

section \<open>Reading\<close>

definition start_journal :: "world \<Rightarrow> config \<Rightarrow> json journal_prog" where
  "start_journal w c = (case empty_journal (w_sha w) of
     Inl e \<Rightarrow> raise JournalReadFailed
   | Inr data \<Rightarrow> andthen (write_journal w c data) (\<lambda>_. yield data))"

text \<open>\<open>#read\<close>.\<close>

definition read_journal :: "world \<Rightarrow> config \<Rightarrow> json journal_prog" where
  "read_journal w c =
     andthen has_marker (\<lambda>initialized.
     andthen (assure (\<not> (cf_existing c \<and> \<not> initialized)) JournalStateMissing) (\<lambda>_.
     andthen (syscall JournalReadFailed id) (\<lambda>_.
     andthen (gets (\<lambda>s. dk_journal (st_disk s))) (\<lambda>n. case n of
       Missing \<Rightarrow> if initialized \<or> cf_existing c then raise JournalStateMissing else start_journal w c
     | Special \<Rightarrow> raise JournalUnsafeFile
     | Regular t \<Rightarrow>
         andthen (syscall JournalReadFailed id) (\<lambda>_.
         andthen (syscall JournalReadFailed id) (\<lambda>_.
         andthen (assure (utf8_bytes t \<le> cf_maxBytes c) JournalCorrupt) (\<lambda>_.
         andthen (syscall JournalReadFailed id) (\<lambda>_.
         andthen (demand (decode_journal w c t) JournalCorrupt) (\<lambda>data.
         andthen (if initialized then yield () else ensure_marker) (\<lambda>_. yield data))))))))))"

text \<open>\<open>#withWriter\<close>: the directory is checked, then the operation runs; the queue runs one at a time.\<close>

definition with_writer :: "'a journal_prog \<Rightarrow> 'a journal_prog" where
  "with_writer p = andthen (syscall JournalUnsafeDirectory id) (\<lambda>_. p)"

section \<open>What the calls do to the directory\<close>

lemma wp_syscall [wp]:
  "wpre (syscall e f) Q E s = (case next_outcome s of
       Succeeds \<Rightarrow> Q () (s\<lparr>st_disk := f (st_disk s), st_script := tl (st_script s)\<rparr>)
     | Fails \<Rightarrow> E e (s\<lparr>st_script := tl (st_script s)\<rparr>)
     | Ends \<Rightarrow> E Halted (s\<lparr>st_script := tl (st_script s)\<rparr>))"
  by (simp add: wpre_def syscall_def Let_def split: io_outcome.splits)

lemma wp_on_error [wp]:
  "wpre (on_error p h) Q E s = wpre p Q (\<lambda>e t. if e = Halted then E e t else wpre (h e) Q E t) s"
  by (auto simp: wpre_def on_error_def split: prod.splits sum.splits)

abbreviation file_of :: "site \<Rightarrow> node" where
  "file_of s \<equiv> dk_journal (st_disk s)"

text \<open>A program that leaves the journal file alone.\<close>

definition keeps_file :: "'a journal_prog \<Rightarrow> bool" where
  "keeps_file p \<longleftrightarrow> (\<forall>s. wpre p (\<lambda>_ t. file_of t = file_of s) (\<lambda>_ t. file_of t = file_of s) s)"

lemma keeps_fileD: "keeps_file p \<Longrightarrow> file_of s = n \<Longrightarrow> wpre p (\<lambda>_ t. file_of t = n) (\<lambda>_ t. file_of t = n) s"
  unfolding keeps_file_def by blast

named_theorems quiet "programs that leave the journal file alone"

lemma quiet_syscall [quiet]: "(\<And>d. dk_journal (f d) = dk_journal d) \<Longrightarrow> keeps_file (syscall e f)"
  by (simp add: keeps_file_def wp split: io_outcome.splits)

lemma quiet_andthen [quiet]: "keeps_file p \<Longrightarrow> (\<And>v. keeps_file (f v)) \<Longrightarrow> keeps_file (andthen p f)"
  unfolding wp keeps_file_def
proof
  fix s
  assume p: "\<forall>s. wpre p (\<lambda>_ t. file_of t = file_of s) (\<lambda>_ t. file_of t = file_of s) s"
    and f: "\<And>v. \<forall>s. wpre (f v) (\<lambda>_ t. file_of t = file_of s) (\<lambda>_ t. file_of t = file_of s) s"
  show "wpre p (\<lambda>v. wpre (f v) (\<lambda>_ t. file_of t = file_of s) (\<lambda>_ t. file_of t = file_of s)) (\<lambda>_ t. file_of t = file_of s) s"
  proof (rule wpre_mono [OF p [THEN spec]])
    fix v t assume "file_of t = file_of s"
    with f [of v] show "wpre (f v) (\<lambda>_ t. file_of t = file_of s) (\<lambda>_ t. file_of t = file_of s) t" by metis
  qed
qed

lemma quiet_on_error [quiet]: "keeps_file p \<Longrightarrow> (\<And>e. keeps_file (h e)) \<Longrightarrow> keeps_file (on_error p h)"
  unfolding wp keeps_file_def
proof
  fix s
  assume p: "\<forall>s. wpre p (\<lambda>_ t. file_of t = file_of s) (\<lambda>_ t. file_of t = file_of s) s"
    and h: "\<And>e. \<forall>s. wpre (h e) (\<lambda>_ t. file_of t = file_of s) (\<lambda>_ t. file_of t = file_of s) s"
  show "wpre p (\<lambda>_ t. file_of t = file_of s) (\<lambda>e t. if e = Halted then file_of t = file_of s
      else wpre (h e) (\<lambda>_ t. file_of t = file_of s) (\<lambda>_ t. file_of t = file_of s) t) s"
  proof (rule wpre_mono [OF p [THEN spec]])
    fix e t assume "file_of t = file_of s"
    with h [of e] show "if e = Halted then file_of t = file_of s
      else wpre (h e) (\<lambda>_ t. file_of t = file_of s) (\<lambda>_ t. file_of t = file_of s) t" by metis
  qed
qed

lemma quiet_plain [quiet]:
  "keeps_file (yield v)" "keeps_file (raise e)" "keeps_file (gets g)" "keeps_file (assure b e)"
  "keeps_file (demand x e)" "keeps_file (lift_sum r)"
  by (simp_all add: keeps_file_def wp split: option.splits sum.splits)

lemma quiet_if [quiet]: "keeps_file p \<Longrightarrow> keeps_file q \<Longrightarrow> keeps_file (if b then p else q)"
  by simp

lemma quiet_node [quiet]: "keeps_file p \<Longrightarrow> keeps_file q \<Longrightarrow> (\<And>t. keeps_file (r t)) \<Longrightarrow>
    keeps_file (case n of Missing \<Rightarrow> p | Regular t \<Rightarrow> r t | Special \<Rightarrow> q)"
  by (simp split: node.splits)

lemma quiet_has_marker [quiet]: "keeps_file has_marker"
  unfolding has_marker_def by (intro quiet) simp_all

lemma quiet_markers [quiet]: "keeps_file ensure_marker" "keeps_file require_marker" "keeps_file check_existing"
  unfolding ensure_marker_def require_marker_def check_existing_def by (intro quiet; simp)+

lemma quiet_guarded: "(\<And>d. dk_journal (f d) = dk_journal d) \<Longrightarrow> keeps_file (guarded_step f)"
  unfolding guarded_step_def unlink_temporary_def by (intro quiet) simp_all

section \<open>Replacing the file is atomic\<close>

lemma replace_file_wp:
  "wpre (replace_file t) (\<lambda>_ u. file_of u = Regular t) (\<lambda>_ u. file_of u = file_of s) s"
proof -
  let ?n = "file_of s"
  have before: "wpre p (\<lambda>_ u. file_of u = ?n) (\<lambda>_ u. file_of u = ?n) u" if "keeps_file p" "file_of u = ?n" for p u
    using that by (rule keeps_fileD)
  have rename: "wpre (guarded_step (\<lambda>d. d\<lparr>dk_journal := Regular t, dk_leftover := dk_leftover d - 1\<rparr>))
      (\<lambda>_ u. file_of u = Regular t) (\<lambda>_ u. file_of u = ?n) u" if "file_of u = ?n" for u
    using that by (simp add: guarded_step_def unlink_temporary_def wp split: io_outcome.splits)
  have step: "wpre (andthen p f) Q (\<lambda>_ u. file_of u = ?n) u"
    if "keeps_file p" "file_of u = ?n" "\<And>v u. file_of u = ?n \<Longrightarrow> wpre (f v) Q (\<lambda>_ u. file_of u = ?n) u"
    for p :: "unit journal_prog" and f :: "unit \<Rightarrow> unit journal_prog" and Q u
    unfolding wp by (rule wpre_mono [OF before [OF that(1,2)]]) (use that(3) in auto)
  show ?thesis
    unfolding replace_file_def
    by (intro step rename quiet_syscall quiet_guarded) simp_all
qed

definition written :: "world \<Rightarrow> config \<Rightarrow> json \<Rightarrow> node \<Rightarrow> bool" where
  "written w c data n \<longleftrightarrow> (\<exists>data' t. sealed w c data = Inr data' \<and> encode_journal c data' = Inr t \<and> n = Regular t)"

lemma wpre_weaken_keeps:
  assumes "keeps_file p" "\<And>v u. file_of u = file_of s \<Longrightarrow> wpre (f v) Q E u" "\<And>e u. file_of u = file_of s \<Longrightarrow> E e u"
  shows "wpre (andthen p f) Q E s"
  unfolding wp by (rule wpre_mono [OF keeps_fileD [OF assms(1) refl]]) (use assms(2,3) in auto)

lemma write_journal_wp:
  "wpre (write_journal w c data) (\<lambda>_ u. written w c data (file_of u))
     (\<lambda>_ u. file_of u = file_of s \<or> written w c data (file_of u)) s"
proof -
  let ?E = "\<lambda>(_ :: journal_error) u. file_of u = file_of s \<or> written w c data (file_of u)"
  have last: "wpre p (\<lambda>_ u. written w c data (file_of u)) ?E u" if "keeps_file p" "written w c data (file_of u)" for p :: "unit journal_prog" and u
    by (rule wpre_mono [OF keeps_fileD [OF that(1) refl]]) (use that(2) in auto)
  have replace: "wpre (andthen (replace_file t) (\<lambda>_. andthen (syscall JournalDirectorySyncFailed id) (\<lambda>_.
      if cf_existing c then require_marker else ensure_marker))) (\<lambda>_ u. written w c data (file_of u)) ?E u"
    if "written w c data (Regular t)" "file_of u = file_of s" for t u
    unfolding wp_andthen [of "replace_file t"]
    by (rule wpre_mono [OF replace_file_wp]) (use that in \<open>auto intro!: last quiet\<close>)
  have tail: "wpre (andthen (lift_sum (sealed w c data)) (\<lambda>data'. andthen (lift_sum (encode_journal c data')) (\<lambda>t.
     andthen (if cf_existing c then check_existing else yield ()) (\<lambda>_.
     andthen (replace_file t) (\<lambda>_.
     andthen (syscall JournalDirectorySyncFailed id) (\<lambda>_.
     if cf_existing c then require_marker else ensure_marker)))))) (\<lambda>_ u. written w c data (file_of u)) ?E u"
    if u: "file_of u = file_of s" for u
  proof (cases "sealed w c data")
    case (Inl e)
    then show ?thesis using u by (simp add: wp_andthen [of "lift_sum x" for x] wp_lift_sum)
  next
    case sealed: (Inr data')
    show ?thesis
    proof (cases "encode_journal c data'")
      case (Inl e)
      then show ?thesis using u sealed by (simp add: wp_andthen [of "lift_sum x" for x] wp_lift_sum)
    next
      case (Inr t)
      have "wpre (andthen (if cf_existing c then check_existing else yield ()) (\<lambda>_.
         andthen (replace_file t) (\<lambda>_. andthen (syscall JournalDirectorySyncFailed id) (\<lambda>_.
         if cf_existing c then require_marker else ensure_marker)))) (\<lambda>_ u. written w c data (file_of u)) ?E u"
        using u sealed Inr by (intro wpre_weaken_keeps quiet_if quiet replace) (auto simp: written_def)
      then show ?thesis using sealed Inr by (simp add: wp_andthen [of "lift_sum x" for x] wp_lift_sum del: wp_andthen)
    qed
  qed
  show ?thesis
    unfolding write_journal_def by (intro wpre_weaken_keeps quiet_if quiet tail) simp_all
qed

end
