(* ===== verification/Journal_Operations.thy ===== *)
theory Journal_Operations
  imports Journal_Disk
begin

text \<open>
  The methods of \<open>SettlementJournal\<close> (\<open>src/src/settlement-journal.js\<close>) and the comparison of
  confirmation counts (\<open>src/src/journal-momentum-confirmation-advance.js\<close>). Each is the whole
  method: its checks in the order of the source, the read of the file, the change and the write.
  Replies are JSON. Keys are strings; what the clock gives is an argument, a \<open>Date\<close> as its ISO
  text. The queue runs the operations of one file one after another, so a run is a list of calls.
\<close>

section \<open>Shared steps\<close>

definition current_time :: "jsval \<Rightarrow> string journal_prog" where
  "current_time now = demand (satisfying valid_timestamp (string_value now)) JournalClockInvalid"

definition text_at :: "string \<Rightarrow> json \<Rightarrow> string" where
  "text_at k v = (case slot k v of JStr s \<Rightarrow> s | _ \<Rightarrow> [])"

definition int_at :: "string \<Rightarrow> json \<Rightarrow> int" where
  "int_at k v = (case slot k v of JNum n \<Rightarrow> n | _ \<Rightarrow> 0)"

definition later_text :: "string \<Rightarrow> string \<Rightarrow> string" where
  "later_text now previous = (if now < previous then previous else now)"

definition next_timestamp :: "jsval \<Rightarrow> json \<Rightarrow> string journal_prog" where
  "next_timestamp now r = andthen (current_time now) (\<lambda>t. yield (later_text t (text_at ''updatedAt'' r)))"

definition cloned :: "json \<Rightarrow> json journal_prog" where
  "cloned v = lift_sum (clone_json max_record_bytes (js_of v))"

fun clone_all :: "json list \<Rightarrow> journal_error + json list" where
  "clone_all [] = Inr []"
| "clone_all (v # vs) = also_then (clone_json max_record_bytes (js_of v)) (\<lambda>j. also_then (clone_all vs) (\<lambda>js. Inr (j # js)))"

definition put_record :: "string \<Rightarrow> json \<Rightarrow> json \<Rightarrow> json" where
  "put_record k r data = set_entry ''records'' (set_entry k r (journal_records data)) data"

definition bump_revision :: "json \<Rightarrow> json" where
  "bump_revision data = set_entry ''revision'' (JNum (int_at ''revision'' data + 1)) data"

definition record_at :: "string \<Rightarrow> json \<Rightarrow> json option" where
  "record_at k data = entry k (journal_records data)"

definition tombstone_at :: "string \<Rightarrow> json \<Rightarrow> json option" where
  "tombstone_at k data = map_entry (journal_tombstones data) k"

text \<open>The end of most changes: validate, count, write, return a clone.\<close>

definition store_record :: "world \<Rightarrow> config \<Rightarrow> journal_error \<Rightarrow> string \<Rightarrow> json \<Rightarrow> json \<Rightarrow> unit journal_prog" where
  "store_record w c e k r data =
     andthen (assure (valid_record (w_sha w) (w_url w) r) e) (\<lambda>_.
     write_journal w c (bump_revision (put_record k r data)))"

section \<open>Reading methods\<close>

definition load_journal :: "world \<Rightarrow> config \<Rightarrow> json journal_prog" where
  "load_journal w c = with_writer (andthen (read_journal w c) (\<lambda>data.
     andthen (lift_sum (clone_all (record_list data))) (\<lambda>rs.
     yield (JObj [(''schemaVersion'', slot ''schemaVersion'' data), (''revision'', slot ''revision'' data), (''records'', JArr rs)]))))"

definition reply_entry :: "json option \<Rightarrow> json journal_prog" where
  "reply_entry r = (case r of None \<Rightarrow> yield JNull | Some v \<Rightarrow> cloned v)"

definition get_record :: "world \<Rightarrow> config \<Rightarrow> string \<Rightarrow> string \<Rightarrow> json journal_prog" where
  "get_record w c a t = with_writer (andthen (read_journal w c) (\<lambda>data.
     andthen (lift_sum (record_key a t)) (\<lambda>k. reply_entry (record_at k data))))"

definition find_record :: "world \<Rightarrow> config \<Rightarrow> string \<Rightarrow> json journal_prog" where
  "find_record w c t = andthen (assure (is_hex64 t) JournalRecordInvalid) (\<lambda>_. with_writer (andthen (read_journal w c) (\<lambda>data.
     reply_entry (List.find (\<lambda>r. slot ''transactionHash'' r = JStr t) (record_list data)))))"

definition get_tombstone :: "world \<Rightarrow> config \<Rightarrow> string \<Rightarrow> string \<Rightarrow> json journal_prog" where
  "get_tombstone w c a t = with_writer (andthen (read_journal w c) (\<lambda>data.
     andthen (lift_sum (record_key a t)) (\<lambda>k. reply_entry (tombstone_at k data))))"

definition find_tombstone :: "world \<Rightarrow> config \<Rightarrow> string \<Rightarrow> json journal_prog" where
  "find_tombstone w c t = andthen (assure (is_hex64 t) JournalRecordInvalid) (\<lambda>_. with_writer (andthen (read_journal w c) (\<lambda>data.
     reply_entry (List.find (\<lambda>r. slot ''transactionHash'' r = JStr t) (tombstone_list data)))))"

text \<open>\<open>listReconciliationCandidates\<close>; the argument is \<open>null\<close> or a retention time.\<close>

definition list_candidates :: "world \<Rightarrow> config \<Rightarrow> jsval \<Rightarrow> jsval \<Rightarrow> json journal_prog" where
  "list_candidates w c retention now =
     andthen (assure (retention = VNull \<or> satisfying valid_retention (safe_integer retention) \<noteq> None) JournalRetentionInvalid) (\<lambda>_.
     with_writer (andthen (read_journal w c) (\<lambda>data.
     andthen (case safe_integer retention of
         None \<Rightarrow> yield []
       | Some n \<Rightarrow> andthen (current_time now) (\<lambda>t.
           lift_sum (clone_all (filter (\<lambda>r. retention_eligible r t n) (record_list data))))) (\<lambda>rs.
     andthen (lift_sum (clone_all (tombstone_list data))) (\<lambda>ts.
     yield (JObj [(''records'', JArr rs), (''tombstones'', JArr ts)]))))))"

definition entry_snapshot :: "world \<Rightarrow> config \<Rightarrow> string \<Rightarrow> string \<Rightarrow> json journal_prog" where
  "entry_snapshot w c a t = andthen (lift_sum (record_key a t)) (\<lambda>k. with_writer (andthen (read_journal w c) (\<lambda>data.
     case record_at k data of
       Some r \<Rightarrow> andthen (cloned r) (\<lambda>e. yield (JObj [(''revision'', slot ''revision'' data), (''kind'', JStr ''record''), (''entry'', e)]))
     | None \<Rightarrow> (case tombstone_at k data of
         Some r \<Rightarrow> andthen (cloned r) (\<lambda>e. yield (JObj [(''revision'', slot ''revision'' data), (''kind'', JStr ''tombstone''), (''entry'', e)]))
       | None \<Rightarrow> yield (JObj [(''revision'', slot ''revision'' data), (''kind'', JNull), (''entry'', JNull)])))))"

text \<open>\<open>list\<close>: \<open>undefined\<close>, or exactly \<open>{ includeTombstones: true }\<close>.\<close>

definition list_entries :: "world \<Rightarrow> config \<Rightarrow> jsval \<Rightarrow> json journal_prog" where
  "list_entries w c options =
     andthen (assure (options = VUndefined
       \<or> exact_data_object [''includeTombstones''] [] options = Some [(''includeTombstones'', VBool True)]) JournalOptionsInvalid) (\<lambda>_.
     with_writer (andthen (read_journal w c) (\<lambda>data.
     andthen (lift_sum (clone_all (record_list data))) (\<lambda>rs.
     if options = VUndefined then yield (JArr rs)
     else andthen (lift_sum (clone_all (tombstone_list data))) (\<lambda>ts.
       yield (JObj [(''records'', JArr rs), (''tombstones'', JArr ts)]))))))"

section \<open>New records\<close>

definition input_resource_ok :: "world \<Rightarrow> json \<Rightarrow> bool" where
  "input_resource_ok w v \<longleftrightarrow> (case entry ''resourceIdentity'' v of None \<Rightarrow> False | Some r \<Rightarrow> validate_resource (w_url w) (js_of r))"

definition new_record :: "json \<Rightarrow> string \<Rightarrow> json" where
  "new_record v now = set_entry ''updatedAt'' (JStr now) (set_entry ''createdAt'' (JStr now)
     (set_entry ''cachedResponse'' JNull (set_entry ''deliveryState'' (JStr ''NONE'')
     (set_entry ''momentumEvidence'' JNull (set_entry ''evidenceState'' (JStr ''VALIDATED'') v)))))"

definition unchanged_identity :: "json \<Rightarrow> json \<Rightarrow> bool" where
  "unchanged_identity a b \<longleftrightarrow> (\<forall>f \<in> set immutable_fields. same_text max_record_bytes (slot f a) (slot f b))"

definition shares_hash :: "json \<Rightarrow> json \<Rightarrow> bool" where
  "shares_hash a b \<longleftrightarrow> strict_eq (slot ''authorizationKey'' a) (slot ''authorizationKey'' b)
     \<or> strict_eq (slot ''transactionHash'' a) (slot ''transactionHash'' b)"

definition put_validated :: "world \<Rightarrow> config \<Rightarrow> jsval \<Rightarrow> jsval \<Rightarrow> json journal_prog" where
  "put_validated w c input now =
     andthen (lift_sum (clone_json max_record_bytes input)) (\<lambda>im.
     andthen (assure (input_resource_ok w im) JournalRecordInvalid) (\<lambda>_.
     andthen (current_time now) (\<lambda>t. let r = new_record im t in
     andthen (assure (valid_record (w_sha w) (w_url w) r) JournalRecordInvalid) (\<lambda>_.
     with_writer (andthen (read_journal w c) (\<lambda>data. let k = key_of r in
     case record_at k data of
       Some old \<Rightarrow> andthen (assure (unchanged_identity old r) JournalIdentityConflict) (\<lambda>_. cloned old)
     | None \<Rightarrow>
         andthen (assure (\<not> (\<exists>x \<in> set (record_list data). shares_hash x r)) JournalIdentityConflict) (\<lambda>_.
         andthen (assure (\<not> (\<exists>x \<in> set (tombstone_list data). shares_hash x r)) JournalIdentityConflict) (\<lambda>_.
         andthen (assure (length (record_list data) < cf_maxRecords c) JournalCapacityExceeded) (\<lambda>_.
         andthen (write_journal w c (bump_revision (put_record k r data))) (\<lambda>_. cloned r))))))))))"

section \<open>Evidence\<close>

definition detail_of :: "json \<Rightarrow> json" where
  "detail_of r = slot ''confirmationDetail'' (slot ''momentumEvidence'' r)"

definition set_confirmations :: "int \<Rightarrow> json \<Rightarrow> json" where
  "set_confirmations n r = set_entry ''momentumEvidence'' (set_entry ''confirmationDetail''
     (set_entry ''numConfirmations'' (JNum n) (detail_of r)) (slot ''momentumEvidence'' r)) r"

definition set_evidence :: "string \<Rightarrow> json \<Rightarrow> string \<Rightarrow> json \<Rightarrow> json" where
  "set_evidence state evidence now r = set_entry ''updatedAt'' (JStr now)
     (set_entry ''momentumEvidence'' evidence (set_entry ''evidenceState'' (JStr state) r))"

text \<open>\<open>captureJournalMomentumConfirmationAdvance\<close>.\<close>

definition captured_detail :: "json \<Rightarrow> bool" where
  "captured_detail d \<longleftrightarrow> exact_keys detail_fields d \<and> int_slot (\<lambda>n. 1 \<le> n) ''numConfirmations'' d
     \<and> int_slot (\<lambda>n. 1 \<le> n) ''momentumHeight'' d \<and> int_slot (\<lambda>n. 0 \<le> n) ''momentumTimestamp'' d
     \<and> text_slot is_hex64 ''momentumHash'' d"

definition same_momentum :: "json \<Rightarrow> json \<Rightarrow> bool" where
  "same_momentum a b \<longleftrightarrow> strict_eq (slot ''momentumHeight'' a) (slot ''momentumHeight'' b)
     \<and> strict_eq (slot ''momentumHash'' a) (slot ''momentumHash'' b)
     \<and> strict_eq (slot ''momentumTimestamp'' a) (slot ''momentumTimestamp'' b)"

definition confirmation_advance :: "json \<Rightarrow> json \<Rightarrow> (bool \<times> int) option" where
  "confirmation_advance current proposed =
     (if captured_detail current \<and> captured_detail proposed \<and> same_momentum current proposed
        \<and> int_at ''numConfirmations'' current \<le> int_at ''numConfirmations'' proposed
      then Some (int_at ''numConfirmations'' current < int_at ''numConfirmations'' proposed, int_at ''numConfirmations'' proposed)
      else None)"

definition evidence_rank :: "json \<Rightarrow> nat" where
  "evidence_rank e = (if e = JStr ''MOMENTUM_INCLUDED'' then 3 else if e = JStr ''SUBMISSION_ACKNOWLEDGED'' then 2
     else if e = JStr ''SUBMISSION_OUTCOME_UNKNOWN'' then 1 else 0)"

definition revision_slot_ok :: "json \<Rightarrow> bool" where
  "revision_slot_ok v \<longleftrightarrow> int_slot (\<lambda>n. 0 \<le> n) ''expectedRevision'' v"

definition cas_evidence_ok :: "world \<Rightarrow> json \<Rightarrow> bool" where
  "cas_evidence_ok w v \<longleftrightarrow> revision_slot_ok v \<and> valid_record (w_sha w) (w_url w) (slot ''expectedRecord'' v)
     \<and> text_slot (\<lambda>s. s \<in> set prior_states) ''evidenceState'' (slot ''expectedRecord'' v)
     \<and> delivery_of (slot ''expectedRecord'' v) = JStr ''NONE''
     \<and> (slot ''evidenceState'' v = JStr ''SUBMISSION_ACKNOWLEDGED'' \<and> slot ''confirmationDetail'' v = JNull
        \<or> slot ''evidenceState'' v = JStr ''MOMENTUM_INCLUDED'' \<and> valid_detail (slot ''confirmationDetail'' v))"

definition still_expected :: "string \<Rightarrow> json \<Rightarrow> json \<Rightarrow> json \<Rightarrow> bool" where
  "still_expected k v expected data \<longleftrightarrow> slot ''revision'' data = slot ''expectedRevision'' v
     \<and> (case record_at k data of None \<Rightarrow> False | Some r \<Rightarrow> same_text max_record_bytes r expected)
     \<and> tombstone_at k data = None"

text \<open>The write with its readback: the record must be the one written, at the revision written.\<close>

definition written_back :: "json option \<Rightarrow> json \<Rightarrow> bool" where
  "written_back found r \<longleftrightarrow> (case found of None \<Rightarrow> False | Some x \<Rightarrow> same_text max_record_bytes x r)"

definition changed_reply :: "bool \<Rightarrow> string \<Rightarrow> json \<Rightarrow> json" where
  "changed_reply b k v = JObj [(''changed'', JBool b), (k, v)]"

definition store_and_verify :: "world \<Rightarrow> config \<Rightarrow> string \<Rightarrow> json \<Rightarrow> json \<Rightarrow> json journal_prog" where
  "store_and_verify w c k r data =
     andthen (store_record w c JournalCompareAndReplaceFailed k r data) (\<lambda>_.
     andthen (read_journal w c) (\<lambda>again.
     andthen (assure (slot ''revision'' again = JNum (int_at ''revision'' data + 1) \<and> written_back (record_at k again) r)
       JournalWriteVerificationFailed) (\<lambda>_.
     andthen (cloned (slot k (journal_records again))) (\<lambda>x. yield (changed_reply True ''record'' x)))))"

definition compare_and_update :: "world \<Rightarrow> config \<Rightarrow> jsval \<Rightarrow> jsval \<Rightarrow> json journal_prog" where
  "compare_and_update w c options now =
     andthen (demand (satisfying (cas_evidence_ok w)
       (cas_options [''expectedRevision'', ''expectedRecord'', ''evidenceState'', ''confirmationDetail''] options))
       JournalCompareAndReplaceFailed) (\<lambda>v. let state = slot ''evidenceState'' v; detail = slot ''confirmationDetail'' v in
     andthen (cloned (slot ''expectedRecord'' v)) (\<lambda>expected. let k = key_of expected in
     with_writer (andthen (read_journal w c) (\<lambda>data.
     andthen (assure (still_expected k v expected data) JournalCompareAndReplaceFailed) (\<lambda>_.
     andthen (current_time now) (\<lambda>t. let r = slot k (journal_records data) in
     if evidence_of r = state then
       (if state \<noteq> JStr ''MOMENTUM_INCLUDED'' then andthen (cloned r) (\<lambda>x. yield (changed_reply False ''record'' x))
        else andthen (demand (confirmation_advance (detail_of r) detail) JournalCompareAndReplaceFailed) (\<lambda>(changed, n).
          if \<not> changed then andthen (cloned r) (\<lambda>x. yield (changed_reply False ''record'' x))
          else store_and_verify w c k (set_entry ''updatedAt'' (JStr (later_text t (text_at ''updatedAt'' r))) (set_confirmations n r)) data))
     else if evidence_rank state \<le> evidence_rank (evidence_of r) then raise JournalCompareAndReplaceFailed
     else let at' = later_text t (text_at ''updatedAt'' r) in
       store_and_verify w c k (set_evidence (to_text state)
         (if detail = JNull then JNull else JObj [(''observedAt'', JStr at'), (''confirmationDetail'', detail)]) at' r) data))))))"

text \<open>\<open>updateEvidence\<close>: the state is a string, the evidence any value.\<close>

definition captured_evidence :: "string \<Rightarrow> jsval \<Rightarrow> journal_error + json" where
  "captured_evidence state evidence = (if state \<noteq> ''MOMENTUM_INCLUDED'' then Inr JNull
     else case clone_json max_evidence_bytes evidence of
       Inl e \<Rightarrow> Inl JournalMomentumEvidenceInvalid
     | Inr v \<Rightarrow> also_then (ensure JournalMomentumEvidenceInvalid (valid_evidence v)) (\<lambda>_. Inr v))"

definition ignored_evidence :: "string \<Rightarrow> string \<Rightarrow> bool" where
  "ignored_evidence current state \<longleftrightarrow>
     current = ''SUBMISSION_ACKNOWLEDGED'' \<and> (state = ''VALIDATED'' \<or> state = ''SUBMISSION_OUTCOME_UNKNOWN'')
     \<or> current = ''SUBMISSION_OUTCOME_UNKNOWN'' \<and> state = ''VALIDATED'' \<or> current = state"

definition weaker_detail :: "json \<Rightarrow> json \<Rightarrow> json \<Rightarrow> bool" where
  "weaker_detail r old new \<longleftrightarrow> delivery_of r \<noteq> JStr ''NONE'' \<or> \<not> same_momentum new old
     \<or> int_at ''numConfirmations'' new \<le> int_at ''numConfirmations'' old"

definition save_and_reply :: "world \<Rightarrow> config \<Rightarrow> string \<Rightarrow> json \<Rightarrow> json \<Rightarrow> json journal_prog" where
  "save_and_reply w c k r data = andthen (store_record w c JournalRecordInvalid k r data) (\<lambda>_. cloned r)"

definition update_evidence :: "world \<Rightarrow> config \<Rightarrow> string \<Rightarrow> string \<Rightarrow> string \<Rightarrow> jsval \<Rightarrow> jsval \<Rightarrow> json journal_prog" where
  "update_evidence w c a t state evidence now =
     andthen (assure (state \<in> set evidence_states) JournalEvidenceInvalid) (\<lambda>_.
     andthen (lift_sum (captured_evidence state evidence)) (\<lambda>im.
     with_writer (andthen (read_journal w c) (\<lambda>data.
     andthen (lift_sum (record_key a t)) (\<lambda>k.
     andthen (demand (record_at k data) JournalRecordNotFound) (\<lambda>r.
     if evidence_of r = JStr ''MOMENTUM_INCLUDED'' then
       (if state \<noteq> ''MOMENTUM_INCLUDED'' then cloned r
        else let old = detail_of r; new = slot ''confirmationDetail'' im in
          if same_text max_evidence_bytes old new then cloned r
          else andthen (assure (\<not> weaker_detail r old new) JournalMomentumEvidenceInvalid) (\<lambda>_.
            andthen (next_timestamp now r) (\<lambda>at'.
            save_and_reply w c k (set_entry ''updatedAt'' (JStr at') (set_confirmations (int_at ''numConfirmations'' new) r)) data)))
     else if ignored_evidence (text_at ''evidenceState'' r) state then cloned r
     else andthen (next_timestamp now r) (\<lambda>at'. save_and_reply w c k (set_evidence state im at' r) data)))))))"

section \<open>Tombstones\<close>

definition cas_replace_ok :: "world \<Rightarrow> json \<Rightarrow> bool" where
  "cas_replace_ok w v \<longleftrightarrow> revision_slot_ok v \<and> int_slot valid_retention ''retentionMs'' v
     \<and> valid_record (w_sha w) (w_url w) (slot ''expectedRecord'' v)"

definition with_tombstones :: "json \<Rightarrow> json" where
  "with_tombstones data = (if slot ''schemaVersion'' data = JNum 1
     then set_entry ''tombstones'' (JObj []) (set_entry ''schemaVersion'' (JNum 2) data) else data)"

definition put_tombstone :: "string \<Rightarrow> json \<Rightarrow> json \<Rightarrow> json" where
  "put_tombstone k x data = set_entry ''tombstones'' (set_entry k x (slot ''tombstones'' data)) data"

definition bury :: "string \<Rightarrow> json \<Rightarrow> json \<Rightarrow> json" where
  "bury k x data = put_tombstone k x (set_entry ''records'' (remove_entry k (journal_records data)) (with_tombstones data))"

definition replace_with_tombstone :: "world \<Rightarrow> config \<Rightarrow> jsval \<Rightarrow> jsval \<Rightarrow> json journal_prog" where
  "replace_with_tombstone w c options now =
     andthen (demand (satisfying (cas_replace_ok w) (cas_options [''expectedRevision'', ''expectedRecord'', ''retentionMs''] options))
       JournalCompareAndReplaceFailed) (\<lambda>v.
     andthen (cloned (slot ''expectedRecord'' v)) (\<lambda>expected. let k = key_of expected in
     with_writer (andthen (read_journal w c) (\<lambda>data.
     andthen (assure (still_expected k v expected data
       \<and> text_slot (\<lambda>s. s \<in> set prior_states) ''evidenceState'' (slot k (journal_records data))) JournalCompareAndReplaceFailed) (\<lambda>_.
     andthen (current_time now) (\<lambda>t. let r = slot k (journal_records data) in
     andthen (assure (retention_eligible r t (int_at ''retentionMs'' v)) JournalCompareAndReplaceFailed) (\<lambda>_.
     andthen (assure (length (tombstone_list data) < max_tombstones) JournalCapacityExceeded) (\<lambda>_.
     andthen (lift_sum (tombstone_from (w_sha w) r t)) (\<lambda>x.
     andthen (assure (valid_tombstone (w_sha w) x) JournalCompareAndReplaceFailed) (\<lambda>_.
     andthen (write_journal w c (bump_revision (bury k x data))) (\<lambda>_.
     andthen (read_journal w c) (\<lambda>again.
     andthen (assure (slot ''schemaVersion'' again = JNum 2 \<and> slot ''revision'' again = JNum (int_at ''revision'' data + 1)
       \<and> record_at k again = None \<and> written_back (tombstone_at k again) x) JournalWriteVerificationFailed) (\<lambda>_.
     cloned (slot k (slot ''tombstones'' again)))))))))))))))"

definition cas_late_ok :: "world \<Rightarrow> json \<Rightarrow> bool" where
  "cas_late_ok w v \<longleftrightarrow> revision_slot_ok v \<and> valid_tombstone (w_sha w) (slot ''expectedTombstone'' v)
     \<and> valid_detail (slot ''confirmationDetail'' v)"

definition record_late :: "world \<Rightarrow> config \<Rightarrow> jsval \<Rightarrow> jsval \<Rightarrow> json journal_prog" where
  "record_late w c options now =
     andthen (demand (satisfying (cas_late_ok w) (cas_options [''expectedRevision'', ''expectedTombstone'', ''confirmationDetail''] options))
       JournalCompareAndReplaceFailed) (\<lambda>v.
     andthen (cloned (slot ''expectedTombstone'' v)) (\<lambda>expected. let k = key_of expected in
     with_writer (andthen (read_journal w c) (\<lambda>data.
     andthen (demand (tombstone_at k data) JournalCompareAndReplaceFailed) (\<lambda>x.
     andthen (assure (record_at k data = None \<and> same_tombstone (w_sha w) x expected) JournalCompareAndReplaceFailed) (\<lambda>_.
     if slot ''lateMomentumEvidence'' x \<noteq> JNull then andthen (cloned x) (\<lambda>y. yield (changed_reply False ''tombstone'' y))
     else andthen (assure (slot ''revision'' data = slot ''expectedRevision'' v \<and> same_text max_record_bytes x expected)
       JournalCompareAndReplaceFailed) (\<lambda>_.
     andthen (current_time now) (\<lambda>t.
     let y = set_entry ''lateMomentumEvidence'' (JObj [(''observedAt'', JStr (later_text t (text_at ''terminalizedAt'' x))),
       (''confirmationDetail'', slot ''confirmationDetail'' v)]) x in
     andthen (assure (valid_tombstone (w_sha w) y) JournalCompareAndReplaceFailed) (\<lambda>_.
     andthen (write_journal w c (bump_revision (put_tombstone k y data))) (\<lambda>_.
     andthen (read_journal w c) (\<lambda>again.
     andthen (assure (slot ''revision'' again = JNum (int_at ''revision'' data + 1) \<and> written_back (tombstone_at k again) y)
       JournalWriteVerificationFailed) (\<lambda>_.
     andthen (cloned (slot k (slot ''tombstones'' again))) (\<lambda>z. yield (changed_reply True ''tombstone'' z))))))))))))))"

section \<open>Delivery\<close>

definition intent_json :: "json \<Rightarrow> requirement \<Rightarrow> json" where
  "intent_json r q = JObj [(''x402Version'', JNum 2), (''resource'', slot ''resourceIdentity'' r), (''accepted'', requirement_json q)]"

definition intent_digest :: "world \<Rightarrow> json \<Rightarrow> requirement \<Rightarrow> journal_error + string" where
  "intent_digest w r q = (case digest_of (w_sha w) max_record_bytes (intent_json r q) of Inl e \<Rightarrow> Inl (JournalSymbol e) | Inr h \<Rightarrow> Inr h)"

definition mark_delivery_pending :: "world \<Rightarrow> config \<Rightarrow> string \<Rightarrow> string \<Rightarrow> jsval \<Rightarrow> jsval \<Rightarrow> json journal_prog" where
  "mark_delivery_pending w c a t accepted now =
     andthen (demand (snapshot_requirement True accepted) JournalDeliveryClaimInvalid) (\<lambda>q0.
     with_writer (andthen (read_journal w c) (\<lambda>data.
     andthen (lift_sum (record_key a t)) (\<lambda>k.
     andthen (demand (record_at k data) JournalRecordNotFound) (\<lambda>r.
     andthen (assure (valid_record (w_sha w) (w_url w) r) JournalRecordInvalid) (\<lambda>_.
     andthen (demand (snapshot_requirement True (js_of (requirement_json q0))) JournalDeliveryClaimInvalid) (\<lambda>q.
     andthen (lift_sum (intent_digest w r q)) (\<lambda>h.
     andthen (assure (slot ''intentDigest'' r = JStr h) JournalDeliveryClaimInvalid) (\<lambda>_.
     andthen (assure (evidence_of r = JStr ''MOMENTUM_INCLUDED''
       \<and> minimum_confirmations q \<le> int_at ''numConfirmations'' (detail_of r)) JournalMomentumRequired) (\<lambda>_.
     if delivery_of r = JStr ''DELIVERED'' \<or> delivery_of r = JStr ''DELIVERY_PENDING''
     then andthen (cloned r) (\<lambda>x. yield (set_entry ''deliveryClaimed'' (JBool False) x))
     else andthen (next_timestamp now r) (\<lambda>at'.
       andthen (save_and_reply w c k (set_entry ''updatedAt'' (JStr at') (set_entry ''deliveryState'' (JStr ''DELIVERY_PENDING'') r)) data)
         (\<lambda>x. yield (set_entry ''deliveryClaimed'' (JBool True) x)))))))))))))"

definition mark_delivered :: "world \<Rightarrow> config \<Rightarrow> string \<Rightarrow> string \<Rightarrow> jsval \<Rightarrow> jsval \<Rightarrow> json journal_prog" where
  "mark_delivered w c a t response now =
     andthen (lift_sum (clone_json max_cached_response_bytes response)) (\<lambda>cached.
     with_writer (andthen (read_journal w c) (\<lambda>data.
     andthen (lift_sum (record_key a t)) (\<lambda>k.
     andthen (demand (record_at k data) JournalRecordNotFound) (\<lambda>r.
     if delivery_of r = JStr ''DELIVERED''
     then andthen (assure (same_text max_record_bytes (slot ''cachedResponse'' r) cached) JournalDeliveryConflict) (\<lambda>_. cloned r)
     else andthen (assure (delivery_of r = JStr ''DELIVERY_PENDING'' \<and> evidence_of r = JStr ''MOMENTUM_INCLUDED'')
         JournalDeliveryNotPending) (\<lambda>_.
       andthen (next_timestamp now r) (\<lambda>at'.
       save_and_reply w c k (set_entry ''updatedAt'' (JStr at') (set_entry ''cachedResponse'' cached
         (set_entry ''deliveryState'' (JStr ''DELIVERED'') r))) data)))))))"

section \<open>Calls\<close>

datatype journal_call =
    Load
  | PutValidated jsval jsval
  | Get string string
  | FindByTransactionHash string
  | GetTombstone string string
  | FindTombstoneByTransactionHash string
  | ListReconciliationCandidates jsval jsval
  | GetEntrySnapshot string string
  | CompareAndUpdateEvidence jsval jsval
  | ReplaceRecordWithTombstone jsval jsval
  | RecordLateMomentumEvidence jsval jsval
  | UpdateEvidence string string string jsval jsval
  | MarkDeliveryPending string string jsval jsval
  | MarkDelivered string string jsval jsval
  | ListEntries jsval

fun perform :: "world \<Rightarrow> config \<Rightarrow> journal_call \<Rightarrow> json journal_prog" where
  "perform w c Load = load_journal w c"
| "perform w c (PutValidated input now) = put_validated w c input now"
| "perform w c (Get a t) = get_record w c a t"
| "perform w c (FindByTransactionHash t) = find_record w c t"
| "perform w c (GetTombstone a t) = get_tombstone w c a t"
| "perform w c (FindTombstoneByTransactionHash t) = find_tombstone w c t"
| "perform w c (ListReconciliationCandidates retention now) = list_candidates w c retention now"
| "perform w c (GetEntrySnapshot a t) = entry_snapshot w c a t"
| "perform w c (CompareAndUpdateEvidence options now) = compare_and_update w c options now"
| "perform w c (ReplaceRecordWithTombstone options now) = replace_with_tombstone w c options now"
| "perform w c (RecordLateMomentumEvidence options now) = record_late w c options now"
| "perform w c (UpdateEvidence a t state evidence now) = update_evidence w c a t state evidence now"
| "perform w c (MarkDeliveryPending a t accepted now) = mark_delivery_pending w c a t accepted now"
| "perform w c (MarkDelivered a t response now) = mark_delivered w c a t response now"
| "perform w c (ListEntries options) = list_entries w c options"

text \<open>\<open>createSettlementJournalInitialization\<close>: the text of an empty journal for a new directory.\<close>

definition journal_initialization :: "world \<Rightarrow> int \<Rightarrow> int \<Rightarrow> journal_error + string" where
  "journal_initialization w m b =
     also_then (ensure JournalConfigurationInvalid (1 \<le> m \<and> m \<le> 10000 \<and> 1024 \<le> b \<and> b \<le> 4 * 1024 * 1024)) (\<lambda>_.
     case empty_journal (w_sha w) of
       Inl e \<Rightarrow> Inl (JournalSymbol e)
     | Inr data \<Rightarrow> also_then (ensure JournalCorrupt (valid_journal (w_sha w) (w_url w) (nat m) (nat b) data)) (\<lambda>_.
         case stringify_json 2 False (nat b) data of
           Inl e \<Rightarrow> Inl (JournalSymbol e)
         | Inr t \<Rightarrow> if nat b < utf8_bytes (t @ [CHR 0x0A]) then Inl JournalCapacityExceeded else Inr (t @ [CHR 0x0A])))"

end
