(* ===== verification/Journal_Forward.thy ===== *)
theory Journal_Forward
  imports Journal_Operations
begin

text \<open>
  What may happen to a journal. \<open>advances\<close> is the order in which a journal moves: a record keeps its
  identity, its evidence and delivery states only rise, an inclusion stays the same inclusion with
  at least as many confirmations, a cached response stays; a record disappears only into a
  tombstone of the same payment that had no inclusion and no delivery and was kept for the minimum
  time; a tombstone stays for ever. \<open>moved\<close> lifts the order to the journal file: a file that cannot be
  read is never touched, and only a missing file is created.
\<close>

section \<open>The order on records\<close>

lemma slot_set_entry [simp]: "slot k (set_entry k' x v) = (if k = k' then x else slot k v)"
  by (simp add: slot_def)

lemma slot_JObj [simp]: "slot k (JObj kvs) = (case map_of kvs k of None \<Rightarrow> JNull | Some x \<Rightarrow> x)"
  by (simp add: slot_def)

lemma text_at_set_entry [simp]:
  "text_at k (set_entry k' x v) = (if k = k' then case x of JStr s \<Rightarrow> s | _ \<Rightarrow> [] else text_at k v)"
  by (simp add: text_at_def)

lemma int_at_set_entry [simp]:
  "int_at k (set_entry k' x v) = (if k = k' then case x of JNum n \<Rightarrow> n | _ \<Rightarrow> 0 else int_at k v)"
  by (simp add: int_at_def)

definition delivery_rank :: "json \<Rightarrow> nat" where
  "delivery_rank d = (if d = JStr ''DELIVERED'' then 2 else if d = JStr ''DELIVERY_PENDING'' then 1 else 0)"

definition same_inclusion :: "json \<Rightarrow> json \<Rightarrow> bool" where
  "same_inclusion r r' \<longleftrightarrow> slot ''observedAt'' (slot ''momentumEvidence'' r') = slot ''observedAt'' (slot ''momentumEvidence'' r)
     \<and> (\<forall>f \<in> {''momentumHeight'', ''momentumHash'', ''momentumTimestamp''}. slot f (detail_of r') = slot f (detail_of r))
     \<and> int_at ''numConfirmations'' (detail_of r) \<le> int_at ''numConfirmations'' (detail_of r')"

definition record_advances :: "json \<Rightarrow> json \<Rightarrow> bool" where
  "record_advances r r' \<longleftrightarrow> (\<forall>f \<in> set immutable_fields \<union> {''createdAt''}. slot f r' = slot f r)
     \<and> text_at ''updatedAt'' r \<le> text_at ''updatedAt'' r'
     \<and> evidence_rank (evidence_of r) \<le> evidence_rank (evidence_of r')
     \<and> delivery_rank (delivery_of r) \<le> delivery_rank (delivery_of r')
     \<and> (evidence_of r = JStr ''MOMENTUM_INCLUDED'' \<longrightarrow> same_inclusion r r')
     \<and> (delivery_rank (delivery_of r) \<noteq> 0 \<longrightarrow> slot ''momentumEvidence'' r' = slot ''momentumEvidence'' r)
     \<and> (delivery_of r = JStr ''DELIVERED'' \<longrightarrow> slot ''cachedResponse'' r' = slot ''cachedResponse'' r)"

definition buried_identity :: "string list" where
  "buried_identity = [''authorizationKey'', ''transactionHash'', ''chainProfile'', ''intentDigest'', ''resourceDigest'',
     ''payer'', ''createdAt'']"

definition buried :: "json \<Rightarrow> json \<Rightarrow> bool" where
  "buried r x \<longleftrightarrow> (\<forall>f \<in> set buried_identity. slot f x = slot f r)
     \<and> evidence_of r \<noteq> JStr ''MOMENTUM_INCLUDED'' \<and> delivery_rank (delivery_of r) = 0
     \<and> evidence_rank (evidence_of r) \<le> evidence_rank (slot ''priorEvidenceState'' x)
     \<and> parse_millis (text_at ''createdAt'' x) + 3600000 \<le> parse_millis (text_at ''terminalizedAt'' x)"

definition tombstone_advances :: "json \<Rightarrow> json \<Rightarrow> bool" where
  "tombstone_advances x y \<longleftrightarrow> (\<forall>f. f \<noteq> ''lateMomentumEvidence'' \<longrightarrow> slot f y = slot f x)
     \<and> (slot ''lateMomentumEvidence'' x \<noteq> JNull \<longrightarrow> slot ''lateMomentumEvidence'' y = slot ''lateMomentumEvidence'' x)"

lemma rank_included [simp]: "evidence_rank e = 3 \<longleftrightarrow> e = JStr ''MOMENTUM_INCLUDED''"
  by (simp add: evidence_rank_def)

lemma rank_bound: "evidence_rank e \<le> 3"
  by (simp add: evidence_rank_def)

lemma rank_delivered [simp]: "delivery_rank d = 2 \<longleftrightarrow> d = JStr ''DELIVERED''"
  by (simp add: delivery_rank_def)

lemma delivery_rank_bound: "delivery_rank d \<le> 2"
  by (simp add: delivery_rank_def)

lemma included_up:
  assumes "record_advances r r'" "evidence_of r = JStr ''MOMENTUM_INCLUDED''"
  shows "evidence_of r' = JStr ''MOMENTUM_INCLUDED''"
proof -
  have "evidence_rank (evidence_of r) = 3" using assms(2) by simp
  moreover have "evidence_rank (evidence_of r) \<le> evidence_rank (evidence_of r')"
    using assms(1) unfolding record_advances_def by blast
  ultimately have "evidence_rank (evidence_of r') = 3" using rank_bound [of "evidence_of r'"] by linarith
  then show ?thesis by (simp only: rank_included)
qed

lemma delivered_up:
  assumes "record_advances r r'" "delivery_of r = JStr ''DELIVERED''"
  shows "delivery_of r' = JStr ''DELIVERED''"
proof -
  have "delivery_rank (delivery_of r) = 2" using assms(2) by simp
  moreover have "delivery_rank (delivery_of r) \<le> delivery_rank (delivery_of r')"
    using assms(1) unfolding record_advances_def by blast
  ultimately have "delivery_rank (delivery_of r') = 2" using delivery_rank_bound [of "delivery_of r'"] by linarith
  then show ?thesis by (simp only: rank_delivered)
qed

lemma record_advances_refl [simp]: "record_advances r r"
  by (simp add: record_advances_def same_inclusion_def)

lemma same_inclusion_trans: "same_inclusion r s \<Longrightarrow> same_inclusion s t \<Longrightarrow> same_inclusion r t"
  by (auto simp: same_inclusion_def)

lemma record_advances_trans:
  assumes "record_advances r s" "record_advances s t"
  shows "record_advances r t"
proof -
  have "evidence_of r = JStr ''MOMENTUM_INCLUDED'' \<longrightarrow> same_inclusion r t"
    using assms included_up [OF assms(1)] same_inclusion_trans by (auto simp: record_advances_def)
  moreover have "delivery_of r = JStr ''DELIVERED'' \<longrightarrow> slot ''cachedResponse'' t = slot ''cachedResponse'' r"
    using assms delivered_up [OF assms(1)] by (auto simp: record_advances_def)
  moreover have "delivery_rank (delivery_of r) \<noteq> 0 \<longrightarrow> slot ''momentumEvidence'' t = slot ''momentumEvidence'' r"
    using assms by (auto simp: record_advances_def)
  moreover have "slot f t = slot f r" if "f \<in> set immutable_fields \<union> {''createdAt''}" for f
    using assms that unfolding record_advances_def by metis
  moreover have "text_at ''updatedAt'' r \<le> text_at ''updatedAt'' t"
    using assms unfolding record_advances_def by (blast intro: order_trans)
  moreover have "evidence_rank (evidence_of r) \<le> evidence_rank (evidence_of t)"
    using assms unfolding record_advances_def by (blast intro: order_trans)
  moreover have "delivery_rank (delivery_of r) \<le> delivery_rank (delivery_of t)"
    using assms unfolding record_advances_def by (blast intro: order_trans)
  ultimately show ?thesis unfolding record_advances_def by blast
qed

lemma buried_advances: "record_advances r s \<Longrightarrow> buried s x \<Longrightarrow> buried r x"
proof -
  assume a: "record_advances r s" "buried s x"
  have "set buried_identity \<subseteq> set immutable_fields \<union> {''createdAt''}"
    by (simp add: buried_identity_def immutable_fields_def)
  then have "\<forall>f \<in> set buried_identity. slot f x = slot f r"
    using a by (auto simp: record_advances_def buried_def)
  moreover have "evidence_of r \<noteq> JStr ''MOMENTUM_INCLUDED''"
    using a included_up by (auto simp: buried_def)
  ultimately show "buried r x"
    using a by (auto simp: record_advances_def buried_def)
qed

lemma tombstone_advances_refl [simp]: "tombstone_advances x x"
  by (simp add: tombstone_advances_def)

lemma tombstone_advances_trans: "tombstone_advances x y \<Longrightarrow> tombstone_advances y z \<Longrightarrow> tombstone_advances x z"
  by (simp add: tombstone_advances_def)

lemma advances_buried: "buried r x \<Longrightarrow> tombstone_advances x y \<Longrightarrow> buried r y"
proof -
  assume a: "buried r x" "tombstone_advances x y"
  have same: "slot f y = slot f x" if "f \<in> set buried_identity \<union> {''priorEvidenceState'', ''terminalizedAt''}" for f
    using a(2) that by (auto simp: tombstone_advances_def buried_identity_def)
  then have "text_at ''createdAt'' y = text_at ''createdAt'' x" "text_at ''terminalizedAt'' y = text_at ''terminalizedAt'' x"
    by (simp_all add: text_at_def buried_identity_def)
  then show "buried r y" using a(1) same by (auto simp: buried_def)
qed

section \<open>The order on journals\<close>

definition advances :: "json \<Rightarrow> json \<Rightarrow> bool" where
  "advances a b \<longleftrightarrow> int_at ''revision'' a \<le> int_at ''revision'' b
     \<and> (\<forall>k r. record_at k a = Some r \<longrightarrow>
          (\<exists>r'. record_at k b = Some r' \<and> record_advances r r')
          \<or> record_at k b = None \<and> (\<exists>x. tombstone_at k b = Some x \<and> buried r x))
     \<and> (\<forall>k x. tombstone_at k a = Some x \<longrightarrow> record_at k a = None \<longrightarrow>
          record_at k b = None \<and> (\<exists>y. tombstone_at k b = Some y \<and> tombstone_advances x y))"

lemma advances_refl: "advances a a"
  by (auto simp: advances_def intro: record_advances_refl)

lemma advancesD:
  assumes "advances a b"
  shows "int_at ''revision'' a \<le> int_at ''revision'' b"
    "record_at k a = Some r \<Longrightarrow> (\<exists>r'. record_at k b = Some r' \<and> record_advances r r')
      \<or> record_at k b = None \<and> (\<exists>x. tombstone_at k b = Some x \<and> buried r x)"
    "tombstone_at k a = Some x \<Longrightarrow> record_at k a = None \<Longrightarrow>
      record_at k b = None \<and> (\<exists>y. tombstone_at k b = Some y \<and> tombstone_advances x y)"
  using assms unfolding advances_def by blast+

lemma advances_trans:
  assumes ab: "advances a b" and bc: "advances b c"
  shows "advances a c"
  unfolding advances_def
proof (intro conjI allI impI)
  show "int_at ''revision'' a \<le> int_at ''revision'' c"
    using advancesD(1) [OF ab] advancesD(1) [OF bc] by simp
next
  fix k r assume "record_at k a = Some r"
  from advancesD(2) [OF ab this]
  show "(\<exists>r'. record_at k c = Some r' \<and> record_advances r r')
      \<or> record_at k c = None \<and> (\<exists>x. tombstone_at k c = Some x \<and> buried r x)"
  proof (elim disjE exE conjE)
    fix r' assume r': "record_at k b = Some r'" "record_advances r r'"
    from advancesD(2) [OF bc r'(1)] show ?thesis
      using record_advances_trans [OF r'(2)] buried_advances [OF r'(2)] by blast
  next
    fix x assume "record_at k b = None" and x: "tombstone_at k b = Some x" "buried r x"
    from advancesD(3) [OF bc x(1) this(1)] show ?thesis
      using advances_buried [OF x(2)] by blast
  qed
next
  fix k x assume x: "tombstone_at k a = Some x" "record_at k a = None"
  from advancesD(3) [OF ab this] obtain y where y: "record_at k b = None" "tombstone_at k b = Some y" "tombstone_advances x y"
    by blast
  from advancesD(3) [OF bc y(2,1)] show "record_at k c = None" "\<exists>y. tombstone_at k c = Some y \<and> tombstone_advances x y"
    using tombstone_advances_trans [OF y(3)] by blast+
qed

section \<open>Parts of a changed journal\<close>

lemma journal_records_set [simp]: "journal_records (set_entry k v data) = (if k = ''records'' then v else journal_records data)"
  by (simp add: journal_records_def)

lemma record_at_put [simp]: "record_at k (put_record k' r data) = (if k = k' then Some r else record_at k data)"
  by (simp add: record_at_def put_record_def)

lemma journal_tombstones_set:
  "k \<noteq> ''schemaVersion'' \<Longrightarrow> k \<noteq> ''tombstones'' \<Longrightarrow> journal_tombstones (set_entry k v data) = journal_tombstones data"
  by (simp add: journal_tombstones_def)

lemma tombstone_at_put_record [simp]: "tombstone_at k (put_record k' r data) = tombstone_at k data"
  by (simp add: tombstone_at_def put_record_def journal_tombstones_set)

lemma bump_parts [simp]:
  "record_at k (bump_revision data) = record_at k data" "tombstone_at k (bump_revision data) = tombstone_at k data"
  "int_at ''revision'' (bump_revision data) = int_at ''revision'' data + 1"
  by (simp_all add: record_at_def tombstone_at_def bump_revision_def journal_tombstones_set)

lemma checksum_parts [simp]:
  "record_at k (set_entry ''checksum'' v data) = record_at k data"
  "tombstone_at k (set_entry ''checksum'' v data) = tombstone_at k data"
  "int_at ''revision'' (set_entry ''checksum'' v data) = int_at ''revision'' data"
  by (simp_all add: record_at_def tombstone_at_def journal_tombstones_set)

lemma put_record_revision [simp]: "int_at ''revision'' (put_record k r data) = int_at ''revision'' data"
  by (simp add: put_record_def)

lemma advances_put:
  "record_at k data = Some r \<Longrightarrow> record_advances r r' \<Longrightarrow> advances data (bump_revision (put_record k r' data))"
  by (auto simp: advances_def)

lemma advances_new:
  "record_at k data = None \<Longrightarrow> tombstone_at k data = None \<Longrightarrow> advances data (bump_revision (put_record k r data))"
  by (auto simp: advances_def)

lemma advances_sealed: "advances data data' \<Longrightarrow> advances data (set_entry ''checksum'' v data')"
  by (simp add: advances_def)

lemma bury_parts:
  assumes "slot ''schemaVersion'' data = JNum 1 \<or> slot ''schemaVersion'' data = JNum 2"
  shows "record_at k (bury k' x data) = (if k = k' then None else record_at k data)"
    "tombstone_at k (bury k' x data) = (if k = k' then Some x else tombstone_at k data)"
    "int_at ''revision'' (bury k' x data) = int_at ''revision'' data"
  using assms
  by (auto simp: bury_def put_tombstone_def with_tombstones_def record_at_def tombstone_at_def map_entry_def
      journal_tombstones_def journal_records_def)

lemma put_tombstone_parts:
  "record_at k (put_tombstone k' x data) = record_at k data"
  "slot ''schemaVersion'' data = JNum 2 \<Longrightarrow> tombstone_at k (put_tombstone k' x data) = (if k = k' then Some x else tombstone_at k data)"
  "int_at ''revision'' (put_tombstone k' x data) = int_at ''revision'' data"
  by (auto simp: put_tombstone_def record_at_def tombstone_at_def map_entry_def journal_tombstones_def)

lemma tombstone_version: "tombstone_at k data = Some x \<Longrightarrow> slot ''schemaVersion'' data = JNum 2"
  by (auto simp: tombstone_at_def map_entry_def journal_tombstones_def split: if_splits)

lemma advances_bury:
  assumes "slot ''schemaVersion'' data = JNum 1 \<or> slot ''schemaVersion'' data = JNum 2"
    and "record_at k data = Some r" "buried r x" "tombstone_at k data = None"
  shows "advances data (bump_revision (bury k x data))"
  using assms(2-4) by (auto simp: advances_def bury_parts [OF assms(1)])

lemma advances_late:
  assumes "tombstone_at k data = Some x" "tombstone_advances x y"
  shows "advances data (bump_revision (put_tombstone k y data))"
  using assms tombstone_version [OF assms(1)]
  by (auto simp: advances_def put_tombstone_parts)

end
