(* ===== verification/Journal_Contents.thy ===== *)
theory Journal_Contents
  imports Journal_Forward
begin

text \<open>
  What a valid journal holds, and that the methods of the journal only move it forward. \<open>content\<close> is
  what the file denotes. The one assumption is \<open>reads_back\<close>: \<open>JSON.parse\<close> gives the value whose text
  the writer wrote. Programs are checked by the rules \<open>fwd\<close>, which follow their structure.
\<close>

section \<open>Entries of a valid journal\<close>

definition unlike :: "string \<times> json \<Rightarrow> string \<times> json \<Rightarrow> bool" where
  "unlike p q \<longleftrightarrow> \<not> strict_eq (slot ''authorizationKey'' (snd q)) (slot ''authorizationKey'' (snd p))
     \<and> \<not> strict_eq (slot ''transactionHash'' (snd q)) (slot ''transactionHash'' (snd p))"

lemma check_entries_Some:
  assumes "check_entries valid kvs (A, T) = Some (A', T')"
  shows "\<forall>(k, e) \<in> set kvs. valid e \<and> k = key_of e \<and> \<not> seen_before (slot ''authorizationKey'' e) A
      \<and> \<not> seen_before (slot ''transactionHash'' e) T"
    and "set A' = set A \<union> (\<lambda>p. slot ''authorizationKey'' (snd p)) ` set kvs"
    and "set T' = set T \<union> (\<lambda>p. slot ''transactionHash'' (snd p)) ` set kvs"
    and "sorted_wrt unlike kvs"
  using assms
proof (induction valid kvs "(A, T)" arbitrary: A T rule: check_entries.induct)
  case (2 valid k e kvs A T)
  {
    case 1
    with 2 show ?case by (auto simp: seen_before_def split: if_splits)
  next
    case 2
    with "2.hyps" show ?case by (auto split: if_splits)
  next
    case 3
    with "2.hyps" show ?case by (auto split: if_splits)
  next
    case 4
    with "2.hyps" show ?case by (auto simp: unlike_def seen_before_def split: if_splits)
  }
qed simp_all

lemma digest_is_text: "digest_is sha v d \<Longrightarrow> \<exists>h. d = JStr h"
  by (auto simp: digest_is_def split: sum.splits)

lemma valid_record_key:
  assumes "valid_record sha url r"
  shows "\<exists>a. slot ''authorizationKey'' r = JStr a \<and> is_hex64 a"
proof -
  have "digest_is sha (authorization_json r) (slot ''authorizationKey'' r)" "hash_test (slot ''authorizationKey'' r)"
    using assms by (simp_all add: valid_record_def)
  then show ?thesis using digest_is_text by (fastforce simp: hash_test_def)
qed

lemma valid_tombstone_key:
  assumes "valid_tombstone sha x"
  shows "\<exists>a. slot ''authorizationKey'' x = JStr a \<and> is_hex64 a"
proof -
  have "digest_is sha (authorization_json x) (slot ''authorizationKey'' x)" "hash_test (slot ''authorizationKey'' x)"
    using assms by (simp_all add: valid_tombstone_def)
  then show ?thesis using digest_is_text by (fastforce simp: hash_test_def)
qed

lemma same_key_authorization:
  assumes "slot ''authorizationKey'' r = JStr a" "is_hex64 a" "slot ''authorizationKey'' x = JStr b" "is_hex64 b"
    and "key_of r = key_of x"
  shows "a = b"
  using assms append_eq_append_conv [of a b "'':'' @ to_text (slot ''transactionHash'' r)" "'':'' @ to_text (slot ''transactionHash'' x)"]
  by (simp add: key_of_def is_hex64_def)

text \<open>The facts the methods use.\<close>

lemma valid_journal_facts:
  assumes "valid_journal sha url m b data"
  shows "slot ''schemaVersion'' data = JNum 1 \<or> slot ''schemaVersion'' data = JNum 2"
    and "record_at k data = Some r \<Longrightarrow> valid_record sha url r \<and> k = key_of r"
    and "tombstone_at k data = Some x \<Longrightarrow> valid_tombstone sha x \<and> k = key_of x \<and> x \<in> set (tombstone_list data)"
proof -
  have st: "valid_structure sha url m data" using assms by (simp add: valid_journal_def)
  then show "slot ''schemaVersion'' data = JNum 1 \<or> slot ''schemaVersion'' data = JNum 2"
    by (simp add: valid_structure_def)
  from st obtain A T where rs: "check_entries (valid_record sha url) (members (journal_records data)) ([], []) = Some (A, T)"
    and ts: "\<And>t. journal_tombstones data = Some t \<Longrightarrow> \<exists>A' T'. check_entries (valid_tombstone sha) (members t) (A, T) = Some (A', T')"
    by (fastforce simp: valid_structure_def split: option.splits)
  show "record_at k data = Some r \<Longrightarrow> valid_record sha url r \<and> k = key_of r"
    using check_entries_Some(1) [OF rs] by (auto simp: record_at_def entry_def dest!: map_of_SomeD)
  assume "tombstone_at k data = Some x"
  then obtain t where t: "journal_tombstones data = Some t" and x: "(k, x) \<in> set (members t)"
    by (auto simp: tombstone_at_def map_entry_def bind_eq_Some_conv entry_def dest: map_of_SomeD)
  obtain A' T' where "check_entries (valid_tombstone sha) (members t) (A, T) = Some (A', T')" using ts t by blast
  from check_entries_Some(1) [OF this] x
  show "valid_tombstone sha x \<and> k = key_of x \<and> x \<in> set (tombstone_list data)"
    using t by (force simp: tombstone_list_def)
qed

lemma clone_fits_distinct: "clone_fits limit v \<Longrightarrow> distinct_keys v"
  by (auto simp: clone_fits_def dest: clone_json_distinct)

lemma entries_distinct:
  assumes "check_entries valid kvs seen = Some x" "\<And>e. valid e \<Longrightarrow> \<exists>a. slot ''authorizationKey'' e = JStr a \<and> is_hex64 a"
  shows "distinct (map fst kvs)"
proof -
  obtain A T A' T' where c: "check_entries valid kvs (A, T) = Some (A', T')" using assms(1) by (cases seen; cases x) auto
  have ok: "\<forall>(k, e) \<in> set kvs. valid e \<and> k = key_of e" using check_entries_Some(1) [OF c] by auto
  show ?thesis
    using check_entries_Some(4) [OF c] ok
  proof (induction kvs)
    case (Cons p kvs)
    have "fst p \<notin> fst ` set kvs"
    proof
      assume "fst p \<in> fst ` set kvs"
      then obtain q where q: "q \<in> set kvs" "fst q = fst p" by force
      have p': "valid (snd p)" "fst p = key_of (snd p)" and q': "valid (snd q)" "fst q = key_of (snd q)"
        using Cons.prems(2) q by (auto simp: case_prod_beta)
      obtain a where a: "slot ''authorizationKey'' (snd p) = JStr a" "is_hex64 a" using assms(2) p'(1) by blast
      obtain b where b: "slot ''authorizationKey'' (snd q) = JStr b" "is_hex64 b" using assms(2) q'(1) by blast
      have "a = b" using same_key_authorization [OF a b] p'(2) q' q(2) by simp
      then have "strict_eq (slot ''authorizationKey'' (snd q)) (slot ''authorizationKey'' (snd p))"
        using a b by (simp add: strict_eq_def)
      then show False using Cons.prems(1) q by (auto simp: unlike_def)
    qed
    then show ?case using Cons by simp
  qed simp
qed

text \<open>A valid journal has distinct keys throughout.\<close>

lemma exact_keys_set: "exact_keys ks v \<Longrightarrow> distinct ks \<Longrightarrow> \<exists>kvs. v = JObj kvs \<and> distinct (map fst kvs) \<and> fst ` set kvs = set ks"
proof -
  assume a: "exact_keys ks v" "distinct ks"
  then obtain kvs where v: "v = JObj kvs" by (cases v) auto
  have d: "distinct (map fst kvs)" "length kvs = length ks" "fst ` set kvs \<subseteq> set ks"
    using a by (auto simp: v)
  then have "card (fst ` set kvs) = card (set ks)"
    using a(2) by (metis distinct_card length_map set_map)
  then have "fst ` set kvs = set ks" using d(3) by (simp add: card_subset_eq)
  then show ?thesis using v d by blast
qed

lemma in_members_slot: "distinct (map fst kvs) \<Longrightarrow> (k, v) \<in> set kvs \<Longrightarrow> slot k (JObj kvs) = v"
  by simp

lemma object_members: "is_object v \<Longrightarrow> v = JObj (members v)"
  by (cases v) auto

lemma valid_journal_distinct:
  assumes "valid_journal sha url m b data"
  shows "distinct_keys data"
proof -
  have st: "valid_structure sha url m data" using assms by (simp add: valid_journal_def)
  have keys: "exact_keys (journal_fields data) data" and objs: "is_object (journal_records data)"
    "\<And>t. journal_tombstones data = Some t \<Longrightarrow> is_object t"
    using st by (auto simp: valid_structure_def split: option.splits)
  have "distinct (journal_fields data)" by (simp add: journal_fields_def)
  from exact_keys_set [OF keys this] obtain kvs where data: "data = JObj kvs" and d: "distinct (map fst kvs)"
    and names: "fst ` set kvs = set (journal_fields data)"
    by blast
  from st obtain A T where rs: "check_entries (valid_record sha url) (members (journal_records data)) ([], []) = Some (A, T)"
    and ts: "\<And>t. journal_tombstones data = Some t \<Longrightarrow> \<exists>A' T'. check_entries (valid_tombstone sha) (members t) (A, T) = Some (A', T')"
    by (fastforce simp: valid_structure_def split: option.splits)
  have records: "distinct_keys (journal_records data)"
  proof -
    have "\<forall>(k, r) \<in> set (members (journal_records data)). distinct_keys r"
      using check_entries_Some(1) [OF rs] by (auto simp: valid_record_def dest: clone_fits_distinct)
    then show ?thesis
      using entries_distinct [OF rs valid_record_key] object_members [OF objs(1)]
      by (metis distinct_keys.simps(2))
  qed
  have tombstones: "distinct_keys t" if t: "journal_tombstones data = Some t" for t
  proof -
    obtain A' T' where c: "check_entries (valid_tombstone sha) (members t) (A, T) = Some (A', T')" using ts t by blast
    have "\<forall>(k, r) \<in> set (members t). distinct_keys r"
      using check_entries_Some(1) [OF c] by (auto simp: valid_tombstone_def dest: clone_fits_distinct)
    then show ?thesis
      using entries_distinct [OF c valid_tombstone_key] object_members [OF objs(2) [OF t]]
      by (metis distinct_keys.simps(2))
  qed
  have "distinct_keys v" if kv: "(k, v) \<in> set kvs" for k v
  proof -
    have v: "slot k data = v" using in_members_slot [OF d kv] by (simp only: data)
    have "k \<in> set (journal_fields data)" using names kv by force
    then have "k = ''tombstones'' \<and> slot ''schemaVersion'' data \<noteq> JNum 1
        \<or> k \<in> {''schemaVersion'', ''revision'', ''checksum'', ''records''}"
    proof (cases "slot ''schemaVersion'' data = JNum 1")
      case True
      then have "journal_fields data = [''schemaVersion'', ''revision'', ''records'', ''checksum'']"
        by (simp only: journal_fields_def if_True refl)
      with \<open>k \<in> set (journal_fields data)\<close> show ?thesis by auto
    next
      case False
      then have "journal_fields data = [''schemaVersion'', ''revision'', ''records'', ''tombstones'', ''checksum'']"
        by (simp only: journal_fields_def if_False)
      with \<open>k \<in> set (journal_fields data)\<close> False show ?thesis by auto
    qed
    then consider "k = ''schemaVersion''" | "k = ''revision''" | "k = ''checksum''" | "k = ''records''"
      | "k = ''tombstones''" "slot ''schemaVersion'' data \<noteq> JNum 1"
      by (elim disjE conjE insertE emptyE) simp_all
    then show ?thesis
    proof cases
      case 1
      then show ?thesis using st v by (auto simp: valid_structure_def)
    next
      case 2
      then show ?thesis using st v by (cases v) (auto simp: valid_structure_def int_slot_def)
    next
      case 3
      then show ?thesis using assms v by (auto simp: valid_journal_def split: sum.splits)
    next
      case 4
      then show ?thesis using records v by (simp add: journal_records_def)
    next
      case 5
      then have "journal_tombstones data = Some v"
        using st v by (auto simp: valid_structure_def journal_tombstones_def)
      then show ?thesis by (rule tombstones)
    qed
  qed
  with d have "distinct_keys (JObj kvs)" by auto
  then show ?thesis by (simp only: data)
qed

section \<open>The content of the file\<close>

definition content :: "world \<Rightarrow> node \<Rightarrow> json option" where
  "content w n = (case n of Regular t \<Rightarrow> Option.bind (w_parse w t) plain_json | _ \<Rightarrow> None)"

definition reads_back :: "world \<Rightarrow> bool" where
  "reads_back w \<longleftrightarrow> (\<forall>data limit t. distinct_keys data \<longrightarrow> stringify_json 2 False limit data = Inr t
     \<longrightarrow> w_parse w (t @ [CHR 0x0A]) = Some (js_of data))"

lemma plain_items_js:
  assumes "\<And>v. v \<in> set vs \<Longrightarrow> plain_json (js_of v) = Some v"
  shows "plain_items (map DataProp (map js_of vs)) = Some vs"
  using assms by (induction vs) auto

lemma plain_fields_js:
  assumes "\<And>k v. (k, v) \<in> set kvs \<Longrightarrow> plain_json (js_of v) = Some v"
  shows "plain_fields (map (\<lambda>(k, v). (k, DataProp (js_of v))) kvs) = Some kvs"
  using assms
proof (induction kvs)
  case (Cons kv kvs)
  obtain k v where kv: "kv = (k, v)" by (cases kv)
  have "plain_fields (map (\<lambda>(k, v). (k, DataProp (js_of v))) kvs) = Some kvs"
    using Cons.prems by (intro Cons.IH) (meson list.set_intros(2))
  moreover have "plain_json (js_of v) = Some v" using Cons.prems [of k v] kv by simp
  ultimately show ?case by (simp add: kv)
qed simp

lemma plain_json_js: "writable d v \<Longrightarrow> plain_json (js_of v) = Some v"
proof (induction v arbitrary: d)
  case (JArr vs)
  have "plain_items (map DataProp (map js_of vs)) = Some vs"
    using JArr by (intro plain_items_js) auto
  then show ?case by (simp add: plain_json.simps arr_def)
next
  case (JObj kvs)
  have image: "js_of (JObj kvs) = VObject ObjectProto False (map (\<lambda>(k, v). (k, DataProp (js_of v))) kvs)"
    by (simp add: obj_def js_members_def split_beta comp_def)
  have "plain_fields (map (\<lambda>(k, v). (k, DataProp (js_of v))) kvs) = Some kvs"
    using JObj by (intro plain_fields_js) (auto simp: snds.simps)
  then show ?case unfolding image by (simp add: plain_json.simps)
qed (simp_all add: plain_json.simps num_def del: num_js_of)

lemma encoded_content:
  assumes "reads_back w" "distinct_keys data" "encode_journal c data = Inr t"
  shows "content w (Regular t) = Some data"
proof -
  obtain u where u: "stringify_json 2 False (cf_maxBytes c) data = Inr u" "t = u @ [CHR 0x0A]"
    using assms(3) by (auto simp: encode_journal_def split: sum.splits snapshot_error.splits if_splits)
  then have "w_parse w t = Some (js_of data)" using assms(1,2) unfolding reads_back_def by blast
  moreover have "writable 0 data" using u(1) by (simp add: stringify_json_Inr)
  ultimately show ?thesis by (simp add: content_def plain_json_js)
qed

lemma sealed_Inr:
  assumes "sealed w c data = Inr data'"
  shows "\<exists>h. data' = set_entry ''checksum'' (JStr h) data \<and> checksum_for (w_sha w) (cf_maxBytes c) data = Inr h
    \<and> valid_journal (w_sha w) (w_url w) (cf_maxRecords c) (cf_maxBytes c) data'"
  using assms by (auto simp: sealed_def also_then_Inr Let_def split: sum.splits snapshot_error.splits)

lemma written_content:
  assumes "reads_back w" "written w c data n"
  shows "\<exists>h. content w n = Some (set_entry ''checksum'' (JStr h) data)
    \<and> valid_journal (w_sha w) (w_url w) (cf_maxRecords c) (cf_maxBytes c) (set_entry ''checksum'' (JStr h) data)"
proof -
  from assms(2) obtain data' t where s: "sealed w c data = Inr data'" and t: "encode_journal c data' = Inr t" "n = Regular t"
    by (auto simp: written_def)
  from sealed_Inr [OF s] obtain h where h: "data' = set_entry ''checksum'' (JStr h) data"
    "valid_journal (w_sha w) (w_url w) (cf_maxRecords c) (cf_maxBytes c) data'"
    by blast
  have "content w (Regular t) = Some data'"
    using assms(1) valid_journal_distinct [OF h(2)] t(1) by (rule encoded_content)
  with h t(2) show ?thesis by blast
qed

end
