(* ===== verification/Journal_Progress.thy ===== *)
theory Journal_Progress
  imports Journal_Contents
begin

text \<open>
  Every method of the journal, with any script of failures and with the process ending at any call,
  leaves the file as it was or moves it forward; a missing file is created, a file that cannot be
  read is never written. The rules \<open>fwd\<close> follow the structure of a method: what is quiet keeps the
  file, a read gives the content, and a write must be of a journal that the content advances to.
\<close>

section \<open>Moving the file\<close>

definition moved :: "world \<Rightarrow> node \<Rightarrow> node \<Rightarrow> bool" where
  "moved w n n' \<longleftrightarrow> n = Missing \<or> n' = n
     \<or> (\<exists>a b. content w n = Some a \<and> content w n' = Some b \<and> advances a b)"

lemma moved_refl [simp]: "moved w n n"
  by (simp add: moved_def)

lemma content_Missing [simp]: "content w Missing = None"
  by (simp add: content_def)

lemma moved_trans: "moved w n n' \<Longrightarrow> moved w n' n'' \<Longrightarrow> moved w n n''"
  by (auto simp: moved_def intro: advances_trans)

text \<open>A program that moves the file forward when it starts with the file \<open>n\<close>.\<close>

definition forward_at :: "world \<Rightarrow> node \<Rightarrow> 'a journal_prog \<Rightarrow> bool" where
  "forward_at w n p \<longleftrightarrow> (\<forall>s. file_of s = n \<longrightarrow> wpre p (\<lambda>_ u. moved w n (file_of u)) (\<lambda>_ u. moved w n (file_of u)) s)"

named_theorems fwd "programs that move the journal forward"

lemma forward_quiet: "keeps_file p \<Longrightarrow> forward_at w n p"
  unfolding forward_at_def
  by (intro allI impI) (rule wpre_mono [OF keeps_fileD], auto)

lemma forward_plain [fwd]:
  "forward_at w n (yield v)" "forward_at w n (raise e)" "forward_at w n (lift_sum r)"
  by (intro forward_quiet quiet)+

lemma forward_andthen:
  assumes "forward_at w n p" "\<And>v m. moved w n m \<Longrightarrow> forward_at w m (f v)"
  shows "forward_at w n (andthen p f)"
  unfolding forward_at_def wp
proof (intro allI impI)
  fix s :: site assume s: "file_of s = n"
  show "wpre p (\<lambda>v. wpre (f v) (\<lambda>_ u. moved w n (file_of u)) (\<lambda>_ u. moved w n (file_of u))) (\<lambda>_ u. moved w n (file_of u)) s"
  proof (rule wpre_mono)
    show "wpre p (\<lambda>_ u. moved w n (file_of u)) (\<lambda>_ u. moved w n (file_of u)) s"
      using assms(1) s by (simp add: forward_at_def)
    fix v t assume t: "moved w n (file_of t)"
    from assms(2) [OF t] have "wpre (f v) (\<lambda>_ u. moved w (file_of t) (file_of u)) (\<lambda>_ u. moved w (file_of t) (file_of u)) t"
      by (simp add: forward_at_def)
    then show "wpre (f v) (\<lambda>_ u. moved w n (file_of u)) (\<lambda>_ u. moved w n (file_of u)) t"
      by (rule wpre_mono) (use moved_trans [OF t] in auto)
  qed auto
qed

lemma forward_quiet_then:
  assumes "keeps_file p" "\<And>v. forward_at w n (f v)"
  shows "forward_at w n (andthen p f)"
  unfolding forward_at_def wp
  by (intro allI impI) (rule wpre_mono [OF keeps_fileD [OF assms(1)]], use assms(2) in \<open>auto simp: forward_at_def\<close>)

lemma forward_assure [fwd]: "(b \<Longrightarrow> forward_at w n (f ())) \<Longrightarrow> forward_at w n (andthen (assure b e) f)"
  by (simp add: forward_at_def wp)

lemma forward_demand [fwd]: "(\<And>v. x = Some v \<Longrightarrow> forward_at w n (f v)) \<Longrightarrow> forward_at w n (andthen (demand x e) f)"
  by (simp add: forward_at_def wp split: option.splits)

lemma forward_lift [fwd]: "(\<And>v. r = Inr v \<Longrightarrow> forward_at w n (f v)) \<Longrightarrow> forward_at w n (andthen (lift_sum r) f)"
  by (simp add: forward_at_def wp split: sum.splits)

lemma forward_time [fwd]: "(\<And>t. valid_timestamp t \<Longrightarrow> forward_at w n (f t)) \<Longrightarrow> forward_at w n (andthen (current_time now) f)"
  unfolding current_time_def by (rule forward_demand) (simp add: satisfying_eq_Some)

lemma forward_cloned [fwd]: "(\<And>x. clone_json max_record_bytes (js_of v) = Inr x \<Longrightarrow> forward_at w n (f x)) \<Longrightarrow> forward_at w n (andthen (cloned v) f)"
  unfolding cloned_def by (rule forward_lift)

lemma forward_if [fwd]: "(b \<Longrightarrow> forward_at w n p) \<Longrightarrow> (\<not> b \<Longrightarrow> forward_at w n q) \<Longrightarrow> forward_at w n (if b then p else q)"
  by simp

lemma forward_option [fwd]: "(x = None \<Longrightarrow> forward_at w n p) \<Longrightarrow> (\<And>v. x = Some v \<Longrightarrow> forward_at w n (q v)) \<Longrightarrow>
    forward_at w n (case x of None \<Rightarrow> p | Some v \<Rightarrow> q v)"
  by (simp split: option.splits)

lemma forward_pair [fwd]: "(\<And>a b. x = (a, b) \<Longrightarrow> forward_at w n (p a b)) \<Longrightarrow> forward_at w n (case x of (a, b) \<Rightarrow> p a b)"
  by (simp split: prod.splits)

lemma forward_let [fwd]: "(\<And>y. y = x \<Longrightarrow> forward_at w n (p y)) \<Longrightarrow> forward_at w n (let y = x in p y)"
  by simp

lemma forward_next_time [fwd]: "(\<And>t. text_at ''updatedAt'' r \<le> t \<Longrightarrow> valid_timestamp t \<or> t = text_at ''updatedAt'' r \<Longrightarrow> forward_at w n (f t))
    \<Longrightarrow> forward_at w n (andthen (next_timestamp now r) f)"
  unfolding next_timestamp_def forward_at_def wp current_time_def
  by (auto simp: later_text_def satisfying_eq_Some wp split: option.splits)

lemma forward_with_writer [fwd]: "forward_at w n p \<Longrightarrow> forward_at w n (with_writer p)"
  unfolding with_writer_def by (intro forward_quiet_then quiet_syscall) simp_all

section \<open>Writing and reading\<close>

lemma write_moves:
  assumes w: "reads_back w" and data: "content w n = Some data" "advances data data'"
  shows "forward_at w n (write_journal w c data')"
proof -
  have ok: "moved w n m" if "written w c data' m" for m
    using written_content [OF w that] data advances_sealed by (auto simp: moved_def)
  show ?thesis
    unfolding forward_at_def
    by (intro allI impI) (rule wpre_mono [OF write_journal_wp], use ok in auto)
qed

text \<open>An empty journal that was written is what is read back.\<close>

lemma empty_journal_sealed:
  assumes "empty_journal (w_sha w) = Inr data" "sealed w c data = Inr data'"
  shows "data' = data"
proof -
  obtain h where h: "data = JObj (members empty_content @ [(''checksum'', JStr h)])"
    and "checksum_for (w_sha w) max_file_bytes empty_content = Inr h"
    using assms(1) by (auto simp: empty_journal_def also_then_Inr)
  then have "h = w_sha w (canonical_json (checksum_content empty_content))"
    by (auto simp: checksum_for_def dest: digest_of_Inr)
  moreover from sealed_Inr [OF assms(2)] obtain k where k: "data' = set_entry ''checksum'' (JStr k) data"
    "checksum_for (w_sha w) (cf_maxBytes c) data = Inr k" by blast
  then have "k = w_sha w (canonical_json (checksum_content data))"
    by (auto simp: checksum_for_def dest: digest_of_Inr)
  moreover have "checksum_content data = checksum_content empty_content"
    by (simp add: h checksum_content_def empty_content_def journal_records_def journal_tombstones_def)
  ultimately show ?thesis
    by (simp add: k(1) h set_entry_def empty_content_def)
qed

lemma read_journal_wp:
  assumes w: "reads_back w"
  shows "wpre (read_journal w c)
     (\<lambda>data u. content w (file_of u) = Some data
        \<and> valid_journal (w_sha w) (w_url w) (cf_maxRecords c) (cf_maxBytes c) data
        \<and> (file_of u = file_of s \<or> file_of s = Missing))
     (\<lambda>_ u. file_of u = file_of s \<or> file_of s = Missing) s"
proof -
  let ?Q = "\<lambda>data u. content w (file_of u) = Some data
        \<and> valid_journal (w_sha w) (w_url w) (cf_maxRecords c) (cf_maxBytes c) data
        \<and> (file_of u = file_of s \<or> file_of s = Missing)"
  let ?E = "\<lambda>(_ :: journal_error) u. file_of u = file_of s \<or> file_of s = Missing"
  have start: "wpre (start_journal w c) ?Q ?E u" if "file_of s = Missing" for u
  proof (cases "empty_journal (w_sha w)")
    case (Inl e)
    then show ?thesis using that by (simp add: start_journal_def wp)
  next
    case (Inr data)
    have "?Q data v" if wr: "written w c data (file_of v)" for v
    proof -
      obtain data' t where d: "sealed w c data = Inr data'" "encode_journal c data' = Inr t" "file_of v = Regular t"
        using wr by (auto simp: written_def)
      then have "data' = data" using empty_journal_sealed [OF Inr] by blast
      moreover have valid: "valid_journal (w_sha w) (w_url w) (cf_maxRecords c) (cf_maxBytes c) data'"
        using sealed_Inr [OF d(1)] by blast
      ultimately show ?thesis
        using encoded_content [OF w valid_journal_distinct [OF valid] d(2)] d(3) \<open>file_of s = Missing\<close> by simp
    qed
    then show ?thesis
      unfolding start_journal_def Inr sum.case wp
      by (intro wpre_mono [OF write_journal_wp]) (use that in \<open>auto simp: wp\<close>)
  qed
  have regular: "wpre (andthen (syscall JournalReadFailed id) (\<lambda>_.
         andthen (syscall JournalReadFailed id) (\<lambda>_.
         andthen (assure (utf8_bytes t \<le> cf_maxBytes c) JournalCorrupt) (\<lambda>_.
         andthen (syscall JournalReadFailed id) (\<lambda>_.
         andthen (demand (decode_journal w c t) JournalCorrupt) (\<lambda>data.
         andthen (if initialized then yield () else ensure_marker) (\<lambda>_. yield data))))))) ?Q ?E u"
    if t: "file_of s = Regular t" and u: "file_of u = file_of s" for t u initialized
  proof -
    have last: "wpre (andthen (if initialized then yield () else ensure_marker) (\<lambda>_. yield data)) ?Q ?E v"
      if "decode_journal w c t = Some data" "file_of v = file_of s" for data v
    proof (rule wpre_weaken_keeps)
      have "content w (Regular t) = Some data"
        "valid_journal (w_sha w) (w_url w) (cf_maxRecords c) (cf_maxBytes c) data"
        using that(1) by (auto simp: decode_journal_def content_def bind_eq_Some_conv)
      then show "\<And>x y. file_of y = file_of v \<Longrightarrow> wpre (yield data) ?Q ?E y"
        using that(2) t by (simp add: wp)
    qed (use that in \<open>auto intro: quiet\<close>)
    let ?tail = "andthen (demand (decode_journal w c t) JournalCorrupt) (\<lambda>data.
         andthen (if initialized then yield () else ensure_marker) (\<lambda>_. yield data))"
    have d: "wpre ?tail ?Q ?E v" if "file_of v = file_of s" for v
      unfolding wp_andthen [of "demand x e" for x e] wp_demand
      using that last by (auto split: option.splits)
    have sys: "wpre (andthen (syscall JournalReadFailed id) (\<lambda>_. p)) ?Q ?E v"
      if "file_of v = file_of s" "\<And>v. file_of v = file_of s \<Longrightarrow> wpre p ?Q ?E v" for p v
      by (rule wpre_weaken_keeps [OF quiet_syscall]) (use that in auto)
    have assured: "wpre (andthen (assure (utf8_bytes t \<le> cf_maxBytes c) JournalCorrupt) (\<lambda>_.
         andthen (syscall JournalReadFailed id) (\<lambda>_. ?tail))) ?Q ?E v" if "file_of v = file_of s" for v
      unfolding wp_andthen [of "assure b e" for b e] wp_assure using that sys [OF that d] by simp
    show ?thesis by (rule sys [OF u sys [OF _ assured]])
  qed
  have node: "wpre (case file_of u of
       Missing \<Rightarrow> if initialized \<or> cf_existing c then raise JournalStateMissing else start_journal w c
     | Special \<Rightarrow> raise JournalUnsafeFile
     | Regular t \<Rightarrow>
         andthen (syscall JournalReadFailed id) (\<lambda>_.
         andthen (syscall JournalReadFailed id) (\<lambda>_.
         andthen (assure (utf8_bytes t \<le> cf_maxBytes c) JournalCorrupt) (\<lambda>_.
         andthen (syscall JournalReadFailed id) (\<lambda>_.
         andthen (demand (decode_journal w c t) JournalCorrupt) (\<lambda>data.
         andthen (if initialized then yield () else ensure_marker) (\<lambda>_. yield data))))))) ?Q ?E u"
    if u: "file_of u = file_of s" for u initialized
  proof (cases "file_of s")
    case Missing
    then show ?thesis using u start [OF Missing] by (simp add: wp_raise)
  next
    case (Regular t)
    then show ?thesis using u regular [OF Regular u] by simp
  next
    case Special
    then show ?thesis using u by (simp add: wp_raise)
  qed
  have sys: "wpre (andthen (syscall JournalReadFailed id) p) ?Q ?E v"
    if "file_of v = file_of s" "\<And>v. file_of v = file_of s \<Longrightarrow> wpre (p ()) ?Q ?E v" for p v
    by (rule wpre_weaken_keeps [OF quiet_syscall]) (use that in auto)
  have after: "wpre (andthen (assure b JournalStateMissing) (\<lambda>_. andthen (syscall JournalReadFailed id) p)) ?Q ?E v"
    if "file_of v = file_of s" "\<And>v. file_of v = file_of s \<Longrightarrow> wpre (p ()) ?Q ?E v" for b p v
    unfolding wp_andthen [of "assure b e" for b e] wp_assure using that sys [of v p] by simp
  show ?thesis
    unfolding read_journal_def
  proof (rule wpre_weaken_keeps [OF quiet_has_marker], rule after)
    fix initialized and u v :: site
    assume "file_of v = file_of s"
    then show "wpre (andthen (gets (\<lambda>s. file_of s)) (\<lambda>n. case n of
       Missing \<Rightarrow> if initialized \<or> cf_existing c then raise JournalStateMissing else start_journal w c
     | Special \<Rightarrow> raise JournalUnsafeFile
     | Regular t \<Rightarrow>
         andthen (syscall JournalReadFailed id) (\<lambda>_.
         andthen (syscall JournalReadFailed id) (\<lambda>_.
         andthen (assure (utf8_bytes t \<le> cf_maxBytes c) JournalCorrupt) (\<lambda>_.
         andthen (syscall JournalReadFailed id) (\<lambda>_.
         andthen (demand (decode_journal w c t) JournalCorrupt) (\<lambda>data.
         andthen (if initialized then yield () else ensure_marker) (\<lambda>_. yield data)))))))) ?Q ?E v"
      unfolding wp_andthen [of "gets g" for g] wp_gets using node [of v initialized] by simp
  qed auto
qed

lemma forward_read [fwd]:
  assumes w: "reads_back w"
    and rest: "\<And>data m. content w m = Some data \<Longrightarrow> valid_journal (w_sha w) (w_url w) (cf_maxRecords c) (cf_maxBytes c) data
      \<Longrightarrow> forward_at w m (f data)"
  shows "forward_at w n (andthen (read_journal w c) f)"
  unfolding forward_at_def wp_andthen
proof (intro allI impI)
  fix s :: site assume s: "file_of s = n"
  show "wpre (read_journal w c) (\<lambda>v. wpre (f v) (\<lambda>_ u. moved w n (file_of u)) (\<lambda>_ u. moved w n (file_of u)))
      (\<lambda>_ u. moved w n (file_of u)) s"
  proof (rule wpre_mono [OF read_journal_wp [OF w]])
    fix data t
    assume t: "content w (file_of t) = Some data
        \<and> valid_journal (w_sha w) (w_url w) (cf_maxRecords c) (cf_maxBytes c) data
        \<and> (file_of t = file_of s \<or> file_of s = Missing)"
    then have "wpre (f data) (\<lambda>_ u. moved w (file_of t) (file_of u)) (\<lambda>_ u. moved w (file_of t) (file_of u)) t"
      using rest [of "file_of t" data] by (simp add: forward_at_def)
    moreover have "moved w n (file_of t)" using t s by (auto simp: moved_def)
    ultimately show "wpre (f data) (\<lambda>_ u. moved w n (file_of u)) (\<lambda>_ u. moved w n (file_of u)) t"
      by (auto elim!: wpre_mono intro: moved_trans)
  qed (use s in \<open>auto simp: moved_def\<close>)
qed

lemma forward_write [fwd]:
  assumes "reads_back w" "content w n = Some data" "advances data data'" "\<And>m. forward_at w m (f ())"
  shows "forward_at w n (andthen (write_journal w c data') f)"
  using assms by (intro forward_andthen write_moves) simp_all

end
