(* ===== verification/Journal_Steps.thy ===== *)
theory Journal_Steps
  imports Journal_Progress
begin

text \<open>
  Each change that a method makes moves its record forward, and so every method moves the journal
  forward. The machine of all calls is an \<open>ordered_machine\<close>: a call is any method with any
  arguments, any limits and any script of the operating system.
\<close>

section \<open>Changes of one record\<close>

lemma later_text_ge: "previous \<le> later_text now previous"
  by (auto simp: later_text_def)

lemma valid_record_states:
  assumes "valid_record sha url r"
  shows "\<exists>s \<in> set evidence_states. evidence_of r = JStr s" "\<exists>s \<in> set delivery_states. delivery_of r = JStr s"
    "evidence_of r \<noteq> JStr ''MOMENTUM_INCLUDED'' \<Longrightarrow> delivery_of r = JStr ''NONE''"
proof -
  have e: "text_slot (\<lambda>s. s \<in> set evidence_states) ''evidenceState'' r"
    and d: "text_slot (\<lambda>s. s \<in> set delivery_states) ''deliveryState'' r"
    and i: "delivery_of r \<noteq> JStr ''NONE'' \<longrightarrow> evidence_of r = JStr ''MOMENTUM_INCLUDED''"
    using assms unfolding valid_record_def by blast+
  show "\<exists>s \<in> set evidence_states. evidence_of r = JStr s"
    using e by (auto simp: text_slot_def evidence_of_def split: json.splits)
  show "\<exists>s \<in> set delivery_states. delivery_of r = JStr s"
    using d by (auto simp: text_slot_def delivery_of_def split: json.splits)
  show "evidence_of r \<noteq> JStr ''MOMENTUM_INCLUDED'' \<Longrightarrow> delivery_of r = JStr ''NONE''"
    using i by blast
qed

lemma none_rank [simp]: "delivery_rank (JStr ''NONE'') = 0"
  by (simp add: delivery_rank_def)

lemma immutable_not:
  "f \<in> set immutable_fields \<union> {''createdAt''} \<Longrightarrow>
    f \<noteq> ''updatedAt'' \<and> f \<noteq> ''momentumEvidence'' \<and> f \<noteq> ''evidenceState'' \<and> f \<noteq> ''deliveryState'' \<and> f \<noteq> ''cachedResponse''"
  by (auto simp: immutable_fields_def)

lemma advances_confirmations:
  assumes "text_at ''updatedAt'' r \<le> t" "delivery_of r = JStr ''NONE''" "int_at ''numConfirmations'' (detail_of r) \<le> n"
  shows "record_advances r (set_entry ''updatedAt'' (JStr t) (set_confirmations n r))"
proof -
  let ?r = "set_entry ''updatedAt'' (JStr t) (set_confirmations n r)"
  have "slot f ?r = slot f r" if "f \<in> set immutable_fields \<union> {''createdAt''}" for f
    using immutable_not [OF that] by (simp add: set_confirmations_def)
  moreover have "evidence_of ?r = evidence_of r" "delivery_of ?r = delivery_of r"
    by (simp_all add: evidence_of_def delivery_of_def set_confirmations_def)
  moreover have "same_inclusion r ?r"
    using assms(3) by (simp add: same_inclusion_def set_confirmations_def detail_of_def)
  ultimately show ?thesis
    using assms(1,2) by (simp add: record_advances_def)
qed

lemma advances_evidence:
  assumes "text_at ''updatedAt'' r \<le> t" "evidence_of r \<noteq> JStr ''MOMENTUM_INCLUDED''" "delivery_of r = JStr ''NONE''"
    and "evidence_rank (evidence_of r) \<le> evidence_rank (JStr s)"
  shows "record_advances r (set_evidence s e t r)"
proof -
  let ?r = "set_evidence s e t r"
  have "slot f ?r = slot f r" if "f \<in> set immutable_fields \<union> {''createdAt''}" for f
    using immutable_not [OF that] by (simp add: set_evidence_def)
  moreover have "evidence_of ?r = JStr s" "delivery_of ?r = delivery_of r"
    by (simp_all add: evidence_of_def delivery_of_def set_evidence_def)
  ultimately show ?thesis
    using assms by (simp add: record_advances_def set_evidence_def)
qed

lemma same_inclusion_kept: "slot ''momentumEvidence'' r' = slot ''momentumEvidence'' r \<Longrightarrow> same_inclusion r r'"
  by (simp add: same_inclusion_def detail_of_def)

lemma advances_delivery:
  assumes "text_at ''updatedAt'' r \<le> t" "delivery_rank (delivery_of r) \<le> delivery_rank d" "delivery_of r \<noteq> JStr ''DELIVERED''"
    and "d = JStr ''DELIVERED'' \<or> c = slot ''cachedResponse'' r"
  shows "record_advances r (set_entry ''updatedAt'' (JStr t) (set_entry ''cachedResponse'' c (set_entry ''deliveryState'' d r)))"
    and "record_advances r (set_entry ''updatedAt'' (JStr t) (set_entry ''deliveryState'' d r))"
proof -
  have each: "record_advances r r'" if "\<And>f. f \<notin> {''updatedAt'', ''cachedResponse'', ''deliveryState''} \<Longrightarrow> slot f r' = slot f r"
    "slot ''updatedAt'' r' = JStr t" "slot ''deliveryState'' r' = d" for r'
  proof -
    have "slot f r' = slot f r" if "f \<in> set immutable_fields \<union> {''createdAt''}" for f
      using immutable_not [OF that] \<open>\<And>f. f \<notin> {''updatedAt'', ''cachedResponse'', ''deliveryState''} \<Longrightarrow> slot f r' = slot f r\<close> by simp
    moreover have m: "slot ''momentumEvidence'' r' = slot ''momentumEvidence'' r" using that(1) by simp
    moreover have "evidence_of r' = evidence_of r" "delivery_of r' = d" "text_at ''updatedAt'' r' = t"
      using that by (simp_all add: evidence_of_def delivery_of_def text_at_def)
    ultimately show ?thesis
      using assms(1-3) same_inclusion_kept [OF m] by (simp add: record_advances_def)
  qed
  show "record_advances r (set_entry ''updatedAt'' (JStr t) (set_entry ''cachedResponse'' c (set_entry ''deliveryState'' d r)))"
    by (rule each) simp_all
  show "record_advances r (set_entry ''updatedAt'' (JStr t) (set_entry ''deliveryState'' d r))"
    by (rule each) simp_all
qed

lemma tombstone_from_parts:
  assumes "tombstone_from sha r now = Inr x"
  shows "\<forall>f \<in> set buried_identity. slot f x = slot f r" "slot ''priorEvidenceState'' x = evidence_of r"
    "slot ''terminalizedAt'' x = JStr now" "slot ''createdAt'' x = slot ''createdAt'' r" "slot ''lateMomentumEvidence'' x = JNull"
proof -
  let ?digest = "digest_of sha max_record_bytes (JObj [(''domain'', JStr ''zenon-x402-signed-account-block-v1''),
         (''signedAccountBlock'', slot ''signedAccountBlock'' r)])"
  obtain c where c: "clone_json max_record_bytes (js_of (slot ''chainProfile'' r)) = Inr c"
    using assms unfolding tombstone_from_def also_then_Inr by blast
  obtain h where h: "?digest = Inr h"
    using assms c by (cases ?digest) (simp_all add: tombstone_from_def)
  have "c = slot ''chainProfile'' r" using c by (rule clone_json_js)
  then have x: "x = JObj [(''authorizationKey'', slot ''authorizationKey'' r), (''transactionHash'', slot ''transactionHash'' r),
         (''chainProfile'', slot ''chainProfile'' r), (''intentDigest'', slot ''intentDigest'' r), (''resourceDigest'', slot ''resourceDigest'' r),
         (''payer'', slot ''payer'' r), (''signedAccountBlockDigest'', JStr h), (''priorEvidenceState'', evidence_of r),
         (''createdAt'', slot ''createdAt'' r), (''terminalizedAt'', JStr now), (''lateMomentumEvidence'', JNull)]"
    using assms c h by (simp add: tombstone_from_def)
  show "\<forall>f \<in> set buried_identity. slot f x = slot f r" "slot ''priorEvidenceState'' x = evidence_of r"
    "slot ''terminalizedAt'' x = JStr now" "slot ''createdAt'' x = slot ''createdAt'' r" "slot ''lateMomentumEvidence'' x = JNull"
    unfolding x by (simp_all add: buried_identity_def)
qed

lemma buried_from:
  assumes "tombstone_from sha r now = Inr x" "retention_eligible r now n"
  shows "buried r x"
proof -
  note x = tombstone_from_parts [OF assms(1)]
  have r: "valid_retention n" "text_slot (\<lambda>s. s \<in> set prior_states) ''evidenceState'' r" "delivery_of r = JStr ''NONE''"
    "text_slot (\<lambda>c. parse_millis c \<le> parse_millis now \<and> n \<le> parse_millis now - parse_millis c) ''createdAt'' r"
    using assms(2) by (simp_all add: retention_eligible_def)
  have "evidence_of r \<noteq> JStr ''MOMENTUM_INCLUDED''"
    using r(2) by (auto simp: text_slot_def evidence_of_def prior_states_def)
  moreover have "parse_millis (text_at ''createdAt'' x) + 3600000 \<le> parse_millis (text_at ''terminalizedAt'' x)"
    using r(1,4) x by (auto simp: text_slot_def text_at_def valid_retention_def split: json.splits)
  ultimately show ?thesis using x r(3) by (simp add: buried_def)
qed

section \<open>The methods\<close>

lemma andthen_assoc: "andthen (andthen p f) g = andthen p (\<lambda>v. andthen (f v) g)"
  by (rule ext) (simp add: andthen_def split: prod.splits sum.splits)

lemma forward_store [fwd]:
  assumes "reads_back w" "content w n = Some data"
    "valid_record (w_sha w) (w_url w) r \<Longrightarrow> advances data (bump_revision (put_record k r data))" "\<And>m. forward_at w m (f ())"
  shows "forward_at w n (andthen (store_record w c e k r data) f)"
  unfolding store_record_def andthen_assoc
  by (rule forward_assure, rule forward_write [OF assms(1,2)]) (use assms in auto)

lemma forward_save [fwd]:
  assumes "reads_back w" "content w n = Some data"
    "valid_record (w_sha w) (w_url w) r \<Longrightarrow> advances data (bump_revision (put_record k r data))"
  shows "forward_at w n (save_and_reply w c k r data)"
  unfolding save_and_reply_def cloned_def by (intro forward_store assms fwd)

lemma forward_verify [fwd]:
  assumes "reads_back w" "content w n = Some data"
    "valid_record (w_sha w) (w_url w) r \<Longrightarrow> advances data (bump_revision (put_record k r data))"
  shows "forward_at w n (store_and_verify w c k r data)"
  unfolding store_and_verify_def by (intro forward_store assms fwd)

lemma forward_reply [fwd]: "forward_at w n (reply_entry x)"
  unfolding reply_entry_def cloned_def by (intro fwd)

lemma forward_clone_last [fwd]: "forward_at w n (cloned v)"
  unfolding cloned_def by (rule fwd)

lemma reading_methods:
  assumes "reads_back w"
  shows "forward_at w n (load_journal w c)" "forward_at w n (get_record w c a t)" "forward_at w n (find_record w c t)"
    "forward_at w n (get_tombstone w c a t)" "forward_at w n (find_tombstone w c t)"
    "forward_at w n (entry_snapshot w c a t)" "forward_at w n (list_entries w c options)"
  unfolding load_journal_def get_record_def find_record_def get_tombstone_def find_tombstone_def entry_snapshot_def list_entries_def
  by (intro fwd assms)+

lemma list_candidates_forward:
  assumes "reads_back w"
  shows "forward_at w n (list_candidates w c retention now)"
proof -
  have quiet: "keeps_file (case safe_integer retention of None \<Rightarrow> yield []
       | Some n \<Rightarrow> andthen (current_time now) (\<lambda>t. lift_sum (clone_all (filter (\<lambda>r. retention_eligible r t n) (record_list data)))))" for data
    by (auto simp: current_time_def split: option.splits intro!: quiet)
  show ?thesis
    unfolding list_candidates_def by (intro fwd assms forward_quiet_then [OF quiet])
qed

lemma put_validated_forward:
  assumes w: "reads_back w"
  shows "forward_at w n (put_validated w c input now)"
proof -
  have fresh: "tombstone_at (key_of r) data = None"
    if j: "valid_journal (w_sha w) (w_url w) (cf_maxRecords c) (cf_maxBytes c) data"
      and r: "valid_record (w_sha w) (w_url w) r" and t: "\<not> (\<exists>x \<in> set (tombstone_list data). shares_hash x r)" for r data
  proof (rule ccontr)
    assume "tombstone_at (key_of r) data \<noteq> None"
    then obtain x where x: "tombstone_at (key_of r) data = Some x" by blast
    from valid_journal_facts(3) [OF j x] have v: "valid_tombstone (w_sha w) x" "key_of r = key_of x" "x \<in> set (tombstone_list data)"
      by blast+
    obtain a where a: "slot ''authorizationKey'' r = JStr a" "is_hex64 a" using valid_record_key [OF r] by blast
    obtain b where b: "slot ''authorizationKey'' x = JStr b" "is_hex64 b" using valid_tombstone_key [OF v(1)] by blast
    have "shares_hash x r" using same_key_authorization [OF a b v(2)] a b by (simp add: shares_hash_def strict_eq_def)
    then show False using t v(3) by blast
  qed
  show ?thesis
    unfolding put_validated_def
    by (intro fwd w; (elim ssubst)?; (intro fwd w)?)
      (auto intro!: fwd w advances_new fresh)
qed

end
