(* ===== verification/Journal_Methods.thy ===== *)
theory Journal_Methods
  imports Journal_Steps
begin

text \<open>
  The methods that change an entry move the journal forward, whatever their arguments, and so does
  every call. The machine of all calls is an \<open>ordered_machine\<close>: a step is any call with any
  limits and any script of the operating system, so processes that end and start again are steps
  like any other.
\<close>

section \<open>Changes of evidence\<close>

lemma stored_evidence:
  assumes "valid_journal (w_sha w) (w_url w) m b data" "record_at k data = Some r"
  shows "evidence_of r = JStr (text_at ''evidenceState'' r)" "evidence_of r \<noteq> JStr ''MOMENTUM_INCLUDED'' \<Longrightarrow> delivery_of r = JStr ''NONE''"
proof -
  have v: "valid_record (w_sha w) (w_url w) r" using valid_journal_facts(2) [OF assms] by blast
  show "evidence_of r = JStr (text_at ''evidenceState'' r)"
    using valid_record_states(1) [OF v] by (auto simp: evidence_of_def text_at_def)
  show "evidence_of r \<noteq> JStr ''MOMENTUM_INCLUDED'' \<Longrightarrow> delivery_of r = JStr ''NONE''"
    using valid_record_states(3) [OF v] by blast
qed

lemma evidence_rises:
  assumes "s \<in> set evidence_states" "\<not> ignored_evidence (text_at ''evidenceState'' r) s"
    "evidence_of r = JStr (text_at ''evidenceState'' r)" "evidence_of r \<noteq> JStr ''MOMENTUM_INCLUDED''"
  shows "evidence_rank (evidence_of r) \<le> evidence_rank (JStr s)"
  using assms by (auto simp: evidence_rank_def ignored_evidence_def evidence_states_def)

lemma update_evidence_forward:
  assumes w: "reads_back w"
  shows "forward_at w n (update_evidence w c a t state evidence now)"
  unfolding update_evidence_def
proof (intro forward_assure forward_lift forward_with_writer forward_read [OF w] forward_demand)
  fix im data m k r
  assume s: "state \<in> set evidence_states" and m: "content w m = Some data"
    and j: "valid_journal (w_sha w) (w_url w) (cf_maxRecords c) (cf_maxBytes c) data" and r: "record_at k data = Some r"
  note stored = stored_evidence [OF j r]
  let ?old = "detail_of r" and ?new = "slot ''confirmationDetail'' im"
  have more: "forward_at w m (andthen (assure (\<not> weaker_detail r ?old ?new) JournalMomentumEvidenceInvalid) (\<lambda>_.
            andthen (next_timestamp now r) (\<lambda>at'.
            save_and_reply w c k (set_entry ''updatedAt'' (JStr at') (set_confirmations (int_at ''numConfirmations'' ?new) r)) data)))"
    by (intro fwd w m advances_put [OF r] advances_confirmations) (auto simp: weaker_detail_def)
  have rise: "forward_at w m (andthen (next_timestamp now r) (\<lambda>at'. save_and_reply w c k (set_evidence state im at' r) data))"
    if "evidence_of r \<noteq> JStr ''MOMENTUM_INCLUDED''" "\<not> ignored_evidence (text_at ''evidenceState'' r) state"
    using that stored evidence_rises [OF s that(2) stored(1) that(1)]
    by (intro fwd w m advances_put [OF r] advances_evidence) auto
  show "forward_at w m (if evidence_of r = JStr ''MOMENTUM_INCLUDED'' then
       (if state \<noteq> ''MOMENTUM_INCLUDED'' then cloned r
        else let old = detail_of r; new = slot ''confirmationDetail'' im in
          if same_text max_evidence_bytes old new then cloned r
          else andthen (assure (\<not> weaker_detail r old new) JournalMomentumEvidenceInvalid) (\<lambda>_.
            andthen (next_timestamp now r) (\<lambda>at'.
            save_and_reply w c k (set_entry ''updatedAt'' (JStr at') (set_confirmations (int_at ''numConfirmations'' new) r)) data)))
     else if ignored_evidence (text_at ''evidenceState'' r) state then cloned r
     else andthen (next_timestamp now r) (\<lambda>at'. save_and_reply w c k (set_evidence state im at' r) data))"
    unfolding Let_def by (intro forward_if forward_clone_last more rise)
qed

text \<open>What \<open>still_expected\<close> gives, and that the compared record has no inclusion.\<close>

lemma expected_entry:
  assumes "still_expected k v expected data"
  obtains r where "record_at k data = Some r" "slot k (journal_records data) = r" "tombstone_at k data = None"
    "sort_keys r = sort_keys expected"
proof -
  from assms obtain r where "record_at k data = Some r" "same_text max_record_bytes r expected" "tombstone_at k data = None"
    by (auto simp: still_expected_def split: option.splits)
  then show thesis
    using that by (simp add: record_at_def slot_def same_text_sorted)
qed

lemma sorted_slot_text:
  assumes "sort_keys r = sort_keys e" "slot f e = JStr s"
  shows "slot f r = JStr s"
proof -
  have "text_entry f r = text_entry f e" by (rule sorted_same_text [OF assms(1)])
  moreover have "text_entry f e = Some s"
    using assms(2) by (auto simp: slot_def text_entry_Some split: option.splits)
  ultimately show ?thesis by (simp add: text_entry_Some slot_def)
qed

lemma compared_not_included:
  assumes "cas_evidence_ok w v" "sort_keys r = sort_keys (slot ''expectedRecord'' v)"
  shows "evidence_of r \<noteq> JStr ''MOMENTUM_INCLUDED''" "delivery_of r = JStr ''NONE''"
proof -
  obtain s where s: "slot ''evidenceState'' (slot ''expectedRecord'' v) = JStr s" "s \<in> set prior_states"
    using assms(1) by (auto simp: cas_evidence_ok_def text_slot_def split: json.splits)
  then show "evidence_of r \<noteq> JStr ''MOMENTUM_INCLUDED''"
    using sorted_slot_text [OF assms(2) s(1)] by (auto simp: evidence_of_def prior_states_def)
  have "slot ''deliveryState'' (slot ''expectedRecord'' v) = JStr ''NONE''"
    using assms(1) by (simp add: cas_evidence_ok_def delivery_of_def)
  then show "delivery_of r = JStr ''NONE''"
    using sorted_slot_text [OF assms(2)] by (simp add: delivery_of_def)
qed

lemma forward_changed [fwd]: "forward_at w n (andthen (cloned x) (\<lambda>y. yield (f y)))"
  by (intro fwd)

lemma compare_and_update_forward:
  assumes w: "reads_back w"
  shows "forward_at w n (compare_and_update w c options now)"
  unfolding compare_and_update_def
proof (intro forward_demand forward_let forward_cloned forward_with_writer forward_read [OF w] forward_assure forward_time)
  fix v state detail expected k data m t r
  assume v: "satisfying (cas_evidence_ok w) (cas_options [''expectedRevision'', ''expectedRecord'', ''evidenceState'', ''confirmationDetail''] options) = Some v"
    and e: "clone_json max_record_bytes (js_of (slot ''expectedRecord'' v)) = Inr expected"
    and m: "content w m = Some data" and r': "r = slot k (journal_records data)"
    and x: "still_expected k v expected data"
  have ok: "cas_evidence_ok w v" using v by (auto simp: satisfying_eq_Some)
  have "expected = slot ''expectedRecord'' v" using e by (rule clone_json_js)
  then obtain r0 where "record_at k data = Some r0" "r0 = r" "sort_keys r0 = sort_keys (slot ''expectedRecord'' v)"
    using expected_entry [OF x] r' by metis
  then have r: "record_at k data = Some r" and plain: "evidence_of r \<noteq> JStr ''MOMENTUM_INCLUDED''" "delivery_of r = JStr ''NONE''"
    using compared_not_included [OF ok] by blast+
  show "forward_at w m (if evidence_of r = state then
       (if state \<noteq> JStr ''MOMENTUM_INCLUDED'' then andthen (cloned r) (\<lambda>x. yield (changed_reply False ''record'' x))
        else andthen (demand (confirmation_advance (detail_of r) detail) JournalCompareAndReplaceFailed) (\<lambda>(changed, n).
          if \<not> changed then andthen (cloned r) (\<lambda>x. yield (changed_reply False ''record'' x))
          else store_and_verify w c k (set_entry ''updatedAt'' (JStr (later_text t (text_at ''updatedAt'' r))) (set_confirmations n r)) data))
     else if evidence_rank state \<le> evidence_rank (evidence_of r) then raise JournalCompareAndReplaceFailed
     else let at' = later_text t (text_at ''updatedAt'' r) in
       store_and_verify w c k (set_evidence (to_text state)
         (if detail = JNull then JNull else JObj [(''observedAt'', JStr at'), (''confirmationDetail'', detail)]) at' r) data)"
    if "state = slot ''evidenceState'' v" "detail = slot ''confirmationDetail'' v"
  proof (intro fwd)
    fix at'
    assume "\<not> evidence_rank state \<le> evidence_rank (evidence_of r)" and at': "at' = later_text t (text_at ''updatedAt'' r)"
    moreover have "state = JStr (to_text state)" using ok that(1) by (auto simp: cas_evidence_ok_def)
    ultimately have "evidence_rank (evidence_of r) \<le> evidence_rank (JStr (to_text state))" by simp
    then show "advances data (bump_revision (put_record k (set_evidence (to_text state)
         (if detail = JNull then JNull else JObj [(''observedAt'', JStr at'), (''confirmationDetail'', detail)]) at' r) data))"
      using plain by (intro advances_put [OF r] advances_evidence) (simp_all add: at' later_text_ge)
  qed (use w m plain in auto)
qed

section \<open>Tombstones and delivery\<close>

lemma replace_with_tombstone_forward:
  assumes w: "reads_back w"
  shows "forward_at w n (replace_with_tombstone w c options now)"
  unfolding replace_with_tombstone_def
proof (intro forward_demand forward_let forward_cloned forward_with_writer forward_read [OF w] forward_assure forward_time
    forward_lift forward_write [OF w] forward_clone_last)
  fix v expected k data m t r x
  assume s: "still_expected k v expected data
       \<and> text_slot (\<lambda>s. s \<in> set prior_states) ''evidenceState'' (slot k (journal_records data))"
    and m: "content w m = Some data" and j: "valid_journal (w_sha w) (w_url w) (cf_maxRecords c) (cf_maxBytes c) data"
    and r': "r = slot k (journal_records data)" and x: "tombstone_from (w_sha w) r t = Inr x"
    and el: "retention_eligible r t (int_at ''retentionMs'' v)"
  show "content w m = Some data" by fact
  from s obtain r0 where "record_at k data = Some r0" "r0 = r" "tombstone_at k data = None"
    using expected_entry r' by metis
  then show "advances data (bump_revision (bury k x data))"
    using advances_bury [OF valid_journal_facts(1) [OF j]] buried_from [OF x el] by blast
qed

lemma record_late_forward:
  assumes w: "reads_back w"
  shows "forward_at w n (record_late w c options now)"
  unfolding record_late_def
proof (intro forward_demand forward_let forward_cloned forward_with_writer forward_read [OF w] forward_assure forward_time
    forward_write [OF w] forward_if forward_changed forward_plain)
  fix v k data m x t y
  assume x: "tombstone_at k data = Some x" "\<not> slot ''lateMomentumEvidence'' x \<noteq> JNull"
    and y: "y = set_entry ''lateMomentumEvidence'' (JObj [(''observedAt'', JStr (later_text t (text_at ''terminalizedAt'' x))),
       (''confirmationDetail'', slot ''confirmationDetail'' v)]) x"
  have "tombstone_advances x y" using x(2) by (simp add: y tombstone_advances_def)
  with x(1) show "advances data (bump_revision (put_tombstone k y data))" by (rule advances_late)
qed

lemma mark_delivered_forward:
  assumes w: "reads_back w"
  shows "forward_at w n (mark_delivered w c a t response now)"
  unfolding mark_delivered_def
proof (intro forward_lift forward_with_writer forward_read [OF w] forward_demand forward_if forward_assure
    forward_next_time forward_save [OF w] forward_clone_last)
  fix cached data m k r at'
  assume "content w m = Some data" "record_at k data = Some r" "text_at ''updatedAt'' r \<le> at'"
    "delivery_of r = JStr ''DELIVERY_PENDING'' \<and> evidence_of r = JStr ''MOMENTUM_INCLUDED''"
  then have "record_at k data = Some r" "record_advances r (set_entry ''updatedAt'' (JStr at') (set_entry ''cachedResponse'' cached
         (set_entry ''deliveryState'' (JStr ''DELIVERED'') r)))"
    by (auto intro!: advances_delivery(1) simp: delivery_rank_def)
  then show "advances data (bump_revision (put_record k (set_entry ''updatedAt'' (JStr at') (set_entry ''cachedResponse'' cached
         (set_entry ''deliveryState'' (JStr ''DELIVERED'') r))) data))"
    by (rule advances_put)
qed

lemma mark_delivery_pending_forward:
  assumes w: "reads_back w"
  shows "forward_at w n (mark_delivery_pending w c a t accepted now)"
proof -
  have save: "forward_at w m (andthen (next_timestamp now r) (\<lambda>at'.
       andthen (save_and_reply w c k (set_entry ''updatedAt'' (JStr at') (set_entry ''deliveryState'' (JStr ''DELIVERY_PENDING'') r)) data)
         (\<lambda>x. yield (set_entry ''deliveryClaimed'' (JBool True) x))))"
    if "content w m = Some data" "record_at k data = Some r"
      "\<not> (delivery_of r = JStr ''DELIVERED'' \<or> delivery_of r = JStr ''DELIVERY_PENDING'')" for m data k r
  proof (rule forward_next_time, rule forward_andthen)
    fix at' assume t: "text_at ''updatedAt'' r \<le> at'"
    have "record_advances r (set_entry ''updatedAt'' (JStr at') (set_entry ''deliveryState'' (JStr ''DELIVERY_PENDING'') r))"
      using that(3) t by (intro advances_delivery(2)) (auto simp: delivery_rank_def)
    then show "forward_at w m (save_and_reply w c k (set_entry ''updatedAt'' (JStr at') (set_entry ''deliveryState'' (JStr ''DELIVERY_PENDING'') r)) data)"
      using that w by (intro forward_save advances_put)
  qed (rule fwd)
  show ?thesis
    unfolding mark_delivery_pending_def
    by (intro forward_demand forward_with_writer forward_read [OF w] forward_lift forward_assure forward_if save forward_changed)
qed

section \<open>All calls\<close>

lemma perform_forward: "reads_back w \<Longrightarrow> forward_at w n (perform w c call)"
  by (cases call) (simp_all add: reading_methods list_candidates_forward put_validated_forward update_evidence_forward
      compare_and_update_forward replace_with_tombstone_forward record_late_forward mark_delivered_forward mark_delivery_pending_forward)

end
