(* ===== verification/Journal_Reader.thy ===== *)
theory Journal_Reader
  imports Journal_Contents
begin

text \<open>
  A reader of JSON text for the values that the journal writes: integers, strings of code units
  below 256 and no fractions or exponents. It stands where \<open>JSON.parse\<close> is a parameter and shows that
  what is assumed of it, \<^const>\<open>reads_back\<close>, can hold: the reader gives back every value that
  \<^const>\<open>layout\<close> writes, whatever the indentation. A repeated key keeps its first place and takes the last
  value, as in \<open>JSON.parse\<close>.
\<close>

section \<open>The reader\<close>

definition blank :: "char \<Rightarrow> bool" where
  "blank c \<longleftrightarrow> c = CHR '' '' \<or> c = CHR 0x0A \<or> c = CHR 0x0D \<or> c = CHR 0x09"

definition skip :: "string \<Rightarrow> string" where
  "skip s = dropWhile blank s"

definition plain_escape :: "char \<Rightarrow> char" where
  "plain_escape d = (if d = CHR ''b'' then char_of (8::nat) else if d = CHR ''t'' then char_of (9::nat)
     else if d = CHR ''n'' then char_of (10::nat) else if d = CHR ''f'' then char_of (12::nat)
     else if d = CHR ''r'' then char_of (13::nat) else d)"

fun read_chars :: "string \<Rightarrow> (string \<times> string) option" where
  "read_chars [] = None"
| "read_chars (c # s) = (if c = dq then Some ([], s)
     else if c \<noteq> bs then map_option (apfst (Cons c)) (read_chars s)
     else (case s of
         [] \<Rightarrow> None
       | d # t \<Rightarrow> if d \<noteq> CHR ''u'' then map_option (apfst (Cons (plain_escape d))) (read_chars t)
         else (case t of
             x # y # h # l # u \<Rightarrow> if x = CHR ''0'' \<and> y = CHR ''0'' \<and> is_hex h \<and> is_hex l
               then map_option (apfst (Cons (char_of (16 * hex_value h + hex_value l)))) (read_chars u) else None
           | _ \<Rightarrow> None)))"

definition read_nat :: "string \<Rightarrow> (nat \<times> string) option" where
  "read_nat s = (if takeWhile is_digit s = [] then None
     else Some (decimal_value (takeWhile is_digit s), dropWhile is_digit s))"

definition read_word :: "string \<Rightarrow> json \<Rightarrow> string \<Rightarrow> (json \<times> string) option" where
  "read_word word v s = (if take (length word) s = word then Some (v, drop (length word) s) else None)"

definition gather :: "(string \<times> json) list \<Rightarrow> json" where
  "gather kvs = JObj (fold (\<lambda>(k, v). AList.update k v) kvs [])"

fun read_value :: "nat \<Rightarrow> string \<Rightarrow> (json \<times> string) option"
  and read_items :: "nat \<Rightarrow> string \<Rightarrow> (json list \<times> string) option"
  and read_members :: "nat \<Rightarrow> string \<Rightarrow> ((string \<times> json) list \<times> string) option"
where
  "read_value 0 s = None"
| "read_value (Suc n) s = (case skip s of
       [] \<Rightarrow> None
     | c # t \<Rightarrow>
         if c = dq then map_option (apfst JStr) (read_chars t)
         else if c = CHR ''['' then (case skip t of
             [] \<Rightarrow> None
           | d # u \<Rightarrow> if d = CHR '']'' then Some (JArr [], u) else map_option (apfst JArr) (read_items n t))
         else if c = CHR ''{'' then (case skip t of
             [] \<Rightarrow> None
           | d # u \<Rightarrow> if d = CHR ''}'' then Some (JObj [], u) else map_option (apfst gather) (read_members n t))
         else if c = CHR ''n'' then read_word ''null'' JNull (c # t)
         else if c = CHR ''t'' then read_word ''true'' (JBool True) (c # t)
         else if c = CHR ''f'' then read_word ''false'' (JBool False) (c # t)
         else if c = CHR ''-'' then map_option (apfst (\<lambda>n. JNum (- int n))) (read_nat t)
         else map_option (apfst (\<lambda>n. JNum (int n))) (read_nat (c # t)))"
| "read_items 0 s = None"
| "read_items (Suc n) s = Option.bind (read_value n s) (\<lambda>(v, t). case skip t of
       [] \<Rightarrow> None
     | c # u \<Rightarrow> if c = CHR '','' then map_option (apfst (Cons v)) (read_items n u)
         else if c = CHR '']'' then Some ([v], u) else None)"
| "read_members 0 s = None"
| "read_members (Suc n) s = (case skip s of
       [] \<Rightarrow> None
     | q # s' \<Rightarrow> if q \<noteq> dq then None else Option.bind (read_chars s') (\<lambda>(k, x). case skip x of
         [] \<Rightarrow> None
       | colon # y \<Rightarrow> if colon \<noteq> CHR '':'' then None else Option.bind (read_value n y) (\<lambda>(v, t). case skip t of
           [] \<Rightarrow> None
         | c # u \<Rightarrow> if c = CHR '','' then map_option (apfst (Cons (k, v))) (read_members n u)
             else if c = CHR ''}'' then Some ([(k, v)], u) else None)))"

definition read_json :: "string \<Rightarrow> json option" where
  "read_json s = (case read_value (length s) s of
     None \<Rightarrow> None
   | Some (v, t) \<Rightarrow> if skip t = [] then Some v else None)"

section \<open>It reads what is written\<close>

lemma skip_blank [simp]: "list_all blank b \<Longrightarrow> skip (b @ s) = skip s"
  by (induction b) (simp_all add: skip_def)

lemma skip_Cons: "skip (c # s) = (if blank c then skip s else c # s)"
  by (simp add: skip_def)

lemma not_blank [simp]: "\<not> blank dq" "\<not> blank (CHR ''['')" "\<not> blank (CHR ''{'')" "\<not> blank (CHR '']'')" "\<not> blank (CHR ''}'')"
  "\<not> blank (CHR '','')" "\<not> blank (CHR '':'')" "\<not> blank (CHR ''n'')" "\<not> blank (CHR ''t'')" "\<not> blank (CHR ''f'')" "\<not> blank (CHR ''-'')"
  by (simp_all add: blank_def dq_def)

lemma digit_not_blank: "is_digit c \<Longrightarrow> \<not> blank c"
  by (auto simp: blank_def is_digit_def code_def)

lemma line_break_blank: "list_all blank (line_break d w)"
  by (simp add: line_break_def json_indent_def blank_def list_all_iff)

lemma hex_digit_is_hex: "n < 16 \<Longrightarrow> is_hex (hex_digit n)"
  by (auto simp: hex_digit_def is_hex_def is_digit_def)

lemma code_cases: "code c = n \<Longrightarrow> c = char_of n"
  by (metis char_of_code)

lemma read_escape: "read_chars (escape_char c @ t) = map_option (apfst (Cons c)) (read_chars t)"
proof -
  have u: "char_of (16 * (code c div 16) + code c mod 16) = c"
    by (simp only: mult_div_mod_eq char_of_code)
  have lits: "bs \<noteq> CHR ''u''" "dq \<noteq> CHR ''u''" "bs \<noteq> dq" "plain_escape bs = bs" "plain_escape dq = dq"
    by (simp_all add: bs_def dq_def plain_escape_def)
  consider "code c = 34" | "code c = 92" | "code c \<in> {8, 9, 10, 12, 13}"
    | "code c < 32" "code c \<notin> {8, 9, 10, 12, 13}" | "32 \<le> code c" "code c \<noteq> 34" "code c \<noteq> 92" by force
  then show ?thesis
  proof cases
    case 1
    then have "c = dq" by (simp add: code_quote_iff)
    then show ?thesis using lits by (simp add: escape_char_def)
  next
    case 2
    then have "c = bs" by (simp add: code_quote_iff)
    then show ?thesis using lits by (simp add: escape_char_def)
  next
    case 3
    then show ?thesis
      by (auto simp: escape_char_def plain_escape_def bs_def dq_def dest!: code_cases)
  next
    case 4
    then have e: "escape_char c = bs # ''u00'' @ [hex_digit (code c div 16), hex_digit (code c mod 16)]"
      by (simp add: escape_char_def Let_def)
    have "code c div 16 < 16" using 4(1) by linarith
    then have "is_hex (hex_digit (code c div 16))" "is_hex (hex_digit (code c mod 16))"
      by (intro hex_digit_is_hex; simp)+
    moreover have "hex_value (hex_digit (code c div 16)) = code c div 16" "hex_value (hex_digit (code c mod 16)) = code c mod 16"
      using \<open>code c div 16 < 16\<close> by (intro hex_value_digit; simp)+
    ultimately show ?thesis unfolding e by (simp add: u)
  next
    case 5
    then have "c \<noteq> dq" "c \<noteq> bs" "escape_char c = [c]" by (auto simp: escape_char_def)
    then show ?thesis by simp
  qed
qed

lemma read_chars_text [simp]: "read_chars (concat (map escape_char s) @ dq # r) = Some (s, r)"
  by (induction s) (simp_all add: read_escape del: read_chars.simps(2), simp)

lemma read_nat_text [simp]: "delimited r \<Longrightarrow> read_nat (nat_text n @ r) = Some (n, r)"
proof -
  assume r: "delimited r"
  have d: "takeWhile is_digit (nat_text n) = nat_text n" "dropWhile is_digit (nat_text n) = []"
    using nat_text_digits [of n] by (simp_all add: list_all_iff)
  have "takeWhile is_digit r = []" "dropWhile is_digit r = r"
    using r by (cases r; auto simp: delimited_def)+
  then have "takeWhile is_digit (nat_text n @ r) = nat_text n" "dropWhile is_digit (nat_text n @ r) = r"
    using nat_text_digits [of n] by (simp_all add: list_all_iff takeWhile_append dropWhile_append)
  then show ?thesis by (simp add: read_nat_def)
qed

lemma gather_distinct: "distinct (map fst kvs) \<Longrightarrow> gather kvs = JObj kvs"
proof -
  have "fold (\<lambda>(k, v). AList.update k v) kvs acc = acc @ kvs" if "distinct (map fst (acc @ kvs))" for acc
    using that
  proof (induction kvs arbitrary: acc)
    case (Cons kv kvs)
    obtain k v where kv: "kv = (k, v)" by (cases kv)
    have "AList.update k v acc = acc @ [(k, v)]"
      using Cons.prems kv by (induction acc) auto
    then show ?case using Cons.IH [of "acc @ [(k, v)]"] Cons.prems by (simp add: kv)
  qed simp
  from this [of "[]"] show "distinct (map fst kvs) \<Longrightarrow> gather kvs = JObj kvs" by (simp add: gather_def)
qed

definition reads :: "(nat \<Rightarrow> string \<Rightarrow> ('a \<times> string) option) \<Rightarrow> string \<Rightarrow> 'a \<Rightarrow> bool" where
  "reads f t x \<longleftrightarrow> (\<forall>n b r. length t \<le> n \<longrightarrow> list_all blank b \<longrightarrow> delimited r \<longrightarrow> f n (b @ t @ r) = Some (x, r))"

lemma delimited_blank: "list_all blank e \<Longrightarrow> \<not> is_digit c \<Longrightarrow> delimited (e @ c # r)"
  using digit_not_blank by (cases e) (auto simp: delimited_def)

lemma read_items_text:
  assumes "vs \<noteq> []" "\<And>v. v \<in> set vs \<Longrightarrow> reads read_value (f v) v" "\<And>v. v \<in> set vs \<Longrightarrow> f v \<noteq> []"
    and "list_all blank b" "list_all blank b'" "list_all blank e"
    and "length (items_text b (CHR '','' # b') (map f vs)) < n"
  shows "read_items n (items_text b (CHR '','' # b') (map f vs) @ e @ CHR '']'' # r) = Some (vs, r)"
  using assms
proof (induction vs arbitrary: n b)
  case (Cons v vs)
  obtain n' where n: "n = Suc n'" using Cons.prems(7) by (cases n) auto
  have delims: "\<not> is_digit (CHR '','')" "\<not> is_digit (CHR '']'')" by (simp_all add: is_digit_def code_def)
  show ?case
  proof (cases vs)
    case Nil
    have "read_value n' (b @ f v @ e @ CHR '']'' # r) = Some (v, e @ CHR '']'' # r)"
      using Cons.prems n Nil delimited_blank [OF Cons.prems(6) delims(2)]
      unfolding reads_def by (auto simp: less_Suc_eq_le)
    then show ?thesis using Cons.prems(6) by (simp add: n Nil skip_Cons)
  next
    case (Cons u us)
    let ?rest = "items_text b' (CHR '','' # b') (map f vs) @ e @ CHR '']'' # r"
    have items: "items_text b (CHR '','' # b') (map f (v # vs)) @ e @ CHR '']'' # r = b @ f v @ CHR '','' # ?rest"
      by (simp add: Cons)
    have len: "length b + length (f v) + Suc (length (items_text b' (CHR '','' # b') (map f vs))) \<le> n'"
      using Cons.prems(7) by (simp add: n Cons)
    then have "read_value n' (b @ f v @ CHR '','' # ?rest) = Some (v, CHR '','' # ?rest)"
      using Cons.prems(2) [of v] Cons.prems(4) delims(1)
      unfolding reads_def by simp
    moreover have "read_items n' ?rest = Some (vs, r)"
      using Cons.prems len Cons by (intro Cons.IH) auto
    ultimately show ?thesis unfolding items by (simp add: n skip_Cons)
  qed
qed simp

lemma read_members_text:
  assumes "kvs \<noteq> []" "\<And>k v. (k, v) \<in> set kvs \<Longrightarrow> reads read_value (f v) v" "\<And>k v. (k, v) \<in> set kvs \<Longrightarrow> f v \<noteq> []"
    and "list_all blank b" "list_all blank b'" "list_all blank e" "list_all blank gap"
    and "length (items_text b (CHR '','' # b') (map (\<lambda>(k, v). string_text k @ (CHR '':'' # gap) @ f v) kvs)) < n"
  shows "read_members n (items_text b (CHR '','' # b') (map (\<lambda>(k, v). string_text k @ (CHR '':'' # gap) @ f v) kvs)
      @ e @ CHR ''}'' # r) = Some (kvs, r)"
  using assms
proof (induction kvs arbitrary: n b)
  case (Cons kv kvs)
  obtain k v where kv: "kv = (k, v)" by (cases kv)
  obtain n' where n: "n = Suc n'" using Cons.prems(8) by (cases n) auto
  let ?g = "\<lambda>(k, v). string_text k @ (CHR '':'' # gap) @ f v"
  have delims: "\<not> is_digit (CHR '','')" "\<not> is_digit (CHR ''}'')" by (simp_all add: is_digit_def code_def)
  show ?case
  proof (cases kvs)
    case Nil
    have "read_value n' (gap @ f v @ e @ CHR ''}'' # r) = Some (v, e @ CHR ''}'' # r)"
      using Cons.prems n Nil kv delimited_blank [OF Cons.prems(6) delims(2)]
      unfolding reads_def by (auto simp: less_Suc_eq_le string_text_def)
    then show ?thesis using Cons.prems(4,6) by (simp add: n Nil kv skip_Cons string_text_def)
  next
    case (Cons u us)
    let ?rest = "items_text b' (CHR '','' # b') (map ?g kvs) @ e @ CHR ''}'' # r"
    have items: "items_text b (CHR '','' # b') (map ?g (kv # kvs)) @ e @ CHR ''}'' # r
        = b @ string_text k @ CHR '':'' # gap @ f v @ CHR '','' # ?rest"
      by (simp add: Cons kv)
    have len: "length b + length gap + length (f v) + Suc (length (items_text b' (CHR '','' # b') (map ?g kvs))) \<le> n'"
      using Cons.prems(8) by (simp add: n Cons kv string_text_def)
    then have "read_value n' (gap @ f v @ CHR '','' # ?rest) = Some (v, CHR '','' # ?rest)"
      using Cons.prems(2) [of k v] Cons.prems(7) delims(1) kv
      unfolding reads_def by simp
    moreover have "read_members n' ?rest = Some (kvs, r)"
      using Cons.prems len Cons by (intro Cons.IH) auto
    ultimately show ?thesis using Cons.prems(4) unfolding items by (simp add: n kv skip_Cons string_text_def)
  qed
qed simp

lemma layout_nonempty: "layout w d v \<noteq> []"
  by (cases v) (simp_all add: int_text_def string_text_def)

lemma layout_head: "hd (layout w d v) \<noteq> CHR '']''"
proof -
  have "\<not> is_digit (CHR '']'')" by (simp add: is_digit_def code_def)
  then have "hd (nat_text n) \<noteq> CHR '']''" for n
    using nat_text_digits [of n] by (cases "nat_text n") auto
  then show ?thesis by (cases v) (simp_all add: int_text_def string_text_def dq_def)
qed

lemma skip_layout: "list_all blank b \<Longrightarrow> skip (b @ layout w d v @ r) = layout w d v @ r"
proof -
  assume b: "list_all blank b"
  have digits: "\<exists>c t. nat_text k = c # t \<and> \<not> blank c" for k
    using nat_text_digits [of k] digit_not_blank by (cases "nat_text k") auto
  have "\<exists>c t. layout w d v = c # t \<and> \<not> blank c"
    using digits by (cases v) (auto simp: int_text_def string_text_def)
  then show ?thesis using b by (auto simp: skip_Cons)
qed

lemma items_text_blank: "list_all blank b \<Longrightarrow> xs \<noteq> [] \<Longrightarrow> skip (items_text b sep xs @ r) = skip (hd xs @ items_text sep sep (tl xs) @ r)"
  by (cases xs) simp_all

lemma read_number: "delimited r \<Longrightarrow> reads read_value (int_text n) (JNum n)"
proof -
  have "read_value m (b @ int_text n @ r) = Some (JNum n, r)"
    if m: "length (int_text n) \<le> m" and b: "list_all blank b" and r: "delimited r" for m b r
  proof (cases m)
    case 0
    then show ?thesis using m by (auto simp: int_text_def split: if_splits)
  next
    case (Suc m')
    show ?thesis
    proof (cases "n < 0")
      case True
      then show ?thesis using b r by (simp add: Suc int_text_def skip_Cons dq_def)
    next
      case False
      obtain c t where c: "nat_text (nat n) = c # t" "is_digit c"
        using nat_text_digits [of "nat n"] by (cases "nat_text (nat n)") auto
      have "read_nat (c # t @ r) = Some (nat n, r)"
        using read_nat_text [OF r, of "nat n"] by (simp add: c(1))
      moreover have "c \<noteq> dq" "c \<noteq> CHR ''[''" "c \<noteq> CHR ''{''" "c \<noteq> CHR ''n''" "c \<noteq> CHR ''t''" "c \<noteq> CHR ''f''" "c \<noteq> CHR ''-''"
        using c(2) by (auto simp: is_digit_def code_def dq_def)
      ultimately show ?thesis
        using False b c digit_not_blank [OF c(2)] by (simp add: Suc int_text_def skip_Cons)
    qed
  qed
  then show ?thesis unfolding reads_def by blast
qed

lemma member_colon_gap: "\<exists>gap. member_colon w = CHR '':'' # gap \<and> list_all blank gap"
  by (cases "w = 0") (simp_all add: member_colon_def blank_def)

lemma read_layout: "distinct_keys v \<Longrightarrow> reads read_value (layout w d v) v"
proof (induction v arbitrary: d)
  case JNull
  show ?case unfolding reads_def
    by (intro allI impI, rename_tac n b r, case_tac n) (simp_all add: skip_Cons read_word_def dq_def)
next
  case (JBool x)
  show ?case unfolding reads_def
    by (intro allI impI, rename_tac n b r, case_tac n; cases x) (simp_all add: skip_Cons read_word_def dq_def)
next
  case (JNum n)
  show ?case using read_number [of "[]" n] by (simp add: delimited_def)
next
  case (JStr s)
  show ?case unfolding reads_def
    by (intro allI impI, rename_tac n b r, case_tac n) (simp_all add: skip_Cons string_text_def)
next
  case (JArr vs)
  let ?e = "line_break d w" and ?b = "line_break (Suc d) w"
  let ?items = "items_text ?b (CHR '','' # ?b) (map (layout w (Suc d)) vs)"
  have "read_value n (b @ layout w d (JArr vs) @ r) = Some (JArr vs, r)"
    if n: "length (layout w d (JArr vs)) \<le> n" and b: "list_all blank b" for n b r
  proof (cases "vs = []")
    case True
    then show ?thesis using n b by (cases n) (simp_all add: enclosed_def skip_Cons dq_def)
  next
    case False
    obtain n' where n': "n = Suc n'" using n by (cases n) auto
    have shape: "layout w d (JArr vs) @ r = CHR ''['' # ?items @ ?e @ CHR '']'' # r"
      using False by (simp add: enclosed_def)
    have "read_items n' (?items @ ?e @ CHR '']'' # r) = Some (vs, r)"
      using False n JArr layout_nonempty
      by (intro read_items_text) (auto simp: n' enclosed_def line_break_blank)
    moreover have "skip (?items @ ?e @ CHR '']'' # r) \<noteq> [] \<and> hd (skip (?items @ ?e @ CHR '']'' # r)) \<noteq> CHR '']''"
    proof -
      obtain u us where vs: "vs = u # us" using False by (cases vs) auto
      have "skip (?items @ ?e @ CHR '']'' # r) = layout w (Suc d) u @ items_text (CHR '','' # ?b) (CHR '','' # ?b) (map (layout w (Suc d)) us) @ ?e @ CHR '']'' # r"
        using skip_layout [of "[]"] by (simp add: vs line_break_blank)
      moreover have "hd (layout w (Suc d) u) \<noteq> CHR '']''" by (rule layout_head)
      ultimately show ?thesis using layout_nonempty by simp
    qed
    ultimately show ?thesis
      unfolding shape n' using b by (cases "skip (?items @ ?e @ CHR '']'' # r)") (simp_all add: skip_Cons dq_def)
  qed
  then show ?case unfolding reads_def by blast
next
  case (JObj kvs)
  let ?e = "line_break d w" and ?b = "line_break (Suc d) w"
  obtain gap where gap: "member_colon w = CHR '':'' # gap" "list_all blank gap" using member_colon_gap by blast
  let ?g = "\<lambda>(k, v). string_text k @ (CHR '':'' # gap) @ layout w (Suc d) v"
  let ?items = "items_text ?b (CHR '','' # ?b) (map ?g kvs)"
  have "read_value n (b @ layout w d (JObj kvs) @ r) = Some (JObj kvs, r)"
    if n: "length (layout w d (JObj kvs)) \<le> n" and b: "list_all blank b" for n b r
  proof (cases "kvs = []")
    case True
    then show ?thesis using n b by (cases n) (simp_all add: enclosed_def skip_Cons dq_def)
  next
    case False
    obtain n' where n': "n = Suc n'" using n by (cases n) auto
    have shape: "layout w d (JObj kvs) @ r = CHR ''{'' # ?items @ ?e @ CHR ''}'' # r"
      using False by (simp add: enclosed_def gap(1))
    have len: "length ?items < n'" using False n by (simp add: n' enclosed_def gap(1))
    have "read_members n' (?items @ ?e @ CHR ''}'' # r) = Some (kvs, r)"
      using False JObj layout_nonempty len gap(2)
      by (intro read_members_text) (auto simp: line_break_blank snds.simps)
    moreover have "skip (?items @ ?e @ CHR ''}'' # r) = dq # tl (skip (?items @ ?e @ CHR ''}'' # r))"
      using False by (cases kvs) (auto simp: line_break_blank skip_Cons string_text_def)
    moreover have "gather kvs = JObj kvs" using JObj.prems by (intro gather_distinct) simp
    ultimately show ?thesis
      unfolding shape n' using b by (cases "skip (?items @ ?e @ CHR ''}'' # r)") (auto simp: skip_Cons dq_def)
  qed
  then show ?case unfolding reads_def by blast
qed

text \<open>So a world with this reader is one in which journals read back.\<close>

lemma read_json_layout: "distinct_keys v \<Longrightarrow> read_json (layout w 0 v @ [CHR 0x0A]) = Some v"
proof -
  assume "distinct_keys v"
  then have "reads read_value (layout w 0 v) v" by (rule read_layout)
  moreover have "delimited [CHR 0x0A]" by (simp add: is_digit_def code_def)
  ultimately have "read_value n ([] @ layout w 0 v @ [CHR 0x0A]) = Some (v, [CHR 0x0A])" if "length (layout w 0 v) \<le> n" for n
    using that unfolding reads_def by (metis list.pred_inject(1))
  from this [of "length (layout w 0 v @ [CHR 0x0A])"] show ?thesis
    by (simp add: read_json_def skip_def blank_def del: read_value.simps)
qed

definition reader_world :: "(string \<Rightarrow> string) \<Rightarrow> url_parser \<Rightarrow> world" where
  "reader_world sha url = \<lparr>w_sha = sha, w_parse = (\<lambda>t. map_option js_of (read_json t)), w_url = url\<rparr>"

lemma reader_world_reads_back: "reads_back (reader_world sha url)"
  by (auto simp: reads_back_def reader_world_def stringify_json_Inr read_json_layout)

end
