(* ===== verification/Journal_Machine.thy ===== *)
theory Journal_Machine
  imports Journal_Methods Journal_Reader
begin

text \<open>
  The journal as a machine: a step is one call with its limits and its script, the directory is the
  state that survives. The machine is an \<open>ordered_machine\<close>, so what a call stored is still there, or
  has moved forward, after any further calls. The second part says what the calls that store
  something have stored when they return.
\<close>

section \<open>The machine\<close>

type_synonym journal_input = "config \<times> journal_call \<times> io_outcome list"

definition perform_on :: "world \<Rightarrow> journal_input \<Rightarrow> disk \<Rightarrow> site \<times> (journal_error + json)" where
  "perform_on w x d = (case x of (c, call, script) \<Rightarrow> perform w c call \<lparr>st_disk = d, st_script = script\<rparr>)"

definition journal_step :: "world \<Rightarrow> journal_input \<Rightarrow> disk \<Rightarrow> disk" where
  "journal_step w x d = st_disk (fst (perform_on w x d))"

definition journal_reply :: "world \<Rightarrow> journal_input \<Rightarrow> disk \<Rightarrow> journal_error + json" where
  "journal_reply w x d = snd (perform_on w x d)"

text \<open>What is in the file.\<close>

definition stored_journal :: "world \<Rightarrow> disk \<Rightarrow> json option" where
  "stored_journal w d = content w (dk_journal d)"

definition disk_moved :: "world \<Rightarrow> disk \<Rightarrow> disk \<Rightarrow> bool" where
  "disk_moved w d d' \<longleftrightarrow> moved w (dk_journal d) (dk_journal d')"

lemma step_moves: "reads_back w \<Longrightarrow> disk_moved w d (journal_step w x d)"
proof -
  assume w: "reads_back w"
  obtain c call script where x: "x = (c, call, script)" by (cases x)
  let ?s = "\<lparr>st_disk = d, st_script = script\<rparr>"
  have "wpre (perform w c call) (\<lambda>_ u. moved w (dk_journal d) (file_of u)) (\<lambda>_ u. moved w (dk_journal d) (file_of u)) ?s"
    using perform_forward [OF w, of "dk_journal d" c call] by (simp add: forward_at_def)
  from wpre_state [OF this] show ?thesis
    by (simp add: disk_moved_def journal_step_def perform_on_def x)
qed

interpretation journals: ordered_machine "journal_step w" "\<lambda>_. reads_back w" "disk_moved w" for w
  by unfold_locales (auto simp: disk_moved_def step_moves [unfolded disk_moved_def] intro: moved_trans)

lemma run_advances:
  assumes "reads_back w" "stored_journal w d = Some a"
  shows "\<exists>b. stored_journal w (run (journal_step w) xs d) = Some b \<and> advances a b"
proof -
  have "disk_moved w d (run (journal_step w) xs d)" using assms(1) by (rule journals.run_leq)
  then show ?thesis
    using assms(2) by (auto simp: disk_moved_def moved_def stored_journal_def advances_refl)
qed

section \<open>What was stored\<close>

text \<open>
  What holds if a program returns; rules that follow its structure.
\<close>

definition returns :: "'a journal_prog \<Rightarrow> ('a \<Rightarrow> site \<Rightarrow> bool) \<Rightarrow> site \<Rightarrow> bool" where
  "returns p Q s \<longleftrightarrow> wpre p Q (\<lambda>_ _. True) s"

named_theorems ret "what holds if a program returns"

lemma returns_result: "returns p Q s \<Longrightarrow> p s = (u, Inr v) \<Longrightarrow> Q v u"
  by (simp add: returns_def wpre_def)

lemma returns_yield [ret]: "Q v s \<Longrightarrow> returns (yield v) Q s"
  by (simp add: returns_def wp)

lemma returns_lift [ret]: "(\<And>v. r = Inr v \<Longrightarrow> returns (f v) Q s) \<Longrightarrow> returns (andthen (lift_sum r) f) Q s"
  by (simp add: returns_def wp split: sum.splits)

lemma returns_demand [ret]: "(\<And>v. x = Some v \<Longrightarrow> returns (f v) Q s) \<Longrightarrow> returns (andthen (demand x e) f) Q s"
  by (simp add: returns_def wp split: option.splits)

lemma returns_assure [ret]: "(b \<Longrightarrow> returns (f ()) Q s) \<Longrightarrow> returns (andthen (assure b e) f) Q s"
  by (simp add: returns_def wp)

lemma returns_time [ret]: "(\<And>t. returns (f t) Q s) \<Longrightarrow> returns (andthen (current_time now) f) Q s"
  unfolding current_time_def by (rule returns_demand)

lemma returns_next_time [ret]: "(\<And>t. returns (f t) Q s) \<Longrightarrow> returns (andthen (next_timestamp now r) f) Q s"
  by (simp add: returns_def next_timestamp_def current_time_def wp split: option.splits)

lemma returns_cloned [ret]: "Q v s \<Longrightarrow> returns (cloned v) Q s"
  by (auto simp: returns_def cloned_def wp split: sum.splits dest: clone_json_js)

lemma returns_cloned_then [ret]: "returns (f v) Q s \<Longrightarrow> returns (andthen (cloned v) f) Q s"
  by (auto simp: returns_def cloned_def wp split: sum.splits dest: clone_json_js)

lemma returns_let [ret]: "(\<And>y. y = x \<Longrightarrow> returns (p y) Q s) \<Longrightarrow> returns (let y = x in p y) Q s"
  by simp

lemma returns_if [ret]: "(b \<Longrightarrow> returns p Q s) \<Longrightarrow> (\<not> b \<Longrightarrow> returns q Q s) \<Longrightarrow> returns (if b then p else q) Q s"
  by simp

lemma returns_option [ret]: "(x = None \<Longrightarrow> returns p Q s) \<Longrightarrow> (\<And>v. x = Some v \<Longrightarrow> returns (q v) Q s) \<Longrightarrow>
    returns (case x of None \<Rightarrow> p | Some v \<Rightarrow> q v) Q s"
  by (simp split: option.splits)

lemma returns_writer [ret]:
  assumes "\<And>u. file_of u = file_of s \<Longrightarrow> returns p Q u"
  shows "returns (with_writer p) Q s"
  unfolding with_writer_def returns_def
  by (rule wpre_weaken_keeps [OF quiet_syscall]) (use assms in \<open>auto simp: returns_def\<close>)

text \<open>After reading, the rest runs on a valid journal that is the content of the file.\<close>

lemma returns_read:
  assumes w: "reads_back w"
    and rest: "\<And>data u. content w (file_of u) = Some data
      \<Longrightarrow> valid_journal (w_sha w) (w_url w) (cf_maxRecords c) (cf_maxBytes c) data
      \<Longrightarrow> file_of u = file_of s \<or> file_of s = Missing \<Longrightarrow> returns (f data) Q u"
  shows "returns (andthen (read_journal w c) f) Q s"
  unfolding returns_def wp_andthen
  by (rule wpre_mono [OF read_journal_wp [OF w]]) (use rest in \<open>auto simp: returns_def\<close>)

lemma returns_write:
  assumes w: "reads_back w"
    and rest: "\<And>u data'. content w (file_of u) = Some data' \<Longrightarrow> record_at k data' = Some r \<Longrightarrow> returns (f ()) Q u"
  shows "returns (andthen (write_journal w c (bump_revision (put_record k r data))) f) Q s"
  unfolding returns_def wp_andthen
proof (rule wpre_mono [OF write_journal_wp])
  fix v :: unit and u :: site
  assume "written w c (bump_revision (put_record k r data)) (file_of u)"
  from written_content [OF w this] show "wpre (f v) Q (\<lambda>_ _. True) u"
    using rest by (auto simp: returns_def)
qed simp

lemma returns_save:
  assumes w: "reads_back w"
    and rest: "\<And>u data'. content w (file_of u) = Some data' \<Longrightarrow> record_at k data' = Some r \<Longrightarrow> Q r u"
  shows "returns (save_and_reply w c k r data) Q s"
  unfolding save_and_reply_def store_record_def andthen_assoc
  by (intro ret returns_write [OF w] rest)

lemma returns_save_then:
  assumes w: "reads_back w"
    and rest: "\<And>u data'. content w (file_of u) = Some data' \<Longrightarrow> record_at k data' = Some r \<Longrightarrow> returns (f r) Q u"
  shows "returns (andthen (save_and_reply w c k r data) f) Q s"
  unfolding save_and_reply_def store_record_def andthen_assoc
  by (intro ret returns_write [OF w] rest)

section \<open>What the storing calls have stored\<close>

text \<open>A new record, or the one that was there with the same identity.\<close>

lemma put_validated_stores:
  assumes w: "reads_back w"
  shows "returns (put_validated w c input now)
     (\<lambda>x u. \<exists>data. content w (file_of u) = Some data \<and> record_at (key_of x) data = Some x) s"
  unfolding put_validated_def
  by (intro ret returns_read [OF w] returns_write [OF w]) (auto dest: valid_journal_facts(2))

text \<open>What holds when a delivery is claimed: before, in the record and afterwards.\<close>

definition claim_reply :: "json \<Rightarrow> bool" where
  "claim_reply x \<longleftrightarrow> entry ''deliveryClaimed'' x = Some (JBool True)"

definition claimable :: "world \<Rightarrow> requirement \<Rightarrow> json \<Rightarrow> bool" where
  "claimable w q r \<longleftrightarrow> valid_record (w_sha w) (w_url w) r \<and> delivery_of r = JStr ''NONE''
     \<and> evidence_of r = JStr ''MOMENTUM_INCLUDED'' \<and> minimum_confirmations q \<le> int_at ''numConfirmations'' (detail_of r)
     \<and> slot ''intentDigest'' r = JStr (w_sha w (canonical_json (intent_json r q)))"

definition pending :: "string \<Rightarrow> json \<Rightarrow> json" where
  "pending now r = set_entry ''updatedAt'' (JStr now) (set_entry ''deliveryState'' (JStr ''DELIVERY_PENDING'') r)"

definition claimed_now :: "world \<Rightarrow> string \<Rightarrow> string \<Rightarrow> jsval \<Rightarrow> node \<Rightarrow> node \<Rightarrow> json \<Rightarrow> bool" where
  "claimed_now w a t accepted n n' x \<longleftrightarrow> (\<exists>k data r q at' data'.
     record_key a t = Inr k \<and> (n \<noteq> Missing \<longrightarrow> content w n = Some data) \<and> record_at k data = Some r
     \<and> snapshot_requirement True accepted = Some q \<and> claimable w q r
     \<and> content w n' = Some data' \<and> record_at k data' = Some (pending at' r)
     \<and> x = set_entry ''deliveryClaimed'' (JBool True) (pending at' r))"

lemma claim_unclaimed [simp]: "\<not> claim_reply (set_entry ''deliveryClaimed'' (JBool False) x)"
  by (simp add: claim_reply_def)

lemma intent_digest_Inr: "intent_digest w r q = Inr h \<Longrightarrow> h = w_sha w (canonical_json (intent_json r q))"
  by (auto simp: intent_digest_def digest_of_Inr split: sum.splits)

lemma undelivered:
  assumes "valid_record sha url r" "\<not> (delivery_of r = JStr ''DELIVERED'' \<or> delivery_of r = JStr ''DELIVERY_PENDING'')"
  shows "delivery_of r = JStr ''NONE''"
  using valid_record_states(2) [OF assms(1)] assms(2) by (auto simp: delivery_states_def)

lemma mark_delivery_pending_claims:
  assumes w: "reads_back w"
  shows "returns (mark_delivery_pending w c a t accepted now)
     (\<lambda>x u. claim_reply x \<longrightarrow> claimed_now w a t accepted (file_of s) (file_of u) x) s"
  unfolding mark_delivery_pending_def
proof (intro returns_demand returns_writer returns_read [OF w] returns_lift returns_assure returns_if)
  fix q0 data k r q h and u1 u2 :: site
  assume q0: "snapshot_requirement True accepted = Some q0"
    and u: "file_of u1 = file_of s" "file_of u2 = file_of u1 \<or> file_of u1 = Missing" "content w (file_of u2) = Some data"
    and k: "record_key a t = Inr k" and r: "record_at k data = Some r" and v: "valid_record (w_sha w) (w_url w) r"
    and q: "snapshot_requirement True (js_of (requirement_json q0)) = Some q"
    and h: "intent_digest w r q = Inr h" "slot ''intentDigest'' r = JStr h"
    and e: "evidence_of r = JStr ''MOMENTUM_INCLUDED'' \<and> minimum_confirmations q \<le> int_at ''numConfirmations'' (detail_of r)"
  have q': "snapshot_requirement True accepted = Some q"
    using q snapshot_read_back [of q0 True] snapshot_requirement_ok [OF q0] q0 by simp
  show "returns (andthen (cloned r) (\<lambda>x. yield (set_entry ''deliveryClaimed'' (JBool False) x)))
      (\<lambda>x u. claim_reply x \<longrightarrow> claimed_now w a t accepted (file_of s) (file_of u) x) u2"
    by (intro ret) simp
  assume d: "\<not> (delivery_of r = JStr ''DELIVERED'' \<or> delivery_of r = JStr ''DELIVERY_PENDING'')"
  have c: "claimable w q r"
    using v undelivered [OF v d] e h(2) intent_digest_Inr [OF h(1)] by (simp add: claimable_def)
  have before: "file_of s \<noteq> Missing \<longrightarrow> content w (file_of s) = Some data" using u by auto
  have "claimed_now w a t accepted (file_of s) n (set_entry ''deliveryClaimed'' (JBool True) (pending at' r))"
    if "content w n = Some data'" "record_at k data' = Some (pending at' r)" for at' n data'
    unfolding claimed_now_def using k before r q' c that by blast
  then show "returns (andthen (next_timestamp now r) (\<lambda>at'.
       andthen (save_and_reply w c k (set_entry ''updatedAt'' (JStr at') (set_entry ''deliveryState'' (JStr ''DELIVERY_PENDING'') r)) data)
         (\<lambda>x. yield (set_entry ''deliveryClaimed'' (JBool True) x))))
      (\<lambda>x u. claim_reply x \<longrightarrow> claimed_now w a t accepted (file_of s) (file_of u) x) u2"
    unfolding pending_def [symmetric] by (intro ret returns_save_then [OF w] impI)
qed

text \<open>A delivery that returned is stored with its response, now or before.\<close>

lemma mark_delivered_stores:
  assumes w: "reads_back w"
  shows "returns (mark_delivered w c a t response now)
     (\<lambda>x u. \<exists>k data cached. record_key a t = Inr k \<and> clone_json max_cached_response_bytes response = Inr cached
        \<and> content w (file_of u) = Some data \<and> record_at k data = Some x \<and> delivery_of x = JStr ''DELIVERED''
        \<and> sort_keys (slot ''cachedResponse'' x) = sort_keys cached) s"
  unfolding mark_delivered_def
proof (intro returns_lift returns_demand returns_writer returns_read [OF w] returns_assure returns_if returns_cloned
    returns_next_time returns_save [OF w])
  show "\<exists>k data cached. record_key a t = Inr k \<and> clone_json max_cached_response_bytes response = Inr cached
        \<and> content w (file_of u) = Some data \<and> record_at k data = Some r \<and> delivery_of r = JStr ''DELIVERED''
        \<and> sort_keys (slot ''cachedResponse'' r) = sort_keys cached"
    if "clone_json max_cached_response_bytes response = Inr cached" "content w (file_of u) = Some data" "record_key a t = Inr k"
      "record_at k data = Some r" "delivery_of r = JStr ''DELIVERED''" "same_text max_record_bytes (slot ''cachedResponse'' r) cached"
    for cached data k r and u :: site
    using that same_text_sorted by blast
qed (auto simp: delivery_of_def)

end
