(* ===== verification/Journal_Absence.thy ===== *)
theory Journal_Absence
  imports Journal_Machine
begin

text \<open>
  A journal that is gone. Once the marker is there, or in \<open>existingOnly\<close> mode, a missing file is an
  error and nothing on the disk changes: a lost journal is never replaced by an empty one, which
  would forget every payment. The second part says which errors a write can end with after the file
  was replaced; every other error leaves the file as it was.
\<close>

section \<open>A missing journal\<close>

definition gone :: "config \<Rightarrow> disk \<Rightarrow> bool" where
  "gone c d \<longleftrightarrow> dk_journal d = Missing \<and> (cf_existing c \<or> dk_marker d \<noteq> Missing)"

text \<open>A program that fails on the disk \<open>d\<close> and leaves it as it is.\<close>

definition refuses :: "disk \<Rightarrow> 'a journal_prog \<Rightarrow> bool" where
  "refuses d p \<longleftrightarrow> (\<forall>s. st_disk s = d \<longrightarrow> wpre p (\<lambda>_ _. False) (\<lambda>_ u. st_disk u = d) s)"

named_theorems refuse "programs that fail on a missing journal"

lemma refuses_lift [refuse]: "(\<And>v. r = Inr v \<Longrightarrow> refuses d (f v)) \<Longrightarrow> refuses d (andthen (lift_sum r) f)"
  by (simp add: refuses_def wp split: sum.splits)

lemma refuses_demand [refuse]: "(\<And>v. x = Some v \<Longrightarrow> refuses d (f v)) \<Longrightarrow> refuses d (andthen (demand x e) f)"
  by (simp add: refuses_def wp split: option.splits)

lemma refuses_assure [refuse]: "(b \<Longrightarrow> refuses d (f ())) \<Longrightarrow> refuses d (andthen (assure b e) f)"
  by (simp add: refuses_def wp)

lemma refuses_time [refuse]: "(\<And>t. refuses d (f t)) \<Longrightarrow> refuses d (andthen (current_time now) f)"
  unfolding current_time_def by (rule refuses_demand)

lemma refuses_cloned [refuse]: "(\<And>x. refuses d (f x)) \<Longrightarrow> refuses d (andthen (cloned v) f)"
  unfolding cloned_def by (rule refuses_lift)

lemma refuses_let [refuse]: "(\<And>y. refuses d (p y)) \<Longrightarrow> refuses d (let y = x in p y)"
  by simp

lemma refuses_writer [refuse]: "refuses d p \<Longrightarrow> refuses d (with_writer p)"
  by (simp add: refuses_def with_writer_def wp split: io_outcome.splits)

lemma refuses_read:
  assumes "gone c d"
  shows "refuses d (andthen (read_journal w c) f)"
proof -
  have marker: "wpre has_marker (\<lambda>b u. st_disk u = d \<and> (b \<longrightarrow> dk_marker d \<noteq> Missing) \<and> (\<not> b \<longrightarrow> dk_marker d = Missing))
      (\<lambda>_ u. st_disk u = d) s" if "st_disk s = d" for s
    using that by (simp add: has_marker_def wp split: io_outcome.splits node.splits)
  have rest: "wpre (andthen (assure (\<not> (cf_existing c \<and> \<not> b)) JournalStateMissing) (\<lambda>_.
     andthen (syscall JournalReadFailed id) (\<lambda>_.
     andthen (gets (\<lambda>s. dk_journal (st_disk s))) (\<lambda>n. case n of
       Missing \<Rightarrow> if b \<or> cf_existing c then raise JournalStateMissing else start_journal w c
     | Special \<Rightarrow> raise JournalUnsafeFile
     | Regular t \<Rightarrow> g t)))) (\<lambda>_ _. False) (\<lambda>_ u. st_disk u = d) u"
    if "st_disk u = d" "b \<longrightarrow> dk_marker d \<noteq> Missing" "\<not> b \<longrightarrow> dk_marker d = Missing" for b g u
    using that assms by (auto simp: wp gone_def split: io_outcome.splits)
  have "wpre (read_journal w c) (\<lambda>_ _. False) (\<lambda>_ u. st_disk u = d) s" if "st_disk s = d" for s
    unfolding read_journal_def wp_andthen [of has_marker]
    by (rule wpre_mono [OF marker [OF that]]) (use rest in auto)
  then show ?thesis
    unfolding refuses_def wp_andthen by (blast intro: wpre_mono)
qed

lemma perform_refuses: "gone c d \<Longrightarrow> refuses d (perform w c call)"
  by (cases call)
    (simp_all add: load_journal_def get_record_def find_record_def get_tombstone_def find_tombstone_def list_candidates_def
      entry_snapshot_def list_entries_def put_validated_def compare_and_update_def replace_with_tombstone_def record_late_def
      update_evidence_def mark_delivery_pending_def mark_delivered_def Let_def,
     (intro refuse refuses_read; assumption)+)

section \<open>Errors of a write\<close>

definition late_error :: "journal_error \<Rightarrow> bool" where
  "late_error e \<longleftrightarrow> e \<in> {JournalDirectorySyncFailed, JournalMarkerReadFailed, JournalMarkerCorrupt, JournalMarkerWriteFailed,
     JournalMarkerSyncFailed, JournalStateMissing, Halted}"

lemma marker_errors:
  "wpre ensure_marker (\<lambda>_ _. True) (\<lambda>e _. late_error e) s" "wpre require_marker (\<lambda>_ _. True) (\<lambda>e _. late_error e) s"
  by (simp_all add: ensure_marker_def require_marker_def has_marker_def wp late_error_def split: io_outcome.splits node.splits)

lemma write_errors: "wpre (write_journal w c data) (\<lambda>_ _. True) (\<lambda>e u. file_of u = file_of s \<or> late_error e) s"
proof -
  let ?E = "\<lambda>e u. file_of u = file_of s \<or> late_error e"
  have last: "wpre (andthen (syscall JournalDirectorySyncFailed id) (\<lambda>_. if cf_existing c then require_marker else ensure_marker))
      (\<lambda>_ _. True) ?E u" for u
    using marker_errors [THEN wpre_mono, of "\<lambda>_ _. True" ?E]
    by (simp add: wp_andthen [of "syscall e f" for e f] wp_syscall late_error_def split: io_outcome.splits)
  have replace: "wpre (andthen (replace_file t) (\<lambda>_. andthen (syscall JournalDirectorySyncFailed id) (\<lambda>_.
      if cf_existing c then require_marker else ensure_marker))) (\<lambda>_ _. True) ?E u" if "file_of u = file_of s" for t u
    unfolding wp_andthen [of "replace_file t"]
    by (rule wpre_mono [OF replace_file_wp]) (use that last in auto)
  have checked: "wpre (andthen (if cf_existing c then check_existing else yield ()) (\<lambda>_. andthen (replace_file t) (\<lambda>_.
      andthen (syscall JournalDirectorySyncFailed id) (\<lambda>_. if cf_existing c then require_marker else ensure_marker)))) (\<lambda>_ _. True) ?E u"
    if "file_of u = file_of s" for t u
    by (rule wpre_weaken_keeps, intro quiet_if quiet) (use that replace in auto)
  have tail: "wpre (andthen (lift_sum (sealed w c data)) (\<lambda>data'. andthen (lift_sum (encode_journal c data')) (\<lambda>t.
     andthen (if cf_existing c then check_existing else yield ()) (\<lambda>_.
     andthen (replace_file t) (\<lambda>_.
     andthen (syscall JournalDirectorySyncFailed id) (\<lambda>_.
     if cf_existing c then require_marker else ensure_marker)))))) (\<lambda>_ _. True) ?E u" if "file_of u = file_of s" for u
    using that checked by (simp add: wp_andthen [of "lift_sum x" for x] wp_lift_sum split: sum.splits split del: if_split)
  show ?thesis
    unfolding write_journal_def by (intro wpre_weaken_keeps quiet_if quiet tail) simp_all
qed

end
