(* ===== verification/Journal_Capacity.thy ===== *)
theory Journal_Capacity
  imports Journal_Contents
begin

text \<open>
  What fits. Bounds on the length of a text and on the bytes that a snapshot charges, computed from
  the lengths of the strings alone, and sufficient conditions for a clone, a digest and a write to
  succeed. With these the success of a call is a matter of arithmetic.
\<close>

section \<open>The length of a text\<close>

fun extent :: "nat \<Rightarrow> nat \<Rightarrow> json \<Rightarrow> nat" where
  "extent w d JNull = 4"
| "extent w d (JBool b) = 5"
| "extent w d (JNum n) = 17"
| "extent w d (JStr s) = 2 + 6 * length s"
| "extent w d (JArr vs) = 4 + d * w + Suc d * w + sum_list (map (\<lambda>v. extent w (Suc d) v + 2 + Suc d * w) vs)"
| "extent w d (JObj kvs) = 4 + d * w + Suc d * w + sum_list (map (\<lambda>(k, v). 6 * length k + extent w (Suc d) v + 6 + Suc d * w) kvs)"

lemma journal_utf8_length: "utf8_bytes s \<le> 2 * length s"
  unfolding utf8_bytes_def by (induction s) simp_all

lemma escape_length: "length (escape_char c) \<le> 6"
  by (simp add: escape_char_def Let_def)

lemma string_text_length: "length (string_text s) \<le> 2 + 6 * length s"
proof -
  have "length (concat (map escape_char s)) \<le> 6 * length s"
  proof (induction s)
    case (Cons c s)
    then show ?case using escape_length [of c] by simp
  qed simp
  then show ?thesis by (simp add: string_text_def)
qed

lemma safe_text_length: "safe_range n \<Longrightarrow> length (int_text n) \<le> 17"
proof -
  assume "safe_range n"
  then have "nat n < 10 ^ 16" "nat (- n) < 10 ^ 16" by (auto simp: safe_range_def max_safe_def)
  then have "length (nat_text (nat n)) \<le> 16" "length (nat_text (nat (- n))) \<le> 16" by (auto intro: nat_text_size)
  then show ?thesis by (simp add: int_text_def)
qed

lemma line_break_length: "length (line_break d w) \<le> 1 + d * w"
  by (simp add: line_break_def json_indent_def)

lemma items_text_length:
  "length (items_text b sep xs) \<le> length b + sum_list (map (\<lambda>x. length x + length sep) xs)"
proof (induction xs arbitrary: b)
  case (Cons x xs)
  then show ?case using Cons [of sep] by simp
qed simp

lemma enclosed_length: "length (enclosed w d xs) \<le> 2 + d * w + Suc d * w + sum_list (map (\<lambda>x. length x + (2 + Suc d * w)) xs)"
proof -
  let ?b = "line_break (Suc d) w"
  have "sum_list (map (\<lambda>x. length x + length (CHR '','' # ?b)) xs) \<le> sum_list (map (\<lambda>x. length x + (2 + Suc d * w)) xs)"
    using line_break_length [of "Suc d" w] by (intro sum_list_mono) simp
  then have "length (items_text ?b (CHR '','' # ?b) xs) \<le> length ?b + sum_list (map (\<lambda>x. length x + (2 + Suc d * w)) xs)"
    using items_text_length [of ?b "CHR '','' # ?b" xs] by linarith
  then have "length (items_text ?b (CHR '','' # ?b) xs @ line_break d w)
      \<le> 2 + d * w + Suc d * w + sum_list (map (\<lambda>x. length x + (2 + Suc d * w)) xs)"
    using line_break_length [of "Suc d" w] line_break_length [of d w] by (simp only: length_append)
  then show ?thesis by (simp add: enclosed_def)
qed

lemma layout_extent: "writable d v \<Longrightarrow> length (layout w d v) \<le> extent w d v"
proof (induction v arbitrary: d)
  case (JNum n)
  then show ?case by (simp add: safe_text_length)
next
  case (JStr s)
  then show ?case using string_text_length [of s] by simp
next
  case (JArr vs)
  have "sum_list (map (\<lambda>v. length (layout w (Suc d) v) + (2 + Suc d * w)) vs) \<le> sum_list (map (\<lambda>v. extent w (Suc d) v + 2 + Suc d * w) vs)"
    using JArr by (intro sum_list_mono) simp
  then show ?case
    using enclosed_length [of w d "map (layout w (Suc d)) vs"] by (simp add: comp_def)
next
  case (JObj kvs)
  have "sum_list (map ((\<lambda>x. length x + (2 + Suc d * w)) \<circ> (\<lambda>(k, v). string_text k @ member_colon w @ layout w (Suc d) v)) kvs)
      \<le> sum_list (map (\<lambda>(k, v). 6 * length k + extent w (Suc d) v + 6 + Suc d * w) kvs)"
  proof (rule sum_list_mono, clarify)
    fix k v assume kv: "(k, v) \<in> set kvs"
    have "length (layout w (Suc d) v) \<le> extent w (Suc d) v"
      using JObj kv by (auto simp: snds.simps)
    then show "((\<lambda>x. length x + (2 + Suc d * w)) \<circ> (\<lambda>(k, v). string_text k @ member_colon w @ layout w (Suc d) v)) (k, v)
        \<le> 6 * length k + extent w (Suc d) v + 6 + Suc d * w"
      using string_text_length [of k] by (cases "w = 0") (auto simp: member_colon_def)
  qed
  then show ?case
    using enclosed_length [of w d "map (\<lambda>(k, v). string_text k @ member_colon w @ layout w (Suc d) v) kvs"] by simp
qed simp_all

lemma layout_bytes: "writable d v \<Longrightarrow> 2 * extent w d v \<le> limit \<Longrightarrow> utf8_bytes (layout w d v) \<le> limit"
  using layout_extent [of d v w] journal_utf8_length [of "layout w d v"] by linarith

text \<open>Sorting the keys changes neither.\<close>

lemma extent_sorted: "extent w d (sort_keys v) = extent w d v"
proof (induction v arbitrary: d)
  case (JArr vs)
  then show ?case by (simp add: comp_def cong: map_cong)
next
  case (JObj kvs)
  have "map ((\<lambda>(k, v). 6 * length k + extent w (Suc d) v + 6 + Suc d * w) \<circ> (\<lambda>(k, v). (k, sort_keys v))) kvs
      = map (\<lambda>(k, v). 6 * length k + extent w (Suc d) v + 6 + Suc d * w) kvs"
    using JObj by (intro map_cong) (auto simp: snds.simps)
  then show ?case unfolding sort_keys.simps extent.simps sum_list_sorted map_map by (simp only:)
qed simp_all

lemma writable_sorted: "writable d (sort_keys v) = writable d v"
proof (induction v arbitrary: d)
  case (JObj kvs)
  have "(\<forall>(k, v) \<in> set kvs. writable (Suc d) (sort_keys v)) = (\<forall>(k, v) \<in> set kvs. writable (Suc d) v)"
    using JObj by (auto simp: snds.simps)
  then show ?case by (auto simp: case_prod_beta)
qed simp_all

section \<open>Snapshots and clones that succeed\<close>

fun cost :: "json \<Rightarrow> nat" where
  "cost (JStr s) = 2 * length s"
| "cost (JArr vs) = sum_list (map cost vs)"
| "cost (JObj kvs) = sum_list (map (\<lambda>(k, v). 2 * length k + cost v) kvs)"
| "cost _ = 0"

fun shallow :: "nat \<Rightarrow> nat \<Rightarrow> json \<Rightarrow> bool" where
  "shallow limit d (JNum n) \<longleftrightarrow> d \<le> max_json_depth \<and> safe_range n"
| "shallow limit d (JArr vs) \<longleftrightarrow> d \<le> max_json_depth \<and> length vs \<le> limit \<and> (\<forall>v \<in> set vs. shallow limit (Suc d) v)"
| "shallow limit d (JObj kvs) \<longleftrightarrow> d \<le> max_json_depth \<and> length kvs \<le> limit \<and> distinct (map fst kvs)
     \<and> (\<forall>(k, v) \<in> set kvs. shallow limit (Suc d) v)"
| "shallow limit d _ \<longleftrightarrow> d \<le> max_json_depth"

lemma shallow_writable: "shallow limit d v \<Longrightarrow> writable d v"
proof (induction v arbitrary: d)
  case (JObj kvs)
  then show ?case by (fastforce simp: snds.simps)
qed auto

lemma shallow_distinct: "shallow limit d v \<Longrightarrow> distinct_keys v"
proof (induction v arbitrary: d)
  case (JObj kvs)
  then show ?case by (fastforce simp: snds.simps)
qed auto

lemma charge_fits: "n + 2 * length s \<le> limit \<Longrightarrow> \<exists>m. charge limit s n = Inr m \<and> m \<le> n + 2 * length s"
  using journal_utf8_length [of s] by (auto simp: charge_def Let_def)

lemma view_keys_fits:
  "n + sum_list (map (\<lambda>(k, v). 2 * length k) kvs) \<le> limit \<Longrightarrow>
    \<exists>m. view_keys limit (map (\<lambda>(k, v). (k, DataProp (js_of v))) kvs) n = Inr m
      \<and> m \<le> n + sum_list (map (\<lambda>(k, v). 2 * length k) kvs)"
proof (induction kvs arbitrary: n)
  case (Cons kv kvs)
  obtain k v where kv: "kv = (k, v)" by (cases kv)
  obtain m where m: "charge limit k n = Inr m" "m \<le> n + 2 * length k"
    using charge_fits [of n k limit] Cons.prems kv by auto
  obtain m' where "view_keys limit (map (\<lambda>(k, v). (k, DataProp (js_of v))) kvs) m = Inr m'"
    "m' \<le> m + sum_list (map (\<lambda>(k, v). 2 * length k) kvs)"
    using Cons.IH [of m] Cons.prems m(2) kv by auto
  then show ?case using m by (simp add: kv)
qed simp

lemma snapshot_items_fits:
  assumes "\<And>v n. v \<in> set vs \<Longrightarrow> n + cost v \<le> limit \<Longrightarrow> \<exists>m. snapshot_value limit d (js_of v) n = Inr (v, m) \<and> m \<le> n + cost v"
    and "n + sum_list (map cost vs) \<le> limit"
  shows "\<exists>m. snapshot_items limit d (map DataProp (map js_of vs)) n = Inr (vs, m) \<and> m \<le> n + sum_list (map cost vs)"
  using assms
proof (induction vs arbitrary: n)
  case (Cons v vs)
  obtain m where m: "snapshot_value limit d (js_of v) n = Inr (v, m)" "m \<le> n + cost v"
    using Cons.prems(1) [of v n] Cons.prems(2) by auto
  obtain m' where "snapshot_items limit d (map DataProp (map js_of vs)) m = Inr (vs, m')" "m' \<le> m + sum_list (map cost vs)"
    using Cons.IH [of m] Cons.prems m(2) by auto
  then show ?case using m by simp
qed simp

lemma snapshot_members_fits:
  assumes "\<And>k v n. (k, v) \<in> set kvs \<Longrightarrow> n + cost v \<le> limit \<Longrightarrow> \<exists>m. snapshot_value limit d (js_of v) n = Inr (v, m) \<and> m \<le> n + cost v"
    and "n + sum_list (map (\<lambda>(k, v). cost v) kvs) \<le> limit"
  shows "\<exists>m. snapshot_members limit d (map (\<lambda>(k, v). (k, DataProp (js_of v))) kvs) n = Inr (kvs, m)
    \<and> m \<le> n + sum_list (map (\<lambda>(k, v). cost v) kvs)"
  using assms
proof (induction kvs arbitrary: n)
  case (Cons kv kvs)
  obtain k v where kv: "kv = (k, v)" by (cases kv)
  obtain m where m: "snapshot_value limit d (js_of v) n = Inr (v, m)" "m \<le> n + cost v"
    using Cons.prems(1) [of k v n] Cons.prems(2) kv by auto
  have "\<exists>m'. snapshot_members limit d (map (\<lambda>(k, v). (k, DataProp (js_of v))) kvs) m = Inr (kvs, m')
      \<and> m' \<le> m + sum_list (map (\<lambda>(k, v). cost v) kvs)"
  proof (rule Cons.IH)
    show "m + sum_list (map (\<lambda>(k, v). cost v) kvs) \<le> limit" using Cons.prems(2) m(2) kv by simp
  qed (use Cons.prems(1) in auto)
  then show ?case using m by (auto simp: kv)
qed simp

lemma snapshot_fits:
  "shallow limit d v \<Longrightarrow> n + cost v \<le> limit \<Longrightarrow> \<exists>m. snapshot_value limit d (js_of v) n = Inr (v, m) \<and> m \<le> n + cost v"
proof (induction v arbitrary: d n)
  case (JStr s)
  then show ?case using charge_fits [of n s limit] by (auto simp: snapshot_value.simps)
next
  case (JArr vs)
  have image: "js_of (JArr vs) = VArray (OrdinaryArray None) (map DataProp (map js_of vs))" by (simp add: arr_def)
  have "\<exists>m. snapshot_items limit (Suc d) (map DataProp (map js_of vs)) n = Inr (vs, m) \<and> m \<le> n + sum_list (map cost vs)"
    using JArr by (intro snapshot_items_fits) auto
  then show ?case unfolding image using JArr.prems by (auto simp: snapshot_value.simps view_array_def)
next
  case (JObj kvs)
  have image: "js_of (JObj kvs) = VObject ObjectProto False (map (\<lambda>(k, v). (k, DataProp (js_of v))) kvs)"
    by (simp add: obj_def js_members_def split_beta comp_def)
  have split: "cost (JObj kvs) = sum_list (map (\<lambda>(k, v). 2 * length k) kvs) + sum_list (map (\<lambda>(k, v). cost v) kvs)"
    unfolding cost.simps by (induction kvs) auto
  obtain m where m: "view_keys limit (map (\<lambda>(k, v). (k, DataProp (js_of v))) kvs) n = Inr m"
      "m \<le> n + sum_list (map (\<lambda>(k, v). 2 * length k) kvs)"
    using view_keys_fits [of n kvs limit] JObj.prems(2) split by auto
  obtain m' where m': "snapshot_members limit (Suc d) (map (\<lambda>(k, v). (k, DataProp (js_of v))) kvs) m = Inr (kvs, m')"
      "m' \<le> m + sum_list (map (\<lambda>(k, v). cost v) kvs)"
  proof -
    have "m + sum_list (map (\<lambda>(k, v). cost v) kvs) \<le> limit" using m(2) JObj.prems(2) split by simp
    moreover have "\<exists>m. snapshot_value limit (Suc d) (js_of v) n = Inr (v, m) \<and> m \<le> n + cost v"
      if "(k, v) \<in> set kvs" "n + cost v \<le> limit" for k v n
      using JObj that by (auto simp: snds.simps)
    ultimately show thesis using snapshot_members_fits that by blast
  qed
  have names: "map (fst \<circ> (\<lambda>(k, v). (k, DataProp (js_of v)))) kvs = map fst kvs" by (simp add: comp_def split_beta)
  have "snapshot_value limit d (js_of (JObj kvs)) n = Inr (JObj kvs, m')"
    unfolding image using JObj.prems m(1) m'(1) by (simp add: snapshot_value.simps view_object_def names)
  then show ?case using m(2) m'(2) split by auto
qed (auto simp: snapshot_value.simps num_def safe_integer.simps simp del: num_js_of)

text \<open>Values that are small enough in every respect.\<close>

definition modest :: "nat \<Rightarrow> json \<Rightarrow> bool" where
  "modest limit v \<longleftrightarrow> shallow limit 0 v \<and> cost v \<le> limit \<and> check_json 0 v = Inr () \<and> 2 * extent 0 0 v \<le> limit \<and> 1 \<le> limit"

lemma modest_clone: "modest limit v \<Longrightarrow> clone_json limit (js_of v) = Inr v"
proof -
  assume m: "modest limit v"
  then obtain n where n: "snapshot_value limit 0 (js_of v) 0 = Inr (v, n)"
    using snapshot_fits [of limit 0 v 0] by (auto simp: modest_def)
  have "stringify_json 0 False limit v = Inr (layout 0 0 v)"
    using m shallow_writable layout_bytes by (auto simp: modest_def stringify_json_Inr)
  moreover have "utf8_bytes (layout 0 0 v) \<le> limit"
    using m shallow_writable layout_bytes by (auto simp: modest_def)
  ultimately show ?thesis using m n by (simp add: clone_json_def modest_def)
qed

lemma modest_fits: "modest limit v \<Longrightarrow> clone_fits limit v"
  by (simp add: clone_fits_def modest_clone)

lemma digest_fits: "writable 0 v \<Longrightarrow> 2 * extent 0 0 v \<le> limit \<Longrightarrow> 1 \<le> limit \<Longrightarrow> digest_of sha limit v = Inr (sha (canonical_json v))"
proof -
  assume v: "writable 0 v" "2 * extent 0 0 v \<le> limit" "1 \<le> limit"
  then have "utf8_bytes (layout 0 0 (sort_keys v)) \<le> limit"
    by (intro layout_bytes) (simp_all add: writable_sorted extent_sorted)
  then have "canonical_text limit v = Inr (layout 0 0 (sort_keys v))"
    using v by (simp add: canonical_text_def stringify_json_Inr writable_sorted)
  then show ?thesis by (simp add: digest_of_def layout_compact canonical_json_def)
qed

lemma text_fits: "writable 0 v \<Longrightarrow> 2 * extent 0 0 v \<le> limit \<Longrightarrow> 1 \<le> limit \<Longrightarrow> same_text limit v v"
  using digest_fits [of v limit id] by (auto simp: same_text_refl digest_of_def also_then_Inr)

lemma encode_fits: "writable 0 v \<Longrightarrow> 2 * extent 2 0 v + 2 \<le> cf_maxBytes c \<Longrightarrow> encode_journal c v = Inr (layout 2 0 v @ [CHR 0x0A])"
proof -
  assume v: "writable 0 v" "2 * extent 2 0 v + 2 \<le> cf_maxBytes c"
  have "utf8_bytes (layout 2 0 v) \<le> 2 * extent 2 0 v"
    using layout_extent [OF v(1), of 2] journal_utf8_length [of "layout 2 0 v"] by linarith
  moreover have "utf8_bytes [CHR 0x0A] \<le> 2" by (simp add: utf8_bytes_def)
  ultimately have b: "utf8_bytes (layout 2 0 v @ [CHR 0x0A]) \<le> cf_maxBytes c" "utf8_bytes (layout 2 0 v) \<le> cf_maxBytes c"
    using v(2) by auto
  then have "stringify_json 2 False (cf_maxBytes c) v = Inr (layout 2 0 v)"
    using v by (simp add: stringify_json_Inr)
  then show ?thesis using b(1) by (simp add: encode_journal_def)
qed

end
