(* ===== verification/Journal_Demo.thy ===== *)
theory Journal_Demo
  imports Journal_Machine Journal_Capacity
begin

text \<open>
  A journal with one included payment, on which the properties of the journal are shown to apply.
  The digest is a constant, so every commitment is the same text.
\<close>

section \<open>The journal\<close>

definition demo_hash :: string where
  "demo_hash = replicate 64 (CHR ''a'')"

definition demo_world :: world where
  "demo_world = reader_world (\<lambda>_. demo_hash)
     (\<lambda>_. Some \<lparr>url_protocol = ''https:'', url_hostname = ''shop.test'', url_username = [], url_password = []\<rparr>)"

definition demo_config :: config where
  "demo_config = \<lparr>cf_existing = True, cf_maxRecords = 10, cf_maxBytes = 1048576\<rparr>"

definition demo_transaction :: string where
  "demo_transaction = replicate 64 (CHR ''1'')"

definition demo_time :: string where
  "demo_time = ''2026-01-01T00:00:00.000Z''"

definition demo_chain :: json where
  "demo_chain = JObj [(''version'', JNum 1), (''chainIdentifier'', JStr ''3''), (''genesisMomentumHash'', JStr demo_hash)]"

definition demo_data :: string where
  "demo_data = base64_encode (replicate 32 170)"

definition demo_signature :: string where
  "demo_signature = base64_encode (replicate 64 170)"

definition demo_nonce :: string where
  "demo_nonce = replicate 16 (CHR ''0'')"

definition demo_block :: json where
  "demo_block = JObj [(''version'', JNum 1), (''chainIdentifier'', JNum 3), (''blockType'', JNum 2),
     (''hash'', JStr demo_transaction), (''previousHash'', JStr demo_hash), (''height'', JNum 7),
     (''momentumAcknowledged'', JObj [(''hash'', JStr demo_hash), (''height'', JNum 90)]),
     (''address'', JStr ''z1qpayer0000''), (''toAddress'', JStr ''z1qseller000''), (''amount'', JStr ''5''),
     (''tokenStandard'', JStr ''zts1token000''), (''fromBlockHash'', JStr demo_hash),
     (''data'', JStr demo_data), (''fusedPlasma'', JNum 0), (''difficulty'', JNum 0),
     (''nonce'', JStr demo_nonce), (''publicKey'', JStr demo_data),
     (''signature'', JStr demo_signature)]"

definition demo_detail :: json where
  "demo_detail = JObj [(''numConfirmations'', JNum 5), (''momentumHeight'', JNum 100),
     (''momentumHash'', JStr demo_hash), (''momentumTimestamp'', JNum 1767225600)]"

definition demo_record :: "string \<Rightarrow> json \<Rightarrow> json" where
  "demo_record delivery cached = JObj [(''authorizationKey'', JStr demo_hash), (''transactionHash'', JStr demo_transaction),
     (''chainProfile'', demo_chain), (''intentDigest'', JStr demo_hash),
     (''resourceIdentity'', JObj [(''url'', JStr ''https://shop.test/report'')]), (''resourceDigest'', JStr demo_hash),
     (''payer'', JStr ''z1qpayer0000''), (''signedAccountBlock'', demo_block), (''evidenceState'', JStr ''MOMENTUM_INCLUDED''),
     (''momentumEvidence'', JObj [(''observedAt'', JStr demo_time), (''confirmationDetail'', demo_detail)]),
     (''deliveryState'', JStr delivery), (''cachedResponse'', cached), (''createdAt'', JStr demo_time), (''updatedAt'', JStr demo_time)]"

definition demo_key :: string where
  "demo_key = demo_hash @ '':'' @ demo_transaction"

definition demo_journal :: "int \<Rightarrow> json \<Rightarrow> json" where
  "demo_journal revision r = JObj [(''schemaVersion'', JNum 1), (''revision'', JNum revision),
     (''records'', JObj [(demo_key, r)]), (''checksum'', JStr demo_hash)]"

section \<open>It is valid\<close>

lemma demo_hash_hex: "is_hex64 demo_hash" "is_hex64 demo_transaction"
  unfolding demo_hash_def demo_transaction_def by (rule is_hex64_replicate, simp add: is_hex_def is_digit_def code_def)+

lemma demo_lengths: "length demo_hash = 64" "length demo_transaction = 64" "length demo_time = 24"
  by (simp_all add: demo_hash_def demo_transaction_def demo_time_def)

lemma demo_bytes: "base64_of 32 demo_data" "base64_of 64 demo_signature" "bytes_hex (base64_decode demo_data) = demo_hash"
  "length demo_data = 44" "length demo_signature = 88"
proof -
  have "hex_digit 10 = CHR ''a''" by code_simp
  then have "byte_hex 170 = ''aa''" by (simp add: byte_hex_def)
  then have "bytes_hex (replicate n 170) = replicate (2 * n) (CHR ''a'')" for n
    by (induction n) (simp_all add: bytes_hex_def)
  then show "bytes_hex (base64_decode demo_data) = demo_hash" by (simp add: demo_hash_def demo_data_def)
qed (simp_all only: base64_of_def demo_data_def demo_signature_def base64_decode_encode base64_shape_encode length_replicate
    base64_encode_length, simp_all)

lemma demo_instant: "valid_timestamp demo_time"
  by code_simp

lemma demo_nonce_ok: "nonce_test (JStr demo_nonce)"
proof -
  have "is_hex (CHR ''0'')" by (simp add: is_hex_def is_digit_def code_def)
  then have "list_all is_hex (replicate n (CHR ''0''))" for n by (induction n) simp_all
  then have "list_all is_hex demo_nonce" unfolding demo_nonce_def .
  moreover have "length demo_nonce = 16" by (simp add: demo_nonce_def)
  ultimately show ?thesis by (simp add: nonce_test_def)
qed

lemma demo_block_ok: "valid_block demo_block (demo_record delivery cached)"
proof -
  have "valid_acknowledged (JObj [(''hash'', JStr demo_hash), (''height'', JNum 90)])"
    by (simp add: valid_acknowledged_def hash_test_def demo_hash_hex int_slot_def safe_range_def max_safe_def)
  moreover have "nonce_test (JStr demo_nonce)"
    by (rule demo_nonce_ok)
  moreover have "int_text 3 = ''3''" by code_simp
  moreover have "positive_decimal ''5''" "decimal_value ''5'' \<le> max_zenon_amount"
    by (simp_all add: positive_decimal_def is_digit_def code_def decimal_value_def digit_value_def max_zenon_amount_def)
  ultimately show ?thesis
    unfolding valid_block_def demo_block_def demo_record_def demo_chain_def
    by (intro conjI) (simp_all add: account_block_fields_def hash_test_def demo_hash_hex
        int_slot_def safe_range_def max_safe_def text_slot_def long_text_def demo_bytes strict_eq_def)
qed

lemma demo_chain_ok: "valid_chain demo_chain"
  by (simp add: valid_chain_def demo_chain_def chain_profile_fields_def text_slot_def hash_test_def demo_hash_hex positive_decimal_def
      is_digit_def code_def decimal_value_def digit_value_def max_safe_def)

lemma demo_detail_ok: "valid_detail demo_detail"
proof -
  have "check_json 0 demo_detail = Inr ()" by code_simp
  then have "modest max_evidence_bytes demo_detail"
    by (simp add: modest_def demo_detail_def max_evidence_bytes_def max_json_depth_def safe_range_def max_safe_def demo_lengths)
  then show ?thesis
    using modest_fits by (simp add: valid_detail_def demo_detail_def detail_fields_def int_slot_def text_slot_def safe_range_def
        max_safe_def demo_hash_hex)
qed

lemma demo_keys: "\<forall>k \<in> set (record_fields @ account_block_fields @ detail_fields @ chain_profile_fields). check_key k = Inr ()"
    "\<forall>k \<in> set [''url'', ''observedAt'', ''confirmationDetail'']. check_key k = Inr ()"
  by code_simp+

lemma demo_check: "check_json 0 (demo_record d JNull) = Inr ()" "check_json 0 (demo_record d (JBool True)) = Inr ()"
  using demo_keys unfolding demo_record_def demo_chain_def demo_block_def demo_detail_def
  by (simp_all add: record_fields_def account_block_fields_def detail_fields_def chain_profile_fields_def
      check_json.simps max_json_depth_def safe_range_def max_safe_def)

definition journal_demo_state :: "string \<Rightarrow> json \<Rightarrow> bool" where
  "journal_demo_state d c \<longleftrightarrow> d = ''NONE'' \<and> c = JNull \<or> d = ''DELIVERY_PENDING'' \<and> c = JNull \<or> d = ''DELIVERED'' \<and> c = JBool True"

lemma demo_cases: "journal_demo_state d c \<Longrightarrow> (d = ''NONE'' \<Longrightarrow> c = JNull \<Longrightarrow> P) \<Longrightarrow> (d = ''DELIVERY_PENDING'' \<Longrightarrow> c = JNull \<Longrightarrow> P)
    \<Longrightarrow> (d = ''DELIVERED'' \<Longrightarrow> c = JBool True \<Longrightarrow> P) \<Longrightarrow> P"
  by (auto simp: journal_demo_state_def)

lemmas demo_defs = demo_chain_def demo_block_def demo_detail_def demo_lengths demo_bytes(4,5) demo_nonce_def
  max_json_depth_def safe_range_def max_safe_def

lemma demo_shallow: "journal_demo_state d c \<Longrightarrow> shallow (Suc (Suc (Suc (Suc (20 + n))))) 0 (demo_record d c)"
  by (erule demo_cases) (simp_all add: demo_record_def demo_defs)

lemma demo_extent: "journal_demo_state d c \<Longrightarrow> extent 0 0 (demo_record d c) \<le> 30000" "journal_demo_state d c \<Longrightarrow> cost (demo_record d c) \<le> 30000"
  "journal_demo_state d c \<Longrightarrow> extent 2 2 (demo_record d c) \<le> 30000" "journal_demo_state d c \<Longrightarrow> extent 0 2 (demo_record d c) \<le> 30000"
  by (erule demo_cases; simp add: demo_record_def demo_defs)+

lemma demo_modest: "journal_demo_state d c \<Longrightarrow> modest max_record_bytes (demo_record d c)"
proof -
  assume d: "journal_demo_state d c"
  have "shallow max_record_bytes 0 (demo_record d c)"
    using demo_shallow [OF d, of "max_record_bytes - 24"] by (simp add: max_record_bytes_def)
  moreover have "check_json 0 (demo_record d c) = Inr ()" using d demo_check by (auto elim: demo_cases)
  ultimately show ?thesis
    using demo_extent [OF d] by (simp add: modest_def max_record_bytes_def)
qed

lemma demo_evidence_ok: "valid_evidence (JObj [(''observedAt'', JStr demo_time), (''confirmationDetail'', demo_detail)])"
proof -
  have "check_json 0 (JObj [(''observedAt'', JStr demo_time), (''confirmationDetail'', demo_detail)]) = Inr ()" by code_simp
  then have "modest max_evidence_bytes (JObj [(''observedAt'', JStr demo_time), (''confirmationDetail'', demo_detail)])"
    by (simp add: modest_def demo_defs max_evidence_bytes_def)
  then show ?thesis
    using modest_fits demo_detail_ok by (simp add: valid_evidence_def text_slot_def demo_instant)
qed

lemma demo_world_parts: "w_sha demo_world = (\<lambda>_. demo_hash)"
  "w_url demo_world = (\<lambda>_. Some \<lparr>url_protocol = ''https:'', url_hostname = ''shop.test'', url_username = [], url_password = []\<rparr>)"
  "w_parse demo_world = (\<lambda>t. map_option js_of (read_json t))"
  by (simp_all add: demo_world_def reader_world_def)

lemma demo_resource_ok: "validate_resource (w_url demo_world) (js_of (JObj [(''url'', JStr ''https://shop.test/report'')]))"
  by (simp add: validate_resource_def snapshot_resource_def js_members_def exact_data_object_obj optional_member_def
      present_text_def satisfying_def demo_world_parts http_url_def bind_eq_Some_conv)

lemma demo_journal_digest: "writable 0 v \<Longrightarrow> 2 * extent 0 0 v \<le> max_record_bytes \<Longrightarrow> digest_is (w_sha demo_world) v (JStr demo_hash)"
  by (simp add: digest_is_def digest_fits max_record_bytes_def demo_world_parts)

lemma demo_record_ok:
  assumes "journal_demo_state d c"
  shows "valid_record (w_sha demo_world) (w_url demo_world) (demo_record d c)"
proof -
  let ?r = "demo_record d c"
  have slots: "slot ''authorizationKey'' ?r = JStr demo_hash" "slot ''transactionHash'' ?r = JStr demo_transaction"
    "slot ''intentDigest'' ?r = JStr demo_hash" "slot ''resourceDigest'' ?r = JStr demo_hash" "slot ''chainProfile'' ?r = demo_chain"
    "slot ''resourceIdentity'' ?r = JObj [(''url'', JStr ''https://shop.test/report'')]" "slot ''payer'' ?r = JStr ''z1qpayer0000''"
    "slot ''signedAccountBlock'' ?r = demo_block" "evidence_of ?r = JStr ''MOMENTUM_INCLUDED''" "delivery_of ?r = JStr d"
    "slot ''evidenceState'' ?r = JStr ''MOMENTUM_INCLUDED''" "slot ''deliveryState'' ?r = JStr d" "slot ''cachedResponse'' ?r = c"
    "slot ''createdAt'' ?r = JStr demo_time" "slot ''updatedAt'' ?r = JStr demo_time"
    "slot ''momentumEvidence'' ?r = JObj [(''observedAt'', JStr demo_time), (''confirmationDetail'', demo_detail)]"
    by (simp_all add: demo_record_def evidence_of_def delivery_of_def)
  have keys: "exact_keys record_fields ?r" by (simp add: demo_record_def record_fields_def)
  have resource: "digest_is (w_sha demo_world) (JObj [(''url'', JStr ''https://shop.test/report'')]) (JStr demo_hash)"
    by (intro demo_journal_digest) (simp_all add: max_json_depth_def max_record_bytes_def)
  have authorization: "digest_is (w_sha demo_world) (authorization_json ?r) (JStr demo_hash)"
    unfolding authorization_json_def slots
    by (intro demo_journal_digest) (simp_all add: demo_chain_def max_json_depth_def max_record_bytes_def demo_lengths safe_range_def max_safe_def)
  have states: "d \<in> set delivery_states" "''MOMENTUM_INCLUDED'' \<in> set evidence_states"
    using assms by (auto elim: demo_cases simp: delivery_states_def evidence_states_def)
  have cached: "if JStr d = JStr ''DELIVERED'' then clone_fits max_cached_response_bytes c else c = JNull"
  proof -
    have "modest max_cached_response_bytes (JBool True)"
      by (simp add: modest_def max_cached_response_bytes_def max_json_depth_def check_json.simps)
    then show ?thesis using assms modest_fits by (auto elim: demo_cases)
  qed
  show ?thesis
    unfolding valid_record_def slots
    using keys resource authorization states cached demo_resource_ok demo_chain_ok demo_block_ok demo_evidence_ok demo_instant
      modest_fits [OF demo_modest [OF assms]]
    by (simp add: hash_test_def demo_hash_hex text_slot_def slots long_text_def text_le_def)
qed

end
