(* ===== verification/Journal_Demo_Run.thy ===== *)
theory Journal_Demo_Run
  imports Journal_Demo
begin

text \<open>
  The payment of the example is claimed and delivered: what the two calls do on the directory.
\<close>

section \<open>The journal is valid\<close>

lemma demo_journal_parts:
  "journal_records (demo_journal n r) = JObj [(demo_key, r)]" "journal_tombstones (demo_journal n r) = None"
  "slot ''schemaVersion'' (demo_journal n r) = JNum 1" "slot ''revision'' (demo_journal n r) = JNum n"
  "slot ''checksum'' (demo_journal n r) = JStr demo_hash"
  by (simp_all add: demo_journal_def journal_records_def journal_tombstones_def)

lemma demo_key_of: "key_of (demo_record d c) = demo_key"
  by (simp add: key_of_def demo_key_def demo_record_def)

lemma demo_writable: "journal_demo_state d c \<Longrightarrow> writable 2 (demo_record d c)"
  by (erule demo_cases) (simp_all add: demo_record_def demo_defs)

lemma demo_key_length: "length demo_key = 129"
  by (simp add: demo_key_def demo_lengths)

lemma demo_valid_structure:
  assumes "journal_demo_state d c" "0 \<le> n" "n \<le> 100"
  shows "valid_structure (w_sha demo_world) (w_url demo_world) (cf_maxRecords demo_config) (demo_journal n (demo_record d c))"
  using demo_record_ok [OF assms(1)] assms(2,3)
  by (simp add: valid_structure_def demo_journal_parts record_list_def tombstone_list_def journal_fields_def
      demo_config_def demo_key_of seen_before_def hash_test_def demo_hash_hex int_slot_def safe_range_def max_safe_def)
    (simp add: demo_journal_def)

lemma demo_checksum:
  assumes "journal_demo_state d c" "0 \<le> n" "n \<le> 100"
  shows "checksum_for (w_sha demo_world) (cf_maxBytes demo_config) (demo_journal n (demo_record d c)) = Inr demo_hash"
proof -
  have "checksum_content (demo_journal n (demo_record d c))
      = JObj [(''schemaVersion'', JNum 1), (''revision'', JNum n), (''records'', JObj [(demo_key, demo_record d c)])]"
    by (simp add: checksum_content_def demo_journal_parts)
  then show ?thesis
    using demo_extent(4) [OF assms(1), unfolded numeral_2_eq_2] demo_writable [OF assms(1), unfolded numeral_2_eq_2] assms(2,3)
    by (simp add: checksum_for_def digest_fits demo_world_parts demo_config_def max_json_depth_def demo_key_length
        safe_range_def max_safe_def)
qed

lemma demo_valid_journal:
  assumes "journal_demo_state d c" "0 \<le> n" "n \<le> 100"
  shows "valid_journal (w_sha demo_world) (w_url demo_world) (cf_maxRecords demo_config) (cf_maxBytes demo_config)
    (demo_journal n (demo_record d c))"
  using demo_valid_structure [OF assms] demo_checksum [OF assms]
  by (simp add: valid_journal_def demo_journal_parts)

lemma demo_encode:
  assumes "journal_demo_state d c" "0 \<le> n" "n \<le> 100"
  shows "writable 0 (demo_journal n (demo_record d c))"
    "encode_journal demo_config (demo_journal n (demo_record d c)) = Inr (layout 2 0 (demo_journal n (demo_record d c)) @ [CHR 0x0A])"
proof -
  show w: "writable 0 (demo_journal n (demo_record d c))"
    using demo_writable [OF assms(1), unfolded numeral_2_eq_2] assms(2,3)
    by (simp add: demo_journal_def max_json_depth_def safe_range_def max_safe_def)
  have "extent 2 (Suc (Suc 0)) (demo_record d c) \<le> 30000"
    using demo_extent(3) [OF assms(1)] by (simp only: numeral_2_eq_2)
  then have "extent 2 0 (demo_journal n (demo_record d c)) \<le> 40000"
    by (simp add: demo_journal_def demo_key_length demo_lengths)
  then show "encode_journal demo_config (demo_journal n (demo_record d c)) = Inr (layout 2 0 (demo_journal n (demo_record d c)) @ [CHR 0x0A])"
    by (intro encode_fits w) (simp add: demo_config_def)
qed

definition demo_file :: "json \<Rightarrow> node" where
  "demo_file data = Regular (layout 2 0 data @ [CHR 0x0A])"

definition demo_disk :: "json \<Rightarrow> disk" where
  "demo_disk data = \<lparr>dk_journal = demo_file data, dk_marker = Regular [], dk_leftover = 0\<rparr>"

definition demo_journal_site :: "json \<Rightarrow> site" where
  "demo_journal_site data = \<lparr>st_disk = demo_disk data, st_script = []\<rparr>"

lemma demo_reads_back: "reads_back demo_world"
  unfolding demo_world_def by (rule reader_world_reads_back)

lemma demo_journal_content:
  assumes "journal_demo_state d c" "0 \<le> n" "n \<le> 100"
  shows "content demo_world (demo_file (demo_journal n (demo_record d c))) = Some (demo_journal n (demo_record d c))"
  unfolding demo_file_def
  using demo_reads_back valid_journal_distinct [OF demo_valid_journal [OF assms]] demo_encode(2) [OF assms]
  by (rule encoded_content)

section \<open>Reading and writing\<close>

text \<open>Without failures a call to the operating system changes the directory and nothing else.\<close>

lemma syscall_works [simp]: "syscall e f \<lparr>st_disk = d, st_script = []\<rparr> = (\<lparr>st_disk = f d, st_script = []\<rparr>, Inr ())"
  by (simp add: syscall_def next_outcome_def)

lemma demo_has_marker: "has_marker (demo_journal_site data) = (demo_journal_site data, Inr True)"
  by (simp add: demo_journal_site_def demo_disk_def has_marker_def run_defs)

lemma demo_journal_decode:
  assumes "journal_demo_state d c" "0 \<le> n" "n \<le> 100"
  shows "decode_journal demo_world demo_config (layout 2 0 (demo_journal n (demo_record d c)) @ [CHR 0x0A]) = Some (demo_journal n (demo_record d c))"
proof -
  have "utf8_bytes (layout 2 0 (demo_journal n (demo_record d c)) @ [CHR 0x0A]) \<le> cf_maxBytes demo_config"
    using demo_encode(2) [OF assms] by (auto simp: encode_journal_def split: sum.splits snapshot_error.splits if_splits)
  then show ?thesis
    using demo_journal_content [OF assms] demo_valid_journal [OF assms]
    by (simp add: decode_journal_def content_def demo_file_def bind_eq_Some_conv)
qed

lemma demo_read:
  assumes "journal_demo_state d c" "0 \<le> n" "n \<le> 100"
  shows "read_journal demo_world demo_config (demo_journal_site (demo_journal n (demo_record d c)))
    = (demo_journal_site (demo_journal n (demo_record d c)), Inr (demo_journal n (demo_record d c)))"
proof -
  let ?data = "demo_journal n (demo_record d c)" and ?t = "layout 2 0 (demo_journal n (demo_record d c)) @ [CHR 0x0A]"
  have d: "decode_journal demo_world demo_config ?t = Some ?data" using assms by (rule demo_journal_decode)
  then have u: "utf8_bytes ?t \<le> cf_maxBytes demo_config" by (auto simp: decode_journal_def bind_eq_Some_conv)
  have e: "cf_existing demo_config" by (simp add: demo_config_def)
  show ?thesis
    unfolding read_journal_def andthen_def [of has_marker] demo_has_marker prod.case sum.case
    using d u e by (simp add: demo_journal_site_def demo_disk_def demo_file_def run_defs del: utf8_append)
qed

lemma demo_seal:
  assumes "journal_demo_state d c" "journal_demo_state d' c'" "0 \<le> n" "n < 100"
  shows "sealed demo_world demo_config (bump_revision (put_record demo_key (demo_record d' c') (demo_journal n (demo_record d c))))
    = Inr (demo_journal (n + 1) (demo_record d' c'))"
proof -
  have b: "bump_revision (put_record demo_key (demo_record d' c') (demo_journal n (demo_record d c))) = demo_journal (n + 1) (demo_record d' c')"
    by (simp add: bump_revision_def put_record_def demo_journal_parts) (simp add: demo_journal_def set_entry_def int_at_def)
  have n: "0 \<le> n + 1" "n + 1 \<le> 100" using assms(3,4) by simp_all
  have "set_entry ''checksum'' (JStr demo_hash) (demo_journal (n + 1) (demo_record d' c')) = demo_journal (n + 1) (demo_record d' c')"
    by (simp add: demo_journal_def set_entry_def)
  then show ?thesis
    unfolding b sealed_def
    using demo_valid_structure [OF assms(2) n] demo_checksum [OF assms(2) n] demo_valid_journal [OF assms(2) n]
    by (simp add: Let_def)
qed

lemma demo_write:
  assumes "journal_demo_state d c" "journal_demo_state d' c'" "0 \<le> n" "n < 100"
  shows "write_journal demo_world demo_config (bump_revision (put_record demo_key (demo_record d' c') (demo_journal n (demo_record d c))))
      (demo_journal_site (demo_journal n (demo_record d c)))
    = (demo_journal_site (demo_journal (n + 1) (demo_record d' c')), Inr ())"
proof -
  have n: "0 \<le> n + 1" "n + 1 \<le> 100" using assms(3,4) by simp_all
  have e: "cf_existing demo_config" by (simp add: demo_config_def)
  have marker: "require_marker (demo_journal_site data) = (demo_journal_site data, Inr ())" for data
    by (simp add: require_marker_def andthen_def demo_has_marker assure_def)
  have check: "check_existing (demo_journal_site data) = (demo_journal_site data, Inr ())" for data
    by (simp add: check_existing_def demo_journal_site_def demo_disk_def demo_file_def run_defs)
  have replace: "replace_file (layout 2 0 data' @ [CHR 0x0A]) (demo_journal_site data) = (demo_journal_site data', Inr ())" for data data'
    by (simp add: replace_file_def guarded_step_def on_error_def demo_journal_site_def demo_disk_def demo_file_def run_defs)
  have sync: "syscall e id (demo_journal_site data) = (demo_journal_site data, Inr ())" for e data
    by (simp add: demo_journal_site_def)
  show ?thesis
    unfolding write_journal_def demo_seal [OF assms]
    using e marker check replace sync demo_encode(2) [OF assms(2) n]
    by (simp add: andthen_def lift_sum_def)
qed

section \<open>The claim\<close>

definition demo_requirement :: requirement where
  "demo_requirement = \<lparr>rq_network = Testnet, rq_asset = ''zts1token000'', rq_amount = ''5'', rq_payTo = ''z1qseller000'',
     rq_timeout = 60, rq_upfront = True, rq_chain = \<lparr>ch_identifier = ''3'', ch_genesis = demo_hash\<rparr>, rq_minimum = Some 2\<rparr>"

definition demo_accepted :: jsval where
  "demo_accepted = js_of (requirement_json demo_requirement)"

lemma demo_requirement_ok: "requirement_ok demo_requirement"
proof -
  have "positive_decimal ''5''" "positive_decimal ''3''" "decimal_value ''5'' = 5" "decimal_value ''3'' = 3"
    by (simp_all add: positive_decimal_def is_digit_def code_def decimal_value_def digit_value_def)
  moreover have "demo_hash \<noteq> replicate 64 (CHR ''0'')" by (simp add: demo_hash_def)
  ultimately show ?thesis
    by (simp add: requirement_ok_def demo_requirement_def wire_amount_def wire_chain_ok_def demo_hash_hex mock_wire_chain_def
        max_safe_def max_zenon_amount_def)
qed

lemma demo_snapshot: "snapshot_requirement True demo_accepted = Some demo_requirement"
  "snapshot_requirement True (js_of (requirement_json demo_requirement)) = Some demo_requirement"
  using demo_requirement_ok unfolding demo_accepted_def by (intro snapshot_read_back; simp add: demo_requirement_def)+

lemma demo_intent: "intent_digest demo_world (demo_record d c) demo_requirement = Inr demo_hash"
proof -
  have "writable 0 (intent_json (demo_record d c) demo_requirement) \<and> 2 * extent 0 0 (intent_json (demo_record d c) demo_requirement) \<le> max_record_bytes"
    by (simp add: intent_json_def demo_record_def requirement_json_def extra_json_def chain_json_def demo_requirement_def
        max_json_depth_def safe_range_def max_safe_def max_record_bytes_def demo_lengths)
  then show ?thesis by (simp add: intent_digest_def digest_fits demo_world_parts max_record_bytes_def)
qed

lemma demo_next_time: "next_timestamp (VStr demo_time) (demo_record d c) s = (s, Inr demo_time)"
  by (simp add: next_timestamp_def current_time_def run_defs satisfying_def demo_instant later_text_def text_at_def demo_record_def)

lemma demo_cloned: "journal_demo_state d c \<Longrightarrow> cloned (demo_record d c) s = (s, Inr (demo_record d c))"
  by (simp add: cloned_def lift_sum_def modest_clone demo_modest)

lemma demo_record_at: "record_at demo_key (demo_journal n r) = Some r"
  by (simp add: record_at_def demo_journal_parts)

lemma demo_record_key: "record_key demo_hash demo_transaction = Inr demo_key"
  by (simp add: record_key_def demo_hash_hex demo_key_def)

lemma demo_sync: "syscall e id (demo_journal_site data) = (demo_journal_site data, Inr ())"
  by (simp add: demo_journal_site_def)

lemma demo_changes:
  "set_entry ''updatedAt'' (JStr demo_time) (set_entry ''deliveryState'' (JStr ''DELIVERY_PENDING'') (demo_record ''NONE'' JNull))
    = demo_record ''DELIVERY_PENDING'' JNull"
  "set_entry ''updatedAt'' (JStr demo_time) (set_entry ''cachedResponse'' (JBool True) (set_entry ''deliveryState'' (JStr ''DELIVERED'')
    (demo_record ''DELIVERY_PENDING'' JNull))) = demo_record ''DELIVERED'' (JBool True)"
  by (simp_all add: demo_record_def set_entry_def)

lemma demo_record_slots:
  "slot ''intentDigest'' (demo_record d c) = JStr demo_hash" "evidence_of (demo_record d c) = JStr ''MOMENTUM_INCLUDED''"
  "delivery_of (demo_record d c) = JStr d" "int_at ''numConfirmations'' (detail_of (demo_record d c)) = 5"
  by (simp_all add: demo_record_def evidence_of_def delivery_of_def detail_of_def demo_detail_def int_at_def)

lemma demo_states: "journal_demo_state ''NONE'' JNull" "journal_demo_state ''DELIVERY_PENDING'' JNull" "journal_demo_state ''DELIVERED'' (JBool True)"
  by (simp_all add: journal_demo_state_def)

lemma demo_save:
  assumes "journal_demo_state d c" "journal_demo_state d' c'" "0 \<le> n" "n < 100"
  shows "save_and_reply demo_world demo_config demo_key (demo_record d' c') (demo_journal n (demo_record d c)) (demo_journal_site (demo_journal n (demo_record d c)))
    = (demo_journal_site (demo_journal (n + 1) (demo_record d' c')), Inr (demo_record d' c'))"
  using demo_record_ok [OF assms(2)] demo_write [OF assms] demo_cloned [OF assms(2)]
  by (simp add: save_and_reply_def store_record_def andthen_def assure_def)

definition demo_paid :: disk where
  "demo_paid = demo_disk (demo_journal 0 (demo_record ''NONE'' JNull))"

definition demo_claimed :: disk where
  "demo_claimed = demo_disk (demo_journal 1 (demo_record ''DELIVERY_PENDING'' JNull))"

definition demo_done :: disk where
  "demo_done = demo_disk (demo_journal 2 (demo_record ''DELIVERED'' (JBool True)))"

definition demo_claim :: journal_input where
  "demo_claim = (demo_config, MarkDeliveryPending demo_hash demo_transaction demo_accepted (VStr demo_time), [])"

definition demo_deliver :: journal_input where
  "demo_deliver = (demo_config, MarkDelivered demo_hash demo_transaction (VBool True) (VStr demo_time), [])"

lemma demo_claim_runs:
  "perform_on demo_world demo_claim demo_paid = (\<lparr>st_disk = demo_claimed, st_script = []\<rparr>,
     Inr (set_entry ''deliveryClaimed'' (JBool True) (demo_record ''DELIVERY_PENDING'' JNull)))"
proof -
  have site: "\<lparr>st_disk = demo_disk data, st_script = []\<rparr> = demo_journal_site data" for data by (simp add: demo_journal_site_def)
  have read: "read_journal demo_world demo_config (demo_journal_site (demo_journal 0 (demo_record ''NONE'' JNull)))
      = (demo_journal_site (demo_journal 0 (demo_record ''NONE'' JNull)), Inr (demo_journal 0 (demo_record ''NONE'' JNull)))"
    by (rule demo_read [OF demo_states(1)]) simp_all
  have save: "save_and_reply demo_world demo_config demo_key (demo_record ''DELIVERY_PENDING'' JNull)
      (demo_journal 0 (demo_record ''NONE'' JNull)) (demo_journal_site (demo_journal 0 (demo_record ''NONE'' JNull)))
      = (demo_journal_site (demo_journal 1 (demo_record ''DELIVERY_PENDING'' JNull)), Inr (demo_record ''DELIVERY_PENDING'' JNull))"
    using demo_save [OF demo_states(1,2), of 0] by simp
  show ?thesis
    unfolding perform_on_def demo_claim_def prod.case perform.simps mark_delivery_pending_def with_writer_def demo_paid_def demo_claimed_def site
    by (simp add: andthen_def demand_def demo_snapshot demo_sync read lift_sum_def demo_record_key demo_record_at assure_def
        demo_record_ok [OF demo_states(1)] demo_intent demo_record_slots minimum_confirmations_def demo_requirement_def [THEN arg_cong, of rq_minimum]
        demo_next_time demo_changes save yield_def)
qed

lemma demo_deliver_runs:
  "perform_on demo_world demo_deliver demo_claimed = (\<lparr>st_disk = demo_done, st_script = []\<rparr>, Inr (demo_record ''DELIVERED'' (JBool True)))"
proof -
  have site: "\<lparr>st_disk = demo_disk data, st_script = []\<rparr> = demo_journal_site data" for data by (simp add: demo_journal_site_def)
  have read: "read_journal demo_world demo_config (demo_journal_site (demo_journal 1 (demo_record ''DELIVERY_PENDING'' JNull)))
      = (demo_journal_site (demo_journal 1 (demo_record ''DELIVERY_PENDING'' JNull)), Inr (demo_journal 1 (demo_record ''DELIVERY_PENDING'' JNull)))"
    by (rule demo_read [OF demo_states(2)]) simp_all
  have save: "save_and_reply demo_world demo_config demo_key (demo_record ''DELIVERED'' (JBool True))
      (demo_journal 1 (demo_record ''DELIVERY_PENDING'' JNull)) (demo_journal_site (demo_journal 1 (demo_record ''DELIVERY_PENDING'' JNull)))
      = (demo_journal_site (demo_journal 2 (demo_record ''DELIVERED'' (JBool True))), Inr (demo_record ''DELIVERED'' (JBool True)))"
    using demo_save [OF demo_states(2,3), of 1] by simp
  have response: "clone_json max_cached_response_bytes (VBool True) = Inr (JBool True)"
  proof -
    have "modest max_cached_response_bytes (JBool True)"
      by (simp add: modest_def max_cached_response_bytes_def max_json_depth_def check_json.simps)
    from modest_clone [OF this] show ?thesis by simp
  qed
  show ?thesis
    unfolding perform_on_def demo_deliver_def prod.case perform.simps mark_delivered_def with_writer_def demo_claimed_def demo_done_def site
    by (simp add: andthen_def demand_def response demo_sync read lift_sum_def demo_record_key demo_record_at assure_def
        demo_record_slots demo_next_time demo_changes save)
qed

end
