(* ===== verification/Journal_Properties.thy ===== *)
theory Journal_Properties
  imports Journal_Absence Journal_Demo_Run
begin

text \<open>
  The properties of the settlement journal and of the messages it rests on. A run is a list of calls,
  each with its own limits and its own script of the operating system: any call may fail at any
  point, and the process may end at any point and start again.
\<close>

section \<open>What is stored\<close>

lemma run_keeps_record:
  assumes "reads_back w" "stored_journal w d = Some a" "record_at k a = Some r"
  shows "\<exists>b. stored_journal w (run (journal_step w) xs d) = Some b
    \<and> ((\<exists>r'. record_at k b = Some r' \<and> record_advances r r')
       \<or> record_at k b = None \<and> (\<exists>x. tombstone_at k b = Some x \<and> buried r x))"
proof -
  obtain b where b: "stored_journal w (run (journal_step w) xs d) = Some b" "advances a b"
    using run_advances [OF assms(1,2)] by blast
  then show ?thesis using advancesD(2) [OF b(2) assms(3)] by blast
qed

text \<open>C34: A record in the journal is never lost and only moves forward. After any sequence of calls,
  with any failures and crashes, the file is readable, and under the same key there is either the
  record with the same identity, an evidence state and a delivery state at least as high, the same
  inclusion with at least as many confirmations and the same delivered response, or the tombstone
  of a payment that had neither inclusion nor delivery and was kept for an hour at least.
\<close>

theorem stored_records_move_forward:
  assumes "reads_back w" "stored_journal w d = Some a" "record_at k a = Some r"
  shows "\<exists>b. stored_journal w (run (journal_step w) xs d) = Some b
    \<and> ((\<exists>r'. record_at k b = Some r' \<and> record_advances r r')
       \<or> record_at k b = None \<and> (\<exists>x. tombstone_at k b = Some x \<and> buried r x))"
  using assms by (rule run_keeps_record)

lemma demo_journal_stored: "stored_journal demo_world demo_paid = Some (demo_journal 0 (demo_record ''NONE'' JNull))"
  "stored_journal demo_world demo_claimed = Some (demo_journal 1 (demo_record ''DELIVERY_PENDING'' JNull))"
  "stored_journal demo_world demo_done = Some (demo_journal 2 (demo_record ''DELIVERED'' (JBool True)))"
  using demo_journal_content [OF demo_states(1), of 0] demo_journal_content [OF demo_states(2), of 1] demo_journal_content [OF demo_states(3), of 2]
  by (simp_all add: stored_journal_def demo_paid_def demo_claimed_def demo_done_def demo_disk_def)

theorem stored_records_move_forward_witness:
  "\<exists>b. stored_journal demo_world (run (journal_step demo_world) [demo_claim, demo_deliver] demo_paid) = Some b
    \<and> ((\<exists>r'. record_at demo_key b = Some r' \<and> record_advances (demo_record ''NONE'' JNull) r')
       \<or> record_at demo_key b = None \<and> (\<exists>x. tombstone_at demo_key b = Some x \<and> buried (demo_record ''NONE'' JNull) x))"
  by (rule stored_records_move_forward [OF demo_reads_back demo_journal_stored(1) demo_record_at])

section \<open>Claims\<close>

text \<open>How often the delivery of a payment was claimed in a run.\<close>

fun claim_of :: "string \<Rightarrow> string \<Rightarrow> journal_call \<Rightarrow> bool" where
  "claim_of a t (MarkDeliveryPending a' t' _ _) \<longleftrightarrow> a' = a \<and> t' = t"
| "claim_of a t _ \<longleftrightarrow> False"

definition claims :: "world \<Rightarrow> string \<Rightarrow> string \<Rightarrow> journal_input \<Rightarrow> disk \<Rightarrow> bool" where
  "claims w a t x d \<longleftrightarrow> claim_of a t (fst (snd x))
     \<and> (case journal_reply w x d of Inl _ \<Rightarrow> False | Inr v \<Rightarrow> claim_reply v)"

fun claim_count :: "world \<Rightarrow> string \<Rightarrow> string \<Rightarrow> journal_input list \<Rightarrow> disk \<Rightarrow> nat" where
  "claim_count w a t [] d = 0"
| "claim_count w a t (x # xs) d = (if claims w a t x d then 1 else 0) + claim_count w a t xs (journal_step w x d)"

definition taken :: "world \<Rightarrow> string \<Rightarrow> disk \<Rightarrow> bool" where
  "taken w k d \<longleftrightarrow> (\<exists>data r. stored_journal w d = Some data \<and> record_at k data = Some r \<and> delivery_rank (delivery_of r) \<noteq> 0)"

lemma taken_stays:
  assumes "reads_back w" "taken w k d"
  shows "taken w k (journal_step w x d)"
proof -
  obtain data r where r: "stored_journal w d = Some data" "record_at k data = Some r" "delivery_rank (delivery_of r) \<noteq> 0"
    using assms(2) by (auto simp: taken_def)
  from run_keeps_record [OF assms(1) r(1,2), of "[x]"] r(3) show ?thesis
    by (auto simp: taken_def record_advances_def buried_def)
qed

lemma claim_facts:
  assumes "reads_back w" "perform_on w (c, MarkDeliveryPending a t accepted now, script) d = (s', Inr x)" "claim_reply x"
  shows "claimed_now w a t accepted (dk_journal d) (dk_journal (st_disk s')) x"
proof -
  have "returns (mark_delivery_pending w c a t accepted now)
     (\<lambda>x u. claim_reply x \<longrightarrow> claimed_now w a t accepted (dk_journal d) (file_of u) x) \<lparr>st_disk = d, st_script = script\<rparr>"
    using mark_delivery_pending_claims [OF assms(1), of c a t accepted now "\<lparr>st_disk = d, st_script = script\<rparr>"] by simp
  then show ?thesis using assms(2,3) by (auto simp: perform_on_def dest!: returns_result)
qed

lemma claims_step:
  assumes w: "reads_back w" and c: "claims w a t x d"
  shows "\<exists>k. record_key a t = Inr k \<and> \<not> taken w k d \<and> taken w k (journal_step w x d)"
proof -
  obtain c accepted now script where x: "x = (c, MarkDeliveryPending a t accepted now, script)"
    using c by (cases x; cases "fst (snd x)") (auto simp: claims_def)
  obtain s' v where p: "perform_on w x d = (s', Inr v)" "claim_reply v"
    using c by (cases "perform_on w x d") (auto simp: claims_def journal_reply_def split: sum.splits)
  from claim_facts [OF w p(1) [unfolded x] p(2)]
  obtain k data r q at' data' where k: "record_key a t = Inr k" "dk_journal d \<noteq> Missing \<longrightarrow> content w (dk_journal d) = Some data"
    "record_at k data = Some r" "claimable w q r" "content w (dk_journal (st_disk s')) = Some data'" "record_at k data' = Some (pending at' r)"
    unfolding claimed_now_def by blast
  have "\<not> taken w k d"
    using k by (auto simp: taken_def stored_journal_def claimable_def)
  moreover have "taken w k (journal_step w x d)"
    using k by (auto simp: taken_def stored_journal_def journal_step_def p pending_def delivery_of_def delivery_rank_def)
  ultimately show ?thesis using k(1) by blast
qed

lemma taken_no_claims: "reads_back w \<Longrightarrow> taken w k d \<Longrightarrow> record_key a t = Inr k \<Longrightarrow> claim_count w a t xs d = 0"
  by (induction xs arbitrary: d) (use claims_step taken_stays in fastforce)+

text \<open>C35: The delivery of a payment is claimed at most once: over any sequence of calls, with failures
  and restarts anywhere, at most one \<open>markDeliveryPending\<close> for it answers \<open>deliveryClaimed: true\<close>.
\<close>

theorem delivery_claimed_once:
  assumes "reads_back w"
  shows "claim_count w a t xs d \<le> 1"
proof (induction xs arbitrary: d)
  case (Cons x xs)
  show ?case
  proof (cases "claims w a t x d")
    case True
    then obtain k where "record_key a t = Inr k" "taken w k (journal_step w x d)"
      using claims_step [OF assms] by blast
    then show ?thesis using taken_no_claims [OF assms] True by simp
  next
    case False
    then show ?thesis using Cons by simp
  qed
qed simp

theorem delivery_claimed_once_witness:
  "claims demo_world demo_hash demo_transaction demo_claim demo_paid
    \<and> claim_count demo_world demo_hash demo_transaction [demo_claim, demo_claim, demo_deliver, demo_claim] demo_paid \<le> 1"
  using delivery_claimed_once [OF demo_reads_back] demo_claim_runs
  by (simp add: claims_def journal_reply_def demo_claim_def claim_reply_def del: claim_count.simps)

text \<open>C36: A claim is sound: when \<open>markDeliveryPending\<close> answers \<open>deliveryClaimed: true\<close>, the record was a
  valid one without delivery whose inclusion has at least the confirmations that the accepted
  requirement asks for, whose intent digest is the digest of exactly this resource and this
  requirement, and it is now stored as \<open>DELIVERY_PENDING\<close> and otherwise unchanged.
\<close>

theorem delivery_claim_is_sound:
  assumes "reads_back w" "perform_on w (c, MarkDeliveryPending a t accepted now, script) d = (s', Inr x)" "claim_reply x"
  shows "\<exists>k r q at' b. record_key a t = Inr k \<and> snapshot_requirement True accepted = Some q
    \<and> valid_record (w_sha w) (w_url w) r \<and> delivery_of r = JStr ''NONE'' \<and> evidence_of r = JStr ''MOMENTUM_INCLUDED''
    \<and> minimum_confirmations q \<le> int_at ''numConfirmations'' (detail_of r)
    \<and> slot ''intentDigest'' r = JStr (w_sha w (canonical_json (JObj [(''x402Version'', JNum 2),
        (''resource'', slot ''resourceIdentity'' r), (''accepted'', requirement_json q)])))
    \<and> (dk_journal d \<noteq> Missing \<longrightarrow> (\<exists>old. stored_journal w d = Some old \<and> record_at k old = Some r))
    \<and> stored_journal w (st_disk s') = Some b \<and> record_at k b = Some (pending at' r)
    \<and> x = set_entry ''deliveryClaimed'' (JBool True) (pending at' r)"
  using claim_facts [OF assms] unfolding claimed_now_def claimable_def intent_json_def stored_journal_def by blast

theorem delivery_claim_is_sound_witness:
  "\<exists>k r q at' b. record_key demo_hash demo_transaction = Inr k \<and> snapshot_requirement True demo_accepted = Some q
    \<and> valid_record (w_sha demo_world) (w_url demo_world) r \<and> delivery_of r = JStr ''NONE'' \<and> evidence_of r = JStr ''MOMENTUM_INCLUDED''
    \<and> minimum_confirmations q \<le> int_at ''numConfirmations'' (detail_of r)
    \<and> stored_journal demo_world demo_claimed = Some b \<and> record_at k b = Some (pending at' r)"
proof -
  have "perform_on demo_world (demo_config, MarkDeliveryPending demo_hash demo_transaction demo_accepted (VStr demo_time), []) demo_paid
      = (\<lparr>st_disk = demo_claimed, st_script = []\<rparr>, Inr (set_entry ''deliveryClaimed'' (JBool True) (demo_record ''DELIVERY_PENDING'' JNull)))"
    using demo_claim_runs by (simp only: demo_claim_def)
  from delivery_claim_is_sound [OF demo_reads_back this] show ?thesis
    by (simp add: claim_reply_def) blast
qed

section \<open>Deliveries\<close>

text \<open>C37: A delivered response is kept. When \<open>markDelivered\<close> returns, the response it was given, up to
  the order of keys, is the cached one, and after any further calls, failures and restarts the
  record is still there, \<open>DELIVERED\<close>, with the same cached response.
\<close>

theorem delivered_response_is_kept:
  assumes "reads_back w" "perform_on w (c, MarkDelivered a t response now, script) d = (s', Inr x)"
  shows "\<exists>k cached. record_key a t = Inr k \<and> clone_json max_cached_response_bytes response = Inr cached
    \<and> sort_keys (slot ''cachedResponse'' x) = sort_keys cached
    \<and> (\<forall>xs. \<exists>b r. stored_journal w (run (journal_step w) xs (st_disk s')) = Some b \<and> record_at k b = Some r
        \<and> delivery_of r = JStr ''DELIVERED'' \<and> slot ''cachedResponse'' r = slot ''cachedResponse'' x)"
proof -
  have "perform w c (MarkDelivered a t response now) \<lparr>st_disk = d, st_script = script\<rparr> = (s', Inr x)"
    using assms(2) by (simp add: perform_on_def)
  with returns_result [OF mark_delivered_stores [OF assms(1)]]
  obtain k data cached where k: "record_key a t = Inr k" "clone_json max_cached_response_bytes response = Inr cached"
    and data: "stored_journal w (st_disk s') = Some data" "record_at k data = Some x" and x: "delivery_of x = JStr ''DELIVERED''"
    and cached: "sort_keys (slot ''cachedResponse'' x) = sort_keys cached"
    unfolding stored_journal_def by (metis perform.simps(14))
  have "\<exists>b r. stored_journal w (run (journal_step w) xs (st_disk s')) = Some b \<and> record_at k b = Some r
        \<and> delivery_of r = JStr ''DELIVERED'' \<and> slot ''cachedResponse'' r = slot ''cachedResponse'' x" for xs
  proof -
    have "\<not> buried x y" for y using x by (simp add: buried_def delivery_rank_def)
    with run_keeps_record [OF assms(1) data, of xs] obtain b r where
      "stored_journal w (run (journal_step w) xs (st_disk s')) = Some b" "record_at k b = Some r" "record_advances x r" by blast
    moreover from this(3) have "slot ''cachedResponse'' r = slot ''cachedResponse'' x" using x by (simp add: record_advances_def)
    ultimately show ?thesis using delivered_up x by blast
  qed
  with k cached show ?thesis by blast
qed

theorem delivered_response_is_kept_witness:
  "\<exists>b r. stored_journal demo_world (run (journal_step demo_world) [demo_claim, demo_deliver] demo_done) = Some b \<and> record_at demo_key b = Some r
     \<and> delivery_of r = JStr ''DELIVERED'' \<and> slot ''cachedResponse'' r = JBool True"
proof -
  have "perform_on demo_world (demo_config, MarkDelivered demo_hash demo_transaction (VBool True) (VStr demo_time), []) demo_claimed
      = (\<lparr>st_disk = demo_done, st_script = []\<rparr>, Inr (demo_record ''DELIVERED'' (JBool True)))"
    using demo_deliver_runs by (simp only: demo_deliver_def)
  from delivered_response_is_kept [OF demo_reads_back this]
  obtain k where "record_key demo_hash demo_transaction = Inr k"
    and kept: "\<forall>xs. \<exists>b r. stored_journal demo_world (run (journal_step demo_world) xs demo_done) = Some b \<and> record_at k b = Some r
        \<and> delivery_of r = JStr ''DELIVERED'' \<and> slot ''cachedResponse'' r = slot ''cachedResponse'' (demo_record ''DELIVERED'' (JBool True))"
    unfolding site.select_convs by blast
  moreover have "slot ''cachedResponse'' (demo_record ''DELIVERED'' (JBool True)) = JBool True" by (simp add: demo_record_def)
  ultimately show ?thesis
    using kept [THEN spec, of "[demo_claim, demo_deliver]"] demo_record_key by (simp del: run_simps)
qed

section \<open>The file\<close>

text \<open>C38: Replacing the journal is atomic. However the calls of a write fail and wherever the process
  ends, the file is the old one or reads as the new journal with its checksum, which is valid; it is
  the new one when the write returns, and the old one unless the error is one of those that can
  only follow the replacement.
\<close>

theorem journal_write_is_atomic:
  assumes "reads_back w" "write_journal w c data s = (s', reply)"
  shows "(file_of s' = file_of s
      \<or> (\<exists>h. content w (file_of s') = Some (set_entry ''checksum'' (JStr h) data)
          \<and> valid_journal (w_sha w) (w_url w) (cf_maxRecords c) (cf_maxBytes c) (set_entry ''checksum'' (JStr h) data)))
    \<and> (reply = Inr () \<longrightarrow> (\<exists>h. content w (file_of s') = Some (set_entry ''checksum'' (JStr h) data)))
    \<and> (\<forall>e. reply = Inl e \<longrightarrow> late_error e \<or> file_of s' = file_of s)"
proof -
  have "case reply of Inl e \<Rightarrow> file_of s' = file_of s \<or> written w c data (file_of s') | Inr v \<Rightarrow> written w c data (file_of s')"
    using write_journal_wp [of w c data s] assms(2) by (simp add: wpre_def split: sum.splits)
  moreover have "case reply of Inl e \<Rightarrow> file_of s' = file_of s \<or> late_error e | Inr v \<Rightarrow> True"
    using write_errors [of w c data s] assms(2) by (simp add: wpre_def split: sum.splits)
  ultimately show ?thesis
    using written_content [OF assms(1), of c data "file_of s'"] by (cases reply) auto
qed

definition demo_next :: json where
  "demo_next = bump_revision (put_record demo_key (demo_record ''DELIVERY_PENDING'' JNull) (demo_journal 0 (demo_record ''NONE'' JNull)))"

theorem journal_write_is_atomic_witness:
  "\<exists>h. content demo_world (file_of (fst (write_journal demo_world demo_config demo_next (demo_journal_site (demo_journal 0 (demo_record ''NONE'' JNull))))))
     = Some (set_entry ''checksum'' (JStr h) demo_next)"
proof -
  have "write_journal demo_world demo_config demo_next (demo_journal_site (demo_journal 0 (demo_record ''NONE'' JNull)))
      = (demo_journal_site (demo_journal 1 (demo_record ''DELIVERY_PENDING'' JNull)), Inr ())"
    using demo_write [OF demo_states(1,2), of 0] by (simp add: demo_next_def)
  from journal_write_is_atomic [OF demo_reads_back this] show ?thesis
    using \<open>write_journal demo_world demo_config demo_next _ = _\<close> by simp
qed

text \<open>C39: A lost journal is never replaced by an empty one. When the file is missing although its marker
  is there, or while only calls in \<open>existingOnly\<close> mode are made, every call fails and nothing on the
  disk changes.
\<close>

theorem lost_journal_stays_lost:
  assumes "dk_journal d = Missing" "dk_marker d \<noteq> Missing \<or> (\<forall>x \<in> set xs. cf_existing (fst x))"
  shows "run (journal_step w) xs d = d \<and> (\<forall>x \<in> set xs. \<exists>e. journal_reply w x d = Inl e)"
proof -
  have each: "journal_step w x d = d \<and> (\<exists>e. journal_reply w x d = Inl e)" if "x \<in> set xs" for x
  proof -
    obtain c call script where x: "x = (c, call, script)" by (cases x)
    have "gone c d" using assms that by (auto simp: gone_def x)
    from perform_refuses [OF this, of w call]
    have "wpre (perform w c call) (\<lambda>_ _. False) (\<lambda>_ u. st_disk u = d) \<lparr>st_disk = d, st_script = script\<rparr>"
      by (simp add: refuses_def)
    then show ?thesis
      by (auto simp: wpre_def journal_step_def journal_reply_def perform_on_def x split: prod.splits sum.splits)
  qed
  moreover have "run (journal_step w) ys d = d" if "set ys \<subseteq> set xs" for ys
    using that by (induction ys) (simp_all add: each)
  ultimately show ?thesis by blast
qed

theorem lost_journal_stays_lost_witness:
  "run (journal_step demo_world) [demo_claim, demo_deliver] \<lparr>dk_journal = Missing, dk_marker = Regular [], dk_leftover = 0\<rparr>
    = \<lparr>dk_journal = Missing, dk_marker = Regular [], dk_leftover = 0\<rparr>"
  using lost_journal_stays_lost [of "\<lparr>dk_journal = Missing, dk_marker = Regular [], dk_leftover = 0\<rparr>" "[demo_claim, demo_deliver]" demo_world]
  by simp

section \<open>Comparing an included record\<close>

text \<open>
  \<open>compareAndUpdateEvidence\<close> refuses every expected record that is included, before it looks at the
  file; so its branch that adds confirmations is never reached.
\<close>

lemma included_evidence_not_compared:
  assumes "cas_options [''expectedRevision'', ''expectedRecord'', ''evidenceState'', ''confirmationDetail''] options = Some v"
    and "evidence_of (slot ''expectedRecord'' v) = JStr ''MOMENTUM_INCLUDED''"
  shows "compare_and_update w c options now s = (s, Inl JournalCompareAndReplaceFailed)"
proof -
  have "\<not> cas_evidence_ok w v"
    using assms(2) by (simp add: cas_evidence_ok_def text_slot_def evidence_of_def prior_states_def)
  then show ?thesis using assms(1) by (simp add: compare_and_update_def satisfying_def andthen_def demand_def)
qed

section \<open>Time stamps\<close>

text \<open>C40: The journal compares time stamps as texts where it orders updates and as milliseconds where it
  computes retention, and the two agree: of two valid time stamps one is the smaller text exactly
  when it is the earlier instant, and different texts are different instants.
\<close>

theorem timestamps_order:
  assumes "valid_timestamp s" "valid_timestamp t"
  shows "(s < t \<longleftrightarrow> parse_millis s < parse_millis t) \<and> (s = t \<longleftrightarrow> parse_millis s = parse_millis t)"
proof -
  have less: "x < y \<longleftrightarrow> parse_millis x < parse_millis y" if xy: "valid_timestamp x" "valid_timestamp y" for x y
  proof -
    obtain i j where ij: "read_instant x = Some i" "read_instant y = Some j"
      using xy by (auto simp: valid_timestamp_def)
    show ?thesis
      using text_order [OF ij] millis_earlier [of i j] read_instant_Some(2,3) [OF ij(1)] read_instant_Some(2,3) [OF ij(2)]
      by (simp add: parse_millis_def ij)
  qed
  show ?thesis
    using less [OF assms] less [OF assms(2,1)] by (metis less_irrefl neq_iff)
qed

theorem timestamps_order_witness:
  "''2024-02-29T23:59:59.999Z'' < ''2024-03-01T00:00:00.000Z'' \<and> parse_millis ''2024-02-29T23:59:59.999Z'' < parse_millis ''2024-03-01T00:00:00.000Z''"
proof -
  have "valid_timestamp ''2024-02-29T23:59:59.999Z''" "valid_timestamp ''2024-03-01T00:00:00.000Z''" by code_simp+
  moreover have "''2024-02-29T23:59:59.999Z'' < ''2024-03-01T00:00:00.000Z''" by (simp add: less_char_def)
  ultimately show ?thesis using timestamps_order by blast
qed

end
