(* ===== verification/Payment_Properties.thy ===== *)
theory Payment_Properties
  imports Journal_Reader Journal_Capacity
begin

text \<open>
  The headers that carry the messages of x402: what was encoded is what is decoded. The UTF-8 decoder
  and \<open>JSON.parse\<close> are parameters; the reader of \<open>Journal_Reader\<close> and the decoder below show that what
  is assumed of them can hold.
\<close>

section \<open>UTF-8\<close>

definition continuation :: "8 word \<Rightarrow> bool" where
  "continuation b \<longleftrightarrow> 128 \<le> b \<and> b < 192"

fun utf8_read :: "bytes \<Rightarrow> string option" where
  "utf8_read [] = Some []"
| "utf8_read (b # bs') = (if b < 128 then map_option (Cons (char_of (unat b))) (utf8_read bs')
     else if 194 \<le> b \<and> b < 196 then (case bs' of
         [] \<Rightarrow> None
       | c # cs \<Rightarrow> if continuation c then map_option (Cons (char_of ((unat b - 192) * 64 + (unat c - 128)))) (utf8_read cs) else None)
     else None)"

lemma utf8_read_encode: "utf8_read (utf8_encode s) = Some s"
proof (induction s)
  case (Cons c s)
  show ?case
  proof (cases "code c < 128")
    case True
    then have "unat (of_nat (code c) :: 8 word) = code c" by (simp add: unat_of_nat)
    moreover from this True have "(of_nat (code c) :: 8 word) < 128" by (simp add: word_less_nat_alt)
    ultimately show ?thesis using True Cons by (simp add: utf8_encode_def)
  next
    case False
    let ?b = "of_nat (192 + code c div 64) :: 8 word" and ?k = "of_nat (128 + code c mod 64) :: 8 word"
    have q: "2 \<le> code c div 64" "code c div 64 < 4" "code c mod 64 < 64"
      using False code_less [of c] by linarith+
    have u: "unat ?b = 192 + code c div 64" "unat ?k = 128 + code c mod 64"
      using q by (simp_all add: unat_of_nat del: of_nat_add)
    then have "\<not> ?b < 128" "194 \<le> ?b" "?b < 196" "continuation ?k"
      using q by (simp_all add: word_less_nat_alt word_le_nat_alt continuation_def del: of_nat_add)
    moreover have "char_of ((unat ?b - 192) * 64 + (unat ?k - 128)) = c"
      by (simp only: u diff_add_inverse div_mult_mod_eq char_of_code)
    ultimately show ?thesis using False Cons by (simp add: utf8_encode_def del: of_nat_add)
  qed
qed (simp add: utf8_encode_def)

section \<open>Headers\<close>

lemma alphabet_ascii: "\<forall>c \<in> set base64_alphabet. code c < 128"
  by code_simp

lemma sextet_ascii: "n < 64 \<Longrightarrow> code (sextet_char n) < 128"
proof -
  assume "n < 64"
  moreover have "length base64_alphabet = 64" by (simp add: base64_alphabet_def)
  ultimately have "base64_alphabet ! n \<in> set base64_alphabet" by (intro nth_mem) simp
  then show ?thesis using alphabet_ascii by (simp only: sextet_char_def)
qed

lemma ascii_bytes_length: "list_all (\<lambda>c. code c < 128) s \<Longrightarrow> utf8_bytes s = length s"
  by (induction s) (simp_all add: utf8_bytes_def)

lemma base64_ascii: "list_all (\<lambda>c. code c < 128) (base64_encode b)"
  by (induction b rule: base64_encode.induct)
    (simp_all add: byte_sextets sextet_ascii b64_pad_def code_def [of "CHR ''=''"])

text \<open>
  What \<open>JSON.parse\<close> and \<open>TextDecoder\<close> do on what was written. Nothing is asked of the parser for
  numbers beyond the safe integers or for keys in an order that no object has.
\<close>

definition parses_back :: "(string \<Rightarrow> jsval option) \<Rightarrow> bool" where
  "parses_back parse \<longleftrightarrow> (\<forall>v. exchangeable v \<longrightarrow> parse (stringify v) = Some (js_of v))"

definition decodes_back :: "(bytes \<Rightarrow> string option) \<Rightarrow> bool" where
  "decodes_back utf8 \<longleftrightarrow> (\<forall>s. utf8 (utf8_encode s) = Some s)"

lemma exchangeable_distinct: "exchangeable v \<Longrightarrow> distinct_keys v"
  by (induction v rule: exchangeable.induct) auto

lemma reader_parses_back: "parses_back (\<lambda>t. map_option js_of (read_json t))"
proof -
  have "read_json (stringify v) = Some v" if "distinct_keys v" for v
  proof -
    have "read_value n ([] @ layout 0 0 v @ []) = Some (v, [])" if "length (layout 0 0 v) \<le> n" for n
      using read_layout [OF \<open>distinct_keys v\<close>, of 0 0] that unfolding reads_def delimited_def by (metis list.pred_inject(1))
    from this [of "length (layout 0 0 v)"] show ?thesis by (simp add: read_json_def layout_compact skip_def)
  qed
  then show ?thesis by (simp add: parses_back_def exchangeable_distinct)
qed

text \<open>C33: A header reads back. Let an object of strings, safe integers, arrays and objects, with its
  keys in the order JavaScript gives them, have a JSON text within the decoded limit and a base64
  text within the encoded one: then \<open>encodeB64Json\<close> succeeds, and \<open>decodeB64Json\<close> with the same limits
  gives that object; the header is a text without characters beyond ASCII.
\<close>

theorem header_reads_back:
  assumes "parses_back parse" "decodes_back utf8" "exchangeable v" "is_object v"
    and "length (utf8_encode (stringify v)) \<le> max_decoded"
    and "within max_encoded (length (base64_encode (utf8_encode (stringify v))))"
  shows "\<exists>t. encode_b64_json max_encoded v = Some t \<and> list_all (\<lambda>c. code c < 128) t
    \<and> decode_b64_json utf8 parse max_decoded max_encoded (VStr t) = Some (js_of v)"
proof -
  let ?b = "utf8_encode (stringify v)"
  obtain kvs where v: "v = JObj kvs" using assms(4) by (cases v) auto
  have "plain_object (js_of v)" by (simp add: v obj_def)
  moreover have "base64_encode ?b \<noteq> []"
  proof
    assume "base64_encode ?b = []"
    then have "?b = []" using base64_decode_encode [of ?b] by simp
    then show False by (simp add: v utf8_encode_def split: if_splits)
  qed
  moreover have "utf8_bytes (base64_encode ?b) = length (base64_encode ?b)"
    by (rule ascii_bytes_length [OF base64_ascii])
  ultimately have "decode_b64_json utf8 parse max_decoded max_encoded (VStr (base64_encode ?b)) = Some (js_of v)"
    using assms by (simp add: decode_b64_json_def present_text_def satisfying_def parses_back_def decodes_back_def Let_def)
  moreover have "encode_b64_json max_encoded v = Some (base64_encode ?b)"
    using assms(6) by (simp add: encode_b64_json_def Let_def)
  ultimately show ?thesis using base64_ascii by blast
qed

lemma utf8_encode_length: "length (utf8_encode s) = utf8_bytes s"
  by (induction s) (simp_all add: utf8_encode_def utf8_bytes_def)

theorem header_reads_back_witness:
  "\<exists>t. encode_b64_json (Some 1000) (JObj [(''x402Version'', JNum 2)]) = Some t \<and> list_all (\<lambda>c. code c < 128) t
    \<and> decode_b64_json utf8_read (\<lambda>t. map_option js_of (read_json t)) 1000 (Some 1000) (VStr t) = Some (js_of (JObj [(''x402Version'', JNum 2)]))"
proof (rule header_reads_back [OF reader_parses_back])
  let ?v = "JObj [(''x402Version'', JNum 2)]"
  show "exchangeable ?v" by (simp add: own_key_order_def safe_range_def max_safe_def)
  have "writable 0 ?v" by (simp add: max_json_depth_def safe_range_def max_safe_def)
  then have "utf8_bytes (layout 0 0 ?v) \<le> 300" by (rule layout_bytes) simp
  then have b: "length (utf8_encode (stringify ?v)) \<le> 300"
    by (simp only: layout_compact utf8_encode_length)
  then show "length (utf8_encode (stringify ?v)) \<le> 1000" by simp
  have "4 * ((length (utf8_encode (stringify ?v)) + 2) div 3) \<le> 1000" using b by linarith
  then show "within (Some 1000) (length (base64_encode (utf8_encode (stringify ?v))))"
    by (simp only: within_def option.case base64_encode_length)
qed (simp_all add: decodes_back_def utf8_read_encode)

end
