(* ===== verification/Spec2Isabelle.thy ===== *)
theory Spec2Isabelle
  imports Service_Credit_Properties Service_Credit_Roundtrip Spending_Properties Price_Properties
    Observer_Properties Payer_Properties Journal_Properties Payment_Properties
begin

text \<open>
  Verification development for the Zenon x402 proof of concept: a service that sells API credit,
  paid by account blocks of the Zenon test network. The development models the parts of the
  program that decide (who may spend what, once), written in the source as pure or single-threaded
  JavaScript modules, and leaves aside the processes, sockets and files around them.

  \<^bold>\<open>The parts of the program and how they interact.\<close> A buyer pays for a grant. Before paying it
  reserves the amount in the journal of original-funding spending, whose limits bound what can be
  lost, and the dynamic-plasma price policy bounds what the block costs. The payment is watched on
  the chain by the funding observer, a state machine fed with pages of momentums; when enough
  confirmations are counted it projects an observation candidate, from which an activation record
  is made elsewhere. The record activates a grant of units in the service-credit model, whose
  requests reserve, execute and settle units. On the paying side, payers are bound to workers by
  the worker admission and to one of two shards by the fixed routing. A resource paid directly is
  asked for and paid in x402 messages, whose parts the wire format validates; the settlement journal
  then keeps, in one file, what is known of the payment on the chain and of the delivery, and
  decides that the resource is delivered once.

  \<^bold>\<open>Theories and sources.\<close> All paths are under \<open>src/src\<close>.
  \<^item> \<open>Prelude\<close>: JavaScript values as the validators see them (prototype, symbol keys, enumerable data
    properties, the kinds of numbers), JSON trees, character classes of the regular expressions,
    readers that give \<open>None\<close> where the source throws. \<open>Programs\<close>: state-passing programs whose state
    survives an exception, their weakest preconditions, and the locales \<open>guarded_machine\<close> and
    \<open>ordered_machine\<close> for all sequences of the operations of a component. \<open>Captured_Records\<close>: the
    member-by-member capture that most modules repeat. \<open>Canonical_JSON\<close>, \<open>JSON_Lemmas\<close>:
    \<open>canonical.js\<close> and its copies, with the proof that the text determines the value.
  \<^item> \<open>Service_Credit_Data\<close>, \<open>_Model\<close>, \<open>_Funding\<close>, \<open>_Export\<close>, \<open>_Step\<close>, \<open>_State\<close>: \<open>service-credit-model.js\<close>,
    the records and their validators, the operations of \<open>InMemoryServiceCreditModel\<close> including the
    clock and pricing callbacks, \<open>readOriginalFundingGrant\<close> (with \<open>service-credit-original-funding-grant.js\<close>),
    \<open>exportState\<close>, all its public methods as one step function, and \<open>fromState\<close>. \<open>_Invariant\<close>, \<open>_Events\<close>, \<open>_Refinement\<close>,
    \<open>_Behaviour\<close>, \<open>_Identity\<close>, \<open>_Hydration\<close>, \<open>_Roundtrip\<close>: the invariant, the abstract
    specification of ten events, the proof that every operation is a sequence of events, and the
    two directions of persistence. \<open>_Scenario\<close>: a concrete run for the witnesses.
  \<^item> \<open>Spending_Reservations\<close>, \<open>_Validity\<close>, \<open>_Limits\<close>, \<open>_Owner\<close>: \<open>original-funding-spending-reservations.js\<close>,
    the journal state, its validation with the limits of every day, and the owner that commits
    through a compare-and-swap. \<open>_Store\<close>, \<open>_Site\<close>, \<open>_System\<close>: the transactions of
    \<open>original-funding-spending-sqlite-store.js\<close> and its profile, any number of owners over one
    database (locale \<open>spend_backend\<close>, interpreted on the SQLite store), and faults of SQLite as an
    input.
  \<^item> \<open>Price_Policy\<close>: \<open>zenon/dynamic-plasma-price-policy.js\<close>, integer arithmetic with the safe-integer
    guards, the selection of a quote and its receipt.
  \<^item> \<open>Observer_Copy\<close>, \<open>_Data\<close>, \<open>_Receipts\<close>, \<open>_State\<close>, \<open>_Steps\<close>, \<open>_Pages\<close>:
    \<open>service-credit-zenon-funding-observer-state.js\<close>, the budgeted detached copies, every validator,
    the state with its cross checks, and the exported operations on untrusted values.
    \<open>_Invariant\<close>, \<open>_Receiving\<close>, \<open>_Applying\<close>, \<open>_Including\<close>, \<open>_Runs\<close>, \<open>_History\<close>, \<open>_Versions\<close>, \<open>_Limits\<close>:
    which states are valid, that each operation produces one, what a run does to the chain it rests
    on, and how large a state can be. \<open>_Stored\<close>: that the stored text is read back. \<open>_Calls\<close>, \<open>_Catch_Up\<close>, \<open>_Watch\<close>, \<open>_Demo\<close>: what a lawful caller
    sends, an honest chain, the loop that follows it, and a concrete observer.
  \<^item> \<open>Payer_Address\<close>, \<open>Payer_Routing\<close>: \<open>zenon/fixed-payer-shard-routing.js\<close> on 32-bit words.
    \<open>Worker_Admission\<close>, \<open>Worker_Invariant\<close>: \<open>zenon/payer-worker-admission.js\<close>.
  \<^item> \<open>Bytes_Text\<close>, \<open>Payment_Wire\<close>, \<open>Payment_Envelope\<close>: \<open>x402-wire.js\<close>, base64, requirements and resources,
    the two envelopes, the advertised capabilities and the headers.
  \<^item> \<open>Journal_Text\<close>, \<open>_Time\<close>, \<open>_Records\<close>, \<open>_Disk\<close>, \<open>_Operations\<close>: \<open>settlement-journal.js\<close> and
    \<open>journal-momentum-confirmation-advance.js\<close>, the limited snapshots and the writer, time stamps, the
    validators, the files, and every method. \<open>_Layout\<close>, \<open>_Reader\<close>, \<open>_Capacity\<close>: the text in closed form,
    a JSON reader that reads it back, and values that are small enough to be stored. \<open>_Forward\<close>,
    \<open>_Contents\<close>, \<open>_Progress\<close>, \<open>_Steps\<close>, \<open>_Methods\<close>, \<open>_Machine\<close>: that every method only moves the stored
    journal forward, wherever it stops, and what a method that returned has stored. \<open>_Absence\<close>: what
    happens without the file. \<open>_Demo\<close>, \<open>_Demo_Run\<close>: one payment, claimed and delivered.
  \<^item> \<open>Service_Credit_Properties\<close>, \<open>Service_Credit_Roundtrip\<close>, \<open>Spending_Properties\<close>,
    \<open>Price_Properties\<close>, \<open>Observer_Properties\<close>, \<open>Payer_Properties\<close>, \<open>Payment_Properties\<close>,
    \<open>Journal_Properties\<close>: the properties, each after a text that states it, with a concrete case in
    which its assumptions hold.

  \<^bold>\<open>How state and operations correspond.\<close> A class with private fields is a record and each method a
  program on it; an exception is a value of the component's error datatype (\<open>Inl\<close>), and what was
  assigned before a \<open>throw\<close> stays assigned. Insertion-ordered maps are association lists or maps,
  object identity is a position in a list, JavaScript numbers are integers with the safe-integer
  tests written out, and 32-bit operators work on 32-bit words. The map of activations by transaction
  compares arrays by identity: its keys are texts, numbered arrays, and arrays that only one record
  holds. Validators take the untrusted value
  and give a record or fail. The settlement journal keeps JSON objects as they are, because it stores
  and digests their texts; its directory is a record of the journal file, the marker and the number
  of temporary files, and every call to the operating system is a step that succeeds, fails or is
  the last one of the process, as a script says. A run is a list of calls with such scripts.

  \<^bold>\<open>Parameters.\<close> SHA-256 is a function argument (\<open>sha\<close>, \<open>digest\<close>), \<open>JSON.parse\<close>, the UTF-8 decoder,
  the URL parser, the clock and the pricing function likewise, and so are the answers of the operating
  system to \<open>readManifest\<close> and the journal, and the outcome of each SQLite statement. What a property needs of them is a named
  hypothesis: that digests are 64 lowercase hexadecimal digits (\<open>hex_digest\<close>), that parsing the
  written text gives the written value (\<open>reads_back\<close> for the texts the journal writes, \<open>parses_back\<close> for
  values of safe integers with their keys in JavaScript's order; both hold for the reader of
  \<open>Journal_Reader\<close>), and no more; no property assumes that SHA-256 is injective
  unless its statement says so.

  \<^bold>\<open>What the lemmas show.\<close>
  \<^item> Service credit (C1 to C12): units are conserved, an execution is authorised at most once, a
    request that was decided is never decided again, identities are bound once (a transaction by its
    text, or by the very array that names it), a failed call leaves no trace but the expiry of a
    grant, every operation refines the events, and a state survives export and hydration unless one
    of its transaction ids is an array. Held units can always be settled, public operations are not
    reentrant, and \<open>readOriginalFundingGrant\<close> finds the one grant of an original payment.
  \<^item> Spending (C13 to C18): the stored journal only moves forward and keeps the limits of its policy on
    every day, with one unresolved original at a time, for any interleaving of owners and any
    faults; a fenced owner does nothing, and an owner in doubt stays held.
  \<^item> Prices (C19 to C21): the amounts pay for the block and are least; an honest observation within the
    declared clamps is always selected again.
  \<^item> Observer (C22 to C28): every reply is again a readable state within the size limits,
    nothing observed is withdrawn, a candidate rests on one chain of hash links, and against
    an honest chain the loop of planning, paging and observing ends at the frontier; the text of a
    state is bounded and is read back as the same state; quarantine is final.
  \<^item> Payers (C29 to C32): payers do not share workers or have two open tickets, a quarantined worker's
    tickets are frozen, exactly the canonical addresses are accepted, errors within six consecutive
    characters are always noticed, and an opened routing rests on an unchanged private manifest.
  \<^item> Messages (C33): a header reads back; requirements read back from the JSON that the journal digests,
    and comparing requirements or resources is equality of what was read.
  \<^item> Settlement journal (C34 to C40): with failures and crashes anywhere a record only moves forward, the
    delivery of a payment is claimed at most once and rests on an included, sufficiently confirmed
    payment for exactly that resource and requirement, a delivered response is kept, replacing the
    file is atomic, and a lost file is never replaced by an empty one.

  \<^bold>\<open>Bounds and fuel.\<close> \<open>catch_up_loop\<close> runs for at most its fuel; a distance of \<open>F - h\<close> momentums needs at most
  \<open>F - h + 2\<close> rounds (each round applies a page of at least one momentum or one inclusion), which is the
  fuel the property gives. The budgets of a detached copy are those of the source, and
  \<open>Observer_Limits\<close> shows that no valid state comes near them. The loop that reads the manifest stops
  after 4097 bytes and is total. All other recursions are structural.

  \<^bold>\<open>Limits of the model.\<close> Strings are lists of code units below 256; the program's grammars accept printable
  ASCII only. Proxies and exotic objects are described as objects with a foreign prototype or arrays
  that are not ordinary. Values are trees that nobody changes after they were handed over, so freezing
  has no effect. Only the service-credit model looks at the number of an array that several values
  share; elsewhere the values are taken to share none, so the check against an object that occurs
  twice never fires. Where \<open>normalizeActivation\<close> tests a member only by a regular expression
  (the transaction id and the test network's genesis hash), strings and ordinary arrays of one element
  are converted as the source does; an object with a conversion of its own is refused, and so is a
  value that has none, with the code of every invalid input. A counter that is negative zero in a
  snapshot counts as zero. \<open>stringify\<close> is used on safe integers only, which the validators see to, and
  for the headers the statement. The keys that the journal is asked for are strings. Its queue of calls is a list of calls, so one process at
  a time uses the file; a crash ends the process but does not undo what the operating system
  reported as done; and \<open>assertSafeDirectory\<close> is one step that may fail.

  \<^bold>\<open>Not modelled.\<close> Command lines, launchers, supervisors, child processes and pipes; HTTP, TLS and RPC;
  the SQLite stores of the service-credit model and of the observer, which keep the modelled state
  texts in transactions; the constructor and file checks of the spending store; live-evidence and
  gate-B tooling; load measurement; the native attestor; and the generated qualification profiles.
  These are input and output around the modelled decisions, or third-party code. Of \<open>x402-wire.js\<close>, the
  lenient structure checks of foreign routes and the checks that ask for frozen input.

  \<^bold>\<open>Plan.\<close> Next in order: the reconcile cycle of the observer's SQLite store, and the purchase terms
  and orders (\<open>service-purchase-*.js\<close>).
\<close>

end
